(* ===== verification/Cyp_Prelude.thy ===== *)
theory Cyp_Prelude
  imports Main "HOL-Library.Word" "HOL-Library.Monad_Syntax"
begin

text \<open>
  The vocabulary shared by every component of the Cypher engine (src/src/cypher/cypher.c):
  C strings as lists of bytes, the functions of the C library that the engine calls
  (ctype, strcasecmp, strcmp, strncmp, strstr, strchr, strtol, snprintf into a bounded buffer)
  and generic lemmas on lists and options.  A C string is a \<open>string\<close> without the byte 0;
  a \<open>const char *\<close> that may be NULL is a \<open>string option\<close>.
  Allocation is taken to succeed: the branches of the source that only handle a failed
  malloc or realloc have no counterpart.
\<close>

named_theorems cyp_simps \<open>unfolding rules of small model definitions\<close>
named_theorems cyp_fuel \<open>facts saying how far a parsing step moves the cursor\<close>

section \<open>Bytes and ctype\<close>

abbreviation NUL :: char where "NUL \<equiv> CHR 0x00"

text \<open>ctype in the C locale, on the unsigned byte.\<close>

definition c_isdigit :: "char \<Rightarrow> bool" where
  "c_isdigit c \<longleftrightarrow> 48 \<le> (of_char c :: nat) \<and> (of_char c :: nat) \<le> 57"

definition c_isalpha :: "char \<Rightarrow> bool" where
  "c_isalpha c \<longleftrightarrow> (65 \<le> (of_char c :: nat) \<and> (of_char c :: nat) \<le> 90)
                 \<or> (97 \<le> (of_char c :: nat) \<and> (of_char c :: nat) \<le> 122)"

definition c_isalnum :: "char \<Rightarrow> bool" where
  "c_isalnum c \<longleftrightarrow> c_isalpha c \<or> c_isdigit c"

definition c_isspace :: "char \<Rightarrow> bool" where
  "c_isspace c \<longleftrightarrow> of_char c = (32 :: nat) \<or> (9 \<le> (of_char c :: nat) \<and> (of_char c :: nat) \<le> 13)"

definition c_tolower :: "char \<Rightarrow> char" where
  "c_tolower c = (if 65 \<le> (of_char c :: nat) \<and> (of_char c :: nat) \<le> 90
                  then char_of ((of_char c :: nat) + 32) else c)"

definition c_toupper :: "char \<Rightarrow> char" where
  "c_toupper c = (if 97 \<le> (of_char c :: nat) \<and> (of_char c :: nat) \<le> 122
                  then char_of ((of_char c :: nat) - 32) else c)"

section \<open>C strings\<close>

text \<open>The part of a byte sequence that C sees as a string: up to the first byte 0.\<close>

definition cstr :: "string \<Rightarrow> string" where
  "cstr s = takeWhile (\<lambda>c. c \<noteq> NUL) s"

text \<open>\<open>snprintf (buf, n, ...)\<close> keeps the first \<open>n - 1\<close> bytes of what it formats.\<close>

definition snprintf_buf :: "nat \<Rightarrow> string \<Rightarrow> string" where
  "snprintf_buf n s = take (n - 1) s"

text \<open>\<open>strcasecmp (a, b) == 0\<close>.\<close>

definition strcaseeq :: "string \<Rightarrow> string \<Rightarrow> bool" where
  "strcaseeq a b \<longleftrightarrow> map c_tolower a = map c_tolower b"

text \<open>\<open>strcmp\<close>: the sign of the first difference between unsigned bytes.\<close>

fun strcmp :: "string \<Rightarrow> string \<Rightarrow> int" where
  "strcmp [] [] = 0"
| "strcmp [] (b # bs) = -1"
| "strcmp (a # as) [] = 1"
| "strcmp (a # as) (b # bs) =
     (if a = b then strcmp as bs
      else if (of_char a :: nat) < of_char b then -1 else 1)"

text \<open>\<open>strstr (hay, needle)\<close>: the suffix of \<open>hay\<close> at the first occurrence, NULL if none.\<close>

fun starts_with :: "string \<Rightarrow> string \<Rightarrow> bool" where
  "starts_with [] s = True"
| "starts_with (p # ps) [] = False"
| "starts_with (p # ps) (c # cs) = (p = c \<and> starts_with ps cs)"

fun strstr :: "string \<Rightarrow> string \<Rightarrow> string option" where
  "strstr [] needle = (if needle = [] then Some [] else None)"
| "strstr (c # cs) needle = (if starts_with needle (c # cs) then Some (c # cs) else strstr cs needle)"

definition strchr :: "string \<Rightarrow> char \<Rightarrow> bool" where
  "strchr s c \<longleftrightarrow> c \<in> set s"

section \<open>Integers\<close>

text \<open>A value stored in a C \<open>int\<close> of 32 bits, as gcc and clang convert it.\<close>

definition int32 :: "int \<Rightarrow> int" where
  "int32 v = sint (word_of_int v :: 32 word)"

abbreviation LONG_MAX :: int where "LONG_MAX \<equiv> 9223372036854775807"
abbreviation LONG_MIN :: int where "LONG_MIN \<equiv> -9223372036854775808"

fun digits_value :: "int \<Rightarrow> string \<Rightarrow> int" where
  "digits_value acc [] = acc"
| "digits_value acc (c # cs) = digits_value (10 * acc + (int (of_char c) - 48)) cs"

text \<open>\<open>strtol (s, NULL, 10)\<close> on a 64-bit \<open>long\<close>: white space, a sign, digits, saturating.\<close>

definition strtol :: "string \<Rightarrow> int" where
  "strtol s =
     (let t = dropWhile c_isspace s;
          neg = (case t of c # cs \<Rightarrow> c = CHR ''-'' | [] \<Rightarrow> False);
          d = (case t of c # cs \<Rightarrow> if c = CHR ''-'' \<or> c = CHR ''+'' then cs else t | [] \<Rightarrow> []);
          v = digits_value 0 (takeWhile c_isdigit d)
      in if neg then max LONG_MIN (- v) else min LONG_MAX v)"

text \<open>\<open>%d\<close>, \<open>%lld\<close> and \<open>%zu\<close>.\<close>

fun nat_digits :: "nat \<Rightarrow> string" where
  "nat_digits n = (if n < 10 then [char_of (48 + n)]
                   else nat_digits (n div 10) @ [char_of (48 + n mod 10)])"

declare nat_digits.simps [simp del]

definition show_int :: "int \<Rightarrow> string" where
  "show_int v = (if v < 0 then CHR ''-'' # nat_digits (nat (- v)) else nat_digits (nat v))"

section \<open>Generic lemmas\<close>

lemma not_eof_take_drop: "i < length xs \<Longrightarrow> drop i xs = xs ! i # drop (Suc i) xs"
  by (simp add: Cons_nth_drop_Suc)

lemma starts_with_iff: "starts_with p s \<longleftrightarrow> (\<exists>t. s = p @ t)"
  by (induction p s rule: starts_with.induct) auto

lemma strcmp_eq_0 [simp]: "strcmp a b = 0 \<longleftrightarrow> a = b"
  by (induction a b rule: strcmp.induct) auto

lemma strcmp_refl [simp]: "strcmp a a = 0"
  by simp

lemma strcmp_antisym: "strcmp b a = - strcmp a b"
  by (induction a b rule: strcmp.induct) auto

lemma strcmp_cases: "strcmp a b = 0 \<or> strcmp a b = 1 \<or> strcmp a b = -1"
  by (induction a b rule: strcmp.induct) auto

lemma strcmp_trans: "strcmp a b \<le> 0 \<Longrightarrow> strcmp b c \<le> 0 \<Longrightarrow> strcmp a c \<le> 0"
proof (induction a b arbitrary: c rule: strcmp.induct)
  case (4 x xs y ys)
  then show ?case
    by (cases c) (auto split: if_splits)
next
  case (2 b bs)
  then show ?case by (cases c) auto
qed (auto split: if_splits)

lemma snprintf_buf_length: "length (snprintf_buf n s) \<le> n - 1"
  by (simp add: snprintf_buf_def)

lemma snprintf_buf_id: "length s < n \<Longrightarrow> snprintf_buf n s = s"
  by (simp add: snprintf_buf_def)

lemma strcaseeq_refl [simp]: "strcaseeq a a"
  by (simp add: strcaseeq_def)

lemma strcaseeq_cong: "strcaseeq a b \<Longrightarrow> strcaseeq a k = strcaseeq b k"
  by (simp add: strcaseeq_def)

lemma c_tolower_letters [simp]:
  "c_tolower (CHR ''A'') = CHR ''a''" "c_tolower (CHR ''a'') = CHR ''a''"
  "c_tolower (CHR ''B'') = CHR ''b''" "c_tolower (CHR ''b'') = CHR ''b''"
  "c_tolower (CHR ''C'') = CHR ''c''" "c_tolower (CHR ''c'') = CHR ''c''"
  "c_tolower (CHR ''D'') = CHR ''d''" "c_tolower (CHR ''d'') = CHR ''d''"
  "c_tolower (CHR ''E'') = CHR ''e''" "c_tolower (CHR ''e'') = CHR ''e''"
  "c_tolower (CHR ''F'') = CHR ''f''" "c_tolower (CHR ''f'') = CHR ''f''"
  "c_tolower (CHR ''G'') = CHR ''g''" "c_tolower (CHR ''g'') = CHR ''g''"
  "c_tolower (CHR ''H'') = CHR ''h''" "c_tolower (CHR ''h'') = CHR ''h''"
  "c_tolower (CHR ''I'') = CHR ''i''" "c_tolower (CHR ''i'') = CHR ''i''"
  "c_tolower (CHR ''J'') = CHR ''j''" "c_tolower (CHR ''j'') = CHR ''j''"
  "c_tolower (CHR ''K'') = CHR ''k''" "c_tolower (CHR ''k'') = CHR ''k''"
  "c_tolower (CHR ''L'') = CHR ''l''" "c_tolower (CHR ''l'') = CHR ''l''"
  "c_tolower (CHR ''M'') = CHR ''m''" "c_tolower (CHR ''m'') = CHR ''m''"
  "c_tolower (CHR ''N'') = CHR ''n''" "c_tolower (CHR ''n'') = CHR ''n''"
  "c_tolower (CHR ''O'') = CHR ''o''" "c_tolower (CHR ''o'') = CHR ''o''"
  "c_tolower (CHR ''P'') = CHR ''p''" "c_tolower (CHR ''p'') = CHR ''p''"
  "c_tolower (CHR ''Q'') = CHR ''q''" "c_tolower (CHR ''q'') = CHR ''q''"
  "c_tolower (CHR ''R'') = CHR ''r''" "c_tolower (CHR ''r'') = CHR ''r''"
  "c_tolower (CHR ''S'') = CHR ''s''" "c_tolower (CHR ''s'') = CHR ''s''"
  "c_tolower (CHR ''T'') = CHR ''t''" "c_tolower (CHR ''t'') = CHR ''t''"
  "c_tolower (CHR ''U'') = CHR ''u''" "c_tolower (CHR ''u'') = CHR ''u''"
  "c_tolower (CHR ''V'') = CHR ''v''" "c_tolower (CHR ''v'') = CHR ''v''"
  "c_tolower (CHR ''W'') = CHR ''w''" "c_tolower (CHR ''w'') = CHR ''w''"
  "c_tolower (CHR ''X'') = CHR ''x''" "c_tolower (CHR ''x'') = CHR ''x''"
  "c_tolower (CHR ''Y'') = CHR ''y''" "c_tolower (CHR ''y'') = CHR ''y''"
  "c_tolower (CHR ''Z'') = CHR ''z''" "c_tolower (CHR ''z'') = CHR ''z''"
  by (simp_all add: c_tolower_def char_of_def bit_0)

lemma takeWhile_append_stop: "\<forall>x\<in>set xs. P x \<Longrightarrow> \<not> P y \<Longrightarrow> takeWhile P (xs @ y # ys) = xs"
  by (induction xs) auto

lemma dropWhile_append_stop: "\<forall>x\<in>set xs. P x \<Longrightarrow> \<not> P y \<Longrightarrow> dropWhile P (xs @ y # ys) = y # ys"
  by (induction xs) auto

end
