(* ===== verification/Cyp_Token.thy ===== *)
theory Cyp_Token
  imports Cyp_Prelude
begin

text \<open>
  The token alphabet of the Cypher lexer (src/src/cypher/cypher.h): the enumeration
  \<open>pmm_token_type_t\<close> in its order, the token record, the lexer's result and the
  case-insensitive keyword table of src/src/cypher/cypher.c.
\<close>

text \<open>\<open>pmm_token_type_t\<close>.\<close>

datatype (plugins only: size) tok =
    TOK_MATCH | TOK_WHERE | TOK_RETURN | TOK_ORDER | TOK_BY | TOK_LIMIT | TOK_AND | TOK_OR |
    TOK_AS | TOK_DISTINCT | TOK_COUNT | TOK_CONTAINS | TOK_STARTS | TOK_WITH | TOK_NOT | TOK_ASC
    | TOK_DESC | TOK_NEQ | TOK_ENDS | TOK_IN | TOK_IS | TOK_NULL_KW | TOK_XOR | TOK_SKIP |
    TOK_UNION | TOK_UNWIND | TOK_SUM | TOK_AVG | TOK_MIN_KW | TOK_MAX_KW | TOK_COLLECT |
    TOK_TOLOWER | TOK_TOUPPER | TOK_TOSTRING | TOK_CASE | TOK_WHEN | TOK_THEN | TOK_ELSE |
    TOK_END | TOK_CREATE | TOK_DELETE | TOK_DETACH | TOK_SET | TOK_REMOVE | TOK_MERGE |
    TOK_OPTIONAL | TOK_YIELD | TOK_CALL | TOK_ALL | TOK_TRUE | TOK_FALSE | TOK_EXISTS |
    TOK_MANDATORY | TOK_FOREACH | TOK_ON | TOK_ADD | TOK_CONSTRAINT | TOK_DO | TOK_DROP |
    TOK_FOR | TOK_FROM | TOK_GRAPH | TOK_OF | TOK_REQUIRE | TOK_SCALAR | TOK_UNIQUE | TOK_LPAREN
    | TOK_RPAREN | TOK_LBRACKET | TOK_RBRACKET | TOK_DASH | TOK_GT | TOK_LT | TOK_COLON |
    TOK_DOT | TOK_LBRACE | TOK_RBRACE | TOK_STAR | TOK_COMMA | TOK_EQ | TOK_EQTILDE | TOK_GTE |
    TOK_LTE | TOK_PIPE | TOK_DOTDOT | TOK_IDENT | TOK_STRING | TOK_NUMBER | TOK_EOF

text \<open>The enumeration in its order; the position is the integer that C gives a token type.\<close>

definition token_types :: "tok list" where
  "token_types = [
    TOK_MATCH, TOK_WHERE, TOK_RETURN, TOK_ORDER, TOK_BY, TOK_LIMIT, TOK_AND, TOK_OR, TOK_AS,
    TOK_DISTINCT, TOK_COUNT, TOK_CONTAINS, TOK_STARTS, TOK_WITH, TOK_NOT, TOK_ASC, TOK_DESC,
    TOK_NEQ, TOK_ENDS, TOK_IN, TOK_IS, TOK_NULL_KW, TOK_XOR, TOK_SKIP, TOK_UNION, TOK_UNWIND,
    TOK_SUM, TOK_AVG, TOK_MIN_KW, TOK_MAX_KW, TOK_COLLECT, TOK_TOLOWER, TOK_TOUPPER,
    TOK_TOSTRING, TOK_CASE, TOK_WHEN, TOK_THEN, TOK_ELSE, TOK_END, TOK_CREATE, TOK_DELETE,
    TOK_DETACH, TOK_SET, TOK_REMOVE, TOK_MERGE, TOK_OPTIONAL, TOK_YIELD, TOK_CALL, TOK_ALL,
    TOK_TRUE, TOK_FALSE, TOK_EXISTS, TOK_MANDATORY, TOK_FOREACH, TOK_ON, TOK_ADD,
    TOK_CONSTRAINT, TOK_DO, TOK_DROP, TOK_FOR, TOK_FROM, TOK_GRAPH, TOK_OF, TOK_REQUIRE,
    TOK_SCALAR, TOK_UNIQUE, TOK_LPAREN, TOK_RPAREN, TOK_LBRACKET, TOK_RBRACKET, TOK_DASH,
    TOK_GT, TOK_LT, TOK_COLON, TOK_DOT, TOK_LBRACE, TOK_RBRACE, TOK_STAR, TOK_COMMA, TOK_EQ,
    TOK_EQTILDE, TOK_GTE, TOK_LTE, TOK_PIPE, TOK_DOTDOT, TOK_IDENT, TOK_STRING, TOK_NUMBER,
    TOK_EOF
  ]"

definition tok_code :: "tok \<Rightarrow> nat" where
  "tok_code t = length (takeWhile (\<lambda>u. u \<noteq> t) token_types)"

record token =
  tk_type :: tok
  tk_text :: string
  tk_pos :: nat

text \<open>\<open>pmm_lex_result_t\<close>; the capacity of the array is not modelled.\<close>

record lex_result =
  lr_tokens :: "token list"
  lr_error :: "string option"

definition keyword_table :: "(string \<times> tok) list" where
  "keyword_table = [
    (''MATCH'', TOK_MATCH), (''WHERE'', TOK_WHERE), (''RETURN'', TOK_RETURN), (''ORDER'',
    TOK_ORDER), (''BY'', TOK_BY), (''LIMIT'', TOK_LIMIT), (''AND'', TOK_AND), (''OR'', TOK_OR),
    (''AS'', TOK_AS), (''DISTINCT'', TOK_DISTINCT), (''COUNT'', TOK_COUNT), (''CONTAINS'',
    TOK_CONTAINS), (''STARTS'', TOK_STARTS), (''WITH'', TOK_WITH), (''NOT'', TOK_NOT), (''ASC'',
    TOK_ASC), (''DESC'', TOK_DESC), (''ENDS'', TOK_ENDS), (''IN'', TOK_IN), (''IS'', TOK_IS),
    (''NULL'', TOK_NULL_KW), (''XOR'', TOK_XOR), (''SKIP'', TOK_SKIP), (''UNION'', TOK_UNION),
    (''UNWIND'', TOK_UNWIND), (''SUM'', TOK_SUM), (''AVG'', TOK_AVG), (''MIN'', TOK_MIN_KW),
    (''MAX'', TOK_MAX_KW), (''COLLECT'', TOK_COLLECT), (''toLower'', TOK_TOLOWER), (''toUpper'',
    TOK_TOUPPER), (''toString'', TOK_TOSTRING), (''tolower'', TOK_TOLOWER), (''toupper'',
    TOK_TOUPPER), (''tostring'', TOK_TOSTRING), (''CASE'', TOK_CASE), (''WHEN'', TOK_WHEN),
    (''THEN'', TOK_THEN), (''ELSE'', TOK_ELSE), (''END'', TOK_END), (''OPTIONAL'',
    TOK_OPTIONAL), (''CREATE'', TOK_CREATE), (''DELETE'', TOK_DELETE), (''DETACH'', TOK_DETACH),
    (''SET'', TOK_SET), (''REMOVE'', TOK_REMOVE), (''MERGE'', TOK_MERGE), (''YIELD'',
    TOK_YIELD), (''CALL'', TOK_CALL), (''ALL'', TOK_ALL), (''TRUE'', TOK_TRUE), (''FALSE'',
    TOK_FALSE), (''EXISTS'', TOK_EXISTS), (''MANDATORY'', TOK_MANDATORY), (''FOREACH'',
    TOK_FOREACH), (''ON'', TOK_ON), (''ADD'', TOK_ADD), (''CONSTRAINT'', TOK_CONSTRAINT),
    (''DO'', TOK_DO), (''DROP'', TOK_DROP), (''FOR'', TOK_FOR), (''FROM'', TOK_FROM),
    (''GRAPH'', TOK_GRAPH), (''OF'', TOK_OF), (''REQUIRE'', TOK_REQUIRE), (''SCALAR'',
    TOK_SCALAR), (''UNIQUE'', TOK_UNIQUE)
  ]"

fun keyword_scan :: "(string \<times> tok) list \<Rightarrow> string \<Rightarrow> tok" where
  "keyword_scan [] word = TOK_IDENT"
| "keyword_scan ((name, t) # kws) word = (if strcaseeq word name then t else keyword_scan kws word)"

definition keyword_lookup :: "string \<Rightarrow> tok" where
  "keyword_lookup word = keyword_scan keyword_table word"

lemma keyword_scan_cong: "strcaseeq a b \<Longrightarrow> keyword_scan kws a = keyword_scan kws b"
  by (induction kws b rule: keyword_scan.induct) (simp_all add: strcaseeq_cong)

lemma keyword_scan_range: "keyword_scan kws word \<in> insert TOK_IDENT (snd ` set kws)"
  by (induction kws word rule: keyword_scan.induct) auto

lemma keyword_not_eof: "keyword_lookup word \<noteq> TOK_EOF"
  using keyword_scan_range [of keyword_table word]
  by (auto simp: keyword_lookup_def keyword_table_def simp del: keyword_scan.simps)

end
