(* ===== verification/Cyp_Lexer.thy ===== *)
theory Cyp_Lexer
  imports Cyp_Token
begin

text \<open>
  The lexer of src/src/cypher/cypher.c.  The C code walks an index \<open>i\<close> over
  \<open>input[0..len)\<close>; here a cursor is the pair of that index and the bytes from it on, so
  that \<open>input[i]\<close> is the head of the second component and \<open>i + 1 < len\<close> says that it
  has two bytes at least.  The main loop is \<open>lex_loop\<close>, a recursion on the bytes left; its
  termination is the lemma \<open>lex_step_decreases\<close>.
\<close>

type_synonym cursor = "nat \<times> string"

section \<open>Definitions\<close>

definition lex_push :: "lex_result \<Rightarrow> tok \<Rightarrow> string \<Rightarrow> nat \<Rightarrow> lex_result" where
  "lex_push r type text pos =
     r\<lparr>lr_tokens := lr_tokens r @ [\<lparr>tk_type = type, tk_text = text, tk_pos = pos\<rparr>]\<rparr>"

definition lex_push_n :: "lex_result \<Rightarrow> tok \<Rightarrow> string \<Rightarrow> nat \<Rightarrow> nat \<Rightarrow> lex_result" where
  "lex_push_n r type start len pos =
     r\<lparr>lr_tokens := lr_tokens r @ [\<lparr>tk_type = type, tk_text = take len start, tk_pos = pos\<rparr>]\<rparr>"

text \<open>The 4096-byte buffer of a string literal: bytes beyond 4095 are dropped.\<close>

definition max_blen :: nat where "max_blen = 4095"

definition str_push :: "string \<Rightarrow> char \<Rightarrow> string" where
  "str_push buf c = (if length buf < max_blen then buf @ [c] else buf)"

definition unescape :: "char \<Rightarrow> char" where
  "unescape c = (if c = CHR ''n'' then CHR 0x0A
                 else if c = CHR ''t'' then CHR 0x09
                 else c)"

fun lex_string_scan :: "char \<Rightarrow> nat \<Rightarrow> string \<Rightarrow> string \<Rightarrow> string \<times> cursor" where
  "lex_string_scan quote pos [] buf = (buf, (pos, []))"
| "lex_string_scan quote pos [c] buf =
     (if c = quote then (buf, (pos, [c])) else (str_push buf c, (pos + 1, [])))"
| "lex_string_scan quote pos (c # d # cs) buf =
     (if c = quote then (buf, (pos, c # d # cs))
      else if c = CHR 0x5C then lex_string_scan quote (pos + 2) cs (str_push buf (unescape d))
      else lex_string_scan quote (pos + 1) (d # cs) (str_push buf c))"

definition lex_string_literal :: "cursor \<Rightarrow> char \<Rightarrow> lex_result \<Rightarrow> cursor \<times> lex_result" where
  "lex_string_literal cur quote out =
     (let start = fst cur;
          (buf, (pos, rest)) = lex_string_scan quote (fst cur) (snd cur) [];
          cur' = (if rest \<noteq> [] then (pos + 1, tl rest) else (pos, rest))
      in (cur', lex_push out TOK_STRING buf (start - 1)))"

definition two_char_pairs :: "(char \<times> char \<times> tok \<times> string) list" where
  "two_char_pairs =
     [(CHR ''!'', CHR ''='', TOK_NEQ, ''!=''), (CHR ''<'', CHR ''>'', TOK_NEQ, ''<>''),
      (CHR ''='', CHR ''~'', TOK_EQTILDE, ''=~''), (CHR ''>'', CHR ''='', TOK_GTE, ''>=''),
      (CHR ''<'', CHR ''='', TOK_LTE, ''<=''), (CHR ''.'', CHR ''.'', TOK_DOTDOT, ''..'')]"

definition lex_try_two_char :: "cursor \<Rightarrow> lex_result \<Rightarrow> (cursor \<times> lex_result) option" where
  "lex_try_two_char cur out =
     (case snd cur of
        c # c2 # cs \<Rightarrow>
          (case find (\<lambda>(p1, p2, type, text). c = p1 \<and> c2 = p2) two_char_pairs of
             Some (p1, p2, type, text) \<Rightarrow> Some ((fst cur + 2, cs), lex_push out type text (fst cur))
           | None \<Rightarrow> None)
      | _ \<Rightarrow> None)"

definition lex_single_char :: "char \<Rightarrow> tok" where
  "lex_single_char c =
     (if c = CHR ''('' then TOK_LPAREN
      else if c = CHR '')'' then TOK_RPAREN
      else if c = CHR ''['' then TOK_LBRACKET
      else if c = CHR '']'' then TOK_RBRACKET
      else if c = CHR ''-'' then TOK_DASH
      else if c = CHR ''>'' then TOK_GT
      else if c = CHR ''<'' then TOK_LT
      else if c = CHR '':'' then TOK_COLON
      else if c = CHR ''.'' then TOK_DOT
      else if c = CHR ''{'' then TOK_LBRACE
      else if c = CHR ''}'' then TOK_RBRACE
      else if c = CHR ''*'' then TOK_STAR
      else if c = CHR '','' then TOK_COMMA
      else if c = CHR ''='' then TOK_EQ
      else if c = CHR ''|'' then TOK_PIPE
      else TOK_EOF)"

definition ident_start :: "char \<Rightarrow> bool" where
  "ident_start c \<longleftrightarrow> c_isalpha c \<or> c = CHR ''_''"

definition ident_char :: "char \<Rightarrow> bool" where
  "ident_char c \<longleftrightarrow> c_isalnum c \<or> c = CHR ''_''"

text \<open>The keyword is looked up in a 256-byte copy of the word; the token keeps the whole word.\<close>

definition lex_try_ident :: "cursor \<Rightarrow> lex_result \<Rightarrow> (cursor \<times> lex_result) option" where
  "lex_try_ident cur out =
     (let start = snd cur; w = takeWhile ident_char start in
      if \<not> ident_start (hd start) then None
      else Some ((fst cur + length w, dropWhile ident_char start),
                 lex_push_n out (keyword_lookup (take 255 w)) start (length w) (fst cur)))"

text \<open>The run of a number: digits, and a dot unless it is the last byte or another dot follows.\<close>

fun number_run :: "string \<Rightarrow> nat" where
  "number_run [] = 0"
| "number_run [c] = (if c_isdigit c then 1 else 0)"
| "number_run (c # d # cs) =
     (if c_isdigit c \<or> (c = CHR ''.'' \<and> d \<noteq> CHR ''.'') then Suc (number_run (d # cs)) else 0)"

definition number_start :: "string \<Rightarrow> bool" where
  "number_start s \<longleftrightarrow>
     (case s of
        [] \<Rightarrow> False
      | [c] \<Rightarrow> c_isdigit c
      | c # d # _ \<Rightarrow> c_isdigit c \<or> (c = CHR ''.'' \<and> c_isdigit d))"

definition lex_try_number :: "cursor \<Rightarrow> lex_result \<Rightarrow> (cursor \<times> lex_result) option" where
  "lex_try_number cur out =
     (let start = snd cur; n = number_run start in
      if \<not> number_start start then None
      else Some ((fst cur + n, drop n start), lex_push_n out TOK_NUMBER start n (fst cur)))"

fun block_comment_end :: "nat \<Rightarrow> string \<Rightarrow> cursor" where
  "block_comment_end i [] = (i, [])"
| "block_comment_end i [c] = (i, [c])"
| "block_comment_end i (c # d # cs) =
     (if c = CHR ''*'' \<and> d = CHR ''/'' then (i, c # d # cs) else block_comment_end (i + 1) (d # cs))"

definition skip_line :: "cursor \<Rightarrow> cursor" where
  "skip_line cur = (fst cur + length (takeWhile (\<lambda>c. c \<noteq> CHR 0x0A) (snd cur)),
                    dropWhile (\<lambda>c. c \<noteq> CHR 0x0A) (snd cur))"

definition lex_skip_whitespace_comments :: "cursor \<Rightarrow> cursor option" where
  "lex_skip_whitespace_comments cur =
     (case snd cur of
        [] \<Rightarrow> None
      | c # cs \<Rightarrow>
          if c_isspace c then Some (fst cur + 1, cs)
          else (case cs of
                  [] \<Rightarrow> None
                | d # ds \<Rightarrow>
                    if c = CHR ''/'' \<and> d = CHR ''/'' then Some (skip_line cur)
                    else if c = CHR ''-'' \<and> d = CHR ''-'' then Some (skip_line cur)
                    else if c = CHR ''/'' \<and> d = CHR ''*'' then
                      (let (i, rest) = block_comment_end (fst cur + 2) ds
                       in Some (if 2 \<le> length rest then (i + 2, drop 2 rest) else (i, rest)))
                    else None))"

text \<open>One round of the main loop of \<open>pmm_lex\<close>, on a cursor with \<open>i < len\<close>.\<close>

definition lex_step :: "cursor \<Rightarrow> lex_result \<Rightarrow> cursor \<times> lex_result" where
  "lex_step cur out =
     (case lex_skip_whitespace_comments cur of
        Some cur' \<Rightarrow> (cur', out)
      | None \<Rightarrow>
          let i = fst cur; c = hd (snd cur) in
          if c = CHR 0x22 \<or> c = CHR 0x27 then lex_string_literal (i + 1, tl (snd cur)) c out
          else (case lex_try_number cur out of
            Some r \<Rightarrow> r
          | None \<Rightarrow> (case lex_try_ident cur out of
            Some r \<Rightarrow> r
          | None \<Rightarrow> (case lex_try_two_char cur out of
            Some r \<Rightarrow> r
          | None \<Rightarrow>
              let stype = lex_single_char c in
              if stype \<noteq> TOK_EOF then ((i + 1, tl (snd cur)), lex_push out stype [c] i)
              else ((i + 1, tl (snd cur)), out)))))"

section \<open>Termination of the main loop\<close>

lemma lex_string_scan_length:
  "length (snd (snd (lex_string_scan q pos s buf))) \<le> length s"
  by (induction q pos s buf rule: lex_string_scan.induct) auto

lemma block_comment_end_length: "length (snd (block_comment_end i s)) \<le> length s"
  by (induction i s rule: block_comment_end.induct) auto

lemma number_run_le: "number_run s \<le> length s"
  by (induction s rule: number_run.induct) auto

lemma number_run_pos: "number_start s \<Longrightarrow> 0 < number_run s"
  by (cases s rule: number_run.cases) (auto simp: number_start_def c_isdigit_def)

lemma skip_line_length: "length (snd (skip_line cur)) \<le> length (snd cur)"
  by (simp add: skip_line_def length_dropWhile_le)

lemma lex_skip_length:
  assumes "lex_skip_whitespace_comments cur = Some cur'"
  shows "length (snd cur') < length (snd cur)"
proof -
  obtain c cs where s: "snd cur = c # cs"
    using assms by (cases "snd cur") (auto simp: lex_skip_whitespace_comments_def)
  have line: "length (snd (skip_line cur)) < length (snd cur)" if "c \<noteq> CHR 0x0A"
    using that length_dropWhile_le [of "\<lambda>c. c \<noteq> CHR 0x0A" cs]
    by (simp add: skip_line_def s)
  show ?thesis
  proof (cases "c_isspace c")
    case True
    then show ?thesis using assms by (auto simp: lex_skip_whitespace_comments_def s)
  next
    case False
    then have nl: "c \<noteq> CHR 0x0A" by (auto simp: c_isspace_def)
    obtain d ds where cs: "cs = d # ds"
      using assms False by (cases cs) (auto simp: lex_skip_whitespace_comments_def s)
    show ?thesis
      using assms False line [OF nl] block_comment_end_length [of "Suc (Suc (fst cur))" ds]
      by (auto simp: lex_skip_whitespace_comments_def s cs Let_def case_prod_beta split: if_splits)
  qed
qed

lemma lex_string_literal_length:
  "length (snd (fst (lex_string_literal cur q out))) \<le> length (snd cur)"
  using lex_string_scan_length [of q "fst cur" "snd cur" "[]"]
  by (auto simp: lex_string_literal_def split: prod.splits)

lemma lex_try_number_length:
  "lex_try_number cur out = Some (cur', out') \<Longrightarrow> length (snd cur') < length (snd cur)"
  using number_run_pos [of "snd cur"] number_run_le [of "snd cur"]
  by (auto simp: lex_try_number_def Let_def split: if_splits)

lemma ident_start_char: "ident_start c \<Longrightarrow> ident_char c"
  by (auto simp: ident_start_def ident_char_def c_isalnum_def)

lemma lex_try_ident_length:
  assumes "lex_try_ident cur out = Some (cur', out')" "snd cur \<noteq> []"
  shows "length (snd cur') < length (snd cur)"
proof -
  obtain c cs where s: "snd cur = c # cs" using assms(2) by (cases "snd cur") auto
  then have "ident_char c"
    using assms(1) by (auto simp: lex_try_ident_def Let_def ident_start_char split: if_splits)
  then show ?thesis
    using assms(1) length_dropWhile_le [of ident_char cs]
    by (auto simp: lex_try_ident_def Let_def s split: if_splits)
qed

lemma lex_try_two_char_length:
  "lex_try_two_char cur out = Some (cur', out') \<Longrightarrow> length (snd cur') < length (snd cur)"
  by (auto simp: lex_try_two_char_def split: list.splits option.splits prod.splits)

lemma lex_step_decreases:
  assumes "snd cur \<noteq> []"
  shows "length (snd (fst (lex_step cur out))) < length (snd cur)"
proof -
  obtain c cs where s: "snd cur = c # cs" using assms by (cases "snd cur") auto
  show ?thesis
    using assms lex_skip_length [of cur] lex_try_number_length [of cur out]
      lex_try_ident_length [of cur out] lex_try_two_char_length [of cur out]
      lex_string_literal_length [of "(fst cur + 1, cs)" c out]
    by (auto simp: lex_step_def s Let_def split: option.splits)
qed

function lex_loop :: "cursor \<Rightarrow> lex_result \<Rightarrow> cursor \<times> lex_result" where
  "lex_loop cur out =
     (if snd cur = [] then (cur, out)
      else lex_loop (fst (lex_step cur out)) (snd (lex_step cur out)))"
  by pat_completeness auto
termination
  by (relation "measure (\<lambda>p. length (snd (fst p)))") (simp_all add: lex_step_decreases)

declare lex_loop.simps [simp del]

definition empty_lex_result :: lex_result where
  "empty_lex_result = \<lparr>lr_tokens = [], lr_error = None\<rparr>"

text \<open>\<open>pmm_lex\<close>: the return code and the token array with its final end-of-input token.\<close>

definition pmm_lex :: "string option \<Rightarrow> int \<times> lex_result" where
  "pmm_lex input =
     (case input of
        None \<Rightarrow> (-1, empty_lex_result)
      | Some s \<Rightarrow>
          (let (cur, out) = lex_loop (0, cstr s) empty_lex_result
           in (0, lex_push out TOK_EOF [] (fst cur))))"

end
