(* ===== verification/Cyp_Lexer_Facts.thy ===== *)
theory Cyp_Lexer_Facts
  imports Cyp_Lexer
begin

text \<open>
  Facts about the lexer: the cursor only moves forward over the input, every round emits at
  most one token, at the position where the round started, and the token array ends in the
  only end-of-input token.  The last section lexes a rendering of a token list back.
\<close>

section \<open>The cursor moves forward\<close>

definition advances :: "cursor \<Rightarrow> cursor \<Rightarrow> bool" where
  "advances cur cur' \<longleftrightarrow>
     (\<exists>n \<le> length (snd cur). cur' = (fst cur + n, drop n (snd cur)))"

lemma advancesI: "n \<le> length (snd cur) \<Longrightarrow> advances cur (fst cur + n, drop n (snd cur))"
  by (auto simp: advances_def)

lemma advances_refl [simp]: "advances cur cur"
  using advancesI [of 0 cur] by simp

lemma advances_trans: "advances a b \<Longrightarrow> advances b c \<Longrightarrow> advances a c"
  unfolding advances_def by (fastforce simp: add.commute intro: exI [of _ "_ + _"])

lemma advances_Cons: "advances (Suc i, cs) cur \<Longrightarrow> advances (i, c # cs) cur"
  by (rule advances_trans [of _ "(Suc i, cs)"]) (use advancesI [of 1 "(i, c # cs)"] in auto)

lemma advances_Cons2: "advances (Suc (Suc i), cs) cur \<Longrightarrow> advances (i, c # d # cs) cur"
  by (intro advances_Cons)

lemma lex_string_scan_advances: "advances (pos, s) (snd (lex_string_scan q pos s buf))"
  by (induction q pos s buf rule: lex_string_scan.induct)
     (auto intro: advances_Cons advances_Cons2)

lemma block_comment_end_advances: "advances (i, s) (block_comment_end i s)"
  by (induction i s rule: block_comment_end.induct) (auto intro: advances_Cons)

lemma skip_line_advances: "advances cur (skip_line cur)"
  unfolding skip_line_def
  by (rule advances_def [THEN iffD2])
     (auto simp: dropWhile_eq_drop length_takeWhile_le)

lemma drop_tail_advances: "advances cur (i, rest) \<Longrightarrow> n \<le> length rest \<Longrightarrow> advances cur (i + n, drop n rest)"
  using advancesI [of n "(i, rest)"] by (auto intro: advances_trans)

lemma lex_skip_advances:
  assumes "lex_skip_whitespace_comments cur = Some cur'"
  shows "advances cur cur'"
proof -
  obtain i c cs where s: "cur = (i, c # cs)"
    using assms by (cases cur; cases "snd cur") (auto simp: lex_skip_whitespace_comments_def)
  have b: "advances (i, c # d # ds) (block_comment_end (Suc (Suc i)) ds)" for d ds
    by (intro advances_Cons2 block_comment_end_advances)
  have "advances (i, c # d # ds) (j + 2, drop 2 r)"
    if "block_comment_end (Suc (Suc i)) ds = (j, r)" "2 \<le> length r" for d ds j r
    using drop_tail_advances [of "(i, c # d # ds)" j r 2] b [of d ds] that by simp
  then show ?thesis
    using assms b skip_line_advances advances_Cons [of i cs _ c]
    by (fastforce simp: lex_skip_whitespace_comments_def s Let_def
        split: if_splits list.splits prod.splits)
qed

lemma lex_string_literal_advances: "advances cur (fst (lex_string_literal cur q out))"
proof -
  obtain buf j r where r: "lex_string_scan q (fst cur) (snd cur) [] = (buf, (j, r))"
    by (metis surj_pair)
  then have a: "advances cur (j, r)"
    using lex_string_scan_advances [of "fst cur" "snd cur" q "[]"] by simp
  then have "r \<noteq> [] \<Longrightarrow> advances cur (j + 1, tl r)"
    using drop_tail_advances [OF a, of 1] by (cases r) (auto simp: drop_Suc)
  with a show ?thesis by (auto simp: lex_string_literal_def r)
qed

lemma lex_try_number_advances:
  "lex_try_number cur out = Some (cur', out') \<Longrightarrow> advances cur cur'"
  by (auto simp: lex_try_number_def Let_def advances_def number_run_le split: if_splits)

lemma lex_try_ident_advances:
  "lex_try_ident cur out = Some (cur', out') \<Longrightarrow> advances cur cur'"
  by (auto simp: lex_try_ident_def Let_def advances_def dropWhile_eq_drop length_takeWhile_le
      split: if_splits)

lemma lex_try_two_char_advances:
  "lex_try_two_char cur out = Some (cur', out') \<Longrightarrow> advances cur cur'"
  by (auto simp: lex_try_two_char_def advances_def split: list.splits option.splits prod.splits
      intro: exI [of _ "Suc (Suc 0)"])

lemma advances_tl: "snd cur \<noteq> [] \<Longrightarrow> advances cur (Suc (fst cur), tl (snd cur))"
  using advancesI [of 1 cur] by (cases "snd cur") auto

lemma lex_step_advances:
  assumes "snd cur \<noteq> []"
  shows "advances cur (fst (lex_step cur out))"
proof -
  have "advances cur (fst (lex_string_literal (fst cur + 1, tl (snd cur)) c out))" for c
    using advances_trans [OF advances_tl [OF assms] lex_string_literal_advances] by simp
  then show ?thesis
    using advances_tl [OF assms]
    by (auto simp: lex_step_def Let_def split: option.splits
        dest: lex_skip_advances lex_try_number_advances lex_try_ident_advances
          lex_try_two_char_advances)
qed

section \<open>What one round emits\<close>

text \<open>
  A token made from the input at its position: its text is the piece of input that starts
  there (a string literal starts at its quote and holds at most 4095 bytes).
\<close>

definition token_at :: "string \<Rightarrow> token \<Rightarrow> bool" where
  "token_at s t \<longleftrightarrow>
     tk_type t \<noteq> TOK_EOF \<and> tk_pos t < length s \<and>
     (if tk_type t = TOK_STRING
      then s ! tk_pos t \<in> {CHR 0x22, CHR 0x27} \<and> length (tk_text t) \<le> max_blen
      else tk_text t \<noteq> [] \<and> tk_text t = take (length (tk_text t)) (drop (tk_pos t) s))"

lemma str_push_length: "length buf \<le> max_blen \<Longrightarrow> length (str_push buf c) \<le> max_blen"
  by (simp add: str_push_def)

lemma lex_string_scan_text:
  "length buf \<le> max_blen \<Longrightarrow> length (fst (lex_string_scan q pos s buf)) \<le> max_blen"
  by (induction q pos s buf rule: lex_string_scan.induct) (auto simp: str_push_length)

text \<open>\<open>emits cur out out'\<close>: nothing, or one token that starts at the cursor.\<close>

definition emits :: "cursor \<Rightarrow> lex_result \<Rightarrow> lex_result \<Rightarrow> bool" where
  "emits cur out out' \<longleftrightarrow>
     out' = out \<or>
     (\<exists>t. out' = out\<lparr>lr_tokens := lr_tokens out @ [t]\<rparr> \<and> tk_pos t = fst cur \<and>
          (\<forall>s. advances (0, s) cur \<longrightarrow> token_at s t))"

lemma advances_0: "advances (0, s) cur \<longleftrightarrow> cur = (fst cur, drop (fst cur) s) \<and> fst cur \<le> length s"
  by (cases cur) (auto simp: advances_def)

lemma emits_pushI:
  assumes "snd cur \<noteq> []" "type \<noteq> TOK_EOF" "type \<noteq> TOK_STRING"
    "0 < n" "n \<le> length (snd cur)" "text = take n (snd cur)"
  shows "emits cur out (lex_push out type text (fst cur))"
proof -
  have "token_at s \<lparr>tk_type = type, tk_text = text, tk_pos = fst cur\<rparr>"
    if "advances (0, s) cur" for s
  proof -
    have "snd cur = drop (fst cur) s" "fst cur < length s"
      using that assms(1) by (auto simp: advances_0 prod_eq_iff)
    then show ?thesis using assms by (auto simp: token_at_def)
  qed
  then show ?thesis by (auto simp: emits_def lex_push_def)
qed

lemma lex_push_n_push: "lex_push_n r type start len pos = lex_push r type (take len start) pos"
  by (simp add: lex_push_n_def lex_push_def)

lemma keyword_not_string: "keyword_lookup w \<noteq> TOK_STRING"
  using keyword_scan_range [of keyword_table w]
  by (auto simp: keyword_lookup_def keyword_table_def simp del: keyword_scan.simps)

lemma lex_string_literal_emits:
  assumes "snd cur = c # cs" "c = CHR 0x22 \<or> c = CHR 0x27"
  shows "emits cur out (snd (lex_string_literal (fst cur + 1, cs) c out))"
proof -
  let ?buf = "fst (lex_string_scan c (fst cur + 1) cs [])"
  have "token_at s \<lparr>tk_type = TOK_STRING, tk_text = ?buf, tk_pos = fst cur\<rparr>"
    if "advances (0, s) cur" for s
  proof -
    have d: "drop (fst cur) s = c # cs"
      using that assms(1) by (auto simp: advances_0 prod_eq_iff)
    then have l: "fst cur < length s" by (cases "fst cur < length s") auto
    with d have "s ! fst cur = c" by (simp add: Cons_nth_drop_Suc [symmetric])
    then show ?thesis
      using l assms(2) lex_string_scan_text [of "[]" c "fst cur + 1" cs]
      by (auto simp: token_at_def)
  qed
  then show ?thesis
    by (auto simp: emits_def lex_string_literal_def lex_push_def split: prod.splits)
qed

lemma lex_try_number_emits:
  assumes "lex_try_number cur out = Some (cur', out')"
  shows "emits cur out out'"
proof -
  have st: "number_start (snd cur)" using assms by (auto simp: lex_try_number_def Let_def split: if_splits)
  then have "snd cur \<noteq> []" by (auto simp: number_start_def)
  then show ?thesis
    using assms st emits_pushI [of cur TOK_NUMBER "number_run (snd cur)"]
      number_run_pos [OF st] number_run_le [of "snd cur"]
    by (auto simp: lex_try_number_def lex_push_n_push Let_def split: if_splits)
qed

lemma lex_try_ident_emits:
  assumes "lex_try_ident cur out = Some (cur', out')" "snd cur \<noteq> []"
  shows "emits cur out out'"
proof -
  let ?w = "takeWhile ident_char (snd cur)"
  have "ident_char (hd (snd cur))"
    using assms(1) by (auto simp: lex_try_ident_def Let_def ident_start_char split: if_splits)
  then have "0 < length ?w" using assms(2) by (cases "snd cur") auto
  then show ?thesis
    using assms emits_pushI [of cur "keyword_lookup (take 255 ?w)" "length ?w"]
      keyword_not_eof keyword_not_string length_takeWhile_le [of ident_char "snd cur"]
    by (auto simp: lex_try_ident_def lex_push_n_push Let_def split: if_splits)
qed

lemma two_char_pairs_shape:
  "(p1, p2, type, text) \<in> set two_char_pairs \<Longrightarrow>
     text = [p1, p2] \<and> type \<noteq> TOK_EOF \<and> type \<noteq> TOK_STRING"
  by (auto simp: two_char_pairs_def)

lemma lex_try_two_char_emits:
  assumes "lex_try_two_char cur out = Some (cur', out')"
  shows "emits cur out out'"
proof -
  obtain c d cs where s: "snd cur = c # d # cs"
    using assms by (auto simp: lex_try_two_char_def split: list.splits)
  obtain ty tx where f:
    "find (\<lambda>(p1, p2, type, text). c = p1 \<and> d = p2) two_char_pairs = Some (c, d, ty, tx)"
    and out': "out' = lex_push out ty tx (fst cur)"
    using assms
    by (auto simp: lex_try_two_char_def s split: option.splits prod.splits)
       (metis (mono_tags, lifting) case_prod_conv find_Some_iff2)
  have "(c, d, ty, tx) \<in> set two_char_pairs"
    using f by (metis find_Some_iff nth_mem)
  then show ?thesis
    using emits_pushI [of cur ty 2 tx out] two_char_pairs_shape [of c d ty tx]
    by (simp add: out' s)
qed

lemma lex_single_char_not_string: "lex_single_char c \<noteq> TOK_STRING"
  by (auto simp: lex_single_char_def)

lemma lex_step_emits:
  assumes "snd cur \<noteq> []"
  shows "emits cur out (snd (lex_step cur out))"
proof -
  obtain c cs where s: "snd cur = c # cs" using assms by (cases "snd cur") auto
  have single: "lex_single_char c \<noteq> TOK_EOF \<Longrightarrow>
      emits cur out (lex_push out (lex_single_char c) [c] (fst cur))"
    using emits_pushI [of cur "lex_single_char c" 1 "[c]" out] lex_single_char_not_string
    by (simp add: s)
  show ?thesis
    using assms single lex_string_literal_emits [of cur c cs out]
      lex_try_number_emits [of cur out] lex_try_ident_emits [of cur out]
      lex_try_two_char_emits [of cur out]
    by (auto simp: lex_step_def s Let_def emits_def [of cur out out] split: option.splits)
qed

section \<open>The whole token array\<close>

text \<open>The invariant of the main loop: cursor on the input, tokens in order and before it.\<close>

definition lex_inv :: "string \<Rightarrow> cursor \<Rightarrow> lex_result \<Rightarrow> bool" where
  "lex_inv s cur out \<longleftrightarrow>
     advances (0, s) cur \<and> lr_error out = None \<and>
     (\<forall>t \<in> set (lr_tokens out). token_at s t \<and> tk_pos t < fst cur) \<and>
     sorted_wrt (<) (map tk_pos (lr_tokens out))"

lemma lex_step_inv:
  assumes "lex_inv s cur out" "snd cur \<noteq> []"
  shows "lex_inv s (fst (lex_step cur out)) (snd (lex_step cur out))"
proof -
  let ?cur' = "fst (lex_step cur out)"
  have a: "advances cur ?cur'" by (rule lex_step_advances [OF assms(2)])
  then have lt: "fst cur < fst ?cur'"
    using lex_step_decreases [OF assms(2), of out] by (auto simp: advances_def)
  have "advances (0, s) ?cur'"
    using assms(1) a by (auto simp: lex_inv_def intro: advances_trans)
  then show ?thesis
    using assms(1) lt lex_step_emits [OF assms(2), of out]
    by (auto simp: lex_inv_def emits_def sorted_wrt_append dest: less_trans)
qed

lemma lex_loop_inv:
  "lex_inv s cur out \<Longrightarrow>
     lex_inv s (fst (lex_loop cur out)) (snd (lex_loop cur out)) \<and> snd (fst (lex_loop cur out)) = []"
proof (induction cur out rule: lex_loop.induct)
  case (1 cur out)
  then show ?case
    by (cases "snd cur = []") (auto simp: lex_loop.simps [of cur out] lex_step_inv)
qed

lemma lex_inv_start: "lex_inv s (0, s) empty_lex_result"
  by (simp add: lex_inv_def empty_lex_result_def)

text \<open>The tokens of a query, without the end-of-input token.\<close>

definition lex_body :: "string \<Rightarrow> token list" where
  "lex_body s = lr_tokens (snd (lex_loop (0, cstr s) empty_lex_result))"

lemma lex_body_inv:
  "lex_inv (cstr s) (length (cstr s), []) (snd (lex_loop (0, cstr s) empty_lex_result))"
proof -
  let ?l = "lex_loop (0, cstr s) empty_lex_result"
  have "lex_inv (cstr s) (fst ?l) (snd ?l)" "snd (fst ?l) = []"
    using lex_loop_inv [OF lex_inv_start] by auto
  moreover have "fst ?l = (length (cstr s), [])"
    using calculation by (cases "fst ?l") (auto simp: lex_inv_def advances_0)
  ultimately show ?thesis by simp
qed

lemma pmm_lex_Some:
  "pmm_lex (Some s) =
     (0, \<lparr>lr_tokens = lex_body s @
            [\<lparr>tk_type = TOK_EOF, tk_text = [], tk_pos = length (cstr s)\<rparr>],
          lr_error = None\<rparr>)"
proof -
  let ?l = "lex_loop (0, cstr s) empty_lex_result"
  have "snd (fst ?l) = []" "lex_inv (cstr s) (fst ?l) (snd ?l)"
    using lex_loop_inv [OF lex_inv_start] by auto
  then have "fst (fst ?l) = length (cstr s)" "lr_error (snd ?l) = None"
    by (auto simp: lex_inv_def advances_0 prod_eq_iff)
  then show ?thesis
    by (auto simp: pmm_lex_def lex_push_def lex_body_def split: prod.splits
        intro!: lex_result.equality)
qed

section \<open>Rendering a token list and lexing it back\<close>

type_synonym lexeme = "tok \<times> string"

definition escape_char :: "char \<Rightarrow> string" where
  "escape_char c = (if c = CHR 0x22 \<or> c = CHR 0x5C then [CHR 0x5C, c] else [c])"

definition render :: "lexeme \<Rightarrow> string" where
  "render l = (if fst l = TOK_STRING
               then CHR 0x22 # concat (map escape_char (snd l)) @ [CHR 0x22] else snd l)"

definition render_all :: "lexeme list \<Rightarrow> string" where
  "render_all ls = concat (map (\<lambda>l. render l @ [CHR '' '']) ls)"

definition ident_ok :: "lexeme \<Rightarrow> bool" where
  "ident_ok l \<longleftrightarrow> snd l \<noteq> [] \<and> ident_start (hd (snd l)) \<and> list_all ident_char (snd l) \<and>
                keyword_lookup (take 255 (snd l)) = fst l"

definition number_ok :: "lexeme \<Rightarrow> bool" where
  "number_ok l \<longleftrightarrow> fst l = TOK_NUMBER \<and> number_start (snd l) \<and>
                 number_run (snd l @ [CHR '' '']) = length (snd l)"

definition string_ok :: "lexeme \<Rightarrow> bool" where
  "string_ok l \<longleftrightarrow> fst l = TOK_STRING \<and> length (snd l) \<le> max_blen"

definition symbol_ok :: "lexeme \<Rightarrow> bool" where
  "symbol_ok l \<longleftrightarrow>
     list_ex (\<lambda>(c1, c2, type, txt). l = (type, txt)) two_char_pairs \<or>
     (case snd l of [c] \<Rightarrow> lex_single_char c = fst l \<and> fst l \<noteq> TOK_EOF | _ \<Rightarrow> False)"

text \<open>A lexeme: one of the four forms of token, and no byte 0 in its text.\<close>

definition lexeme_ok :: "lexeme \<Rightarrow> bool" where
  "lexeme_ok l \<longleftrightarrow> NUL \<notin> set (snd l) \<and>
                 (string_ok l \<or> number_ok l \<or> ident_ok l \<or> symbol_ok l)"

definition lexeme_of :: "token \<Rightarrow> lexeme" where
  "lexeme_of t = (tk_type t, tk_text t)"

abbreviation SP :: char where "SP \<equiv> CHR '' ''"

definition step_emits :: "lexeme \<Rightarrow> bool" where
  "step_emits l \<longleftrightarrow>
     (\<forall>i rest out. \<exists>j.
        lex_step (i, render l @ SP # rest) out =
          ((j, SP # rest), lex_push out (fst l) (snd l) i))"

lemma scan_escaped:
  "length buf + length tx \<le> max_blen \<Longrightarrow>
     \<exists>j. lex_string_scan (CHR 0x22) pos (concat (map escape_char tx) @ CHR 0x22 # rest) buf
         = (buf @ tx, (j, CHR 0x22 # rest))"
proof (induction tx arbitrary: pos buf)
  case Nil
  show ?case by (cases rest) auto
next
  case (Cons c tx)
  obtain d ds where tail: "concat (map escape_char tx) @ CHR 0x22 # rest = d # ds"
    by (cases "concat (map escape_char tx) @ CHR 0x22 # rest") auto
  have push: "str_push buf c = buf @ [c]" using Cons.prems by (simp add: str_push_def)
  have len: "length (buf @ [c]) + length tx \<le> max_blen" using Cons.prems by simp
  show ?case
  proof (cases "c = CHR 0x22 \<or> c = CHR 0x5C")
    case True
    then have "unescape c = c" by (auto simp: unescape_def)
    with True push Cons.IH [OF len, of "pos + 2"] show ?thesis
      by (auto simp: escape_char_def)
  next
    case False
    then have "escape_char c = [c]" by (simp add: escape_char_def)
    with False push tail Cons.IH [OF len, of "pos + 1"] show ?thesis
      by auto
  qed
qed

lemma string_step: "string_ok l \<Longrightarrow> step_emits l"
  unfolding step_emits_def
proof (intro allI)
  fix i rest out
  assume ok: "string_ok l"
  then obtain j where scan:
    "lex_string_scan (CHR 0x22) (Suc i) (concat (map escape_char (snd l)) @ CHR 0x22 # SP # rest) []
       = (snd l, (j, CHR 0x22 # SP # rest))"
    using scan_escaped [of "[]" "snd l" "Suc i" "SP # rest"] by (auto simp: string_ok_def)
  have r: "render l @ SP # rest =
      CHR 0x22 # concat (map escape_char (snd l)) @ CHR 0x22 # SP # rest"
    using ok by (simp add: render_def string_ok_def)
  have "lex_skip_whitespace_comments (i, render l @ SP # rest) = None"
    unfolding r by (auto simp: lex_skip_whitespace_comments_def c_isspace_def split: list.splits)
  then show "\<exists>j. lex_step (i, render l @ SP # rest) out =
          ((j, SP # rest), lex_push out (fst l) (snd l) i)"
    using ok unfolding r
    by (auto simp: lex_step_def lex_string_literal_def scan string_ok_def Let_def)
qed

lemma number_run_stable:
  "number_run (xs @ [SP]) = length xs \<Longrightarrow> number_run (xs @ SP # rest) = length xs"
proof (induction xs)
  case Nil
  then show ?case by (cases rest) (auto simp: c_isdigit_def)
next
  case (Cons x xs)
  then show ?case by (cases xs) (auto split: if_splits)
qed

lemma number_start_append: "number_start xs \<Longrightarrow> number_start (xs @ ys)"
  by (cases xs rule: number_run.cases; cases ys) (auto simp: number_start_def)

lemma number_start_hd:
  "number_start s \<Longrightarrow> s \<noteq> [] \<and> (c_isdigit (hd s) \<or> hd s = CHR ''.'')"
  by (cases s rule: number_run.cases) (auto simp: number_start_def)

lemma no_skip:
  "\<not> c_isspace c \<Longrightarrow> c \<noteq> CHR ''/'' \<Longrightarrow> c \<noteq> CHR ''-'' \<Longrightarrow>
     lex_skip_whitespace_comments (i, c # cs) = None"
  by (simp add: lex_skip_whitespace_comments_def split: list.splits)

lemma number_step:
  assumes ok: "number_ok l"
  shows "step_emits l"
  unfolding step_emits_def
proof (intro allI)
  fix i rest out
  let ?s = "render l @ SP # rest"
  obtain c cs where tx: "snd l = c # cs"
    using ok number_start_hd [of "snd l"] by (cases "snd l") (auto simp: number_ok_def)
  have c: "c_isdigit c \<or> c = CHR ''.''"
    using ok number_start_hd [of "snd l"] by (simp add: number_ok_def tx)
  have r: "?s = snd l @ SP # rest" using ok by (simp add: render_def number_ok_def)
  have "lex_skip_whitespace_comments (i, ?s) = None"
    unfolding r tx using c by (auto intro!: no_skip simp: c_isspace_def c_isdigit_def)
  moreover have "lex_try_number (i, ?s) out =
      Some ((i + length (snd l), SP # rest), lex_push out TOK_NUMBER (snd l) i)"
    using ok number_start_append [of "snd l" "SP # rest"]
      number_run_stable [of "snd l" rest]
    by (simp add: r lex_try_number_def number_ok_def lex_push_n_push)
  moreover have "c \<noteq> CHR 0x22" "c \<noteq> CHR 0x27" using c by (auto simp: c_isdigit_def)
  ultimately show "\<exists>j. lex_step (i, ?s) out =
          ((j, SP # rest), lex_push out (fst l) (snd l) i)"
    using ok by (auto simp: lex_step_def Let_def r tx number_ok_def)
qed

lemma ident_step:
  assumes ok: "ident_ok l"
  shows "step_emits l"
  unfolding step_emits_def
proof (intro allI)
  fix i rest out
  let ?s = "render l @ SP # rest"
  obtain c cs where tx: "snd l = c # cs" using ok by (cases "snd l") (auto simp: ident_ok_def)
  have c: "ident_start c" and all: "\<forall>x\<in>set (snd l). ident_char x"
    using ok by (auto simp: ident_ok_def tx list_all_iff)
  have sp: "\<not> ident_char SP" by (simp add: ident_char_def c_isalnum_def c_isalpha_def c_isdigit_def)
  have r: "?s = snd l @ SP # rest"
    using ok keyword_not_string by (auto simp: render_def ident_ok_def)
  have "lex_skip_whitespace_comments (i, ?s) = None"
    unfolding r tx using c
    by (auto intro!: no_skip simp: ident_start_def c_isspace_def c_isalpha_def)
  moreover have "lex_try_number (i, ?s) out = None"
    using c by (auto simp: r tx lex_try_number_def Let_def ident_start_def c_isalpha_def c_isdigit_def
        dest!: number_start_hd)
  moreover have "lex_try_ident (i, ?s) out =
      Some ((i + length (snd l), SP # rest), lex_push out (fst l) (snd l) i)"
    using ok c all sp takeWhile_append_stop [of "snd l" ident_char SP rest]
      dropWhile_append_stop [of "snd l" ident_char SP rest]
    by (auto simp: r lex_try_ident_def Let_def ident_ok_def lex_push_n_push tx)
  moreover have "c \<noteq> CHR 0x22" "c \<noteq> CHR 0x27" using c by (auto simp: ident_start_def c_isalpha_def)
  ultimately show "\<exists>j. lex_step (i, ?s) out =
          ((j, SP # rest), lex_push out (fst l) (snd l) i)"
    by (auto simp: lex_step_def Let_def r tx)
qed

lemmas step_unfolds = lex_step_def lex_skip_whitespace_comments_def lex_try_number_def
  lex_try_ident_def lex_try_two_char_def number_start_def ident_start_def
  c_isspace_def c_isalpha_def c_isdigit_def two_char_pairs_def

lemma symbol_step:
  assumes ok: "symbol_ok l"
  shows "step_emits l"
proof -
  obtain ty tx where l: "l = (ty, tx)" by fastforce
  consider "(ty, tx) \<in> {(TOK_NEQ, ''!=''), (TOK_NEQ, ''<>''), (TOK_EQTILDE, ''=~''),
      (TOK_GTE, ''>=''), (TOK_LTE, ''<=''), (TOK_DOTDOT, ''..'')}"
    | c where "tx = [c]" "lex_single_char c = ty" "ty \<noteq> TOK_EOF"
    using ok by (auto simp: l symbol_ok_def two_char_pairs_def split: list.splits)
  then show ?thesis
  proof cases
    case 1
    then show ?thesis
      by (auto simp: l step_emits_def render_def Let_def step_unfolds)
  next
    case 2
    then have "ty \<noteq> TOK_STRING" using lex_single_char_not_string by auto
    with 2 show ?thesis
      by (auto simp: l step_emits_def render_def lex_single_char_def Let_def step_unfolds
          split: if_splits)
  qed
qed

lemma lexeme_step: "lexeme_ok l \<Longrightarrow> step_emits l"
  by (auto simp: lexeme_ok_def intro: string_step number_step ident_step symbol_step)

lemma render_nonempty: "lexeme_ok l \<Longrightarrow> render l \<noteq> []"
  by (auto simp: lexeme_ok_def render_def ident_ok_def number_ok_def symbol_ok_def
      two_char_pairs_def string_ok_def number_start_def)

lemma space_step: "lex_step (j, SP # rest) out = ((j + 1, rest), out)"
  by (simp add: lex_step_def lex_skip_whitespace_comments_def c_isspace_def)

lemma lex_loop_render:
  assumes "list_all lexeme_ok ls"
  shows "map lexeme_of (lr_tokens (snd (lex_loop (i, render_all ls) out))) =
         map lexeme_of (lr_tokens out) @ ls"
  using assms
proof (induction ls arbitrary: i out)
  case Nil
  show ?case by (simp add: render_all_def lex_loop.simps)
next
  case (Cons l ls)
  let ?rest = "render_all ls"
  have split: "render_all (l # ls) = render l @ SP # ?rest" by (simp add: render_all_def)
  obtain j where
    st: "lex_step (i, render l @ SP # ?rest) out
         = ((j, SP # ?rest), lex_push out (fst l) (snd l) i)"
    using lexeme_step [of l] Cons.prems by (fastforce simp: step_emits_def)
  have "lex_loop (i, render_all (l # ls)) out =
      lex_loop (Suc j, ?rest) (lex_push out (fst l) (snd l) i)"
    unfolding split
    by (subst lex_loop.simps) (simp add: st lex_loop.simps [of "(j, SP # ?rest)"] space_step)
  then show ?case using Cons by (simp add: lex_push_def lexeme_of_def)
qed

lemma render_no_NUL: "lexeme_ok l \<Longrightarrow> NUL \<notin> set (render l)"
  by (auto simp: lexeme_ok_def render_def escape_char_def split: if_splits)

lemma cstr_render_all: "list_all lexeme_ok ls \<Longrightarrow> cstr (render_all ls) = render_all ls"
  by (auto simp: cstr_def render_all_def list_all_iff takeWhile_eq_all_conv dest: render_no_NUL)

end
