(* ===== verification/Cyp_Lexer_Props.thy ===== *)
theory Cyp_Lexer_Props
  imports Cyp_Lexer_Facts
begin

text \<open>
  What the lexer promises its callers: the token array ends in one end-of-input token, tokens
  are pieces of the input in order, keywords do not depend on case, and a rendered token list
  is read back.
\<close>

section \<open>Shape of the token array\<close>

lemma lex_body_no_eof: "\<forall>t\<in>set (lex_body s). tk_type t \<noteq> TOK_EOF"
  using lex_body_inv [of s] by (auto simp: lex_inv_def lex_body_def token_at_def)

text \<open>\<open>pmm_lex\<close> succeeds on every string that is not NULL: return code 0, no
  error, and a token array that ends in one end-of-input token, at the position after the last
  byte, and holds no other.  (The parser indexes the array without looking at its length.)\<close>

theorem pmm_lex_ends_in_eof:
  "fst (pmm_lex (Some s)) = 0 \<and> lr_error (snd (pmm_lex (Some s))) = None \<and>
   last (lr_tokens (snd (pmm_lex (Some s)))) =
     \<lparr>tk_type = TOK_EOF, tk_text = [], tk_pos = length (cstr s)\<rparr> \<and>
   filter (\<lambda>t. tk_type t = TOK_EOF) (lr_tokens (snd (pmm_lex (Some s)))) =
     [last (lr_tokens (snd (pmm_lex (Some s))))]"
  using lex_body_no_eof [of s] by (auto simp: pmm_lex_Some filter_empty_conv)

text \<open>The tokens before the end come from the input, in order: each has the text found
  at its position (or, for a string literal, starts at a quote and holds at most 4095 bytes),
  and positions strictly increase along the array, the end-of-input token included.\<close>

theorem pmm_lex_tokens_in_order:
  "list_all (token_at (cstr s)) (butlast (lr_tokens (snd (pmm_lex (Some s))))) \<and>
   sorted_wrt (<) (map tk_pos (lr_tokens (snd (pmm_lex (Some s)))))"
proof -
  have "lex_inv (cstr s) (length (cstr s), []) (snd (lex_loop (0, cstr s) empty_lex_result))"
    by (rule lex_body_inv)
  then show ?thesis
    by (auto simp: pmm_lex_Some lex_inv_def lex_body_def list_all_iff sorted_wrt_append)
qed

section \<open>Rendering and lexing\<close>

text \<open>C36: a token list rendered to text, with string literals quoted and escaped and a blank
  after each token, is lexed back to the same types and texts, followed by the end-of-input
  token; every kind of token is covered: words, numbers, string literals of at most 4095
  bytes, and symbols of one or two bytes.\<close>

theorem lex_render_roundtrip:
  assumes "list_all lexeme_ok ls"
  shows "map lexeme_of (lr_tokens (snd (pmm_lex (Some (render_all ls))))) = ls @ [(TOK_EOF, [])]"
  using lex_loop_render [OF assms, of 0 empty_lex_result] cstr_render_all [OF assms]
  by (simp add: pmm_lex_Some lex_body_def empty_lex_result_def lexeme_of_def)

lemma witness_lexemes_ok:
  "list_all lexeme_ok [(TOK_MATCH, ''match''), (TOK_LPAREN, ''(''), (TOK_IDENT, ''n''),
     (TOK_RPAREN, '')''), (TOK_GTE, ''>=''), (TOK_NUMBER, ''1.5''), (TOK_STRING, [CHR 0x22, CHR 0x5C])]"
  by (simp add: lexeme_ok_def string_ok_def number_ok_def ident_ok_def symbol_ok_def
      two_char_pairs_def lex_single_char_def max_blen_def number_start_def c_isdigit_def
      ident_start_def ident_char_def c_isalnum_def c_isalpha_def keyword_lookup_def
      keyword_table_def strcaseeq_def)

theorem lex_render_roundtrip_witness:
  "map lexeme_of (lr_tokens (snd (pmm_lex (Some (render_all
     [(TOK_MATCH, ''match''), (TOK_LPAREN, ''(''), (TOK_IDENT, ''n''), (TOK_RPAREN, '')''),
      (TOK_GTE, ''>=''), (TOK_NUMBER, ''1.5''), (TOK_STRING, [CHR 0x22, CHR 0x5C])]))))) =
   [(TOK_MATCH, ''match''), (TOK_LPAREN, ''(''), (TOK_IDENT, ''n''), (TOK_RPAREN, '')''),
      (TOK_GTE, ''>=''), (TOK_NUMBER, ''1.5''), (TOK_STRING, [CHR 0x22, CHR 0x5C]), (TOK_EOF, [])]"
  using lex_render_roundtrip [OF witness_lexemes_ok] by simp

section \<open>Keywords\<close>

definition lower_table :: "(string \<times> tok) list" where
  "lower_table = map (\<lambda>(name, t). (map c_tolower name, t)) keyword_table"

lemma lower_upper [simp]: "c_tolower (c_toupper c) = c_tolower c" "c_tolower (c_tolower c) = c_tolower c"
  by (auto simp: c_tolower_def c_toupper_def)

lemma lower_map [simp]:
  "map c_tolower (map c_toupper w) = map c_tolower w" "map c_tolower (map c_tolower w) = map c_tolower w"
  by simp_all

lemmas keyword_chain = keyword_lookup_def
  [unfolded keyword_table_def keyword_scan.simps strcaseeq_def list.map c_tolower_letters]

lemmas lower_table_entries = lower_table_def
  [unfolded keyword_table_def list.map prod.case c_tolower_letters]

lemma lower_table_lookup:
  "list_all (\<lambda>(name, t). \<forall>v. map c_tolower v = name \<longrightarrow> keyword_lookup v = t) lower_table"
  unfolding lower_table_entries list.pred_inject prod.case
  by (intro conjI allI impI list.pred_inject(1); simp only: keyword_chain list.inject char.inject if_False if_True
      simp_thms list.distinct)

lemma keyword_scan_none:
  "list_all (\<lambda>(name, t). t \<noteq> TOK_IDENT) kws \<Longrightarrow>
   (keyword_scan kws w = TOK_IDENT) = list_all (\<lambda>(name, t). map c_tolower w \<noteq> map c_tolower name) kws"
  by (induction kws w rule: keyword_scan.induct) (auto simp: strcaseeq_def)

lemma keyword_table_not_ident: "list_all (\<lambda>(name, t). t \<noteq> TOK_IDENT) keyword_table"
  by (simp add: keyword_table_def)

text \<open>Keyword lookup is complete and ignores case: a word spelled, in any case, like
  an entry of the keyword table gets that entry's token type (so the duplicate entries never
  disagree), and any other word is an identifier.\<close>

theorem keyword_lookup_complete:
  "list_all (\<lambda>(name, t). keyword_lookup (map c_toupper name) = t \<and>
                         keyword_lookup (map c_tolower name) = t) keyword_table \<and>
   (keyword_lookup w = TOK_IDENT) =
     list_all (\<lambda>(name, t). map c_tolower w \<noteq> map c_tolower name) keyword_table"
proof
  have "keyword_lookup v = t" if "(name, t) \<in> set keyword_table" "map c_tolower v = map c_tolower name"
    for v name t
    using lower_table_lookup that by (fastforce simp: lower_table_def list_all_iff)
  then show "list_all (\<lambda>(name, t). keyword_lookup (map c_toupper name) = t \<and>
                         keyword_lookup (map c_tolower name) = t) keyword_table"
    by (auto simp: list_all_iff simp del: map_map)
  show "(keyword_lookup w = TOK_IDENT) =
     list_all (\<lambda>(name, t). map c_tolower w \<noteq> map c_tolower name) keyword_table"
    unfolding keyword_lookup_def by (rule keyword_scan_none [OF keyword_table_not_ident])
qed

end
