(* ===== verification/Cyp_Ast.thy ===== *)
theory Cyp_Ast
  imports Cyp_Token
begin

text \<open>
  The abstract syntax of src/src/cypher/cypher.h, one record or datatype per struct with its
  fields in order.  A pointer that may be NULL is an option; an array with its count is a list.
\<close>

record prop_filter =
  pf_key :: string
  pf_value :: string

record node_pattern =
  np_variable :: "string option"
  np_label :: "string option"
  np_props :: "prop_filter list"

record rel_pattern =
  rp_variable :: "string option"
  rp_types :: "string list"
  rp_direction :: "string option"
  rp_min_hops :: int
  rp_max_hops :: int

record pattern =
  pt_nodes :: "node_pattern list"
  pt_rels :: "rel_pattern list"

record func_arg =
  fa_variable :: "string option"
  fa_property :: "string option"
  fa_literal :: "string option"

record condition =
  cn_variable :: "string option"
  cn_property :: "string option"
  cn_op :: "string option"
  cn_value :: "string option"
  cn_negated :: bool
  cn_coalesce_default :: "string option"
  cn_in_values :: "string list"
  cn_exists_dir :: int
  cn_func :: "string option"
  cn_args :: "func_arg list"

text \<open>\<open>pmm_expr_t\<close>: the tag selects which of \<open>cond\<close>, \<open>left\<close> and \<open>right\<close> are in use.\<close>

datatype expr =
    EXPR_CONDITION condition
  | EXPR_AND expr expr
  | EXPR_OR expr expr
  | EXPR_NOT expr
  | EXPR_XOR expr expr

record where_clause =
  wh_root :: "expr option"
  wh_conditions :: "condition list"
  wh_op :: "string option"

record case_branch =
  cb_when_expr :: "expr option"
  cb_then_val :: "string option"

record case_expr =
  ce_branches :: "case_branch list"
  ce_else_val :: "string option"

text \<open>The argument array of a call with several arguments is allocated even when it stays empty,
  so the pointer is an option and the array a list.\<close>

record return_item =
  ri_variable :: "string option"
  ri_property :: "string option"
  ri_alias :: "string option"
  ri_func :: "string option"
  ri_distinct :: bool
  ri_kase :: "case_expr option"
  ri_args :: "func_arg list option"

record return_clause =
  rc_items :: "return_item list"
  rc_distinct :: bool
  rc_star :: bool
  rc_order_by :: "string option"
  rc_order_dir :: "string option"
  rc_skip :: int
  rc_limit :: int

datatype query =
  Query (q_patterns: "pattern list")
        (q_pattern_optional: "bool list")
        (q_where: "where_clause option")
        (q_with_clause: "return_clause option")
        (q_post_with_where: "where_clause option")
        (q_ret: "return_clause option")
        (q_union_next: "query option")
        (q_union_all: bool)
        (q_unwind_expr: "string option")
        (q_unwind_alias: "string option")

text \<open>The zeroed structs that the parser starts from.\<close>

definition empty_node_pattern :: node_pattern where
  "empty_node_pattern = \<lparr>np_variable = None, np_label = None, np_props = []\<rparr>"

definition empty_rel_pattern :: rel_pattern where
  "empty_rel_pattern = \<lparr>rp_variable = None, rp_types = [], rp_direction = None,
     rp_min_hops = 0, rp_max_hops = 0\<rparr>"

definition empty_func_arg :: func_arg where
  "empty_func_arg = \<lparr>fa_variable = None, fa_property = None, fa_literal = None\<rparr>"

definition empty_condition :: condition where
  "empty_condition = \<lparr>cn_variable = None, cn_property = None, cn_op = None, cn_value = None,
     cn_negated = False, cn_coalesce_default = None, cn_in_values = [], cn_exists_dir = 0,
     cn_func = None, cn_args = []\<rparr>"

definition empty_where :: where_clause where
  "empty_where = \<lparr>wh_root = None, wh_conditions = [], wh_op = None\<rparr>"

definition empty_return_item :: return_item where
  "empty_return_item = \<lparr>ri_variable = None, ri_property = None, ri_alias = None, ri_func = None,
     ri_distinct = False, ri_kase = None, ri_args = None\<rparr>"

definition empty_return_clause :: return_clause where
  "empty_return_clause = \<lparr>rc_items = [], rc_distinct = False, rc_star = False, rc_order_by = None,
     rc_order_dir = None, rc_skip = 0, rc_limit = -1\<rparr>"

text \<open>Induction-friendly view of a WHERE tree: the conditions at its leaves.\<close>

fun expr_conds :: "expr \<Rightarrow> condition list" where
  "expr_conds (EXPR_CONDITION c) = [c]"
| "expr_conds (EXPR_AND l r) = expr_conds l @ expr_conds r"
| "expr_conds (EXPR_OR l r) = expr_conds l @ expr_conds r"
| "expr_conds (EXPR_NOT e) = expr_conds e"
| "expr_conds (EXPR_XOR l r) = expr_conds l @ expr_conds r"

end
