(* ===== verification/Cyp_Parse_Base.thy ===== *)
theory Cyp_Parse_Base
  imports Cyp_Ast
begin

text \<open>
  The token cursor of the recursive-descent parser in src/src/cypher/cypher.c
  (\<open>parser_t\<close>, \<open>peek\<close>, \<open>advance\<close>, \<open>check\<close>, \<open>match\<close>, \<open>expect\<close>), patterns
  (\<open>parse_props\<close>, \<open>parse_node\<close>, \<open>parse_hop_range\<close>, \<open>parse_rel_types\<close>,
  \<open>parse_rel_bracket\<close>, \<open>parse_rel\<close>) and function calls.

  A parsing function takes the parser and returns its result with the parser after it, as the C
  function leaves \<open>*p\<close> behind on every path, failures included.  A failed result
  (\<open>-1\<close> or NULL) is \<open>None\<close>.  Functions that loop or recurse take fuel and wrap the
  whole in an option whose \<open>None\<close> means that the fuel ran out; theory
  \<open>Cyp_Parser_Facts\<close> shows that it does not.
\<close>

record parser =
  p_tokens :: "token list"
  p_pos :: nat
  p_error :: string
  p_overflow :: bool \<comment> \<open>a write past the end of a stack buffer has happened\<close>

text \<open>Result of a parsing function that may loop.\<close>

type_synonym 'a presult = "('a \<times> parser) option"

definition peek :: "parser \<Rightarrow> token" where
  "peek p = (if length (p_tokens p) \<le> p_pos p then p_tokens p ! (length (p_tokens p) - 1)
             else p_tokens p ! p_pos p)"

definition advance :: "parser \<Rightarrow> token \<times> parser" where
  "advance p = (if length (p_tokens p) \<le> p_pos p then (p_tokens p ! (length (p_tokens p) - 1), p)
                else (p_tokens p ! p_pos p, p\<lparr>p_pos := p_pos p + 1\<rparr>))"

definition check :: "parser \<Rightarrow> tok \<Rightarrow> bool" where
  "check p type \<longleftrightarrow> tk_type (peek p) = type"

definition match :: "parser \<Rightarrow> tok \<Rightarrow> bool \<times> parser" where
  "match p type = (if check p type then (True, snd (advance p)) else (False, p))"

definition set_error :: "string \<Rightarrow> parser \<Rightarrow> parser" where
  "set_error msg p = p\<lparr>p_error := snprintf_buf 512 msg\<rparr>"

definition expect :: "parser \<Rightarrow> tok \<Rightarrow> token option \<times> parser" where
  "expect p type =
     (if check p type then (Some (fst (advance p)), snd (advance p))
      else (None, set_error (''expected token type '' @ show_int (int (tok_code type)) @ '', got '' @
                             show_int (int (tok_code (tk_type (peek p)))) @ '' at pos '' @
                             show_int (int (tk_pos (peek p)))) p))"

section \<open>Inline properties\<close>

fun props_loop :: "nat \<Rightarrow> prop_filter list \<Rightarrow> parser \<Rightarrow> prop_filter list option presult" where
  "props_loop 0 arr p = None"
| "props_loop (Suc n) arr p =
     (if \<not> check p TOK_RBRACE \<and> \<not> check p TOK_EOF then
        (case expect p TOK_IDENT of
           (None, p1) \<Rightarrow> Some (None, p1)
         | (Some key, p1) \<Rightarrow>
             (case expect p1 TOK_COLON of
                (None, p2) \<Rightarrow> Some (None, p2)
              | (Some _, p2) \<Rightarrow>
                  (case expect p2 TOK_STRING of
                     (None, p3) \<Rightarrow> Some (None, p3)
                   | (Some val, p3) \<Rightarrow>
                       props_loop n (arr @ [\<lparr>pf_key = tk_text key, pf_value = tk_text val\<rparr>])
                         (snd (match p3 TOK_COMMA)))))
      else Some (Some arr, snd (expect p TOK_RBRACE)))"

definition parse_props :: "nat \<Rightarrow> parser \<Rightarrow> prop_filter list option presult" where
  "parse_props n p =
     (case match p TOK_LBRACE of
        (False, p1) \<Rightarrow> Some (Some [], p1)
      | (True, p1) \<Rightarrow> props_loop n [] p1)"

section \<open>Node patterns\<close>

text \<open>
  The label alternation is collected in a 256-byte buffer; \<open>ll\<close> is the length that
  snprintf reports, which exceeds the buffer's content once it is full.
\<close>

fun label_loop :: "nat \<Rightarrow> string \<Rightarrow> nat \<Rightarrow> parser \<Rightarrow> string option presult" where
  "label_loop 0 lbuf ll p = None"
| "label_loop (Suc n) lbuf ll p =
     (case match p TOK_PIPE of
        (False, p1) \<Rightarrow> Some (Some lbuf, p1)
      | (True, p1) \<Rightarrow>
          (case expect p1 TOK_IDENT of
             (None, p2) \<Rightarrow> Some (None, p2)
           | (Some alt, p2) \<Rightarrow>
               (let piece = CHR ''|'' # tk_text alt;
                    lbuf' = (if ll < 256 then lbuf @ snprintf_buf (256 - ll) piece else lbuf);
                    ll' = ll + length piece
                in if 256 \<le> ll' then Some (Some lbuf', p2) else label_loop n lbuf' ll' p2)))"

definition parse_node_label :: "nat \<Rightarrow> parser \<Rightarrow> string option option presult" where
  "parse_node_label n p =
     (case match p TOK_COLON of
        (False, p1) \<Rightarrow> Some (Some None, p1)
      | (True, p1) \<Rightarrow>
          (case expect p1 TOK_IDENT of
             (None, p2) \<Rightarrow> Some (None, p2)
           | (Some label, p2) \<Rightarrow>
               do { (l, p3) \<leftarrow> label_loop n (snprintf_buf 256 (tk_text label)) (length (tk_text label)) p2;
                    Some (map_option Some l, p3) }))"

definition parse_node :: "nat \<Rightarrow> parser \<Rightarrow> node_pattern option presult" where
  "parse_node n p =
     (case expect p TOK_LPAREN of
        (None, p1) \<Rightarrow> Some (None, p1)
      | (Some _, p1) \<Rightarrow>
          (let (variable, p2) = (if check p1 TOK_IDENT
                                 then (Some (tk_text (fst (advance p1))), snd (advance p1))
                                 else (None, p1))
           in do { (lbl, p3) \<leftarrow> parse_node_label n p2;
                   case lbl of
                     None \<Rightarrow> Some (None, p3)
                   | Some label \<Rightarrow>
                       do { (pr, p4) \<leftarrow> (if check p3 TOK_LBRACE then parse_props n p3
                                        else Some (Some [], p3));
                            case pr of
                              None \<Rightarrow> Some (None, p4)
                            | Some props \<Rightarrow>
                                (case expect p4 TOK_RPAREN of
                                   (None, p5) \<Rightarrow> Some (None, p5)
                                 | (Some _, p5) \<Rightarrow>
                                     Some (Some \<lparr>np_variable = variable, np_label = label,
                                                 np_props = props\<rparr>, p5)) } }))"

section \<open>Relationship patterns\<close>

definition number_value :: "token \<Rightarrow> int" where
  "number_value t = int32 (strtol (tk_text t))"

text \<open>\<open>check (p, TOK_NUMBER) ? (int) strtol (advance (p)->text) : 0\<close>.\<close>

definition optional_number :: "parser \<Rightarrow> int \<times> parser" where
  "optional_number p = (if check p TOK_NUMBER
                        then (number_value (fst (advance p)), snd (advance p)) else (0, p))"

definition parse_hop_range :: "parser \<Rightarrow> (int \<times> int) \<times> parser" where
  "parse_hop_range p =
     (if check p TOK_NUMBER then
        (let val = number_value (peek p); p1 = snd (advance p) in
         case match p1 TOK_DOTDOT of
           (True, p2) \<Rightarrow> (let (mx, p3) = optional_number p2 in ((val, mx), p3))
         | (False, p2) \<Rightarrow> ((1, val), p2))
      else
        (case match p TOK_DOTDOT of
           (True, p1) \<Rightarrow> (let (mx, p2) = optional_number p1 in ((1, mx), p2))
         | (False, p1) \<Rightarrow> ((1, 0), p1)))"

fun rel_types_loop :: "nat \<Rightarrow> string list \<Rightarrow> parser \<Rightarrow> string list option presult" where
  "rel_types_loop 0 types p = None"
| "rel_types_loop (Suc n) types p =
     (case match p TOK_PIPE of
        (False, p1) \<Rightarrow> Some (Some types, p1)
      | (True, p1) \<Rightarrow>
          (case expect p1 TOK_IDENT of
             (None, p2) \<Rightarrow> Some (None, p2)
           | (Some t, p2) \<Rightarrow> rel_types_loop n (types @ [tk_text t]) p2))"

definition parse_rel_types :: "nat \<Rightarrow> parser \<Rightarrow> string list option presult" where
  "parse_rel_types n p =
     (case expect p TOK_IDENT of
        (None, p1) \<Rightarrow> Some (None, p1)
      | (Some t, p1) \<Rightarrow> rel_types_loop n [tk_text t] p1)"

definition parse_rel_bracket :: "nat \<Rightarrow> parser \<Rightarrow> rel_pattern \<Rightarrow> rel_pattern option presult" where
  "parse_rel_bracket n p out =
     (let (out1, p1) = (if check p TOK_IDENT \<and> \<not> check p TOK_COLON
                        then (out\<lparr>rp_variable := Some (tk_text (fst (advance p)))\<rparr>, snd (advance p))
                        else (out, p))
      in do { (ts, p3) \<leftarrow> (case match p1 TOK_COLON of
                             (True, p2) \<Rightarrow> parse_rel_types n p2
                           | (False, p2) \<Rightarrow> Some (Some [], p2));
              case ts of
                None \<Rightarrow> Some (None, p3)
              | Some types \<Rightarrow>
                  (let out2 = out1\<lparr>rp_types := types\<rparr>;
                       (out3, p5) =
                         (case match p3 TOK_STAR of
                            (True, p4) \<Rightarrow>
                              (let ((mn, mx), p5) = parse_hop_range p4
                               in (out2\<lparr>rp_min_hops := mn, rp_max_hops := mx\<rparr>, p5))
                          | (False, p4) \<Rightarrow> (out2, p4))
                   in (case expect p5 TOK_RBRACKET of
                         (None, p6) \<Rightarrow> Some (None, p6)
                       | (Some _, p6) \<Rightarrow> Some (Some out3, p6))) })"

definition rel_direction :: "bool \<Rightarrow> bool \<Rightarrow> string" where
  "rel_direction leading_lt trailing_gt =
     (if leading_lt \<and> \<not> trailing_gt then ''inbound''
      else if \<not> leading_lt \<and> trailing_gt then ''outbound''
      else ''any'')"

definition parse_rel :: "nat \<Rightarrow> parser \<Rightarrow> rel_pattern option presult" where
  "parse_rel n p =
     (let out = empty_rel_pattern\<lparr>rp_min_hops := 1, rp_max_hops := 1\<rparr>;
          (leading_lt, p1) = match p TOK_LT
      in case expect p1 TOK_DASH of
           (None, p2) \<Rightarrow> Some (None, p2)
         | (Some _, p2) \<Rightarrow>
             do { (br, p4) \<leftarrow> (case match p2 TOK_LBRACKET of
                                 (True, p3) \<Rightarrow> parse_rel_bracket n p3 out
                               | (False, p3) \<Rightarrow> Some (Some out, p3));
                  case br of
                    None \<Rightarrow> Some (None, p4)
                  | Some out1 \<Rightarrow>
                      (case expect p4 TOK_DASH of
                         (None, p5) \<Rightarrow> Some (None, p5)
                       | (Some _, p5) \<Rightarrow>
                           (let (trailing_gt, p6) = match p5 TOK_GT
                            in Some (Some (out1\<lparr>rp_direction :=
                                       Some (rel_direction leading_lt trailing_gt)\<rparr>), p6))) })"

end
