(* ===== verification/Cyp_Parse_Expr.thy ===== *)
theory Cyp_Parse_Expr
  imports Cyp_Parse_Base
begin

text \<open>
  Function calls and the WHERE grammar of src/src/cypher/cypher.c: the condition parsers
  (\<open>parse_in_list\<close>, \<open>parse_comparison_op\<close>, \<open>parse_exists_predicate\<close>,
  \<open>parse_condition_op\<close>, \<open>parse_condition_lhs\<close>, \<open>parse_condition_expr\<close>), the
  calls with several arguments (\<open>parse_func_arg\<close>, \<open>parse_multiarg_func_item\<close>) and the
  precedence ladder OR, XOR, AND, NOT, atom.
\<close>

section \<open>Function names\<close>

text \<open>The comparison loop of \<open>cyp_ci_eq\<close> and its NULL checks.\<close>

fun ci_eq_loop :: "string \<Rightarrow> string \<Rightarrow> bool" where
  "ci_eq_loop (a # as) (b # bs) = (if c_tolower a \<noteq> c_tolower b then False else ci_eq_loop as bs)"
| "ci_eq_loop a b = (a = [] \<and> b = [])"

definition cyp_ci_eq :: "string option \<Rightarrow> string option \<Rightarrow> bool" where
  "cyp_ci_eq a b = (case (a, b) of (Some x, Some y) \<Rightarrow> ci_eq_loop x y | _ \<Rightarrow> False)"

definition scalar_func_names :: "string list" where
  "scalar_func_names =
     [''labels'', ''type'', ''id'', ''keys'', ''properties'', ''toInteger'', ''toFloat'',
      ''toBoolean'', ''size'', ''length'', ''trim'', ''ltrim'', ''rtrim'', ''reverse'']"

definition scalar_func_canonical :: "string option \<Rightarrow> string option" where
  "scalar_func_canonical s = find (\<lambda>n. cyp_ci_eq s (Some n)) scalar_func_names"

definition is_scalar_value_func :: "string option \<Rightarrow> bool" where
  "is_scalar_value_func f =
     (case f of
        None \<Rightarrow> False
      | Some g \<Rightarrow> g \<in> set [''toLower'', ''toUpper'', ''toString'', ''toInteger'', ''toFloat'',
                    ''toBoolean'', ''size'', ''length'', ''trim'', ''ltrim'', ''rtrim'',
                    ''reverse''])"

definition multiarg_func_names :: "string list" where
  "multiarg_func_names = [''coalesce'', ''substring'', ''replace'', ''left'', ''right'']"

definition multiarg_func_canonical :: "string option \<Rightarrow> string option" where
  "multiarg_func_canonical s = find (\<lambda>n. cyp_ci_eq s (Some n)) multiarg_func_names"

text \<open>The cursor is at an identifier with an opening parenthesis after it.\<close>

definition at_call :: "parser \<Rightarrow> bool" where
  "at_call p \<longleftrightarrow> check p TOK_IDENT \<and> p_pos p + 1 < length (p_tokens p) \<and>
                 tk_type (p_tokens p ! (p_pos p + 1)) = TOK_LPAREN"

definition is_named_func_call :: "parser \<Rightarrow> bool" where
  "is_named_func_call p \<longleftrightarrow> at_call p \<and> scalar_func_canonical (Some (tk_text (peek p))) \<noteq> None"

definition is_multiarg_func_call :: "parser \<Rightarrow> bool" where
  "is_multiarg_func_call p \<longleftrightarrow> at_call p \<and> multiarg_func_canonical (Some (tk_text (peek p))) \<noteq> None"

section \<open>Calls with several arguments\<close>

definition parse_func_arg :: "parser \<Rightarrow> func_arg option \<times> parser" where
  "parse_func_arg p =
     (if check p TOK_STRING \<or> check p TOK_NUMBER then
        (Some (empty_func_arg\<lparr>fa_literal := Some (tk_text (peek p))\<rparr>), snd (advance p))
      else
        (case expect p TOK_IDENT of
           (None, p1) \<Rightarrow> (None, p1)
         | (Some var, p1) \<Rightarrow>
             (let arg = empty_func_arg\<lparr>fa_variable := Some (tk_text var)\<rparr> in
              case match p1 TOK_DOT of
                (False, p2) \<Rightarrow> (Some arg, p2)
              | (True, p2) \<Rightarrow>
                  (case expect p2 TOK_IDENT of
                     (None, p3) \<Rightarrow> (Some arg, p3)
                   | (Some prop, p3) \<Rightarrow> (Some (arg\<lparr>fa_property := Some (tk_text prop)\<rparr>), p3)))))"

fun func_args_loop :: "nat \<Rightarrow> func_arg list \<Rightarrow> parser \<Rightarrow> func_arg list option presult" where
  "func_args_loop 0 args p = None"
| "func_args_loop (Suc n) args p =
     (if \<not> check p TOK_RPAREN \<and> \<not> check p TOK_EOF then
        (case (if args \<noteq> [] then match p TOK_COMMA else (True, p)) of
           (False, p1) \<Rightarrow> Some (Some args, snd (expect p1 TOK_RPAREN))
         | (True, p1) \<Rightarrow>
             (case parse_func_arg p1 of
                (None, p2) \<Rightarrow> Some (None, p2)
              | (Some a, p2) \<Rightarrow> func_args_loop n (args @ [a]) p2))
      else Some (Some args, snd (expect p TOK_RPAREN)))"

definition parse_multiarg_func_item :: "nat \<Rightarrow> parser \<Rightarrow> return_item \<Rightarrow> return_item option presult" where
  "parse_multiarg_func_item n p item =
     (let canon = multiarg_func_canonical (Some (tk_text (peek p)));
          p1 = snd (advance p);
          p2 = snd (expect p1 TOK_LPAREN)
      in do { (res, p3) \<leftarrow> func_args_loop n [] p2;
              case res of
                None \<Rightarrow> Some (None, p3)
              | Some args \<Rightarrow>
                  (let item1 = item\<lparr>ri_args := Some args, ri_func := canon\<rparr>;
                       item2 = (case args of
                                  [] \<Rightarrow> item1
                                | a # _ \<Rightarrow>
                                    (case fa_variable a of
                                       None \<Rightarrow> item1
                                     | Some v \<Rightarrow>
                                         (let item3 = item1\<lparr>ri_variable := Some v\<rparr> in
                                          case fa_property a of
                                            None \<Rightarrow> item3
                                          | Some pr \<Rightarrow> item3\<lparr>ri_property := Some pr\<rparr>)))
                   in Some (Some item2, p3)) })"

section \<open>Conditions\<close>

fun in_list_loop :: "nat \<Rightarrow> string list \<Rightarrow> parser \<Rightarrow> string list presult" where
  "in_list_loop 0 vals p = None"
| "in_list_loop (Suc n) vals p =
     (if \<not> check p TOK_RBRACKET \<and> \<not> check p TOK_EOF then
        (let p1 = (if vals \<noteq> [] then snd (match p TOK_COMMA) else p) in
         if check p1 TOK_STRING \<or> check p1 TOK_NUMBER
         then in_list_loop n (vals @ [tk_text (fst (advance p1))]) (snd (advance p1))
         else Some (vals, p1))
      else Some (vals, p))"

definition parse_in_list :: "nat \<Rightarrow> parser \<Rightarrow> condition \<Rightarrow> expr option presult" where
  "parse_in_list n p c =
     (let p1 = snd (advance p) in
      case expect p1 TOK_LBRACKET of
        (None, p2) \<Rightarrow> Some (None, p2)
      | (Some _, p2) \<Rightarrow>
          do { (vals, p3) \<leftarrow> in_list_loop n [] p2;
               Some (Some (EXPR_CONDITION (c\<lparr>cn_op := Some ''IN'', cn_in_values := vals\<rparr>)),
                     snd (expect p3 TOK_RBRACKET)) })"

definition parse_comparison_op :: "parser \<Rightarrow> string option \<times> parser" where
  "parse_comparison_op p =
     (if check p TOK_EQ then (Some ''='', snd (advance p))
      else if check p TOK_NEQ then (Some ''<>'', snd (advance p))
      else if check p TOK_EQTILDE then (Some ''=~'', snd (advance p))
      else if check p TOK_GTE then (Some ''>='', snd (advance p))
      else if check p TOK_LTE then (Some ''<='', snd (advance p))
      else if check p TOK_GT then (Some ''>'', snd (advance p))
      else if check p TOK_LT then (Some ''<'', snd (advance p))
      else if check p TOK_CONTAINS then (Some ''CONTAINS'', snd (advance p))
      else if check p TOK_STARTS then (Some ''STARTS WITH'', snd (expect (snd (advance p)) TOK_WITH))
      else if check p TOK_ENDS then (Some ''ENDS WITH'', snd (expect (snd (advance p)) TOK_WITH))
      else (None, p))"

definition exists_pattern_error :: string where
  "exists_pattern_error = ''unsupported EXISTS pattern '' @ map char_of [226, 128, 148 :: nat] @
     '' only the single-hop form '' @ [CHR 0x27] @ ''(var)-[:TYPE]->()'' @ [CHR 0x27] @
     '' is supported''"

definition parse_exists_predicate :: "nat \<Rightarrow> parser \<Rightarrow> bool \<Rightarrow> expr option presult" where
  "parse_exists_predicate n p negated =
     (let p1 = snd (advance p) in
      case match p1 TOK_LBRACE of
        (False, p2) \<Rightarrow> Some (None, set_error (''expected '' @ [CHR 0x27] @ ''{'' @ [CHR 0x27] @
                            '' after EXISTS at pos '' @ show_int (int (tk_pos (peek p2)))) p2)
      | (True, p2) \<Rightarrow>
          do { (anchor, p3) \<leftarrow> parse_node n p2;
               case anchor of
                 None \<Rightarrow> Some (None, set_error exists_pattern_error p3)
               | Some an \<Rightarrow>
                   do { (rel, p4) \<leftarrow> parse_rel n p3;
                        case rel of
                          None \<Rightarrow> Some (None, set_error exists_pattern_error p4)
                        | Some rl \<Rightarrow>
                            do { (far_node, p5) \<leftarrow> parse_node n p4;
                                 case far_node of
                                   None \<Rightarrow> Some (None, set_error exists_pattern_error p5)
                                 | Some _ \<Rightarrow>
                                     Some (Some (EXPR_CONDITION (empty_condition\<lparr>
                                        cn_negated := negated,
                                        cn_op := Some ''EXISTS'',
                                        cn_variable := Some (case np_variable an of None \<Rightarrow> [] | Some v \<Rightarrow> v),
                                        cn_value := (case rp_types rl of [] \<Rightarrow> None | t # _ \<Rightarrow> Some t),
                                        cn_exists_dir :=
                                          (if rp_direction rl = Some ''inbound'' then 1
                                           else if rp_direction rl = Some ''any'' then 2 else 0)\<rparr>)),
                                       snd (expect p5 TOK_RBRACE)) } } })"

definition parse_condition_op :: "nat \<Rightarrow> parser \<Rightarrow> condition \<Rightarrow> expr option presult" where
  "parse_condition_op n p c =
     (if check p TOK_IS then
        (case match (snd (advance p)) TOK_NOT of
           (True, p1) \<Rightarrow> Some (Some (EXPR_CONDITION (c\<lparr>cn_op := Some ''IS NOT NULL''\<rparr>)),
                               snd (expect p1 TOK_NULL_KW))
         | (False, p1) \<Rightarrow> Some (Some (EXPR_CONDITION (c\<lparr>cn_op := Some ''IS NULL''\<rparr>)),
                                snd (expect p1 TOK_NULL_KW)))
      else if check p TOK_IN then parse_in_list n p c
      else
        (case parse_comparison_op p of
           (None, p1) \<Rightarrow> Some (None, set_error (''unexpected operator at pos '' @
                                  show_int (int (tk_pos (peek p1)))) p1)
         | (Some op, p1) \<Rightarrow>
             (if check p1 TOK_STRING \<or> check p1 TOK_NUMBER then
                Some (Some (EXPR_CONDITION (c\<lparr>cn_op := Some op,
                              cn_value := Some (tk_text (fst (advance p1)))\<rparr>)), snd (advance p1))
              else if check p1 TOK_TRUE then
                Some (Some (EXPR_CONDITION (c\<lparr>cn_op := Some op, cn_value := Some ''true''\<rparr>)),
                      snd (advance p1))
              else if check p1 TOK_FALSE then
                Some (Some (EXPR_CONDITION (c\<lparr>cn_op := Some op, cn_value := Some ''false''\<rparr>)),
                      snd (advance p1))
              else Some (None, set_error (''expected value at pos '' @
                                  show_int (int (tk_pos (peek p1)))) p1))))"

text \<open>Outcome of \<open>parse_condition_lhs\<close>: an error, a left-hand side that an operator follows
  (return code 0), or a complete condition (\<open>COND_LHS_COMPLETE\<close>, the label test).\<close>

datatype lhs_result = LHS_ERROR | LHS_OPEN condition | LHS_COMPLETE condition

definition unsupported_where_function :: "string \<Rightarrow> string" where
  "unsupported_where_function name =
     ''unsupported function '' @ [CHR 0x27] @ name @ [CHR 0x27] @
     '' in WHERE (supported: coalesce, substring, replace, left, right)''"

definition parse_condition_lhs :: "nat \<Rightarrow> parser \<Rightarrow> condition \<Rightarrow> lhs_result presult" where
  "parse_condition_lhs n p c =
     (if is_multiarg_func_call p then
        do { (res, p1) \<leftarrow> parse_multiarg_func_item n p empty_return_item;
             case res of
               None \<Rightarrow> Some (LHS_ERROR, p1)
             | Some fitem \<Rightarrow>
                 Some (LHS_OPEN (c\<lparr>cn_variable := ri_variable fitem, cn_property := ri_property fitem,
                          cn_func := ri_func fitem,
                          cn_args := (case ri_args fitem of None \<Rightarrow> [] | Some a \<Rightarrow> a)\<rparr>), p1) }
      else if at_call p then
        Some (LHS_ERROR, set_error (unsupported_where_function (tk_text (peek p))) p)
      else
        (case expect p TOK_IDENT of
           (None, p1) \<Rightarrow> Some (LHS_ERROR, p1)
         | (Some var, p1) \<Rightarrow>
             if check p1 TOK_COLON then
               (case expect (snd (advance p1)) TOK_IDENT of
                  (None, p2) \<Rightarrow> Some (LHS_ERROR, p2)
                | (Some lbl, p2) \<Rightarrow>
                    Some (LHS_COMPLETE (c\<lparr>cn_variable := Some (tk_text var),
                            cn_op := Some ''HAS_LABEL'', cn_value := Some (tk_text lbl)\<rparr>), p2))
             else
               (case match p1 TOK_DOT of
                  (True, p2) \<Rightarrow>
                    (case expect p2 TOK_IDENT of
                       (None, p3) \<Rightarrow> Some (LHS_ERROR, p3)
                     | (Some prop, p3) \<Rightarrow>
                         Some (LHS_OPEN (c\<lparr>cn_variable := Some (tk_text var),
                                 cn_property := Some (tk_text prop)\<rparr>), p3))
                | (False, p2) \<Rightarrow>
                    Some (LHS_OPEN (c\<lparr>cn_variable := Some (tk_text var), cn_property := None\<rparr>), p2))))"

definition parse_condition_expr :: "nat \<Rightarrow> parser \<Rightarrow> expr option presult" where
  "parse_condition_expr n p =
     (case match p TOK_NOT of
        (negated, p1) \<Rightarrow>
          if check p1 TOK_EXISTS then parse_exists_predicate n p1 negated
          else do { (lhs, p2) \<leftarrow> parse_condition_lhs n p1 (empty_condition\<lparr>cn_negated := negated\<rparr>);
                    case lhs of
                      LHS_ERROR \<Rightarrow> Some (None, p2)
                    | LHS_COMPLETE c \<Rightarrow> Some (Some (EXPR_CONDITION c), p2)
                    | LHS_OPEN c \<Rightarrow> parse_condition_op n p2 c })"

section \<open>The precedence ladder\<close>

fun parse_or_expr :: "nat \<Rightarrow> parser \<Rightarrow> expr option presult"
and or_loop :: "nat \<Rightarrow> expr \<Rightarrow> parser \<Rightarrow> expr option presult"
and parse_xor_expr :: "nat \<Rightarrow> parser \<Rightarrow> expr option presult"
and xor_loop :: "nat \<Rightarrow> expr \<Rightarrow> parser \<Rightarrow> expr option presult"
and parse_and_expr :: "nat \<Rightarrow> parser \<Rightarrow> expr option presult"
and and_loop :: "nat \<Rightarrow> expr \<Rightarrow> parser \<Rightarrow> expr option presult"
and parse_not_expr :: "nat \<Rightarrow> parser \<Rightarrow> expr option presult"
and parse_atom_expr :: "nat \<Rightarrow> parser \<Rightarrow> expr option presult" where
  "parse_or_expr 0 p = None"
| "parse_or_expr (Suc n) p =
     do { (left, p1) \<leftarrow> parse_xor_expr n p;
          case left of None \<Rightarrow> Some (None, p1) | Some l \<Rightarrow> or_loop n l p1 }"
| "or_loop 0 left p = None"
| "or_loop (Suc n) left p =
     (if check p TOK_OR then
        do { (right, p1) \<leftarrow> parse_xor_expr n (snd (advance p));
             case right of None \<Rightarrow> Some (None, p1) | Some r \<Rightarrow> or_loop n (EXPR_OR left r) p1 }
      else Some (Some left, p))"
| "parse_xor_expr 0 p = None"
| "parse_xor_expr (Suc n) p =
     do { (left, p1) \<leftarrow> parse_and_expr n p;
          case left of None \<Rightarrow> Some (None, p1) | Some l \<Rightarrow> xor_loop n l p1 }"
| "xor_loop 0 left p = None"
| "xor_loop (Suc n) left p =
     (if check p TOK_XOR then
        do { (right, p1) \<leftarrow> parse_and_expr n (snd (advance p));
             case right of None \<Rightarrow> Some (None, p1) | Some r \<Rightarrow> xor_loop n (EXPR_XOR left r) p1 }
      else Some (Some left, p))"
| "parse_and_expr 0 p = None"
| "parse_and_expr (Suc n) p =
     do { (left, p1) \<leftarrow> parse_not_expr n p;
          case left of None \<Rightarrow> Some (None, p1) | Some l \<Rightarrow> and_loop n l p1 }"
| "and_loop 0 left p = None"
| "and_loop (Suc n) left p =
     (if check p TOK_AND then
        do { (right, p1) \<leftarrow> parse_not_expr n (snd (advance p));
             case right of None \<Rightarrow> Some (None, p1) | Some r \<Rightarrow> and_loop n (EXPR_AND left r) p1 }
      else Some (Some left, p))"
| "parse_not_expr 0 p = None"
| "parse_not_expr (Suc n) p =
     (case match p TOK_NOT of
        (True, p1) \<Rightarrow>
          do { (child, p2) \<leftarrow> parse_not_expr n p1;
               case child of None \<Rightarrow> Some (None, p2) | Some e \<Rightarrow> Some (Some (EXPR_NOT e), p2) }
      | (False, p1) \<Rightarrow> parse_atom_expr n p1)"
| "parse_atom_expr 0 p = None"
| "parse_atom_expr (Suc n) p =
     (case match p TOK_LPAREN of
        (True, p1) \<Rightarrow>
          do { (e, p2) \<leftarrow> parse_or_expr n p1;
               Some (e, snd (expect p2 TOK_RPAREN)) }
      | (False, p1) \<Rightarrow> parse_condition_expr n p1)"

text \<open>\<open>parse_where\<close>: \<open>None\<close> is the return code -1; an absent clause is \<open>Some None\<close>.\<close>

definition parse_where :: "nat \<Rightarrow> parser \<Rightarrow> where_clause option option presult" where
  "parse_where n p =
     (case match p TOK_WHERE of
        (False, p1) \<Rightarrow> Some (Some None, p1)
      | (True, p1) \<Rightarrow>
          do { (root, p2) \<leftarrow> parse_or_expr n p1;
               if root = None \<and> p_error p2 \<noteq> [] then Some (None, p2)
               else Some (Some (Some (empty_where\<lparr>wh_root := root\<rparr>)), p2) })"

end
