(* ===== verification/Cyp_Parser.thy ===== *)
theory Cyp_Parser
  imports Cyp_Parse_Expr Cyp_Lexer
begin

text \<open>
  The clauses of a query (src/src/cypher/cypher.c): values and CASE, RETURN and WITH items,
  ORDER BY / SKIP / LIMIT, MATCH patterns, UNWIND, UNION, and the entry points
  \<open>pmm_parse\<close> and \<open>pmm_cypher_parse\<close>.
\<close>

section \<open>Unsupported clauses\<close>

definition unsupported_clause_error :: "tok \<Rightarrow> string option" where
  "unsupported_clause_error type =
     map_option (\<lambda>rest. ''unsupported Cypher feature: '' @ rest)
       (map_of
         [(TOK_CREATE, ''CREATE clause (write operations not supported)''),
          (TOK_DELETE, ''DELETE clause (write operations not supported)''),
          (TOK_DETACH, ''DETACH DELETE (write operations not supported)''),
          (TOK_SET, ''SET clause (write operations not supported)''),
          (TOK_REMOVE, ''REMOVE clause (write operations not supported)''),
          (TOK_MERGE, ''MERGE clause (write operations not supported)''),
          (TOK_YIELD, ''YIELD clause''),
          (TOK_CALL, ''CALL clause (stored procedures not supported)''),
          (TOK_FOREACH, ''FOREACH clause''),
          (TOK_MANDATORY, ''MANDATORY MATCH''),
          (TOK_DROP, ''DROP (schema operations not supported)''),
          (TOK_CONSTRAINT, ''CONSTRAINT (schema operations not supported)'')] type)"

section \<open>Values, CASE\<close>

definition is_aggregate_tok :: "tok \<Rightarrow> bool" where
  "is_aggregate_tok t \<longleftrightarrow>
     t = TOK_COUNT \<or> t = TOK_SUM \<or> t = TOK_AVG \<or> t = TOK_MIN_KW \<or> t = TOK_MAX_KW \<or> t = TOK_COLLECT"

definition is_string_func_tok :: "tok \<Rightarrow> bool" where
  "is_string_func_tok t \<longleftrightarrow> t = TOK_TOLOWER \<or> t = TOK_TOUPPER \<or> t = TOK_TOSTRING"

definition agg_func_name :: "tok \<Rightarrow> string" where
  "agg_func_name t =
     (if t = TOK_COUNT then ''COUNT''
      else if t = TOK_SUM then ''SUM''
      else if t = TOK_AVG then ''AVG''
      else if t = TOK_MIN_KW then ''MIN''
      else if t = TOK_MAX_KW then ''MAX''
      else if t = TOK_COLLECT then ''COLLECT''
      else ''COUNT'')"

definition str_func_name :: "tok \<Rightarrow> string" where
  "str_func_name t =
     (if t = TOK_TOLOWER then ''toLower''
      else if t = TOK_TOUPPER then ''toUpper''
      else if t = TOK_TOSTRING then ''toString''
      else [])"

definition parse_value_literal :: "parser \<Rightarrow> string option \<times> parser" where
  "parse_value_literal p =
     (if check p TOK_STRING \<or> check p TOK_NUMBER then
        (Some (tk_text (fst (advance p))), snd (advance p))
      else if check p TOK_IDENT then
        (let v = fst (advance p); p1 = snd (advance p) in
         case match p1 TOK_DOT of
           (True, p2) \<Rightarrow>
             (let (pr, p3) = expect p2 TOK_IDENT in
              (Some (snprintf_buf 256 (tk_text v @ ''.'' @
                      (case pr of None \<Rightarrow> [] | Some t \<Rightarrow> tk_text t))), p3))
         | (False, p2) \<Rightarrow> (Some (snprintf_buf 256 (tk_text v)), p2))
      else if check p TOK_TRUE then (Some ''true'', snd (advance p))
      else if check p TOK_FALSE then (Some ''false'', snd (advance p))
      else (None, p))"

fun case_loop :: "nat \<Rightarrow> case_branch list \<Rightarrow> parser \<Rightarrow> case_branch list presult" where
  "case_loop 0 branches p = None"
| "case_loop (Suc n) branches p =
     (if check p TOK_WHEN then
        do { (when_e, p1) \<leftarrow> parse_or_expr n (snd (advance p));
             case expect p1 TOK_THEN of
               (None, p2) \<Rightarrow> Some (branches, p2)
             | (Some _, p2) \<Rightarrow>
                 (let (then_val, p3) = parse_value_literal p2
                  in case_loop n (branches @ [\<lparr>cb_when_expr = when_e, cb_then_val = then_val\<rparr>]) p3) }
      else Some (branches, p))"

definition parse_case_expr :: "nat \<Rightarrow> parser \<Rightarrow> case_expr presult" where
  "parse_case_expr n p =
     do { (branches, p1) \<leftarrow> case_loop n [] p;
          let (else_val, p3) = (case match p1 TOK_ELSE of
                                  (True, p2) \<Rightarrow> parse_value_literal p2
                                | (False, p2) \<Rightarrow> (None, p2));
          Some (\<lparr>ce_branches = branches, ce_else_val = else_val\<rparr>, snd (expect p3 TOK_END)) }"

section \<open>RETURN and WITH items\<close>

definition parse_var_dot_prop :: "parser \<Rightarrow> return_item \<Rightarrow> return_item option \<times> parser" where
  "parse_var_dot_prop p item =
     (case expect p TOK_IDENT of
        (None, p1) \<Rightarrow> (None, p1)
      | (Some var, p1) \<Rightarrow>
          (let item1 = item\<lparr>ri_variable := Some (tk_text var)\<rparr> in
           case match p1 TOK_DOT of
             (False, p2) \<Rightarrow> (Some item1, p2)
           | (True, p2) \<Rightarrow>
               (case expect p2 TOK_IDENT of
                  (None, p3) \<Rightarrow> (Some item1, p3)
                | (Some prop, p3) \<Rightarrow> (Some (item1\<lparr>ri_property := Some (tk_text prop)\<rparr>), p3))))"

definition parse_named_func_item :: "parser \<Rightarrow> return_item \<Rightarrow> return_item option \<times> parser" where
  "parse_named_func_item p item =
     (let canon = scalar_func_canonical (Some (tk_text (peek p)));
          p1 = snd (advance p);
          p2 = snd (expect p1 TOK_LPAREN)
      in case parse_var_dot_prop p2 item of
           (None, p3) \<Rightarrow> (None, p3)
         | (Some item1, p3) \<Rightarrow> (Some (item1\<lparr>ri_func := canon\<rparr>), snd (expect p3 TOK_RPAREN)))"

definition parse_aggregate_item :: "parser \<Rightarrow> return_item \<Rightarrow> return_item option \<times> parser" where
  "parse_aggregate_item p item =
     (let ft = tk_type (peek p);
          p1 = snd (advance p);
          p2 = snd (expect p1 TOK_LPAREN);
          (dist, p3) = match p2 TOK_DISTINCT;
          item1 = item\<lparr>ri_distinct := dist\<rparr>
      in case (case match p3 TOK_STAR of
                 (True, p4) \<Rightarrow> (Some (item1\<lparr>ri_variable := Some ''*''\<rparr>), p4)
               | (False, p4) \<Rightarrow> parse_var_dot_prop p4 item1) of
           (None, p5) \<Rightarrow> (None, p5)
         | (Some item2, p5) \<Rightarrow>
             (Some (item2\<lparr>ri_func := Some (agg_func_name ft)\<rparr>), snd (expect p5 TOK_RPAREN)))"

definition parse_string_func_item :: "parser \<Rightarrow> return_item \<Rightarrow> return_item option \<times> parser" where
  "parse_string_func_item p item =
     (let ft = tk_type (peek p);
          p1 = snd (advance p);
          p2 = snd (expect p1 TOK_LPAREN)
      in case parse_var_dot_prop p2 item of
           (None, p3) \<Rightarrow> (None, p3)
         | (Some item1, p3) \<Rightarrow>
             (Some (item1\<lparr>ri_func := Some (str_func_name ft)\<rparr>), snd (expect p3 TOK_RPAREN)))"

definition unsupported_return_function :: "string \<Rightarrow> string" where
  "unsupported_return_function name =
     ''unsupported function '' @ [CHR 0x27] @ name @ [CHR 0x27] @
     '' (supported: count, sum, avg, min, max, collect, toLower, toUpper, toString, toInteger, '' @
     ''toFloat, toBoolean, size, length, trim, ltrim, rtrim, reverse, labels, type, id, keys, '' @
     ''properties)''"

definition unsupported_indexing :: string where
  "unsupported_indexing =
     ''unsupported expression: list indexing/slicing '' @ [CHR 0x27] @ ''[...]'' @ [CHR 0x27] @
     '' is not supported''"

definition parse_item_body :: "nat \<Rightarrow> parser \<Rightarrow> return_item option presult" where
  "parse_item_body n p =
     (let item = empty_return_item in
      if check p TOK_CASE then
        do { (k, p1) \<leftarrow> parse_case_expr n (snd (advance p));
             Some (Some (item\<lparr>ri_kase := Some k, ri_variable := Some ''CASE''\<rparr>), p1) }
      else if is_aggregate_tok (tk_type (peek p)) then Some (parse_aggregate_item p item)
      else if is_string_func_tok (tk_type (peek p)) then Some (parse_string_func_item p item)
      else if is_multiarg_func_call p then parse_multiarg_func_item n p item
      else if is_named_func_call p then Some (parse_named_func_item p item)
      else Some (parse_var_dot_prop p item))"

definition parse_item_alias :: "parser \<Rightarrow> return_item \<Rightarrow> return_item \<times> parser" where
  "parse_item_alias p item =
     (case match p TOK_AS of
        (False, p1) \<Rightarrow> (item, p1)
      | (True, p1) \<Rightarrow>
          (case expect p1 TOK_IDENT of
             (None, p2) \<Rightarrow> (item, p2)
           | (Some a, p2) \<Rightarrow> (item\<lparr>ri_alias := Some (tk_text a)\<rparr>, p2)))"

definition parse_return_item :: "nat \<Rightarrow> parser \<Rightarrow> return_item option presult" where
  "parse_return_item n p =
     do { (res, p1) \<leftarrow> parse_item_body n p;
          case res of
            None \<Rightarrow> Some (None, p1)
          | Some item \<Rightarrow>
              if ri_func item = None \<and> ri_kase item = None \<and> (check p1 TOK_LPAREN \<or> check p1 TOK_LBRACKET)
              then Some (None, set_error
                     (if check p1 TOK_LPAREN
                      then unsupported_return_function
                             (case ri_variable item of None \<Rightarrow> ''?'' | Some v \<Rightarrow> v)
                      else unsupported_indexing) p1)
              else Some (map_prod Some id (parse_item_alias p1 item)) }"

section \<open>ORDER BY\<close>

definition parse_order_by_agg :: "parser \<Rightarrow> string \<times> parser" where
  "parse_order_by_agg p =
     (let fn = agg_func_name (tk_type (peek p));
          p1 = snd (advance p);
          p2 = snd (expect p1 TOK_LPAREN)
      in case match p2 TOK_STAR of
           (True, p3) \<Rightarrow> (snprintf_buf 256 (fn @ ''(*)''), snd (expect p3 TOK_RPAREN))
         | (False, p3) \<Rightarrow>
             (let (var, p4) = expect p3 TOK_IDENT
              in (snprintf_buf 256 (fn @ ''('' @ (case var of None \<Rightarrow> [] | Some t \<Rightarrow> tk_text t) @ '')''),
                  snd (expect p4 TOK_RPAREN))))"

definition parse_order_by_var :: "parser \<Rightarrow> string \<times> parser" where
  "parse_order_by_var p =
     (case expect p TOK_IDENT of
        (None, p1) \<Rightarrow> ([], p1)
      | (Some var, p1) \<Rightarrow>
          (case match p1 TOK_DOT of
             (False, p2) \<Rightarrow> (snprintf_buf 256 (tk_text var), p2)
           | (True, p2) \<Rightarrow>
               (case expect p2 TOK_IDENT of
                  (None, p3) \<Rightarrow> (snprintf_buf 256 (tk_text var), p3)
                | (Some prop, p3) \<Rightarrow>
                    (snprintf_buf 256 (tk_text var @ ''.'' @ tk_text prop), p3))))"

definition parse_order_by_expr :: "parser \<Rightarrow> string \<times> parser" where
  "parse_order_by_expr p =
     (if is_aggregate_tok (tk_type (peek p)) then parse_order_by_agg p else parse_order_by_var p)"

definition parse_order_by_clause :: "parser \<Rightarrow> return_clause \<Rightarrow> return_clause \<times> parser" where
  "parse_order_by_clause p r =
     (let p1 = snd (expect p TOK_BY);
          (buf, p2) = parse_order_by_expr p1;
          r1 = r\<lparr>rc_order_by := Some buf\<rparr>
      in if check p2 TOK_ASC then (r1\<lparr>rc_order_dir := Some ''ASC''\<rparr>, snd (advance p2))
         else if check p2 TOK_DESC then (r1\<lparr>rc_order_dir := Some ''DESC''\<rparr>, snd (advance p2))
         else (r1, p2))"

section \<open>RETURN and WITH clauses\<close>

text \<open>The do-while loop over the items; \<open>None\<close> inside is the failure of an item.\<close>

fun items_loop :: "nat \<Rightarrow> return_item list \<Rightarrow> parser \<Rightarrow> return_item list option presult" where
  "items_loop 0 items p = None"
| "items_loop (Suc n) items p =
     (case (if items \<noteq> [] then match p TOK_COMMA else (True, p)) of
        (False, p1) \<Rightarrow> Some (Some items, p1)
      | (True, p1) \<Rightarrow>
          do { (res, p2) \<leftarrow> parse_return_item n p1;
               case res of
                 None \<Rightarrow> Some (None, p2)
               | Some item \<Rightarrow>
                   if check p2 TOK_COMMA then items_loop n (items @ [item]) p2
                   else Some (Some (items @ [item]), p2) })"

definition parse_skip :: "parser \<Rightarrow> return_clause \<Rightarrow> return_clause \<times> parser" where
  "parse_skip p r =
     (case match p TOK_SKIP of
        (False, p1) \<Rightarrow> (r, p1)
      | (True, p1) \<Rightarrow>
          (case expect p1 TOK_NUMBER of
             (None, p2) \<Rightarrow> (r, p2)
           | (Some num, p2) \<Rightarrow> (r\<lparr>rc_skip := number_value num\<rparr>, p2)))"

definition parse_limit :: "parser \<Rightarrow> return_clause \<Rightarrow> return_clause \<times> parser" where
  "parse_limit p r =
     (case match p TOK_LIMIT of
        (False, p1) \<Rightarrow> (r, p1)
      | (True, p1) \<Rightarrow>
          (case expect p1 TOK_NUMBER of
             (None, p2) \<Rightarrow> (r, p2)
           | (Some num, p2) \<Rightarrow> (r\<lparr>rc_limit := number_value num\<rparr>, p2)))"

definition parse_return_tail :: "parser \<Rightarrow> return_clause \<Rightarrow> return_clause \<times> parser" where
  "parse_return_tail p r =
     (let (r1, p2) = (case match p TOK_ORDER of
                        (True, p1) \<Rightarrow> parse_order_by_clause p1 r
                      | (False, p1) \<Rightarrow> (r, p1));
          (r2, p3) = parse_skip p2 r1
      in parse_limit p3 r2)"

definition parse_return_or_with :: "nat \<Rightarrow> parser \<Rightarrow> bool \<Rightarrow> return_clause option option presult" where
  "parse_return_or_with n p is_with =
     (case match p (if is_with then TOK_WITH else TOK_RETURN) of
        (False, p1) \<Rightarrow> Some (Some None, p1)
      | (True, p1) \<Rightarrow>
          (let (dist, p2) = match p1 TOK_DISTINCT;
               r = empty_return_clause\<lparr>rc_distinct := dist\<rparr>
           in case (if \<not> is_with then match p2 TOK_STAR else (False, p2)) of
                (True, p3) \<Rightarrow>
                  Some (map_prod (Some \<circ> Some) id (parse_return_tail p3 (r\<lparr>rc_star := True\<rparr>)))
              | (False, p3) \<Rightarrow>
                  do { (res, p4) \<leftarrow> items_loop n [] p3;
                       case res of
                         None \<Rightarrow> Some (None, p4)
                       | Some items \<Rightarrow>
                           if 32 < length items then Some (None, p4)
                           else Some (map_prod (Some \<circ> Some) id
                                  (parse_return_tail p4 (r\<lparr>rc_items := items\<rparr>))) }))"

definition parse_return :: "nat \<Rightarrow> parser \<Rightarrow> return_clause option option presult" where
  "parse_return n p = parse_return_or_with n p False"

section \<open>MATCH\<close>

fun match_rels_loop :: "nat \<Rightarrow> pattern \<Rightarrow> parser \<Rightarrow> pattern option presult" where
  "match_rels_loop 0 pat p = None"
| "match_rels_loop (Suc n) pat p =
     (if check p TOK_DASH \<or> check p TOK_LT then
        do { (rel, p1) \<leftarrow> parse_rel n p;
             case rel of
               None \<Rightarrow> Some (None, p1)
             | Some r \<Rightarrow>
                 do { (node, p2) \<leftarrow> parse_node n p1;
                      case node of
                        None \<Rightarrow> Some (None, p2)
                      | Some nd \<Rightarrow>
                          match_rels_loop n (pat\<lparr>pt_rels := pt_rels pat @ [r],
                                                 pt_nodes := pt_nodes pat @ [nd]\<rparr>) p2 } }
      else Some (Some pat, p))"

definition parse_match_pattern :: "nat \<Rightarrow> parser \<Rightarrow> pattern option presult" where
  "parse_match_pattern n p =
     do { (node, p1) \<leftarrow> parse_node n p;
          case node of
            None \<Rightarrow> Some (None, p1)
          | Some nd \<Rightarrow> match_rels_loop n \<lparr>pt_nodes = [nd], pt_rels = []\<rparr> p1 }"

text \<open>The chain of further MATCH / OPTIONAL MATCH patterns, each with its optional flag.\<close>

fun parse_match_chain ::
  "nat \<Rightarrow> (pattern \<times> bool) list \<Rightarrow> parser \<Rightarrow> (pattern \<times> bool) list option presult" where
  "parse_match_chain 0 pats p = None"
| "parse_match_chain (Suc n) pats p =
     (if check p TOK_MATCH \<or> check p TOK_OPTIONAL then
        (let opt = check p TOK_OPTIONAL;
             p1 = (if opt then snd (advance p) else p)
         in case expect p1 TOK_MATCH of
              (None, p2) \<Rightarrow> Some (Some pats, p2)
            | (Some _, p2) \<Rightarrow>
                do { (pat, p3) \<leftarrow> parse_match_pattern n p2;
                     case pat of
                       None \<Rightarrow> Some (None, p3)
                     | Some pt \<Rightarrow> parse_match_chain n (pats @ [(pt, opt)]) p3 })
      else Some (Some pats, p))"

section \<open>UNWIND\<close>

text \<open>
  The literal list is printed into a 2048-byte buffer with
  \<open>blen += snprintf (buf + blen, sizeof (buf) - blen, ...)\<close>, where snprintf returns the
  length it would have written.  Below, \<open>buf\<close> is the untruncated text, whose length is
  \<open>blen\<close>; as soon as it reaches 2047 bytes the closing bracket and the terminator, and with
  more input the separators, are written past the end of the buffer.  \<open>p_overflow\<close>
  records that.
\<close>

fun unwind_loop :: "nat \<Rightarrow> string \<Rightarrow> parser \<Rightarrow> string presult" where
  "unwind_loop 0 buf p = None"
| "unwind_loop (Suc n) buf p =
     (if \<not> check p TOK_RBRACKET \<and> \<not> check p TOK_EOF then
        (let buf1 = (if 1 < length buf then buf @ '','' else buf);
             buf2 = (if check p TOK_STRING
                     then buf1 @ [CHR 0x22] @ tk_text (peek p) @ [CHR 0x22]
                     else if check p TOK_NUMBER then buf1 @ tk_text (peek p)
                     else buf1)
         in unwind_loop n buf2 (snd (match (snd (advance p)) TOK_COMMA)))
      else Some (buf, p))"

definition parse_unwind_source :: "nat \<Rightarrow> parser \<Rightarrow> string option presult" where
  "parse_unwind_source n p =
     (if check p TOK_LBRACKET then
        do { (buf, p1) \<leftarrow> unwind_loop n ''['' (snd (advance p));
             let p2 = snd (expect p1 TOK_RBRACKET);
             Some (Some (buf @ '']''),
                   if 2047 \<le> length buf then p2\<lparr>p_overflow := True\<rparr> else p2) }
      else if check p TOK_IDENT then Some (Some (tk_text (fst (advance p))), snd (advance p))
      else Some (None, p))"

definition parse_unwind_clause :: "nat \<Rightarrow> parser \<Rightarrow> (string option \<times> string option) presult" where
  "parse_unwind_clause n p =
     do { (e, p1) \<leftarrow> parse_unwind_source n (snd (advance p));
          let p2 = snd (expect p1 TOK_AS);
          (case expect p2 TOK_IDENT of
             (None, p3) \<Rightarrow> Some ((e, None), p3)
           | (Some alias, p3) \<Rightarrow> Some ((e, Some (tk_text alias)), p3)) }"

section \<open>Queries\<close>

record parse_result =
  pr_query :: "query option"
  pr_error :: "string option"
  pr_overflow :: bool

definition parse_ok :: "query \<Rightarrow> bool \<Rightarrow> int \<times> parse_result" where
  "parse_ok q ov = (0, \<lparr>pr_query = Some q, pr_error = None, pr_overflow = ov\<rparr>)"

definition parse_fail :: "string \<Rightarrow> bool \<Rightarrow> int \<times> parse_result" where
  "parse_fail msg ov = (-1, \<lparr>pr_query = None, pr_error = Some msg, pr_overflow = ov\<rparr>)"

definition error_or :: "parser \<Rightarrow> string \<Rightarrow> int \<times> parse_result" where
  "error_or p dflt = parse_fail (if p_error p \<noteq> [] then p_error p else dflt) (p_overflow p)"

text \<open>The clauses that \<open>parse_post_where\<close> fills in: patterns, WITH, its WHERE, RETURN, UNION.\<close>

record post_where =
  pw_patterns :: "(pattern \<times> bool) list"
  pw_with :: "return_clause option"
  pw_where :: "where_clause option"
  pw_ret :: "return_clause option"
  pw_union :: "query option"
  pw_union_all :: bool

definition standalone_with :: "parser \<Rightarrow> bool" where
  "standalone_with p \<longleftrightarrow> check p TOK_WITH \<and>
     (p_pos p < 2 \<or> tk_type (p_tokens p ! (p_pos p - 1)) \<noteq> TOK_STARTS)"

definition parse_with_part ::
  "nat \<Rightarrow> parser \<Rightarrow> (return_clause option \<times> where_clause option) option presult" where
  "parse_with_part n p =
     (if standalone_with p then
        do { (wc, p1) \<leftarrow> parse_return_or_with n p True;
             case wc of
               None \<Rightarrow> Some (None, p1)
             | Some w \<Rightarrow>
                 do { (wh, p2) \<leftarrow> parse_where n p1;
                      case wh of
                        None \<Rightarrow> Some (None, p2)
                      | Some v \<Rightarrow> Some (Some (w, v), p2) } }
      else Some (Some (None, None), p))"

fun pmm_parse :: "nat \<Rightarrow> token list \<Rightarrow> (int \<times> parse_result) option"
and parse_post_WHERE :: "nat \<Rightarrow> (pattern \<times> bool) list \<Rightarrow> parser \<Rightarrow> post_where option presult" where
  "pmm_parse 0 tokens = None"
| "pmm_parse (Suc n) tokens =
     (let p = \<lparr>p_tokens = tokens, p_pos = 0, p_error = [], p_overflow = False\<rparr> in
      case unsupported_clause_error (tk_type (peek p)) of
        Some unsup \<Rightarrow> Some (parse_fail unsup False)
      | None \<Rightarrow>
          do { ((u_expr, u_alias), p1) \<leftarrow> (if check p TOK_UNWIND then parse_unwind_clause n p
                                        else Some ((None, None), p));
               let (first_optional, p2) = match p1 TOK_OPTIONAL;
               case expect p2 TOK_MATCH of
                 (None, p3) \<Rightarrow> Some (error_or p3 ''expected MATCH'')
               | (Some _, p3) \<Rightarrow>
                   do { (pat0, p4) \<leftarrow> parse_match_pattern n p3;
                        case pat0 of
                          None \<Rightarrow> Some (error_or p4 ''failed to parse pattern'')
                        | Some pt0 \<Rightarrow>
                            do { (pats, p5) \<leftarrow> parse_match_chain n [(pt0, first_optional)] p4;
                                 case pats of
                                   None \<Rightarrow> Some (error_or p5 ''failed to parse additional pattern'')
                                 | Some ps \<Rightarrow>
                                     do { (wh, p6) \<leftarrow> parse_where n p5;
                                          case wh of
                                            None \<Rightarrow> Some (error_or p6 ''failed to parse WHERE'')
                                          | Some w \<Rightarrow>
                                              do { (res, p7) \<leftarrow> parse_post_WHERE n ps p6;
                                                   case res of
                                                     None \<Rightarrow> Some (error_or p7 ''failed to parse query'')
                                                   | Some pw \<Rightarrow>
                                                       Some (parse_ok
                                                         (Query (map fst (pw_patterns pw))
                                                            (map snd (pw_patterns pw)) w (pw_with pw)
                                                            (pw_where pw) (pw_ret pw) (pw_union pw)
                                                            (pw_union_all pw) u_expr u_alias)
                                                         (p_overflow p7)) } } } } })"
| "parse_post_WHERE 0 pats p = None"
| "parse_post_WHERE (Suc n) pats p =
     do { (chain, p1) \<leftarrow> parse_match_chain n pats p;
          case chain of
            None \<Rightarrow> Some (None, p1)
          | Some ps \<Rightarrow>
              (case unsupported_clause_error (tk_type (peek p1)) of
                 Some unsup \<Rightarrow> Some (None, set_error unsup p1)
               | None \<Rightarrow>
                   do { (wp, p2) \<leftarrow> parse_with_part n p1;
                        case wp of
                          None \<Rightarrow> Some (None, p2)
                        | Some (wc, wwh) \<Rightarrow>
                            do { (rt, p3) \<leftarrow> parse_return n p2;
                                 case rt of
                                   None \<Rightarrow> Some (None, p3)
                                 | Some r \<Rightarrow>
                                     (let pw = \<lparr>pw_patterns = ps, pw_with = wc, pw_where = wwh,
                                                pw_ret = r, pw_union = None, pw_union_all = False\<rparr> in
                                      if check p3 TOK_UNION then
                                        (let (all, p4) = match (snd (advance p3)) TOK_ALL in
                                         do { (rc, sub) \<leftarrow> pmm_parse n (drop (p_pos p4) (p_tokens p4));
                                              let p5 = p4\<lparr>p_overflow := p_overflow p4 \<or> pr_overflow sub\<rparr>;
                                              if rc < 0
                                              then Some (None, case pr_error sub of
                                                     None \<Rightarrow> p5 | Some e \<Rightarrow> set_error e p5)
                                              else Some (Some (pw\<lparr>pw_union := pr_query sub,
                                                          pw_union_all := all\<rparr>), p5) })
                                      else Some (Some pw, p3)) } }) }"

text \<open>
  Fuel for a token array: every call of the parser that recurses or loops spends one unit and a
  token costs at most nine of them (\<open>Cyp_Parser_Facts\<close>).
\<close>

definition parse_fuel :: "token list \<Rightarrow> nat" where
  "parse_fuel tokens = 10 * length tokens + 20"

text \<open>\<open>pmm_cypher_parse\<close>: the return code, the query and the error message.\<close>

definition pmm_cypher_parse :: "string option \<Rightarrow> (int \<times> query option \<times> string option) option" where
  "pmm_cypher_parse input =
     (let (lrc, lr) = pmm_lex input in
      if lrc < 0 \<or> lr_error lr \<noteq> None
      then Some (-1, None, Some (case lr_error lr of Some e \<Rightarrow> e | None \<Rightarrow> ''lex error''))
      else do { (rc, pr) \<leftarrow> pmm_parse (parse_fuel (lr_tokens lr)) (lr_tokens lr);
                if rc < 0
                then Some (-1, None, Some (case pr_error pr of Some e \<Rightarrow> e | None \<Rightarrow> ''parse error''))
                else Some (0, pr_query pr, None) })"

end
