(* ===== verification/Cyp_Parse_Logic.thy ===== *)
theory Cyp_Parse_Logic
  imports Cyp_Parser
begin

text \<open>
  A small total-correctness calculus for the parser.  \<open>returns m p Q\<close> says that the parsing
  step \<open>m\<close>, started at \<open>p\<close>, returns within its fuel, at a cursor that \<open>moves\<close> on from
  \<open>p\<close> (same tokens, not behind, still before the end-of-input token, an error once reported
  stays reported, no buffer overrun) and with a result that satisfies \<open>Q\<close>.  The rules of
  the collection \<open>preturns\<close> follow the shape of the parser's code.
\<close>

named_theorems preturns \<open>introduction rules for \<open>returns\<close>\<close>

text \<open>A token array that ends in the end-of-input token, and a cursor inside it.\<close>

definition eof_ended :: "token list \<Rightarrow> bool" where
  "eof_ended ts \<longleftrightarrow> ts \<noteq> [] \<and> tk_type (last ts) = TOK_EOF"

definition pwf :: "parser \<Rightarrow> bool" where
  "pwf p \<longleftrightarrow> eof_ended (p_tokens p) \<and> p_pos p < length (p_tokens p)"

definition moves :: "parser \<Rightarrow> parser \<Rightarrow> bool" where
  "moves p p' \<longleftrightarrow> p_tokens p' = p_tokens p \<and> pwf p' \<and> p_pos p \<le> p_pos p' \<and>
     (p_error p \<noteq> [] \<longrightarrow> p_error p' \<noteq> []) \<and> p_overflow p' = p_overflow p"

text \<open>The number of tokens between the cursor and the last one.\<close>

definition toks_left :: "parser \<Rightarrow> nat" where
  "toks_left p = length (p_tokens p) - 1 - p_pos p"

definition returns :: "'a presult \<Rightarrow> parser \<Rightarrow> ('a \<Rightarrow> parser \<Rightarrow> bool) \<Rightarrow> bool" where
  "returns m p Q \<longleftrightarrow> (\<exists>r p'. m = Some (r, p') \<and> moves p p' \<and> Q r p')"

definition next_p :: "parser \<Rightarrow> parser" where
  "next_p p = p\<lparr>p_pos := p_pos p + 1\<rparr>"

section \<open>Moving the cursor\<close>

lemma moves_refl [simp]: "pwf p \<Longrightarrow> moves p p"
  by (simp add: moves_def)

lemma moves_trans [trans]: "moves p q \<Longrightarrow> moves q r \<Longrightarrow> moves p r"
  by (auto simp: moves_def)

lemma moves_pwf: "moves p q \<Longrightarrow> pwf q"
  by (simp add: moves_def)

lemma moves_left: "moves p q \<Longrightarrow> toks_left q \<le> toks_left p"
  by (auto simp: moves_def toks_left_def)

lemma moves_error: "moves p q \<Longrightarrow> p_error p \<noteq> [] \<Longrightarrow> p_error q \<noteq> []"
  by (simp add: moves_def)

lemma peek_in: "pwf p \<Longrightarrow> peek p = p_tokens p ! p_pos p"
  by (auto simp: pwf_def peek_def)

lemma advance_in: "pwf p \<Longrightarrow> advance p = (peek p, next_p p)"
  by (auto simp: pwf_def peek_def advance_def next_p_def)

lemma not_last: "pwf p \<Longrightarrow> \<not> check p TOK_EOF \<Longrightarrow> p_pos p + 1 < length (p_tokens p)"
proof (rule ccontr)
  assume p: "pwf p" "\<not> check p TOK_EOF" "\<not> p_pos p + 1 < length (p_tokens p)"
  then have "p_pos p = length (p_tokens p) - 1" by (auto simp: pwf_def)
  moreover have "peek p = p_tokens p ! p_pos p" by (rule peek_in [OF p(1)])
  ultimately have "peek p = last (p_tokens p)"
    using p(1) by (auto simp: last_conv_nth pwf_def eof_ended_def)
  then show False using p by (simp add: check_def pwf_def eof_ended_def)
qed

lemma next_moves: "pwf p \<Longrightarrow> \<not> check p TOK_EOF \<Longrightarrow> moves p (next_p p)"
  using not_last [of p] by (auto simp: moves_def pwf_def next_p_def)

lemma next_left: "pwf p \<Longrightarrow> \<not> check p TOK_EOF \<Longrightarrow> Suc (toks_left (next_p p)) = toks_left p"
  using not_last [of p] by (auto simp: toks_left_def next_p_def)

lemma check_not_eof: "check p t \<Longrightarrow> t \<noteq> TOK_EOF \<Longrightarrow> \<not> check p TOK_EOF"
  by (simp add: check_def)

lemma check_next_moves: "pwf p \<Longrightarrow> check p t \<Longrightarrow> t \<noteq> TOK_EOF \<Longrightarrow> moves p (next_p p)"
  by (blast intro: next_moves dest: check_not_eof)

lemma check_next_left:
  "pwf p \<Longrightarrow> check p t \<Longrightarrow> t \<noteq> TOK_EOF \<Longrightarrow> Suc (toks_left (next_p p)) = toks_left p"
  by (blast intro: next_left dest: check_not_eof)

lemma set_error_nonempty: "msg \<noteq> [] \<Longrightarrow> p_error (set_error msg p) \<noteq> []"
  by (cases msg) (auto simp: set_error_def snprintf_buf_def)

lemma set_error_moves: "pwf p \<Longrightarrow> msg \<noteq> [] \<Longrightarrow> moves p (set_error msg p)"
  using set_error_nonempty [of msg p]
  by (auto simp: moves_def set_error_def pwf_def)

lemma set_error_empty [simp]: "p_error (set_error msg p) = [] \<longleftrightarrow> msg = []"
  by (cases msg) (auto simp: set_error_def snprintf_buf_def)

lemma set_error_left [simp]: "toks_left (set_error msg p) = toks_left p"
  by (simp add: set_error_def toks_left_def)

text \<open>The three cursor primitives, on a cursor inside its array.\<close>

lemma match_eq:
  "pwf p \<Longrightarrow> match p t = (if check p t then (True, next_p p) else (False, p))"
  by (simp add: match_def advance_in)

definition expect_failed :: "parser \<Rightarrow> tok \<Rightarrow> parser" where
  "expect_failed p t = snd (expect (p\<lparr>p_tokens := p_tokens p\<rparr>) t)"

lemma expect_eq:
  "pwf p \<Longrightarrow> expect p t = (if check p t then (Some (peek p), next_p p) else (None, expect_failed p t))"
  by (simp add: expect_def expect_failed_def advance_in)

lemma expect_failed_set_error:
  "\<not> check p t \<Longrightarrow> \<exists>msg. msg \<noteq> [] \<and> expect_failed p t = set_error msg p"
  by (auto simp: expect_failed_def expect_def)

lemma expect_failed_error: "\<not> check p t \<Longrightarrow> p_error (expect_failed p t) \<noteq> []"
  using expect_failed_set_error [of p t] set_error_nonempty by auto

lemma expect_failed_moves: "pwf p \<Longrightarrow> \<not> check p t \<Longrightarrow> moves p (expect_failed p t)"
  using expect_failed_set_error [of p t] set_error_moves by auto

lemma expect_failed_left: "\<not> check p t \<Longrightarrow> toks_left (expect_failed p t) = toks_left p"
  using expect_failed_set_error [of p t] by auto

text \<open>\<open>snd (expect p t)\<close> where the code ignores the outcome.\<close>

lemma expect_moves: "pwf p \<Longrightarrow> t \<noteq> TOK_EOF \<Longrightarrow> moves p (snd (expect p t))"
  by (auto simp: expect_eq intro: check_next_moves expect_failed_moves)

lemma match_moves: "pwf p \<Longrightarrow> t \<noteq> TOK_EOF \<Longrightarrow> moves p (snd (match p t))"
  by (auto simp: match_eq intro: check_next_moves)

section \<open>The rules\<close>

lemma returnsI: "m = Some (r, p') \<Longrightarrow> moves p p' \<Longrightarrow> Q r p' \<Longrightarrow> returns m p Q"
  by (auto simp: returns_def)

lemma returns_ret [preturns]: "moves p p' \<Longrightarrow> Q r p' \<Longrightarrow> returns (Some (r, p')) p Q"
  by (auto simp: returns_def)

lemma returns_pair: "moves p (snd m) \<Longrightarrow> Q (fst m) (snd m) \<Longrightarrow> returns (Some m) p Q"
  by (cases m) (auto simp: returns_def)

text \<open>Using a proved step inside a longer one: the facts about the cursor after it come along.\<close>

lemma returns_mono:
  "returns m p Q \<Longrightarrow>
   (\<And>r p'. moves p p' \<Longrightarrow> pwf p' \<Longrightarrow> toks_left p' \<le> toks_left p \<Longrightarrow> Q r p' \<Longrightarrow> R r p') \<Longrightarrow>
   returns m p R"
  unfolding returns_def using moves_left moves_pwf by blast

lemma returns_from:
  "moves p q \<Longrightarrow> (pwf q \<Longrightarrow> toks_left q \<le> toks_left p \<Longrightarrow> returns m q Q) \<Longrightarrow> returns m p Q"
  by (auto simp: returns_def intro: moves_trans moves_pwf moves_left)

lemma returns_call:
  assumes "moves p q" "pwf q \<Longrightarrow> toks_left q \<le> toks_left p \<Longrightarrow> returns m q Q"
    "\<And>r p'. moves q p' \<Longrightarrow> pwf p' \<Longrightarrow> toks_left p' \<le> toks_left q \<Longrightarrow> Q r p' \<Longrightarrow> R r p'"
  shows "returns m p R"
proof (rule returns_from [OF assms(1)])
  assume "pwf q" "toks_left q \<le> toks_left p"
  then have "returns m q Q" by (rule assms(2))
  then show "returns m q R" by (rule returns_mono [OF _ assms(3)])
qed

lemma returns_bind [preturns]:
  "returns m p (\<lambda>r p1. returns (f r p1) p1 Q) \<Longrightarrow> returns (m \<bind> (\<lambda>(r, p1). f r p1)) p Q"
  by (auto simp: returns_def intro: moves_trans)

lemma returns_if_check [preturns]:
  assumes "pwf p" "t \<noteq> TOK_EOF"
    and "check p t \<Longrightarrow> pwf (next_p p) \<Longrightarrow> Suc (toks_left (next_p p)) = toks_left p \<Longrightarrow>
           moves p (next_p p) \<Longrightarrow> returns x p Q"
    and "\<not> check p t \<Longrightarrow> returns y p Q"
  shows "returns (if check p t then x else y) p Q"
  using assms check_next_left check_next_moves moves_pwf by auto

lemma returns_if [preturns]:
  "(b \<Longrightarrow> returns x p Q) \<Longrightarrow> (\<not> b \<Longrightarrow> returns y p Q) \<Longrightarrow> returns (if b then x else y) p Q"
  by simp

lemma returns_case_option [preturns]:
  "(r = None \<Longrightarrow> returns x p Q) \<Longrightarrow> (\<And>a. r = Some a \<Longrightarrow> returns (y a) p Q) \<Longrightarrow>
     returns (case r of None \<Rightarrow> x | Some a \<Rightarrow> y a) p Q"
  by (cases r) auto

lemma returns_case_bool [preturns]:
  "(b \<Longrightarrow> returns x p Q) \<Longrightarrow> (\<not> b \<Longrightarrow> returns y p Q) \<Longrightarrow>
     returns (case b of True \<Rightarrow> x | False \<Rightarrow> y) p Q"
  by (cases b) auto

lemma returns_next:
  assumes "pwf p" "\<not> check p TOK_EOF"
    "pwf (next_p p) \<Longrightarrow> Suc (toks_left (next_p p)) = toks_left p \<Longrightarrow> moves p (next_p p) \<Longrightarrow>
       returns m (next_p p) Q"
  shows "returns m p Q"
  using assms returns_from [OF next_moves] next_left next_moves by blast

lemma returns_expect_failed:
  assumes "pwf p" "\<not> check p t"
    "pwf (expect_failed p t) \<Longrightarrow> toks_left (expect_failed p t) = toks_left p \<Longrightarrow>
       p_error (expect_failed p t) \<noteq> [] \<Longrightarrow> moves p (expect_failed p t) \<Longrightarrow>
       returns m (expect_failed p t) Q"
  shows "returns m p Q"
  using assms returns_from [OF expect_failed_moves] expect_failed_left expect_failed_error
    expect_failed_moves by blast

lemma returns_expect [preturns]:
  assumes "pwf p" "t \<noteq> TOK_EOF"
    and "check p t \<Longrightarrow> pwf (next_p p) \<Longrightarrow> Suc (toks_left (next_p p)) = toks_left p \<Longrightarrow>
           moves p (next_p p) \<Longrightarrow> returns (g (peek p) (next_p p)) (next_p p) Q"
    and "\<not> check p t \<Longrightarrow> pwf (expect_failed p t) \<Longrightarrow>
           toks_left (expect_failed p t) = toks_left p \<Longrightarrow> p_error (expect_failed p t) \<noteq> [] \<Longrightarrow>
           moves p (expect_failed p t) \<Longrightarrow> returns (f (expect_failed p t)) (expect_failed p t) Q"
  shows "returns (case expect p t of (None, p1) \<Rightarrow> f p1 | (Some a, p1) \<Rightarrow> g a p1) p Q"
proof (cases "check p t")
  case True
  have "returns (g (peek p) (next_p p)) p Q"
    by (rule returns_next [OF assms(1) check_not_eof [OF True assms(2)] assms(3) [OF True]])
  then show ?thesis using True assms(1) by (simp add: expect_eq)
next
  case False
  have "returns (f (expect_failed p t)) p Q"
    by (rule returns_expect_failed [OF assms(1) False assms(4) [OF False]])
  then show ?thesis using False assms(1) by (simp add: expect_eq)
qed

lemma returns_match [preturns]:
  assumes "pwf p" "t \<noteq> TOK_EOF"
    and "check p t \<Longrightarrow> pwf (next_p p) \<Longrightarrow> Suc (toks_left (next_p p)) = toks_left p \<Longrightarrow>
           moves p (next_p p) \<Longrightarrow> returns (g (next_p p)) (next_p p) Q"
    and "\<not> check p t \<Longrightarrow> returns (f p) p Q"
  shows "returns (case match p t of (True, p1) \<Rightarrow> g p1 | (False, p1) \<Rightarrow> f p1) p Q"
proof (cases "check p t")
  case True
  have "returns (g (next_p p)) p Q"
    by (rule returns_next [OF assms(1) check_not_eof [OF True assms(2)] assms(3) [OF True]])
  then show ?thesis using True assms(1) by (simp add: match_eq)
next
  case False
  then show ?thesis using assms by (simp add: match_eq)
qed

lemma advance_moves: "pwf p \<Longrightarrow> check p t \<Longrightarrow> t \<noteq> TOK_EOF \<Longrightarrow> moves p (snd (advance p))"
  by (simp add: advance_in check_next_moves)

lemma advance_left:
  "pwf p \<Longrightarrow> check p t \<Longrightarrow> t \<noteq> TOK_EOF \<Longrightarrow> Suc (toks_left (snd (advance p))) = toks_left p"
  by (simp add: advance_in check_next_left)

lemma advance_moves': "pwf p \<Longrightarrow> \<not> check p TOK_EOF \<Longrightarrow> moves p (snd (advance p))"
  by (simp add: advance_in next_moves)

lemma advance_less:
  "pwf p \<Longrightarrow> check p t \<Longrightarrow> t \<noteq> TOK_EOF \<Longrightarrow> toks_left (snd (advance p)) < toks_left p"
  using advance_left [of p t] by simp

lemma advance_pwf: "pwf p \<Longrightarrow> check p t \<Longrightarrow> t \<noteq> TOK_EOF \<Longrightarrow> pwf (snd (advance p))"
  by (blast intro: moves_pwf advance_moves)

text \<open>Rules without knowledge of the step, to be tried last.\<close>

named_theorems preturns_late \<open>generic introduction rules for \<open>returns\<close>\<close>

lemma returns_let_snd [preturns_late]:
  assumes "moves p (snd m)"
    and "pwf (snd m) \<Longrightarrow> toks_left (snd m) \<le> toks_left p \<Longrightarrow> moves p (snd m) \<Longrightarrow>
           returns (f (snd m)) (snd m) Q"
  shows "returns (let q = snd m in f q) p Q"
  using assms returns_from moves_left moves_pwf by (simp add: Let_def) blast

lemma returns_let_cursor [preturns_late]:
  assumes "moves p e"
    and "\<And>q. pwf q \<Longrightarrow> toks_left q \<le> toks_left p \<Longrightarrow> moves p q \<Longrightarrow> returns (f q) q Q"
  shows "returns (let q = e in f q) p Q"
  using assms returns_from moves_left moves_pwf by (simp add: Let_def) blast

lemma returns_let [preturns_late]:
  "(\<And>x. x = e \<Longrightarrow> returns (f x) p Q) \<Longrightarrow> returns (let x = e in f x) p Q"
  by simp

lemma returns_case_step:
  assumes "returns (Some m) p R"
    and "\<And>r q. pwf q \<Longrightarrow> toks_left q \<le> toks_left p \<Longrightarrow> moves p q \<Longrightarrow> R r q \<Longrightarrow>
           returns (g r q) q Q"
  shows "returns (case m of (r, q) \<Rightarrow> g r q) p Q"
proof -
  obtain r q where m: "m = (r, q)" "moves p q" "R r q"
    using assms(1) by (auto simp: returns_def)
  then have "returns (g r q) q Q"
    using assms(2) moves_left moves_pwf by blast
  then show ?thesis using m returns_from [of p q] by simp
qed

lemma returns_case_prod [preturns_late]:
  assumes "moves p (snd m)"
    and "\<And>r q. pwf q \<Longrightarrow> toks_left q \<le> toks_left p \<Longrightarrow> moves p q \<Longrightarrow>
           returns (g r q) q Q"
  shows "returns (case m of (r, q) \<Rightarrow> g r q) p Q"
  by (rule returns_case_step [OF returns_pair [of p m "\<lambda>_ _. True"]]) (use assms in auto)

lemmas [preturns_late] = returns_pair

lemma let_prod: "(let (a, b) = m in g a b) = (case m of (a, b) \<Rightarrow> g a b)"
  by simp

text \<open>A step without fuel is a step: the constructor goes to the leaves.\<close>

lemma push_let: "Some (let x = e in f x) = (let x = e in Some (f x))"
  by simp

lemmas push_Some = let_prod push_let prod.case_distrib [of Some] option.case_distrib [of Some]
  bool.case_distrib [of Some] if_distrib [of Some]

lemma returns_moves: "returns (Some m) p R \<Longrightarrow> moves p (snd m)"
  by (auto simp: returns_def)

text \<open>The same two tests at a cursor further on.\<close>

lemma returns_expect_at [preturns]:
  "moves p q \<Longrightarrow>
   (pwf q \<Longrightarrow> toks_left q \<le> toks_left p \<Longrightarrow>
      returns (case expect q t of (None, p1) \<Rightarrow> f p1 | (Some a, p1) \<Rightarrow> g a p1) q Q) \<Longrightarrow>
   returns (case expect q t of (None, p1) \<Rightarrow> f p1 | (Some a, p1) \<Rightarrow> g a p1) p Q"
  by (rule returns_from)

lemma returns_match_at [preturns]:
  "moves p q \<Longrightarrow>
   (pwf q \<Longrightarrow> toks_left q \<le> toks_left p \<Longrightarrow>
      returns (case match q t of (True, p1) \<Rightarrow> g p1 | (False, p1) \<Rightarrow> f p1) q Q) \<Longrightarrow>
   returns (case match q t of (True, p1) \<Rightarrow> g p1 | (False, p1) \<Rightarrow> f p1) p Q"
  by (rule returns_from)

lemma match_pwf: "pwf p \<Longrightarrow> t \<noteq> TOK_EOF \<Longrightarrow> pwf (snd (match p t))"
  by (rule moves_pwf [OF match_moves])

lemma expect_pwf: "pwf p \<Longrightarrow> t \<noteq> TOK_EOF \<Longrightarrow> pwf (snd (expect p t))"
  by (rule moves_pwf [OF expect_moves])

text \<open>Facts that close the side conditions of the rules.\<close>

lemma expect_error: "pwf p \<Longrightarrow> t \<noteq> TOK_EOF \<Longrightarrow> p_error p \<noteq> [] \<Longrightarrow> p_error (snd (expect p t)) \<noteq> []"
  by (rule moves_error [OF expect_moves])

lemmas cursor_facts = advance_moves advance_moves' advance_pwf advance_less match_moves match_pwf
  expect_moves expect_pwf check_next_moves set_error_moves set_error_nonempty

section \<open>Steps without fuel inside a longer one\<close>

named_theorems pmoves \<open>rules for \<open>moves p (snd m)\<close>\<close>

lemma moves_if [pmoves]:
  "(b \<Longrightarrow> moves p x) \<Longrightarrow> (\<not> b \<Longrightarrow> moves p y) \<Longrightarrow> moves p (if b then x else y)"
  by simp

lemma moves_pair [pmoves]: "moves p q \<Longrightarrow> moves p (snd (r, q))"
  by simp

lemma moves_snd_if [pmoves]:
  "(b \<Longrightarrow> moves p (snd x)) \<Longrightarrow> (\<not> b \<Longrightarrow> moves p (snd y)) \<Longrightarrow>
   moves p (snd (if b then x else y))"
  by simp

lemma moves_snd_case_option [pmoves]:
  "(r = None \<Longrightarrow> moves p (snd x)) \<Longrightarrow> (\<And>a. r = Some a \<Longrightarrow> moves p (snd (y a))) \<Longrightarrow>
     moves p (snd (case r of None \<Rightarrow> x | Some a \<Rightarrow> y a))"
  by (cases r) auto

lemma moves_snd_case_bool [pmoves]:
  "(b \<Longrightarrow> moves p (snd x)) \<Longrightarrow> (\<not> b \<Longrightarrow> moves p (snd y)) \<Longrightarrow>
     moves p (snd (case b of True \<Rightarrow> x | False \<Rightarrow> y))"
  by (cases b) auto

lemma moves_snd_case_prod [pmoves]:
  assumes "moves p (snd m)"
    and "\<And>r q. pwf q \<Longrightarrow> moves p q \<Longrightarrow> moves q (snd (g r q))"
  shows "moves p (snd (case m of (r, q) \<Rightarrow> g r q))"
  using assms moves_pwf moves_trans by (cases m) auto

lemma moves_snd_let [pmoves]:
  "(\<And>x. x = e \<Longrightarrow> moves p (snd (f x))) \<Longrightarrow> moves p (snd (let x = e in f x))"
  by simp

abbreviation fails_with_error :: "'a option \<Rightarrow> parser \<Rightarrow> bool" where
  "fails_with_error r p' \<equiv> r = None \<longrightarrow> p_error p' \<noteq> []"

abbreviation any_result :: "'a \<Rightarrow> parser \<Rightarrow> bool" where
  "any_result r p' \<equiv> True"

end
