(* ===== verification/Cyp_Parser_Facts.thy ===== *)
theory Cyp_Parser_Facts
  imports Cyp_Parse_Logic
begin

text \<open>
  Every parsing function returns when its fuel exceeds a bound in the tokens left, and what it
  returns: a failure comes with an error message, a condition is well formed.
\<close>

section \<open>Patterns\<close>

lemma props_loop_returns:
  "pwf p \<Longrightarrow> toks_left p < n \<Longrightarrow> returns (props_loop n arr p) p fails_with_error"
proof (induction n arbitrary: arr p)
  case (Suc n)
  show ?case
    using Suc.prems
    by (simp only: props_loop.simps)
      (intro preturns preturns_late; (rule returns_call [OF _ Suc.IH])?; simp add: cursor_facts)
qed simp

lemma parse_props_returns:
  "pwf p \<Longrightarrow> toks_left p < n \<Longrightarrow> returns (parse_props n p) p fails_with_error"
  unfolding parse_props_def
  by (intro preturns preturns_late returns_call [OF _ props_loop_returns]; simp add: cursor_facts)

lemmas [preturns] = returns_call [OF _ parse_props_returns]

lemma label_loop_returns:
  "pwf p \<Longrightarrow> toks_left p < n \<Longrightarrow> returns (label_loop n lbuf ll p) p fails_with_error"
proof (induction n arbitrary: lbuf ll p)
  case (Suc n)
  show ?case
    using Suc.prems
    by (simp only: label_loop.simps)
      (intro preturns preturns_late; (rule returns_call [OF _ Suc.IH])?; simp add: cursor_facts)
qed simp

lemma parse_node_label_returns:
  "pwf p \<Longrightarrow> toks_left p < n \<Longrightarrow> returns (parse_node_label n p) p fails_with_error"
  unfolding parse_node_label_def
  by (intro preturns returns_call [OF _ label_loop_returns]; simp add: cursor_facts)

lemmas [preturns] = returns_call [OF _ parse_node_label_returns]

lemma parse_node_returns:
  "pwf p \<Longrightarrow> toks_left p < n \<Longrightarrow> returns (parse_node n p) p
     (\<lambda>r p'. fails_with_error r p' \<and> (r \<noteq> None \<longrightarrow> toks_left p' < toks_left p))"
  unfolding parse_node_def let_prod
  by (intro preturns preturns_late; simp add: cursor_facts)

lemmas [preturns] = returns_call [OF _ parse_node_returns]

lemma optional_number_returns: "pwf p \<Longrightarrow> returns (Some (optional_number p)) p any_result"
  unfolding optional_number_def push_Some
  by (intro preturns preturns_late; auto intro: cursor_facts)

lemmas [preturns] = returns_case_step [OF optional_number_returns]

lemma parse_hop_range_returns: "pwf p \<Longrightarrow> returns (Some (parse_hop_range p)) p any_result"
  unfolding parse_hop_range_def push_Some
  by (intro preturns preturns_late; auto intro: cursor_facts)

lemmas [preturns] = returns_case_step [OF parse_hop_range_returns]

lemma rel_types_loop_returns:
  "pwf p \<Longrightarrow> toks_left p < n \<Longrightarrow> returns (rel_types_loop n ts p) p fails_with_error"
proof (induction n arbitrary: ts p)
  case (Suc n)
  show ?case
    using Suc.prems
    by (simp only: rel_types_loop.simps)
      (intro preturns preturns_late; (rule returns_call [OF _ Suc.IH])?; simp add: cursor_facts)
qed simp

lemma parse_rel_types_returns:
  "pwf p \<Longrightarrow> toks_left p < n \<Longrightarrow> returns (parse_rel_types n p) p fails_with_error"
  unfolding parse_rel_types_def
  by (intro preturns returns_call [OF _ rel_types_loop_returns]; simp add: cursor_facts)

lemmas [preturns] = returns_call [OF _ parse_rel_types_returns]

lemma parse_rel_bracket_returns:
  "pwf p \<Longrightarrow> toks_left p < n \<Longrightarrow> returns (parse_rel_bracket n p out) p fails_with_error"
  unfolding parse_rel_bracket_def let_prod
  by (intro preturns preturns_late pmoves;
      auto intro: cursor_facts returns_moves [OF parse_hop_range_returns])

lemmas [preturns] = returns_call [OF _ parse_rel_bracket_returns]

text \<open>A pattern has one node more than relationships, and a relationship has one of the three
  directions.\<close>

definition rel_ok :: "rel_pattern \<Rightarrow> bool" where
  "rel_ok r \<longleftrightarrow> rp_direction r \<in> set [Some ''inbound'', Some ''outbound'', Some ''any'']"

definition pattern_ok :: "pattern \<Rightarrow> bool" where
  "pattern_ok pt \<longleftrightarrow> length (pt_nodes pt) = Suc (length (pt_rels pt)) \<and> list_all rel_ok (pt_rels pt)"

lemma parse_rel_returns:
  "pwf p \<Longrightarrow> toks_left p < n \<Longrightarrow>
   returns (parse_rel n p) p (\<lambda>r p'. fails_with_error r p' \<and>
     (\<forall>rel. r = Some rel \<longrightarrow> rel_ok rel))"
  unfolding parse_rel_def let_prod
  by (intro preturns preturns_late; auto intro: cursor_facts simp: rel_direction_def rel_ok_def)

lemmas [preturns] = returns_call [OF _ parse_rel_returns]

section \<open>Calls and conditions\<close>

lemma parse_func_arg_returns:
  "pwf p \<Longrightarrow> returns (Some (parse_func_arg p)) p
     (\<lambda>r p'. fails_with_error r p' \<and> (r \<noteq> None \<longrightarrow> toks_left p' < toks_left p))"
  unfolding parse_func_arg_def push_Some
  by (intro preturns preturns_late; auto intro: cursor_facts)

lemmas [preturns] = returns_case_step [OF parse_func_arg_returns]

lemma func_args_loop_returns:
  "pwf p \<Longrightarrow> toks_left p < n \<Longrightarrow> returns (func_args_loop n args p) p fails_with_error"
proof (induction n arbitrary: args p)
  case (Suc n)
  show ?case
    using Suc.prems
    by (simp only: func_args_loop.simps)
      (intro preturns preturns_late pmoves; (rule returns_call [OF _ Suc.IH])?;
        auto intro: cursor_facts)
qed simp

lemma parse_multiarg_func_item_returns:
  "pwf p \<Longrightarrow> check p TOK_IDENT \<Longrightarrow> toks_left p < n \<Longrightarrow>
   returns (parse_multiarg_func_item n p item) p
     (\<lambda>r p'. fails_with_error r p' \<and>
            (\<forall>i. r = Some i \<longrightarrow> ri_func i = multiarg_func_canonical (Some (tk_text (peek p)))))"
  unfolding parse_multiarg_func_item_def
  by (intro preturns preturns_late returns_call [OF _ func_args_loop_returns];
      auto intro: cursor_facts simp: Let_def split: option.split list.split)

lemmas [preturns] = returns_call [OF _ parse_multiarg_func_item_returns]

text \<open>
  A well-formed condition is not negated (negation is always an \<open>EXPR_NOT\<close> node), names what
  it tests, has an operator that the evaluator knows and the operand that the operator needs.
\<close>

definition lhs_ok :: "condition \<Rightarrow> bool" where
  "lhs_ok c \<longleftrightarrow> \<not> cn_negated c \<and> cn_coalesce_default c = None \<and>
              (cn_func c = None \<longrightarrow> cn_variable c \<noteq> None)"

definition comparison_ops :: "string list" where
  "comparison_ops = [''='', ''<>'', ''=~'', ''>='', ''<='', ''>'', ''<'', ''CONTAINS'',
                     ''STARTS WITH'', ''ENDS WITH'']"

definition cond_ok :: "condition \<Rightarrow> bool" where
  "cond_ok c \<longleftrightarrow> lhs_ok c \<and>
     (case cn_op c of
        None \<Rightarrow> False
      | Some op \<Rightarrow> if op \<in> set comparison_ops \<or> op = ''HAS_LABEL'' then cn_value c \<noteq> None
                   else op \<in> set [''IS NULL'', ''IS NOT NULL'', ''IN'', ''EXISTS''])"

definition expr_ok :: "expr \<Rightarrow> bool" where
  "expr_ok e \<longleftrightarrow> list_all cond_ok (expr_conds e)"

abbreviation expr_post :: "expr option \<Rightarrow> parser \<Rightarrow> bool" where
  "expr_post r p' \<equiv> fails_with_error r p' \<and> (\<forall>e. r = Some e \<longrightarrow> expr_ok e)"

lemma expr_ok_simps [simp]:
  "expr_ok (EXPR_CONDITION c) = cond_ok c"
  "expr_ok (EXPR_AND l r) = (expr_ok l \<and> expr_ok r)"
  "expr_ok (EXPR_OR l r) = (expr_ok l \<and> expr_ok r)"
  "expr_ok (EXPR_XOR l r) = (expr_ok l \<and> expr_ok r)"
  "expr_ok (EXPR_NOT e) = expr_ok e"
  by (simp_all add: expr_ok_def)

lemma in_list_loop_returns:
  "pwf p \<Longrightarrow> toks_left p < n \<Longrightarrow> returns (in_list_loop n vals p) p any_result"
proof (induction n arbitrary: vals p)
  case (Suc n)
  show ?case
    using Suc.prems
    by (simp only: in_list_loop.simps)
      (intro preturns preturns_late pmoves; (rule returns_call [OF _ Suc.IH])?;
        auto intro: cursor_facts dest: advance_less)
qed simp

lemma parse_in_list_returns:
  "pwf p \<Longrightarrow> check p TOK_IN \<Longrightarrow> toks_left p < n \<Longrightarrow> lhs_ok c \<Longrightarrow> returns (parse_in_list n p c) p expr_post"
  unfolding parse_in_list_def
  by (intro preturns preturns_late returns_call [OF _ in_list_loop_returns];
      auto intro: cursor_facts simp: cond_ok_def lhs_ok_def comparison_ops_def)

lemmas [preturns] = returns_call [OF _ parse_in_list_returns]

lemma parse_comparison_op_returns:
  "pwf p \<Longrightarrow> returns (Some (parse_comparison_op p)) p
     (\<lambda>r p'. r = None \<and> p' = p \<or> (\<exists>op. r = Some op \<and> op \<in> set comparison_ops))"
  unfolding parse_comparison_op_def push_Some
  by (intro preturns preturns_late;
      auto intro: cursor_facts moves_trans [OF advance_moves expect_moves] simp: comparison_ops_def)

lemmas [preturns] = returns_case_step [OF parse_comparison_op_returns]

lemma parse_exists_predicate_returns:
  "pwf p \<Longrightarrow> check p TOK_EXISTS \<Longrightarrow> toks_left p < n \<Longrightarrow>
   returns (parse_exists_predicate n p False) p expr_post"
  unfolding parse_exists_predicate_def
  by (intro preturns preturns_late;
      auto intro: cursor_facts simp: cond_ok_def lhs_ok_def comparison_ops_def exists_pattern_error_def
        empty_condition_def)

lemmas [preturns] = returns_call [OF _ parse_exists_predicate_returns]

lemma parse_condition_op_returns:
  "pwf p \<Longrightarrow> toks_left p < n \<Longrightarrow> lhs_ok c \<Longrightarrow> returns (parse_condition_op n p c) p expr_post"
  unfolding parse_condition_op_def
  by (intro preturns preturns_late;
      auto intro: cursor_facts simp: cond_ok_def lhs_ok_def comparison_ops_def)

lemmas [preturns] = returns_call [OF _ parse_condition_op_returns]

lemma at_call_check: "at_call p \<Longrightarrow> check p TOK_IDENT"
  by (simp add: at_call_def)

lemma is_multiarg_check: "is_multiarg_func_call p \<Longrightarrow> check p TOK_IDENT"
  by (simp add: is_multiarg_func_call_def at_call_def)

definition lhs_post :: "lhs_result \<Rightarrow> parser \<Rightarrow> bool" where
  "lhs_post r p' \<longleftrightarrow>
     (case r of LHS_ERROR \<Rightarrow> p_error p' \<noteq> [] | LHS_OPEN c \<Rightarrow> lhs_ok c | LHS_COMPLETE c \<Rightarrow> cond_ok c)"

lemma parse_condition_lhs_returns:
  "pwf p \<Longrightarrow> toks_left p < n \<Longrightarrow>
   returns (parse_condition_lhs n p (empty_condition\<lparr>cn_negated := False\<rparr>)) p lhs_post"
  unfolding parse_condition_lhs_def
  by (intro preturns preturns_late;
      auto intro: cursor_facts is_multiarg_check at_call_check
        simp: lhs_post_def cond_ok_def lhs_ok_def comparison_ops_def unsupported_where_function_def
          empty_condition_def is_multiarg_func_call_def)

lemma returns_case_lhs [preturns]:
  "(r = LHS_ERROR \<Longrightarrow> returns x p Q) \<Longrightarrow> (\<And>c. r = LHS_OPEN c \<Longrightarrow> returns (y c) p Q) \<Longrightarrow>
   (\<And>c. r = LHS_COMPLETE c \<Longrightarrow> returns (z c) p Q) \<Longrightarrow>
   returns (case r of LHS_ERROR \<Rightarrow> x | LHS_OPEN c \<Rightarrow> y c | LHS_COMPLETE c \<Rightarrow> z c) p Q"
  by (cases r) auto

lemma parse_condition_expr_returns:
  assumes "pwf p" "\<not> check p TOK_NOT" "toks_left p < n"
  shows "returns (parse_condition_expr n p) p expr_post"
proof -
  have "parse_condition_expr n p =
     (if check p TOK_EXISTS then parse_exists_predicate n p False
      else do { (lhs, p2) \<leftarrow> parse_condition_lhs n p (empty_condition\<lparr>cn_negated := False\<rparr>);
                case lhs of
                  LHS_ERROR \<Rightarrow> Some (None, p2)
                | LHS_OPEN c \<Rightarrow> parse_condition_op n p2 c
                | LHS_COMPLETE c \<Rightarrow> Some (Some (EXPR_CONDITION c), p2) })"
    using assms(1,2) by (simp add: parse_condition_expr_def match_eq)
  also have "returns \<dots> p expr_post"
    using assms(1,3)
    by (intro preturns returns_call [OF _ parse_condition_lhs_returns] preturns_late;
        auto intro: cursor_facts simp: lhs_post_def)
  finally show ?thesis .
qed

lemmas [preturns] = returns_call [OF _ parse_condition_expr_returns]

section \<open>The precedence ladder\<close>

text \<open>The fuel that each rung needs for the tokens left.\<close>

definition ladder :: "nat \<Rightarrow> bool" where
  "ladder n \<longleftrightarrow>
     (\<forall>p. pwf p \<longrightarrow> 6 * toks_left p + 6 \<le> n \<longrightarrow> returns (parse_or_expr n p) p expr_post) \<and>
     (\<forall>p l. pwf p \<longrightarrow> 6 * toks_left p + 1 \<le> n \<longrightarrow> expr_ok l \<longrightarrow> returns (or_loop n l p) p expr_post) \<and>
     (\<forall>p. pwf p \<longrightarrow> 6 * toks_left p + 5 \<le> n \<longrightarrow> returns (parse_xor_expr n p) p expr_post) \<and>
     (\<forall>p l. pwf p \<longrightarrow> 6 * toks_left p + 1 \<le> n \<longrightarrow> expr_ok l \<longrightarrow> returns (xor_loop n l p) p expr_post) \<and>
     (\<forall>p. pwf p \<longrightarrow> 6 * toks_left p + 4 \<le> n \<longrightarrow> returns (parse_and_expr n p) p expr_post) \<and>
     (\<forall>p l. pwf p \<longrightarrow> 6 * toks_left p + 1 \<le> n \<longrightarrow> expr_ok l \<longrightarrow> returns (and_loop n l p) p expr_post) \<and>
     (\<forall>p. pwf p \<longrightarrow> 6 * toks_left p + 3 \<le> n \<longrightarrow> returns (parse_not_expr n p) p expr_post) \<and>
     (\<forall>p. pwf p \<longrightarrow> \<not> check p TOK_NOT \<longrightarrow> 6 * toks_left p + 2 \<le> n \<longrightarrow>
        returns (parse_atom_expr n p) p expr_post)"

lemma ladder_0: "ladder 0"
  by (simp add: ladder_def)

lemma ladderD:
  assumes "ladder n"
  shows "pwf p \<Longrightarrow> 6 * toks_left p + 6 \<le> n \<Longrightarrow> returns (parse_or_expr n p) p expr_post"
    "pwf p \<Longrightarrow> 6 * toks_left p + 1 \<le> n \<Longrightarrow> expr_ok l \<Longrightarrow> returns (or_loop n l p) p expr_post"
    "pwf p \<Longrightarrow> 6 * toks_left p + 5 \<le> n \<Longrightarrow> returns (parse_xor_expr n p) p expr_post"
    "pwf p \<Longrightarrow> 6 * toks_left p + 1 \<le> n \<Longrightarrow> expr_ok l \<Longrightarrow> returns (xor_loop n l p) p expr_post"
    "pwf p \<Longrightarrow> 6 * toks_left p + 4 \<le> n \<Longrightarrow> returns (parse_and_expr n p) p expr_post"
    "pwf p \<Longrightarrow> 6 * toks_left p + 1 \<le> n \<Longrightarrow> expr_ok l \<Longrightarrow> returns (and_loop n l p) p expr_post"
    "pwf p \<Longrightarrow> 6 * toks_left p + 3 \<le> n \<Longrightarrow> returns (parse_not_expr n p) p expr_post"
    "pwf p \<Longrightarrow> \<not> check p TOK_NOT \<Longrightarrow> 6 * toks_left p + 2 \<le> n \<Longrightarrow>
       returns (parse_atom_expr n p) p expr_post"
  using assms by (simp_all add: ladder_def)

lemma ladder_Suc:
  assumes "ladder n"
  shows "ladder (Suc n)"
proof -
  note r = ladderD [OF assms]
  show ?thesis
    unfolding ladder_def parse_or_expr.simps or_loop.simps parse_xor_expr.simps xor_loop.simps
      parse_and_expr.simps and_loop.simps parse_not_expr.simps parse_atom_expr.simps
    by (intro conjI allI impI;
        intro preturns returns_call [OF _ r(1)] returns_call [OF _ r(2)] returns_call [OF _ r(3)]
          returns_call [OF _ r(4)] returns_call [OF _ r(5)] returns_call [OF _ r(6)]
          returns_call [OF _ r(7)] returns_call [OF _ r(8)];
        auto intro: cursor_facts simp: expect_error dest: advance_less)
qed

lemma ladder: "ladder n"
  by (induction n) (simp_all add: ladder_0 ladder_Suc)

lemmas parse_or_expr_returns = ladderD(1) [OF ladder]

lemmas [preturns] = returns_call [OF _ parse_or_expr_returns]

definition where_ok :: "where_clause \<Rightarrow> bool" where
  "where_ok w \<longleftrightarrow> (case wh_root w of None \<Rightarrow> False | Some e \<Rightarrow> expr_ok e)"

lemma parse_where_returns:
  "pwf p \<Longrightarrow> 6 * toks_left p + 6 \<le> n \<Longrightarrow>
   returns (parse_where n p) p (\<lambda>r p'. fails_with_error r p' \<and> (\<forall>w. r = Some (Some w) \<longrightarrow> where_ok w))"
  unfolding parse_where_def
  by (intro preturns; auto intro: cursor_facts simp: where_ok_def empty_where_def)

lemmas [preturns] = returns_call [OF _ parse_where_returns]

section \<open>Values and CASE\<close>

lemma parse_value_literal_returns: "pwf p \<Longrightarrow> returns (Some (parse_value_literal p)) p any_result"
  unfolding parse_value_literal_def push_Some
  by (intro preturns preturns_late; auto intro: cursor_facts)

lemmas [preturns] = returns_case_step [OF parse_value_literal_returns]

lemma case_loop_returns:
  "pwf p \<Longrightarrow> 6 * toks_left p + 1 \<le> n \<Longrightarrow> returns (case_loop n bs p) p any_result"
proof (induction n arbitrary: bs p)
  case (Suc n)
  show ?case
    using Suc.prems unfolding case_loop.simps let_prod
    by (intro preturns returns_call [OF _ Suc.IH] preturns_late;
        auto intro: cursor_facts dest: advance_less)
qed simp

lemma parse_case_expr_returns:
  "pwf p \<Longrightarrow> 6 * toks_left p + 1 \<le> n \<Longrightarrow> returns (parse_case_expr n p) p any_result"
  unfolding parse_case_expr_def let_prod
  by (intro preturns returns_call [OF _ case_loop_returns] preturns_late pmoves;
      auto intro: cursor_facts returns_moves [OF parse_value_literal_returns])

lemmas [preturns] = returns_call [OF _ parse_case_expr_returns]

section \<open>Items\<close>

lemma parse_var_dot_prop_returns: "pwf p \<Longrightarrow> returns (Some (parse_var_dot_prop p item)) p fails_with_error"
  unfolding parse_var_dot_prop_def push_Some
  by (intro preturns preturns_late; auto intro: cursor_facts)

lemmas [preturns] = returns_case_step [OF parse_var_dot_prop_returns]
  returns_call [OF _ parse_var_dot_prop_returns]

lemma parse_named_func_item_returns:
  "pwf p \<Longrightarrow> check p TOK_IDENT \<Longrightarrow> returns (Some (parse_named_func_item p item)) p fails_with_error"
  unfolding parse_named_func_item_def push_Some
  by (intro preturns preturns_late; auto intro: cursor_facts)

lemma parse_string_func_item_returns:
  "pwf p \<Longrightarrow> \<not> check p TOK_EOF \<Longrightarrow> returns (Some (parse_string_func_item p item)) p fails_with_error"
  unfolding parse_string_func_item_def push_Some
  by (intro preturns preturns_late; auto intro: cursor_facts)

lemma aggregate_argument_returns:
  "pwf p \<Longrightarrow> returns (Some (case match p TOK_STAR of
       (True, p4) \<Rightarrow> (Some i, p4) | (False, p4) \<Rightarrow> parse_var_dot_prop p4 j)) p fails_with_error"
  unfolding push_Some
  by (intro preturns preturns_late; auto intro: cursor_facts)

lemma parse_aggregate_item_returns:
  "pwf p \<Longrightarrow> \<not> check p TOK_EOF \<Longrightarrow> returns (Some (parse_aggregate_item p item)) p fails_with_error"
  unfolding parse_aggregate_item_def push_Some
  by (intro preturns returns_case_step [OF aggregate_argument_returns] preturns_late;
      auto intro: cursor_facts)

lemmas [preturns] = returns_call [OF _ parse_named_func_item_returns]
  returns_call [OF _ parse_string_func_item_returns] returns_call [OF _ parse_aggregate_item_returns]

lemma is_named_check: "is_named_func_call p \<Longrightarrow> check p TOK_IDENT"
  by (simp add: is_named_func_call_def at_call_def)

lemma func_tok_check:
  "is_aggregate_tok (tk_type (peek p)) \<Longrightarrow> \<not> check p TOK_EOF"
  "is_string_func_tok (tk_type (peek p)) \<Longrightarrow> \<not> check p TOK_EOF"
  by (auto simp: check_def is_aggregate_tok_def is_string_func_tok_def)

lemma parse_item_body_returns:
  "pwf p \<Longrightarrow> 6 * toks_left p + 1 \<le> n \<Longrightarrow> returns (parse_item_body n p) p fails_with_error"
  unfolding parse_item_body_def
  by (intro preturns preturns_late;
      auto intro: cursor_facts is_named_check is_multiarg_check dest: func_tok_check)

lemmas [preturns] = returns_call [OF _ parse_item_body_returns]

lemma parse_item_alias_returns: "pwf p \<Longrightarrow> returns (Some (parse_item_alias p item)) p any_result"
  unfolding parse_item_alias_def push_Some
  by (intro preturns preturns_late; auto intro: cursor_facts)

lemma parse_return_item_returns:
  "pwf p \<Longrightarrow> 6 * toks_left p + 1 \<le> n \<Longrightarrow> returns (parse_return_item n p) p fails_with_error"
  unfolding parse_return_item_def
  by (intro preturns preturns_late;
      auto intro: cursor_facts returns_moves [OF parse_item_alias_returns]
        simp: unsupported_return_function_def unsupported_indexing_def)

lemmas [preturns] = returns_call [OF _ parse_return_item_returns]

lemma items_loop_returns:
  "pwf p \<Longrightarrow> (if items = [] then 6 * toks_left p + 3 else 6 * toks_left p + 2) \<le> n \<Longrightarrow>
   returns (items_loop n items p) p
     (\<lambda>r p'. fails_with_error r p' \<and> (\<forall>is. r = Some is \<longrightarrow> is \<noteq> []))"
proof (induction n arbitrary: items p)
  case (Suc n)
  show ?case
  proof (cases "items = []")
    case True
    then show ?thesis
      using Suc.prems unfolding items_loop.simps
      by simp (intro preturns returns_call [OF _ Suc.IH] preturns_late; auto intro: cursor_facts)
  next
    case False
    then show ?thesis
      using Suc.prems unfolding items_loop.simps
      by simp (intro preturns returns_call [OF _ Suc.IH] preturns_late; auto intro: cursor_facts)
  qed
qed (simp split: if_splits)

section \<open>ORDER BY, SKIP, LIMIT\<close>

lemma parse_order_by_agg_returns:
  "pwf p \<Longrightarrow> \<not> check p TOK_EOF \<Longrightarrow> returns (Some (parse_order_by_agg p)) p any_result"
  unfolding parse_order_by_agg_def push_Some
  by (intro preturns preturns_late pmoves; auto intro: cursor_facts)

lemma parse_order_by_var_returns: "pwf p \<Longrightarrow> returns (Some (parse_order_by_var p)) p any_result"
  unfolding parse_order_by_var_def push_Some
  by (intro preturns preturns_late; auto intro: cursor_facts)

lemma parse_order_by_expr_returns: "pwf p \<Longrightarrow> returns (Some (parse_order_by_expr p)) p any_result"
  unfolding parse_order_by_expr_def push_Some
  by (intro preturns returns_call [OF _ parse_order_by_agg_returns]
        returns_call [OF _ parse_order_by_var_returns] preturns_late;
      auto intro: cursor_facts dest: func_tok_check)

text \<open>What the tail of a clause leaves alone.\<close>

definition same_items :: "return_clause \<Rightarrow> return_clause \<Rightarrow> parser \<Rightarrow> bool" where
  "same_items r r' p' \<longleftrightarrow>
     rc_items r' = rc_items r \<and> rc_star r' = rc_star r \<and> rc_distinct r' = rc_distinct r"

lemma parse_order_by_clause_returns:
  "pwf p \<Longrightarrow> returns (Some (parse_order_by_clause p r)) p (same_items r)"
  unfolding parse_order_by_clause_def push_Some
  by (intro preturns returns_case_step [OF parse_order_by_expr_returns] preturns_late;
      auto intro: cursor_facts simp: same_items_def)

lemma parse_skip_returns: "pwf p \<Longrightarrow> returns (Some (parse_skip p r)) p (same_items r)"
  unfolding parse_skip_def push_Some
  by (intro preturns preturns_late; auto intro: cursor_facts simp: same_items_def)

lemma parse_limit_returns: "pwf p \<Longrightarrow> returns (Some (parse_limit p r)) p (same_items r)"
  unfolding parse_limit_def push_Some
  by (intro preturns preturns_late; auto intro: cursor_facts simp: same_items_def)

lemma parse_order_returns:
  "pwf p \<Longrightarrow> returns (Some (case match p TOK_ORDER of
       (True, p1) \<Rightarrow> parse_order_by_clause p1 r | (False, p1) \<Rightarrow> (r, p1))) p (same_items r)"
  unfolding push_Some
  by (intro preturns returns_call [OF _ parse_order_by_clause_returns] preturns_late;
      auto intro: cursor_facts simp: same_items_def)

lemma parse_return_tail_returns: "pwf p \<Longrightarrow> returns (Some (parse_return_tail p r)) p (same_items r)"
  unfolding parse_return_tail_def let_prod
  by (subst prod.case_distrib [of Some], rule returns_case_step [OF parse_order_returns], assumption,
      subst prod.case_distrib [of Some], rule returns_case_step [OF parse_skip_returns], assumption)
    (rule returns_call [OF _ parse_limit_returns]; auto simp: same_items_def)

lemma parse_return_tail_same:
  assumes "pwf p"
  shows "rc_items (fst (parse_return_tail p r)) = rc_items r"
    "rc_star (fst (parse_return_tail p r)) = rc_star r"
  using parse_return_tail_returns [OF assms, of r] by (auto simp: returns_def same_items_def)

definition return_ok :: "return_clause \<Rightarrow> bool" where
  "return_ok r \<longleftrightarrow> length (rc_items r) \<le> 32 \<and> (rc_star r \<longleftrightarrow> rc_items r = [])"

lemma parse_return_or_with_returns:
  "pwf p \<Longrightarrow> 6 * toks_left p + 3 \<le> n \<Longrightarrow>
   returns (parse_return_or_with n p w) p (\<lambda>r p'. \<forall>c. r = Some (Some c) \<longrightarrow> return_ok c)"
  unfolding parse_return_or_with_def let_prod
  by (intro preturns preturns_late pmoves returns_call [OF _ items_loop_returns];
      auto intro: cursor_facts returns_moves [OF parse_return_tail_returns]
        simp: return_ok_def parse_return_tail_same empty_return_clause_def)

lemmas [preturns] = returns_call [OF _ parse_return_or_with_returns]

section \<open>MATCH\<close>

abbreviation pattern_post :: "pattern option \<Rightarrow> parser \<Rightarrow> bool" where
  "pattern_post r p' \<equiv> fails_with_error r p' \<and> (\<forall>pt. r = Some pt \<longrightarrow> pattern_ok pt)"

lemma match_rels_loop_returns:
  "pwf p \<Longrightarrow> toks_left p + 2 \<le> n \<Longrightarrow> pattern_ok pat \<Longrightarrow>
   returns (match_rels_loop n pat p) p pattern_post"
proof (induction n arbitrary: pat p)
  case (Suc n)
  show ?case
    using Suc.prems unfolding match_rels_loop.simps
    by (intro preturns returns_call [OF _ Suc.IH] preturns_late;
        auto intro: cursor_facts simp: pattern_ok_def)
qed simp

lemma parse_match_pattern_returns:
  "pwf p \<Longrightarrow> toks_left p + 2 \<le> n \<Longrightarrow> returns (parse_match_pattern n p) p pattern_post"
  unfolding parse_match_pattern_def
  by (intro preturns returns_call [OF _ match_rels_loop_returns] preturns_late;
      auto intro: cursor_facts simp: pattern_ok_def)

lemmas [preturns] = returns_call [OF _ parse_match_pattern_returns]

definition chain_ok :: "(pattern \<times> bool) list \<Rightarrow> bool" where
  "chain_ok ps \<longleftrightarrow> ps \<noteq> [] \<and> list_all (pattern_ok \<circ> fst) ps"

abbreviation chain_post :: "(pattern \<times> bool) list option \<Rightarrow> parser \<Rightarrow> bool" where
  "chain_post r p' \<equiv> fails_with_error r p' \<and> (\<forall>ps. r = Some ps \<longrightarrow> chain_ok ps)"

lemma parse_match_chain_returns:
  "pwf p \<Longrightarrow> toks_left p + 2 \<le> n \<Longrightarrow> chain_ok pats \<Longrightarrow>
   returns (parse_match_chain n pats p) p chain_post"
proof (induction n arbitrary: pats p)
  case (Suc n)
  show ?case
    using Suc.prems unfolding parse_match_chain.simps
    by (intro preturns returns_call [OF _ Suc.IH] preturns_late pmoves;
        auto intro: cursor_facts simp: chain_ok_def)
qed simp

lemmas [preturns] = returns_call [OF _ parse_match_chain_returns]

lemma parse_with_part_returns:
  "pwf p \<Longrightarrow> 6 * toks_left p + 6 \<le> n \<Longrightarrow>
   returns (parse_with_part n p) p
     (\<lambda>r p'. \<forall>c w. r = Some (c, w) \<longrightarrow> (\<forall>c'. c = Some c' \<longrightarrow> return_ok c') \<and> (\<forall>w'. w = Some w' \<longrightarrow> where_ok w'))"
  unfolding parse_with_part_def
  by (intro preturns preturns_late; auto intro: cursor_facts)

lemma parse_return_returns:
  "pwf p \<Longrightarrow> 6 * toks_left p + 3 \<le> n \<Longrightarrow>
   returns (parse_return n p) p (\<lambda>r p'. \<forall>c. r = Some (Some c) \<longrightarrow> return_ok c)"
  unfolding parse_return_def by (rule parse_return_or_with_returns)

lemmas [preturns] = returns_call [OF _ parse_with_part_returns]
  returns_call [OF _ parse_return_returns]

section \<open>UNWIND\<close>

lemma unwind_loop_returns:
  "pwf p \<Longrightarrow> toks_left p < n \<Longrightarrow> returns (unwind_loop n buf p) p any_result"
proof (induction n arbitrary: buf p)
  case (Suc n)
  have m: "returns (unwind_loop n b (snd (match (snd (advance p)) TOK_COMMA))) p any_result"
    if c: "\<not> check p TOK_EOF" for b
  proof -
    let ?q = "snd (advance p)"
    have p: "moves p ?q" "pwf ?q" "toks_left ?q < toks_left p"
      using c Suc.prems(1) next_left [of p] advance_moves' [of p] moves_pwf [of p ?q]
      by (auto simp: advance_in)
    have q: "moves ?q (snd (match ?q TOK_COMMA))" using p(2) by (rule match_moves) simp
    show ?thesis
      by (rule returns_call [OF moves_trans [OF p(1) q] Suc.IH])
        (use p(3) moves_left [OF q] Suc.prems in auto)
  qed
  show ?case
    using Suc.prems unfolding unwind_loop.simps by (auto simp: Let_def intro!: m returns_ret)
qed simp

text \<open>
  \<open>parse_unwind_clause\<close> may also record a write past its buffer; \<open>moves\<close> excludes
  that, so its outcome is stated with the flag put aside.
\<close>

definition yields :: "'a presult \<Rightarrow> ('a \<Rightarrow> parser \<Rightarrow> bool) \<Rightarrow> bool" where
  "yields m Q \<longleftrightarrow> (\<exists>r p'. m = Some (r, p') \<and> Q r p')"

abbreviation moves_ov :: "parser \<Rightarrow> parser \<Rightarrow> bool" where
  "moves_ov p q \<equiv> moves (p\<lparr>p_overflow := p_overflow q\<rparr>) q"

lemma moves_ov_trans: "moves_ov p q \<Longrightarrow> moves q r \<Longrightarrow> moves_ov p r"
  by (auto simp: moves_def)

lemma moves_imp_ov: "moves p q \<Longrightarrow> moves_ov p q"
  by (auto simp: moves_def)

lemma parse_unwind_source_yields:
  assumes "pwf p" "toks_left p < n"
  shows "yields (parse_unwind_source n p) (\<lambda>_ p'. moves_ov p p')"
proof (cases "check p TOK_LBRACKET")
  case True
  then have "moves p (snd (advance p))" "pwf (snd (advance p))" "toks_left (snd (advance p)) < n"
    using assms advance_moves [of p TOK_LBRACKET] advance_pwf [of p TOK_LBRACKET]
      advance_less [of p TOK_LBRACKET] by auto
  then obtain b q where "unwind_loop n ''['' (snd (advance p)) = Some (b, q)" "moves p q"
    using unwind_loop_returns [of "snd (advance p)" n "''[''"] moves_trans by (auto simp: returns_def)
  moreover have "moves p (snd (expect q TOK_RBRACKET))"
    using \<open>moves p q\<close> moves_trans [OF _ expect_moves [of q TOK_RBRACKET]] moves_pwf by auto
  ultimately show ?thesis
    using True by (auto simp: parse_unwind_source_def yields_def moves_def Let_def pwf_def)
next
  case False
  then show ?thesis
    using assms moves_imp_ov [OF advance_moves [of p TOK_IDENT]]
    by (auto simp: parse_unwind_source_def yields_def moves_def)
qed

lemma parse_unwind_clause_yields:
  assumes "pwf p" "check p TOK_UNWIND" "toks_left p < n"
  shows "yields (parse_unwind_clause n p) (\<lambda>_ p'. moves_ov p p')"
proof -
  have a: "moves p (snd (advance p))" "pwf (snd (advance p))" "toks_left (snd (advance p)) < n"
    using assms advance_moves [of p TOK_UNWIND] advance_pwf [of p TOK_UNWIND]
      advance_less [of p TOK_UNWIND] by auto
  then obtain e q where q: "parse_unwind_source n (snd (advance p)) = Some (e, q)" "moves_ov (snd (advance p)) q"
    using parse_unwind_source_yields by (fastforce simp: yields_def)
  have "pwf q" by (rule moves_pwf [OF q(2)])
  let ?q2 = "snd (expect q TOK_AS)"
  have q2: "moves q ?q2" "pwf ?q2" using \<open>pwf q\<close> by (auto intro: cursor_facts)
  have "moves q (snd (expect ?q2 TOK_IDENT))"
    using q2 moves_trans [OF q2(1)] by (auto intro: cursor_facts)
  moreover have "moves_ov p q" using a(1) q(2) by (auto simp: moves_def)
  ultimately have "moves_ov p (snd (expect ?q2 TOK_IDENT))" by (rule moves_ov_trans [rotated])
  then show ?thesis
    using q(1)
    by (auto simp: parse_unwind_clause_def yields_def Let_def split: prod.split option.split)
qed

section \<open>Queries\<close>

text \<open>What a parsed query promises the executor.\<close>

fun query_ok :: "query \<Rightarrow> bool" where
  "query_ok (Query pats opts w wc pww r un all ue ua) \<longleftrightarrow>
     pats \<noteq> [] \<and> length opts = length pats \<and> list_all pattern_ok pats \<and>
     (case w of None \<Rightarrow> True | Some v \<Rightarrow> where_ok v) \<and>
     (case wc of None \<Rightarrow> True | Some c \<Rightarrow> return_ok c) \<and>
     (case pww of None \<Rightarrow> True | Some v \<Rightarrow> where_ok v) \<and>
     (case r of None \<Rightarrow> True | Some c \<Rightarrow> return_ok c) \<and>
     (case un of None \<Rightarrow> True | Some q \<Rightarrow> query_ok q)"

definition post_where_ok :: "post_where \<Rightarrow> bool" where
  "post_where_ok pw \<longleftrightarrow> chain_ok (pw_patterns pw) \<and>
     (\<forall>c. pw_with pw = Some c \<longrightarrow> return_ok c) \<and> (\<forall>w. pw_where pw = Some w \<longrightarrow> where_ok w) \<and>
     (\<forall>c. pw_ret pw = Some c \<longrightarrow> return_ok c) \<and> (\<forall>q. pw_union pw = Some q \<longrightarrow> query_ok q)"

text \<open>The outcome of \<open>pmm_parse\<close>: a well-formed query, or no query and a message.\<close>

definition parse_outcome :: "int \<times> parse_result \<Rightarrow> bool" where
  "parse_outcome o' \<longleftrightarrow>
     (case o' of (rc, pr) \<Rightarrow>
        if rc = 0 then (\<exists>q. pr_query pr = Some q \<and> query_ok q) \<and> pr_error pr = None
        else rc = -1 \<and> pr_query pr = None \<and> (\<exists>e. pr_error pr = Some e \<and> e \<noteq> []))"

lemma parse_outcome_fail: "msg \<noteq> [] \<Longrightarrow> parse_outcome (parse_fail msg ov)"
  by (simp add: parse_outcome_def parse_fail_def)

lemma parse_outcome_error_or: "dflt \<noteq> [] \<Longrightarrow> parse_outcome (error_or p dflt)"
  by (simp add: error_or_def parse_outcome_fail)

lemma parse_outcome_ok: "query_ok q \<Longrightarrow> parse_outcome (parse_ok q ov)"
  by (simp add: parse_outcome_def parse_ok_def)

lemma unsupported_nonempty: "unsupported_clause_error t = Some e \<Longrightarrow> e \<noteq> []"
  by (auto simp: unsupported_clause_error_def)

lemma query_ok_of_parts:
  assumes "post_where_ok pw" "\<forall>v. w = Some v \<longrightarrow> where_ok v"
  shows "query_ok (Query (map fst (pw_patterns pw)) (map snd (pw_patterns pw)) w (pw_with pw)
           (pw_where pw) (pw_ret pw) (pw_union pw) (pw_union_all pw) ue ua)"
  using assms by (auto simp: post_where_ok_def chain_ok_def list_all_iff split: option.split)

text \<open>Composition of a step with the rest of the parse, for the two functions at the top.\<close>

lemma yields_bind:
  "returns m p R \<Longrightarrow> (\<And>r q. moves p q \<Longrightarrow> pwf q \<Longrightarrow> toks_left q \<le> toks_left p \<Longrightarrow> R r q \<Longrightarrow> yields (f r q) Q) \<Longrightarrow>
   yields (m \<bind> (\<lambda>(r, q). f r q)) Q"
  unfolding returns_def yields_def using moves_pwf moves_left by fastforce

lemma yields_ret: "Q r q \<Longrightarrow> yields (Some (r, q)) Q"
  by (simp add: yields_def)

text \<open>A write past the UNWIND buffer needs an UNWIND.\<close>

definition has_unwind :: "token list \<Rightarrow> bool" where
  "has_unwind ts \<longleftrightarrow> list_ex (\<lambda>t. tk_type t = TOK_UNWIND) ts"

definition ov_ok :: "parser \<Rightarrow> parser \<Rightarrow> bool" where
  "ov_ok p p' \<longleftrightarrow> (p_overflow p' \<longrightarrow> p_overflow p \<or> has_unwind (p_tokens p))"

lemma moves_ov_ok: "moves p q \<Longrightarrow> ov_ok p q"
  by (simp add: moves_def ov_ok_def)

lemma moves_ov_ok_trans: "moves p q \<Longrightarrow> ov_ok q r \<Longrightarrow> ov_ok p r"
  by (auto simp: moves_def ov_ok_def)

lemma has_unwind_drop: "has_unwind (drop k ts) \<Longrightarrow> has_unwind ts"
  by (auto simp: has_unwind_def list_ex_iff dest: in_set_dropD)

abbreviation pw_post :: "parser \<Rightarrow> post_where option \<Rightarrow> parser \<Rightarrow> bool" where
  "pw_post p r p' \<equiv> (\<forall>pw. r = Some pw \<longrightarrow> post_where_ok pw) \<and> ov_ok p p'"

definition parse_total_post :: "token list \<Rightarrow> int \<times> parse_result \<Rightarrow> bool" where
  "parse_total_post ts res \<longleftrightarrow> parse_outcome res \<and> (pr_overflow (snd res) \<longrightarrow> has_unwind ts)"

definition total_parse :: "nat \<Rightarrow> bool" where
  "total_parse n \<longleftrightarrow>
     (\<forall>ts. eof_ended ts \<longrightarrow> 8 * (length ts - 1) + 10 \<le> n \<longrightarrow>
        (\<exists>res. pmm_parse n ts = Some res \<and> parse_total_post ts res)) \<and>
     (\<forall>pats p. pwf p \<longrightarrow> 8 * toks_left p + 9 \<le> n \<longrightarrow> chain_ok pats \<longrightarrow>
        yields (parse_post_WHERE n pats p) (pw_post p))"

lemma union_total:
  assumes tp: "total_parse n" and p: "pwf p" "check p TOK_UNION" "8 * toks_left p + 8 \<le> n"
  obtains all p4 rc sub where "match (snd (advance p)) TOK_ALL = (all, p4)" 
    "pmm_parse n (drop (p_pos p4) (p_tokens p4)) = Some (rc, sub)" "parse_outcome (rc, sub)"
    "moves p p4" "pr_overflow sub \<longrightarrow> has_unwind (p_tokens p)"
proof -
  have a: "moves p (snd (advance p))" "pwf (snd (advance p))" "toks_left (snd (advance p)) < toks_left p"
    using p advance_moves [of p TOK_UNION] advance_pwf [of p TOK_UNION]
      advance_less [of p TOK_UNION] by auto
  obtain all p4 where m: "match (snd (advance p)) TOK_ALL = (all, p4)" by fastforce
  then have p4: "pwf p4" "toks_left p4 < toks_left p"
    using match_moves [OF a(2), of TOK_ALL] moves_left [OF match_moves [OF a(2), of TOK_ALL]] a(3)
    by (auto dest: moves_pwf)
  have "eof_ended (drop (p_pos p4) (p_tokens p4))"
    using p4(1) by (auto simp: pwf_def eof_ended_def)
  moreover have "8 * (length (drop (p_pos p4) (p_tokens p4)) - 1) + 10 \<le> n"
    using p4 p(3) by (auto simp: toks_left_def)
  ultimately obtain res where "pmm_parse n (drop (p_pos p4) (p_tokens p4)) = Some res"
      "parse_total_post (drop (p_pos p4) (p_tokens p4)) res"
    using tp by (auto simp: total_parse_def)
  moreover have "moves p p4"
    using moves_trans [OF a(1) match_moves [OF a(2), of TOK_ALL]] m by simp
  ultimately show ?thesis
    using that [OF m] by (cases res) (auto simp: parse_total_post_def moves_def dest: has_unwind_drop)
qed

lemma parse_post_where_total:
  assumes tp: "total_parse n" and p: "pwf p" "8 * toks_left p + 9 \<le> Suc n" "chain_ok pats"
  shows "yields (parse_post_WHERE (Suc n) pats p) (pw_post p)"
  unfolding parse_post_WHERE.simps
proof (rule yields_bind [OF parse_match_chain_returns], goal_cases)
  case (4 r q)
  note ov = moves_ov_ok [OF 4(1)]
  show ?case
  proof (cases r)
    case None
    then show ?thesis using ov by (auto intro: yields_ret)
  next
    case (Some ps)
    show ?thesis
    proof (cases "unsupported_clause_error (tk_type (peek q))")
      case None
      show ?thesis
        unfolding Some None option.case
      proof (rule yields_bind [OF parse_with_part_returns], goal_cases)
        case wp: (3 r2 q2)
        have m2: "moves p q2" by (rule moves_trans [OF 4(1) wp(1)])
        show ?case
        proof (cases r2)
          case None
          then show ?thesis using moves_ov_ok [OF m2] by (auto intro: yields_ret)
        next
          case s2: (Some cw)
          obtain c w where cw: "cw = (c, w)" by fastforce
          show ?thesis
            unfolding s2 cw option.case prod.case
          proof (rule yields_bind [OF parse_return_returns], goal_cases)
            case rt: (3 r3 q3)
            have m3: "moves p q3" by (rule moves_trans [OF m2 rt(1)])
            show ?case
            proof (cases r3)
              case None
              then show ?thesis using moves_ov_ok [OF m3] by (auto intro: yields_ret)
            next
              case s3: (Some rr)
              have ok: "post_where_ok \<lparr>pw_patterns = ps, pw_with = c, pw_where = w, pw_ret = rr,
                          pw_union = u, pw_union_all = a\<rparr>" if "\<forall>x. u = Some x \<longrightarrow> query_ok x" for u a
                using that 4(4) wp(4) rt(4) Some s2 cw s3 by (auto simp: post_where_ok_def)
              show ?thesis
              proof (cases "check q3 TOK_UNION")
                case False
                then show ?thesis using s3 ok moves_ov_ok [OF m3] by (auto intro!: yields_ret)
              next
                case True
                have "8 * toks_left q3 + 8 \<le> n" using rt(3) wp(3) 4(3) p(2) by auto
                then obtain all p4 rc sub where
                  "match (snd (advance q3)) TOK_ALL = (all, p4)"
                  "pmm_parse n (drop (p_pos p4) (p_tokens p4)) = Some (rc, sub)"
                  "parse_outcome (rc, sub)" "moves q3 p4"
                  "pr_overflow sub \<longrightarrow> has_unwind (p_tokens q3)"
                  using union_total [OF tp rt(2) True] by blast
                then show ?thesis
                  using s3 True ok m3
                  by (auto simp: Let_def parse_outcome_def ov_ok_def moves_def set_error_def split: if_splits intro!: yields_ret)
              qed
            qed
          qed (use wp(2,3) 4(3) p in auto)
        qed
      qed (use 4(2,3) p in auto)
    next
      case u: (Some e)
      then show ?thesis using Some ov by (auto simp: ov_ok_def set_error_def intro!: yields_ret)
    qed
  qed
qed (use p in auto)

lemma gives_bind:
  "returns m p R \<Longrightarrow>
   (\<And>r q. moves p q \<Longrightarrow> pwf q \<Longrightarrow> toks_left q \<le> toks_left p \<Longrightarrow> R r q \<Longrightarrow> \<exists>x. f r q = Some x \<and> Q x) \<Longrightarrow>
   \<exists>x. m \<bind> (\<lambda>(r, q). f r q) = Some x \<and> Q x"
  unfolding returns_def using moves_pwf moves_left by fastforce

lemma error_or_total:
  "dflt \<noteq> [] \<Longrightarrow> (p_overflow q \<longrightarrow> has_unwind ts) \<Longrightarrow> parse_total_post ts (error_or q dflt)"
  by (simp add: parse_total_post_def parse_outcome_error_or) (simp add: error_or_def parse_fail_def)

text \<open>The parse from the MATCH on, wherever an UNWIND has left the cursor.\<close>

lemma pmm_parse_from_match:
  assumes tp: "total_parse n" and p: "pwf p1" "8 * toks_left p1 + 9 \<le> n"
    and ov: "p_overflow p1 \<longrightarrow> has_unwind ts" "p_tokens p1 = ts"
  shows "\<exists>res. (case match p1 TOK_OPTIONAL of (opt, p2) \<Rightarrow>
           case expect p2 TOK_MATCH of
             (None, p3) \<Rightarrow> Some (error_or p3 ''expected MATCH'')
           | (Some _, p3) \<Rightarrow>
               parse_match_pattern n p3 \<bind> (\<lambda>(pat0, p4).
                 case pat0 of
                   None \<Rightarrow> Some (error_or p4 ''failed to parse pattern'')
                 | Some pt0 \<Rightarrow>
                     parse_match_chain n [(pt0, opt)] p4 \<bind> (\<lambda>(pats, p5).
                       case pats of
                         None \<Rightarrow> Some (error_or p5 ''failed to parse additional pattern'')
                       | Some ps \<Rightarrow>
                           parse_where n p5 \<bind> (\<lambda>(wh, p6).
                             case wh of
                               None \<Rightarrow> Some (error_or p6 ''failed to parse WHERE'')
                             | Some w \<Rightarrow>
                                 parse_post_WHERE n ps p6 \<bind> (\<lambda>(res, p7).
                                   case res of
                                     None \<Rightarrow> Some (error_or p7 ''failed to parse query'')
                                   | Some pw \<Rightarrow>
                                       Some (parse_ok
                                         (Query (map fst (pw_patterns pw)) (map snd (pw_patterns pw))
                                           w (pw_with pw) (pw_where pw) (pw_ret pw) (pw_union pw)
                                           (pw_union_all pw) ue ua) (p_overflow p7))))))) = Some res \<and>
         parse_total_post ts res"
proof -
  obtain opt p2 where m: "match p1 TOK_OPTIONAL = (opt, p2)" by fastforce
  have p2: "moves p1 p2" using match_moves [OF p(1), of TOK_OPTIONAL] m by simp
  obtain r p3 where e: "expect p2 TOK_MATCH = (r, p3)" by fastforce
  have p3: "moves p1 p3"
    using moves_trans [OF p2 expect_moves [OF moves_pwf [OF p2], of TOK_MATCH]] e by simp
  have err: "parse_total_post ts (error_or q d)" if "moves p1 q" "d \<noteq> []" for q d
    using error_or_total [of d q ts] that ov by (auto simp: moves_def)
  note left3 = moves_left [OF p3]
  show ?thesis
  proof (cases r)
    case None
    then show ?thesis using m e err [OF p3] by simp
  next
    case (Some t)
    show ?thesis
      unfolding m e Some prod.case option.case
    proof (rule gives_bind [OF parse_match_pattern_returns], goal_cases)
      case pt: (3 r4 p4)
      have p4: "moves p1 p4" by (rule moves_trans [OF p3 pt(1)])
      show ?case
      proof (cases r4)
        case None
        then show ?thesis using err [OF p4] by simp
      next
        case s4: (Some pt0)
        show ?thesis
          unfolding s4 option.case
        proof (rule gives_bind [OF parse_match_chain_returns], goal_cases)
          case ch: (4 r5 p5)
          have p5: "moves p1 p5" by (rule moves_trans [OF p4 ch(1)])
          show ?case
          proof (cases r5)
            case None
            then show ?thesis using err [OF p5] by simp
          next
            case s5: (Some ps)
            show ?thesis
              unfolding s5 option.case
            proof (rule gives_bind [OF parse_where_returns], goal_cases)
              case wh: (3 r6 p6)
              have p6: "moves p1 p6" by (rule moves_trans [OF p5 wh(1)])
              show ?case
              proof (cases r6)
                case None
                then show ?thesis using err [OF p6] by simp
              next
                case s6: (Some w)
                have "chain_ok ps" using ch(4) s5 by simp
                moreover have "8 * toks_left p6 + 9 \<le> n" using moves_left [OF p6] p(2) by simp
                ultimately have "yields (parse_post_WHERE n ps p6) (pw_post p6)"
                  using tp wh(2) by (simp add: total_parse_def)
                then obtain r7 p7 where r7: "parse_post_WHERE n ps p6 = Some (r7, p7)" "pw_post p6 r7 p7"
                  by (auto simp: yields_def)
                have o7: "p_overflow p7 \<longrightarrow> has_unwind ts"
                  using r7(2) p6 ov by (auto simp: ov_ok_def moves_def)
                show ?thesis
                proof (cases r7)
                  case None
                  then show ?thesis using s6 r7(1) error_or_total [OF _ o7] by simp
                next
                  case s7: (Some pw)
                  have "\<forall>v. w = Some v \<longrightarrow> where_ok v" "post_where_ok pw"
                    using wh(4) s6 r7(2) s7 by auto
                  then have "query_ok (Query (map fst (pw_patterns pw)) (map snd (pw_patterns pw)) w
                      (pw_with pw) (pw_where pw) (pw_ret pw) (pw_union pw) (pw_union_all pw) ue ua)"
                    by (rule query_ok_of_parts [rotated])
                  then show ?thesis
                    using s6 r7(1) s7 o7 by (simp add: parse_total_post_def parse_outcome_ok)
                      (simp add: parse_ok_def)
                qed
              qed
            qed (use ch(2) moves_left [OF p5] p(2) in auto)
          qed
        qed (use pt(2,4) s4 moves_left [OF p4] p(2) in \<open>auto simp: chain_ok_def\<close>)
      qed
    qed (use moves_pwf [OF p3] left3 p(2) in auto)
  qed
qed

lemma pmm_parse_total_Suc:
  assumes tp: "total_parse n" and ts: "eof_ended ts" "8 * (length ts - 1) + 10 \<le> Suc n"
  shows "\<exists>res. pmm_parse (Suc n) ts = Some res \<and> parse_total_post ts res"
proof -
  let ?p = "\<lparr>p_tokens = ts, p_pos = 0, p_error = [], p_overflow = False\<rparr>"
  have p: "pwf ?p" "toks_left ?p = length ts - 1"
    using ts(1) by (simp_all add: pwf_def eof_ended_def toks_left_def)
  show ?thesis
  proof (cases "unsupported_clause_error (tk_type (peek ?p))")
    case (Some e)
    then show ?thesis
      using unsupported_nonempty [OF Some]
      by (simp add: Let_def parse_total_post_def parse_outcome_fail) (simp add: parse_fail_def)
  next
    case None
    have "yields (if check ?p TOK_UNWIND then parse_unwind_clause n ?p else Some ((None, None), ?p))
        (\<lambda>_ q. moves_ov ?p q \<and> (p_overflow q \<longrightarrow> has_unwind ts))"
    proof (cases "check ?p TOK_UNWIND")
      case True
      then have "has_unwind ts"
        using ts(1) by (auto simp: has_unwind_def check_def peek_def list_ex_iff eof_ended_def)
      then show ?thesis
        using True parse_unwind_clause_yields [OF p(1) True, of n] p(2) ts(2)
        by (auto simp: yields_def)
    next
      case False
      then show ?thesis using p(1) by (simp add: yields_def)
    qed
    then obtain ue ua p1 where u:
      "(if check ?p TOK_UNWIND then parse_unwind_clause n ?p else Some ((None, None), ?p)) = Some ((ue, ua), p1)"
      "moves_ov ?p p1" "p_overflow p1 \<longrightarrow> has_unwind ts"
      by (auto simp: yields_def)
    have "p_tokens p1 = ts" "pwf p1" "toks_left p1 \<le> toks_left ?p"
      using u(2) moves_left [OF u(2)] by (auto simp: moves_def toks_left_def)
    then show ?thesis
      using pmm_parse_from_match [OF tp, of p1 ts ue ua] u(1,3) ts(2) p(2) None
      by (simp add: Let_def)
  qed
qed

lemma total_parse: "total_parse n"
proof (induction n)
  case (Suc n)
  then show ?case
    using pmm_parse_total_Suc parse_post_where_total
    by (simp add: total_parse_def [of "Suc n"] del: pmm_parse.simps parse_post_WHERE.simps)
qed (simp add: total_parse_def)

end
