(* ===== verification/Cyp_Parser_Props.thy ===== *)
theory Cyp_Parser_Props
  imports Cyp_Parser_Facts Cyp_Lexer_Props
begin

text \<open>
  The promises of the front end: parsing ends on every input, a failure has a message, a success
  a well-formed query, and the stack buffers hold.
\<close>

text \<open>
  The contract between the lexer and the parser: the parser looks at the token under its cursor
  without asking for the length of the array, and relies on an end-of-input token at its end.
\<close>

locale token_source =
  fixes tokens_of :: "string \<Rightarrow> token list"
  assumes ends_in_eof: "eof_ended (tokens_of s)"
begin

lemma parse_total:
  "\<exists>rc pr. pmm_parse (parse_fuel (tokens_of s)) (tokens_of s) = Some (rc, pr) \<and>
           parse_total_post (tokens_of s) (rc, pr)"
  using total_parse ends_in_eof by (simp add: total_parse_def parse_fuel_def)

end

interpretation lexed: token_source "\<lambda>s. lr_tokens (snd (pmm_lex (Some s)))"
  by unfold_locales (simp add: pmm_lex_Some eof_ended_def)

section \<open>Totality\<close>

lemma cypher_parse_outcome:
  "\<exists>rc q e. pmm_cypher_parse input = Some (rc, q, e) \<and>
     (if rc = 0 then e = None \<and> (\<exists>x. q = Some x \<and> query_ok x)
      else rc = -1 \<and> q = None \<and> (\<exists>m. e = Some m \<and> m \<noteq> []))"
proof (cases input)
  case None
  then show ?thesis by (simp add: pmm_cypher_parse_def pmm_lex_def empty_lex_result_def)
next
  case (Some s)
  obtain rc pr where "pmm_parse (parse_fuel (lr_tokens (snd (pmm_lex (Some s)))))
      (lr_tokens (snd (pmm_lex (Some s)))) = Some (rc, pr)" "parse_outcome (rc, pr)"
    using lexed.parse_total [of s] by (auto simp: parse_total_post_def)
  then show ?thesis
    unfolding Some pmm_cypher_parse_def
    by (auto simp: pmm_lex_Some parse_outcome_def Let_def split: if_splits)
qed

text \<open>C35: parsing always ends: \<open>pmm_cypher_parse\<close> returns on every input, with the fuel
  that it computes from the token count.  Either the return code is 0, there is no error and
  the query is well formed (one node more than relationships in each pattern, a WHERE has a
  tree of well-formed conditions, at most 32 items), or it is -1 and there is no query but a
  message that is not empty.\<close>

theorem pmm_cypher_parse_total:
  "\<exists>rc q e. pmm_cypher_parse input = Some (rc, q, e) \<and>
     (if rc = 0 then e = None \<and> (\<exists>x. q = Some x \<and> query_ok x)
      else rc = -1 \<and> q = None \<and> (\<exists>m. e = Some m \<and> m \<noteq> []))"
  by (rule cypher_parse_outcome)

text \<open>The parser's stack buffers: on the tokens of any query without UNWIND, no write
  goes past the end of a buffer.\<close>

theorem pmm_parse_no_overflow:
  assumes "\<not> has_unwind (lr_tokens (snd (pmm_lex (Some s))))"
  shows "\<exists>rc pr. pmm_parse (parse_fuel (lr_tokens (snd (pmm_lex (Some s)))))
           (lr_tokens (snd (pmm_lex (Some s)))) = Some (rc, pr) \<and> \<not> pr_overflow pr"
  using lexed.parse_total [of s] assms by (auto simp: parse_total_post_def)

lemma has_unwind_lexemes: "has_unwind ts = list_ex (\<lambda>l. fst l = TOK_UNWIND) (map lexeme_of ts)"
  by (simp add: has_unwind_def lexeme_of_def list.pred_map o_def list_ex_iff)

lemma lexed_render:
  "list_all lexeme_ok ls \<Longrightarrow>
   map lexeme_of (lr_tokens (snd (pmm_lex (Some (render_all ls))))) = ls @ [(TOK_EOF, [])]"
  using lex_loop_render [of ls 0 empty_lex_result] cstr_render_all [of ls]
  by (simp add: pmm_lex_Some lex_body_def empty_lex_result_def lexeme_of_def)

lemmas lexeme_eval = lexeme_ok_def string_ok_def number_ok_def ident_ok_def symbol_ok_def
  two_char_pairs_def lex_single_char_def max_blen_def number_start_def c_isdigit_def
  ident_start_def ident_char_def c_isalnum_def c_isalpha_def keyword_chain

theorem pmm_parse_no_overflow_witness:
  "\<exists>rc pr. pmm_parse (parse_fuel (lr_tokens (snd (pmm_lex (Some (render_all [(TOK_MATCH, ''MATCH''), (TOK_LPAREN, ''('')]))))))
           (lr_tokens (snd (pmm_lex (Some (render_all [(TOK_MATCH, ''MATCH''), (TOK_LPAREN, ''('')]))))) = Some (rc, pr) \<and>
           \<not> pr_overflow pr"
  by (rule pmm_parse_no_overflow) (simp add: has_unwind_lexemes lexed_render lexeme_eval)

section \<open>Unsupported clauses\<close>

text \<open>A query that starts with a clause the engine does not support (CREATE, DELETE, SET,
  MERGE, CALL, ...) is rejected with the message for that clause, whatever follows.\<close>

theorem unsupported_clause_rejected:
  assumes "unsupported_clause_error (tk_type (hd (lr_tokens (snd (pmm_lex (Some s)))))) = Some msg"
  shows "pmm_cypher_parse (Some s) = Some (-1, None, Some msg)"
proof -
  let ?ts = "lr_tokens (snd (pmm_lex (Some s)))"
  have "peek \<lparr>p_tokens = ?ts, p_pos = 0, p_error = [], p_overflow = False\<rparr> = hd ?ts"
    by (auto simp: peek_def pmm_lex_Some hd_conv_nth)
  then have *: "pmm_parse (Suc n) ?ts = Some (parse_fail msg False)" for n
    using assms by (simp add: Let_def)
  obtain n where "parse_fuel ?ts = Suc n"
    using not0_implies_Suc [of "parse_fuel ?ts"] by (auto simp: parse_fuel_def)
  then have "pmm_parse (parse_fuel ?ts) ?ts = Some (parse_fail msg False)"
    using * by (simp only:)
  then show ?thesis
    by (simp add: pmm_cypher_parse_def pmm_lex_Some parse_fail_def)
qed

theorem unsupported_clause_rejected_witness:
  "pmm_cypher_parse (Some (render_all [(TOK_DETACH, ''detach''), (TOK_IDENT, ''n'')])) =
     Some (-1, None, Some ''unsupported Cypher feature: DETACH DELETE (write operations not supported)'')"
proof (rule unsupported_clause_rejected)
  let ?ls = "[(TOK_DETACH, ''detach''), (TOK_IDENT, ''n'')]"
  have "map lexeme_of (lr_tokens (snd (pmm_lex (Some (render_all ?ls))))) = ?ls @ [(TOK_EOF, [])]"
    by (rule lexed_render) (simp add: lexeme_eval)
  then have "tk_type (hd (lr_tokens (snd (pmm_lex (Some (render_all ?ls)))))) = TOK_DETACH"
    by (auto simp: lexeme_of_def)
  then show "unsupported_clause_error (tk_type (hd (lr_tokens (snd (pmm_lex (Some (render_all ?ls))))))) =
      Some ''unsupported Cypher feature: DETACH DELETE (write operations not supported)''"
    by (simp add: unsupported_clause_error_def)
qed

end
