(* ===== verification/Cyp_Digits.thy ===== *)
theory Cyp_Digits
  imports Cyp_Prelude
begin

text \<open>
  Facts on the decimal numbers that \<open>%d\<close> and \<open>%lld\<close> print: they are digits, they read back by
  \<open>strtol\<close>, and different numbers print differently.
\<close>

section \<open>Decimal digits\<close>

lemma digit_char: "d < 10 \<Longrightarrow> (of_char (char_of (48 + d :: nat)) :: nat) = 48 + d"
  by (simp add: of_char_of)

lemma nat_digits_rec:
  "nat_digits n = (if n < 10 then [char_of (48 + n)]
                   else nat_digits (n div 10) @ [char_of (48 + n mod 10)])"
  by (rule nat_digits.simps)

lemma nat_digits_nonempty [simp]: "nat_digits n \<noteq> []"
  by (subst nat_digits_rec) simp

lemma c_isdigit_digit: "(d :: nat) < 10 \<Longrightarrow> c_isdigit (char_of (48 + d))"
  by (simp add: c_isdigit_def digit_char)

lemma nat_digits_isdigit: "c \<in> set (nat_digits n) \<Longrightarrow> c_isdigit c"
proof (induction n rule: less_induct)
  case (less n)
  show ?case
  proof (cases "n < 10")
    case True
    then show ?thesis using less.prems by (simp add: nat_digits_rec [of n] c_isdigit_digit)
  next
    case False
    then have "c \<in> set (nat_digits (n div 10)) \<or> c = char_of (48 + n mod 10)"
      using less.prems by (subst (asm) nat_digits_rec) auto
    then show ?thesis
      using False less.IH [of "n div 10"] c_isdigit_digit [of "n mod 10"] by auto
  qed
qed

lemma digit_not_space: "c_isdigit c \<Longrightarrow> \<not> c_isspace c"
  by (auto simp: c_isdigit_def c_isspace_def)

section \<open>Printed integers\<close>

lemma digits_value_append:
  "digits_value acc (xs @ ys) = digits_value (digits_value acc xs) ys"
  by (induction acc xs rule: digits_value.induct) simp_all

lemma digits_value_nat_digits: "digits_value 0 (nat_digits n) = int n"
proof (induction n rule: less_induct)
  case (less n)
  show ?case
  proof (cases "n < 10")
    case True
    then show ?thesis by (simp add: nat_digits_rec [of n] digit_char)
  next
    case False
    then have h: "digits_value 0 (nat_digits (n div 10)) = int (n div 10)" by (intro less) simp
    have "int (10 * (n div 10) + n mod 10) = int n" by simp
    then have "10 * int (n div 10) + int (n mod 10) = int n"
      by (simp only: of_nat_add of_nat_mult of_nat_numeral)
    then show ?thesis
      using False h by (simp add: nat_digits_rec [of n] digits_value_append digit_char)
  qed
qed

lemma takeWhile_nat_digits: "takeWhile c_isdigit (nat_digits n) = nat_digits n"
  using nat_digits_isdigit by (auto simp only: takeWhile_eq_all_conv)

lemma nat_digits_Cons: obtains c cs where "nat_digits n = c # cs" "c_isdigit c"
  using nat_digits_isdigit [of "hd (nat_digits n)" n] by (cases "nat_digits n") auto

lemma strtol_nat_digits:
  "int n \<le> LONG_MAX \<Longrightarrow> strtol (nat_digits n) = int n"
  "int n \<le> 9223372036854775808 \<Longrightarrow> strtol (CHR ''-'' # nat_digits n) = - int n"
proof -
  obtain c cs where d: "nat_digits n = c # cs" "c_isdigit c" by (rule nat_digits_Cons)
  have s: "\<not> c_isspace c" "c \<noteq> CHR ''-''" "c \<noteq> CHR ''+''"
    using d(2) digit_not_space [OF d(2)] by (auto simp: c_isdigit_def)
  have v: "digits_value 0 (takeWhile c_isdigit (c # cs)) = int n"
    using digits_value_nat_digits [of n] takeWhile_nat_digits [of n] d(1) by simp
  show "int n \<le> LONG_MAX \<Longrightarrow> strtol (nat_digits n) = int n"
    using s v unfolding strtol_def d(1) Let_def
    by (simp only: dropWhile.simps list.case if_False if_True simp_thms)
  show "int n \<le> 9223372036854775808 \<Longrightarrow> strtol (CHR ''-'' # nat_digits n) = - int n"
    using s v unfolding strtol_def d(1) Let_def by (simp add: c_isspace_def del: takeWhile.simps)
qed

lemma strtol_show_int: "LONG_MIN \<le> v \<Longrightarrow> v \<le> LONG_MAX \<Longrightarrow> strtol (show_int v) = v"
  by (auto simp: show_int_def strtol_nat_digits)

lemma show_int_inj: "LONG_MIN \<le> v \<Longrightarrow> v \<le> LONG_MAX \<Longrightarrow> LONG_MIN \<le> w \<Longrightarrow> w \<le> LONG_MAX \<Longrightarrow>
    show_int v = show_int w \<longleftrightarrow> v = w"
  by (metis strtol_show_int)

text \<open>The same without a range, and the room a number of 64 bits takes.\<close>

lemma show_int_injective: "show_int a = show_int b \<longleftrightarrow> a = b"
proof -
  have hd: "hd (nat_digits n) \<noteq> CHR ''-''" for n
    using nat_digits_isdigit [of "hd (nat_digits n)" n] by (auto simp: c_isdigit_def)
  have ne: "CHR ''-'' # nat_digits m \<noteq> nat_digits n" for m n
    using hd[of n] by (metis list.sel(1))
  have inj: "nat_digits m = nat_digits n \<longleftrightarrow> m = n" for m n
    by (metis digits_value_nat_digits of_nat_eq_iff)
  show ?thesis
    by (auto simp: show_int_def inj ne ne[symmetric])
qed

lemma show_int_no_colon: "CHR '':'' \<notin> set (show_int a)"
  using nat_digits_isdigit [of "CHR '':''"] by (auto simp: show_int_def c_isdigit_def)

lemma nat_digits_length: "n < 10 ^ Suc k \<Longrightarrow> length (nat_digits n) \<le> Suc k"
proof (induction k arbitrary: n)
  case 0
  then show ?case
    by (subst nat_digits.simps) simp
next
  case (Suc k)
  have "n div 10 < 10 ^ Suc k"
    using Suc.prems by (simp add: div_less_iff_less_mult mult.commute)
  then have "length (nat_digits (n div 10)) \<le> Suc k"
    by (rule Suc.IH)
  then show ?case
    by (subst nat_digits.simps) simp
qed

definition id64 :: "int \<Rightarrow> bool" where
  "id64 i \<longleftrightarrow> LONG_MIN \<le> i \<and> i \<le> LONG_MAX"

lemma show_int_length:
  assumes "id64 i"
  shows "length (show_int i) \<le> 20"
proof -
  have "length (nat_digits (nat \<bar>i\<bar>)) \<le> Suc 18"
    using assms by (intro nat_digits_length) (simp add: id64_def nat_less_iff abs_less_iff)
  then show ?thesis
    by (auto simp: show_int_def)
qed

end
