(* ===== verification/Cyp_Store.thy ===== *)
theory Cyp_Store
  imports Cyp_Digits
begin

text \<open>
  The graph store as the query engine sees it: the node and edge structs of
  src/src/store/store.h, the query functions of src/src/store/store.c that cypher.c calls, and
  the laws the engine relies on.  \<open>store_ops\<close> is the interface; \<open>table_store\<close> is the model of
  the SQL statements over the two tables.  Where a statement has no ORDER BY the rows come in
  the order of the table (rowid order, which is what SQLite's index scans give on equal keys).
  The recursion of the breadth-first statement is the walk level by level.  A failing prepare
  or step of SQLite has no counterpart.
\<close>

record pmm_node =
  n_id :: int
  n_project :: "string option"
  n_label :: "string option"
  n_name :: "string option"
  n_qualified_name :: "string option"
  n_file_path :: "string option"
  n_start_line :: int
  n_end_line :: int
  n_properties_json :: "string option"

record pmm_edge =
  e_id :: int
  e_project :: "string option"
  e_source_id :: int
  e_target_id :: int
  e_type :: "string option"
  e_properties_json :: "string option"

text \<open>The zeroed node struct.\<close>

definition zero_node :: pmm_node where
  "zero_node = \<lparr>n_id = 0, n_project = None, n_label = None, n_name = None, n_qualified_name = None,
     n_file_path = None, n_start_line = 0, n_end_line = 0, n_properties_json = None\<rparr>"

lemma int32_id: "- (2 ^ 31) \<le> v \<Longrightarrow> v < 2 ^ 31 \<Longrightarrow> int32 v = v"
  by (simp add: int32_def int_word_sint)

section \<open>The interface\<close>

record store_ops =
  so_node_degree :: "int \<Rightarrow> int \<times> int"
  so_find_node_by_id :: "int \<Rightarrow> pmm_node option"
  so_find_nodes_by_label :: "string option \<Rightarrow> string \<Rightarrow> pmm_node list"
  so_search :: "string option \<Rightarrow> int \<Rightarrow> pmm_node list"
  so_find_edges_by_source :: "int \<Rightarrow> pmm_edge list"
  so_find_edges_by_source_type :: "int \<Rightarrow> string \<Rightarrow> pmm_edge list"
  so_find_edges_by_target :: "int \<Rightarrow> pmm_edge list"
  so_find_edges_by_target_type :: "int \<Rightarrow> string \<Rightarrow> pmm_edge list"
  so_bfs :: "int \<Rightarrow> string \<Rightarrow> string list \<Rightarrow> int \<Rightarrow> int \<Rightarrow> (pmm_node \<times> int) list"

section \<open>The tables and their queries\<close>

record tables =
  t_nodes :: "pmm_node list"
  t_edges :: "pmm_edge list"

text \<open>\<open>sqlite3_column_int\<close>: the low 32 bits.\<close>

definition node_degree :: "tables \<Rightarrow> int \<Rightarrow> int \<times> int" where
  "node_degree D i =
     (int32 (int (length [e \<leftarrow> t_edges D. e_target_id e = i \<and> e_type e = Some ''CALLS''])),
      int32 (int (length [e \<leftarrow> t_edges D. e_source_id e = i \<and> e_type e = Some ''CALLS''])))"

definition find_node_by_id :: "tables \<Rightarrow> int \<Rightarrow> pmm_node option" where
  "find_node_by_id D i = find (\<lambda>n. n_id n = i) (t_nodes D)"

text \<open>A NULL project equals nothing in SQL.\<close>

definition find_nodes_by_label :: "tables \<Rightarrow> string option \<Rightarrow> string \<Rightarrow> pmm_node list" where
  "find_nodes_by_label D project label =
     [n \<leftarrow> t_nodes D. project \<noteq> None \<and> n_project n = project \<and> n_label n = Some label]"

definition find_edges_by_source :: "tables \<Rightarrow> int \<Rightarrow> pmm_edge list" where
  "find_edges_by_source D i = [e \<leftarrow> t_edges D. e_source_id e = i]"

definition find_edges_by_target :: "tables \<Rightarrow> int \<Rightarrow> pmm_edge list" where
  "find_edges_by_target D i = [e \<leftarrow> t_edges D. e_target_id e = i]"

definition find_edges_by_source_type :: "tables \<Rightarrow> int \<Rightarrow> string \<Rightarrow> pmm_edge list" where
  "find_edges_by_source_type D i t = [e \<leftarrow> t_edges D. e_source_id e = i \<and> e_type e = Some t]"

definition find_edges_by_target_type :: "tables \<Rightarrow> int \<Rightarrow> string \<Rightarrow> pmm_edge list" where
  "find_edges_by_target_type D i t = [e \<leftarrow> t_edges D. e_target_id e = i \<and> e_type e = Some t]"

text \<open>ORDER BY: insertion sort by a comparison; ties keep the order of the table.\<close>

fun insert_by :: "('a \<Rightarrow> 'a \<Rightarrow> bool) \<Rightarrow> 'a \<Rightarrow> 'a list \<Rightarrow> 'a list" where
  "insert_by le x [] = [x]"
| "insert_by le x (y # ys) = (if le x y then x # y # ys else y # insert_by le x ys)"

fun order_by :: "('a \<Rightarrow> 'a \<Rightarrow> bool) \<Rightarrow> 'a list \<Rightarrow> 'a list" where
  "order_by le [] = []"
| "order_by le (x # xs) = insert_by le x (order_by le xs)"

text \<open>ORDER BY n.name, n.id with the BINARY collation, NULL first.\<close>

definition name_id_le :: "pmm_node \<Rightarrow> pmm_node \<Rightarrow> bool" where
  "name_id_le a b =
     (case (n_name a, n_name b) of
        (None, None) \<Rightarrow> n_id a \<le> n_id b
      | (None, Some _) \<Rightarrow> True
      | (Some _, None) \<Rightarrow> False
      | (Some x, Some y) \<Rightarrow> strcmp x y < 0 \<or> (x = y \<and> n_id a \<le> n_id b))"

text \<open>The call of the engine: no filter but the project, offset 0; 0 or less asks for the default
  of 50 rows.\<close>

definition store_search :: "tables \<Rightarrow> string option \<Rightarrow> int \<Rightarrow> pmm_node list" where
  "store_search D project lim =
     take (nat (if 0 < lim then lim else 50))
       (order_by name_id_le [n \<leftarrow> t_nodes D. project = None \<or> n_project n = project])"

text \<open>The placeholders \<open>?1,?2,...\<close> of the types are printed into a buffer of 512 bytes and cut there.  A
  type counts if its placeholder is in the buffer; the cut never falls into a placeholder
  (\<open>types_clause_cut\<close> below).\<close>

definition type_placeholders :: "nat \<Rightarrow> string" where
  "type_placeholders n =
     concat (map (\<lambda>i. (if 0 < i then '','' else []) @ ''?'' @ show_int (int i + 1)) [0..<n])"

definition bfs_build_types_clause :: "nat \<Rightarrow> string" where
  "bfs_build_types_clause n = (if n = 0 then ''?1'' else snprintf_buf 512 (type_placeholders n))"

definition types_in_clause :: "string list \<Rightarrow> string list" where
  "types_in_clause types =
     take (length [c \<leftarrow> bfs_build_types_clause (length types). c = CHR ''?'']) types"

text \<open>The breadth-first statement: the nodes at the end of a walk of exactly \<open>k\<close> edges.\<close>

definition bfs_next :: "tables \<Rightarrow> string \<Rightarrow> string list \<Rightarrow> int \<Rightarrow> int list" where
  "bfs_next D dir types i =
     (let ts = (if types = [] then [''CALLS''] else types_in_clause types);
          ok = (\<lambda>e. \<exists>t\<in>set ts. e_type e = Some t)
      in if dir = ''inbound'' then [e_source_id e. e \<leftarrow> t_edges D, e_target_id e = i \<and> ok e]
         else [e_target_id e. e \<leftarrow> t_edges D, e_source_id e = i \<and> ok e])"

fun walk_level :: "tables \<Rightarrow> string \<Rightarrow> string list \<Rightarrow> int \<Rightarrow> nat \<Rightarrow> int list" where
  "walk_level D dir types start 0 = [start]"
| "walk_level D dir types start (Suc k) =
     remdups (concat (map (bfs_next D dir types) (walk_level D dir types start k)))"

text \<open>MIN(hop) per node, hop 0 excluded, ORDER BY hop, id.\<close>

definition bfs_at_hop :: "tables \<Rightarrow> string \<Rightarrow> string list \<Rightarrow> int \<Rightarrow> nat \<Rightarrow> (pmm_node \<times> int) list" where
  "bfs_at_hop D dir types start k =
     map (\<lambda>n. (n, int k))
       (order_by (\<lambda>a b. n_id a \<le> n_id b)
         [n \<leftarrow> t_nodes D. n_id n \<in> set (walk_level D dir types start k) \<and>
            (\<forall>j\<in>set [1..<k]. n_id n \<notin> set (walk_level D dir types start j))])"

definition store_bfs ::
  "tables \<Rightarrow> int \<Rightarrow> string \<Rightarrow> string list \<Rightarrow> int \<Rightarrow> int \<Rightarrow> (pmm_node \<times> int) list" where
  "store_bfs D start dir types max_depth max_results =
     (if find_node_by_id D start = None then []
      else take (nat max_results)
             (concat (map (bfs_at_hop D dir types start) [1..<Suc (nat max_depth)])))"

definition table_store :: "tables \<Rightarrow> store_ops" where
  "table_store D =
     \<lparr>so_node_degree = node_degree D, so_find_node_by_id = find_node_by_id D,
      so_find_nodes_by_label = find_nodes_by_label D, so_search = store_search D,
      so_find_edges_by_source = find_edges_by_source D,
      so_find_edges_by_source_type = find_edges_by_source_type D,
      so_find_edges_by_target = find_edges_by_target D,
      so_find_edges_by_target_type = find_edges_by_target_type D,
      so_bfs = store_bfs D\<rparr>"

section \<open>The contract\<close>

text \<open>An edge of one of the given types (CALLS, if none is given) in the given direction, and a walk of
  \<open>k\<close> such edges.\<close>

definition edge_step :: "tables \<Rightarrow> string \<Rightarrow> string list \<Rightarrow> int \<Rightarrow> int \<Rightarrow> bool" where
  "edge_step D dir types i j \<longleftrightarrow>
     (\<exists>e\<in>set (t_edges D).
        (if types = [] then e_type e = Some ''CALLS'' else \<exists>t\<in>set types. e_type e = Some t) \<and>
        (if dir = ''inbound'' then e_target_id e = i \<and> e_source_id e = j
         else e_source_id e = i \<and> e_target_id e = j))"

inductive walk :: "tables \<Rightarrow> string \<Rightarrow> string list \<Rightarrow> int \<Rightarrow> nat \<Rightarrow> int \<Rightarrow> bool"
  for D dir types start where
  walk_start: "walk D dir types start 0 start"
| walk_step: "walk D dir types start k i \<Longrightarrow> edge_step D dir types i j \<Longrightarrow>
    walk D dir types start (Suc k) j"

inductive_simps walk_Suc: "walk D dir types start (Suc k) j"
inductive_simps walk_0: "walk D dir types start 0 j"

locale store_laws =
  fixes S :: store_ops and D :: tables
  assumes by_id_Some: "so_find_node_by_id S i = Some n \<Longrightarrow> n \<in> set (t_nodes D) \<and> n_id n = i"
    and by_id_None: "so_find_node_by_id S i = None \<Longrightarrow> n \<in> set (t_nodes D) \<Longrightarrow> n_id n \<noteq> i"
    and by_label: "n \<in> set (so_find_nodes_by_label S p l) \<longleftrightarrow>
      n \<in> set (t_nodes D) \<and> p \<noteq> None \<and> n_project n = p \<and> n_label n = Some l"
    and search_sound: "n \<in> set (so_search S p k) \<Longrightarrow>
      n \<in> set (t_nodes D) \<and> (p = None \<or> n_project n = p)"
    and search_complete: "n \<in> set (t_nodes D) \<Longrightarrow> p = None \<or> n_project n = p \<Longrightarrow>
      int (length (t_nodes D)) \<le> k \<Longrightarrow> n \<in> set (so_search S p k)"
    and by_source: "e \<in> set (so_find_edges_by_source S i) \<longleftrightarrow> e \<in> set (t_edges D) \<and> e_source_id e = i"
    and by_target: "e \<in> set (so_find_edges_by_target S i) \<longleftrightarrow> e \<in> set (t_edges D) \<and> e_target_id e = i"
    and by_source_type: "e \<in> set (so_find_edges_by_source_type S i t) \<longleftrightarrow>
      e \<in> set (t_edges D) \<and> e_source_id e = i \<and> e_type e = Some t"
    and by_target_type: "e \<in> set (so_find_edges_by_target_type S i t) \<longleftrightarrow>
      e \<in> set (t_edges D) \<and> e_target_id e = i \<and> e_type e = Some t"
    and bfs_sound: "(n, h) \<in> set (so_bfs S i dir ts d m) \<Longrightarrow>
      n \<in> set (t_nodes D) \<and> 1 \<le> h \<and> h \<le> d \<and> walk D dir ts i (nat h) (n_id n)"
begin

lemma by_id_iff:
  assumes "distinct (map n_id (t_nodes D))"
  shows "so_find_node_by_id S i = Some n \<longleftrightarrow> n \<in> set (t_nodes D) \<and> n_id n = i"
proof
  assume "n \<in> set (t_nodes D) \<and> n_id n = i"
  then obtain m where m: "so_find_node_by_id S i = Some m"
    using by_id_None by (cases "so_find_node_by_id S i") auto
  have "n = m"
    using by_id_Some [OF m] \<open>n \<in> set (t_nodes D) \<and> n_id n = i\<close> assms
    by (metis distinct_map inj_on_def)
  then show "so_find_node_by_id S i = Some n" using m by simp
qed (auto dest: by_id_Some)

end

section \<open>The tables keep the contract\<close>

lemma set_insert_by [simp]: "set (insert_by le x xs) = insert x (set xs)"
  by (induction xs) auto

lemma set_order_by [simp]: "set (order_by le xs) = set xs"
  by (induction xs) auto

lemma length_insert_by [simp]: "length (insert_by le x xs) = Suc (length xs)"
  by (induction xs) auto

lemma length_order_by [simp]: "length (order_by le xs) = length xs"
  by (induction xs) auto

text \<open>All types count up to 124 of them.\<close>

lemma type_placeholders_Suc:
  "type_placeholders (Suc n) = type_placeholders n @ (if 0 < n then '','' else []) @ ''?'' @ show_int (int n + 1)"
  by (simp add: type_placeholders_def)

lemma question_marks: "length [c \<leftarrow> type_placeholders n. c = CHR ''?''] = n"
proof (induction n)
  case (Suc n)
  have "\<not> c_isdigit (CHR ''?'')"
    by (simp add: c_isdigit_def)
  then have "CHR ''?'' \<notin> set (show_int (int n + 1))"
    using nat_digits_isdigit by (auto simp: show_int_def)
  then have "[c \<leftarrow> show_int (int n + 1). c = CHR ''?''] = []"
    by (auto simp: filter_empty_conv)
  then show ?case
    using Suc by (simp add: type_placeholders_Suc)
qed (simp add: type_placeholders_def)

lemma type_placeholders_prefix: "m \<le> n \<Longrightarrow> \<exists>t. type_placeholders n = type_placeholders m @ t"
  by (induction n rule: dec_induct) (auto simp: type_placeholders_Suc)

lemma type_placeholders_124: "length (type_placeholders 124) = 511"
  by code_simp

lemma types_clause_cut: "0 < n \<Longrightarrow> bfs_build_types_clause n = type_placeholders (min n 124)"
proof (cases "n \<le> 124")
  case True
  moreover assume "0 < n"
  ultimately show ?thesis
    using type_placeholders_prefix[of n 124] type_placeholders_124
    by (auto simp: bfs_build_types_clause_def snprintf_buf_def min_def)
next
  case False
  then obtain t where "type_placeholders n = type_placeholders 124 @ t"
    using type_placeholders_prefix[of 124 n] by auto
  then show ?thesis
    using False type_placeholders_124 by (simp add: bfs_build_types_clause_def snprintf_buf_def min_def)
qed

lemma types_in_clause_take: "types_in_clause types = take 124 types"
proof (cases "types = []")
  case False
  then show ?thesis
    by (simp add: types_in_clause_def types_clause_cut question_marks min_def)
qed (simp add: types_in_clause_def)

lemma bfs_next_step: "j \<in> set (bfs_next D dir ts i) \<Longrightarrow> edge_step D dir ts i j"
  by (auto simp: bfs_next_def edge_step_def Let_def types_in_clause_take split: if_splits dest!: in_set_takeD)

lemma bfs_next_iff: "length ts \<le> 124 \<Longrightarrow> j \<in> set (bfs_next D dir ts i) \<longleftrightarrow> edge_step D dir ts i j"
  by (auto simp: bfs_next_def edge_step_def Let_def types_in_clause_take)

lemma walk_level_walk: "j \<in> set (walk_level D dir ts i k) \<Longrightarrow> walk D dir ts i k j"
  by (induction k arbitrary: j) (auto simp: walk_0 walk_Suc dest: bfs_next_step)

lemma walk_level_iff: "length ts \<le> 124 \<Longrightarrow> j \<in> set (walk_level D dir ts i k) \<longleftrightarrow> walk D dir ts i k j"
  by (induction k arbitrary: j) (auto simp: walk_0 walk_Suc bfs_next_iff)

lemma store_bfs_iff:
  assumes "length ts \<le> 124"
  shows "(n, h) \<in> set (concat (map (bfs_at_hop D dir ts i) [1..<Suc (nat d)])) \<longleftrightarrow>
    n \<in> set (t_nodes D) \<and> 1 \<le> h \<and> h \<le> d \<and> walk D dir ts i (nat h) (n_id n) \<and>
    (\<forall>j. 1 \<le> j \<and> j < nat h \<longrightarrow> \<not> walk D dir ts i j (n_id n))"
  using assms
  by (auto simp: bfs_at_hop_def walk_level_iff image_iff nat_le_iff intro!: bexI [of _ "nat h"]
      simp del: upt_Suc)

lemma store_bfs_sound:
  assumes "(n, h) \<in> set (concat (map (bfs_at_hop D dir ts i) [1..<Suc (nat d)]))"
  shows "n \<in> set (t_nodes D) \<and> 1 \<le> h \<and> h \<le> d \<and> walk D dir ts i (nat h) (n_id n)"
  using assms by (auto simp: bfs_at_hop_def nat_le_iff intro: walk_level_walk simp del: upt_Suc)

interpretation db: store_laws "table_store D" D for D
proof
  fix i n
  show "so_find_node_by_id (table_store D) i = Some n \<Longrightarrow> n \<in> set (t_nodes D) \<and> n_id n = i"
    by (auto simp: table_store_def find_node_by_id_def find_Some_iff)
  show "so_find_node_by_id (table_store D) i = None \<Longrightarrow> n \<in> set (t_nodes D) \<Longrightarrow> n_id n \<noteq> i"
    by (auto simp: table_store_def find_node_by_id_def find_None_iff)
next
  fix n p k
  assume "n \<in> set (t_nodes D)" "p = None \<or> n_project n = p" "int (length (t_nodes D)) \<le> k"
  moreover have "length [n \<leftarrow> t_nodes D. p = None \<or> n_project n = p] \<le> length (t_nodes D)"
    by (rule length_filter_le)
  ultimately show "n \<in> set (so_search (table_store D) p k)"
    by (cases "t_nodes D") (auto simp: table_store_def store_search_def)
next
  fix n h i dir ts d m
  assume "(n, h) \<in> set (so_bfs (table_store D) i dir ts d m)"
  then have "(n, h) \<in> set (concat (map (bfs_at_hop D dir ts i) [1..<Suc (nat d)]))"
    by (auto simp: table_store_def store_bfs_def split: if_splits dest!: in_set_takeD simp del: upt_Suc)
  then show "n \<in> set (t_nodes D) \<and> 1 \<le> h \<and> h \<le> d \<and> walk D dir ts i (nat h) (n_id n)"
    by (rule store_bfs_sound)
qed (auto simp: table_store_def find_nodes_by_label_def store_search_def find_edges_by_source_def
    find_edges_by_target_def find_edges_by_source_type_def find_edges_by_target_type_def
    dest!: in_set_takeD)

end
