(* ===== verification/Cyp_Binding.thy ===== *)
theory Cyp_Binding
  imports Cyp_Store
begin

text \<open>
  Bindings (\<open>binding_t\<close>, src/src/cypher/cypher.c): the variables of a row with the node or edge
  each stands for.  The two parallel arrays with their count are a list of pairs in order.  A
  deep copy is the value itself, and freeing has no counterpart: the model has no addresses, so
  sharing or freeing the strings of a binding cannot be seen in it.
\<close>

text \<open>\<open>p ? p : ""\<close>.\<close>

definition or_empty :: "string option \<Rightarrow> string" where
  "or_empty s = (case s of None \<Rightarrow> [] | Some t \<Rightarrow> t)"

text \<open>A pointer that the source dereferences without a test.  The parser never leaves it NULL
  (\<open>cond_ok\<close>, \<open>return_ok\<close> in Cyp_Parser_Facts).\<close>

definition deref :: "string option \<Rightarrow> string" where
  "deref s = (case s of None \<Rightarrow> [] | Some t \<Rightarrow> t)"

lemma or_empty_simps [simp]: "or_empty None = []" "or_empty (Some s) = s"
  by (simp_all add: or_empty_def)

lemma deref_Some [simp]: "deref (Some s) = s"
  by (simp add: deref_def)

abbreviation CYP_MAX_VARS :: nat where "CYP_MAX_VARS \<equiv> 16"
abbreviation CYP_MAX_EDGE_VARS :: nat where "CYP_MAX_EDGE_VARS \<equiv> 8"

record binding =
  b_vars :: "(string \<times> pmm_node) list"
  b_edges :: "(string \<times> pmm_edge) list"
  b_store :: "store_ops option"

text \<open>\<open>binding_t b = {0}\<close>.\<close>

definition empty_binding :: binding where
  "empty_binding = \<lparr>b_vars = [], b_edges = [], b_store = None\<rparr>"

text \<open>The search loop of \<open>binding_get\<close> and \<open>binding_get_edge\<close>: the first entry with the name.\<close>

fun slot_get :: "string \<Rightarrow> (string \<times> 'v) list \<Rightarrow> 'v option" where
  "slot_get k [] = None"
| "slot_get k ((k', v) # xs) = (if k' = k then Some v else slot_get k xs)"

text \<open>The loop of \<open>binding_set\<close> and \<open>binding_set_edge\<close> with what follows it: overwrite the first
  entry with the name, else append if there is room.\<close>

fun slot_overwrite :: "string \<Rightarrow> 'v \<Rightarrow> (string \<times> 'v) list \<Rightarrow> (string \<times> 'v) list option" where
  "slot_overwrite k v [] = None"
| "slot_overwrite k v ((k', w) # xs) =
     (if k' = k then Some ((k', v) # xs)
      else map_option (Cons (k', w)) (slot_overwrite k v xs))"

definition slot_set :: "nat \<Rightarrow> string \<Rightarrow> 'v \<Rightarrow> (string \<times> 'v) list \<Rightarrow> (string \<times> 'v) list" where
  "slot_set cap k v xs =
     (case slot_overwrite k v xs of
        Some ys \<Rightarrow> ys
      | None \<Rightarrow> if cap \<le> length xs then xs else xs @ [(k, v)])"

definition binding_get_edge :: "binding \<Rightarrow> string \<Rightarrow> pmm_edge option" where
  "binding_get_edge b var = slot_get var (b_edges b)"

definition binding_get :: "binding \<Rightarrow> string \<Rightarrow> pmm_node option" where
  "binding_get b var = slot_get var (b_vars b)"

definition binding_set_edge :: "binding \<Rightarrow> string \<Rightarrow> pmm_edge \<Rightarrow> binding" where
  "binding_set_edge b var edge = b\<lparr>b_edges := slot_set CYP_MAX_EDGE_VARS var edge (b_edges b)\<rparr>"

definition binding_set :: "binding \<Rightarrow> string \<Rightarrow> pmm_node \<Rightarrow> binding" where
  "binding_set b var node = b\<lparr>b_vars := slot_set CYP_MAX_VARS var node (b_vars b)\<rparr>"

section \<open>The variable tables as bounded maps\<close>

text \<open>The contract: writing a name that is present, or any name while there is room, is a map
  update; writing a new name into a full table changes nothing.\<close>

locale bounded_table =
  fixes get :: "'b \<Rightarrow> string \<Rightarrow> 'v option"
    and put :: "'b \<Rightarrow> string \<Rightarrow> 'v \<Rightarrow> 'b"
    and used :: "'b \<Rightarrow> nat"
    and cap :: nat
  assumes get_put: "get b k \<noteq> None \<or> used b < cap \<Longrightarrow>
      get (put b k v) k' = (if k' = k then Some v else get b k')"
    and put_full: "get b k = None \<Longrightarrow> cap \<le> used b \<Longrightarrow> put b k v = b"
    and used_put: "used (put b k v) = (if get b k = None \<and> used b < cap then Suc (used b) else used b)"
begin

lemma get_put_same: "get b k \<noteq> None \<or> used b < cap \<Longrightarrow> get (put b k v) k = Some v"
  by (simp add: get_put)

lemma get_put_other: "k' \<noteq> k \<Longrightarrow> get (put b k v) k' = get b k'"
  by (cases "get b k \<noteq> None \<or> used b < cap") (auto simp: get_put put_full)

lemma used_bound: "used b \<le> cap \<Longrightarrow> used (put b k v) \<le> cap"
  by (auto simp: used_put)

text \<open>A name once bound stays bound, and a write never unbinds or changes another name.\<close>

lemma get_put_mono: "get b k' \<noteq> None \<Longrightarrow> get (put b k v) k' \<noteq> None"
  by (cases "k' = k") (simp_all add: get_put get_put_other)

end

lemma slot_overwrite_None: "slot_overwrite k v xs = None \<longleftrightarrow> slot_get k xs = None"
  by (induction xs rule: slot_get.induct) auto

lemma slot_overwrite_Some:
  "slot_overwrite k v xs = Some ys \<Longrightarrow>
   length ys = length xs \<and> (\<forall>k'. slot_get k' ys = (if k' = k then Some v else slot_get k' xs))"
  by (induction xs arbitrary: ys rule: slot_get.induct) (auto split: if_splits)

lemma slot_get_append:
  "slot_get k (xs @ ys) = (case slot_get k xs of None \<Rightarrow> slot_get k ys | Some v \<Rightarrow> Some v)"
  by (induction xs rule: slot_get.induct) auto

lemma slot_get_set:
  assumes "slot_get k xs \<noteq> None \<or> length xs < cap"
  shows "slot_get k' (slot_set cap k v xs) = (if k' = k then Some v else slot_get k' xs)"
  using assms slot_overwrite_None [of k v xs] slot_overwrite_Some [of k v xs]
  by (auto simp: slot_set_def slot_get_append split: option.splits)

lemma slot_set_full: "slot_get k xs = None \<Longrightarrow> cap \<le> length xs \<Longrightarrow> slot_set cap k v xs = xs"
  using slot_overwrite_None [of k v xs] by (simp add: slot_set_def)

lemma length_slot_set:
  "length (slot_set cap k v xs) =
     (if slot_get k xs = None \<and> length xs < cap then Suc (length xs) else length xs)"
  using slot_overwrite_None [of k v xs] slot_overwrite_Some [of k v xs]
  by (auto simp: slot_set_def split: option.splits)

interpretation node_vars: bounded_table binding_get binding_set "\<lambda>b. length (b_vars b)" CYP_MAX_VARS
  by unfold_locales
    (simp_all add: binding_get_def binding_set_def slot_get_set slot_set_full length_slot_set)

interpretation edge_vars: bounded_table binding_get_edge binding_set_edge
    "\<lambda>b. length (b_edges b)" CYP_MAX_EDGE_VARS
  by unfold_locales
    (simp_all add: binding_get_edge_def binding_set_edge_def slot_get_set slot_set_full length_slot_set)

text \<open>The two tables do not interfere.\<close>

lemma binding_set_frame [simp]:
  "binding_get_edge (binding_set b v n) w = binding_get_edge b w"
  "binding_get (binding_set_edge b v e) w = binding_get b w"
  "b_store (binding_set b v n) = b_store b"
  "b_store (binding_set_edge b v e) = b_store b"
  "b_edges (binding_set b v n) = b_edges b"
  "b_vars (binding_set_edge b v e) = b_vars b"
  by (simp_all add: binding_get_edge_def binding_get_def binding_set_def binding_set_edge_def)

end
