(* ===== verification/Cyp_Double.thy ===== *)
theory Cyp_Double
  imports Cyp_Digits
begin

text \<open>
  The doubles of the engine (src/src/cypher/cypher.c): IEEE 754 binary64 values as sign,
  mantissa and exponent, with the operations the source uses of C and its library: \<open>strtod\<close>,
  the comparisons, the sum and the quotient of an aggregation, \<open>printf\<close> with \<open>%g\<close> and
  \<open>%.10g\<close>, the conversion to \<open>long long\<close>, and \<open>strtoll\<close> with its end pointer.  Rounding is to
  nearest, ties to even, as in the default environment.
\<close>

text \<open>\<open>DFin neg m e\<close> is \<open>(-1)^neg * m * 2^e\<close>.\<close>

datatype dbl = DFin bool nat int | DInf bool | DNan bool

section \<open>Rounding\<close>

fun bitlen :: "nat \<Rightarrow> nat" where
  "bitlen n = (if n = 0 then 0 else Suc (bitlen (n div 2)))"

declare bitlen.simps [simp del]

text \<open>The quotient of two naturals, rounded to nearest with ties to even.\<close>

definition round_quot :: "nat \<Rightarrow> nat \<Rightarrow> nat" where
  "round_quot n d = (let q = n div d; r = n mod d in
                     if d < 2 * r \<or> (2 * r = d \<and> odd q) then q + 1 else q)"

text \<open>Numerator and denominator of \<open>n / (d * 2^e)\<close>.\<close>

definition scaled :: "nat \<Rightarrow> nat \<Rightarrow> int \<Rightarrow> nat \<times> nat" where
  "scaled n d e = (if 0 \<le> e then (n, d * 2 ^ nat e) else (n * 2 ^ nat (- e), d))"

text \<open>The double nearest to \<open>n / d\<close>: 53 bits of mantissa, exponents from -1074 to 971.\<close>

definition round_rat :: "bool \<Rightarrow> nat \<Rightarrow> nat \<Rightarrow> dbl" where
  "round_rat neg n d =
     (if n = 0 then DFin neg 0 0 else
      (let e0 = int (bitlen n) - int (bitlen d) - 53;
           (n0, d0) = scaled n d e0;
           e1 = (if 2 ^ 53 \<le> n0 div d0 then e0 + 1 else e0);
           e = max e1 (-1074);
           (n1, d1) = scaled n d e;
           m = round_quot n1 d1;
           (m', e') = (if m = 2 ^ 53 then (2 ^ 52, e + 1) else (m, e))
       in if 971 < e' then DInf neg else DFin neg m' e'))"

section \<open>strtod and strtoll\<close>

definition c_isxdigit :: "char \<Rightarrow> bool" where
  "c_isxdigit c \<longleftrightarrow> c_isdigit c \<or> (97 \<le> (of_char (c_tolower c) :: nat) \<and>
                                  (of_char (c_tolower c) :: nat) \<le> 102)"

definition xdigit_value :: "char \<Rightarrow> nat" where
  "xdigit_value c = (if c_isdigit c then of_char c - 48 else of_char (c_tolower c) - 87)"

definition dec_value :: "string \<Rightarrow> nat" where
  "dec_value s = foldl (\<lambda>a c. 10 * a + (of_char c - 48)) 0 s"

definition hex_value :: "string \<Rightarrow> nat" where
  "hex_value s = foldl (\<lambda>a c. 16 * a + xdigit_value c) 0 s"

text \<open>A sign in front, as \<open>(negative, rest)\<close>.\<close>

definition split_sign :: "string \<Rightarrow> bool \<times> string" where
  "split_sign s = (case s of
                     c # cs \<Rightarrow> if c = CHR ''-'' then (True, cs)
                               else if c = CHR ''+'' then (False, cs) else (False, s)
                   | [] \<Rightarrow> (False, s))"

text \<open>The exponent after the letter \<open>x\<close>, 0 if there is none.\<close>

definition exponent_part :: "char \<Rightarrow> string \<Rightarrow> int" where
  "exponent_part x s =
     (case s of
        c # cs \<Rightarrow>
          if c_tolower c = x then
            (let (neg, r) = split_sign cs; v = int (dec_value (takeWhile c_isdigit r))
             in if neg then - v else v)
          else 0
      | [] \<Rightarrow> 0)"

text \<open>Digits with at most one dot: integer part, fraction, rest.\<close>

definition split_number :: "(char \<Rightarrow> bool) \<Rightarrow> string \<Rightarrow> string \<times> string \<times> string" where
  "split_number P s =
     (let ip = takeWhile P s; r = dropWhile P s in
      case r of
        c # cs \<Rightarrow> if c = CHR ''.'' then (ip, takeWhile P cs, dropWhile P cs) else (ip, [], r)
      | [] \<Rightarrow> (ip, [], r))"

definition power_rat :: "bool \<Rightarrow> nat \<Rightarrow> nat \<Rightarrow> int \<Rightarrow> dbl" where
  "power_rat neg m base k =
     (if 0 \<le> k then round_rat neg (m * base ^ nat k) 1 else round_rat neg m (base ^ nat (- k)))"

text \<open>The value and whether anything was converted (\<open>end \<noteq> s\<close>).\<close>

definition strtod :: "string \<Rightarrow> dbl \<times> bool" where
  "strtod s =
     (let (neg, t) = split_sign (dropWhile c_isspace s);
          low = map c_tolower t;
          (hi, hf, hr) = split_number c_isxdigit (drop 2 t);
          (di, df, dr) = split_number c_isdigit t
      in if starts_with ''inf'' low then (DInf neg, True)
         else if starts_with ''nan'' low then (DNan neg, True)
         else if starts_with ''0x'' low \<and> hi @ hf \<noteq> [] then
           (power_rat neg (hex_value (hi @ hf)) 2 (exponent_part (CHR ''p'') hr - 4 * int (length hf)), True)
         else if di @ df \<noteq> [] then
           (power_rat neg (dec_value (di @ df)) 10 (exponent_part (CHR ''e'') dr - int (length df)), True)
         else (DFin False 0 0, False))"

definition strtoll_converts :: "string \<Rightarrow> bool" where
  "strtoll_converts s \<longleftrightarrow> takeWhile c_isdigit (snd (split_sign (dropWhile c_isspace s))) \<noteq> []"

section \<open>Arithmetic\<close>

definition signed :: "bool \<Rightarrow> nat \<Rightarrow> int" where
  "signed neg m = (if neg then - int m else int m)"

definition dbl_of_int :: "int \<Rightarrow> dbl" where
  "dbl_of_int v = round_rat (v < 0) (nat \<bar>v\<bar>) 1"

text \<open>\<open>CYP_DBL_MAX\<close>, 1e308.\<close>

definition cyp_dbl_max :: "bool \<Rightarrow> dbl" where
  "cyp_dbl_max neg = round_rat neg (10 ^ 308) 1"

definition dbl_less :: "dbl \<Rightarrow> dbl \<Rightarrow> bool" where
  "dbl_less a b =
     (case (a, b) of
        (DFin n1 m1 e1, DFin n2 m2 e2) \<Rightarrow>
          (let k = min e1 e2 in
           signed n1 m1 * 2 ^ nat (e1 - k) < signed n2 m2 * 2 ^ nat (e2 - k))
      | (DFin _ _ _, DInf neg) \<Rightarrow> \<not> neg
      | (DInf neg, DFin _ _ _) \<Rightarrow> neg
      | (DInf n1, DInf n2) \<Rightarrow> n1 \<and> \<not> n2
      | _ \<Rightarrow> False)"

definition dbl_eq :: "dbl \<Rightarrow> dbl \<Rightarrow> bool" where
  "dbl_eq a b =
     (case (a, b) of
        (DFin n1 m1 e1, DFin n2 m2 e2) \<Rightarrow>
          (let k = min e1 e2 in
           signed n1 m1 * 2 ^ nat (e1 - k) = signed n2 m2 * 2 ^ nat (e2 - k))
      | (DInf n1, DInf n2) \<Rightarrow> n1 = n2
      | _ \<Rightarrow> False)"

definition dbl_le :: "dbl \<Rightarrow> dbl \<Rightarrow> bool" where
  "dbl_le a b \<longleftrightarrow> dbl_less a b \<or> dbl_eq a b"

definition dbl_add :: "dbl \<Rightarrow> dbl \<Rightarrow> dbl" where
  "dbl_add a b =
     (case (a, b) of
        (DNan n, _) \<Rightarrow> DNan n
      | (_, DNan n) \<Rightarrow> DNan n
      | (DInf n1, DInf n2) \<Rightarrow> if n1 = n2 then DInf n1 else DNan True
      | (DInf n, _) \<Rightarrow> DInf n
      | (_, DInf n) \<Rightarrow> DInf n
      | (DFin n1 m1 e1, DFin n2 m2 e2) \<Rightarrow>
          (let k = min e1 e2;
               v = signed n1 m1 * 2 ^ nat (e1 - k) + signed n2 m2 * 2 ^ nat (e2 - k)
           in if v = 0 then DFin (n1 \<and> n2) 0 0
              else if 0 \<le> k then round_rat (v < 0) (nat \<bar>v\<bar> * 2 ^ nat k) 1
              else round_rat (v < 0) (nat \<bar>v\<bar>) (2 ^ nat (- k))))"

text \<open>The quotient by a positive count.\<close>

definition dbl_div_count :: "dbl \<Rightarrow> nat \<Rightarrow> dbl" where
  "dbl_div_count a c =
     (case a of
        DFin neg m e \<Rightarrow> if 0 \<le> e then round_rat neg (m * 2 ^ nat e) c
                        else round_rat neg m (c * 2 ^ nat (- e))
      | _ \<Rightarrow> a)"

text \<open>\<open>(long long) d\<close>: truncation; out of range (undefined in C) the value of x86-64.\<close>

definition dbl_to_ll :: "dbl \<Rightarrow> int" where
  "dbl_to_ll a =
     (case a of
        DFin neg m e \<Rightarrow>
          (let v = (if 0 \<le> e then m * 2 ^ nat e else m div 2 ^ nat (- e)); i = signed neg v
           in if LONG_MIN \<le> i \<and> i \<le> LONG_MAX then i else LONG_MIN)
      | _ \<Rightarrow> LONG_MIN)"

section \<open>printf\<close>

definition strip_zeros :: "string \<Rightarrow> string" where
  "strip_zeros s = rev (dropWhile (\<lambda>c. c = CHR ''0'') (rev s))"

definition with_fraction :: "string \<Rightarrow> string \<Rightarrow> string" where
  "with_fraction i f = (if f = [] then i else i @ CHR ''.'' # f)"

text \<open>The decimal exponent of \<open>n / d\<close>: the \<open>x\<close> with \<open>10^x \<le> n / d < 10^(x+1)\<close>.\<close>

definition decimal_exponent :: "nat \<Rightarrow> nat \<Rightarrow> int" where
  "decimal_exponent n d =
     (if d \<le> n then int (length (nat_digits (n div d))) - 1
      else - int (let c = (d + n - 1) div n in if c \<le> 1 then 0 else length (nat_digits (c - 1))))"

definition show_exponent :: "int \<Rightarrow> string" where
  "show_exponent x =
     (let ds = nat_digits (nat \<bar>x\<bar>)
      in CHR ''e'' # (if x < 0 then CHR ''-'' else CHR ''+'') #
         (if length ds < 2 then CHR ''0'' # ds else ds))"

text \<open>The unsigned part of \<open>%.pg\<close> for \<open>n / d > 0\<close>.\<close>

definition fmt_g_pos :: "nat \<Rightarrow> nat \<Rightarrow> nat \<Rightarrow> string" where
  "fmt_g_pos p n d =
     (let x0 = decimal_exponent n d;
          k = x0 - int p + 1;
          r = (if 0 \<le> k then round_quot n (d * 10 ^ nat k) else round_quot (n * 10 ^ nat (- k)) d);
          (digs, x) = (if r = 10 ^ p then (10 ^ (p - 1), x0 + 1) else (r, x0));
          ds = nat_digits digs
      in if x < -4 \<or> int p \<le> x then
           with_fraction (take 1 ds) (strip_zeros (drop 1 ds)) @ show_exponent x
         else if 0 \<le> x then
           with_fraction (take (nat x + 1) ds) (strip_zeros (drop (nat x + 1) ds))
         else with_fraction ''0'' (replicate (nat (- x) - 1) (CHR ''0'') @ strip_zeros ds))"

definition fmt_g :: "nat \<Rightarrow> dbl \<Rightarrow> string" where
  "fmt_g p a =
     (case a of
        DNan neg \<Rightarrow> (if neg then ''-nan'' else ''nan'')
      | DInf neg \<Rightarrow> (if neg then ''-inf'' else ''inf'')
      | DFin neg m e \<Rightarrow>
          (if neg then ''-'' else []) @
          (if m = 0 then ''0''
           else if 0 \<le> e then fmt_g_pos p (m * 2 ^ nat e) 1
           else fmt_g_pos p m (2 ^ nat (- e))))"

section \<open>Decimal digits\<close>

lemma dec_value_nat_digits: "dec_value (nat_digits n) = n"
proof (induction n rule: less_induct)
  case (less n)
  show ?case
  proof (cases "n < 10")
    case True
    then show ?thesis by (simp add: nat_digits_rec [of n] dec_value_def digit_char)
  next
    case False
    then have "dec_value (nat_digits (n div 10)) = n div 10" by (intro less) simp
    then show ?thesis
      using False by (simp add: nat_digits_rec [of n] dec_value_def digit_char)
  qed
qed

lemma digits_split: "split_number c_isdigit (nat_digits n) = (nat_digits n, [], [])"
proof -
  have t: "takeWhile c_isdigit (nat_digits n) = nat_digits n"
    using nat_digits_isdigit by (auto simp only: takeWhile_eq_all_conv)
  have d: "dropWhile c_isdigit (nat_digits n) = []"
    using nat_digits_isdigit by (auto simp only: dropWhile_eq_Nil_conv)
  show ?thesis unfolding split_number_def Let_def t d by simp
qed

lemma starts_with_hd: "starts_with (p # ps) s \<Longrightarrow> \<exists>t. s = p # t"
  by (cases s) auto

lemma digits_no_prefix:
  assumes "\<forall>c\<in>set s. c_isdigit c" "\<exists>q\<in>set p. \<not> c_isdigit q"
  shows "\<not> starts_with p (map c_tolower s)"
proof
  assume "starts_with p (map c_tolower s)"
  then obtain t where "map c_tolower s = p @ t" by (auto simp: starts_with_iff)
  then have "set p \<subseteq> c_tolower ` set s" by (metis Un_upper1 set_append set_map)
  moreover have "c_tolower c = c" if "c_isdigit c" for c
    using that by (simp add: c_tolower_def c_isdigit_def)
  ultimately show False using assms by fastforce
qed

lemma strtod_nat_digits:
  "strtod (nat_digits n) = (round_rat False n 1, True)"
  "strtod (CHR ''-'' # nat_digits n) = (round_rat True n 1, True)"
proof -
  obtain c cs where d: "nat_digits n = c # cs" by (cases "nat_digits n") auto
  then have c: "c_isdigit c" using nat_digits_isdigit [of c n] by simp
  have np: "\<not> starts_with ''inf'' (map c_tolower (nat_digits n))"
    "\<not> starts_with ''nan'' (map c_tolower (nat_digits n))"
    "\<not> starts_with ''0x'' (map c_tolower (nat_digits n))"
    by (rule digits_no_prefix; use nat_digits_isdigit in \<open>auto simp: c_isdigit_def\<close>)+
  have s: "dropWhile c_isspace (nat_digits n) = nat_digits n" "split_sign (nat_digits n) = (False, nat_digits n)"
    "dropWhile c_isspace (CHR ''-'' # nat_digits n) = CHR ''-'' # nat_digits n"
    "split_sign (CHR ''-'' # nat_digits n) = (True, nat_digits n)"
    using c digit_not_space [OF c] by (auto simp: d split_sign_def c_isdigit_def c_isspace_def)
  show "strtod (nat_digits n) = (round_rat False n 1, True)"
    "strtod (CHR ''-'' # nat_digits n) = (round_rat True n 1, True)"
    using np by (simp_all add: strtod_def c_isspace_def [of "CHR ''-''"] s digits_split Let_def dec_value_nat_digits
        exponent_part_def power_rat_def split: prod.split)
qed

lemma strtod_show_int: "strtod (show_int v) = (dbl_of_int v, True)"
  by (simp add: show_int_def strtod_nat_digits dbl_of_int_def)

section \<open>Integers of at most 53 bits\<close>

lemma bitlen_1 [simp]: "bitlen (Suc 0) = Suc 0"
  by (subst bitlen.simps, subst bitlen.simps) simp

lemma bitlen_bounds: "0 < n \<Longrightarrow> 2 ^ (bitlen n - 1) \<le> n \<and> n < 2 ^ bitlen n \<and> 0 < bitlen n"
proof (induction n rule: bitlen.induct)
  case (1 n)
  show ?case
  proof (cases "n = 1")
    case True
    then show ?thesis by simp
  next
    case False
    then have IH: "2 ^ (bitlen (n div 2) - 1) \<le> n div 2" "n div 2 < 2 ^ bitlen (n div 2)"
      "0 < bitlen (n div 2)"
      using 1 by auto
    then obtain b where b: "bitlen (n div 2) = Suc b" by (cases "bitlen (n div 2)") auto
    then show ?thesis using IH 1(2) by (auto simp: bitlen.simps [of n])
  qed
qed

lemma bitlen_le: "n < 2 ^ k \<Longrightarrow> bitlen n \<le> k"
proof (rule ccontr)
  assume n: "n < 2 ^ k" "\<not> bitlen n \<le> k"
  then have "0 < n" by (cases n) (auto simp: bitlen.simps [of 0])
  then have "2 ^ (bitlen n - 1) \<le> n" using bitlen_bounds by blast
  moreover have "(2 :: nat) ^ k \<le> 2 ^ (bitlen n - 1)" using n(2) by (intro power_increasing) auto
  ultimately show False using n(1) by linarith
qed

lemma round_quot_1 [simp]: "round_quot n (Suc 0) = n"
  by (simp add: round_quot_def)

lemma round_rat_int:
  assumes "0 < n" "n < 2 ^ 53"
  shows "\<exists>k. round_rat neg n 1 = DFin neg (n * 2 ^ k) (- int k)"
proof -
  define b where "b = bitlen n"
  have b: "2 ^ (b - 1) \<le> n" "n < 2 ^ b" "0 < b" "b \<le> 53"
    using bitlen_bounds [OF assms(1)] bitlen_le [OF assms(2)] by (auto simp: b_def)
  have e0: "int b - 1 - 53 < 0" using b(4) by simp
  have n0: "scaled n 1 (int b - 1 - 53) = (n * 2 ^ (54 - b), 1)"
    using b(4) by (auto simp: scaled_def nat_diff_distrib intro!: arg_cong [of _ _ "\<lambda>k. 2 ^ k"])
  have "(2 :: nat) ^ 53 = 2 ^ (b - 1) * 2 ^ (54 - b)"
    using b by (simp flip: power_add)
  also have "\<dots> \<le> n * 2 ^ (54 - b)" using b(1) by simp
  finally have big: "2 ^ 53 \<le> n * 2 ^ (54 - b)" .
  have n1: "scaled n 1 (int b - 53) = (n * 2 ^ (53 - b), 1)"
    using b(4) by (auto simp: scaled_def nat_diff_distrib intro!: arg_cong [of _ _ "\<lambda>k. 2 ^ k"])
  have "n * 2 ^ (53 - b) < 2 ^ b * 2 ^ (53 - b)" using b(2) by simp
  also have "\<dots> = 2 ^ 53" using b(4) by (simp flip: power_add)
  finally have small: "n * 2 ^ (53 - b) \<noteq> 2 ^ 53" by simp
  have "round_rat neg n 1 = DFin neg (n * 2 ^ (53 - b)) (int b - 53)"
    using assms(1) b e0 n0 n1 big small
    unfolding round_rat_def by (simp add: b_def [symmetric] Let_def max_def)
  then show ?thesis using b(4) by (intro exI [of _ "53 - b"]) (simp add: of_nat_diff)
qed

lemma dbl_of_int_exact:
  assumes "\<bar>v\<bar> < 2 ^ 53"
  shows "\<exists>neg m k. dbl_of_int v = DFin neg m (- int k) \<and> signed neg m = v * 2 ^ k"
proof (cases "v = 0")
  case True
  then show ?thesis
    by (intro exI [of _ False] exI [of _ 0]) (simp add: dbl_of_int_def round_rat_def signed_def)
next
  case False
  then have "0 < nat \<bar>v\<bar>" "nat \<bar>v\<bar> < 2 ^ 53" using assms by (auto simp: nat_less_iff)
  then obtain k where "dbl_of_int v = DFin (v < 0) (nat \<bar>v\<bar> * 2 ^ k) (- int k)"
    using round_rat_int unfolding dbl_of_int_def by blast
  then show ?thesis by (auto simp: signed_def)
qed

lemma scale_power: "(x * 2 ^ a) * 2 ^ b = x * (2 :: int) ^ (a + b)"
  by (simp add: power_add)

lemma scale_less:
  assumes "a + b = c + (d :: nat)"
  shows "(x * 2 ^ a) * 2 ^ b < (y * 2 ^ c) * 2 ^ d \<longleftrightarrow> x < (y :: int)"
  unfolding scale_power assms by simp

lemma scale_eq:
  assumes "a + b = c + (d :: nat)"
  shows "(x * 2 ^ a) * 2 ^ b = (y * 2 ^ c) * 2 ^ d \<longleftrightarrow> x = (y :: int)"
  unfolding scale_power assms by simp

lemma dbl_compare_int:
  assumes "\<bar>v\<bar> < 2 ^ 53" "\<bar>w\<bar> < 2 ^ 53"
  shows "dbl_less (dbl_of_int v) (dbl_of_int w) \<longleftrightarrow> v < w"
    "dbl_eq (dbl_of_int v) (dbl_of_int w) \<longleftrightarrow> v = w"
    "dbl_le (dbl_of_int v) (dbl_of_int w) \<longleftrightarrow> v \<le> w"
proof -
  obtain n1 m1 k1 n2 m2 k2 where
    d: "dbl_of_int v = DFin n1 m1 (- int k1)" "signed n1 m1 = v * 2 ^ k1"
       "dbl_of_int w = DFin n2 m2 (- int k2)" "signed n2 m2 = w * 2 ^ k2"
    using dbl_of_int_exact [OF assms(1)] dbl_of_int_exact [OF assms(2)] by blast
  have s: "k1 + nat (- int k1 - min (- int k1) (- int k2)) =
      k2 + nat (- int k2 - min (- int k1) (- int k2))" by (cases "k1 \<le> k2") (auto simp: min_def)
  show l: "dbl_less (dbl_of_int v) (dbl_of_int w) \<longleftrightarrow> v < w"
    unfolding dbl_less_def d by (simp add: Let_def d scale_less [OF s])
  show e: "dbl_eq (dbl_of_int v) (dbl_of_int w) \<longleftrightarrow> v = w"
    unfolding dbl_eq_def d by (simp add: Let_def d scale_eq [OF s])
  show "dbl_le (dbl_of_int v) (dbl_of_int w) \<longleftrightarrow> v \<le> w"
    using l e by (auto simp: dbl_le_def)
qed

end
