(* ===== verification/Cyp_Eval.thy ===== *)
theory Cyp_Eval
  imports Cyp_Binding Cyp_Double Cyp_Parse_Expr
begin

text \<open>
  Values and conditions (src/src/cypher/cypher.c): the properties of nodes and edges, the scalar
  functions, and the evaluation of WHERE trees and CASE expressions against a binding.  The
  regular expression engine (src/src/foundation/compat_regex.c over the platform's regcomp)
  is the parameter \<open>rx\<close>: None if the pattern does not compile, else whether it matches.
  Values are the strings at the time of the call; the scratch buffers they live in are not
  modelled, but every length bound of a buffer is.
\<close>

type_synonym regex = "string \<Rightarrow> string \<Rightarrow> bool option"

section \<open>Properties\<close>

definition node_string_field :: "pmm_node \<Rightarrow> string \<Rightarrow> string option" where
  "node_string_field n prop =
     (if prop = ''name'' then Some (or_empty (n_name n))
      else if prop = ''qualified_name'' \<or> prop = ''qn'' then Some (or_empty (n_qualified_name n))
      else if prop = ''label'' then Some (or_empty (n_label n))
      else if prop = ''file_path'' \<or> prop = ''file'' \<or> prop = ''path''
        then Some (or_empty (n_file_path n))
      else None)"

text \<open>The three copying loops of \<open>json_extract_prop\<close>; \<open>r\<close> is the room left in the buffer.\<close>

fun json_copy_string :: "nat \<Rightarrow> string \<Rightarrow> string" where
  "json_copy_string 0 s = []"
| "json_copy_string (Suc r) [] = []"
| "json_copy_string (Suc r) (c # cs) =
     (if c = CHR 0x22 then []
      else if c = CHR 0x5C \<and> 0 < r then
        (case cs of
           [] \<Rightarrow> c # json_copy_string r cs
         | d # ds \<Rightarrow> c # d # json_copy_string (r - 1) ds)
      else c # json_copy_string r cs)"

fun json_copy_nested :: "char \<Rightarrow> char \<Rightarrow> int \<Rightarrow> bool \<Rightarrow> nat \<Rightarrow> string \<Rightarrow> string" where
  "json_copy_nested opn cls depth in_str 0 s = []"
| "json_copy_nested opn cls depth in_str (Suc r) [] = []"
| "json_copy_nested opn cls depth in_str (Suc r) (c # cs) =
     (if in_str then
        (if c = CHR 0x5C \<and> cs \<noteq> [] \<and> 0 < r then
           c # hd cs # json_copy_nested opn cls depth True (r - 1) (tl cs)
         else if c = CHR 0x22 then
           c # (if depth = 0 then [] else json_copy_nested opn cls depth False r cs)
         else c # json_copy_nested opn cls depth True r cs)
      else if c = CHR 0x22 then c # json_copy_nested opn cls depth True r cs
      else
        (let depth' = (if c = opn then depth + 1 else if c = cls then depth - 1 else depth)
         in c # (if depth' = 0 then [] else json_copy_nested opn cls depth' False r cs)))"

definition json_copy_scalar :: "nat \<Rightarrow> string \<Rightarrow> string" where
  "json_copy_scalar r s =
     take r (takeWhile (\<lambda>c. c \<noteq> CHR '','' \<and> c \<noteq> CHR ''}'' \<and> c \<noteq> CHR '' '') s)"

definition json_extract_prop :: "string option \<Rightarrow> string \<Rightarrow> nat \<Rightarrow> string" where
  "json_extract_prop json key buf_sz =
     (case json of
        None \<Rightarrow> []
      | Some j \<Rightarrow>
          (let pat = snprintf_buf 256 ([CHR 0x22] @ key @ [CHR 0x22, CHR '':'']) in
           case strstr j pat of
             None \<Rightarrow> []
           | Some p \<Rightarrow>
               (case dropWhile (\<lambda>c. c = CHR '' '' \<or> c = CHR 0x09) (drop (length pat) p) of
                  [] \<Rightarrow> []
                | c # cs \<Rightarrow>
                    if c = CHR 0x22 then json_copy_string (buf_sz - 1) cs
                    else if c = CHR ''['' then
                      json_copy_nested (CHR ''['') (CHR '']'') 0 False (buf_sz - 1) (c # cs)
                    else if c = CHR ''{'' then
                      json_copy_nested (CHR ''{'') (CHR ''}'') 0 False (buf_sz - 1) (c # cs)
                    else json_copy_scalar (buf_sz - 1) (c # cs))))"

text \<open>A property of the JSON column, if it starts like an object.\<close>

definition json_node_prop :: "pmm_node \<Rightarrow> string \<Rightarrow> string" where
  "json_node_prop n prop =
     (case n_properties_json n of
        Some (c # cs) \<Rightarrow> if c = CHR ''{'' then json_extract_prop (Some (c # cs)) prop 512 else []
      | _ \<Rightarrow> [])"

text \<open>The row of a WITH aggregation carries only id and name: the re-fetch of the other fields.\<close>

definition stub_refetch :: "store_ops \<Rightarrow> pmm_node \<Rightarrow> string \<Rightarrow> string" where
  "stub_refetch st n prop =
     (if 0 < n_id n \<and> n_file_path n = None \<and> n_label n = None then
        (case so_find_node_by_id st (n_id n) of
           None \<Rightarrow> []
         | Some full \<Rightarrow>
             (case node_string_field full prop of
                Some (c # cs) \<Rightarrow> snprintf_buf 512 (c # cs)
              | _ \<Rightarrow>
                  if prop = ''start_line'' then show_int (n_start_line full)
                  else if prop = ''end_line'' then show_int (n_end_line full)
                  else json_node_prop full prop))
      else [])"

definition computed_prop :: "store_ops option \<Rightarrow> pmm_node \<Rightarrow> string \<Rightarrow> string" where
  "computed_prop store n prop =
     (if prop = ''start_line'' then show_int (n_start_line n)
      else if prop = ''end_line'' then show_int (n_end_line n)
      else if store \<noteq> None \<and> prop = ''in_degree'' then
        show_int (fst (so_node_degree (the store) (n_id n)))
      else if store \<noteq> None \<and> prop = ''out_degree'' then
        show_int (snd (so_node_degree (the store) (n_id n)))
      else
        (case json_node_prop n prop of
           c # cs \<Rightarrow> c # cs
         | [] \<Rightarrow> (case store of None \<Rightarrow> [] | Some st \<Rightarrow> stub_refetch st n prop)))"

definition node_prop :: "pmm_node \<Rightarrow> string \<Rightarrow> store_ops option \<Rightarrow> string" where
  "node_prop n prop store =
     (case node_string_field n prop of
        Some (c # cs) \<Rightarrow> c # cs
      | _ \<Rightarrow> computed_prop store n prop)"

definition edge_prop :: "pmm_edge \<Rightarrow> string option \<Rightarrow> string" where
  "edge_prop e prop =
     (case prop of
        None \<Rightarrow> []
      | Some p \<Rightarrow> if p = ''type'' then or_empty (e_type e)
                  else json_extract_prop (e_properties_json e) p 512)"

section \<open>Variables of a row\<close>

text \<open>The name under which WITH stores a projected column: \<open>v.p\<close> or \<open>v\<close>, at most 255 bytes.\<close>

definition virtual_name :: "string \<Rightarrow> string option \<Rightarrow> string" where
  "virtual_name var prop =
     snprintf_buf 256 (case prop of None \<Rightarrow> var | Some p \<Rightarrow> var @ ''.'' @ p)"

definition binding_get_virtual :: "binding \<Rightarrow> string option \<Rightarrow> string option \<Rightarrow> string" where
  "binding_get_virtual b var prop =
     (case var of
        None \<Rightarrow> []
      | Some v \<Rightarrow>
          (case slot_get (virtual_name v prop) (b_vars b) of
             Some vn \<Rightarrow> or_empty (n_name vn)
           | None \<Rightarrow>
               (case binding_get_edge b v of
                  Some e \<Rightarrow> (case prop of
                               Some p \<Rightarrow> edge_prop e prop
                             | None \<Rightarrow> (case e_properties_json e of None \<Rightarrow> ''{}'' | Some j \<Rightarrow> j))
                | None \<Rightarrow>
                    (case binding_get b v of
                       Some n \<Rightarrow> (case prop of
                                    Some p \<Rightarrow> node_prop n p (b_store b)
                                  | None \<Rightarrow> or_empty (n_name n))
                     | None \<Rightarrow> []))))"

section \<open>Scalar functions\<close>

definition trim_char :: "char \<Rightarrow> bool" where
  "trim_char c \<longleftrightarrow> c = CHR '' '' \<or> c = CHR 0x09 \<or> c = CHR 0x0A \<or> c = CHR 0x0D"

definition c_to_integer :: "string \<Rightarrow> string" where
  "c_to_integer v =
     (if strtoll_converts v then show_int (strtol v)
      else (case strtod v of
              (d, True) \<Rightarrow> show_int (dbl_to_ll d)
            | (_, False) \<Rightarrow> []))"

definition apply_string_func :: "string option \<Rightarrow> string \<Rightarrow> nat \<Rightarrow> string" where
  "apply_string_func func v buf_sz =
     (case func of
        None \<Rightarrow> v
      | Some f \<Rightarrow>
          if f = ''toLower'' then take (buf_sz - 1) (map c_tolower v)
          else if f = ''toUpper'' then take (buf_sz - 1) (map c_toupper v)
          else if f = ''toString'' then v
          else if f = ''toInteger'' then snprintf_buf buf_sz (c_to_integer v)
          else if f = ''toFloat'' then
            (case strtod v of
               (d, True) \<Rightarrow> snprintf_buf buf_sz (fmt_g 6 d)
             | (_, False) \<Rightarrow> [])
          else if f = ''toBoolean'' then
            (if cyp_ci_eq (Some v) (Some ''true'') then ''true''
             else if cyp_ci_eq (Some v) (Some ''false'') then ''false'' else [])
          else if f = ''size'' \<or> f = ''length'' then snprintf_buf buf_sz (nat_digits (length v))
          else if f = ''trim'' \<or> f = ''ltrim'' \<or> f = ''rtrim'' then
            (let s = (if f \<noteq> ''rtrim'' then dropWhile trim_char v else v);
                 t = (if f \<noteq> ''ltrim'' then rev (dropWhile trim_char (rev s)) else s)
             in take (buf_sz - 1) t)
          else if f = ''reverse'' then rev (take (buf_sz - 1) v)
          else v)"

definition eval_func_arg :: "binding \<Rightarrow> func_arg \<Rightarrow> string" where
  "eval_func_arg b a =
     (case fa_literal a of
        Some l \<Rightarrow> l
      | None \<Rightarrow> binding_get_virtual b (fa_variable a) (fa_property a))"

definition coalesce_args :: "binding \<Rightarrow> func_arg list \<Rightarrow> string" where
  "coalesce_args b args =
     (case find (\<lambda>v. v \<noteq> []) (map (eval_func_arg b) args) of None \<Rightarrow> [] | Some v \<Rightarrow> v)"

definition c_substring :: "string \<Rightarrow> int \<Rightarrow> int option \<Rightarrow> nat \<Rightarrow> string" where
  "c_substring s start len bufsz =
     (if start < 0 \<or> int (length s) \<le> start then []
      else
        (let rest = drop (nat start) s;
             n = (case len of None \<Rightarrow> length rest | Some l \<Rightarrow> min (nat l) (length rest))
         in take (min n (bufsz - 1)) rest))"

definition c_left :: "string \<Rightarrow> int \<Rightarrow> nat \<Rightarrow> string" where
  "c_left s k bufsz = take (min (min (nat k) (length s)) (bufsz - 1)) s"

text \<open>The start is computed from \<open>take\<close> after it was cut to the buffer.\<close>

definition c_right :: "string \<Rightarrow> int \<Rightarrow> nat \<Rightarrow> string" where
  "c_right s k bufsz =
     (let n = min (min (nat k) (length s)) (bufsz - 1) in take n (drop (length s - n) s))"

text \<open>The loop of \<open>replace\<close>; \<open>r\<close> is the room left.\<close>

function replace_loop :: "string \<Rightarrow> string \<Rightarrow> nat \<Rightarrow> string \<Rightarrow> string" where
  "replace_loop from to r pp =
     (if pp = [] \<or> r = 0 \<or> from = [] then []
      else if starts_with from pp then
        take r to @ replace_loop from to (r - length (take r to)) (drop (length from) pp)
      else hd pp # replace_loop from to (r - 1) (tl pp))"
  by pat_completeness auto
termination
  by (relation "measure (\<lambda>(from, to, r, pp). length pp)") auto

declare replace_loop.simps [simp del]

definition c_replace :: "string \<Rightarrow> string \<Rightarrow> string \<Rightarrow> nat \<Rightarrow> string" where
  "c_replace s from to bufsz =
     (if from = [] then snprintf_buf bufsz s else replace_loop from to (bufsz - 1) s)"

definition eval_multiarg_func :: "binding \<Rightarrow> return_item \<Rightarrow> nat \<Rightarrow> string" where
  "eval_multiarg_func b item bufsz =
     (let f = deref (ri_func item);
          args = (case ri_args item of None \<Rightarrow> [] | Some a \<Rightarrow> a);
          n = length args;
          arg = (\<lambda>i. eval_func_arg b (args ! i))
      in if f = ''coalesce'' then coalesce_args b args
         else if f = ''substring'' \<and> 2 \<le> n then
           c_substring (arg 0) (strtol (arg 1)) (if 3 \<le> n then Some (strtol (arg 2)) else None) bufsz
         else if (f = ''left'' \<or> f = ''right'') \<and> 2 \<le> n then
           (if f = ''left'' then c_left (arg 0) (strtol (arg 1)) bufsz
            else c_right (arg 0) (strtol (arg 1)) bufsz)
         else if f = ''replace'' \<and> 3 \<le> n then c_replace (arg 0) (arg 1) (arg 2) bufsz
         else [])"

section \<open>Conditions\<close>

definition resolve_condition_value :: "condition \<Rightarrow> binding \<Rightarrow> string option" where
  "resolve_condition_value c b =
     (case cn_func c of
        Some f \<Rightarrow>
          Some (eval_multiarg_func b
                  (empty_return_item\<lparr>ri_variable := cn_variable c, ri_property := cn_property c,
                     ri_func := Some f, ri_args := Some (cn_args c)\<rparr>) 512)
      | None \<Rightarrow>
          (case binding_get_edge b (deref (cn_variable c)) of
             Some e \<Rightarrow> Some (edge_prop e (cn_property c))
           | None \<Rightarrow>
               (case binding_get b (deref (cn_variable c)) of
                  None \<Rightarrow> None
                | Some n \<Rightarrow>
                    (case cn_property c of
                       Some p \<Rightarrow> Some (node_prop n p (b_store b))
                     | None \<Rightarrow> Some (or_empty (n_name n))))))"

definition ends_with :: "string \<Rightarrow> string \<Rightarrow> bool" where
  "ends_with s t \<longleftrightarrow> length t \<le> length s \<and> drop (length s - length t) s = t"

definition eval_comparison_op :: "regex \<Rightarrow> string \<Rightarrow> string \<Rightarrow> string \<Rightarrow> bool" where
  "eval_comparison_op rx op actual expected =
     (if op = ''='' then strcmp actual expected = 0
      else if op = ''<>'' then strcmp actual expected \<noteq> 0
      else if op = ''=~'' then (case rx expected actual of None \<Rightarrow> False | Some m \<Rightarrow> m)
      else if op = ''CONTAINS'' then strstr actual expected \<noteq> None
      else if op = ''STARTS WITH'' then starts_with expected actual
      else if op = ''ENDS WITH'' then ends_with actual expected
      else if op = ''>='' then dbl_le (fst (strtod expected)) (fst (strtod actual))
      else if op = ''<='' then dbl_le (fst (strtod actual)) (fst (strtod expected))
      else if op = ''>'' then dbl_less (fst (strtod expected)) (fst (strtod actual))
      else if op = ''<'' then dbl_less (fst (strtod actual)) (fst (strtod expected))
      else False)"

text \<open>\<open>EXISTS { (v)-[:T]-() }\<close>.\<close>

definition exists_edge :: "store_ops \<Rightarrow> int \<Rightarrow> string option \<Rightarrow> int \<Rightarrow> bool" where
  "exists_edge st i ty dir =
     (let outs = (case ty of Some t \<Rightarrow> so_find_edges_by_source_type st i t
                           | None \<Rightarrow> so_find_edges_by_source st i);
          ins = (case ty of Some t \<Rightarrow> so_find_edges_by_target_type st i t
                          | None \<Rightarrow> so_find_edges_by_target st i)
      in (dir \<noteq> 1 \<and> outs \<noteq> []) \<or> (dir \<noteq> 0 \<and> ins \<noteq> []))"

text \<open>The value that the operator sees: what the left side resolves to, with the default of
  \<open>coalesce\<close> for a missing or empty one.\<close>

definition condition_actual :: "condition \<Rightarrow> binding \<Rightarrow> string option" where
  "condition_actual c b =
     (case resolve_condition_value c b of
        None \<Rightarrow> cn_coalesce_default c
      | Some v \<Rightarrow> if v = [] \<and> cn_coalesce_default c \<noteq> None then cn_coalesce_default c else Some v)"

definition eval_condition :: "regex \<Rightarrow> condition \<Rightarrow> binding \<Rightarrow> bool" where
  "eval_condition rx c b =
     (let op = deref (cn_op c);
          neg = (\<lambda>r. if cn_negated c then \<not> r else r)
      in if op = ''HAS_LABEL'' then
           neg (case binding_get b (deref (cn_variable c)) of
                  None \<Rightarrow> False
                | Some n \<Rightarrow> n_label n \<noteq> None \<and> cn_value c \<noteq> None \<and> n_label n = cn_value c)
         else if op = ''EXISTS'' then
           neg (case (binding_get b (deref (cn_variable c)), b_store b) of
                  (Some n, Some st) \<Rightarrow> exists_edge st (n_id n) (cn_value c) (cn_exists_dir c)
                | _ \<Rightarrow> False)
         else
           (case condition_actual c b of
              None \<Rightarrow> True
            | Some actual \<Rightarrow>
                if op = ''IS NULL'' then neg (actual = [])
                else if op = ''IS NOT NULL'' then neg (actual \<noteq> [])
                else if op = ''IN'' then neg (actual \<in> set (cn_in_values c))
                else neg (eval_comparison_op rx op actual (deref (cn_value c)))))"

fun eval_expr :: "regex \<Rightarrow> expr \<Rightarrow> binding \<Rightarrow> bool" where
  "eval_expr rx (EXPR_CONDITION c) b = eval_condition rx c b"
| "eval_expr rx (EXPR_AND l r) b = (eval_expr rx l b \<and> eval_expr rx r b)"
| "eval_expr rx (EXPR_OR l r) b = (eval_expr rx l b \<or> eval_expr rx r b)"
| "eval_expr rx (EXPR_NOT e) b = (\<not> eval_expr rx e b)"
| "eval_expr rx (EXPR_XOR l r) b = (eval_expr rx l b \<noteq> eval_expr rx r b)"

text \<open>The NULL check in front of the switch: no expression is true.\<close>

definition eval_opt_expr :: "regex \<Rightarrow> expr option \<Rightarrow> binding \<Rightarrow> bool" where
  "eval_opt_expr rx e b = (case e of None \<Rightarrow> True | Some x \<Rightarrow> eval_expr rx x b)"

fun flat_conditions :: "regex \<Rightarrow> bool \<Rightarrow> condition list \<Rightarrow> binding \<Rightarrow> bool" where
  "flat_conditions rx is_and [] b = is_and"
| "flat_conditions rx is_and (c # cs) b =
     (let r = eval_condition rx c b in
      if is_and \<and> \<not> r then False
      else if \<not> is_and \<and> r then True
      else flat_conditions rx is_and cs b)"

definition eval_where :: "regex \<Rightarrow> where_clause option \<Rightarrow> binding \<Rightarrow> bool" where
  "eval_where rx w b =
     (case w of
        None \<Rightarrow> True
      | Some wc \<Rightarrow>
          (case wh_root wc of
             Some e \<Rightarrow> eval_expr rx e b
           | None \<Rightarrow> if wh_conditions wc = [] then True
                     else flat_conditions rx (wh_op wc = Some ''AND'') (wh_conditions wc) b))"

fun case_branches :: "regex \<Rightarrow> case_branch list \<Rightarrow> binding \<Rightarrow> string option" where
  "case_branches rx [] b = None"
| "case_branches rx (k # ks) b =
     (if eval_opt_expr rx (cb_when_expr k) b then Some (or_empty (cb_then_val k))
      else case_branches rx ks b)"

definition eval_case_expr :: "regex \<Rightarrow> case_expr \<Rightarrow> binding \<Rightarrow> string" where
  "eval_case_expr rx k b =
     (case case_branches rx (ce_branches k) b of
        Some v \<Rightarrow> v
      | None \<Rightarrow> or_empty (ce_else_val k))"

section \<open>Inline property filters\<close>

definition looks_like_regex :: "string \<Rightarrow> bool" where
  "looks_like_regex s \<longleftrightarrow>
     strstr s ''.*'' \<noteq> None \<or> strstr s ''.+'' \<noteq> None \<or> strchr s (CHR ''['') \<or>
     strchr s (CHR ''('') \<or> strchr s (CHR ''|'') \<or> strchr s (CHR ''^'') \<or> strchr s (CHR ''$'')"

definition inline_prop_ok :: "regex \<Rightarrow> pmm_node \<Rightarrow> store_ops option \<Rightarrow> prop_filter \<Rightarrow> bool" where
  "inline_prop_ok rx n store p =
     (let actual = node_prop n (pf_key p) store in
      if looks_like_regex (pf_value p) then
        (case rx (pf_value p) actual of
           Some m \<Rightarrow> m
         | None \<Rightarrow> strcmp actual (pf_value p) = 0)
      else strcmp actual (pf_value p) = 0)"

definition check_inline_props ::
  "regex \<Rightarrow> pmm_node \<Rightarrow> prop_filter list \<Rightarrow> store_ops option \<Rightarrow> bool" where
  "check_inline_props rx n props store = list_all (inline_prop_ok rx n store) props"

end
