(* ===== verification/Cyp_Value_Facts.thy ===== *)
theory Cyp_Value_Facts
  imports Cyp_Eval
begin

text \<open>
  Facts on values: the loops that copy out of JSON, the
  room left in the buffers of the string functions, and label alternations as lists of segments.
\<close>

section \<open>JSON\<close>

text \<open>A byte that a plain JSON string holds as itself.\<close>

definition json_plain :: "string \<Rightarrow> bool" where
  "json_plain v \<longleftrightarrow> CHR 0x22 \<notin> set v \<and> CHR 0x5C \<notin> set v"

lemma json_copy_string_plain:
  "json_plain v \<Longrightarrow> length v \<le> r \<Longrightarrow> json_copy_string r (v @ CHR 0x22 # rest) = v"
proof (induction v arbitrary: r)
  case Nil
  then show ?case by (cases r) simp_all
next
  case (Cons c cs)
  then show ?case by (cases r) (auto simp: json_plain_def)
qed

lemma json_copy_string_length: "length (json_copy_string r s) \<le> r"
proof (induction r s rule: json_copy_string.induct)
  case (3 r c cs)
  then show ?case by (auto split: list.split)
qed simp_all

lemma json_copy_nested_length: "length (json_copy_nested opn cls d q r s) \<le> r"
proof (induction opn cls d q r s rule: json_copy_nested.induct)
  case (3 opn cls d q r c cs)
  then show ?case by (auto simp: Let_def)
qed simp_all

lemma json_extract_prop_length: "length (json_extract_prop j k n) \<le> n - 1"
  using json_copy_string_length json_copy_nested_length
  by (auto simp: json_extract_prop_def Let_def json_copy_scalar_def split: option.split list.split)

section \<open>Buffers of the string functions\<close>

lemma replace_loop_length: "length (replace_loop from to r pp) \<le> r"
proof (induction "from" to r pp rule: replace_loop.induct)
  case (1 "from" to r pp)
  then show ?case
    by (subst replace_loop.simps) (auto split: if_splits; fastforce)
qed

lemma snprintf_fits: "0 < n \<Longrightarrow> length (snprintf_buf n s) < n"
  using snprintf_buf_length [of n s] by linarith

lemma take_fits: "0 < n \<Longrightarrow> length (take (n - Suc 0) s) < n"
  by simp

end
