(* ===== verification/Cyp_State.thy ===== *)
theory Cyp_State
  imports Cyp_Eval
begin

text \<open>
  What an execution keeps besides its rows (src/src/cypher/cypher.c): the wall-clock deadline,
  the mark that a hop range was clamped, and - for the model only - whether the source would
  have written outside an array.  The outside world is the record \<open>engine\<close>: the regular
  expression engine, the successive readings of \<open>pmm_now_ms\<close>, the environment variable of the
  hop ceiling (src/src/foundation/limits.c) and the deadline override of the tests.
\<close>

record engine =
  en_regex :: regex
  en_now_ms :: "nat \<Rightarrow> int"
  en_max_depth_env :: "string option"
  en_deadline_override_ms :: int

record xstate =
  x_clock_reads :: nat
  x_deadline_ms :: int
  x_timed_out :: bool
  x_depth_clamped :: int
  x_out_of_bounds :: bool

abbreviation CYPHER_DEADLINE_BUDGET_MS :: int where "CYPHER_DEADLINE_BUDGET_MS \<equiv> 30000"
abbreviation CYPHER_RESULT_CEILING :: int where "CYPHER_RESULT_CEILING \<equiv> 100000"

text \<open>\<open>cypher_deadline_arm\<close>, with the clamp mark reset just before it.\<close>

definition cypher_deadline_arm :: "engine \<Rightarrow> xstate" where
  "cypher_deadline_arm E =
     \<lparr>x_clock_reads = 1,
      x_deadline_ms = en_now_ms E 0 +
        (if 0 \<le> en_deadline_override_ms E then en_deadline_override_ms E
         else CYPHER_DEADLINE_BUDGET_MS),
      x_timed_out = False, x_depth_clamped = 0, x_out_of_bounds = False\<rparr>"

definition cypher_deadline_exceeded :: "engine \<Rightarrow> xstate \<Rightarrow> bool \<times> xstate" where
  "cypher_deadline_exceeded E x =
     (if x_timed_out x then (True, x)
      else if x_deadline_ms x = 0 then (False, x)
      else
        (let x1 = x\<lparr>x_clock_reads := Suc (x_clock_reads x)\<rparr> in
         if x_deadline_ms x \<le> en_now_ms E (x_clock_reads x) then (True, x1\<lparr>x_timed_out := True\<rparr>)
         else (False, x1)))"

text \<open>The throttled check of the hot loops: every 1024 iterations.\<close>

definition deadline_sampled :: "engine \<Rightarrow> nat \<Rightarrow> xstate \<Rightarrow> bool \<times> xstate" where
  "deadline_sampled E i x = (if i mod 1024 = 0 then cypher_deadline_exceeded E x else (False, x))"

text \<open>A positive \<open>int\<close> from the environment, else the fallback.\<close>

definition env_positive_int :: "string option \<Rightarrow> int \<Rightarrow> int" where
  "env_positive_int raw fallback =
     (case raw of
        None \<Rightarrow> fallback
      | Some s \<Rightarrow>
          (let d = snd (split_sign (dropWhile c_isspace s)); v = digits_value 0 d in
           if strtoll_converts s \<and> list_all c_isdigit d \<and> LONG_MIN \<le> v \<and> v \<le> LONG_MAX \<and>
              0 < strtol s \<and> strtol s \<le> 2147483647
           then strtol s else fallback))"

definition pmm_cypher_max_depth :: "engine \<Rightarrow> int" where
  "pmm_cypher_max_depth E = env_positive_int (en_max_depth_env E) 10"

lemma pmm_cypher_max_depth_bounds: "1 \<le> pmm_cypher_max_depth E \<and> pmm_cypher_max_depth E \<le> 2147483647"
  by (auto simp: pmm_cypher_max_depth_def env_positive_int_def Let_def split: option.splits)

text \<open>The deadline is sticky, and nothing but the clock moves.\<close>

lemma deadline_exceeded_sticky: "x_timed_out x \<Longrightarrow> cypher_deadline_exceeded E x = (True, x)"
  by (simp add: cypher_deadline_exceeded_def)

lemma deadline_exceeded_frame:
  assumes "cypher_deadline_exceeded E x = (stop, y)"
  shows "x_out_of_bounds y = x_out_of_bounds x" "x_depth_clamped y = x_depth_clamped x"
    "x_deadline_ms y = x_deadline_ms x" "x_timed_out x \<Longrightarrow> x_timed_out y" "stop \<Longrightarrow> x_timed_out y"
    "\<not> stop \<Longrightarrow> \<not> x_timed_out y"
  using assms by (auto simp: cypher_deadline_exceeded_def Let_def split: if_splits)

lemma deadline_sampled_frame:
  assumes "deadline_sampled E i x = (stop, y)"
  shows "x_out_of_bounds y = x_out_of_bounds x" "x_depth_clamped y = x_depth_clamped x"
    "x_deadline_ms y = x_deadline_ms x" "x_timed_out x \<Longrightarrow> x_timed_out y" "stop \<Longrightarrow> x_timed_out y"
  using assms deadline_exceeded_frame [of E x stop y]
  by (auto simp: deadline_sampled_def split: if_splits)

end
