(* ===== verification/Cyp_Match.thy ===== *)
theory Cyp_Match
  imports Cyp_State
begin

text \<open>
  Matching (src/src/cypher/cypher.c): seeding nodes for a pattern, expanding relationships of
  one hop or a range of hops, OPTIONAL MATCH, and joining further patterns.  The arrays of new
  bindings are lists; their sizes are computed as in the source, and a write past one sets
  \<open>x_out_of_bounds\<close>, after which the model goes on as if the array had been large enough.  A push
  writes at the number of entries so far, so that a run of pushes has written past an array just
  when the array holds more entries than its size.
  Products that the source computes in \<open>int\<close> wrap at 32 bits.
\<close>

section \<open>Arrays\<close>

text \<open>The mark after pushes into an array of \<open>alloc\<close> entries.\<close>

definition check_array :: "int \<Rightarrow> binding list \<Rightarrow> xstate \<Rightarrow> xstate" where
  "check_array alloc news x = (if alloc < int (length news) then x\<lparr>x_out_of_bounds := True\<rparr> else x)"

definition push_binding :: "int \<Rightarrow> binding \<Rightarrow> binding list \<Rightarrow> xstate \<Rightarrow> binding list \<times> xstate" where
  "push_binding alloc nb news x = (news @ [nb], check_array alloc (news @ [nb]) x)"

section \<open>Seeding\<close>

text \<open>The loop over the segments of an alternation \<open>A|B|C\<close>.\<close>

function alt_loop :: "string \<Rightarrow> string \<Rightarrow> bool" where
  "alt_loop actual seg =
     (if seg = [] then False
      else if takeWhile (\<lambda>c. c \<noteq> CHR ''|'') seg = actual then True
      else (case dropWhile (\<lambda>c. c \<noteq> CHR ''|'') seg of
              [] \<Rightarrow> False
            | _ # rest \<Rightarrow> alt_loop actual rest))"
  by pat_completeness auto
termination
proof (relation "measure (\<lambda>(a, seg). length seg)")
  fix actual seg x rest
  assume "dropWhile (\<lambda>c. c \<noteq> CHR ''|'') seg = x # rest"
  then have "length (x # rest) \<le> length seg" by (metis length_dropWhile_le)
  then show "((actual, rest), actual, seg) \<in> measure (\<lambda>(a, seg). length seg)" by simp
qed simp

declare alt_loop.simps [simp del]

definition label_alt_matches :: "string option \<Rightarrow> string option \<Rightarrow> bool" where
  "label_alt_matches actual pat =
     (case pat of
        None \<Rightarrow> True
      | Some p \<Rightarrow>
          (case actual of
             None \<Rightarrow> False
           | Some a \<Rightarrow> if \<not> strchr p (CHR ''|'') then strcmp a p = 0 else alt_loop a p))"

text \<open>\<open>strtok_r\<close> with \<open>|\<close>: the segments that are not empty.\<close>

fun split_bar :: "string \<Rightarrow> string \<Rightarrow> string list" where
  "split_bar acc [] = [acc]"
| "split_bar acc (c # cs) = (if c = CHR ''|'' then acc # split_bar [] cs else split_bar (acc @ [c]) cs)"

definition scan_alternation_labels :: "store_ops \<Rightarrow> string option \<Rightarrow> string \<Rightarrow> pmm_node list" where
  "scan_alternation_labels S project labels =
     concat (map (so_find_nodes_by_label S project) [t \<leftarrow> split_bar [] labels. t \<noteq> []])"

definition scan_pattern_nodes ::
  "regex \<Rightarrow> store_ops \<Rightarrow> string option \<Rightarrow> int \<Rightarrow> node_pattern \<Rightarrow> pmm_node list" where
  "scan_pattern_nodes rx S project max_rows first =
     (let nodes = (case np_label first of
                     Some l \<Rightarrow> if strchr l (CHR ''|'') then scan_alternation_labels S project l
                               else so_find_nodes_by_label S project l
                   | None \<Rightarrow> so_search S project (int32 (max_rows * 10)))
      in if np_props first \<noteq> [] then [n \<leftarrow> nodes. check_inline_props rx n (np_props first) (Some S)]
         else nodes)"

section \<open>One hop\<close>

text \<open>What the body of the loop of \<open>process_edges\<close> makes of an edge: the new binding, or None
  for each of its \<open>continue\<close>s.\<close>

definition edge_binding ::
  "regex \<Rightarrow> store_ops \<Rightarrow> bool \<Rightarrow> node_pattern \<Rightarrow> binding \<Rightarrow> string \<Rightarrow> string option \<Rightarrow> pmm_edge \<Rightarrow>
   binding option" where
  "edge_binding rx S inbound target b to_var rel_var e =
     (let tid = (if inbound then e_source_id e else e_target_id e) in
      if binding_get b to_var \<noteq> None \<and> tid \<noteq> n_id (the (binding_get b to_var)) then None
      else
        (case so_find_node_by_id S tid of
           None \<Rightarrow> None
         | Some found \<Rightarrow>
             if np_label target \<noteq> None \<and> \<not> label_alt_matches (n_label found) (np_label target) then None
             else if \<not> check_inline_props rx found (np_props target) (Some S) then None
             else
               (let nb = binding_set b to_var found in
                Some (case rel_var of Some v \<Rightarrow> binding_set_edge nb v e | None \<Rightarrow> nb))))"

text \<open>A loop that appends to an array while it has fewer than \<open>max_new\<close> entries.\<close>

fun append_while :: "int \<Rightarrow> ('e \<Rightarrow> 'b option) \<Rightarrow> 'e list \<Rightarrow> 'b list \<Rightarrow> 'b list" where
  "append_while max_new f [] news = news"
| "append_while max_new f (e # es) news =
     (if max_new \<le> int (length news) then news
      else append_while max_new f es (case f e of None \<Rightarrow> news | Some nb \<Rightarrow> news @ [nb]))"

definition process_edges ::
  "regex \<Rightarrow> store_ops \<Rightarrow> pmm_edge list \<Rightarrow> bool \<Rightarrow> node_pattern \<Rightarrow> binding \<Rightarrow> string \<Rightarrow> string option \<Rightarrow>
   int \<Rightarrow> binding list \<Rightarrow> binding list" where
  "process_edges rx S edges inbound target b to_var rel_var max_new news =
     append_while max_new (edge_binding rx S inbound target b to_var rel_var) edges news"

definition expand_fixed_length ::
  "regex \<Rightarrow> store_ops \<Rightarrow> rel_pattern \<Rightarrow> node_pattern \<Rightarrow> binding \<Rightarrow> pmm_node \<Rightarrow> string \<Rightarrow> int \<Rightarrow>
   binding list \<Rightarrow> binding list" where
  "expand_fixed_length rx S rel target b src to_var max_new news =
     (let is_inbound = (rp_direction rel = Some ''inbound'');
          is_any = (rp_direction rel = Some ''any'');
          go = (\<lambda>inb edges nw. process_edges rx S edges inb target b to_var (rp_variable rel) max_new nw)
      in if rp_types rel \<noteq> [] then
           (let news1 = foldl (\<lambda>nw t. go is_inbound
                                 (if is_inbound then so_find_edges_by_target_type S (n_id src) t
                                  else so_find_edges_by_source_type S (n_id src) t) nw)
                          news (rp_types rel)
            in if is_any then
                 foldl (\<lambda>nw t. go True (so_find_edges_by_target_type S (n_id src) t) nw) news1 (rp_types rel)
               else news1)
         else
           (let news1 = go is_inbound (if is_inbound then so_find_edges_by_target S (n_id src)
                                       else so_find_edges_by_source S (n_id src)) news
            in if is_any then go True (so_find_edges_by_target S (n_id src)) news1 else news1))"

section \<open>A range of hops\<close>

definition hop_binding ::
  "regex \<Rightarrow> store_ops \<Rightarrow> rel_pattern \<Rightarrow> node_pattern \<Rightarrow> binding \<Rightarrow> string \<Rightarrow> pmm_node \<times> int \<Rightarrow>
   binding option" where
  "hop_binding rx S rel target b to_var nh =
     (case nh of (node, hop) \<Rightarrow>
        if hop < rp_min_hops rel then None
        else if np_label target \<noteq> None \<and> \<not> label_alt_matches (n_label node) (np_label target) then None
        else if \<not> check_inline_props rx node (np_props target) (Some S) then None
        else Some (binding_set b to_var node))"

definition expand_var_length ::
  "engine \<Rightarrow> store_ops \<Rightarrow> rel_pattern \<Rightarrow> node_pattern \<Rightarrow> binding \<Rightarrow> pmm_node \<Rightarrow> string \<Rightarrow> int \<Rightarrow>
   binding list \<Rightarrow> xstate \<Rightarrow> binding list \<times> xstate" where
  "expand_var_length E S rel target b src to_var max_new news x =
     (let depth_cap = pmm_cypher_max_depth E;
          asked = (if 0 < rp_max_hops rel then rp_max_hops rel else depth_cap);
          (max_depth, x1) = (if depth_cap < asked then (depth_cap, x\<lparr>x_depth_clamped := depth_cap\<rparr>)
                             else (asked, x));
          dir = (case rp_direction rel of Some d \<Rightarrow> d | None \<Rightarrow> ''outbound'');
          visited = so_bfs S (n_id src) dir (rp_types rel) max_depth 100
      in (append_while max_new (hop_binding (en_regex E) S rel target b to_var) visited news, x1))"

section \<open>The relationships of a pattern\<close>

definition is_variable_length :: "rel_pattern \<Rightarrow> bool" where
  "is_variable_length rel \<longleftrightarrow> rp_min_hops rel \<noteq> 1 \<or> rp_max_hops rel \<noteq> 1"

text \<open>The body of the loop over the bindings.\<close>

definition expand_one ::
  "engine \<Rightarrow> store_ops \<Rightarrow> rel_pattern \<Rightarrow> node_pattern \<Rightarrow> string \<Rightarrow> string \<Rightarrow> bool \<Rightarrow> int \<Rightarrow>
   binding \<Rightarrow> binding list \<Rightarrow> xstate \<Rightarrow> binding list \<times> xstate" where
  "expand_one E S rel target var_name to_var opt bind_cap b news x =
     (case binding_get b var_name of
        None \<Rightarrow> (news, x)
      | Some src \<Rightarrow>
          (let max_new = int32 (bind_cap * 10);
               alloc = bind_cap * 10 + 1;
               (news1, x1) =
                 (if is_variable_length rel
                  then expand_var_length E S rel target b src to_var max_new news x
                  else (expand_fixed_length (en_regex E) S rel target b src to_var max_new news, x));
               x2 = check_array alloc news1 x1
           in if opt \<and> length news1 = length news then push_binding alloc b news1 x2 else (news1, x2)))"

text \<open>The loop over the bindings for one relationship.\<close>

fun expand_bindings ::
  "engine \<Rightarrow> store_ops \<Rightarrow> rel_pattern \<Rightarrow> node_pattern \<Rightarrow> string \<Rightarrow> string \<Rightarrow> bool \<Rightarrow> int \<Rightarrow> nat \<Rightarrow>
   binding list \<Rightarrow> binding list \<Rightarrow> xstate \<Rightarrow> binding list \<times> xstate" where
  "expand_bindings E S rel target var_name to_var opt bind_cap bi [] news x = (news, x)"
| "expand_bindings E S rel target var_name to_var opt bind_cap bi (b # bs) news x =
     (case deadline_sampled E bi x of
        (True, x1) \<Rightarrow> (news, x1)
      | (False, x1) \<Rightarrow>
          (let (news1, x2) = expand_one E S rel target var_name to_var opt bind_cap b news x1
           in expand_bindings E S rel target var_name to_var opt bind_cap (Suc bi) bs news1 x2))"

text \<open>\<open>expand_pattern_rels\<close> over the relationships with their target nodes; the result is the
  bindings, the variable at the end of the path and the state.\<close>

fun expand_pattern_rels ::
  "engine \<Rightarrow> store_ops \<Rightarrow> bool \<Rightarrow> int \<Rightarrow> (rel_pattern \<times> node_pattern) list \<Rightarrow> string \<Rightarrow> binding list \<Rightarrow>
   xstate \<Rightarrow> binding list \<times> string \<times> xstate" where
  "expand_pattern_rels E S opt bind_cap [] var_name bs x = (bs, var_name, x)"
| "expand_pattern_rels E S opt bind_cap ((rel, target) # rts) var_name bs x =
     (case cypher_deadline_exceeded E x of
        (True, x1) \<Rightarrow> (bs, var_name, x1)
      | (False, x1) \<Rightarrow>
          (let to_var = (case np_variable target of Some v \<Rightarrow> v | None \<Rightarrow> ''_n_t'');
               (news, x2) = expand_bindings E S rel target var_name to_var opt bind_cap 0 bs [] x1
           in expand_pattern_rels E S opt bind_cap rts to_var news x2))"

definition pattern_steps :: "pattern \<Rightarrow> (rel_pattern \<times> node_pattern) list" where
  "pattern_steps p = zip (pt_rels p) (tl (pt_nodes p))"

section \<open>Further patterns\<close>

definition cross_join_nodes ::
  "binding list \<Rightarrow> pmm_node list \<Rightarrow> string \<Rightarrow> bool \<Rightarrow> xstate \<Rightarrow> binding list \<times> xstate" where
  "cross_join_nodes bs extra nvar opt x =
     (let news = concat (map (\<lambda>b. if opt \<and> extra = [] then [b]
                                  else map (binding_set b nvar) extra) bs);
          alloc = int32 (int (length bs) * int (length extra)) + 1
      in (news, check_array alloc news x))"

text \<open>The inner loop: one binding against every node.\<close>

fun cross_join_row ::
  "engine \<Rightarrow> store_ops \<Rightarrow> pattern \<Rightarrow> string \<Rightarrow> bool \<Rightarrow> binding \<Rightarrow> pmm_node list \<Rightarrow> xstate \<Rightarrow>
   binding list \<times> xstate" where
  "cross_join_row E S p nvar opt b [] x = ([], x)"
| "cross_join_row E S p nvar opt b (n # ns) x =
     (let (tmp, _, x1) = expand_pattern_rels E S opt 1 (pattern_steps p) nvar [binding_set b nvar n] x;
          (rest, x2) = cross_join_row E S p nvar opt b ns x1
      in (tmp @ rest, x2))"

fun cross_join_rows ::
  "engine \<Rightarrow> store_ops \<Rightarrow> pattern \<Rightarrow> string \<Rightarrow> bool \<Rightarrow> pmm_node list \<Rightarrow> binding list \<Rightarrow> xstate \<Rightarrow>
   binding list \<times> xstate" where
  "cross_join_rows E S p nvar opt extra [] x = ([], x)"
| "cross_join_rows E S p nvar opt extra (b # bs) x =
     (let (row, x1) = (if opt \<and> extra = [] then ([b], x) else cross_join_row E S p nvar opt b extra x);
          (rest, x2) = cross_join_rows E S p nvar opt extra bs x1
      in (row @ rest, x2))"

definition cross_join_with_rels ::
  "engine \<Rightarrow> store_ops \<Rightarrow> pattern \<Rightarrow> binding list \<Rightarrow> pmm_node list \<Rightarrow> string \<Rightarrow> bool \<Rightarrow> xstate \<Rightarrow>
   binding list \<times> xstate" where
  "cross_join_with_rels E S p bs extra nvar opt x =
     (let (news, x1) = cross_join_rows E S p nvar opt extra bs x;
          alloc = int (length bs) * int (length extra) * 10 + 1
      in (news, check_array alloc news x1))"

text \<open>Driving a relationship from its bound end: what one edge gives.\<close>

definition terminal_binding ::
  "store_ops \<Rightarrow> bool \<Rightarrow> node_pattern \<Rightarrow> binding \<Rightarrow> string \<Rightarrow> string option \<Rightarrow> pmm_edge \<Rightarrow> binding option" where
  "terminal_binding S scan_targets start b start_var rel_var e =
     (case so_find_node_by_id S (if scan_targets then e_source_id e else e_target_id e) of
        None \<Rightarrow> None
      | Some found \<Rightarrow>
          if np_label start \<noteq> None \<and> \<not> label_alt_matches (n_label found) (np_label start) then None
          else
            (let nb = binding_set b start_var found in
             Some (case rel_var of Some v \<Rightarrow> binding_set_edge nb v e | None \<Rightarrow> nb)))"

definition terminal_edges :: "store_ops \<Rightarrow> rel_pattern \<Rightarrow> bool \<Rightarrow> int \<Rightarrow> pmm_edge list list" where
  "terminal_edges S rel scan_targets i =
     (if rp_types rel \<noteq> [] then
        map (if scan_targets then so_find_edges_by_target_type S i else so_find_edges_by_source_type S i)
          (rp_types rel)
      else [if scan_targets then so_find_edges_by_target S i else so_find_edges_by_source S i])"

fun terminal_rows ::
  "store_ops \<Rightarrow> pattern \<Rightarrow> rel_pattern \<Rightarrow> string \<Rightarrow> bool \<Rightarrow> int \<Rightarrow> binding list \<Rightarrow> binding list \<Rightarrow> binding list"
where
  "terminal_rows S p rel start_var opt max_new [] news = news"
| "terminal_rows S p rel start_var opt max_new (b # bs) news =
     (if max_new \<le> int (length news) then news
      else
        (let scan_targets = (rp_direction rel \<noteq> Some ''inbound'');
             news1 = (case binding_get b (or_empty (np_variable (pt_nodes p ! 1))) of
                        None \<Rightarrow> news
                      | Some term \<Rightarrow>
                          foldl (\<lambda>nw edges. append_while max_new
                                   (terminal_binding S scan_targets (pt_nodes p ! 0) b start_var (rp_variable rel))
                                   edges nw)
                            news (terminal_edges S rel scan_targets (n_id term)));
             news2 = (if opt \<and> length news1 = length news \<and> int (length news1) < max_new
                      then news1 @ [b] else news1)
         in terminal_rows S p rel start_var opt max_new bs news2))"

definition expand_from_bound_terminal ::
  "store_ops \<Rightarrow> pattern \<Rightarrow> binding list \<Rightarrow> string \<Rightarrow> bool \<Rightarrow> xstate \<Rightarrow> binding list \<times> xstate" where
  "expand_from_bound_terminal S p bs start_var opt x =
     (let alloc = int (length bs) * 10 + 1;
          news = terminal_rows S p (pt_rels p ! 0) start_var opt (int32 alloc) bs []
      in (news, check_array alloc news x))"

text \<open>One further pattern: \<open>start_bound\<close> and \<open>term_bound\<close> look at the first binding only.\<close>

definition var_bound :: "binding list \<Rightarrow> string \<Rightarrow> bool" where
  "var_bound bs v = (case bs of [] \<Rightarrow> False | b # _ \<Rightarrow> binding_get b v \<noteq> None)"

definition expand_additional_pattern ::
  "engine \<Rightarrow> store_ops \<Rightarrow> string option \<Rightarrow> int \<Rightarrow> int \<Rightarrow> pattern \<times> bool \<Rightarrow> binding list \<Rightarrow> xstate \<Rightarrow>
   binding list \<times> xstate" where
  "expand_additional_pattern E S project max_rows bind_cap po bs x =
     (case po of (p, opt) \<Rightarrow>
        (let nvar = (case np_variable (pt_nodes p ! 0) of Some v \<Rightarrow> v | None \<Rightarrow> ''_n_extra'');
             start_bound = var_bound bs nvar
         in if start_bound \<and> pt_rels p \<noteq> [] then
              (let (news, _, x1) = expand_pattern_rels E S opt bind_cap (pattern_steps p) nvar bs x
               in (news, x1))
            else if \<not> start_bound \<and> length (pt_rels p) = 1 \<and> bs \<noteq> [] \<and>
                    (case np_variable (pt_nodes p ! 1) of Some t \<Rightarrow> var_bound bs t | None \<Rightarrow> False) then
              expand_from_bound_terminal S p bs nvar opt x
            else
              (let extra = scan_pattern_nodes (en_regex E) S project max_rows (pt_nodes p ! 0) in
               if pt_rels p = [] then cross_join_nodes bs extra nvar opt x
               else cross_join_with_rels E S p bs extra nvar opt x)))"

fun expand_additional_patterns ::
  "engine \<Rightarrow> store_ops \<Rightarrow> string option \<Rightarrow> int \<Rightarrow> int \<Rightarrow> (pattern \<times> bool) list \<Rightarrow> binding list \<Rightarrow> xstate \<Rightarrow>
   binding list \<times> xstate" where
  "expand_additional_patterns E S project max_rows bind_cap [] bs x = (bs, x)"
| "expand_additional_patterns E S project max_rows bind_cap (po # pos) bs x =
     (let (bs1, x1) = expand_additional_pattern E S project max_rows bind_cap po bs x
      in expand_additional_patterns E S project max_rows bind_cap pos bs1 x1)"

end
