(* ===== verification/Cyp_Result.thy ===== *)
theory Cyp_Result
  imports Cyp_Binding Cyp_Ast "HOL-Library.Multiset"
begin

text \<open>
  The result table (\<open>result_builder_t\<close>, src/src/cypher/cypher.c) and its post-processing: adding
  rows, DISTINCT, ORDER BY, SKIP and LIMIT.  The rows with their count are a list, the columns
  with theirs too.  The values of a row are never NULL: every projection returns a string.
\<close>

record result_builder =
  rb_rows :: "string list list"
  rb_columns :: "string list"

definition rb_init :: result_builder where
  "rb_init = \<lparr>rb_rows = [], rb_columns = []\<rparr>"

definition rb_set_columns :: "result_builder \<Rightarrow> string list \<Rightarrow> result_builder" where
  "rb_set_columns rb cols = rb\<lparr>rb_columns := cols\<rparr>"

text \<open>The row copies as many values as there are columns.\<close>

definition rb_add_row :: "result_builder \<Rightarrow> string list \<Rightarrow> result_builder" where
  "rb_add_row rb values = rb\<lparr>rb_rows := rb_rows rb @ [take (length (rb_columns rb)) values]\<rparr>"

section \<open>ORDER BY\<close>

text \<open>The position of the first element with the property.\<close>

fun index_of :: "('a \<Rightarrow> bool) \<Rightarrow> 'a list \<Rightarrow> nat option" where
  "index_of P [] = None"
| "index_of P (x # xs) = (if P x then Some 0 else map_option Suc (index_of P xs))"

definition rb_find_order_column :: "result_builder \<Rightarrow> return_clause \<Rightarrow> nat option" where
  "rb_find_order_column rb ret =
     (case index_of (\<lambda>c. Some c = rc_order_by ret) (rb_columns rb) of
        Some i \<Rightarrow> Some i
      | None \<Rightarrow> index_of (\<lambda>it. ri_alias it \<noteq> None \<and> ri_alias it = rc_order_by ret) (rc_items ret))"

definition numeric_text :: "string \<Rightarrow> bool" where
  "numeric_text v =
     (let p = (case v of c # cs \<Rightarrow> if c = CHR ''-'' then cs else v | [] \<Rightarrow> v)
      in p \<noteq> [] \<and> list_all c_isdigit p)"

definition rb_is_numeric_column :: "result_builder \<Rightarrow> nat \<Rightarrow> bool" where
  "rb_is_numeric_column rb col =
     (case find (\<lambda>r. r ! col \<noteq> []) (rb_rows rb) of
        None \<Rightarrow> False
      | Some r \<Rightarrow> numeric_text (r ! col))"

text \<open>The two nested loops with their swaps, as they occur in \<open>rb_apply_order_by\<close> and in
  \<open>sort_bindings\<close>: \<open>bubble_pass gt m\<close> does the comparisons \<open>j = 0 .. m - 1\<close>.\<close>

fun bubble_pass :: "('a \<Rightarrow> 'a \<Rightarrow> bool) \<Rightarrow> nat \<Rightarrow> 'a list \<Rightarrow> 'a list" where
  "bubble_pass gt (Suc m) (x # y # zs) =
     (if gt x y then y # bubble_pass gt m (x # zs) else x # bubble_pass gt m (y # zs))"
| "bubble_pass gt _ xs = xs"

fun bubble_passes :: "('a \<Rightarrow> 'a \<Rightarrow> bool) \<Rightarrow> nat \<Rightarrow> 'a list \<Rightarrow> 'a list" where
  "bubble_passes gt 0 xs = xs"
| "bubble_passes gt (Suc m) xs = bubble_passes gt m (bubble_pass gt (Suc m) xs)"

definition bubble_sort :: "('a \<Rightarrow> 'a \<Rightarrow> bool) \<Rightarrow> 'a list \<Rightarrow> 'a list" where
  "bubble_sort gt xs = bubble_passes gt (length xs - 1) xs"

text \<open>\<open>(int) strtol (a) - (int) strtol (b)\<close> in 32 bits.\<close>

definition numeric_cmp :: "string \<Rightarrow> string \<Rightarrow> int" where
  "numeric_cmp a b = int32 (int32 (strtol a) - int32 (strtol b))"

definition order_gt :: "bool \<Rightarrow> bool \<Rightarrow> nat \<Rightarrow> string list \<Rightarrow> string list \<Rightarrow> bool" where
  "order_gt numeric desc col r1 r2 =
     (let cmp = (if numeric then numeric_cmp (r1 ! col) (r2 ! col) else strcmp (r1 ! col) (r2 ! col))
      in if desc then cmp < 0 else 0 < cmp)"

definition rb_apply_order_by :: "result_builder \<Rightarrow> return_clause \<Rightarrow> result_builder" where
  "rb_apply_order_by rb ret =
     (if rc_order_by ret = None then rb else
      (case rb_find_order_column rb ret of
         None \<Rightarrow> rb
       | Some col \<Rightarrow>
           rb\<lparr>rb_rows := bubble_sort (order_gt (rb_is_numeric_column rb col)
                                        (rc_order_dir ret = Some ''DESC'') col) (rb_rows rb)\<rparr>))"

section \<open>SKIP, LIMIT and DISTINCT\<close>

text \<open>Shared by \<open>rb_apply_skip_limit\<close> and \<open>bindings_skip_limit\<close>.\<close>

definition skip_limit :: "int \<Rightarrow> int \<Rightarrow> 'a list \<Rightarrow> 'a list" where
  "skip_limit skip lim xs =
     (let ys = (if 0 < skip \<and> skip < int (length xs) then drop (nat skip) xs
                else if int (length xs) \<le> skip then [] else xs)
      in if 0 \<le> lim \<and> lim < int (length ys) then take (nat lim) ys else ys)"

definition rb_apply_skip_limit :: "result_builder \<Rightarrow> int \<Rightarrow> int \<Rightarrow> result_builder" where
  "rb_apply_skip_limit rb skip lim = rb\<lparr>rb_rows := skip_limit skip lim (rb_rows rb)\<rparr>"

text \<open>The dedup loop, with the test for equality a parameter: a row is kept unless it equals one
  already kept.  \<open>with_apply_distinct\<close> has the same loop over bindings.\<close>

fun keep_first :: "('a \<Rightarrow> 'a \<Rightarrow> bool) \<Rightarrow> 'a list \<Rightarrow> 'a list \<Rightarrow> 'a list" where
  "keep_first same kept [] = kept"
| "keep_first same kept (x # xs) =
     (if list_ex (same x) kept then keep_first same kept xs
      else keep_first same (kept @ [x]) xs)"

definition row_same :: "nat \<Rightarrow> string list \<Rightarrow> string list \<Rightarrow> bool" where
  "row_same n a b = list_all (\<lambda>c. strcmp (a ! c) (b ! c) = 0) [0..<n]"

definition rb_apply_distinct :: "result_builder \<Rightarrow> result_builder" where
  "rb_apply_distinct rb =
     (if length (rb_rows rb) \<le> 1 then rb
      else rb\<lparr>rb_rows := keep_first (row_same (length (rb_columns rb)))
                                     [hd (rb_rows rb)] (tl (rb_rows rb))\<rparr>)"

section \<open>Bubble sort sorts, stably\<close>

text \<open>Induction over a pass with the comparison fixed.\<close>

lemma bubble_pass_cases [case_names swap short]:
  assumes "\<And>m x y zs. (\<And>w. w = x \<or> w = y \<Longrightarrow> P m (w # zs)) \<Longrightarrow> P (Suc m) (x # y # zs)"
    and "\<And>m xs. m = 0 \<or> length xs < 2 \<Longrightarrow> P m xs"
  shows "P m xs"
proof (induction m arbitrary: xs)
  case (Suc m)
  show ?case
  proof (cases "length xs < 2")
    case False
    then obtain x y zs where "xs = x # y # zs"
      by (metis One_nat_def Suc_1 length_Cons lessI less_Suc_eq_0_disj list.exhaust list.size(3))
    then show ?thesis using assms(1) Suc by simp
  qed (simp add: assms(2))
qed (simp add: assms(2))

lemma bubble_pass_short [simp]: "m = 0 \<or> length xs < 2 \<Longrightarrow> bubble_pass gt m xs = xs"
  by (cases "(gt, m, xs)" rule: bubble_pass.cases) auto

text \<open>The contract of a comparison on a set of keys: a strict weak order.\<close>

locale comparison =
  fixes A :: "'a set" and gt :: "'a \<Rightarrow> 'a \<Rightarrow> bool"
  assumes asym: "x \<in> A \<Longrightarrow> y \<in> A \<Longrightarrow> gt x y \<Longrightarrow> \<not> gt y x"
    and neg_trans: "x \<in> A \<Longrightarrow> y \<in> A \<Longrightarrow> z \<in> A \<Longrightarrow> \<not> gt x y \<Longrightarrow> \<not> gt y z \<Longrightarrow> \<not> gt x z"
begin

text \<open>Keys that the comparison does not tell apart.\<close>

definition tied :: "'a \<Rightarrow> 'a \<Rightarrow> bool" where
  "tied x y \<longleftrightarrow> \<not> gt x y \<and> \<not> gt y x"

lemma tied_not_gt: "x \<in> A \<Longrightarrow> y \<in> A \<Longrightarrow> z \<in> A \<Longrightarrow> tied z x \<Longrightarrow> tied z y \<Longrightarrow> \<not> gt x y"
  using neg_trans [of x z y] by (auto simp: tied_def)

lemma pass_stable:
  "set xs \<subseteq> A \<Longrightarrow> z \<in> A \<Longrightarrow> filter (tied z) (bubble_pass gt m xs) = filter (tied z) xs"
proof (induction m xs rule: bubble_pass_cases)
  case (swap m x y zs)
  then have IH: "filter (tied z) (bubble_pass gt m (x # zs)) = filter (tied z) (x # zs)"
    "filter (tied z) (bubble_pass gt m (y # zs)) = filter (tied z) (y # zs)" by auto
  have "\<not> (gt x y \<and> tied z x \<and> tied z y)" using swap.prems tied_not_gt [of x y z] by auto
  then show ?case using IH by auto
qed auto

end

lemma mset_bubble_pass [simp]: "mset (bubble_pass gt m xs) = mset xs"
  by (induction gt m xs rule: bubble_pass.induct) auto

lemma set_bubble_pass [simp]: "set (bubble_pass gt m xs) = set xs"
  by (metis mset_bubble_pass set_mset_mset)

lemma length_bubble_pass [simp]: "length (bubble_pass gt m xs) = length xs"
  by (metis mset_bubble_pass size_mset)

lemma mset_bubble_passes [simp]: "mset (bubble_passes gt m xs) = mset xs"
  by (induction gt m xs rule: bubble_passes.induct) auto

lemma mset_bubble_sort [simp]: "mset (bubble_sort gt xs) = mset xs"
  by (simp add: bubble_sort_def)

lemma set_bubble_sort [simp]: "set (bubble_sort gt xs) = set xs"
  by (metis mset_bubble_sort set_mset_mset)

lemma length_bubble_sort [simp]: "length (bubble_sort gt xs) = length xs"
  by (metis mset_bubble_sort size_mset)

lemma bubble_pass_drop: "drop (Suc m) (bubble_pass gt m xs) = drop (Suc m) xs"
  by (induction gt m xs rule: bubble_pass.induct) auto

context comparison
begin

lemma irrefl: "x \<in> A \<Longrightarrow> \<not> gt x x"
  using asym by blast

text \<open>After a pass over the first \<open>m + 1\<close> elements the last of them is the greatest.\<close>

lemma pass_max:
  "set xs \<subseteq> A \<Longrightarrow> m < length xs \<Longrightarrow> y \<in> set (take (Suc m) xs) \<Longrightarrow>
   \<not> gt y (bubble_pass gt m xs ! m)"
proof (induction m xs arbitrary: y rule: bubble_pass_cases)
  case (swap m x1 x2 zs)
  define big small where "big = (if gt x1 x2 then x1 else x2)" and "small = (if gt x1 x2 then x2 else x1)"
  define r where "r = bubble_pass gt m (big # zs) ! m"
  have res: "bubble_pass gt (Suc m) (x1 # x2 # zs) ! Suc m = r" by (simp add: r_def big_def)
  have A: "big \<in> A" "small \<in> A" "set (big # zs) \<subseteq> A"
    using swap.prems(1) by (auto simp: big_def small_def)
  have m: "m < length (big # zs)" using swap.prems(2) by simp
  have IH: "\<not> gt v r" if "v \<in> set (take (Suc m) (big # zs))" for v
    unfolding r_def using that A(3) m by (intro swap.IH) (auto simp: big_def)
  have "m < length (bubble_pass gt m (big # zs))" using m by simp
  then have "r \<in> set (bubble_pass gt m (big # zs))" unfolding r_def by (rule nth_mem)
  then have rA: "r \<in> A" using A(3) by auto
  have "\<not> gt small big" using swap.prems(1) asym by (auto simp: big_def small_def)
  moreover have "\<not> gt big r" using IH by simp
  ultimately have small: "\<not> gt small r" using neg_trans A rA by blast
  have "y = small \<or> y \<in> set (take (Suc m) (big # zs))"
    using swap.prems(3) by (auto simp: big_def small_def)
  then show ?case unfolding res using small IH by blast
next
  case (short m xs)
  then show ?case by (cases xs) (auto simp: irrefl)
qed

lemma passes_sorted:
  assumes "set xs \<subseteq> A" "m < length xs"
    and "sorted_wrt (\<lambda>a b. \<not> gt a b) (drop (Suc m) xs)"
    and "\<And>a b. a \<in> set (take (Suc m) xs) \<Longrightarrow> b \<in> set (drop (Suc m) xs) \<Longrightarrow> \<not> gt a b"
  shows "sorted_wrt (\<lambda>a b. \<not> gt a b) (bubble_passes gt m xs)"
  using assms
proof (induction m arbitrary: xs)
  case 0
  then show ?case by (cases xs) auto
next
  case (Suc m)
  let ?ys = "bubble_pass gt (Suc m) xs"
  have tail: "drop (Suc (Suc m)) ?ys = drop (Suc (Suc m)) xs" by (rule bubble_pass_drop)
  have len: "Suc m < length ?ys" using Suc.prems by simp
  have head: "mset (take (Suc (Suc m)) ?ys) = mset (take (Suc (Suc m)) xs)"
    using tail mset_bubble_pass [of gt "Suc m" xs]
    by (metis append_take_drop_id add_right_cancel mset_append)
  have dec: "drop (Suc m) ?ys = ?ys ! Suc m # drop (Suc (Suc m)) xs"
    using len tail by (metis Cons_nth_drop_Suc)
  have max: "\<not> gt a (?ys ! Suc m)" if "a \<in> set (take (Suc (Suc m)) ?ys)" for a
    using pass_max [of xs "Suc m" a] Suc.prems that head by (metis set_mset_mset)
  have "take (Suc (Suc m)) ?ys ! Suc m = ?ys ! Suc m" by simp
  then have last_in: "?ys ! Suc m \<in> set (take (Suc (Suc m)) ?ys)"
    using len nth_mem [of "Suc m" "take (Suc (Suc m)) ?ys"] by simp
  have heads: "set (take (Suc (Suc m)) ?ys) = set (take (Suc (Suc m)) xs)"
    using head by (metis set_mset_mset)
  have "sorted_wrt (\<lambda>a b. \<not> gt a b) (bubble_passes gt m ?ys)"
  proof (rule Suc.IH)
    show "sorted_wrt (\<lambda>a b. \<not> gt a b) (drop (Suc m) ?ys)"
      unfolding dec using Suc.prems(3,4) last_in heads by simp
    show "\<not> gt a b" if "a \<in> set (take (Suc m) ?ys)" "b \<in> set (drop (Suc m) ?ys)" for a b
    proof -
      have a: "a \<in> set (take (Suc (Suc m)) ?ys)"
        using that(1) set_take_subset_set_take [of "Suc m" "Suc (Suc m)" ?ys] by auto
      then show ?thesis using that(2) max [OF a] Suc.prems(4) heads unfolding dec by auto
    qed
  qed (use Suc.prems in auto)
  then show ?case by simp
qed

lemma bubble_sort_sorted:
  assumes "set xs \<subseteq> A"
  shows "sorted_wrt (\<lambda>a b. \<not> gt a b) (bubble_sort gt xs)"
proof (cases "xs = []")
  case False
  then show ?thesis unfolding bubble_sort_def using assms by (intro passes_sorted) auto
qed (simp add: bubble_sort_def)

lemma bubble_sort_stable:
  "set xs \<subseteq> A \<Longrightarrow> z \<in> A \<Longrightarrow> filter (tied z) (bubble_sort gt xs) = filter (tied z) xs"
proof -
  have "set xs \<subseteq> A \<Longrightarrow> z \<in> A \<Longrightarrow> filter (tied z) (bubble_passes gt m xs) = filter (tied z) xs" for m
    by (induction m arbitrary: xs) (simp_all add: pass_stable)
  then show "set xs \<subseteq> A \<Longrightarrow> z \<in> A \<Longrightarrow> ?thesis" by (simp add: bubble_sort_def)
qed

end

section \<open>The comparisons of ORDER BY keep the contract\<close>

lemma strcmp_le_total: "strcmp a b \<le> 0 \<or> strcmp b a \<le> 0"
  using strcmp_antisym [of a b] by linarith

interpretation text_order: comparison UNIV "order_gt False desc col" for desc col
proof
  fix x y z :: "string list"
  show "order_gt False desc col x y \<Longrightarrow> \<not> order_gt False desc col y x"
    using strcmp_antisym [of "x ! col" "y ! col"] by (auto simp: order_gt_def Let_def split: if_splits)
  show "\<not> order_gt False desc col x y \<Longrightarrow> \<not> order_gt False desc col y z \<Longrightarrow>
      \<not> order_gt False desc col x z"
    using strcmp_antisym [of "x ! col" "y ! col"] strcmp_antisym [of "y ! col" "z ! col"]
      strcmp_antisym [of "x ! col" "z ! col"] strcmp_trans [of "x ! col" "y ! col" "z ! col"]
      strcmp_trans [of "z ! col" "y ! col" "x ! col"]
    by (auto simp: order_gt_def Let_def split: if_splits)
qed

text \<open>Numbers whose differences fit in an \<open>int\<close>.\<close>

definition small_number :: "string \<Rightarrow> bool" where
  "small_number v \<longleftrightarrow> \<bar>strtol v\<bar> < 2 ^ 30"

lemma numeric_cmp_small:
  "small_number a \<Longrightarrow> small_number b \<Longrightarrow> numeric_cmp a b = strtol a - strtol b"
  by (simp add: small_number_def numeric_cmp_def int32_id)

interpretation numeric_order: comparison "{r. small_number (r ! col)}" "order_gt True desc col"
  for desc col
  by unfold_locales (auto simp: order_gt_def numeric_cmp_small split: if_splits)

section \<open>What the post-processing does\<close>

text \<open>The order the user asked for on a column.\<close>

definition order_le :: "bool \<Rightarrow> bool \<Rightarrow> string \<Rightarrow> string \<Rightarrow> bool" where
  "order_le numeric desc a b =
     (if numeric then (if desc then strtol b \<le> strtol a else strtol a \<le> strtol b)
      else (if desc then strcmp b a \<le> 0 else strcmp a b \<le> 0))"

lemma order_gt_text: "\<not> order_gt False desc col r1 r2 \<longleftrightarrow> order_le False desc (r1 ! col) (r2 ! col)"
  using strcmp_antisym [of "r1 ! col" "r2 ! col"] by (auto simp: order_gt_def order_le_def)

lemma order_gt_numeric:
  "small_number (r1 ! col) \<Longrightarrow> small_number (r2 ! col) \<Longrightarrow>
   \<not> order_gt True desc col r1 r2 \<longleftrightarrow> order_le True desc (r1 ! col) (r2 ! col)"
  by (auto simp: order_gt_def order_le_def numeric_cmp_small)

lemma sorted_wrt_on:
  "sorted_wrt P xs \<Longrightarrow> (\<And>a b. a \<in> set xs \<Longrightarrow> b \<in> set xs \<Longrightarrow> P a b \<Longrightarrow> Q a b) \<Longrightarrow> sorted_wrt Q xs"
  by (erule sorted_wrt_mono_rel [rotated]) auto

lemma order_by_sorts:
  fixes desc :: bool
  assumes "numeric \<Longrightarrow> \<forall>r\<in>set rows. small_number (r ! col)"
  defines "out \<equiv> bubble_sort (order_gt numeric desc col) rows"
  shows "mset out = mset rows"
    "sorted_wrt (\<lambda>a b. order_le numeric desc (a ! col) (b ! col)) out"
    "filter (\<lambda>r. r ! col = v) out = filter (\<lambda>r. r ! col = v) rows"
proof -
  show "mset out = mset rows" by (simp add: out_def)
  show "sorted_wrt (\<lambda>a b. order_le numeric desc (a ! col) (b ! col)) out"
  proof (cases numeric)
    case True
    then have small: "set rows \<subseteq> {r. small_number (r ! col)}" using assms(1) by auto
    have "sorted_wrt (\<lambda>a b. order_le True desc (a ! col) (b ! col)) (bubble_sort (order_gt True desc col) rows)"
      using numeric_order.bubble_sort_sorted [OF small, of desc]
      by (rule sorted_wrt_on) (use assms(1) True in \<open>simp add: order_gt_numeric\<close>)
    then show ?thesis using True by (simp add: out_def)
  next
    case False
    have "sorted_wrt (\<lambda>a b. order_le False desc (a ! col) (b ! col)) (bubble_sort (order_gt False desc col) rows)"
      using text_order.bubble_sort_sorted [of rows desc col]
      by (rule sorted_wrt_on) (auto simp: order_gt_text)
    then show ?thesis using False by (simp add: out_def)
  qed
  show "filter (\<lambda>r. r ! col = v) out = filter (\<lambda>r. r ! col = v) rows"
  proof (cases "\<exists>z\<in>set rows. z ! col = v")
    case True
    then obtain z where z: "z \<in> set rows" "z ! col = v" by auto
    have restrict: "filter (\<lambda>r. r ! col = v) xs = filter (\<lambda>r. r ! col = v) (filter P xs)"
      if "\<And>r. r ! col = v \<Longrightarrow> P r" for P xs
      using that by (induction xs) auto
    have tie: "\<not> order_gt n desc col z r \<and> \<not> order_gt n desc col r z" if "r ! col = v" for n r
      using that z(2) by (auto simp: order_gt_def numeric_cmp_def int32_def)
    show ?thesis
    proof (cases numeric)
      case True
      then have small: "set rows \<subseteq> {r. small_number (r ! col)}" using assms(1) by auto
      have "filter (numeric_order.tied desc col z) out = filter (numeric_order.tied desc col z) rows"
        unfolding out_def using True small z(1)
        by (simp add: numeric_order.bubble_sort_stable subset_iff)
      moreover have "filter (\<lambda>r. r ! col = v) xs =
          filter (\<lambda>r. r ! col = v) (filter (numeric_order.tied desc col z) xs)" for xs
        by (rule restrict) (simp add: numeric_order.tied_def tie)
      ultimately show ?thesis by metis
    next
      case False
      have "filter (text_order.tied desc col z) out = filter (text_order.tied desc col z) rows"
        unfolding out_def using False by (simp add: text_order.bubble_sort_stable)
      moreover have "filter (\<lambda>r. r ! col = v) xs =
          filter (\<lambda>r. r ! col = v) (filter (text_order.tied desc col z) xs)" for xs
        by (rule restrict) (simp add: text_order.tied_def tie)
      ultimately show ?thesis by metis
    qed
  next
    case False
    then show ?thesis by (auto simp: out_def filter_empty_conv filter_False)
  qed
qed

lemma skip_limit_eq:
  "skip_limit skip lim xs = (if lim < 0 then drop (nat skip) xs else take (nat lim) (drop (nat skip) xs))"
  by (auto simp: skip_limit_def Let_def nat_less_iff)

text \<open>Keeping the first of each class is dropping the later of each class.\<close>

lemma keep_first_eq:
  "keep_first (\<lambda>a b. a = b) [] xs = rev (remdups (rev xs))"
proof (induction xs rule: rev_induct)
  case (snoc x xs)
  have step: "keep_first (=) kept (ys @ [x]) =
      (let k = keep_first (=) kept ys in if list_ex ((=) x) k then k else k @ [x])"
    for kept ys by (induction ys arbitrary: kept) (auto simp: Let_def)
  have "set (keep_first (=) [] xs) = set xs" using snoc by simp
  then show ?case using snoc unfolding step Let_def by (auto simp: list_ex_iff)
qed simp

lemma keep_first_cong:
  "(\<And>a b. a \<in> set xs \<union> set kept \<Longrightarrow> b \<in> set xs \<union> set kept \<Longrightarrow> f a b = g a b) \<Longrightarrow>
   keep_first f kept xs = keep_first g kept xs"
proof (induction xs arbitrary: kept)
  case (Cons x xs)
  have "list_ex (f x) kept = list_ex (g x) kept"
    using Cons.prems by (simp add: list_ex_iff cong: bex_cong)
  moreover have "keep_first f k xs = keep_first g k xs" if "set k \<subseteq> insert x (set kept)" for k
  proof (rule Cons.IH)
    fix a b assume "a \<in> set xs \<union> set k" "b \<in> set xs \<union> set k"
    then have "a \<in> set (x # xs) \<union> set kept" "b \<in> set (x # xs) \<union> set kept" using that by auto
    then show "f a b = g a b" by (rule Cons.prems)
  qed
  ultimately show ?case by (simp add: subset_insertI)
qed simp

lemma row_same_iff: "length a = n \<Longrightarrow> length b = n \<Longrightarrow> row_same n a b \<longleftrightarrow> a = b"
  unfolding row_same_def by (auto simp: list_all_iff intro: nth_equalityI)

lemma distinct_rows:
  assumes "\<forall>r\<in>set (rb_rows rb). length r = length (rb_columns rb)"
  shows "rb_rows (rb_apply_distinct rb) = rev (remdups (rev (rb_rows rb)))"
proof (cases "rb_rows rb")
  case (Cons r rs)
  have "keep_first (row_same (length (rb_columns rb))) [] (r # rs) = keep_first (=) [] (r # rs)"
    using assms Cons by (intro keep_first_cong) (auto simp: row_same_iff)
  then have "keep_first (row_same (length (rb_columns rb))) [r] rs = rev (remdups (rev (r # rs)))"
    using keep_first_eq [of "r # rs"] by simp
  then show ?thesis by (cases rs) (auto simp: rb_apply_distinct_def Cons)
qed (simp add: rb_apply_distinct_def)

end
