(* ===== verification/Cyp_Project.thy ===== *)
theory Cyp_Project
  imports Cyp_State Cyp_Result
begin

text \<open>
  From bindings to rows (src/src/cypher/cypher.c): projection of one item, the WITH clause
  (aggregation, renaming, DISTINCT, sorting, SKIP/LIMIT and its WHERE) and the RETURN clause
  (star, aggregation, simple projection, default projection).  The per-item arrays of the two
  aggregation structs are one list of cells.
\<close>

text \<open>\<open>%s\<close> of a pointer that may be NULL: glibc prints \<open>(null)\<close>.\<close>

definition fmt_s :: "string option \<Rightarrow> string" where
  "fmt_s s = (case s of None \<Rightarrow> ''(null)'' | Some t \<Rightarrow> t)"

section \<open>One item\<close>

fun keys_loop :: "nat \<Rightarrow> bool \<Rightarrow> string \<Rightarrow> (string \<times> bool) list \<Rightarrow> string" where
  "keys_loop sz first acc [] = acc"
| "keys_loop sz first acc ((k, present) # ks) =
     (if sz - 1 \<le> length acc then acc
      else if \<not> present then keys_loop sz first acc ks
      else
        (let w = (if first then [] else '','') @ [CHR 0x22] @ k @ [CHR 0x22] in
         if sz - length acc \<le> length w then acc
         else keys_loop sz False (acc @ w) ks))"

definition node_keys_list :: "pmm_node \<Rightarrow> nat \<Rightarrow> string" where
  "node_keys_list n sz =
     (let ks = [(''name'', or_empty (n_name n) \<noteq> []),
                (''qualified_name'', or_empty (n_qualified_name n) \<noteq> []),
                (''label'', or_empty (n_label n) \<noteq> []),
                (''file_path'', or_empty (n_file_path n) \<noteq> []),
                (''start_line'', 0 < n_start_line n),
                (''end_line'', 0 < n_end_line n)];
          acc = keys_loop sz True (if 0 < sz - 1 then ''['' else []) ks
      in if length acc < sz - 1 then acc @ '']'' else acc)"

definition entity_funcs :: "string list" where
  "entity_funcs = [''labels'', ''type'', ''id'', ''keys'', ''properties'']"

definition project_entity_func :: "binding \<Rightarrow> string \<Rightarrow> string \<Rightarrow> nat \<Rightarrow> string" where
  "project_entity_func b f var buf_sz =
     (let n = binding_get b var; e = binding_get_edge b var in
      if f = ''labels'' then
        (case n of
           Some nd \<Rightarrow> (case n_label nd of
                         Some l \<Rightarrow> snprintf_buf buf_sz (''['' @ [CHR 0x22] @ l @ [CHR 0x22] @ '']'')
                       | None \<Rightarrow> ''[]'')
         | None \<Rightarrow> ''[]'')
      else if f = ''type'' then (case e of Some ed \<Rightarrow> or_empty (e_type ed) | None \<Rightarrow> [])
      else if f = ''id'' then
        (case n of
           Some nd \<Rightarrow> snprintf_buf buf_sz (show_int (n_id nd))
         | None \<Rightarrow> (case e of Some ed \<Rightarrow> snprintf_buf buf_sz (show_int (e_id ed)) | None \<Rightarrow> []))
      else if f = ''keys'' then
        (case n of Some nd \<Rightarrow> node_keys_list nd buf_sz | None \<Rightarrow> ''[]'')
      else
        (case n of
           Some nd \<Rightarrow> (case n_properties_json nd of Some j \<Rightarrow> j | None \<Rightarrow> ''{}'')
         | None \<Rightarrow> (case e of
                      Some ed \<Rightarrow> (case e_properties_json ed of Some j \<Rightarrow> j | None \<Rightarrow> ''{}'')
                    | None \<Rightarrow> ''{}'')))"

definition project_item :: "regex \<Rightarrow> binding \<Rightarrow> return_item \<Rightarrow> nat \<Rightarrow> string" where
  "project_item rx b item buf_sz =
     (case ri_kase item of
        Some k \<Rightarrow> eval_case_expr rx k b
      | None \<Rightarrow>
          if ri_args item \<noteq> None then eval_multiarg_func b item buf_sz
          else if ri_func item \<noteq> None \<and> the (ri_func item) \<in> set entity_funcs then
            project_entity_func b (the (ri_func item)) (deref (ri_variable item)) buf_sz
          else
            (let raw = binding_get_virtual b (ri_variable item) (ri_property item) in
             if is_scalar_value_func (ri_func item) then apply_string_func (ri_func item) raw buf_sz
             else take (buf_sz - 1) raw))"

definition is_aggregate_func :: "string option \<Rightarrow> bool" where
  "is_aggregate_func func =
     (case func of
        None \<Rightarrow> False
      | Some f \<Rightarrow> f \<in> set [''COUNT'', ''SUM'', ''AVG'', ''MIN'', ''MAX'', ''COLLECT''])"

definition distinct_list_add :: "string list \<Rightarrow> string \<Rightarrow> string list" where
  "distinct_list_add xs v = (if v \<in> set xs then xs else xs @ [v])"

definition resolve_item_alias :: "return_item \<Rightarrow> nat \<Rightarrow> string" where
  "resolve_item_alias item buf_sz =
     (case ri_alias item of
        Some a \<Rightarrow> a
      | None \<Rightarrow> snprintf_buf buf_sz
          (case ri_property item of
             Some p \<Rightarrow> fmt_s (ri_variable item) @ ''.'' @ p
           | None \<Rightarrow> fmt_s (ri_variable item)))"

section \<open>Aggregation cells\<close>

record agg_cell =
  ac_val :: string
  ac_sum :: dbl
  ac_count :: nat
  ac_min :: dbl
  ac_max :: dbl
  ac_list :: "string list"
  ac_node_id :: int

definition init_cell :: "string \<Rightarrow> int \<Rightarrow> agg_cell" where
  "init_cell v nid = \<lparr>ac_val = v, ac_sum = DFin False 0 0, ac_count = 0, ac_min = cyp_dbl_max False,
     ac_max = cyp_dbl_max True, ac_list = [], ac_node_id = nid\<rparr>"

text \<open>The numeric part of both accumulate functions.\<close>

definition accumulate_number :: "string \<Rightarrow> agg_cell \<Rightarrow> agg_cell" where
  "accumulate_number raw cell =
     (let dv = fst (strtod raw) in
      cell\<lparr>ac_count := Suc (ac_count cell), ac_sum := dbl_add (ac_sum cell) dv,
           ac_min := (if dbl_less dv (ac_min cell) then dv else ac_min cell),
           ac_max := (if dbl_less (ac_max cell) dv then dv else ac_max cell)\<rparr>)"

definition avg_of :: "agg_cell \<Rightarrow> dbl" where
  "avg_of cell = (if 0 < ac_count cell then dbl_div_count (ac_sum cell) (ac_count cell)
                  else DFin False 0 0)"

record agg_group =
  ag_key :: string
  ag_cells :: "agg_cell list"

text \<open>The group with the key: its position, and the groups with a new one appended if needed.\<close>

definition find_or_create :: "string \<Rightarrow> agg_cell list \<Rightarrow> agg_group list \<Rightarrow> nat \<times> agg_group list" where
  "find_or_create key cells aggs =
     (case index_of (\<lambda>g. strcmp (ag_key g) key = 0) aggs of
        Some i \<Rightarrow> (i, aggs)
      | None \<Rightarrow> (length aggs, aggs @ [\<lparr>ag_key = snprintf_buf 1024 key, ag_cells = cells\<rparr>]))"

definition update_group :: "nat \<Rightarrow> (agg_cell list \<Rightarrow> agg_cell list) \<Rightarrow> agg_group list \<Rightarrow> agg_group list" where
  "update_group i f aggs = aggs[i := (aggs ! i)\<lparr>ag_cells := f (ag_cells (aggs ! i))\<rparr>]"

section \<open>WITH\<close>

text \<open>The comparison of \<open>sort_bindings\<close>: numbers if both values start like one, else bytes.\<close>

definition sort_cmp :: "string \<Rightarrow> string \<Rightarrow> int" where
  "sort_cmp va vb =
     (case (strtod va, strtod vb) of
        ((da, True), (db, True)) \<Rightarrow>
          (if dbl_less db da then 1 else 0) - (if dbl_less da db then 1 else 0)
      | _ \<Rightarrow> strcmp va vb)"

definition binding_gt :: "string \<Rightarrow> bool \<Rightarrow> binding \<Rightarrow> binding \<Rightarrow> bool" where
  "binding_gt key desc a b =
     (let cmp = sort_cmp (binding_get_virtual a (Some key) None) (binding_get_virtual b (Some key) None)
      in if desc then cmp < 0 else 0 < cmp)"

definition sort_bindings :: "string \<Rightarrow> bool \<Rightarrow> binding list \<Rightarrow> binding list" where
  "sort_bindings key desc bs = bubble_sort (binding_gt key desc) bs"

definition bindings_skip_limit :: "int \<Rightarrow> int \<Rightarrow> binding list \<Rightarrow> binding list" where
  "bindings_skip_limit skip lim bs = skip_limit skip lim bs"

definition with_sort_skip_limit :: "return_clause \<Rightarrow> binding list \<Rightarrow> binding list" where
  "with_sort_skip_limit wc bs =
     bindings_skip_limit (rc_skip wc) (rc_limit wc)
       (case rc_order_by wc of
          Some key \<Rightarrow> sort_bindings key (rc_order_dir wc = Some ''DESC'') bs
        | None \<Rightarrow> bs)"

definition item_raw :: "binding \<Rightarrow> return_item \<Rightarrow> string" where
  "item_raw b item = binding_get_virtual b (ri_variable item) (ri_property item)"

definition with_agg_build_key :: "return_clause \<Rightarrow> binding \<Rightarrow> string" where
  "with_agg_build_key wc b =
     take 1023 (concat (map (\<lambda>it. item_raw b it @ ''|'') [it \<leftarrow> rc_items wc. ri_func it = None]))"

definition with_init_cell :: "binding \<Rightarrow> return_item \<Rightarrow> agg_cell" where
  "with_init_cell b item =
     (if ri_func item \<noteq> None then init_cell ''0'' 0
      else init_cell (item_raw b item)
             (if ri_property item = None \<and> ri_variable item \<noteq> None then
                (case binding_get b (the (ri_variable item)) of Some gn \<Rightarrow> n_id gn | None \<Rightarrow> 0)
              else 0))"

definition with_agg_find_or_create ::
  "return_clause \<Rightarrow> binding \<Rightarrow> string \<Rightarrow> agg_group list \<Rightarrow> nat \<times> agg_group list" where
  "with_agg_find_or_create wc b key aggs =
     find_or_create key (map (with_init_cell b) (rc_items wc)) aggs"

definition with_accumulate_cell :: "binding \<Rightarrow> return_item \<Rightarrow> agg_cell \<Rightarrow> agg_cell" where
  "with_accumulate_cell b item cell =
     (case ri_func item of
        None \<Rightarrow> cell
      | Some f \<Rightarrow>
          accumulate_number (item_raw b item)
            (if ri_distinct item \<and> f = ''COUNT''
             then cell\<lparr>ac_list := distinct_list_add (ac_list cell) (item_raw b item)\<rparr> else cell))"

definition with_agg_accumulate :: "return_clause \<Rightarrow> binding \<Rightarrow> agg_cell list \<Rightarrow> agg_cell list" where
  "with_agg_accumulate wc b cells = map2 (with_accumulate_cell b) (rc_items wc) cells"

definition with_agg_format :: "string \<Rightarrow> agg_cell \<Rightarrow> nat \<Rightarrow> string" where
  "with_agg_format func cell buf_sz =
     snprintf_buf buf_sz
       (if func = ''SUM'' then fmt_g 10 (ac_sum cell)
        else if func = ''AVG'' then fmt_g 10 (avg_of cell)
        else if func = ''MIN'' then fmt_g 10 (ac_min cell)
        else if func = ''MAX'' then fmt_g 10 (ac_max cell)
        else nat_digits (ac_count cell))"

definition with_add_vbinding_var :: "binding \<Rightarrow> string \<Rightarrow> string \<Rightarrow> binding" where
  "with_add_vbinding_var vb alias val =
     (if length (b_vars vb) < 16 then
        vb\<lparr>b_vars := b_vars vb @
             [(alias, zero_node\<lparr>n_name := Some val, n_qualified_name := Some alias\<rparr>)]\<rparr>
      else vb)"

text \<open>\<open>vb.var_nodes[vb.var_count - 1].id = id\<close>.\<close>

definition tag_last_id :: "binding \<Rightarrow> int \<Rightarrow> binding" where
  "tag_last_id vb i =
     (if b_vars vb = [] then vb
      else vb\<lparr>b_vars := butlast (b_vars vb) @
                [(fst (last (b_vars vb)), (snd (last (b_vars vb)))\<lparr>n_id := i\<rparr>)]\<rparr>)"

definition with_agg_emit_item :: "binding \<Rightarrow> return_item \<times> agg_cell \<Rightarrow> binding" where
  "with_agg_emit_item vb ic =
     (case ic of (item, cell) \<Rightarrow>
        (let alias = resolve_item_alias item 256 in
         case ri_func item of
           Some f \<Rightarrow>
             with_add_vbinding_var vb alias
               (if ri_distinct item \<and> f = ''COUNT'' then snprintf_buf 64 (nat_digits (length (ac_list cell)))
                else with_agg_format f cell 64)
         | None \<Rightarrow>
             (let vb1 = with_add_vbinding_var vb alias (ac_val cell) in
              if 0 < ac_node_id cell then tag_last_id vb1 (ac_node_id cell) else vb1)))"

definition with_agg_emit :: "return_clause \<Rightarrow> store_ops option \<Rightarrow> agg_group \<Rightarrow> binding" where
  "with_agg_emit wc store g =
     foldl with_agg_emit_item (empty_binding\<lparr>b_store := store\<rparr>) (zip (rc_items wc) (ag_cells g))"

definition with_agg_step :: "return_clause \<Rightarrow> agg_group list \<Rightarrow> binding \<Rightarrow> agg_group list" where
  "with_agg_step wc aggs b =
     (let (i, aggs1) = with_agg_find_or_create wc b (with_agg_build_key wc b) aggs
      in update_group i (with_agg_accumulate wc b) aggs1)"

definition execute_with_aggregate :: "return_clause \<Rightarrow> binding list \<Rightarrow> binding list" where
  "execute_with_aggregate wc bs =
     map (with_agg_emit wc (case bs of [] \<Rightarrow> None | b # _ \<Rightarrow> b_store b))
       (foldl (with_agg_step wc) [] bs)"

definition with_project :: "regex \<Rightarrow> return_clause \<Rightarrow> binding \<Rightarrow> binding" where
  "with_project rx wc b =
     foldl (\<lambda>vb item. with_add_vbinding_var vb (resolve_item_alias item 256) (project_item rx b item 512))
       (empty_binding\<lparr>b_store := b_store b\<rparr>) (rc_items wc)"

definition execute_with_simple :: "regex \<Rightarrow> return_clause \<Rightarrow> binding list \<Rightarrow> binding list" where
  "execute_with_simple rx wc bs = map (with_project rx wc) bs"

definition filter_bindings_where :: "regex \<Rightarrow> where_clause option \<Rightarrow> binding list \<Rightarrow> binding list" where
  "filter_bindings_where rx w bs = filter (eval_where rx w) bs"

definition with_proj_key :: "return_clause \<Rightarrow> binding \<Rightarrow> string" where
  "with_proj_key wc b =
     take 1023 (concat (map (\<lambda>it. binding_get_virtual b (Some (resolve_item_alias it 256)) None @ ''|'')
                            (rc_items wc)))"

definition with_apply_distinct :: "return_clause \<Rightarrow> binding list \<Rightarrow> binding list" where
  "with_apply_distinct wc bs =
     keep_first (\<lambda>x y. strcmp (with_proj_key wc x) (with_proj_key wc y) = 0) [] bs"

definition execute_with_clause ::
  "regex \<Rightarrow> return_clause option \<Rightarrow> where_clause option \<Rightarrow> binding list \<Rightarrow> binding list" where
  "execute_with_clause rx with_clause post bs =
     (case with_clause of
        None \<Rightarrow> bs
      | Some wc \<Rightarrow>
          (let vbs = (if list_ex (\<lambda>it. is_aggregate_func (ri_func it)) (rc_items wc)
                      then execute_with_aggregate wc bs else execute_with_simple rx wc bs);
               vbs1 = (if rc_distinct wc then with_apply_distinct wc vbs else vbs);
               vbs2 = with_sort_skip_limit wc vbs1
           in if post \<noteq> None then filter_bindings_where rx post vbs2 else vbs2))"

section \<open>RETURN\<close>

text \<open>The row loop: one row per binding until the table has \<open>cap\<close> rows.\<close>

fun add_rows :: "int \<Rightarrow> (binding \<Rightarrow> string list) \<Rightarrow> binding list \<Rightarrow> result_builder \<Rightarrow> result_builder" where
  "add_rows cap f [] rb = rb"
| "add_rows cap f (b # bs) rb =
     (if int (length (rb_rows rb)) < cap then add_rows cap f bs (rb_add_row rb (f b)) else rb)"

definition collect_pattern_vars :: "pattern list \<Rightarrow> nat \<Rightarrow> string list" where
  "collect_pattern_vars pats max_vars =
     take max_vars
       (concat (map (\<lambda>p. List.map_filter np_variable (pt_nodes p) @
                         List.map_filter rp_variable (pt_rels p)) pats))"

definition build_star_columns :: "result_builder \<Rightarrow> string list \<Rightarrow> result_builder" where
  "build_star_columns rb vars =
     rb_set_columns rb
       (concat (map (\<lambda>v. [snprintf_buf 128 (v @ ''.name''), snprintf_buf 128 (v @ ''.qualified_name''),
                           snprintf_buf 128 (v @ ''.label''), snprintf_buf 128 (v @ ''.file_path'')])
                    vars))"

definition project_star_var :: "binding \<Rightarrow> string \<Rightarrow> string list" where
  "project_star_var b var =
     (case binding_get_edge b var of
        Some e \<Rightarrow> [edge_prop e (Some ''type''), [], [], []]
      | None \<Rightarrow>
          (case binding_get b var of
             Some n \<Rightarrow> [or_empty (n_name n), or_empty (n_qualified_name n), or_empty (n_label n),
                         or_empty (n_file_path n)]
           | None \<Rightarrow> [[], [], [], []]))"

definition project_star_row :: "string list \<Rightarrow> binding \<Rightarrow> string list" where
  "project_star_row vars b = concat (map (project_star_var b) vars)"

definition execute_return_star ::
  "pattern list \<Rightarrow> binding list \<Rightarrow> int \<Rightarrow> result_builder \<Rightarrow> result_builder" where
  "execute_return_star pats bs max_rows rb =
     (let vars = collect_pattern_vars pats 32
      in add_rows max_rows (project_star_row vars) bs (build_star_columns rb vars))"

fun join_quoted :: "string list \<Rightarrow> string" where
  "join_quoted [] = []"
| "join_quoted [s] = [CHR 0x22] @ s @ [CHR 0x22]"
| "join_quoted (s # ss) = [CHR 0x22] @ s @ [CHR 0x22] @ '','' @ join_quoted ss"

text \<open>COLLECT: a scratch buffer of 2048 bytes, then the buffer of the caller.\<close>

definition format_collect_list :: "string list \<Rightarrow> nat \<Rightarrow> string" where
  "format_collect_list items buf_sz =
     (let s = take 2047 (''['' @ join_quoted items)
      in snprintf_buf buf_sz (if length s < 2047 then s @ '']'' else s))"

definition format_agg_value :: "string \<Rightarrow> agg_cell \<Rightarrow> nat \<Rightarrow> string" where
  "format_agg_value func cell buf_sz =
     (if func = ''COLLECT'' then format_collect_list (ac_list cell) buf_sz
      else with_agg_format func cell buf_sz)"

definition ret_accumulate_cell :: "binding \<Rightarrow> return_item \<Rightarrow> agg_cell \<Rightarrow> agg_cell" where
  "ret_accumulate_cell b item cell =
     (case ri_func item of
        None \<Rightarrow> cell
      | Some f \<Rightarrow>
          (let raw = item_raw b item; c1 = accumulate_number raw cell in
           if f = ''COLLECT'' then c1\<lparr>ac_list := ac_list c1 @ [raw]\<rparr>
           else if ri_distinct item \<and> f = ''COUNT''
             then c1\<lparr>ac_list := distinct_list_add (ac_list c1) raw\<rparr> else c1))"

definition ret_agg_accumulate :: "return_clause \<Rightarrow> binding \<Rightarrow> agg_cell list \<Rightarrow> agg_cell list" where
  "ret_agg_accumulate ret b cells = map2 (ret_accumulate_cell b) (rc_items ret) cells"

text \<open>The projected values of a binding, as \<open>ret_agg_build_key\<close> leaves them in \<open>vals\<close>.\<close>

definition ret_group_val :: "regex \<Rightarrow> binding \<Rightarrow> return_item \<Rightarrow> string" where
  "ret_group_val rx b item =
     (if ri_func item \<noteq> None then ''0'' else snprintf_buf 512 (project_item rx b item 512))"

definition ret_agg_build_key :: "regex \<Rightarrow> return_clause \<Rightarrow> binding \<Rightarrow> string" where
  "ret_agg_build_key rx ret b =
     take 1023 (concat (map (\<lambda>it. ret_group_val rx b it @ ''|'') [it \<leftarrow> rc_items ret. ri_func it = None]))"

definition ret_agg_init_group :: "regex \<Rightarrow> return_clause \<Rightarrow> binding \<Rightarrow> agg_cell list" where
  "ret_agg_init_group rx ret b = map (\<lambda>it. init_cell (ret_group_val rx b it) 0) (rc_items ret)"

definition ret_emit_cell :: "return_item \<Rightarrow> agg_cell \<Rightarrow> string" where
  "ret_emit_cell item cell =
     (case ri_func item of
        None \<Rightarrow> ac_val cell
      | Some f \<Rightarrow>
          if ri_distinct item \<and> f = ''COUNT'' then snprintf_buf 64 (nat_digits (length (ac_list cell)))
          else format_agg_value f cell 64)"

definition ret_agg_emit_row :: "return_clause \<Rightarrow> result_builder \<Rightarrow> agg_group \<Rightarrow> result_builder" where
  "ret_agg_emit_row ret rb g = rb_add_row rb (map2 ret_emit_cell (rc_items ret) (ag_cells g))"

definition ret_agg_step :: "regex \<Rightarrow> return_clause \<Rightarrow> agg_group list \<Rightarrow> binding \<Rightarrow> agg_group list" where
  "ret_agg_step rx ret aggs b =
     (let (i, aggs1) = find_or_create (ret_agg_build_key rx ret b) (ret_agg_init_group rx ret b) aggs
      in update_group i (ret_agg_accumulate ret b) aggs1)"

fun ret_agg_loop ::
  "engine \<Rightarrow> return_clause \<Rightarrow> nat \<Rightarrow> binding list \<Rightarrow> agg_group list \<Rightarrow> xstate \<Rightarrow> agg_group list \<times> xstate"
where
  "ret_agg_loop E ret bi [] aggs x = (aggs, x)"
| "ret_agg_loop E ret bi (b # bs) aggs x =
     (case deadline_sampled E bi x of
        (True, x1) \<Rightarrow> (aggs, x1)
      | (False, x1) \<Rightarrow> ret_agg_loop E ret (Suc bi) bs (ret_agg_step (en_regex E) ret aggs b) x1)"

definition execute_return_agg ::
  "engine \<Rightarrow> return_clause \<Rightarrow> binding list \<Rightarrow> result_builder \<Rightarrow> xstate \<Rightarrow> result_builder \<times> xstate" where
  "execute_return_agg E ret bs rb x =
     (let (aggs, x1) = ret_agg_loop E ret 0 bs [] x in (foldl (ret_agg_emit_row ret) rb aggs, x1))"

definition return_column :: "return_item \<Rightarrow> string" where
  "return_column item =
     (case ri_alias item of
        Some a \<Rightarrow> a
      | None \<Rightarrow>
          (case ri_func item of
             Some f \<Rightarrow> snprintf_buf 128 (f @ ''('' @ fmt_s (ri_variable item) @ '')'')
           | None \<Rightarrow>
               if ri_kase item \<noteq> None then ''CASE''
               else (case ri_property item of
                       Some p \<Rightarrow> snprintf_buf 128 (fmt_s (ri_variable item) @ ''.'' @ p)
                     | None \<Rightarrow> deref (ri_variable item))))"

definition build_return_columns :: "result_builder \<Rightarrow> return_clause \<Rightarrow> result_builder" where
  "build_return_columns rb ret = rb_set_columns rb (map return_column (rc_items ret))"

definition project_row :: "regex \<Rightarrow> return_clause \<Rightarrow> binding \<Rightarrow> string list" where
  "project_row rx ret b = map (\<lambda>it. project_item rx b it 512) (rc_items ret)"

definition execute_return_simple ::
  "regex \<Rightarrow> return_clause \<Rightarrow> binding list \<Rightarrow> int \<Rightarrow> result_builder \<Rightarrow> result_builder" where
  "execute_return_simple rx ret bs max_rows rb =
     (let proj_cap = (if 0 < rc_limit ret \<and> \<not> rc_distinct ret \<and> rc_order_by ret = None \<and> rc_skip ret \<le> 0
                      then rc_limit ret else max_rows)
      in add_rows proj_cap (project_row rx ret) bs rb)"

definition build_default_columns :: "result_builder \<Rightarrow> string list \<Rightarrow> result_builder" where
  "build_default_columns rb vars =
     rb_set_columns rb
       (concat (map (\<lambda>v. [snprintf_buf 128 (v @ ''.name''), snprintf_buf 128 (v @ ''.qualified_name''),
                           snprintf_buf 128 (v @ ''.label'')]) vars))"

definition project_default_var :: "binding \<Rightarrow> string \<Rightarrow> string list" where
  "project_default_var b var =
     (case binding_get b var of
        Some n \<Rightarrow> [or_empty (n_name n), or_empty (n_qualified_name n), or_empty (n_label n)]
      | None \<Rightarrow> [[], [], []])"

definition execute_default_projection ::
  "pattern \<Rightarrow> binding list \<Rightarrow> int \<Rightarrow> result_builder \<Rightarrow> result_builder" where
  "execute_default_projection pat0 bs max_rows rb =
     (let vars = take CYP_MAX_VARS (List.map_filter np_variable (pt_nodes pat0))
      in add_rows max_rows (\<lambda>b. concat (map (project_default_var b) vars)) bs
           (build_default_columns rb vars))"

definition execute_return_clause ::
  "engine \<Rightarrow> pattern list \<Rightarrow> return_clause \<Rightarrow> binding list \<Rightarrow> int \<Rightarrow> result_builder \<Rightarrow> xstate \<Rightarrow>
   result_builder \<times> xstate" where
  "execute_return_clause E pats ret bs max_rows rb x =
     (let has_agg = list_ex (\<lambda>it. is_aggregate_func (ri_func it)) (rc_items ret);
          (rb1, x1) =
            (if rc_star ret then (execute_return_star pats bs max_rows rb, x)
             else
               (let rb0 = build_return_columns rb ret in
                if has_agg then execute_return_agg E ret bs rb0 x
                else (execute_return_simple (en_regex E) ret bs max_rows rb0, x)));
          rb2 = (if rc_distinct ret then rb_apply_distinct rb1 else rb1);
          rb3 = rb_apply_order_by rb2 ret
      in (rb_apply_skip_limit rb3 (rc_skip ret) (if 0 \<le> rc_limit ret then rc_limit ret else max_rows), x1))"

end
