(* ===== verification/Cyp_Execute.thy ===== *)
theory Cyp_Execute
  imports Cyp_Match Cyp_Project Cyp_Parser
begin

text \<open>
  Executing a query (src/src/cypher/cypher.c): one query from its first scan to its result table,
  and the entry point \<open>pmm_cypher_execute\<close> with the UNION chain, the execution deadline, the
  ceiling on the rows and the warning for a clamped hop range.
\<close>

record cypher_result =
  cr_columns :: "string list"
  cr_rows :: "string list list"
  cr_error :: "string option"
  cr_warning :: "string option"

definition empty_cypher_result :: cypher_result where
  "empty_cypher_result = \<lparr>cr_columns = [], cr_rows = [], cr_error = None, cr_warning = None\<rparr>"

section \<open>One query\<close>

text \<open>The first variable of a row, with the store in the binding.\<close>

definition seed_binding :: "store_ops \<Rightarrow> string \<Rightarrow> pmm_node \<Rightarrow> binding" where
  "seed_binding S var n = binding_set (empty_binding\<lparr>b_store := Some S\<rparr>) var n"

text \<open>The loop over the scanned nodes with the early WHERE.\<close>

fun seed_loop ::
  "engine \<Rightarrow> store_ops \<Rightarrow> where_clause option \<Rightarrow> string \<Rightarrow> int \<Rightarrow> nat \<Rightarrow> pmm_node list \<Rightarrow> binding list \<Rightarrow>
   xstate \<Rightarrow> binding list \<times> xstate" where
  "seed_loop E S w var bind_cap i [] bs x = (bs, x)"
| "seed_loop E S w var bind_cap i (n # ns) bs x =
     (if bind_cap \<le> int (length bs) then (bs, x)
      else
        (case deadline_sampled E i x of
           (True, x1) \<Rightarrow> (bs, x1)
         | (False, x1) \<Rightarrow>
             (let (bs1, x2) = (if eval_where (en_regex E) w (seed_binding S var n)
                               then push_binding (bind_cap + 1) (seed_binding S var n) bs x1 else (bs, x1))
              in seed_loop E S w var bind_cap (Suc i) ns bs1 x2)))"

definition bind_capacity :: "nat \<Rightarrow> int \<Rightarrow> int" where
  "bind_capacity scan_count max_rows =
     (if max_rows < int scan_count then int scan_count else if 0 < max_rows then max_rows else 1)"

text \<open>Step 1: the scan of the first node pattern and the variable it binds.\<close>

definition start_scan :: "engine \<Rightarrow> store_ops \<Rightarrow> query \<Rightarrow> string option \<Rightarrow> int \<Rightarrow> pmm_node list" where
  "start_scan E S q project max_rows =
     scan_pattern_nodes (en_regex E) S project max_rows (hd (pt_nodes (hd (q_patterns q))))"

definition start_var :: "query \<Rightarrow> string" where
  "start_var q =
     (case np_variable (hd (pt_nodes (hd (q_patterns q)))) of Some v \<Rightarrow> v | None \<Rightarrow> ''_n0'')"

text \<open>Step 3 filters again unless the early WHERE has seen the whole row.\<close>

definition late_where :: "query \<Rightarrow> bool" where
  "late_where q \<longleftrightarrow>
     q_where q \<noteq> None \<and> (pt_rels (hd (q_patterns q)) \<noteq> [] \<or> 1 < length (q_patterns q))"

text \<open>Steps 1 to 3: the bindings that match the patterns and the WHERE.\<close>

definition match_bindings ::
  "engine \<Rightarrow> store_ops \<Rightarrow> query \<Rightarrow> string option \<Rightarrow> int \<Rightarrow> xstate \<Rightarrow> binding list \<times> xstate" where
  "match_bindings E S q project max_rows x =
     (let scanned = start_scan E S q project max_rows;
          bind_cap = bind_capacity (length scanned) max_rows;
          (bs, x1) = seed_loop E S (q_where q) (start_var q) bind_cap 0 scanned [] x;
          (bs1, _, x2) = expand_pattern_rels E S (hd (q_pattern_optional q)) bind_cap
                           (pattern_steps (hd (q_patterns q))) (start_var q) bs x1;
          (bs2, x3) = expand_additional_patterns E S project max_rows bind_cap
                        (zip (tl (q_patterns q)) (tl (q_pattern_optional q))) bs1 x2
      in (if late_where q then filter_bindings_where (en_regex E) (q_where q) bs2 else bs2, x3))"

definition execute_single ::
  "engine \<Rightarrow> store_ops \<Rightarrow> query \<Rightarrow> string option \<Rightarrow> int \<Rightarrow> xstate \<Rightarrow> result_builder \<times> xstate" where
  "execute_single E S q project max_rows x =
     (let (bs, x1) = match_bindings E S q project max_rows x;
          bs1 = execute_with_clause (en_regex E) (q_with_clause q) (q_post_with_where q) bs
      in case q_ret q of
           Some ret \<Rightarrow> execute_return_clause E (q_patterns q) ret bs1 max_rows rb_init x1
         | None \<Rightarrow> (execute_default_projection (hd (q_patterns q)) bs1 max_rows rb_init, x1))"

section \<open>The UNION chain\<close>

text \<open>Appending the rows of another table reads as many values as this one has columns.\<close>

definition union_append :: "result_builder \<Rightarrow> result_builder \<Rightarrow> xstate \<Rightarrow> result_builder \<times> xstate" where
  "union_append rb rb2 x =
     (foldl rb_add_row rb (rb_rows rb2),
      if rb_rows rb2 \<noteq> [] \<and> length (rb_columns rb2) < length (rb_columns rb)
      then x\<lparr>x_out_of_bounds := True\<rparr> else x)"

fun union_chain :: "query option \<Rightarrow> query list" where
  "union_chain None = []"
| "union_chain (Some (Query pats opts w wc pw r nxt alls ue ua)) =
     Query pats opts w wc pw r nxt alls ue ua # union_chain nxt"

fun union_loop ::
  "engine \<Rightarrow> store_ops \<Rightarrow> string option \<Rightarrow> int \<Rightarrow> query list \<Rightarrow> result_builder \<Rightarrow> xstate \<Rightarrow>
   result_builder \<times> xstate" where
  "union_loop E S project max_rows [] rb x = (rb, x)"
| "union_loop E S project max_rows (q # qs) rb x =
     (let (rb2, x1) = execute_single E S q project max_rows x;
          (rb3, x2) = union_append rb rb2 x1
      in union_loop E S project max_rows qs rb3 x2)"

section \<open>The entry point\<close>

text \<open>The dash in the messages is the three bytes of U+2014.\<close>

definition em_dash :: string where
  "em_dash = [CHR 0xE2, CHR 0x80, CHR 0x94]"

definition deadline_error :: string where
  "deadline_error =
     ''query exceeded the execution time limit '' @ em_dash @ '' narrow the pattern with a WHERE '' @
     ''filter, use a directed MATCH instead of an unbounded OPTIONAL MATCH, or add LIMIT''"

definition ceiling_error :: string where
  "ceiling_error = ''result exceeded 100k rows '' @ em_dash @ '' use narrower filters or add LIMIT''"

definition clamp_warning :: "int \<Rightarrow> string" where
  "clamp_warning cap =
     snprintf_buf 256
       (''variable-length hop range clamped to the engine ceiling ('' @ show_int cap @ '') '' @ em_dash @
        '' an empty result may mean '' @ [CHR 0x22] @ ''clamped'' @ [CHR 0x22] @ '', not '' @
        [CHR 0x22] @ ''no such path'' @ [CHR 0x22])"

definition effective_max_rows :: "int \<Rightarrow> int" where
  "effective_max_rows max_rows = (if max_rows \<le> 0 then CYPHER_RESULT_CEILING else max_rows)"

text \<open>The table of a parsed query, before the last checks.\<close>

definition run_query ::
  "engine \<Rightarrow> store_ops \<Rightarrow> query \<Rightarrow> string option \<Rightarrow> int \<Rightarrow> xstate \<Rightarrow> result_builder \<times> xstate" where
  "run_query E S q project max_rows x =
     (let (rb, x1) = execute_single E S q project max_rows x;
          (rb1, x2) = union_loop E S project max_rows (union_chain (q_union_next q)) rb x1
      in (if q_union_next q \<noteq> None \<and> \<not> q_union_all q then rb_apply_distinct rb1 else rb1, x2))"

definition finish_query :: "result_builder \<Rightarrow> xstate \<Rightarrow> int \<times> cypher_result" where
  "finish_query rb x =
     (if x_timed_out x then (-1, empty_cypher_result\<lparr>cr_error := Some deadline_error\<rparr>)
      else if CYPHER_RESULT_CEILING \<le> int (length (rb_rows rb)) then
        (-1, empty_cypher_result\<lparr>cr_error := Some ceiling_error\<rparr>)
      else
        (0, \<lparr>cr_columns = rb_columns rb, cr_rows = rb_rows rb, cr_error = None,
             cr_warning = (if 0 < x_depth_clamped x then Some (clamp_warning (x_depth_clamped x))
                           else None)\<rparr>))"

definition pmm_cypher_execute ::
  "engine \<Rightarrow> store_ops \<Rightarrow> string option \<Rightarrow> string option \<Rightarrow> int \<Rightarrow> (int \<times> cypher_result \<times> xstate) option"
where
  "pmm_cypher_execute E S query project max_rows =
     (let x = cypher_deadline_arm E in
      case pmm_cypher_parse query of
        None \<Rightarrow> None
      | Some (rc, q, err) \<Rightarrow>
          if rc < 0 then Some (-1, empty_cypher_result\<lparr>cr_error := err\<rparr>, x)
          else
            (case q of
               None \<Rightarrow> None
             | Some qq \<Rightarrow>
                 (let (rb, x1) = run_query E S qq project (effective_max_rows max_rows) x;
                      (rc1, out) = finish_query rb x1
                  in Some (rc1, out, x1))))"

end
