(* ===== verification/Cyp_Match_Facts.thy ===== *)
theory Cyp_Match_Facts
  imports Cyp_Match
begin

text \<open>
  Facts on matching: how an execution moves its state, the guarded append loop as filter and
  take, expansion of one hop and of a range of hops against the contract of the store, and the
  capacities of the arrays of new bindings.
\<close>

section \<open>How the state moves\<close>

text \<open>The deadline stays, the marks are sticky, and a clock that never reaches the deadline never
  times out.\<close>

definition x_moves :: "engine \<Rightarrow> xstate \<Rightarrow> xstate \<Rightarrow> bool" where
  "x_moves E x y \<longleftrightarrow> x_deadline_ms y = x_deadline_ms x \<and> (x_timed_out x \<longrightarrow> x_timed_out y) \<and>
     (x_out_of_bounds x \<longrightarrow> x_out_of_bounds y) \<and>
     ((\<forall>i. en_now_ms E i < x_deadline_ms x) \<longrightarrow> x_timed_out y \<longrightarrow> x_timed_out x)"

lemma x_moves_refl [simp, intro]: "x_moves E x x"
  by (simp add: x_moves_def)

lemma x_moves_trans [trans]:
  assumes "x_moves E x y" "x_moves E y z"
  shows "x_moves E x z"
proof -
  have d: "x_deadline_ms y = x_deadline_ms x" "x_deadline_ms z = x_deadline_ms x"
    using assms by (auto simp: x_moves_def)
  show ?thesis using assms unfolding x_moves_def d by blast
qed

lemma x_moves_marks [intro]:
  "x_moves E x (x\<lparr>x_out_of_bounds := True\<rparr>)" "x_moves E x (x\<lparr>x_depth_clamped := d\<rparr>)"
  by (simp_all add: x_moves_def)

lemma x_moves_clock:
  "x_moves E x (x\<lparr>x_clock_reads := k\<rparr>)"
  "x_deadline_ms x \<le> en_now_ms E i \<Longrightarrow> x_moves E x (x\<lparr>x_clock_reads := k, x_timed_out := True\<rparr>)"
  by (simp_all add: x_moves_def) (meson linorder_not_less)

lemma exceeded_moves: "cypher_deadline_exceeded E x = (s, y) \<Longrightarrow> x_moves E x y"
  unfolding cypher_deadline_exceeded_def Let_def
  by (split if_split_asm; clarsimp simp: x_moves_clock split: if_splits)

lemma sampled_moves: "deadline_sampled E i x = (s, y) \<Longrightarrow> x_moves E x y"
  by (auto simp: deadline_sampled_def dest: exceeded_moves split: if_splits)

lemma sampled_stops: "deadline_sampled E i x = (True, y) \<Longrightarrow> x_timed_out y"
  by (rule deadline_sampled_frame(5)) auto

lemma exceeded_stops: "cypher_deadline_exceeded E x = (True, y) \<Longrightarrow> x_timed_out y"
  by (rule deadline_exceeded_frame(5)) auto

lemma var_length_moves:
  "expand_var_length E S rel target b src to_var max_new news x = (nw, y) \<Longrightarrow> x_moves E x y"
  by (auto simp: expand_var_length_def Let_def split: if_splits)

lemma check_moves: "x_moves E x (check_array alloc news x)"
  by (auto simp: check_array_def)

lemma check_array_within: "int (length news) \<le> alloc \<Longrightarrow> check_array alloc news x = x"
  by (simp add: check_array_def)

lemma push_moves: "push_binding alloc nb news x = (nw, y) \<Longrightarrow> x_moves E x y"
  by (auto simp: push_binding_def check_moves)

lemma expand_one_moves:
  assumes "expand_one E S rel target var_name to_var opt cap b news x = (nw, y)"
  shows "x_moves E x y"
proof (cases "binding_get b var_name")
  case (Some src)
  obtain news1 x1 where e:
    "(if is_variable_length rel
      then expand_var_length E S rel target b src to_var (int32 (cap * 10)) news x
      else (expand_fixed_length (en_regex E) S rel target b src to_var (int32 (cap * 10)) news, x)) =
     (news1, x1)" by fastforce
  then have "x_moves E x x1" by (auto simp: var_length_moves split: if_splits)
  moreover have "x_moves E x1 (check_array (cap * 10 + 1) news1 x1)" by (rule check_moves)
  moreover have "x_moves E (check_array (cap * 10 + 1) news1 x1) y"
    using assms Some e by (auto simp: expand_one_def Let_def push_moves split: if_splits)
  ultimately show ?thesis by (meson x_moves_trans)
qed (use assms in \<open>simp add: expand_one_def\<close>)

lemma expand_bindings_moves:
  "expand_bindings E S rel target var_name to_var opt cap bi bs news x = (nw, y) \<Longrightarrow> x_moves E x y"
proof (induction bs arbitrary: bi news x)
  case (Cons b bs)
  obtain s x1 where d: "deadline_sampled E bi x = (s, x1)" by fastforce
  obtain n1 x2 where o: "expand_one E S rel target var_name to_var opt cap b news x1 = (n1, x2)"
    by fastforce
  have "x_moves E x1 y"
    using Cons d o expand_one_moves [OF o] by (cases s) (auto intro: x_moves_trans)
  then show ?case using sampled_moves [OF d] x_moves_trans by blast
qed simp

lemma expand_rels_moves:
  "expand_pattern_rels E S opt cap rts var bs x = (bs', v', y) \<Longrightarrow> x_moves E x y"
proof (induction rts arbitrary: var bs x)
  case (Cons rt rts)
  obtain rel target where rt: "rt = (rel, target)" by fastforce
  obtain s x1 where d: "cypher_deadline_exceeded E x = (s, x1)" by fastforce
  let ?to = "case np_variable target of Some v \<Rightarrow> v | None \<Rightarrow> ''_n_t''"
  obtain n1 x2 where o: "expand_bindings E S rel target var ?to opt cap 0 bs [] x1 = (n1, x2)"
    by fastforce
  have "x_moves E x1 y"
    using Cons d o rt expand_bindings_moves [OF o]
    by (cases s) (auto simp: Let_def intro: x_moves_trans)
  then show ?case using exceeded_moves [OF d] x_moves_trans by blast
qed simp

lemma cross_join_row_moves:
  "cross_join_row E S p nvar opt b ns x = (nw, y) \<Longrightarrow> x_moves E x y"
proof (induction ns arbitrary: x nw)
  case (Cons n ns)
  obtain t v x1 where o:
    "expand_pattern_rels E S opt 1 (pattern_steps p) nvar [binding_set b nvar n] x = (t, v, x1)"
    by (metis prod_cases3)
  obtain r x2 where "cross_join_row E S p nvar opt b ns x1 = (r, x2)" by fastforce
  then show ?case using Cons o expand_rels_moves [OF o] by (auto intro: x_moves_trans)
qed simp

lemma cross_join_rows_moves:
  "cross_join_rows E S p nvar opt extra bs x = (nw, y) \<Longrightarrow> x_moves E x y"
proof (induction bs arbitrary: x nw)
  case (Cons b bs)
  obtain r x1 where o:
    "(if opt \<and> extra = [] then ([b], x) else cross_join_row E S p nvar opt b extra x) = (r, x1)"
    by fastforce
  then have m: "x_moves E x x1" by (auto dest: cross_join_row_moves split: if_splits)
  obtain r2 x2 where "cross_join_rows E S p nvar opt extra bs x1 = (r2, x2)" by fastforce
  then show ?case using Cons o m by (auto simp: Let_def intro: x_moves_trans split: if_splits)
qed simp

lemma additional_pattern_moves:
  assumes "expand_additional_pattern E S project max_rows cap po bs x = (nw, y)"
  shows "x_moves E x y"
proof -
  obtain p opt where po: "po = (p, opt)" by fastforce
  let ?nvar = "case np_variable (pt_nodes p ! 0) of Some v \<Rightarrow> v | None \<Rightarrow> ''_n_extra''"
  have nodes: "x_moves E x (snd (cross_join_nodes bs extra v opt x))" for extra v
    by (simp add: cross_join_nodes_def Let_def check_moves)
  have rels: "x_moves E x (snd (cross_join_with_rels E S p bs extra v opt x))" for extra v
    by (auto simp: cross_join_with_rels_def Let_def split: prod.split
        dest!: cross_join_rows_moves intro: x_moves_trans check_moves)
  have bound: "x_moves E x (snd (expand_from_bound_terminal S p bs v opt x))" for v
    by (simp add: expand_from_bound_terminal_def Let_def check_moves)
  have steps: "x_moves E x (snd (snd (expand_pattern_rels E S opt cap (pattern_steps p) v bs x)))" for v
    by (metis expand_rels_moves prod.collapse)
  have "x_moves E x (snd (expand_additional_pattern E S project max_rows cap (p, opt) bs x))"
    unfolding expand_additional_pattern_def Let_def by (simp add: split_beta nodes rels steps bound)
  then show ?thesis using assms po by simp
qed

lemma additional_patterns_moves:
  "expand_additional_patterns E S project max_rows cap pos bs x = (nw, y) \<Longrightarrow> x_moves E x y"
proof (induction pos arbitrary: bs x)
  case (Cons po pos)
  obtain b1 x1 where o: "expand_additional_pattern E S project max_rows cap po bs x = (b1, x1)"
    by fastforce
  then show ?case using Cons additional_pattern_moves [OF o] by (auto intro: x_moves_trans)
qed simp

section \<open>The guarded append loop\<close>

lemma append_while_eq:
  "append_while m f es news = news @ take (nat (m - int (length news))) (List.map_filter f es)"
proof (induction es arbitrary: news)
  case (Cons e es)
  have s: "nat (m - int (length news)) = Suc (nat (m - int (Suc (length news))))"
    if "\<not> m \<le> int (length news)" using that by simp
  show ?case
    using Cons s by (auto simp: map_filter_simps split: option.splits)
qed (simp add: map_filter_simps)

lemma append_while_length: "int (length (append_while m f es news)) \<le> max m (int (length news))"
  by (simp add: append_while_eq)

lemma append_while_prefix: "\<exists>t. append_while m f es news = news @ t"
  by (simp add: append_while_eq)

lemma append_while_all:
  "int (length news + length (List.map_filter f es)) \<le> m \<Longrightarrow>
   append_while m f es news = news @ List.map_filter f es"
  by (simp add: append_while_eq)

lemma map_filter_append: "List.map_filter f (xs @ ys) = List.map_filter f xs @ List.map_filter f ys"
  by (simp add: List.map_filter_def)

lemma length_map_filter: "length (List.map_filter f xs) \<le> length xs"
  by (simp add: List.map_filter_def)

lemma set_map_filter: "y \<in> set (List.map_filter f xs) \<longleftrightarrow> (\<exists>x\<in>set xs. f x = Some y)"
  by (auto simp: List.map_filter_def image_iff)

text \<open>Appending the results for several lists in turn.\<close>

lemma foldl_append_while:
  "int (length news + length (List.map_filter f (concat ess))) \<le> m \<Longrightarrow>
   foldl (\<lambda>nw es. append_while m f es nw) news ess = news @ List.map_filter f (concat ess)"
  by (induction ess arbitrary: news) (simp_all add: append_while_all map_filter_append map_filter_simps)

lemma foldl_append_while_length:
  "int (length (foldl (\<lambda>nw es. append_while m f es nw) news ess)) \<le> max m (int (length news))"
proof (induction ess arbitrary: news)
  case (Cons es ess)
  show ?case
    using Cons [of "append_while m f es news"] append_while_length [of m f es news] by auto
qed simp

section \<open>Label alternations\<close>

lemma split_bar_segments:
  "split_bar acc seg = (acc @ takeWhile (\<lambda>c. c \<noteq> CHR ''|'') seg) #
     (case dropWhile (\<lambda>c. c \<noteq> CHR ''|'') seg of [] \<Rightarrow> [] | _ # rest \<Rightarrow> split_bar [] rest)"
  by (induction acc seg rule: split_bar.induct) simp_all

lemma alt_loop_iff: "a \<noteq> [] \<Longrightarrow> alt_loop a seg \<longleftrightarrow> a \<in> set (split_bar [] seg)"
proof (induction a seg rule: alt_loop.induct)
  case (1 a seg)
  have unfold: "alt_loop a seg \<longleftrightarrow> seg \<noteq> [] \<and> (takeWhile (\<lambda>c. c \<noteq> CHR ''|'') seg = a \<or>
      (case dropWhile (\<lambda>c. c \<noteq> CHR ''|'') seg of [] \<Rightarrow> False | _ # rest \<Rightarrow> alt_loop a rest))"
    by (subst alt_loop.simps) simp
  show ?case
  proof (cases "seg = [] \<or> takeWhile (\<lambda>c. c \<noteq> CHR ''|'') seg = a")
    case True
    then show ?thesis
      using "1.prems" split_bar_segments [of "[]" seg] by (auto simp: unfold)
  next
    case False
    show ?thesis
    proof (cases "dropWhile (\<lambda>c. c \<noteq> CHR ''|'') seg")
      case Nil
      have "split_bar [] seg = [takeWhile (\<lambda>c. c \<noteq> CHR ''|'') seg]"
        by (simp only: split_bar_segments [of "[]" seg] Nil list.case append_Nil)
      then show ?thesis unfolding unfold using Nil False by (simp only: list.case) auto
    next
      case (Cons d rest)
      have "alt_loop a rest \<longleftrightarrow> a \<in> set (split_bar [] rest)"
        using False by (intro "1.IH" [OF _ _ Cons "1.prems"]) auto
      moreover have "split_bar [] seg = takeWhile (\<lambda>c. c \<noteq> CHR ''|'') seg # split_bar [] rest"
        by (simp only: split_bar_segments [of "[]" seg] Cons list.case append_Nil)
      ultimately show ?thesis unfolding unfold using Cons False by (simp only: list.case) auto
    qed
  qed
qed

lemma split_bar_plain: "CHR ''|'' \<notin> set seg \<Longrightarrow> split_bar acc seg = [acc @ seg]"
  by (induction acc seg rule: split_bar.induct) auto

text \<open>Both tests of a label against a pattern are membership in its segments.\<close>

lemma label_alt_matches_segments:
  "a \<noteq> [] \<Longrightarrow> label_alt_matches (Some a) (Some p) \<longleftrightarrow> a \<in> set (split_bar [] p)"
  by (auto simp: label_alt_matches_def strchr_def alt_loop_iff split_bar_plain)

definition label_scan :: "store_ops \<Rightarrow> string option \<Rightarrow> string \<Rightarrow> pmm_node list" where
  "label_scan S project l = (if strchr l (CHR ''|'') then scan_alternation_labels S project l
                             else so_find_nodes_by_label S project l)"

context store_laws
begin

lemma label_scan_iff:
  assumes "n_label n \<noteq> Some []"
  shows "n \<in> set (label_scan S p l) \<longleftrightarrow>
    n \<in> set (t_nodes D) \<and> p \<noteq> None \<and> n_project n = p \<and> label_alt_matches (n_label n) (Some l)"
proof (cases "n_label n")
  case None
  then show ?thesis
    by (auto simp: label_scan_def scan_alternation_labels_def by_label label_alt_matches_def)
next
  case (Some a)
  then have a: "a \<noteq> []" using assms by auto
  show ?thesis
    using Some a label_alt_matches_segments [OF a, of l] split_bar_plain [of l "[]"]
    by (auto simp: label_scan_def scan_alternation_labels_def by_label strchr_def)
qed

end

section \<open>One hop\<close>

text \<open>The edges that \<open>expand_fixed_length\<close> looks at, with the side it looks from.\<close>

definition hop_edges :: "store_ops \<Rightarrow> rel_pattern \<Rightarrow> int \<Rightarrow> bool \<Rightarrow> pmm_edge list" where
  "hop_edges S rel i inb =
     (if rp_types rel \<noteq> [] then
        concat (map (if inb then so_find_edges_by_target_type S i else so_find_edges_by_source_type S i)
                 (rp_types rel))
      else if inb then so_find_edges_by_target S i else so_find_edges_by_source S i)"

definition hop_sides :: "rel_pattern \<Rightarrow> bool list" where
  "hop_sides rel = (if rp_direction rel = Some ''inbound'' then [True]
                    else if rp_direction rel = Some ''any'' then [False, True] else [False])"

text \<open>All the bindings of one hop, without a cap.\<close>

definition hop_rows ::
  "regex \<Rightarrow> store_ops \<Rightarrow> rel_pattern \<Rightarrow> node_pattern \<Rightarrow> binding \<Rightarrow> pmm_node \<Rightarrow> string \<Rightarrow> binding list" where
  "hop_rows rx S rel target b src to_var =
     concat (map (\<lambda>inb. List.map_filter (edge_binding rx S inb target b to_var (rp_variable rel))
                           (hop_edges S rel (n_id src) inb)) (hop_sides rel))"

text \<open>One side of a hop.\<close>

definition side_rows ::
  "regex \<Rightarrow> store_ops \<Rightarrow> rel_pattern \<Rightarrow> node_pattern \<Rightarrow> binding \<Rightarrow> pmm_node \<Rightarrow> string \<Rightarrow> int \<Rightarrow> bool \<Rightarrow>
   binding list \<Rightarrow> binding list" where
  "side_rows rx S rel target b src to_var m inb news =
     foldl (\<lambda>nw es. append_while m (edge_binding rx S inb target b to_var (rp_variable rel)) es nw) news
       (if rp_types rel \<noteq> [] then
          map (if inb then so_find_edges_by_target_type S (n_id src)
               else so_find_edges_by_source_type S (n_id src)) (rp_types rel)
        else [if inb then so_find_edges_by_target S (n_id src)
              else so_find_edges_by_source S (n_id src)])"

lemma foldl_map_list: "foldl f a (map g xs) = foldl (\<lambda>x y. f x (g y)) a xs"
  by (induction xs arbitrary: a) auto

lemma expand_fixed_length_sides:
  "expand_fixed_length rx S rel target b src to_var m news =
     foldl (\<lambda>nw inb. side_rows rx S rel target b src to_var m inb nw) news (hop_sides rel)"
  by (simp add: expand_fixed_length_def side_rows_def hop_sides_def process_edges_def foldl_map_list
      Let_def)

lemma side_rows_length:
  "int (length (side_rows rx S rel target b src to_var m inb news)) \<le> max m (int (length news))"
  unfolding side_rows_def by (rule foldl_append_while_length)

lemma expand_fixed_length_bound:
  "int (length (expand_fixed_length rx S rel target b src to_var m news)) \<le> max m (int (length news))"
proof -
  have "int (length (foldl (\<lambda>nw inb. side_rows rx S rel target b src to_var m inb nw) news sides)) \<le>
      max m (int (length news))" for sides
  proof (induction sides arbitrary: news)
    case (Cons inb sides)
    show ?case
      using Cons [of "side_rows rx S rel target b src to_var m inb news"]
        side_rows_length [of rx S rel target b src to_var m inb news] by auto
  qed simp
  then show ?thesis by (simp add: expand_fixed_length_sides)
qed

text \<open>Whatever the cap, only rows of the hop are appended.\<close>

lemma foldl_append_while_subset:
  "set (foldl (\<lambda>nw es. append_while m f es nw) news ess) \<subseteq> set news \<union> set (List.map_filter f (concat ess))"
proof (induction ess arbitrary: news)
  case (Cons es ess)
  have "set (append_while m f es news) \<subseteq> set news \<union> set (List.map_filter f es)"
    by (auto simp: append_while_eq dest: in_set_takeD)
  then show ?case using Cons [of "append_while m f es news"] by (auto simp: map_filter_append)
qed simp

lemma side_rows_subset:
  "set (side_rows rx S rel target b src to_var m inb news) \<subseteq> set news \<union>
    set (List.map_filter (edge_binding rx S inb target b to_var (rp_variable rel)) (hop_edges S rel (n_id src) inb))"
  unfolding side_rows_def
  by (rule order_trans [OF foldl_append_while_subset]) (simp add: hop_edges_def)

lemma expand_fixed_length_subset:
  "set (expand_fixed_length rx S rel target b src to_var m news) \<subseteq>
   set news \<union> set (hop_rows rx S rel target b src to_var)"
proof -
  have "set (foldl (\<lambda>nw inb. side_rows rx S rel target b src to_var m inb nw) news sides) \<subseteq>
    set news \<union> (\<Union>inb\<in>set sides. set (List.map_filter
      (edge_binding rx S inb target b to_var (rp_variable rel)) (hop_edges S rel (n_id src) inb)))" for sides
  proof (induction sides arbitrary: news)
    case (Cons inb sides)
    then show ?case
      using Cons [of "side_rows rx S rel target b src to_var m inb news"]
        side_rows_subset [of rx S rel target b src to_var m inb news] by fastforce
  qed simp
  then show ?thesis by (simp add: expand_fixed_length_sides hop_rows_def)
qed

lemma side_rows_all:
  assumes "int (length news + length (List.map_filter
      (edge_binding rx S inb target b to_var (rp_variable rel)) (hop_edges S rel (n_id src) inb))) \<le> m"
  shows "side_rows rx S rel target b src to_var m inb news =
    news @ List.map_filter (edge_binding rx S inb target b to_var (rp_variable rel))
             (hop_edges S rel (n_id src) inb)"
  unfolding side_rows_def
  by (subst foldl_append_while) (use assms in \<open>auto simp: hop_edges_def\<close>)

lemma expand_fixed_length_all:
  assumes "int (length news + length (hop_rows rx S rel target b src to_var)) \<le> m"
  shows "expand_fixed_length rx S rel target b src to_var m news =
    news @ hop_rows rx S rel target b src to_var"
proof -
  have "foldl (\<lambda>nw inb. side_rows rx S rel target b src to_var m inb nw) news sides =
      news @ concat (map (\<lambda>inb. List.map_filter (edge_binding rx S inb target b to_var (rp_variable rel))
                                 (hop_edges S rel (n_id src) inb)) sides)"
    if "int (length news + length (concat (map (\<lambda>inb. List.map_filter
            (edge_binding rx S inb target b to_var (rp_variable rel))
            (hop_edges S rel (n_id src) inb)) sides))) \<le> m" for sides
    using that by (induction sides arbitrary: news) (simp_all add: side_rows_all)
  then show ?thesis using assms by (simp add: expand_fixed_length_sides hop_rows_def)
qed

text \<open>The specification: the bindings that extend \<open>b\<close> along one edge of the graph.\<close>

definition edge_joins :: "rel_pattern \<Rightarrow> pmm_edge \<Rightarrow> int \<Rightarrow> int \<Rightarrow> bool" where
  "edge_joins rel e i j \<longleftrightarrow>
     (rp_types rel = [] \<or> (\<exists>t\<in>set (rp_types rel). e_type e = Some t)) \<and>
     ((rp_direction rel \<noteq> Some ''inbound'' \<and> e_source_id e = i \<and> j = e_target_id e) \<or>
      (rp_direction rel \<in> {Some ''inbound'', Some ''any''} \<and> e_target_id e = i \<and> j = e_source_id e))"

definition node_admitted :: "regex \<Rightarrow> store_ops \<Rightarrow> node_pattern \<Rightarrow> pmm_node \<Rightarrow> bool" where
  "node_admitted rx S target m \<longleftrightarrow> label_alt_matches (n_label m) (np_label target) \<and>
     check_inline_props rx m (np_props target) (Some S)"

definition one_hop ::
  "regex \<Rightarrow> store_ops \<Rightarrow> tables \<Rightarrow> rel_pattern \<Rightarrow> node_pattern \<Rightarrow> binding \<Rightarrow> pmm_node \<Rightarrow> string \<Rightarrow>
   binding \<Rightarrow> bool" where
  "one_hop rx S D rel target b src to_var nb \<longleftrightarrow>
     (\<exists>e\<in>set (t_edges D). \<exists>m\<in>set (t_nodes D).
        edge_joins rel e (n_id src) (n_id m) \<and> node_admitted rx S target m \<and>
        (\<forall>old. binding_get b to_var = Some old \<longrightarrow> n_id m = n_id old) \<and>
        nb = (case rp_variable rel of Some v \<Rightarrow> binding_set_edge (binding_set b to_var m) v e
              | None \<Rightarrow> binding_set b to_var m))"

lemma label_unrestricted [simp]: "label_alt_matches l None"
  by (simp add: label_alt_matches_def)

context store_laws
begin

lemma edge_binding_iff:
  assumes "distinct (map n_id (t_nodes D))"
  shows "edge_binding rx S inb target b to_var rv e = Some nb \<longleftrightarrow>
    (\<exists>m\<in>set (t_nodes D). n_id m = (if inb then e_source_id e else e_target_id e) \<and>
       node_admitted rx S target m \<and>
       (\<forall>old. binding_get b to_var = Some old \<longrightarrow> n_id m = n_id old) \<and>
       nb = (case rv of Some v \<Rightarrow> binding_set_edge (binding_set b to_var m) v e
             | None \<Rightarrow> binding_set b to_var m))"
proof (cases "so_find_node_by_id S (if inb then e_source_id e else e_target_id e)")
  case None
  then show ?thesis using by_id_None [OF None] by (auto simp: edge_binding_def Let_def)
next
  case (Some m)
  have m: "n \<in> set (t_nodes D) \<and> n_id n = (if inb then e_source_id e else e_target_id e) \<longleftrightarrow> n = m" for n
    using Some by_id_iff [OF assms, of "if inb then e_source_id e else e_target_id e" n] by auto
  have "edge_binding rx S inb target b to_var rv e = Some nb \<longleftrightarrow> node_admitted rx S target m \<and>
       (\<forall>old. binding_get b to_var = Some old \<longrightarrow> n_id m = n_id old) \<and>
       nb = (case rv of Some v \<Rightarrow> binding_set_edge (binding_set b to_var m) v e
             | None \<Rightarrow> binding_set b to_var m)"
    using Some m [of m]
    by (cases "binding_get b to_var"; cases "np_label target")
      (auto simp: edge_binding_def Let_def node_admitted_def split: if_splits)
  moreover have "(\<exists>n\<in>set (t_nodes D). n_id n = (if inb then e_source_id e else e_target_id e) \<and> Q n) \<longleftrightarrow> Q m"
    for Q using m by (metis (no_types))
  ultimately show ?thesis by presburger
qed

lemma hop_edges_iff:
  "e \<in> set (hop_edges S rel i inb) \<longleftrightarrow> e \<in> set (t_edges D) \<and>
     (rp_types rel = [] \<or> (\<exists>t\<in>set (rp_types rel). e_type e = Some t)) \<and>
     (if inb then e_target_id e = i else e_source_id e = i)"
  by (auto simp: hop_edges_def by_source by_target by_source_type by_target_type)

lemma hop_rows_iff:
  assumes "distinct (map n_id (t_nodes D))"
  shows "nb \<in> set (hop_rows rx S rel target b src to_var) \<longleftrightarrow> one_hop rx S D rel target b src to_var nb"
proof -
  have side: "(\<exists>e\<in>set (hop_edges S rel (n_id src) inb).
       edge_binding rx S inb target b to_var (rp_variable rel) e = Some nb) \<longleftrightarrow>
     (\<exists>e\<in>set (t_edges D). \<exists>m\<in>set (t_nodes D).
        (rp_types rel = [] \<or> (\<exists>t\<in>set (rp_types rel). e_type e = Some t)) \<and>
        (if inb then e_target_id e = n_id src \<and> n_id m = e_source_id e
         else e_source_id e = n_id src \<and> n_id m = e_target_id e) \<and> node_admitted rx S target m \<and>
        (\<forall>old. binding_get b to_var = Some old \<longrightarrow> n_id m = n_id old) \<and>
        nb = (case rp_variable rel of Some v \<Rightarrow> binding_set_edge (binding_set b to_var m) v e
              | None \<Rightarrow> binding_set b to_var m))" for inb
    unfolding edge_binding_iff [OF assms] Bex_def hop_edges_iff by (cases inb; simp; blast)
  have sides: "(\<exists>inb\<in>set (hop_sides rel). P inb) \<longleftrightarrow>
      (rp_direction rel \<noteq> Some ''inbound'' \<and> P False) \<or>
      (rp_direction rel \<in> {Some ''inbound'', Some ''any''} \<and> P True)" for P
    by (auto simp: hop_sides_def)
  have "nb \<in> set (hop_rows rx S rel target b src to_var) \<longleftrightarrow>
    (\<exists>inb\<in>set (hop_sides rel). \<exists>e\<in>set (hop_edges S rel (n_id src) inb).
       edge_binding rx S inb target b to_var (rp_variable rel) e = Some nb)"
    by (auto simp: hop_rows_def set_map_filter)
  also have "\<dots> \<longleftrightarrow> one_hop rx S D rel target b src to_var nb"
    unfolding sides side one_hop_def edge_joins_def by (simp; blast)
  finally show ?thesis .
qed

end

section \<open>A range of hops\<close>

text \<open>The hop limit after the clamp, and the direction that is walked.\<close>

definition hop_limit :: "engine \<Rightarrow> rel_pattern \<Rightarrow> int" where
  "hop_limit E rel =
     (let cap = pmm_cypher_max_depth E
      in min cap (if 0 < rp_max_hops rel then rp_max_hops rel else cap))"

definition hop_direction :: "rel_pattern \<Rightarrow> string" where
  "hop_direction rel = (case rp_direction rel of Some d \<Rightarrow> d | None \<Rightarrow> ''outbound'')"

definition range_rows ::
  "engine \<Rightarrow> store_ops \<Rightarrow> rel_pattern \<Rightarrow> node_pattern \<Rightarrow> binding \<Rightarrow> pmm_node \<Rightarrow> string \<Rightarrow> binding list" where
  "range_rows E S rel target b src to_var =
     List.map_filter (hop_binding (en_regex E) S rel target b to_var)
       (so_bfs S (n_id src) (hop_direction rel) (rp_types rel) (hop_limit E rel) 100)"

lemma expand_var_length_rows:
  "fst (expand_var_length E S rel target b src to_var m news x) =
   news @ take (nat (m - int (length news))) (range_rows E S rel target b src to_var)"
  by (auto simp: expand_var_length_def Let_def append_while_eq range_rows_def hop_limit_def
      hop_direction_def min_def)

lemma expand_var_length_state:
  "snd (expand_var_length E S rel target b src to_var m news x) =
   (if pmm_cypher_max_depth E < rp_max_hops rel
    then x\<lparr>x_depth_clamped := pmm_cypher_max_depth E\<rparr> else x)"
  using pmm_cypher_max_depth_bounds [of E] by (auto simp: expand_var_length_def Let_def)

definition in_range :: "engine \<Rightarrow> rel_pattern \<Rightarrow> int \<Rightarrow> bool" where
  "in_range E rel h \<longleftrightarrow> 1 \<le> h \<and> rp_min_hops rel \<le> h \<and> h \<le> hop_limit E rel"

lemma hop_binding_iff:
  "hop_binding rx S rel target b to_var (m, h) = Some nb \<longleftrightarrow>
   rp_min_hops rel \<le> h \<and> node_admitted rx S target m \<and> nb = binding_set b to_var m"
  by (cases "np_label target") (auto simp: hop_binding_def node_admitted_def)

context store_laws
begin

lemma range_rows_sound:
  assumes "nb \<in> set (range_rows E S rel target b src to_var)"
  shows "\<exists>m\<in>set (t_nodes D). \<exists>h. in_range E rel h \<and>
    walk D (hop_direction rel) (rp_types rel) (n_id src) (nat h) (n_id m) \<and>
    node_admitted (en_regex E) S target m \<and> nb = binding_set b to_var m"
  using assms bfs_sound
  by (fastforce simp: range_rows_def set_map_filter hop_binding_iff in_range_def)

end

lemma range_rows_table:
  assumes "find_node_by_id D (n_id src) \<noteq> None" "length (rp_types rel) \<le> 124"
    and "length (concat (map (bfs_at_hop D (hop_direction rel) (rp_types rel) (n_id src))
                          [1..<Suc (nat (hop_limit E rel))])) \<le> 100"
  shows "nb \<in> set (range_rows E (table_store D) rel target b src to_var) \<longleftrightarrow>
    (\<exists>m\<in>set (t_nodes D). \<exists>h. in_range E rel h \<and>
      walk D (hop_direction rel) (rp_types rel) (n_id src) (nat h) (n_id m) \<and>
      (\<forall>j. 1 \<le> j \<and> j < nat h \<longrightarrow> \<not> walk D (hop_direction rel) (rp_types rel) (n_id src) j (n_id m)) \<and>
      node_admitted (en_regex E) (table_store D) target m \<and> nb = binding_set b to_var m)"
proof -
  have "so_bfs (table_store D) (n_id src) (hop_direction rel) (rp_types rel) (hop_limit E rel) 100 =
      concat (map (bfs_at_hop D (hop_direction rel) (rp_types rel) (n_id src))
               [1..<Suc (nat (hop_limit E rel))])"
    using assms(3) unfolding table_store_def store_bfs_def if_not_P [OF assms(1)] store_ops.simps
    by simp
  then have "nb \<in> set (range_rows E (table_store D) rel target b src to_var) \<longleftrightarrow>
      (\<exists>m h. (m, h) \<in> set (concat (map (bfs_at_hop D (hop_direction rel) (rp_types rel) (n_id src))
               [1..<Suc (nat (hop_limit E rel))])) \<and>
         hop_binding (en_regex E) (table_store D) rel target b to_var (m, h) = Some nb)"
    by (auto simp: range_rows_def set_map_filter simp del: upt_Suc)
  then show ?thesis
    unfolding store_bfs_iff [OF assms(2)] hop_binding_iff in_range_def by blast
qed

section \<open>One relationship over all rows\<close>

definition rel_rows ::
  "engine \<Rightarrow> store_ops \<Rightarrow> rel_pattern \<Rightarrow> node_pattern \<Rightarrow> binding \<Rightarrow> pmm_node \<Rightarrow> string \<Rightarrow> binding list" where
  "rel_rows E S rel target b src to_var =
     (if is_variable_length rel then range_rows E S rel target b src to_var
      else hop_rows (en_regex E) S rel target b src to_var)"

text \<open>What a row becomes: its extensions; itself, if there are none and the match is optional.\<close>

definition join_rows ::
  "engine \<Rightarrow> store_ops \<Rightarrow> rel_pattern \<Rightarrow> node_pattern \<Rightarrow> string \<Rightarrow> string \<Rightarrow> bool \<Rightarrow> binding \<Rightarrow> binding list"
where
  "join_rows E S rel target var_name to_var opt b =
     (case binding_get b var_name of
        None \<Rightarrow> []
      | Some src \<Rightarrow>
          (let m = rel_rows E S rel target b src to_var in if opt \<and> m = [] then [b] else m))"

lemma expand_one_all:
  assumes "0 \<le> cap" "cap * 10 < 2 ^ 31"
    and "int (length news + length (join_rows E S rel target var_name to_var opt b)) \<le> cap * 10"
    and "expand_one E S rel target var_name to_var opt cap b news x = (nw, y)"
  shows "nw = news @ join_rows E S rel target var_name to_var opt b \<and>
    x_out_of_bounds y = x_out_of_bounds x"
proof (cases "binding_get b var_name")
  case None
  then show ?thesis using assms(4) by (simp add: expand_one_def join_rows_def)
next
  case (Some src)
  let ?r = "rel_rows E S rel target b src to_var"
  have c: "int32 (cap * 10) = cap * 10"
    using assms(1,2) by (intro int32_id) auto
  have r: "int (length news + length ?r) \<le> cap * 10"
    using assms(3) Some by (auto simp: join_rows_def Let_def split: if_splits)
  obtain n1 x1 where e: "(if is_variable_length rel
      then expand_var_length E S rel target b src to_var (cap * 10) news x
      else (expand_fixed_length (en_regex E) S rel target b src to_var (cap * 10) news, x)) = (n1, x1)"
    by fastforce
  have n1: "n1 = news @ ?r"
  proof (cases "is_variable_length rel")
    case True
    then show ?thesis
      using e r expand_var_length_rows [of E S rel target b src to_var "cap * 10" news x]
      by (simp add: rel_rows_def)
  next
    case False
    then show ?thesis
      using e r expand_fixed_length_all [of news "en_regex E" S rel target b src to_var "cap * 10"]
      by (simp add: rel_rows_def)
  qed
  have x1: "x_out_of_bounds x1 = x_out_of_bounds x"
    using e expand_var_length_state [of E S rel target b src to_var "cap * 10" news x]
    by (auto split: if_splits)
  show ?thesis
    using assms(3,4) Some c e n1 x1
    by (auto simp: expand_one_def join_rows_def Let_def push_binding_def check_array_def split: if_splits)
qed

lemma expand_bindings_all:
  assumes "0 \<le> cap" "cap * 10 < 2 ^ 31"
  shows "int (length news + length (concat (map (join_rows E S rel target var_name to_var opt) bs))) \<le> cap * 10 \<Longrightarrow>
    expand_bindings E S rel target var_name to_var opt cap bi bs news x = (nw, y) \<Longrightarrow>
    \<not> x_timed_out y \<Longrightarrow>
    nw = news @ concat (map (join_rows E S rel target var_name to_var opt) bs) \<and>
    x_out_of_bounds y = x_out_of_bounds x"
proof (induction bs arbitrary: bi news x)
  case (Cons b bs)
  obtain s x1 where d: "deadline_sampled E bi x = (s, x1)" by fastforce
  have s: "\<not> s" using d Cons.prems(2,3) sampled_stops [of E bi x x1] by (cases s) auto
  obtain n1 x2 where o: "expand_one E S rel target var_name to_var opt cap b news x1 = (n1, x2)"
    by fastforce
  have "n1 = news @ join_rows E S rel target var_name to_var opt b \<and>
      x_out_of_bounds x2 = x_out_of_bounds x1"
    by (rule expand_one_all [OF assms _ o]) (use Cons.prems(1) in simp)
  moreover have "x_out_of_bounds x1 = x_out_of_bounds x" using d by (rule deadline_sampled_frame)
  ultimately show ?case using Cons.IH [of n1 "Suc bi" x2] Cons.prems d o s by (cases s) auto
qed simp

section \<open>Capacities\<close>

lemma int32_le: "0 \<le> v \<Longrightarrow> int32 v \<le> v"
  by (simp add: int32_def sint_uint unsigned_of_int signed_take_bit_take_bit signed_take_bit_int_less_eq_self_iff)

lemma expand_one_bound:
  assumes "expand_one E S rel target var_name to_var False cap b news x = (nw, y)"
    and "0 \<le> cap" "int (length news) \<le> cap * 10"
  shows "int (length nw) \<le> cap * 10 \<and> x_out_of_bounds y = x_out_of_bounds x"
proof (cases "binding_get b var_name")
  case (Some src)
  have m: "int32 (cap * 10) \<le> cap * 10"
    using assms(2) by (intro int32_le) simp
  obtain news1 x1 where e:
    "(if is_variable_length rel
      then expand_var_length E S rel target b src to_var (int32 (cap * 10)) news x
      else (expand_fixed_length (en_regex E) S rel target b src to_var (int32 (cap * 10)) news, x)) =
     (news1, x1)" by fastforce
  have "int (length news1) \<le> cap * 10 \<and> x_out_of_bounds x1 = x_out_of_bounds x"
  proof (cases "is_variable_length rel")
    case True
    then show ?thesis
      using e assms(3) m expand_var_length_rows [of E S rel target b src to_var "int32 (cap * 10)" news x]
        expand_var_length_state [of E S rel target b src to_var "int32 (cap * 10)" news x]
      by (auto split: if_splits)
  next
    case False
    then show ?thesis
      using e assms(3) m expand_fixed_length_bound [of "en_regex E" S rel target b src to_var "int32 (cap * 10)" news]
      by auto
  qed
  then show ?thesis
    using assms(1) Some e by (auto simp: expand_one_def Let_def check_array_within)
qed (use assms in \<open>simp add: expand_one_def\<close>)

lemma expand_bindings_bound:
  "expand_bindings E S rel target var_name to_var False cap bi bs news x = (nw, y) \<Longrightarrow> 0 \<le> cap \<Longrightarrow>
   int (length news) \<le> cap * 10 \<Longrightarrow> int (length nw) \<le> cap * 10 \<and> x_out_of_bounds y = x_out_of_bounds x"
proof (induction bs arbitrary: bi news x)
  case (Cons b bs)
  obtain s x1 where d: "deadline_sampled E bi x = (s, x1)" by fastforce
  obtain n1 x2 where o: "expand_one E S rel target var_name to_var False cap b news x1 = (n1, x2)"
    by fastforce
  show ?case
    using Cons.IH [of "Suc bi" n1 x2] Cons.prems d o expand_one_bound [OF o] deadline_sampled_frame(1) [OF d]
    by (cases s) auto
qed simp

lemma expand_rels_bound:
  "expand_pattern_rels E S False cap rts var bs x = (bs', v', y) \<Longrightarrow> 0 \<le> cap \<Longrightarrow>
   int (length bs') \<le> max (cap * 10) (int (length bs)) \<and> x_out_of_bounds y = x_out_of_bounds x"
proof (induction rts arbitrary: var bs x)
  case (Cons rt rts)
  obtain rel target where rt: "rt = (rel, target)" by fastforce
  obtain s x1 where d: "cypher_deadline_exceeded E x = (s, x1)" by fastforce
  let ?to = "case np_variable target of Some v \<Rightarrow> v | None \<Rightarrow> ''_n_t''"
  obtain n1 x2 where o: "expand_bindings E S rel target var ?to False cap 0 bs [] x1 = (n1, x2)"
    by fastforce
  show ?case
    using Cons.IH [of ?to n1 x2] Cons.prems d o rt expand_bindings_bound [OF o]
      deadline_exceeded_frame(1) [OF d]
    by (cases s) (auto simp: Let_def)
qed simp

lemma cross_join_row_bound:
  "cross_join_row E S p nvar False b ns x = (nw, y) \<Longrightarrow>
   length nw \<le> 10 * length ns \<and> x_out_of_bounds y = x_out_of_bounds x"
proof (induction ns arbitrary: x nw)
  case (Cons n ns)
  obtain t v x1 where o:
    "expand_pattern_rels E S False 1 (pattern_steps p) nvar [binding_set b nvar n] x = (t, v, x1)"
    by (metis prod_cases3)
  moreover obtain r x2 where "cross_join_row E S p nvar False b ns x1 = (r, x2)" by fastforce
  ultimately show ?case using Cons o expand_rels_bound [OF o] by fastforce
qed simp

lemma cross_join_rows_bound:
  "cross_join_rows E S p nvar False extra bs x = (nw, y) \<Longrightarrow>
   length nw \<le> length bs * length extra * 10 \<and> x_out_of_bounds y = x_out_of_bounds x"
proof (induction bs arbitrary: x nw)
  case (Cons b bs)
  obtain r x1 where o: "cross_join_row E S p nvar False b extra x = (r, x1)" by fastforce
  obtain r2 x2 where "cross_join_rows E S p nvar False extra bs x1 = (r2, x2)" by fastforce
  then show ?case using Cons o cross_join_row_bound [OF o] by (fastforce simp: algebra_simps)
qed simp

lemma cross_join_with_rels_in_bounds:
  "x_out_of_bounds (snd (cross_join_with_rels E S p bs extra nvar False x)) = x_out_of_bounds x"
proof -
  obtain nw y where o: "cross_join_rows E S p nvar False extra bs x = (nw, y)" by fastforce
  have "int (length nw) \<le> int (length bs) * int (length extra) * 10 + 1"
    using cross_join_rows_bound [OF o] by (simp flip: of_nat_mult of_nat_le_iff)
  then show ?thesis
    using cross_join_rows_bound [OF o] o by (simp add: cross_join_with_rels_def Let_def check_array_within)
qed

text \<open>The drive from a bound end tests the capacity before every push.\<close>

lemma terminal_rows_bound:
  "int (length (terminal_rows S p rel sv opt m bs news)) \<le> max m (int (length news))"
proof (induction bs arbitrary: news)
  case (Cons b bs)
  let ?f = "terminal_binding S (rp_direction rel \<noteq> Some ''inbound'') (pt_nodes p ! 0) b sv (rp_variable rel)"
  define news1 where "news1 = (case binding_get b (or_empty (np_variable (pt_nodes p ! 1))) of
      None \<Rightarrow> news
    | Some t \<Rightarrow> foldl (\<lambda>nw es. append_while m ?f es nw) news
        (terminal_edges S rel (rp_direction rel \<noteq> Some ''inbound'') (n_id t)))"
  define news2 where "news2 = (if opt \<and> length news1 = length news \<and> int (length news1) < m then news1 @ [b] else news1)"
  have "int (length news1) \<le> max m (int (length news))"
    using foldl_append_while_length [of m ?f] by (auto simp: news1_def split: option.split)
  then have "int (length news2) \<le> max m (int (length news))"
    by (auto simp: news2_def)
  moreover have "terminal_rows S p rel sv opt m (b # bs) news =
      (if m \<le> int (length news) then news else terminal_rows S p rel sv opt m bs news2)"
    by (simp add: news2_def news1_def Let_def)
  ultimately show ?case
    using Cons.IH [of news2] by auto
qed simp

lemma expand_from_bound_terminal_in_bounds:
  "x_out_of_bounds (snd (expand_from_bound_terminal S p bs sv opt x)) = x_out_of_bounds x"
proof -
  have "int32 (int (length bs) * 10 + 1) \<le> int (length bs) * 10 + 1"
    by (rule int32_le) simp
  then have "int (length (terminal_rows S p (pt_rels p ! 0) sv opt (int32 (int (length bs) * 10 + 1)) bs [])) \<le>
      int (length bs) * 10 + 1"
    using terminal_rows_bound [of S p "pt_rels p ! 0" sv opt "int32 (int (length bs) * 10 + 1)" bs "[]"] by auto
  then show ?thesis
    by (simp add: expand_from_bound_terminal_def Let_def check_array_within)
qed

text \<open>An optional pattern that scans no node keeps every row, in an array of one entry.\<close>

lemma cross_join_nodes_optional_empty:
  "cross_join_nodes bs [] nvar True x =
     (bs, if 1 < length bs then x\<lparr>x_out_of_bounds := True\<rparr> else x)"
  by (simp add: cross_join_nodes_def Let_def int32_def check_array_def)

end
