(* ===== verification/Cyp_Project_Facts.thy ===== *)
theory Cyp_Project_Facts
  imports Cyp_Project
begin

text \<open>
  Facts on projection: the row loop, grouping as a reference definition (shared by WITH and
  RETURN through the locale \<open>grouping\<close>), what the aggregation cells hold, and row widths.
\<close>

section \<open>The row loop\<close>

lemma add_rows_columns [simp]: "rb_columns (add_rows cap f bs rb) = rb_columns rb"
  by (induction cap f bs rb rule: add_rows.induct) (simp_all add: rb_add_row_def)

lemma add_rows_rows:
  "rb_rows (add_rows cap f bs rb) =
   rb_rows rb @ map (\<lambda>b. take (length (rb_columns rb)) (f b)) (take (nat (cap - int (length (rb_rows rb)))) bs)"
proof (induction cap f bs rb rule: add_rows.induct)
  case (2 cap f b bs rb)
  have "nat (cap - int (length (rb_rows rb))) = Suc (nat (cap - int (Suc (length (rb_rows rb)))))"
    if "int (length (rb_rows rb)) < cap" using that by simp
  then show ?case using 2 by (auto simp: rb_add_row_def)
qed simp

text \<open>Every row of a table is as wide as its columns.\<close>

definition rows_fit :: "result_builder \<Rightarrow> bool" where
  "rows_fit rb \<longleftrightarrow> (\<forall>r\<in>set (rb_rows rb). length r = length (rb_columns rb))"

lemma rows_fit_init [simp]: "rows_fit rb_init"
  by (simp add: rows_fit_def rb_init_def)

lemma rows_fit_add_rows:
  assumes "rows_fit rb" "\<And>b. b \<in> set bs \<Longrightarrow> length (rb_columns rb) \<le> length (f b)"
  shows "rows_fit (add_rows cap f bs rb)"
  using assms by (auto simp: rows_fit_def add_rows_rows dest!: in_set_takeD)

lemma rows_fit_add_row:
  "rows_fit rb \<Longrightarrow> length (rb_columns rb) \<le> length v \<Longrightarrow> rows_fit (rb_add_row rb v)"
  by (auto simp: rows_fit_def rb_add_row_def)

lemma set_keep_first: "set (keep_first same kept xs) \<subseteq> set kept \<union> set xs"
  by (induction same kept xs rule: keep_first.induct) auto

lemma rows_fit_distinct: "rows_fit rb \<Longrightarrow> rows_fit (rb_apply_distinct rb)"
  using set_keep_first [of "row_same (length (rb_columns rb))" "[hd (rb_rows rb)]" "tl (rb_rows rb)"]
  by (cases "rb_rows rb") (auto simp: rows_fit_def rb_apply_distinct_def)

lemma rows_fit_order: "rows_fit rb \<Longrightarrow> rows_fit (rb_apply_order_by rb ret)"
  by (auto simp: rows_fit_def rb_apply_order_by_def split: option.splits)

lemma rows_fit_skip_limit: "rows_fit rb \<Longrightarrow> rows_fit (rb_apply_skip_limit rb s l)"
  by (auto simp: rows_fit_def rb_apply_skip_limit_def skip_limit_eq split: if_splits
      dest!: in_set_takeD in_set_dropD)

lemma columns_post [simp]:
  "rb_columns (rb_apply_distinct rb) = rb_columns rb"
  "rb_columns (rb_apply_order_by rb ret) = rb_columns rb"
  "rb_columns (rb_apply_skip_limit rb s l) = rb_columns rb"
  "rb_columns (rb_add_row rb v) = rb_columns rb"
  by (simp_all add: rb_apply_distinct_def rb_apply_order_by_def rb_apply_skip_limit_def rb_add_row_def
      split: option.splits)

section \<open>Grouping\<close>

definition first_occurrences :: "'a list \<Rightarrow> 'a list" where
  "first_occurrences xs = rev (remdups (rev xs))"

lemma first_occurrences_snoc:
  "first_occurrences (xs @ [x]) =
     (if x \<in> set xs then first_occurrences xs else first_occurrences xs @ [x])"
  by (simp add: first_occurrences_def)

lemma first_occurrences_facts [simp]:
  "first_occurrences [] = []" "set (first_occurrences xs) = set xs" "distinct (first_occurrences xs)"
  by (simp_all add: first_occurrences_def)

lemma index_of_None: "index_of P xs = None \<longleftrightarrow> (\<forall>x\<in>set xs. \<not> P x)"
  by (induction P xs rule: index_of.induct) auto

lemma index_of_Some: "index_of P xs = Some i \<Longrightarrow> i < length xs \<and> P (xs ! i)"
  by (induction P xs arbitrary: i rule: index_of.induct) (auto split: if_splits)

text \<open>One step of the loops over the bindings.\<close>

definition group_step ::
  "('b \<Rightarrow> string) \<Rightarrow> ('b \<Rightarrow> agg_cell list) \<Rightarrow> ('b \<Rightarrow> agg_cell list \<Rightarrow> agg_cell list) \<Rightarrow>
   agg_group list \<Rightarrow> 'b \<Rightarrow> agg_group list" where
  "group_step key ini acc aggs b =
     (let (i, aggs1) = find_or_create (key b) (ini b) aggs in update_group i (acc b) aggs1)"

text \<open>The reference: one group per distinct key in the order of first occurrence; its cells are
  those of the first row with the key, accumulated over all rows with the key in order.\<close>

definition group_cells ::
  "('b \<Rightarrow> string) \<Rightarrow> ('b \<Rightarrow> agg_cell list) \<Rightarrow> ('b \<Rightarrow> agg_cell list \<Rightarrow> agg_cell list) \<Rightarrow> 'b list \<Rightarrow>
   string \<Rightarrow> agg_cell list" where
  "group_cells key ini acc bs k =
     (let ms = filter (\<lambda>b. key b = k) bs in foldl (\<lambda>c b. acc b c) (ini (hd ms)) ms)"

definition groups_of ::
  "('b \<Rightarrow> string) \<Rightarrow> ('b \<Rightarrow> agg_cell list) \<Rightarrow> ('b \<Rightarrow> agg_cell list \<Rightarrow> agg_cell list) \<Rightarrow> 'b list \<Rightarrow>
   agg_group list" where
  "groups_of key ini acc bs =
     map (\<lambda>k. \<lparr>ag_key = k, ag_cells = group_cells key ini acc bs k\<rparr>) (first_occurrences (map key bs))"

text \<open>The contract of a grouping: its keys fit the key buffer.\<close>

locale grouping =
  fixes key :: "'b \<Rightarrow> string"
    and ini :: "'b \<Rightarrow> agg_cell list"
    and acc :: "'b \<Rightarrow> agg_cell list \<Rightarrow> agg_cell list"
  assumes key_fits: "length (key b) < 1024"
begin

lemma cells_other: "key b \<noteq> k \<Longrightarrow> group_cells key ini acc (bs @ [b]) k = group_cells key ini acc bs k"
  by (simp add: group_cells_def)

lemma cells_known:
  assumes "key b = k" "k \<in> key ` set bs"
  shows "group_cells key ini acc (bs @ [b]) k = acc b (group_cells key ini acc bs k)"
proof -
  have "filter (\<lambda>b. key b = k) bs \<noteq> []" using assms(2) by (auto simp: filter_empty_conv)
  then show ?thesis using assms(1) by (simp add: group_cells_def Let_def)
qed

lemma cells_new:
  assumes "key b = k" "k \<notin> key ` set bs"
  shows "group_cells key ini acc (bs @ [b]) k = acc b (ini b)"
proof -
  have "filter (\<lambda>b. key b = k) bs = []" using assms(2) by (auto simp: filter_empty_conv)
  then show ?thesis using assms(1) by (simp add: group_cells_def Let_def)
qed

lemma step_new:
  assumes "key b \<notin> key ` set bs"
  shows "group_step key ini acc (groups_of key ini acc bs) b = groups_of key ini acc (bs @ [b])"
proof -
  let ?g = "groups_of key ini acc bs"
  have ne: "key b \<noteq> key x" "key x \<noteq> key b" if "x \<in> set bs" for x
    using assms that by (metis image_eqI)+
  have "index_of (\<lambda>g. strcmp (ag_key g) (key b) = 0) ?g = None"
    by (auto simp: index_of_None groups_of_def ne)
  then have "group_step key ini acc ?g b = ?g @ [\<lparr>ag_key = key b, ag_cells = acc b (ini b)\<rparr>]"
    using key_fits [of b]
    by (simp add: group_step_def find_or_create_def update_group_def snprintf_buf_id)
  moreover have "map (\<lambda>k. \<lparr>ag_key = k, ag_cells = group_cells key ini acc (bs @ [b]) k\<rparr>)
      (first_occurrences (map key bs)) = ?g"
    unfolding groups_of_def by (intro map_cong) (auto simp: ne cells_other)
  ultimately show ?thesis
    using assms by (simp add: groups_of_def first_occurrences_snoc cells_new)
qed

lemma step_known:
  assumes "key b \<in> key ` set bs"
  shows "group_step key ini acc (groups_of key ini acc bs) b = groups_of key ini acc (bs @ [b])"
proof -
  let ?ks = "first_occurrences (map key bs)" and ?g = "groups_of key ini acc bs"
  have "index_of (\<lambda>g. strcmp (ag_key g) (key b) = 0) ?g \<noteq> None"
    using assms by (auto simp: index_of_None groups_of_def)
  then obtain i where i: "index_of (\<lambda>g. strcmp (ag_key g) (key b) = 0) ?g = Some i" by auto
  then have i': "i < length ?ks" "?ks ! i = key b"
    using index_of_Some [OF i] by (auto simp: groups_of_def)
  have "group_step key ini acc ?g b =
      ?g[i := \<lparr>ag_key = key b, ag_cells = acc b (group_cells key ini acc bs (key b))\<rparr>]"
    using i i' by (simp add: group_step_def find_or_create_def update_group_def groups_of_def)
  also have "\<dots> = map (\<lambda>k. \<lparr>ag_key = k, ag_cells = group_cells key ini acc (bs @ [b]) k\<rparr>) ?ks"
  proof (rule nth_equalityI)
    fix j assume "j < length (?g[i := \<lparr>ag_key = key b, ag_cells = acc b (group_cells key ini acc bs (key b))\<rparr>])"
    then have j: "j < length ?ks" by (simp add: groups_of_def)
    then have "?ks ! j \<noteq> key b" if "j \<noteq> i"
      using that i' nth_eq_iff_index_eq [of ?ks j i] by auto
    then show "?g[i := \<lparr>ag_key = key b, ag_cells = acc b (group_cells key ini acc bs (key b))\<rparr>] ! j =
        map (\<lambda>k. \<lparr>ag_key = k, ag_cells = group_cells key ini acc (bs @ [b]) k\<rparr>) ?ks ! j"
      using j i' assms by (cases "j = i") (auto simp: groups_of_def cells_known cells_other)
  qed (simp add: groups_of_def)
  also have "\<dots> = groups_of key ini acc (bs @ [b])"
    using assms by (simp add: groups_of_def first_occurrences_snoc)
  finally show ?thesis .
qed

theorem fold_is_groups: "foldl (group_step key ini acc) [] bs = groups_of key ini acc bs"
proof (induction bs rule: rev_induct)
  case (snoc b bs)
  then show ?case by (cases "key b \<in> key ` set bs") (simp_all add: step_known step_new)
qed (simp add: groups_of_def)

end

interpretation with_groups: grouping "with_agg_build_key wc" "\<lambda>b. map (with_init_cell b) (rc_items wc)"
    "with_agg_accumulate wc" for wc
  by unfold_locales (simp add: with_agg_build_key_def)

interpretation ret_groups: grouping "ret_agg_build_key rx ret" "ret_agg_init_group rx ret"
    "ret_agg_accumulate ret" for rx ret
  by unfold_locales (simp add: ret_agg_build_key_def)

lemma with_agg_step_eq:
  "with_agg_step wc = group_step (with_agg_build_key wc) (\<lambda>b. map (with_init_cell b) (rc_items wc))
     (with_agg_accumulate wc)"
  by (intro ext) (simp add: with_agg_step_def group_step_def with_agg_find_or_create_def)

lemma ret_agg_step_eq:
  "ret_agg_step rx ret = group_step (ret_agg_build_key rx ret) (ret_agg_init_group rx ret)
     (ret_agg_accumulate ret)"
  by (intro ext) (simp add: ret_agg_step_def group_step_def)

section \<open>What the cells hold\<close>

text \<open>Folding a \<open>map2\<close> over rows works on each column by itself.\<close>

lemma length_foldl_map2:
  "length cells = length items \<Longrightarrow>
   length (foldl (\<lambda>c b. map2 (f b) items c) cells bs) = length items"
  by (induction bs arbitrary: cells) auto

lemma foldl_map2_nth:
  "length cells = length items \<Longrightarrow> i < length items \<Longrightarrow>
   foldl (\<lambda>c b. map2 (f b) items c) cells bs ! i = foldl (\<lambda>c b. f b (items ! i) c) (cells ! i) bs"
  by (induction bs arbitrary: cells) auto

lemma ret_cell_count:
  "ri_func it = Some f \<Longrightarrow>
   ac_count (foldl (\<lambda>c b. ret_accumulate_cell b it c) c0 bs) = ac_count c0 + length bs"
  by (induction bs arbitrary: c0)
    (auto simp: ret_accumulate_cell_def accumulate_number_def Let_def)

lemma with_cell_count:
  "ri_func it = Some f \<Longrightarrow>
   ac_count (foldl (\<lambda>c b. with_accumulate_cell b it c) c0 bs) = ac_count c0 + length bs"
  by (induction bs arbitrary: c0)
    (auto simp: with_accumulate_cell_def accumulate_number_def Let_def)

lemma distinct_list_add_facts:
  "set (distinct_list_add xs v) = insert v (set xs)" "distinct xs \<Longrightarrow> distinct (distinct_list_add xs v)"
  by (auto simp: distinct_list_add_def)

lemma ret_cell_distinct:
  assumes "ri_func it = Some ''COUNT''" "ri_distinct it"
  shows "distinct (ac_list c0) \<Longrightarrow>
    distinct (ac_list (foldl (\<lambda>c b. ret_accumulate_cell b it c) c0 bs)) \<and>
    set (ac_list (foldl (\<lambda>c b. ret_accumulate_cell b it c) c0 bs)) =
      set (ac_list c0) \<union> (\<lambda>b. item_raw b it) ` set bs"
  using assms
  by (induction bs arbitrary: c0)
    (auto simp: ret_accumulate_cell_def accumulate_number_def Let_def distinct_list_add_facts)

lemma ret_cell_collect:
  assumes "ri_func it = Some ''COLLECT''"
  shows "ac_list (foldl (\<lambda>c b. ret_accumulate_cell b it c) c0 bs) = ac_list c0 @ map (\<lambda>b. item_raw b it) bs"
  using assms
  by (induction bs arbitrary: c0) (auto simp: ret_accumulate_cell_def accumulate_number_def Let_def)

lemma ret_cell_plain:
  "ri_func it = None \<Longrightarrow> foldl (\<lambda>c b. ret_accumulate_cell b it c) c0 bs = c0"
  by (induction bs) (auto simp: ret_accumulate_cell_def)

section \<open>RETURN\<close>

lemma ret_agg_loop_fold:
  "\<not> x_timed_out (snd (ret_agg_loop E ret i bs aggs x)) \<Longrightarrow>
   fst (ret_agg_loop E ret i bs aggs x) = foldl (ret_agg_step (en_regex E) ret) aggs bs"
proof (induction E ret i bs aggs x rule: ret_agg_loop.induct)
  case (2 E ret bi b bs aggs x)
  then show ?case
    using deadline_sampled_frame(5) [of E bi x True]
    by (auto split: prod.splits bool.splits)
qed simp

lemma ret_agg_loop_prefix:
  "\<exists>k. fst (ret_agg_loop E ret i bs aggs x) = foldl (ret_agg_step (en_regex E) ret) aggs (take k bs)"
proof (induction bs arbitrary: i aggs x)
  case (Cons b bs)
  obtain s x1 where d: "deadline_sampled E i x = (s, x1)" by fastforce
  show ?case
  proof (cases s)
    case True
    then show ?thesis using d by (intro exI [of _ 0]) simp
  next
    case False
    obtain k where "fst (ret_agg_loop E ret (Suc i) bs (ret_agg_step (en_regex E) ret aggs b) x1) =
        foldl (ret_agg_step (en_regex E) ret) (ret_agg_step (en_regex E) ret aggs b) (take k bs)"
      using Cons by blast
    then show ?thesis using d False by (intro exI [of _ "Suc k"]) simp
  qed
qed simp

text \<open>The table before the post-processing, with no cap pushed into the row loop.\<close>

definition full_table :: "regex \<Rightarrow> return_clause \<Rightarrow> binding list \<Rightarrow> int \<Rightarrow> result_builder" where
  "full_table rx ret bs max_rows =
     \<lparr>rb_rows = map (project_row rx ret) (take (nat max_rows) bs),
      rb_columns = map return_column (rc_items ret)\<rparr>"

lemma execute_return_simple_rows:
  "rb_rows (execute_return_simple rx ret bs max_rows (build_return_columns rb_init ret)) =
     map (project_row rx ret)
       (take (nat (if 0 < rc_limit ret \<and> \<not> rc_distinct ret \<and> rc_order_by ret = None \<and> rc_skip ret \<le> 0
                   then rc_limit ret else max_rows)) bs)"
  by (simp add: execute_return_simple_def add_rows_rows build_return_columns_def rb_set_columns_def
      rb_init_def project_row_def)

lemma execute_return_simple_columns:
  "rb_columns (execute_return_simple rx ret bs max_rows (build_return_columns rb_init ret)) =
     map return_column (rc_items ret)"
  by (simp add: execute_return_simple_def build_return_columns_def rb_set_columns_def)

section \<open>Widths\<close>

lemma length_concat_const:
  "(\<And>x. x \<in> set xs \<Longrightarrow> length (f x) = k) \<Longrightarrow> length (concat (map f xs)) = k * length xs"
  by (induction xs) auto

lemma star_fits: "rows_fit (execute_return_star pats bs max_rows rb_init)"
proof -
  have "length (project_star_row vars b) = 4 * length vars" for vars b
    unfolding project_star_row_def
    by (rule length_concat_const) (simp add: project_star_var_def split: option.split)
  then show ?thesis
    unfolding execute_return_star_def Let_def
    by (intro rows_fit_add_rows)
      (auto simp: rows_fit_def build_star_columns_def rb_set_columns_def rb_init_def length_concat_const)
qed

lemma default_fits: "rows_fit (execute_default_projection pat bs max_rows rb_init)"
proof -
  have "length (concat (map (project_default_var b) vars)) = 3 * length vars" for vars b
    by (rule length_concat_const) (simp add: project_default_var_def split: option.split)
  then show ?thesis
    unfolding execute_default_projection_def Let_def
    by (intro rows_fit_add_rows)
      (auto simp: rows_fit_def build_default_columns_def rb_set_columns_def rb_init_def length_concat_const)
qed

lemma ret_cells_length: "length (group_cells (ret_agg_build_key rx ret) (ret_agg_init_group rx ret)
    (ret_agg_accumulate ret) bs k) = length (rc_items ret)"
  by (simp add: group_cells_def Let_def ret_agg_accumulate_def length_foldl_map2 ret_agg_init_group_def)

lemma agg_fits: "rows_fit (fst (execute_return_agg E ret bs (build_return_columns rb_init ret) x))"
proof -
  obtain k where k: "fst (ret_agg_loop E ret 0 bs [] x) =
      groups_of (ret_agg_build_key (en_regex E) ret) (ret_agg_init_group (en_regex E) ret)
        (ret_agg_accumulate ret) (take k bs)"
    using ret_agg_loop_prefix [of E ret 0 bs "[]" x] ret_groups.fold_is_groups
    by (auto simp: ret_agg_step_eq)
  have fit: "rows_fit (foldl (ret_agg_emit_row ret) rb gs)"
    if "rows_fit rb" "length (rb_columns rb) = length (rc_items ret)"
      "\<forall>g\<in>set gs. length (ag_cells g) = length (rc_items ret)" for rb gs
    using that
  proof (induction gs arbitrary: rb)
    case (Cons g gs)
    have "rows_fit (ret_agg_emit_row ret rb g)"
      unfolding ret_agg_emit_row_def using Cons.prems by (intro rows_fit_add_row) auto
    moreover have "rb_columns (ret_agg_emit_row ret rb g) = rb_columns rb"
      by (simp add: ret_agg_emit_row_def)
    ultimately show ?case using Cons by simp
  qed simp
  have "rows_fit (foldl (ret_agg_emit_row ret) (build_return_columns rb_init ret)
      (fst (ret_agg_loop E ret 0 bs [] x)))"
    unfolding k
    by (rule fit)
      (auto simp: groups_of_def ret_cells_length rows_fit_def build_return_columns_def rb_set_columns_def
        rb_init_def)
  then show ?thesis by (simp add: execute_return_agg_def split_beta)
qed

lemma agg_columns:
  "rb_columns (fst (execute_return_agg E ret bs rb x)) = rb_columns rb"
proof -
  have "rb_columns (foldl (ret_agg_emit_row ret) rb gs) = rb_columns rb" for gs
    by (induction gs arbitrary: rb) (simp_all add: ret_agg_emit_row_def)
  then show ?thesis by (simp add: execute_return_agg_def split_beta)
qed

lemma simple_fits: "rows_fit (execute_return_simple rx ret bs max_rows (build_return_columns rb_init ret))"
  by (auto simp: rows_fit_def execute_return_simple_rows execute_return_simple_columns project_row_def)

lemma return_clause_fits: "rows_fit (fst (execute_return_clause E pats ret bs max_rows rb_init x))"
  unfolding execute_return_clause_def Let_def
  by (auto simp: split_beta star_fits agg_fits simple_fits
      intro!: rows_fit_skip_limit rows_fit_order rows_fit_distinct)

text \<open>The bound on the rows of a RETURN.\<close>

lemma return_clause_row_bound:
  assumes "0 \<le> max_rows"
  shows "int (length (rb_rows (fst (execute_return_clause E pats ret bs max_rows rb x))))
    \<le> (if 0 \<le> rc_limit ret then rc_limit ret else max_rows)"
  using assms by (auto simp: execute_return_clause_def Let_def split_beta rb_apply_skip_limit_def skip_limit_eq)

end
