(* ===== verification/Cyp_Execute_Facts.thy ===== *)
theory Cyp_Execute_Facts
  imports Cyp_Execute Cyp_Match_Facts Cyp_Project_Facts
begin

text \<open>
  Facts on execution: the seeding loop as a filter, which bindings reach the projection, how the
  state moves through a whole query and its UNION chain, and the width of the rows.
\<close>

section \<open>Seeding\<close>

text \<open>The guard of the loop leaves room for every push.\<close>

lemma seed_loop_Cons:
  "seed_loop E S w var cap i (n # ns) bs x =
     (if cap \<le> int (length bs) then (bs, x)
      else case deadline_sampled E i x of
        (True, x1) \<Rightarrow> (bs, x1)
      | (False, x1) \<Rightarrow>
          seed_loop E S w var cap (Suc i) ns
            (if eval_where (en_regex E) w (seed_binding S var n) then bs @ [seed_binding S var n] else bs) x1)"
  by (simp add: push_binding_def check_array_within Let_def split: prod.split bool.split)

declare seed_loop.simps(2) [simp del] seed_loop_Cons [simp]

lemma seed_loop_moves: "seed_loop E S w var cap i ns bs x = (bs', y) \<Longrightarrow> x_moves E x y"
proof (induction ns arbitrary: i bs x)
  case (Cons n ns)
  obtain s x1 where d: "deadline_sampled E i x = (s, x1)" by fastforce
  show ?case
    using Cons d sampled_moves [OF d] by (cases s) (auto intro: x_moves_trans split: if_splits)
qed simp

lemma seed_loop_filter:
  "seed_loop E S w var cap i ns bs x = (bs', y) \<Longrightarrow> \<not> x_timed_out y \<Longrightarrow>
   int (length bs + length ns) \<le> cap \<Longrightarrow>
   bs' = bs @ filter (eval_where (en_regex E) w) (map (seed_binding S var) ns)"
proof (induction ns arbitrary: i bs x)
  case (Cons n ns)
  obtain s x1 where d: "deadline_sampled E i x = (s, x1)" by fastforce
  have "\<not> s" using d Cons.prems sampled_stops [of E i x x1] by (cases s) (auto split: if_splits)
  then have "seed_loop E S w var cap (Suc i) ns
      (if eval_where (en_regex E) w (seed_binding S var n) then bs @ [seed_binding S var n] else bs) x1 = (bs', y)"
    using Cons.prems d by simp
  from Cons.IH [OF this] Cons.prems show ?case by (simp split: if_splits)
qed simp

lemma seed_loop_where:
  "seed_loop E S w var cap i ns bs x = (bs', y) \<Longrightarrow> \<forall>b\<in>set bs. eval_where (en_regex E) w b \<Longrightarrow>
   \<forall>b\<in>set bs'. eval_where (en_regex E) w b"
proof (induction ns arbitrary: i bs x)
  case (Cons n ns)
  obtain s x1 where d: "deadline_sampled E i x = (s, x1)" by fastforce
  show ?case
  proof (cases "cap \<le> int (length bs) \<or> s")
    case True
    then show ?thesis using Cons.prems d by (auto split: if_splits)
  next
    case False
    let ?bs = "if eval_where (en_regex E) w (seed_binding S var n) then bs @ [seed_binding S var n] else bs"
    have "seed_loop E S w var cap (Suc i) ns ?bs x1 = (bs', y)" using False Cons.prems d by simp
    moreover have "\<forall>b\<in>set ?bs. eval_where (en_regex E) w b" using Cons.prems by auto
    ultimately show ?thesis by (rule Cons.IH)
  qed
qed simp

lemma scan_count_capacity: "int n \<le> bind_capacity n max_rows"
  by (auto simp: bind_capacity_def)

section \<open>The bindings of a query\<close>

text \<open>The pieces of \<open>match_bindings\<close>.\<close>

lemma match_bindings_parts:
  obtains bs0 x0 bs1 v x1 bs2 cap where
    "cap = bind_capacity (length (start_scan E S q project max_rows)) max_rows"
    "seed_loop E S (q_where q) (start_var q) cap 0 (start_scan E S q project max_rows) [] x = (bs0, x0)"
    "expand_pattern_rels E S (hd (q_pattern_optional q)) cap (pattern_steps (hd (q_patterns q)))
       (start_var q) bs0 x0 = (bs1, v, x1)"
    "expand_additional_patterns E S project max_rows cap
       (zip (tl (q_patterns q)) (tl (q_pattern_optional q))) bs1 x1 =
     (bs2, snd (match_bindings E S q project max_rows x))"
    "fst (match_bindings E S q project max_rows x) =
       (if late_where q then filter (eval_where (en_regex E) (q_where q)) bs2 else bs2)"
proof -
  let ?cap = "bind_capacity (length (start_scan E S q project max_rows)) max_rows"
  obtain bs0 x0 where 1: "seed_loop E S (q_where q) (start_var q) ?cap 0
      (start_scan E S q project max_rows) [] x = (bs0, x0)" by fastforce
  obtain bs1 v x1 where 2: "expand_pattern_rels E S (hd (q_pattern_optional q)) ?cap
      (pattern_steps (hd (q_patterns q))) (start_var q) bs0 x0 = (bs1, v, x1)" by (metis prod_cases3)
  obtain bs2 x2 where 3: "expand_additional_patterns E S project max_rows ?cap
      (zip (tl (q_patterns q)) (tl (q_pattern_optional q))) bs1 x1 = (bs2, x2)" by fastforce
  have "match_bindings E S q project max_rows x =
      (if late_where q then filter (eval_where (en_regex E) (q_where q)) bs2 else bs2, x2)"
    using 1 2 3 by (simp add: match_bindings_def Let_def filter_bindings_where_def)
  then show ?thesis using that [OF refl 1 2] 3 by simp
qed

lemma match_bindings_moves: "x_moves E x (snd (match_bindings E S q project max_rows x))"
  by (rule match_bindings_parts [of E S q project max_rows x])
    (meson seed_loop_moves expand_rels_moves additional_patterns_moves x_moves_trans)

lemma match_bindings_where:
  assumes b: "b \<in> set (fst (match_bindings E S q project max_rows x))"
  shows "eval_where (en_regex E) (q_where q) b"
proof (rule match_bindings_parts [of E S q project max_rows x])
  fix bs0 x0 bs1 v x1 bs2 cap
  assume seed: "seed_loop E S (q_where q) (start_var q) cap 0 (start_scan E S q project max_rows) [] x = (bs0, x0)"
    and rels: "expand_pattern_rels E S (hd (q_pattern_optional q)) cap (pattern_steps (hd (q_patterns q)))
       (start_var q) bs0 x0 = (bs1, v, x1)"
    and more: "expand_additional_patterns E S project max_rows cap
       (zip (tl (q_patterns q)) (tl (q_pattern_optional q))) bs1 x1 =
     (bs2, snd (match_bindings E S q project max_rows x))"
    and all: "fst (match_bindings E S q project max_rows x) =
       (if late_where q then filter (eval_where (en_regex E) (q_where q)) bs2 else bs2)"
  consider "late_where q" | "q_where q = None"
    | "\<not> late_where q" "pt_rels (hd (q_patterns q)) = []" "tl (q_patterns q) = []"
    by (cases "q_patterns q") (auto simp: late_where_def)
  then show ?thesis
  proof cases
    case 1
    then show ?thesis using b all by simp
  next
    case 2
    then show ?thesis by (simp add: eval_where_def)
  next
    case 3
    then have "bs2 = bs0" using rels more by (simp add: pattern_steps_def)
    then show ?thesis using seed_loop_where [OF seed] b all 3(1) by auto
  qed
qed

lemma match_single_node:
  assumes q: "q_patterns q = [pat]" "pt_nodes pat = [np]" "pt_rels pat = []"
    and t: "\<not> x_timed_out (snd (match_bindings E S q project max_rows x))"
  shows "fst (match_bindings E S q project max_rows x) =
    filter (eval_where (en_regex E) (q_where q))
      (map (seed_binding S (start_var q)) (scan_pattern_nodes (en_regex E) S project max_rows np))"
proof (rule match_bindings_parts [of E S q project max_rows x])
  fix bs0 x0 bs1 v x1 bs2 cap
  assume cap: "cap = bind_capacity (length (start_scan E S q project max_rows)) max_rows"
    and seed: "seed_loop E S (q_where q) (start_var q) cap 0 (start_scan E S q project max_rows) [] x = (bs0, x0)"
    and rels: "expand_pattern_rels E S (hd (q_pattern_optional q)) cap (pattern_steps (hd (q_patterns q)))
       (start_var q) bs0 x0 = (bs1, v, x1)"
    and more: "expand_additional_patterns E S project max_rows cap
       (zip (tl (q_patterns q)) (tl (q_pattern_optional q))) bs1 x1 =
     (bs2, snd (match_bindings E S q project max_rows x))"
    and all: "fst (match_bindings E S q project max_rows x) =
       (if late_where q then filter (eval_where (en_regex E) (q_where q)) bs2 else bs2)"
  have s: "start_scan E S q project max_rows = scan_pattern_nodes (en_regex E) S project max_rows np"
    using q by (simp add: start_scan_def)
  have "bs2 = bs0" "snd (match_bindings E S q project max_rows x) = x0" "\<not> late_where q"
    using q rels more by (simp_all add: pattern_steps_def late_where_def)
  then show ?thesis
    using seed_loop_filter [OF seed] t all cap scan_count_capacity [of "length (start_scan E S q project max_rows)" max_rows]
    by (simp add: s)
qed

section \<open>A whole query\<close>

lemma ret_agg_loop_moves: "x_moves E x (snd (ret_agg_loop E ret i bs aggs x))"
proof (induction bs arbitrary: i aggs x)
  case (Cons b bs)
  obtain s x1 where d: "deadline_sampled E i x = (s, x1)" by fastforce
  then show ?case using Cons sampled_moves [OF d] by (cases s) (auto intro: x_moves_trans)
qed simp

lemma return_clause_moves: "x_moves E x (snd (execute_return_clause E pats ret bs max_rows rb x))"
  by (simp add: execute_return_clause_def execute_return_agg_def Let_def split_beta ret_agg_loop_moves)

lemma execute_single_moves: "x_moves E x (snd (execute_single E S q project max_rows x))"
proof -
  obtain bs y where m: "match_bindings E S q project max_rows x = (bs, y)" by fastforce
  then have "x_moves E x y" using match_bindings_moves [of E x S q project max_rows] by simp
  then show ?thesis
    using m return_clause_moves
    by (auto simp: execute_single_def Let_def split: option.split intro: x_moves_trans)
qed

lemma execute_single_fits: "rows_fit (fst (execute_single E S q project max_rows x))"
  by (simp add: execute_single_def Let_def split_beta return_clause_fits default_fits split: option.split)

lemma union_append_moves: "x_moves E x (snd (union_append rb rb2 x))"
  by (auto simp: union_append_def)

lemma union_append_fits:
  assumes "rows_fit rb" "rows_fit rb2" "\<not> x_out_of_bounds (snd (union_append rb rb2 x))"
  shows "rows_fit (fst (union_append rb rb2 x))"
proof -
  have "rows_fit (foldl rb_add_row rb vs)" if "rows_fit rb" "\<forall>v\<in>set vs. length (rb_columns rb) \<le> length v" for vs rb
    using that by (induction vs arbitrary: rb) (auto simp: rows_fit_add_row)
  moreover have "\<forall>v\<in>set (rb_rows rb2). length (rb_columns rb) \<le> length v"
    using assms(2,3) by (auto simp: rows_fit_def union_append_def split: if_splits)
  ultimately show ?thesis using assms(1) by (simp add: union_append_def)
qed

lemma union_loop_moves: "x_moves E x (snd (union_loop E S project max_rows qs rb x))"
proof (induction qs arbitrary: rb x)
  case (Cons q qs)
  then show ?case
    using execute_single_moves union_append_moves
    by (simp add: Let_def split_beta) (meson x_moves_trans)
qed simp

lemma moves_in_bounds: "x_moves E x y \<Longrightarrow> \<not> x_out_of_bounds y \<Longrightarrow> \<not> x_out_of_bounds x"
  by (auto simp: x_moves_def)

lemma union_loop_fits:
  "rows_fit rb \<Longrightarrow> \<not> x_out_of_bounds (snd (union_loop E S project max_rows qs rb x)) \<Longrightarrow>
   rows_fit (fst (union_loop E S project max_rows qs rb x))"
proof (induction qs arbitrary: rb x)
  case (Cons q qs)
  obtain rb2 x1 where e: "execute_single E S q project max_rows x = (rb2, x1)" by fastforce
  obtain rb3 x2 where u: "union_append rb rb2 x1 = (rb3, x2)" by fastforce
  have oob: "\<not> x_out_of_bounds x2"
    using Cons.prems(2) e u union_loop_moves [of E x2] moves_in_bounds by (simp add: Let_def) blast
  have "rows_fit rb2" using execute_single_fits [of E S q project max_rows x] e by simp
  then have "rows_fit rb3" using union_append_fits [of rb rb2 x1] Cons.prems(1) oob u by simp
  then show ?case using Cons e u by simp
qed simp

lemma run_query_moves: "x_moves E x (snd (run_query E S q project max_rows x))"
  using execute_single_moves union_loop_moves
  by (simp add: run_query_def Let_def split_beta) (meson x_moves_trans)

lemma run_query_fits:
  "\<not> x_out_of_bounds (snd (run_query E S q project max_rows x)) \<Longrightarrow>
   rows_fit (fst (run_query E S q project max_rows x))"
  by (auto simp: run_query_def Let_def split_beta intro!: rows_fit_distinct union_loop_fits
      execute_single_fits)

section \<open>No rows stay no rows\<close>

lemma expand_bindings_nil: "expand_bindings E S rel target v w opt cap bi [] news x = (news, x)"
  by simp

lemma expand_rels_nil: "fst (expand_pattern_rels E S opt cap rts v [] x) = []"
proof (induction rts arbitrary: v x)
  case (Cons rt rts)
  then show ?case
    by (cases rt) (auto simp: Let_def split: prod.split bool.split)
qed simp

lemma additional_pattern_nil:
  "fst (expand_additional_pattern E S project max_rows cap po [] x) = []"
  by (cases po) (simp add: expand_additional_pattern_def Let_def var_bound_def cross_join_nodes_def
      cross_join_with_rels_def)

lemma additional_patterns_nil:
  "fst (expand_additional_patterns E S project max_rows cap pos [] x) = []"
proof (induction pos arbitrary: x)
  case (Cons po pos)
  then show ?case
    using additional_pattern_nil [of E S project max_rows cap po x] by (simp add: Let_def split_beta)
qed simp

lemma seed_loop_drops:
  "\<forall>n\<in>set ns. \<not> eval_where (en_regex E) w (seed_binding S var n) \<Longrightarrow>
   fst (seed_loop E S w var cap i ns bs x) = bs"
proof (induction ns arbitrary: i x)
  case (Cons n ns)
  obtain s x1 where d: "deadline_sampled E i x = (s, x1)" by fastforce
  then show ?case using Cons by (cases s) simp_all
qed simp

lemma match_bindings_nil:
  assumes "\<forall>n\<in>set (start_scan E S q project max_rows).
      \<not> eval_where (en_regex E) (q_where q) (seed_binding S (start_var q) n)"
  shows "fst (match_bindings E S q project max_rows x) = []"
proof (rule match_bindings_parts [of E S q project max_rows x])
  fix bs0 x0 bs1 v x1 bs2 cap
  assume seed: "seed_loop E S (q_where q) (start_var q) cap 0 (start_scan E S q project max_rows) [] x = (bs0, x0)"
    and rels: "expand_pattern_rels E S (hd (q_pattern_optional q)) cap (pattern_steps (hd (q_patterns q)))
       (start_var q) bs0 x0 = (bs1, v, x1)"
    and more: "expand_additional_patterns E S project max_rows cap
       (zip (tl (q_patterns q)) (tl (q_pattern_optional q))) bs1 x1 =
     (bs2, snd (match_bindings E S q project max_rows x))"
    and all: "fst (match_bindings E S q project max_rows x) =
       (if late_where q then filter (eval_where (en_regex E) (q_where q)) bs2 else bs2)"
  have "bs0 = []" using seed_loop_drops [OF assms] seed by (metis fst_conv)
  then have "bs1 = []" using expand_rels_nil rels by (metis fst_conv)
  then have "bs2 = []" using additional_patterns_nil more by (metis fst_conv)
  then show ?thesis using all by simp
qed

section \<open>Time\<close>

text \<open>A clock that never reaches the deadline.\<close>

definition within_budget :: "engine \<Rightarrow> bool" where
  "within_budget E \<longleftrightarrow> (\<forall>i. en_now_ms E i < x_deadline_ms (cypher_deadline_arm E))"

lemma within_budget_moves:
  "within_budget E \<Longrightarrow> x_moves E (cypher_deadline_arm E) y \<Longrightarrow> \<not> x_timed_out y"
  by (simp add: within_budget_def x_moves_def) (simp add: cypher_deadline_arm_def)

text \<open>A run whose second reading of the clock is past the deadline stops at the first node.\<close>

lemma seed_loop_late:
  assumes "x_deadline_ms (cypher_deadline_arm E) \<noteq> 0" "x_deadline_ms (cypher_deadline_arm E) \<le> en_now_ms E 1"
    and "0 < cap"
  shows "x_timed_out (snd (seed_loop E S w var cap 0 (n # ns) [] (cypher_deadline_arm E)))"
  using assms by (simp add: deadline_sampled_def cypher_deadline_exceeded_def Let_def)
    (simp add: cypher_deadline_arm_def)

lemma run_query_late:
  assumes "x_deadline_ms (cypher_deadline_arm E) \<noteq> 0" "x_deadline_ms (cypher_deadline_arm E) \<le> en_now_ms E 1"
    and "start_scan E S q project max_rows \<noteq> []"
  shows "x_timed_out (snd (run_query E S q project max_rows (cypher_deadline_arm E)))"
proof -
  let ?x = "cypher_deadline_arm E"
  have "x_timed_out (snd (match_bindings E S q project max_rows ?x))"
  proof (rule match_bindings_parts [of E S q project max_rows ?x])
    fix bs0 x0 bs1 v x1 bs2 cap
    assume cap: "cap = bind_capacity (length (start_scan E S q project max_rows)) max_rows"
      and seed: "seed_loop E S (q_where q) (start_var q) cap 0 (start_scan E S q project max_rows) [] ?x = (bs0, x0)"
      and rels: "expand_pattern_rels E S (hd (q_pattern_optional q)) cap (pattern_steps (hd (q_patterns q)))
         (start_var q) bs0 x0 = (bs1, v, x1)"
      and more: "expand_additional_patterns E S project max_rows cap
         (zip (tl (q_patterns q)) (tl (q_pattern_optional q))) bs1 x1 =
       (bs2, snd (match_bindings E S q project max_rows ?x))"
    obtain n ns where n: "start_scan E S q project max_rows = n # ns"
      using assms(3) by (cases "start_scan E S q project max_rows") auto
    have "0 < cap" using cap scan_count_capacity [of "length (n # ns)" max_rows] n by simp
    then have "x_timed_out x0" using seed_loop_late [OF assms(1,2)] seed n by (metis snd_conv)
    then show ?thesis
      using expand_rels_moves [OF rels] additional_patterns_moves [OF more] by (simp add: x_moves_def)
  qed
  moreover have "x_moves E (snd (match_bindings E S q project max_rows ?x)) (snd (execute_single E S q project max_rows ?x))"
    using return_clause_moves
    by (auto simp: execute_single_def Let_def split_beta split: option.split)
  moreover have "x_moves E (snd (execute_single E S q project max_rows ?x)) (snd (run_query E S q project max_rows ?x))"
    using union_loop_moves by (simp add: run_query_def Let_def split_beta)
  ultimately show ?thesis by (simp add: x_moves_def)
qed

end
