(* ===== verification/Cyp_Examples.thy ===== *)
theory Cyp_Examples
  imports Cyp_Execute_Facts Cyp_Lexer_Facts Cyp_Parser_Facts
begin

text \<open>
  A small graph, an engine with a stopped clock and the unfolding rules that evaluate the lexer,
  the parser and the executor on them: the data of the worked examples of the other theories.
\<close>

definition demo_node :: "int \<Rightarrow> string \<Rightarrow> string \<Rightarrow> pmm_node" where
  "demo_node i label name =
     \<lparr>n_id = i, n_project = Some ''p'', n_label = Some label, n_name = Some name,
      n_qualified_name = Some (''m.'' @ name), n_file_path = Some ''a.c'', n_start_line = i,
      n_end_line = i + 1, n_properties_json = Some ''{}''\<rparr>"

definition demo_edge :: "int \<Rightarrow> int \<Rightarrow> int \<Rightarrow> string \<Rightarrow> pmm_edge" where
  "demo_edge i s t ty =
     \<lparr>e_id = i, e_project = Some ''p'', e_source_id = s, e_target_id = t, e_type = Some ty,
      e_properties_json = Some ''{}''\<rparr>"

text \<open>\<open>main\<close> calls \<open>work\<close> and uses the class \<open>Box\<close>; \<open>work\<close> calls \<open>help\<close>.\<close>

definition demo_tables :: tables where
  "demo_tables =
     \<lparr>t_nodes = [demo_node 1 ''Function'' ''main'', demo_node 2 ''Function'' ''work'',
                 demo_node 3 ''Class'' ''Box'', demo_node 4 ''Function'' ''help''],
      t_edges = [demo_edge 1 1 2 ''CALLS'', demo_edge 2 2 4 ''CALLS'', demo_edge 3 1 3 ''USES'']\<rparr>"

definition demo_engine :: engine where
  "demo_engine =
     \<lparr>en_regex = (\<lambda>p s. Some (p = s)), en_now_ms = (\<lambda>i. 0), en_max_depth_env = None,
      en_deadline_override_ms = -1\<rparr>"

definition demo_state :: xstate where
  "demo_state = cypher_deadline_arm demo_engine"

definition demo_return :: "return_item list \<Rightarrow> return_clause" where
  "demo_return items = empty_return_clause\<lparr>rc_items := items\<rparr>"

definition demo_item :: "string \<Rightarrow> string \<Rightarrow> return_item" where
  "demo_item v p = empty_return_item\<lparr>ri_variable := Some v, ri_property := Some p\<rparr>"

definition demo_row :: "string \<Rightarrow> pmm_node \<Rightarrow> binding" where
  "demo_row v n = seed_binding (table_store demo_tables) v n"

definition demo_condition :: "string \<Rightarrow> string option \<Rightarrow> string \<Rightarrow> string option \<Rightarrow> condition" where
  "demo_condition v p op val =
     \<lparr>cn_variable = Some v, cn_property = p, cn_op = Some op, cn_value = val, cn_negated = False,
      cn_coalesce_default = None, cn_in_values = [], cn_exists_dir = 0, cn_func = None, cn_args = []\<rparr>"

lemmas demo_defs = demo_condition_def demo_node_def demo_edge_def demo_tables_def demo_engine_def demo_state_def
  demo_return_def demo_item_def demo_row_def

text \<open>The keyword chain, folded out once, and the words of the examples.\<close>

lemmas keyword_steps = keyword_lookup_def
  [unfolded keyword_table_def keyword_scan.simps strcaseeq_def list.map c_tolower_letters]

lemma demo_keywords:
  "keyword_lookup ''MATCH'' = TOK_MATCH" "keyword_lookup ''RETURN'' = TOK_RETURN"
  "keyword_lookup ''WHERE'' = TOK_WHERE" "keyword_lookup ''NOT'' = TOK_NOT"
  "keyword_lookup ''Class'' = TOK_IDENT" "keyword_lookup ''CALLS'' = TOK_IDENT"
  "keyword_lookup ''name'' = TOK_IDENT" "keyword_lookup ''a'' = TOK_IDENT"
  "keyword_lookup ''b'' = TOK_IDENT" "keyword_lookup ''f'' = TOK_IDENT"
  by (simp_all only: keyword_steps list.map c_tolower_letters list.inject char.inject if_False if_True
      simp_thms list.distinct)

lemma lex_loop_eval:
  "lex_loop (i, []) out = ((i, []), out)"
  "lex_loop (i, c # cs) out = (case lex_step (i, c # cs) out of (cur, out') \<Rightarrow> lex_loop cur out')"
  by (simp_all add: lex_loop.simps split_beta)

lemmas lexer_eval = pmm_lex_def empty_lex_result_def cstr_def lex_loop_eval lex_step_def
  lex_skip_whitespace_comments_def lex_try_number_def lex_try_ident_def lex_try_two_char_def
  lex_single_char_def skip_line_def number_start_def ident_start_def ident_char_def c_isdigit_def
  c_isalpha_def c_isalnum_def c_isspace_def lex_push_def lex_push_n_def demo_keywords
  two_char_pairs_def Let_def

lemmas parser_eval = parse_fuel_def peek_def advance_def check_def match_def expect_def
  unsupported_clause_error_def standalone_with_def parse_with_part_def parse_match_pattern_def
  parse_node_def parse_node_label_def parse_where_def parse_return_def parse_return_or_with_def
  parse_ok_def error_or_def parse_fail_def parse_props_def parse_unwind_clause_def
  empty_node_pattern_def Let_def

lemmas return_eval = parse_return_item_def parse_item_body_def parse_item_alias_def
  parse_var_dot_prop_def is_aggregate_tok_def is_string_func_tok_def is_named_func_call_def
  is_multiarg_func_call_def at_call_def parse_return_tail_def parse_order_by_clause_def
  parse_skip_def parse_limit_def empty_return_item_def empty_return_clause_def

lemmas value_eval = binding_get_def binding_get_edge_def binding_set_def binding_set_edge_def
  slot_set_def empty_binding_def seed_binding_def or_empty_def deref_def node_prop_def
  node_string_field_def computed_prop_def binding_get_virtual_def virtual_name_def
  snprintf_buf_def

text \<open>A first query, parsed.\<close>

definition demo_query :: query where
  "demo_query =
     Query [\<lparr>pt_nodes = [\<lparr>np_variable = Some ''f'', np_label = None, np_props = []\<rparr>], pt_rels = []\<rparr>]
       [False] None None None None None False None None"

lemma demo_tokens: "lr_tokens (snd (pmm_lex (Some ''MATCH (f)''))) =
    [\<lparr>tk_type = TOK_MATCH, tk_text = ''MATCH'', tk_pos = 0\<rparr>,
     \<lparr>tk_type = TOK_LPAREN, tk_text = ''('', tk_pos = 6\<rparr>,
     \<lparr>tk_type = TOK_IDENT, tk_text = ''f'', tk_pos = 7\<rparr>,
     \<lparr>tk_type = TOK_RPAREN, tk_text = '')'', tk_pos = 8\<rparr>,
     \<lparr>tk_type = TOK_EOF, tk_text = [], tk_pos = 9\<rparr>]"
  by (simp add: lexer_eval)

lemma lex_fine: "fst (pmm_lex (Some s)) = 0" "lr_error (snd (pmm_lex (Some s))) = None"
  by (simp_all add: pmm_lex_Some)

lemma demo_parse: "pmm_cypher_parse (Some ''MATCH (f)'') = Some (0, Some demo_query, None)"
  by (simp add: pmm_cypher_parse_def split_beta demo_tokens lex_fine parser_eval demo_query_def
      eval_nat_numeral)

text \<open>A query with a label and a projection.\<close>

definition demo_class_query :: "query option \<Rightarrow> query" where
  "demo_class_query nxt =
     Query [\<lparr>pt_nodes = [\<lparr>np_variable = Some ''f'', np_label = Some ''Class'', np_props = []\<rparr>], pt_rels = []\<rparr>]
       [False] None None None (Some (demo_return [demo_item ''f'' ''name''])) nxt False None None"

lemma demo_class_tokens: "lr_tokens (snd (pmm_lex (Some ''MATCH (f:Class) RETURN f.name''))) =
    [\<lparr>tk_type = TOK_MATCH, tk_text = ''MATCH'', tk_pos = 0\<rparr>,
     \<lparr>tk_type = TOK_LPAREN, tk_text = ''('', tk_pos = 6\<rparr>,
     \<lparr>tk_type = TOK_IDENT, tk_text = ''f'', tk_pos = 7\<rparr>,
     \<lparr>tk_type = TOK_COLON, tk_text = '':'', tk_pos = 8\<rparr>,
     \<lparr>tk_type = TOK_IDENT, tk_text = ''Class'', tk_pos = 9\<rparr>,
     \<lparr>tk_type = TOK_RPAREN, tk_text = '')'', tk_pos = 14\<rparr>,
     \<lparr>tk_type = TOK_RETURN, tk_text = ''RETURN'', tk_pos = 16\<rparr>,
     \<lparr>tk_type = TOK_IDENT, tk_text = ''f'', tk_pos = 23\<rparr>,
     \<lparr>tk_type = TOK_DOT, tk_text = ''.'', tk_pos = 24\<rparr>,
     \<lparr>tk_type = TOK_IDENT, tk_text = ''name'', tk_pos = 25\<rparr>,
     \<lparr>tk_type = TOK_EOF, tk_text = [], tk_pos = 29\<rparr>]"
  by (simp add: lexer_eval)

lemma demo_class_parse:
  "pmm_cypher_parse (Some ''MATCH (f:Class) RETURN f.name'') = Some (0, Some (demo_class_query None), None)"
  by (simp add: pmm_cypher_parse_def split_beta demo_class_tokens lex_fine parser_eval return_eval demo_class_query_def
      demo_return_def demo_item_def snprintf_buf_id eval_nat_numeral)

lemma demo_class_row: "project_row rx (demo_return [demo_item ''f'' ''name''])
    (seed_binding S ''f'' (demo_node 3 ''Class'' ''Box'')) = [''Box'']"
  by (simp add: project_row_def project_item_def demo_defs empty_return_clause_def empty_return_item_def
      is_scalar_value_func_def value_eval)

end
