(* ===== verification/Cyp_Value_Props.thy ===== *)
theory Cyp_Value_Props
  imports Cyp_Value_Facts Cyp_Examples
begin

text \<open>
  What the values and conditions promise: the variable tables are bounded maps, a JSON property
  is read back, integers compare as integers, the string functions stay in their buffers, and a
  condition on a variable that the row does not bind is true.
\<close>

section \<open>Variables\<close>

text \<open>Writing a variable of a row is a map update as long as the name is known or fewer than
  16 names (8 for edges) are in use, and changes nothing otherwise; no other variable, and no
  variable of the other kind, changes; the tables never outgrow their arrays.\<close>

theorem binding_set_is_bounded_update:
  "binding_get (binding_set b v n) w =
     (if w = v \<and> (case binding_get b v of Some _ \<Rightarrow> True | None \<Rightarrow> length (b_vars b) < 16) then Some n
      else binding_get b w) \<and>
   binding_get_edge (binding_set_edge b v e) w =
     (if w = v \<and> (case binding_get_edge b v of Some _ \<Rightarrow> True | None \<Rightarrow> length (b_edges b) < 8) then Some e
      else binding_get_edge b w) \<and>
   binding_get_edge (binding_set b v n) w = binding_get_edge b w \<and>
   binding_get (binding_set_edge b v e) w = binding_get b w \<and>
   length (b_vars (binding_set b v n)) \<le> max 16 (length (b_vars b)) \<and>
   length (b_edges (binding_set_edge b v e)) \<le> max 8 (length (b_edges b))"
proof -
  have "binding_get (binding_set b v n) w =
     (if w = v \<and> (case binding_get b v of Some _ \<Rightarrow> True | None \<Rightarrow> length (b_vars b) < 16) then Some n
      else binding_get b w)"
    using node_vars.get_put [of b v n w] node_vars.put_full [of b v n] node_vars.get_put_other [of w v b n]
    by (cases "w = v"; cases "binding_get b v"; cases "length (b_vars b) < 16") auto
  moreover have "binding_get_edge (binding_set_edge b v e) w =
     (if w = v \<and> (case binding_get_edge b v of Some _ \<Rightarrow> True | None \<Rightarrow> length (b_edges b) < 8) then Some e
      else binding_get_edge b w)"
    using edge_vars.get_put [of b v e w] edge_vars.put_full [of b v e] edge_vars.get_put_other [of w v b e]
    by (cases "w = v"; cases "binding_get_edge b v"; cases "length (b_edges b) < 8") auto
  ultimately show ?thesis using node_vars.used_put [of b v n] edge_vars.used_put [of b v e] by auto
qed

section \<open>Properties\<close>

text \<open>A string property is read back from the JSON column: if the text between the quotes has
  no quote, no backslash and at most 511 bytes, and the key is none of the columns of the node
  table, the property of the node is that text, whatever follows in the object.\<close>

theorem json_property_read:
  assumes "n_properties_json n = Some (''{'' @ [CHR 0x22] @ k @ [CHR 0x22, CHR '':'', CHR 0x22] @ v @ [CHR 0x22] @ rest)"
    and "json_plain v" "v \<noteq> []" "length v \<le> 511" "length k \<le> 252"
    and "k \<notin> set [''name'', ''qualified_name'', ''qn'', ''label'', ''file_path'', ''file'', ''path'',
                      ''start_line'', ''end_line'', ''in_degree'', ''out_degree'']"
  shows "node_prop n k store = v"
proof -
  let ?j = "''{'' @ [CHR 0x22] @ k @ [CHR 0x22, CHR '':'', CHR 0x22] @ v @ [CHR 0x22] @ rest"
  let ?pat = "[CHR 0x22] @ k @ [CHR 0x22, CHR '':'']"
  have pat: "snprintf_buf 256 ?pat = ?pat" using assms(5) by (simp add: snprintf_buf_id)
  have "starts_with ?pat (?pat @ [CHR 0x22] @ v @ [CHR 0x22] @ rest)"
    unfolding starts_with_iff by blast
  then have "strstr ?j ?pat = Some (?pat @ [CHR 0x22] @ v @ [CHR 0x22] @ rest)" by simp
  then have "json_extract_prop (Some ?j) k 512 = json_copy_string 511 (v @ CHR 0x22 # rest)"
    unfolding json_extract_prop_def option.case pat Let_def by simp
  then have "json_extract_prop (Some ?j) k 512 = v"
    using assms(2,4) by (simp add: json_copy_string_plain)
  then have "json_node_prop n k = v" using assms(1) by (simp add: json_node_prop_def)
  moreover have "node_string_field n k = None" using assms(6) by (simp add: node_string_field_def)
  ultimately show ?thesis
    using assms(3,6) by (auto simp: node_prop_def computed_prop_def split: list.split)
qed

lemma json_property_read_witness:
  "node_prop (zero_node\<lparr>n_properties_json :=
      Some (''{'' @ [CHR 0x22] @ ''lang'' @ [CHR 0x22, CHR '':'', CHR 0x22] @ ''c'' @ [CHR 0x22] @ ''}'')\<rparr>)
     ''lang'' None = ''c''"
  by (rule json_property_read [where rest = "''}''"]) (simp_all add: json_plain_def)

text \<open>Integers compare as integers: on the decimal texts of two integers below 2^53 in size the
  six comparison operators of WHERE give the comparison of the integers.\<close>

theorem integer_comparisons:
  assumes "\<bar>a\<bar> < 2 ^ 53" "\<bar>b\<bar> < 2 ^ 53"
  shows "eval_comparison_op rx ''='' (show_int a) (show_int b) = (a = b) \<and>
    eval_comparison_op rx ''<>'' (show_int a) (show_int b) = (a \<noteq> b) \<and>
    eval_comparison_op rx ''<'' (show_int a) (show_int b) = (a < b) \<and>
    eval_comparison_op rx ''<='' (show_int a) (show_int b) = (a \<le> b) \<and>
    eval_comparison_op rx ''>'' (show_int a) (show_int b) = (a > b) \<and>
    eval_comparison_op rx ''>='' (show_int a) (show_int b) = (a \<ge> b)"
  using assms dbl_compare_int [OF assms] dbl_compare_int [OF assms(2,1)] show_int_inj [of a b]
  by (simp add: eval_comparison_op_def strtod_show_int)

lemma integer_comparisons_witness:
  "eval_comparison_op (\<lambda>p s. None) ''<'' (show_int (-9)) (show_int 10)"
  using integer_comparisons [of "-9" 10 "\<lambda>p s. None"] by simp

section \<open>Buffers\<close>

text \<open>The string functions stay inside the buffer they are given, terminator included, for every
  value and every argument; only \<open>coalesce\<close> hands on a value without copying it.\<close>

theorem string_functions_fit:
  "list_all (\<lambda>f. length (apply_string_func (Some f) v (Suc sz)) \<le> sz)
     [''toLower'', ''toUpper'', ''toInteger'', ''toFloat'', ''size'', ''length'', ''trim'', ''ltrim'',
      ''rtrim'', ''reverse''] \<and>
   (deref (ri_func item) = ''coalesce'' \<or> length (eval_multiarg_func b item (Suc sz)) \<le> sz)"
proof -
  have "length (c_substring s i l (Suc sz)) \<le> sz" for s i l
    by (auto simp: c_substring_def Let_def)
  moreover have "length (c_left s i (Suc sz)) \<le> sz" "length (c_right s i (Suc sz)) \<le> sz" for s i
    by (simp_all add: c_left_def c_right_def Let_def)
  moreover have "length (c_replace s f t (Suc sz)) \<le> sz" for s f t
    using replace_loop_length [of f t sz s] by (auto simp: c_replace_def snprintf_buf_def)
  ultimately have "deref (ri_func item) = ''coalesce'' \<or> length (eval_multiarg_func b item (Suc sz)) \<le> sz"
    by (auto simp: eval_multiarg_func_def Let_def)
  moreover have "length (snprintf_buf (Suc sz) s) \<le> sz" for s
    using snprintf_buf_length [of "Suc sz" s] by simp
  ultimately show ?thesis
    by (auto simp: apply_string_func_def Let_def split: prod.split bool.split)
qed

section \<open>Conditions\<close>

text \<open>A condition on a variable that the row does not bind is true, whatever its operator and
  whether it is negated or not - IS NOT NULL included. Only HAS LABEL, EXISTS, a function call and
  the default of \<open>coalesce\<close> are evaluated on such a row.\<close>

theorem unbound_condition_holds:
  assumes "binding_get b (deref (cn_variable c)) = None" "binding_get_edge b (deref (cn_variable c)) = None"
    and "cn_func c = None" "cn_coalesce_default c = None"
    and "deref (cn_op c) \<notin> set [''HAS_LABEL'', ''EXISTS'']"
  shows "eval_condition rx c b"
  using assms by (simp add: eval_condition_def condition_actual_def resolve_condition_value_def Let_def)

lemma unbound_condition_holds_witness:
  "eval_condition (\<lambda>p s. None)
     (demo_condition ''b'' None ''IS NOT NULL'' None) (demo_row ''a'' (demo_node 1 ''Function'' ''main''))"
  by (rule unbound_condition_holds) (simp_all add: demo_defs value_eval)

end
