(* ===== verification/Cyp_Result_Props.thy ===== *)
theory Cyp_Result_Props
  imports Cyp_Value_Facts Cyp_Examples
begin

text \<open>
  What ORDER BY, DISTINCT and the page of SKIP and LIMIT do to the rows of a table, and where the
  \<open>int\<close> subtraction of the numeric comparison goes wrong.
\<close>

section \<open>ORDER BY\<close>

definition demo_order :: "string \<Rightarrow> string option \<Rightarrow> return_clause" where
  "demo_order col dir = empty_return_clause\<lparr>rc_order_by := Some col, rc_order_dir := dir\<rparr>"

text \<open>C32: ORDER BY sorts. If the column is found and, where it is compared as numbers, every
  value is below 2^30 in size, the rows after \<open>rb_apply_order_by\<close> are a permutation of the rows
  before, ascending or descending on the column as asked, and rows with the same value keep their
  order.\<close>

theorem order_by_correct:
  assumes "rc_order_by ret \<noteq> None" "rb_find_order_column rb ret = Some col"
    and "rb_is_numeric_column rb col \<longrightarrow> (\<forall>r\<in>set (rb_rows rb). small_number (r ! col))"
  shows "mset (rb_rows (rb_apply_order_by rb ret)) = mset (rb_rows rb) \<and>
    sorted_wrt (\<lambda>a b. order_le (rb_is_numeric_column rb col) (rc_order_dir ret = Some ''DESC'') (a ! col) (b ! col))
      (rb_rows (rb_apply_order_by rb ret)) \<and>
    filter (\<lambda>r. r ! col = v) (rb_rows (rb_apply_order_by rb ret)) = filter (\<lambda>r. r ! col = v) (rb_rows rb)"
  using assms order_by_sorts [of "rb_is_numeric_column rb col" "rb_rows rb" col, where desc = "rc_order_dir ret = Some ''DESC''"]
  by (auto simp: rb_apply_order_by_def)

lemma order_by_correct_witness:
  "sorted_wrt (\<lambda>a b. order_le True True (a ! 0) (b ! 0))
     (rb_rows (rb_apply_order_by \<lparr>rb_rows = [[''9''], [''10''], [''-3'']], rb_columns = [''n'']\<rparr>
                (demo_order ''n'' (Some ''DESC''))))"
proof -
  let ?rb = "\<lparr>rb_rows = [[''9''], [''10''], [''-3'']], rb_columns = [''n'']\<rparr>"
  let ?ret = "demo_order ''n'' (Some ''DESC'')"
  have num: "rb_is_numeric_column ?rb 0"
    by (simp add: rb_is_numeric_column_def numeric_text_def c_isdigit_def)
  have "rb_find_order_column ?rb ?ret = Some 0" "rc_order_by ?ret \<noteq> None"
    by (simp_all add: rb_find_order_column_def demo_order_def)
  moreover have "\<forall>r\<in>set (rb_rows ?rb). small_number (r ! 0)"
    by (simp add: small_number_def strtol_def split_sign_def c_isspace_def c_isdigit_def)
  ultimately have "sorted_wrt (\<lambda>a b. order_le (rb_is_numeric_column ?rb 0)
      (rc_order_dir ?ret = Some ''DESC'') (a ! 0) (b ! 0)) (rb_rows (rb_apply_order_by ?rb ?ret))"
    using order_by_correct [of ?ret ?rb 0 "[]"] by blast
  then show ?thesis using num by (simp add: demo_order_def)
qed

lemma numeric_text_digits: "numeric_text (nat_digits n)"
proof -
  obtain c cs where d: "nat_digits n = c # cs" "c_isdigit c" by (rule nat_digits_Cons)
  moreover have "list_all c_isdigit (nat_digits n)" by (simp add: list_all_iff nat_digits_isdigit)
  moreover have "c \<noteq> CHR ''-''" using d(2) by (auto simp: c_isdigit_def)
  ultimately show ?thesis by (simp add: numeric_text_def)
qed

text \<open>The numeric comparison subtracts two \<open>int\<close>s: two values of an \<open>int\<close> that are 2^31 or more
  apart are sorted the wrong way round. A table whose first row holds the larger value and whose
  second row the smaller one is left as it is by an ascending ORDER BY.\<close>

theorem order_by_int_wraps:
  assumes "- (2 ^ 31) \<le> w" "v < 2 ^ 31" "w + 2 ^ 31 \<le> v"
  shows "rb_rows (rb_apply_order_by \<lparr>rb_rows = [[show_int v], [show_int w]], rb_columns = [c]\<rparr>
      (demo_order c None)) = [[show_int v], [show_int w]]"
proof -
  have vw: "strtol (show_int v) = v" "strtol (show_int w) = w"
    using assms by (auto intro!: strtol_show_int)
  have i: "int32 v = v" "int32 w = w" using assms by (auto intro!: int32_id)
  have "int32 (v - w) = v - w - 2 ^ 32"
  proof -
    have "(v - w + 2 ^ 31) mod 2 ^ 32 = (v - w - 2 ^ 31 + 2 ^ 32) mod 2 ^ 32" by (simp add: add.commute)
    also have "\<dots> = v - w - 2 ^ 31" unfolding mod_add_self2 using assms by simp
    finally have "(v - w + 2 ^ 31) mod 2 ^ 32 = v - w - 2 ^ 31" .
    then show ?thesis unfolding int32_def int_word_sint by simp
  qed
  then have "numeric_cmp (show_int v) (show_int w) \<le> 0"
    using assms by (simp add: numeric_cmp_def vw i)
  moreover have "show_int v = nat_digits (nat v)" using assms by (simp add: show_int_def)
  ultimately show ?thesis
    by (simp add: rb_apply_order_by_def rb_find_order_column_def demo_order_def rb_is_numeric_column_def
        bubble_sort_def order_gt_def empty_return_clause_def numeric_text_digits)
qed

lemma order_by_int_wraps_witness:
  "rb_rows (rb_apply_order_by \<lparr>rb_rows = [[show_int 2147483647], [show_int (-1)]], rb_columns = [''n'']\<rparr>
      (demo_order ''n'' None)) = [[show_int 2147483647], [show_int (-1)]]"
  by (rule order_by_int_wraps) simp_all

section \<open>DISTINCT\<close>

text \<open>DISTINCT keeps the first row of each kind: on a table whose rows are as wide as its header
  the rows left are the first occurrences of the rows in their order, so none appears twice and
  none is lost.\<close>

theorem distinct_keeps_first_rows:
  assumes "rows_fit rb"
  shows "rb_rows (rb_apply_distinct rb) = first_occurrences (rb_rows rb) \<and>
    distinct (rb_rows (rb_apply_distinct rb)) \<and>
    set (rb_rows (rb_apply_distinct rb)) = set (rb_rows rb) \<and> rows_fit (rb_apply_distinct rb)"
  using assms rows_fit_distinct [OF assms] distinct_rows [of rb]
  by (simp add: rows_fit_def first_occurrences_def)

lemma distinct_keeps_first_rows_witness:
  "rb_rows (rb_apply_distinct \<lparr>rb_rows = [[''a''], [''b''], [''a'']], rb_columns = [''x'']\<rparr>) = [[''a''], [''b'']]"
  using distinct_keeps_first_rows [of "\<lparr>rb_rows = [[''a''], [''b''], [''a'']], rb_columns = [''x'']\<rparr>"]
  by (simp add: rows_fit_def first_occurrences_def)

end
