(* ===== verification/Cyp_Project_Props.thy ===== *)
theory Cyp_Project_Props
  imports Cyp_Examples
begin

text \<open>
  What WITH and RETURN promise: grouping is grouping by key, COUNT counts the group, LIMIT pushed
  into the row loop changes nothing; and where the fixed buffers show.
\<close>

section \<open>LIMIT\<close>

text \<open>The clause without the early end of the row loop: project every row that \<open>max_rows\<close> admits,
  then drop duplicates, sort and cut the page.\<close>

definition return_page :: "regex \<Rightarrow> return_clause \<Rightarrow> binding list \<Rightarrow> int \<Rightarrow> result_builder" where
  "return_page rx ret bs max_rows =
     (let t = full_table rx ret bs max_rows;
          t1 = (if rc_distinct ret then rb_apply_distinct t else t)
      in rb_apply_skip_limit (rb_apply_order_by t1 ret) (rc_skip ret)
           (if 0 \<le> rc_limit ret then rc_limit ret else max_rows))"

text \<open>C34: stopping the row loop early at LIMIT is an optimisation only: for a RETURN without star and
  without aggregates whose LIMIT does not exceed the row cap, the table is the page of the fully
  projected, deduplicated and sorted rows.\<close>

theorem limit_pushdown_equivalent:
  assumes "\<not> rc_star ret" "\<not> list_ex (\<lambda>it. is_aggregate_func (ri_func it)) (rc_items ret)"
    and "rc_limit ret \<le> max_rows"
  shows "execute_return_clause E pats ret bs max_rows rb_init x = (return_page (en_regex E) ret bs max_rows, x)"
proof -
  let ?t = "execute_return_simple (en_regex E) ret bs max_rows (build_return_columns rb_init ret)"
  show ?thesis
  proof (cases "0 < rc_limit ret \<and> \<not> rc_distinct ret \<and> rc_order_by ret = None \<and> rc_skip ret \<le> 0")
    case True
    then have "rb_rows ?t = map (project_row (en_regex E) ret) (take (nat (rc_limit ret)) bs)"
      by (simp add: execute_return_simple_rows)
    then show ?thesis
      using True assms execute_return_simple_columns [of "en_regex E" ret bs max_rows]
      by (simp add: execute_return_clause_def return_page_def full_table_def rb_apply_order_by_def
          rb_apply_skip_limit_def skip_limit_eq take_map)
  next
    case False
    then have "rb_rows ?t = map (project_row (en_regex E) ret) (take (nat max_rows) bs)"
      unfolding execute_return_simple_rows by (simp only: if_False)
    then have "?t = full_table (en_regex E) ret bs max_rows"
      using execute_return_simple_columns [of "en_regex E" ret bs max_rows]
      by (simp add: full_table_def)
    then show ?thesis
      using assms by (simp add: execute_return_clause_def return_page_def Let_def)
  qed
qed

lemma limit_pushdown_equivalent_witness:
  "execute_return_clause demo_engine [] ((demo_return [demo_item ''f'' ''name''])\<lparr>rc_limit := 1\<rparr>)
     [demo_row ''f'' (demo_node 1 ''Function'' ''main''), demo_row ''f'' (demo_node 2 ''Function'' ''work'')]
     100 rb_init demo_state =
   (return_page (en_regex demo_engine) ((demo_return [demo_item ''f'' ''name''])\<lparr>rc_limit := 1\<rparr>)
     [demo_row ''f'' (demo_node 1 ''Function'' ''main''), demo_row ''f'' (demo_node 2 ''Function'' ''work'')]
     100, demo_state)"
  by (rule limit_pushdown_equivalent)
    (simp_all add: demo_return_def demo_item_def empty_return_clause_def empty_return_item_def is_aggregate_func_def)

section \<open>Grouping\<close>

text \<open>The rows of an aggregating RETURN, group by group.\<close>

definition group_row :: "regex \<Rightarrow> return_clause \<Rightarrow> binding list \<Rightarrow> string \<Rightarrow> string list" where
  "group_row rx ret bs k =
     map2 ret_emit_cell (rc_items ret)
       (group_cells (ret_agg_build_key rx ret) (ret_agg_init_group rx ret) (ret_agg_accumulate ret) bs k)"

lemma foldl_emit:
  "length (rb_columns rb) = length (rc_items ret) \<Longrightarrow>
   \<forall>g\<in>set gs. length (ag_cells g) = length (rc_items ret) \<Longrightarrow>
   foldl (ret_agg_emit_row ret) rb gs =
     rb\<lparr>rb_rows := rb_rows rb @ map (\<lambda>g. map2 ret_emit_cell (rc_items ret) (ag_cells g)) gs\<rparr>"
  by (induction gs arbitrary: rb) (simp_all add: ret_agg_emit_row_def rb_add_row_def)

lemma return_agg_rows:
  assumes "\<not> x_timed_out (snd (execute_return_agg E ret bs (build_return_columns rb_init ret) x))"
  shows "fst (execute_return_agg E ret bs (build_return_columns rb_init ret) x) =
    \<lparr>rb_rows = map (group_row (en_regex E) ret bs)
       (first_occurrences (map (ret_agg_build_key (en_regex E) ret) bs)),
     rb_columns = map return_column (rc_items ret)\<rparr>"
proof -
  have "\<not> x_timed_out (snd (ret_agg_loop E ret 0 bs [] x))"
    using assms by (simp add: execute_return_agg_def split_beta)
  then have "fst (ret_agg_loop E ret 0 bs [] x) =
      groups_of (ret_agg_build_key (en_regex E) ret) (ret_agg_init_group (en_regex E) ret)
        (ret_agg_accumulate ret) bs"
    using ret_groups.fold_is_groups [of "en_regex E" ret bs]
    by (simp add: ret_agg_loop_fold ret_agg_step_eq)
  then show ?thesis
    by (simp add: execute_return_agg_def split_beta foldl_emit build_return_columns_def
        rb_set_columns_def rb_init_def groups_of_def ret_cells_length group_row_def)
qed

text \<open>C31: an aggregating RETURN is a GROUP BY: unless the deadline passes, it gives one row per
  distinct key of its plain items, in the order in which the keys first appear, each row the
  aggregates over exactly the rows with that key.\<close>

theorem return_groups_by_key:
  assumes "\<not> x_timed_out (snd (execute_return_agg E ret bs (build_return_columns rb_init ret) x))"
  shows "fst (execute_return_agg E ret bs (build_return_columns rb_init ret) x) =
    \<lparr>rb_rows = map (group_row (en_regex E) ret bs)
       (first_occurrences (map (ret_agg_build_key (en_regex E) ret) bs)),
     rb_columns = map return_column (rc_items ret)\<rparr>"
  using assms by (rule return_agg_rows)

lemma return_groups_by_key_witness:
  "length (rb_rows (fst (execute_return_agg demo_engine
     (demo_return [(demo_item ''f'' ''name'')\<lparr>ri_func := Some ''COUNT''\<rparr>])
     [demo_row ''f'' (demo_node 1 ''Function'' ''main''), demo_row ''f'' (demo_node 2 ''Function'' ''work'')]
     (build_return_columns rb_init (demo_return [(demo_item ''f'' ''name'')\<lparr>ri_func := Some ''COUNT''\<rparr>]))
     demo_state))) = 1"
  by (subst return_groups_by_key)
    (simp_all add: execute_return_agg_def demo_engine_def demo_state_def cypher_deadline_arm_def
      deadline_sampled_def cypher_deadline_exceeded_def Let_def first_occurrences_def ret_agg_build_key_def
      demo_return_def empty_return_clause_def)

text \<open>WITH groups in the same way: one virtual row per distinct key of its plain items, in the
  order in which the keys first appear, built from the cells accumulated over exactly the rows
  with that key, and each carries the store of the first row.\<close>

theorem with_groups_by_key:
  "execute_with_aggregate wc bs =
     map (\<lambda>k. with_agg_emit wc (case bs of [] \<Rightarrow> None | b # _ \<Rightarrow> b_store b)
               \<lparr>ag_key = k, ag_cells = group_cells (with_agg_build_key wc)
                  (\<lambda>b. map (with_init_cell b) (rc_items wc)) (with_agg_accumulate wc) bs k\<rparr>)
       (first_occurrences (map (with_agg_build_key wc) bs))"
  using with_groups.fold_is_groups [of wc bs]
  by (simp add: execute_with_aggregate_def with_agg_step_eq groups_of_def)

text \<open>COUNT counts and COUNT DISTINCT counts values: in the row of the group of a key, the cell of
  a COUNT item prints the number of rows with that key, and with DISTINCT the number of different
  values of the item among them.\<close>

theorem count_is_group_size:
  assumes "i < length (rc_items ret)" "ri_func (rc_items ret ! i) = Some ''COUNT''"
  shows "group_row rx ret bs k ! i =
    snprintf_buf 64 (nat_digits
      (if ri_distinct (rc_items ret ! i)
       then card ((\<lambda>b. item_raw b (rc_items ret ! i)) ` {b\<in>set bs. ret_agg_build_key rx ret b = k})
       else length (filter (\<lambda>b. ret_agg_build_key rx ret b = k) bs)))"
proof -
  let ?it = "rc_items ret ! i" and ?ms = "filter (\<lambda>b. ret_agg_build_key rx ret b = k) bs"
  let ?c0 = "init_cell (ret_group_val rx (hd ?ms) ?it) 0"
  have cell: "group_cells (ret_agg_build_key rx ret) (ret_agg_init_group rx ret) (ret_agg_accumulate ret) bs k ! i =
      foldl (\<lambda>c b. ret_accumulate_cell b ?it c) ?c0 ?ms"
    using assms(1)
    by (simp add: group_cells_def Let_def ret_agg_accumulate_def foldl_map2_nth ret_agg_init_group_def)
  have row: "group_row rx ret bs k ! i = ret_emit_cell ?it (foldl (\<lambda>c b. ret_accumulate_cell b ?it c) ?c0 ?ms)"
    using assms(1) by (simp add: group_row_def cell ret_cells_length)
  show ?thesis
  proof (cases "ri_distinct ?it")
    case True
    have d: "distinct (ac_list (foldl (\<lambda>c b. ret_accumulate_cell b ?it c) ?c0 ?ms))"
      "set (ac_list (foldl (\<lambda>c b. ret_accumulate_cell b ?it c) ?c0 ?ms)) = (\<lambda>b. item_raw b ?it) ` set ?ms"
      using ret_cell_distinct [OF assms(2) True, of ?c0 ?ms] by (simp_all add: init_cell_def)
    then have "length (ac_list (foldl (\<lambda>c b. ret_accumulate_cell b ?it c) ?c0 ?ms)) =
        card ((\<lambda>b. item_raw b ?it) ` {b\<in>set bs. ret_agg_build_key rx ret b = k})"
      using distinct_card [OF d(1)] by simp
    then show ?thesis using True assms(2) by (simp add: row ret_emit_cell_def)
  next
    case False
    then show ?thesis
      using assms(2) ret_cell_count [OF assms(2), of ?c0 ?ms]
      by (simp add: row ret_emit_cell_def format_agg_value_def with_agg_format_def init_cell_def)
  qed
qed

lemma count_is_group_size_witness:
  "group_row (\<lambda>p s. None) (demo_return [(demo_item ''f'' ''name'')\<lparr>ri_func := Some ''COUNT'', ri_distinct := True\<rparr>])
     [demo_row ''f'' (demo_node 1 ''Function'' ''main'')] [] ! 0 = snprintf_buf 64 (nat_digits 1)"
  using count_is_group_size [of 0 "demo_return [(demo_item ''f'' ''name'')\<lparr>ri_func := Some ''COUNT'', ri_distinct := True\<rparr>]"
      "\<lambda>p s. None" "[demo_row ''f'' (demo_node 1 ''Function'' ''main'')]" "[]"]
  by (simp add: demo_return_def empty_return_clause_def ret_agg_build_key_def)

section \<open>Buffers\<close>

text \<open>Every aggregate is cut to the 63 bytes of the cell buffer; in particular a collected list
  whose text reaches 63 bytes loses its end and its closing bracket.\<close>

theorem collect_is_cut:
  assumes "ri_func it = Some ''COLLECT''" "63 \<le> length (''['' @ join_quoted (ac_list cell))"
  shows "ret_emit_cell it cell = take 63 (''['' @ join_quoted (ac_list cell))"
  using assms by (simp add: ret_emit_cell_def format_agg_value_def format_collect_list_def Let_def
      snprintf_buf_def min_def)

lemma collect_is_cut_witness:
  "ret_emit_cell (empty_return_item\<lparr>ri_func := Some ''COLLECT''\<rparr>)
     (init_cell [] 0\<lparr>ac_list := [replicate 80 (CHR ''a'')]\<rparr>) =
   take 63 (''['' @ join_quoted [replicate 80 (CHR ''a'')])"
  using collect_is_cut [of "empty_return_item\<lparr>ri_func := Some ''COLLECT''\<rparr>"
      "init_cell [] 0\<lparr>ac_list := [replicate 80 (CHR ''a'')]\<rparr>"] by simp

text \<open>The values of a group key are only joined by bars, so two different rows can fall into one
  group: with values that contain a bar, names \<open>p|q\<close>, \<open>r\<close> and names \<open>p\<close>, \<open>q|r\<close> have the same key.\<close>

theorem group_keys_collide:
  "ret_agg_build_key rx (demo_return [demo_item ''a'' ''name'', demo_item ''b'' ''name''])
     (binding_set (demo_row ''a'' (demo_node 1 ''F'' ''p|q'')) ''b'' (demo_node 2 ''F'' ''r'')) =
   ret_agg_build_key rx (demo_return [demo_item ''a'' ''name'', demo_item ''b'' ''name''])
     (binding_set (demo_row ''a'' (demo_node 3 ''F'' ''p'')) ''b'' (demo_node 4 ''F'' ''q|r''))"
  by (simp add: ret_agg_build_key_def ret_group_val_def project_item_def demo_defs empty_return_clause_def
      empty_return_item_def is_scalar_value_func_def value_eval)

end
