(* ===== verification/Cyp_Match_Props.thy ===== *)
theory Cyp_Match_Props
  imports Cyp_Examples
begin

text \<open>
  What matching promises: scans find the nodes with the label, one hop and a range of hops give
  exactly the walks of the graph, OPTIONAL keeps the rows without a match, and mandatory patterns
  stay inside their arrays; and where the arrays, the bound end of a pattern and anonymous nodes
  go wrong.
\<close>

section \<open>Scans\<close>

text \<open>The scan of a labelled node pattern finds the nodes of the project whose label is admitted
  by the pattern - the same test that expansion applies to a target node, alternations \<open>A|B\<close>
  included - and that pass the inline properties; without a project it finds none.\<close>

theorem label_scan_agrees_with_label_test:
  assumes "np_label np = Some l" "\<forall>n\<in>set (t_nodes D). n_label n \<noteq> Some []"
  shows "set (scan_pattern_nodes rx (table_store D) project max_rows np) =
    {n \<in> set (t_nodes D). project \<noteq> None \<and> n_project n = project \<and>
       label_alt_matches (n_label n) (np_label np) \<and>
       check_inline_props rx n (np_props np) (Some (table_store D))}"
proof -
  have lab: "set (label_scan (table_store D) project l) =
    {n \<in> set (t_nodes D). project \<noteq> None \<and> n_project n = project \<and> label_alt_matches (n_label n) (Some l)}"
  proof (rule set_eqI)
    fix n
    show "n \<in> set (label_scan (table_store D) project l) \<longleftrightarrow> n \<in> {n \<in> set (t_nodes D). project \<noteq> None \<and>
        n_project n = project \<and> label_alt_matches (n_label n) (Some l)}"
    proof (cases "n \<in> set (t_nodes D)")
      case True
      then show ?thesis using assms(2) db.label_scan_iff [of n D project l] by auto
    next
      case False
      then have "n \<notin> set (label_scan (table_store D) project l)"
        by (auto simp: label_scan_def scan_alternation_labels_def db.by_label)
      then show ?thesis using False by simp
    qed
  qed
  have "set (scan_pattern_nodes rx (table_store D) project max_rows np) =
    {n \<in> set (label_scan (table_store D) project l). check_inline_props rx n (np_props np) (Some (table_store D))}"
    using assms(1)
    by (cases "np_props np = []") (simp_all add: scan_pattern_nodes_def label_scan_def check_inline_props_def)
  then show ?thesis unfolding lab assms(1) by (simp add: conj_ac)
qed

lemma label_scan_agrees_with_label_test_witness:
  "demo_node 3 ''Class'' ''Box'' \<in> set (scan_pattern_nodes (\<lambda>p s. None) (table_store demo_tables)
     (Some ''p'') 10 \<lparr>np_variable = Some ''n'', np_label = Some ''Struct|Class'', np_props = []\<rparr>)"
proof -
  have "label_alt_matches (Some ''Class'') (Some ''Struct|Class'')"
    by (simp add: label_alt_matches_segments)
  moreover have "\<forall>n\<in>set (t_nodes demo_tables). n_label n \<noteq> Some []" by (simp add: demo_defs)
  ultimately show ?thesis
    by (subst label_scan_agrees_with_label_test [where l = "''Struct|Class''"])
      (simp_all add: demo_tables_def demo_node_def check_inline_props_def)
qed

section \<open>One hop\<close>

text \<open>C2: one hop is exact: on tables with distinct node ids and with room for the rows, the bindings
  that \<open>expand_fixed_length\<close> appends are those that extend the row along one edge of the graph in
  the direction and with a type of the pattern, to a node that its label and properties admit.\<close>

theorem one_hop_refines_graph:
  assumes "distinct (map n_id (t_nodes D))"
    and "int (length (hop_rows rx (table_store D) rel target b src to_var)) \<le> m"
  shows "set (expand_fixed_length rx (table_store D) rel target b src to_var m []) =
    {nb. one_hop rx (table_store D) D rel target b src to_var nb}"
  using assms expand_fixed_length_all [of "[]" rx "table_store D" rel target b src to_var m]
    db.hop_rows_iff [OF assms(1)] by auto

lemma one_hop_refines_graph_witness:
  "{nb. one_hop (\<lambda>p s. None) (table_store demo_tables) demo_tables
      \<lparr>rp_variable = None, rp_types = [''CALLS''], rp_direction = Some ''outbound'', rp_min_hops = 1,
       rp_max_hops = 1\<rparr> \<lparr>np_variable = Some ''b'', np_label = None, np_props = []\<rparr>
      (demo_row ''a'' (demo_node 1 ''Function'' ''main'')) (demo_node 1 ''Function'' ''main'') ''b'' nb} =
   {binding_set (demo_row ''a'' (demo_node 1 ''Function'' ''main'')) ''b'' (demo_node 2 ''Function'' ''work'')}"
  by (subst one_hop_refines_graph [where m = 10, symmetric])
    (simp_all add: hop_rows_def hop_sides_def hop_edges_def edge_binding_def demo_tables_def table_store_def
      demo_node_def demo_edge_def find_edges_by_source_type_def find_node_by_id_def map_filter_simps
      expand_fixed_length_def process_edges_def demo_row_def seed_binding_def check_inline_props_def
      value_eval)

section \<open>A range of hops\<close>

text \<open>C5: a range of hops is exact up to its caps: with room for 100 rows, at most 100 nodes in reach
  (the limit of the statement) and at most 124 types in the pattern (the placeholders that fit its
  buffer), the bindings of \<open>expand_var_length\<close> are the nodes whose shortest walk from the start - of
  edges in the direction and with the types of the pattern, CALLS if it has none - has a length
  between the minimum and the clamped maximum and that the target pattern admits.\<close>

theorem range_of_hops_finds_shortest_walks:
  assumes "find_node_by_id D (n_id src) \<noteq> None" "length (rp_types rel) \<le> 124"
    and "length (concat (map (bfs_at_hop D (hop_direction rel) (rp_types rel) (n_id src))
                          [1..<Suc (nat (hop_limit E rel))])) \<le> 100"
    and "100 \<le> m"
  shows "set (fst (expand_var_length E (table_store D) rel target b src to_var m [] x)) =
    {nb. \<exists>n\<in>set (t_nodes D). \<exists>h. in_range E rel h \<and>
      walk D (hop_direction rel) (rp_types rel) (n_id src) (nat h) (n_id n) \<and>
      (\<forall>j. 1 \<le> j \<and> j < nat h \<longrightarrow> \<not> walk D (hop_direction rel) (rp_types rel) (n_id src) j (n_id n)) \<and>
      node_admitted (en_regex E) (table_store D) target n \<and> nb = binding_set b to_var n}"
proof -
  have "length (range_rows E (table_store D) rel target b src to_var) \<le> 100"
    unfolding range_rows_def
    by (rule order_trans [OF length_map_filter]) (simp add: table_store_def store_bfs_def)
  then have "fst (expand_var_length E (table_store D) rel target b src to_var m [] x) =
      range_rows E (table_store D) rel target b src to_var"
    using assms(4) by (simp add: expand_var_length_rows)
  then show ?thesis
    by (simp only: set_eq_iff mem_Collect_eq range_rows_table [OF assms(1-3)] simp_thms)
qed

definition demo_range :: rel_pattern where
  "demo_range = \<lparr>rp_variable = None, rp_types = [''CALLS''], rp_direction = Some ''outbound'',
     rp_min_hops = 1, rp_max_hops = 2\<rparr>"

lemma range_of_hops_finds_shortest_walks_witness:
  "set (fst (expand_var_length demo_engine (table_store demo_tables) demo_range
      \<lparr>np_variable = Some ''b'', np_label = None, np_props = []\<rparr>
      (demo_row ''a'' (demo_node 1 ''Function'' ''main'')) (demo_node 1 ''Function'' ''main'') ''b'' 100 [] demo_state)) =
    {nb. \<exists>n\<in>set (t_nodes demo_tables). \<exists>h. in_range demo_engine demo_range h \<and>
      walk demo_tables (hop_direction demo_range) (rp_types demo_range) 1 (nat h) (n_id n) \<and>
      (\<forall>j. 1 \<le> j \<and> j < nat h \<longrightarrow>
         \<not> walk demo_tables (hop_direction demo_range) (rp_types demo_range) 1 j (n_id n)) \<and>
      node_admitted (en_regex demo_engine) (table_store demo_tables)
        \<lparr>np_variable = Some ''b'', np_label = None, np_props = []\<rparr> n \<and>
      nb = binding_set (demo_row ''a'' (demo_node 1 ''Function'' ''main'')) ''b'' n}"
proof -
  let ?src = "demo_node 1 ''Function'' ''main''"
  have limit: "hop_limit demo_engine demo_range = 2"
    by (simp add: hop_limit_def demo_engine_def demo_range_def pmm_cypher_max_depth_def env_positive_int_def)
  have i: "n_id ?src = 1" by (simp add: demo_node_def)
  have small: "length (bfs_at_hop demo_tables d t i k) \<le> 4" for d t i k
    unfolding bfs_at_hop_def length_map length_order_by
    by (rule order_trans [OF length_filter_le]) (simp add: demo_tables_def)
  let ?f = "bfs_at_hop demo_tables (hop_direction demo_range) (rp_types demo_range) (n_id ?src)"
  have "length (concat (map ?f [1..<Suc (nat (hop_limit demo_engine demo_range))])) = length (?f 1) + length (?f 2)"
    by (simp add: limit upt_rec numeral_2_eq_2)
  also have "\<dots> \<le> 4 + 4" by (intro add_mono small)
  finally have "length (concat (map ?f [1..<Suc (nat (hop_limit demo_engine demo_range))])) \<le> 100" by simp
  moreover have "find_node_by_id demo_tables (n_id ?src) \<noteq> None" "length (rp_types demo_range) \<le> 124"
    by (simp_all add: find_node_by_id_def demo_tables_def demo_node_def demo_range_def)
  ultimately show ?thesis
    using range_of_hops_finds_shortest_walks [of demo_tables ?src demo_range demo_engine 100] unfolding i by blast
qed

text \<open>An undirected range of hops is walked along outgoing edges only: the pattern
  \<open>(a)-[*]-(b)\<close> gives the rows of \<open>(a)-[*]->(b)\<close>.\<close>

theorem undirected_range_is_outbound:
  "expand_var_length E (table_store D) (rel\<lparr>rp_direction := Some ''any''\<rparr>) target b src to_var m news x =
   expand_var_length E (table_store D) (rel\<lparr>rp_direction := Some ''outbound''\<rparr>) target b src to_var m news x"
proof -
  have "bfs_next D ''any'' ts = bfs_next D ''outbound'' ts" for ts
    by (intro ext) (simp add: bfs_next_def)
  then have "walk_level D ''any'' ts i k = walk_level D ''outbound'' ts i k" for ts i k
    by (induction k) simp_all
  then have "bfs_at_hop D ''any'' ts i = bfs_at_hop D ''outbound'' ts i" for ts i
    by (intro ext) (simp only: bfs_at_hop_def)
  then have "store_bfs D i ''any'' ts d r = store_bfs D i ''outbound'' ts d r" for i ts d r
    by (simp only: store_bfs_def)
  then have "so_bfs (table_store D) i ''any'' ts d r = so_bfs (table_store D) i ''outbound'' ts d r" for i ts d r
    by (simp add: table_store_def)
  moreover have "hop_binding rx S (rel\<lparr>rp_direction := Some ''any''\<rparr>) target b to_var =
      hop_binding rx S (rel\<lparr>rp_direction := Some ''outbound''\<rparr>) target b to_var" for rx S
    by (intro ext) (simp add: hop_binding_def)
  ultimately show ?thesis by (simp add: expand_var_length_def Let_def)
qed

section \<open>Joins\<close>

text \<open>C33: a relationship joins: if the run does not time out and the rows fit, expanding a row set
  along one relationship replaces every row by its extensions, in order, drops a row without the
  start variable, and keeps a row without an extension exactly if the match is optional; no array
  is overrun.\<close>

theorem relationship_joins_rows:
  assumes "expand_pattern_rels E S opt cap [(rel, target)] var bs x = (bs', var', y)"
    and "\<not> x_timed_out y" "0 \<le> cap" "cap * 10 < 2 ^ 31"
    and "int (length (concat (map (join_rows E S rel target var
           (case np_variable target of Some v \<Rightarrow> v | None \<Rightarrow> ''_n_t'') opt) bs))) \<le> cap * 10"
  shows "bs' = concat (map (join_rows E S rel target var
           (case np_variable target of Some v \<Rightarrow> v | None \<Rightarrow> ''_n_t'') opt) bs) \<and>
    x_out_of_bounds y = x_out_of_bounds x"
proof -
  let ?to = "case np_variable target of Some v \<Rightarrow> v | None \<Rightarrow> ''_n_t''"
  obtain s x1 where d: "cypher_deadline_exceeded E x = (s, x1)" by fastforce
  have s: "\<not> s" using assms(1,2) d exceeded_stops [of E x x1] by (cases s) auto
  obtain n1 x2 where o: "expand_bindings E S rel target var ?to opt cap 0 bs [] x1 = (n1, x2)" by fastforce
  then have "bs' = n1" "y = x2" using assms(1) d s by (auto simp: Let_def)
  then have "n1 = [] @ concat (map (join_rows E S rel target var ?to opt) bs) \<and>
      x_out_of_bounds x2 = x_out_of_bounds x1"
    using expand_bindings_all [OF assms(3,4) _ o] assms(2,5) by simp
  then show ?thesis using \<open>bs' = n1\<close> \<open>y = x2\<close> deadline_exceeded_frame(1) [OF d] by simp
qed

lemma relationship_joins_rows_witness:
  "\<exists>v y. expand_pattern_rels demo_engine (table_store demo_tables) True 10
     [(\<lparr>rp_variable = None, rp_types = [''READS''], rp_direction = Some ''outbound'', rp_min_hops = 1,
        rp_max_hops = 1\<rparr>, \<lparr>np_variable = Some ''b'', np_label = None, np_props = []\<rparr>)]
     ''a'' [demo_row ''a'' (demo_node 1 ''Function'' ''main'')] demo_state =
   ([demo_row ''a'' (demo_node 1 ''Function'' ''main'')], v, y)"
proof -
  let ?rel = "\<lparr>rp_variable = None, rp_types = [''READS''], rp_direction = Some ''outbound'', rp_min_hops = 1,
        rp_max_hops = 1\<rparr>" and ?t = "\<lparr>np_variable = Some ''b'', np_label = None, np_props = []\<rparr>"
  let ?b = "demo_row ''a'' (demo_node 1 ''Function'' ''main'')"
  obtain bs v y where o: "expand_pattern_rels demo_engine (table_store demo_tables) True 10 [(?rel, ?t)] ''a''
      [?b] demo_state = (bs, v, y)" by (metis prod_cases3)
  have j: "join_rows demo_engine (table_store demo_tables) ?rel ?t ''a'' ''b'' True ?b = [?b]"
    by (simp add: join_rows_def rel_rows_def is_variable_length_def hop_rows_def hop_sides_def hop_edges_def
        table_store_def find_edges_by_source_type_def demo_tables_def demo_edge_def map_filter_simps
        demo_row_def value_eval)
  have "x_moves demo_engine demo_state y" using expand_rels_moves [OF o] .
  then have "\<not> x_timed_out y"
    by (simp add: x_moves_def demo_state_def cypher_deadline_arm_def demo_engine_def)
  then show ?thesis
    using relationship_joins_rows [OF o] o j by simp
qed

section \<open>Capacities\<close>

lemma terminal_pattern_state:
  "expand_additional_pattern E S project max_rows cap (p, False) bs x = (nw, y) \<Longrightarrow> pt_rels p \<noteq> [] \<Longrightarrow>
   0 \<le> cap \<Longrightarrow> x_out_of_bounds y = x_out_of_bounds x"
proof -
  assume a: "expand_additional_pattern E S project max_rows cap (p, False) bs x = (nw, y)" "pt_rels p \<noteq> []" "0 \<le> cap"
  have rels: "x_out_of_bounds (snd (snd (expand_pattern_rels E S False cap rts v bs x))) = x_out_of_bounds x"
    for rts v using a(3) by (metis expand_rels_bound prod.collapse)
  have "x_out_of_bounds (snd (expand_additional_pattern E S project max_rows cap (p, False) bs x)) = x_out_of_bounds x"
    using a(2) by (simp add: expand_additional_pattern_def Let_def split_beta rels
        cross_join_with_rels_in_bounds expand_from_bound_terminal_in_bounds)
  then show ?thesis using a(1) by simp
qed

lemma additional_patterns_state:
  "expand_additional_patterns E S project max_rows cap pos bs x = (nw, y) \<Longrightarrow>
   \<forall>po\<in>set pos. \<not> snd po \<and> pt_rels (fst po) \<noteq> [] \<Longrightarrow> 0 \<le> cap \<Longrightarrow> x_out_of_bounds y = x_out_of_bounds x"
proof (induction pos arbitrary: bs x)
  case (Cons po pos)
  obtain b1 x1 where o: "expand_additional_pattern E S project max_rows cap po bs x = (b1, x1)" by fastforce
  then show ?case
    using Cons terminal_pattern_state [of E S project max_rows cap "fst po" bs x b1 x1]
    by (cases po) auto
qed simp

lemma seed_loop_state: "seed_loop E S w var cap i ns bs x = (bs', y) \<Longrightarrow> x_out_of_bounds y = x_out_of_bounds x"
proof (induction ns arbitrary: i bs x)
  case (Cons n ns)
  obtain s x1 where d: "deadline_sampled E i x = (s, x1)" by fastforce
  show ?case using Cons d deadline_sampled_frame(1) [OF d] by (cases s) (auto split: if_splits)
qed simp

lemma bind_capacity_nonneg: "0 \<le> bind_capacity k max_rows"
  by (auto simp: bind_capacity_def)

text \<open>C39: mandatory matching stays inside its arrays: if no pattern is optional and every pattern
  after the first has a relationship, no push of the seeding, of an expansion, of the drive from a
  bound end or of a join goes past the array of bindings that was allocated for it, whatever the
  graph and the sizes.\<close>

theorem mandatory_match_in_bounds:
  assumes "q_pattern_optional q = replicate (length (q_patterns q)) False" "q_patterns q \<noteq> []"
    and "\<forall>p\<in>set (tl (q_patterns q)). pt_rels p \<noteq> []"
  shows "x_out_of_bounds (snd (match_bindings E S q project max_rows x)) = x_out_of_bounds x"
proof (rule match_bindings_parts [of E S q project max_rows x])
  fix bs0 x0 bs1 v x1 bs2 cap
  assume "cap = bind_capacity (length (start_scan E S q project max_rows)) max_rows"
    and seed: "seed_loop E S (q_where q) (start_var q) cap 0 (start_scan E S q project max_rows) [] x = (bs0, x0)"
    and rels: "expand_pattern_rels E S (hd (q_pattern_optional q)) cap (pattern_steps (hd (q_patterns q)))
       (start_var q) bs0 x0 = (bs1, v, x1)"
    and more: "expand_additional_patterns E S project max_rows cap
       (zip (tl (q_patterns q)) (tl (q_pattern_optional q))) bs1 x1 =
     (bs2, snd (match_bindings E S q project max_rows x))"
  then have cap: "0 \<le> cap"
    using bind_capacity_nonneg [of "length (start_scan E S q project max_rows)" max_rows] by simp
  have "\<not> hd (q_pattern_optional q)" using assms(1,2) by (cases "q_patterns q") auto
  then have "x_out_of_bounds x1 = x_out_of_bounds x0" using rels cap expand_rels_bound by simp
  moreover have "\<forall>po\<in>set (zip (tl (q_patterns q)) (tl (q_pattern_optional q))). \<not> snd po \<and> pt_rels (fst po) \<noteq> []"
    using assms by (cases "q_patterns q") (auto dest: set_zip_leftD set_zip_rightD)
  ultimately show ?thesis
    using seed_loop_state [OF seed] additional_patterns_state [OF more] cap by simp
qed

lemma mandatory_match_in_bounds_witness:
  "\<not> x_out_of_bounds (snd (match_bindings demo_engine (table_store demo_tables) demo_query (Some ''p'') 10 demo_state))"
  by (subst mandatory_match_in_bounds)
    (simp_all add: demo_query_def demo_state_def cypher_deadline_arm_def)

text \<open>An optional node pattern overruns: \<open>OPTIONAL MATCH (v:L)\<close> with a new variable over at least
  two rows, where the scan finds no node, writes every row into an array of one entry.\<close>

theorem optional_scan_overruns:
  assumes "np_variable (hd (pt_nodes p)) = Some v" "pt_nodes p \<noteq> []" "pt_rels p = []"
    and "binding_get (hd bs) v = None" "2 \<le> length bs"
    and "scan_pattern_nodes (en_regex E) S project max_rows (hd (pt_nodes p)) = []"
  shows "expand_additional_pattern E S project max_rows cap (p, True) bs x = (bs, x\<lparr>x_out_of_bounds := True\<rparr>)"
  using assms
  by (cases bs) (auto simp: expand_additional_pattern_def Let_def var_bound_def hd_conv_nth
      cross_join_nodes_optional_empty)

lemma optional_scan_overruns_witness:
  "x_out_of_bounds (snd (expand_additional_pattern demo_engine (table_store demo_tables) (Some ''p'') 10 10
     (\<lparr>pt_nodes = [\<lparr>np_variable = Some ''z'', np_label = Some ''Absent'', np_props = []\<rparr>], pt_rels = []\<rparr>, True)
     [demo_row ''a'' (demo_node 1 ''Function'' ''main''), demo_row ''a'' (demo_node 2 ''Function'' ''work'')] demo_state))"
  by (subst optional_scan_overruns [where v = "''z''"])
    (simp_all add: scan_pattern_nodes_def strchr_def table_store_def find_nodes_by_label_def demo_tables_def
      demo_node_def demo_row_def value_eval)

section \<open>Two shortcuts that lose parts of the pattern\<close>

text \<open>The drive from a bound end node ignores the start node's inline properties and the hop
  range: \<open>(s {k: "v"})-[:T*2..3]->(t)\<close> with \<open>t\<close> bound gives the rows of \<open>(s)-[:T]->(t)\<close>.\<close>

theorem bound_end_ignores_properties_and_range:
  "expand_from_bound_terminal S \<lparr>pt_nodes = [start\<lparr>np_props := ps\<rparr>, t],
      pt_rels = [rel\<lparr>rp_min_hops := lo, rp_max_hops := hi\<rparr>]\<rparr> bs sv opt x =
   expand_from_bound_terminal S \<lparr>pt_nodes = [start\<lparr>np_props := []\<rparr>, t],
      pt_rels = [rel\<lparr>rp_min_hops := 1, rp_max_hops := 1\<rparr>]\<rparr> bs sv opt x"
proof -
  let ?p = "\<lparr>pt_nodes = [start\<lparr>np_props := ps\<rparr>, t], pt_rels = [rel\<lparr>rp_min_hops := lo, rp_max_hops := hi\<rparr>]\<rparr>"
  let ?q = "\<lparr>pt_nodes = [start\<lparr>np_props := []\<rparr>, t], pt_rels = [rel\<lparr>rp_min_hops := 1, rp_max_hops := 1\<rparr>]\<rparr>"
  have b: "terminal_binding S sc (start\<lparr>np_props := ps\<rparr>) b v rv = terminal_binding S sc (start\<lparr>np_props := []\<rparr>) b v rv"
    for sc b v rv by (intro ext) (simp add: terminal_binding_def split: option.split)
  have e: "terminal_edges S (rel\<lparr>rp_min_hops := lo, rp_max_hops := hi\<rparr>) sc i =
      terminal_edges S (rel\<lparr>rp_min_hops := 1, rp_max_hops := 1\<rparr>) sc i" for sc i
    by (simp add: terminal_edges_def)
  have "terminal_rows S ?p (rel\<lparr>rp_min_hops := lo, rp_max_hops := hi\<rparr>) sv opt m bs news =
      terminal_rows S ?q (rel\<lparr>rp_min_hops := 1, rp_max_hops := 1\<rparr>) sv opt m bs news" for m news
  proof (induction bs arbitrary: news)
    case (Cons c cs)
    then show ?case by (cases "binding_get c (or_empty (np_variable t))") (simp_all add: b e Let_def)
  qed simp
  then show ?thesis by (simp add: expand_from_bound_terminal_def Let_def)
qed

text \<open>Two anonymous nodes in a row are one variable: the step from an anonymous node to the next
  one, both called \<open>_n_t\<close>, gives a row only if an edge of the graph loops at the node that the row
  already has.\<close>

theorem anonymous_step_needs_loop:
  assumes "expand_one E (table_store D) rel target ''_n_t'' ''_n_t'' False cap b [] x = (nw, y)"
    and "\<not> is_variable_length rel" "nw \<noteq> []"
  shows "\<exists>src e. binding_get b ''_n_t'' = Some src \<and> e \<in> set (t_edges D) \<and>
    e_source_id e = n_id src \<and> e_target_id e = n_id src"
proof -
  obtain src where src: "binding_get b ''_n_t'' = Some src"
    using assms(1,3) by (cases "binding_get b ''_n_t''") (auto simp: expand_one_def)
  have nw: "nw = expand_fixed_length (en_regex E) (table_store D) rel target b src ''_n_t'' (int32 (cap * 10)) []"
    using assms(1,2) src by (simp add: expand_one_def Let_def)
  obtain nb where "nb \<in> set nw" using assms(3) by (cases nw) auto
  then have "nb \<in> set (hop_rows (en_regex E) (table_store D) rel target b src ''_n_t'')"
    using expand_fixed_length_subset [of "en_regex E" "table_store D" rel target b src "''_n_t''" "int32 (cap * 10)" "[]"]
    unfolding nw by auto
  then obtain inb e where e: "e \<in> set (hop_edges (table_store D) rel (n_id src) inb)"
      "edge_binding (en_regex E) (table_store D) inb target b ''_n_t'' (rp_variable rel) e = Some nb"
    by (auto simp: hop_rows_def set_map_filter)
  have "(if inb then e_source_id e else e_target_id e) = n_id src"
    using e(2) src by (auto simp: edge_binding_def Let_def split: if_splits)
  then show ?thesis using e(1) src by (auto simp: db.hop_edges_iff split: if_splits)
qed

lemma anonymous_step_needs_loop_witness:
  "\<exists>src e. binding_get (demo_row ''_n_t'' (demo_node 1 ''F'' ''f'')) ''_n_t'' = Some src \<and>
     e \<in> set (t_edges \<lparr>t_nodes = [demo_node 1 ''F'' ''f''], t_edges = [demo_edge 1 1 1 ''CALLS'']\<rparr>) \<and>
     e_source_id e = n_id src \<and> e_target_id e = n_id src"
proof -
  let ?D = "\<lparr>t_nodes = [demo_node 1 ''F'' ''f''], t_edges = [demo_edge 1 1 1 ''CALLS'']\<rparr>"
  let ?rel = "\<lparr>rp_variable = None, rp_types = [], rp_direction = Some ''outbound'', rp_min_hops = 1, rp_max_hops = 1\<rparr>"
  let ?t = "\<lparr>np_variable = None, np_label = None, np_props = []\<rparr>"
  obtain nw y where o: "expand_one demo_engine (table_store ?D) ?rel ?t ''_n_t'' ''_n_t'' False 10
      (demo_row ''_n_t'' (demo_node 1 ''F'' ''f'')) [] demo_state = (nw, y)" by fastforce
  have "nw \<noteq> []"
    using o by (auto simp: expand_one_def is_variable_length_def expand_fixed_length_def process_edges_def
        edge_binding_def table_store_def find_edges_by_source_def find_node_by_id_def demo_edge_def demo_node_def
        demo_row_def check_inline_props_def int32_id value_eval)
  then show ?thesis using anonymous_step_needs_loop [OF o] by (simp add: is_variable_length_def)
qed

end
