(* ===== verification/Cyp_Execute_Props.thy ===== *)
theory Cyp_Execute_Props
  imports Cyp_Examples Cyp_Parser_Props
begin

text \<open>
  The promises of the engine as a whole: it answers every query with a table or a message, rows
  are as wide as the header, the deadline and the row ceiling are errors, WHERE holds on every
  row that is projected, and UNION and LIMIT do what they say.
\<close>

section \<open>Every query is answered\<close>

text \<open>The answer of the entry point: what holds of a success and of a failure.\<close>

definition answer_ok :: "int \<times> cypher_result \<times> xstate \<Rightarrow> bool" where
  "answer_ok a =
     (case a of (rc, out, x) \<Rightarrow>
        if rc = 0 then
          cr_error out = None \<and> \<not> x_timed_out x \<and> int (length (cr_rows out)) < CYPHER_RESULT_CEILING \<and>
          (x_out_of_bounds x \<or> list_all (\<lambda>r. length r = length (cr_columns out)) (cr_rows out))
        else
          rc = -1 \<and> cr_rows out = [] \<and> cr_columns out = [] \<and> cr_warning out = None \<and>
          (\<exists>m. cr_error out = Some m \<and> m \<noteq> []))"

lemma finish_query_ok:
  assumes "\<not> x_out_of_bounds x \<Longrightarrow> rows_fit rb"
  shows "answer_ok (fst (finish_query rb x), snd (finish_query rb x), x)"
  using assms
  by (auto simp: answer_ok_def finish_query_def empty_cypher_result_def deadline_error_def
      ceiling_error_def rows_fit_def list_all_iff)

text \<open>C4: the engine answers every query string on every store: \<open>pmm_cypher_execute\<close> returns, and
  either the code is 0, there is no error, the run was within its deadline, there are fewer rows
  than the ceiling and (if no array was overrun) every row has exactly one value per column, or
  the code is -1, there are no rows and no columns, and a message that is not empty.\<close>

theorem pmm_cypher_execute_total:
  "\<exists>a. pmm_cypher_execute E S input project max_rows = Some a \<and> answer_ok a"
proof -
  obtain rc q e where p: "pmm_cypher_parse input = Some (rc, q, e)"
    and ok: "if rc = 0 then e = None \<and> (\<exists>x. q = Some x \<and> query_ok x)
      else rc = -1 \<and> q = None \<and> (\<exists>m. e = Some m \<and> m \<noteq> [])"
    using cypher_parse_outcome [of input] by blast
  show ?thesis
  proof (cases "rc = 0")
    case False
    then show ?thesis
      using p ok by (auto simp: pmm_cypher_execute_def Let_def answer_ok_def empty_cypher_result_def)
  next
    case True
    then obtain qq where q: "q = Some qq" using ok by auto
    let ?r = "run_query E S qq project (effective_max_rows max_rows) (cypher_deadline_arm E)"
    have "answer_ok (fst (finish_query (fst ?r) (snd ?r)), snd (finish_query (fst ?r) (snd ?r)), snd ?r)"
      by (rule finish_query_ok) (rule run_query_fits)
    then show ?thesis
      using p True q by (simp add: pmm_cypher_execute_def Let_def split_beta)
  qed
qed

section \<open>Deadline and ceilings\<close>

lemma execute_within_budget:
  assumes "within_budget E" "pmm_cypher_parse input = Some (0, Some q, None)"
  shows "\<exists>rc out x rb. pmm_cypher_execute E S input project max_rows = Some (rc, out, x) \<and>
    run_query E S q project (effective_max_rows max_rows) (cypher_deadline_arm E) = (rb, x) \<and>
    (if int (length (rb_rows rb)) < CYPHER_RESULT_CEILING
     then rc = 0 \<and> cr_rows out = rb_rows rb \<and> cr_columns out = rb_columns rb
     else rc = -1 \<and> cr_error out = Some ceiling_error)"
proof -
  obtain rb x where r: "run_query E S q project (effective_max_rows max_rows) (cypher_deadline_arm E) = (rb, x)"
    by fastforce
  have "\<not> x_timed_out x"
    using run_query_moves [of E "cypher_deadline_arm E"] within_budget_moves [OF assms(1)] r
    by (metis snd_conv)
  then show ?thesis
    using assms(2) r
    by (auto simp: pmm_cypher_execute_def Let_def finish_query_def empty_cypher_result_def)
qed

text \<open>C38: within its time budget the engine answers with the table: on a clock that never reaches the
  deadline, a query that parses is answered with code 0 and exactly the table that the query
  computes if that table stays below the ceiling of 100000 rows, else with the ceiling message.\<close>

theorem within_budget_answers_table:
  assumes "within_budget E" "pmm_cypher_parse input = Some (0, Some q, None)"
  shows "\<exists>rc out x rb. pmm_cypher_execute E S input project max_rows = Some (rc, out, x) \<and>
    run_query E S q project (effective_max_rows max_rows) (cypher_deadline_arm E) = (rb, x) \<and>
    (if int (length (rb_rows rb)) < CYPHER_RESULT_CEILING
     then rc = 0 \<and> cr_rows out = rb_rows rb \<and> cr_columns out = rb_columns rb
     else rc = -1 \<and> cr_error out = Some ceiling_error)"
  using assms by (rule execute_within_budget)

lemma demo_in_budget: "within_budget demo_engine"
  by (simp add: within_budget_def cypher_deadline_arm_def demo_engine_def)

lemma within_budget_answers_table_witness:
  "\<exists>out x. pmm_cypher_execute demo_engine (table_store \<lparr>t_nodes = [], t_edges = []\<rparr>) (Some ''MATCH (f)'')
     (Some ''p'') 10 = Some (0, out, x) \<and> cr_rows out = []"
proof -
  let ?S = "table_store \<lparr>t_nodes = [], t_edges = []\<rparr>"
  obtain rc out x rb where a: "pmm_cypher_execute demo_engine ?S (Some ''MATCH (f)'') (Some ''p'') 10 = Some (rc, out, x)"
    "run_query demo_engine ?S demo_query (Some ''p'') (effective_max_rows 10) (cypher_deadline_arm demo_engine) = (rb, x)"
    "if int (length (rb_rows rb)) < CYPHER_RESULT_CEILING
     then rc = 0 \<and> cr_rows out = rb_rows rb \<and> cr_columns out = rb_columns rb
     else rc = -1 \<and> cr_error out = Some ceiling_error"
    using within_budget_answers_table [OF demo_in_budget demo_parse] by blast
  have "fst (match_bindings demo_engine ?S demo_query (Some ''p'') (effective_max_rows 10) (cypher_deadline_arm demo_engine)) = []"
    by (rule match_bindings_nil)
      (simp add: start_scan_def demo_query_def scan_pattern_nodes_def table_store_def store_search_def)
  then have "rb_rows rb = []"
    using a(2) by (auto simp: run_query_def execute_single_def Let_def split_beta execute_with_clause_def
        demo_query_def execute_default_projection_def build_default_columns_def rb_set_columns_def rb_init_def)
  then show ?thesis using a by simp
qed

text \<open>C37: a run past its deadline is stopped and reported: if the second reading of the clock has
  reached the deadline and the first pattern scans at least one node, every query that parses is
  answered with code -1 and the deadline message, and no partial table.\<close>

theorem late_query_is_aborted:
  assumes "pmm_cypher_parse input = Some (0, Some q, None)"
    and "x_deadline_ms (cypher_deadline_arm E) \<noteq> 0" "x_deadline_ms (cypher_deadline_arm E) \<le> en_now_ms E 1"
    and "start_scan E S q project (effective_max_rows max_rows) \<noteq> []"
  shows "\<exists>x. pmm_cypher_execute E S input project max_rows =
    Some (-1, empty_cypher_result\<lparr>cr_error := Some deadline_error\<rparr>, x)"
  using run_query_late [OF assms(2-4)] assms(1)
  by (auto simp: pmm_cypher_execute_def Let_def split_beta finish_query_def empty_cypher_result_def)

lemma late_query_is_aborted_witness:
  "\<exists>x. pmm_cypher_execute (demo_engine\<lparr>en_now_ms := \<lambda>i. int i * 40000\<rparr>) (table_store demo_tables)
     (Some ''MATCH (f)'') (Some ''p'') 10 = Some (-1, empty_cypher_result\<lparr>cr_error := Some deadline_error\<rparr>, x)"
proof (rule late_query_is_aborted [OF demo_parse])
  have "demo_node 1 ''Function'' ''main'' \<in> set (so_search (table_store demo_tables) (Some ''p'') (int32 (effective_max_rows 10 * 10)))"
    by (rule db.search_complete) (simp_all add: demo_tables_def demo_node_def effective_max_rows_def int32_id)
  then show "start_scan (demo_engine\<lparr>en_now_ms := \<lambda>i. int i * 40000\<rparr>) (table_store demo_tables) demo_query
      (Some ''p'') (effective_max_rows 10) \<noteq> []"
    by (auto simp: start_scan_def scan_pattern_nodes_def demo_query_def)
qed (simp_all add: cypher_deadline_arm_def demo_engine_def)

text \<open>The rows of one query are bounded by its LIMIT, or by the row cap where it has none.\<close>

theorem single_query_row_bound:
  assumes "0 \<le> max_rows"
  shows "int (length (rb_rows (fst (execute_single E S q project max_rows x)))) \<le>
    (case q_ret q of Some ret \<Rightarrow> if 0 \<le> rc_limit ret then rc_limit ret else max_rows | None \<Rightarrow> max_rows)"
proof -
  have "int (length (rb_rows (execute_default_projection p bs max_rows rb_init))) \<le> max_rows" for p bs
    using assms by (simp add: execute_default_projection_def Let_def add_rows_rows build_default_columns_def
        rb_set_columns_def rb_init_def)
  then show ?thesis
    using return_clause_row_bound [OF assms]
    by (auto simp: execute_single_def Let_def split_beta split: option.split)
qed

lemma single_query_row_bound_witness:
  "int (length (rb_rows (fst (execute_single demo_engine (table_store demo_tables) demo_query (Some ''p'') 2 demo_state)))) \<le> 2"
  using single_query_row_bound [of 2 demo_engine "table_store demo_tables" demo_query "Some ''p''" demo_state]
  by (simp add: demo_query_def)

text \<open>C40: the table of a query is well-formed: every row has exactly one value per column, for every
  kind of projection, every store and every state.\<close>

theorem execute_single_table_shape:
  "list_all (\<lambda>r. length r = length (rb_columns (fst (execute_single E S q project max_rows x))))
     (rb_rows (fst (execute_single E S q project max_rows x)))"
  using execute_single_fits [of E S q project max_rows x] by (simp add: rows_fit_def list_all_iff)

section \<open>WHERE\<close>

text \<open>C3: WHERE is never lost: every row that matching hands to the projection satisfies the WHERE of
  the query, wherever the engine evaluates it and however the patterns are joined.\<close>

theorem matched_rows_satisfy_where:
  "list_all (eval_where (en_regex E) (q_where q)) (fst (match_bindings E S q project max_rows x))"
  using match_bindings_where by (auto simp: list_all_iff)

text \<open>But WHERE can lose rows: it is also evaluated on the first node alone, where a condition on
  a variable of a later node counts as true, so its negation as false. A query whose WHERE is
  \<open>NOT v.p op c\<close> for a variable \<open>v\<close> other than the first has no rows on any graph.\<close>

theorem negated_late_condition_drops_all:
  assumes "q_where q = Some w" "wh_root w = Some (EXPR_NOT (EXPR_CONDITION c))"
    and "cn_variable c = Some v" "v \<noteq> start_var q"
    and "cn_func c = None" "cn_coalesce_default c = None" "deref (cn_op c) \<notin> set [''HAS_LABEL'', ''EXISTS'']"
  shows "fst (match_bindings E S q project max_rows x) = []"
proof (rule match_bindings_nil, rule ballI)
  fix n
  have "binding_get (seed_binding S (start_var q) n) v = None" "binding_get_edge (seed_binding S (start_var q) n) v = None"
    using assms(4) by (simp_all add: seed_binding_def binding_get_def binding_get_edge_def binding_set_def
        slot_set_def empty_binding_def)
  then have "eval_condition (en_regex E) c (seed_binding S (start_var q) n)"
    using assms(3,5-7)
    by (simp add: eval_condition_def condition_actual_def resolve_condition_value_def Let_def)
  then show "\<not> eval_where (en_regex E) (q_where q) (seed_binding S (start_var q) n)"
    using assms(1,2) by (simp add: eval_where_def)
qed

text \<open>\<open>MATCH (a)-[:CALLS]->(b) WHERE NOT b.name = "x" RETURN b.name\<close>, on the demo graph.\<close>

definition demo_not_query :: query where
  "demo_not_query =
     Query [\<lparr>pt_nodes = [\<lparr>np_variable = Some ''a'', np_label = None, np_props = []\<rparr>,
                         \<lparr>np_variable = Some ''b'', np_label = None, np_props = []\<rparr>],
             pt_rels = [\<lparr>rp_variable = None, rp_types = [''CALLS''], rp_direction = Some ''outbound'',
                         rp_min_hops = 1, rp_max_hops = 1\<rparr>]\<rparr>]
       [False]
       (Some \<lparr>wh_root = Some (EXPR_NOT (EXPR_CONDITION (demo_condition ''b'' (Some ''name'') ''='' (Some ''x'')))),
              wh_conditions = [], wh_op = None\<rparr>)
       None None (Some (demo_return [demo_item ''b'' ''name''])) None False None None"

lemma negated_late_condition_drops_all_witness:
  "fst (match_bindings demo_engine (table_store demo_tables) demo_not_query (Some ''p'') 10 demo_state) = []"
  by (rule negated_late_condition_drops_all [where v = "''b''" and w = "the (q_where demo_not_query)"
        and c = "demo_condition ''b'' (Some ''name'') ''='' (Some ''x'')"])
    (simp_all add: demo_not_query_def demo_condition_def start_var_def)

section \<open>Queries end to end\<close>

text \<open>C1: a query for the nodes of a label is exact: \<open>MATCH (v:L {...}) WHERE w RETURN items\<close> without
  aggregates, DISTINCT, ORDER BY, SKIP and LIMIT answers, within its time budget and below the row
  ceiling, one row per node of the project with that label that has the properties and satisfies
  the WHERE, in the order of the node table, each row the items projected from that node.\<close>

theorem label_query_exact:
  assumes "pmm_cypher_parse input = Some (0, Some q, None)"
    and "q_patterns q = [\<lparr>pt_nodes = [np], pt_rels = []\<rparr>]" "np_label np = Some l" "CHR ''|'' \<notin> set l"
    and "q_with_clause q = None" "q_union_next q = None" "q_ret q = Some ret"
    and "\<not> rc_star ret" "\<not> list_ex (\<lambda>it. is_aggregate_func (ri_func it)) (rc_items ret)"
    and "\<not> rc_distinct ret" "rc_order_by ret = None" "rc_skip ret \<le> 0" "rc_limit ret < 0"
    and "within_budget E"
    and "rows = map (project_row (en_regex E) ret)
        (filter (eval_where (en_regex E) (q_where q))
          (map (seed_binding (table_store D) (start_var q))
            [n \<leftarrow> t_nodes D. project \<noteq> None \<and> n_project n = project \<and> n_label n = Some l \<and>
               check_inline_props (en_regex E) n (np_props np) (Some (table_store D))]))"
    and "length rows < 100000"
  shows "\<exists>out x. pmm_cypher_execute E (table_store D) input project 0 = Some (0, out, x) \<and>
    cr_rows out = rows \<and> cr_columns out = map return_column (rc_items ret)"
proof -
  let ?S = "table_store D" and ?x = "cypher_deadline_arm E"
  obtain rc out x rb where a: "pmm_cypher_execute E ?S input project 0 = Some (rc, out, x)"
    "run_query E ?S q project 100000 ?x = (rb, x)"
    "if int (length (rb_rows rb)) < CYPHER_RESULT_CEILING
     then rc = 0 \<and> cr_rows out = rb_rows rb \<and> cr_columns out = rb_columns rb
     else rc = -1 \<and> cr_error out = Some ceiling_error"
    using execute_within_budget [OF assms(14,1), of ?S project 0] by (auto simp: effective_max_rows_def)
  have scan: "scan_pattern_nodes (en_regex E) ?S project 100000 np =
      [n \<leftarrow> t_nodes D. project \<noteq> None \<and> n_project n = project \<and> n_label n = Some l \<and>
         check_inline_props (en_regex E) n (np_props np) (Some ?S)]"
  proof -
    have "so_find_nodes_by_label ?S project l =
        [n \<leftarrow> t_nodes D. project \<noteq> None \<and> n_project n = project \<and> n_label n = Some l]"
      by (simp add: table_store_def find_nodes_by_label_def)
    then show ?thesis
      using assms(3,4)
      by (cases "np_props np = []") (simp_all add: scan_pattern_nodes_def strchr_def check_inline_props_def conj_ac)
  qed
  obtain bs y where m: "match_bindings E ?S q project 100000 ?x = (bs, y)" by fastforce
  then have y: "\<not> x_timed_out y"
    using match_bindings_moves [of E ?x ?S q project 100000] within_budget_moves [OF assms(14)] by (metis snd_conv)
  have bs: "bs = filter (eval_where (en_regex E) (q_where q))
      (map (seed_binding ?S (start_var q)) (scan_pattern_nodes (en_regex E) ?S project 100000 np))"
    using match_single_node [OF assms(2), of np E ?S project 100000 ?x] m y by simp
  then have rows: "map (project_row (en_regex E) ret) bs = rows" by (simp add: assms(15) scan)
  then have len: "length bs < 100000" using assms(16) by (metis length_map)
  have table: "execute_return_simple (en_regex E) ret bs 100000 (build_return_columns rb_init ret) =
      \<lparr>rb_rows = rows, rb_columns = map return_column (rc_items ret)\<rparr>"
    using assms(13) len rows
    by (intro result_builder.equality) (simp_all add: execute_return_simple_rows execute_return_simple_columns)
  have "execute_return_clause E (q_patterns q) ret bs 100000 rb_init y =
      (\<lparr>rb_rows = rows, rb_columns = map return_column (rc_items ret)\<rparr>, y)"
    using assms(8-13,16)
    by (simp add: execute_return_clause_def Let_def rb_apply_order_by_def rb_apply_skip_limit_def
        skip_limit_eq table)
  then have "rb = \<lparr>rb_rows = rows, rb_columns = map return_column (rc_items ret)\<rparr>"
    using a(2) m assms(5-7) by (simp add: run_query_def execute_single_def execute_with_clause_def)
  then show ?thesis using a assms(16) by auto
qed

lemma label_query_exact_witness:
  "\<exists>out x. pmm_cypher_execute demo_engine (table_store demo_tables) (Some ''MATCH (f:Class) RETURN f.name'')
     (Some ''p'') 0 = Some (0, out, x) \<and> cr_rows out = [[''Box'']] \<and> cr_columns out = [''f.name'']"
proof -
  let ?np = "\<lparr>np_variable = Some ''f'', np_label = Some ''Class'', np_props = []\<rparr>"
  let ?ret = "demo_return [demo_item ''f'' ''name'']"
  have scan: "[n \<leftarrow> t_nodes demo_tables. Some ''p'' \<noteq> None \<and> n_project n = Some ''p'' \<and> n_label n = Some ''Class'' \<and>
      check_inline_props (en_regex demo_engine) n (np_props ?np) (Some (table_store demo_tables))] =
      [demo_node 3 ''Class'' ''Box'']"
    by (simp add: demo_tables_def demo_node_def check_inline_props_def)
  have col: "map return_column (rc_items ?ret) = [''f.name'']"
    by (simp add: demo_return_def demo_item_def empty_return_clause_def empty_return_item_def return_column_def
        fmt_s_def snprintf_buf_def)
  have "\<exists>out x. pmm_cypher_execute demo_engine (table_store demo_tables) (Some ''MATCH (f:Class) RETURN f.name'')
     (Some ''p'') 0 = Some (0, out, x) \<and> cr_rows out = [[''Box'']] \<and> cr_columns out = map return_column (rc_items ?ret)"
    by (rule label_query_exact [OF demo_class_parse, where np = ?np and l = "''Class''"])
      (simp_all only: scan demo_in_budget,
       simp_all add: demo_class_query_def start_var_def eval_where_def demo_class_row,
       simp_all add: demo_return_def demo_item_def empty_return_clause_def empty_return_item_def is_aggregate_func_def)
  then show ?thesis by (simp only: col)
qed

text \<open>UNION appends, and drops duplicates unless it is UNION ALL: for a union of two queries whose
  tables have equally many columns the table is the rows of the first followed by those of the
  second under the header of the first, for UNION each row once, at its first place.\<close>

theorem union_rows:
  assumes "q_union_next q = Some q2" "q_union_next q2 = None"
    and "execute_single E S q project max_rows x = (rb1, x1)"
    and "execute_single E S q2 project max_rows x1 = (rb2, x2)"
    and "length (rb_columns rb1) = length (rb_columns rb2)"
  shows "run_query E S q project max_rows x =
    (\<lparr>rb_rows = (if q_union_all q then rb_rows rb1 @ rb_rows rb2
                 else first_occurrences (rb_rows rb1 @ rb_rows rb2)),
      rb_columns = rb_columns rb1\<rparr>, x2)"
proof -
  have fit: "rows_fit rb1" "rows_fit rb2"
    using execute_single_fits [of E S q project max_rows x] execute_single_fits [of E S q2 project max_rows x1]
      assms(3,4) by simp_all
  have "foldl rb_add_row rb vs = rb\<lparr>rb_rows := rb_rows rb @ vs\<rparr>"
    if "\<forall>v\<in>set vs. length v = length (rb_columns rb)" for vs rb
    using that by (induction vs arbitrary: rb) (simp_all add: rb_add_row_def)
  then have app: "union_append rb1 rb2 x2 = (rb1\<lparr>rb_rows := rb_rows rb1 @ rb_rows rb2\<rparr>, x2)"
    using fit assms(5) by (simp add: union_append_def rows_fit_def)
  have chain: "union_chain (q_union_next q) = [q2]"
    using assms(1,2) by (cases q2) simp
  let ?rb = "rb1\<lparr>rb_rows := rb_rows rb1 @ rb_rows rb2\<rparr>"
  have "\<forall>r\<in>set (rb_rows ?rb). length r = length (rb_columns ?rb)"
    using fit assms(5) by (auto simp: rows_fit_def)
  from distinct_rows [OF this]
  have d: "rb_apply_distinct ?rb = \<lparr>rb_rows = first_occurrences (rb_rows rb1 @ rb_rows rb2), rb_columns = rb_columns rb1\<rparr>"
    by (intro result_builder.equality) (simp_all add: first_occurrences_def)
  have run: "run_query E S q project max_rows x = (if q_union_all q then ?rb else rb_apply_distinct ?rb, x2)"
    using assms(1,3,4) chain app by (simp add: run_query_def)
  show ?thesis unfolding run d by (cases "q_union_all q") simp_all
qed

lemma union_rows_witness:
  "\<exists>rb1 x1 rb2 x2.
     execute_single demo_engine (table_store demo_tables) (demo_class_query (Some (demo_class_query None)))
       (Some ''p'') 10 demo_state = (rb1, x1) \<and>
     execute_single demo_engine (table_store demo_tables) (demo_class_query None) (Some ''p'') 10 x1 = (rb2, x2) \<and>
     run_query demo_engine (table_store demo_tables) (demo_class_query (Some (demo_class_query None)))
       (Some ''p'') 10 demo_state =
     (\<lparr>rb_rows = first_occurrences (rb_rows rb1 @ rb_rows rb2), rb_columns = rb_columns rb1\<rparr>, x2)"
proof -
  let ?q = "demo_class_query (Some (demo_class_query None))" and ?q2 = "demo_class_query None"
  let ?S = "table_store demo_tables"
  obtain rb1 x1 where 1: "execute_single demo_engine ?S ?q (Some ''p'') 10 demo_state = (rb1, x1)" by fastforce
  obtain rb2 x2 where 2: "execute_single demo_engine ?S ?q2 (Some ''p'') 10 x1 = (rb2, x2)" by fastforce
  have "rb_columns (fst (execute_single demo_engine ?S (demo_class_query nxt) (Some ''p'') 10 x)) =
      map return_column (rc_items (demo_return [demo_item ''f'' ''name'']))" for nxt x
    by (simp add: execute_single_def demo_class_query_def Let_def split_beta execute_return_clause_def
        execute_return_simple_columns agg_columns)
      (simp add: demo_return_def demo_item_def empty_return_clause_def empty_return_item_def is_aggregate_func_def)
  then have len: "length (rb_columns rb1) = length (rb_columns rb2)" using 1 2 by (metis fst_conv)
  have q: "q_union_next ?q = Some ?q2" "q_union_next ?q2 = None" "\<not> q_union_all ?q"
    by (simp_all add: demo_class_query_def)
  have "run_query demo_engine ?S ?q (Some ''p'') 10 demo_state =
      (\<lparr>rb_rows = first_occurrences (rb_rows rb1 @ rb_rows rb2), rb_columns = rb_columns rb1\<rparr>, x2)"
    by (subst union_rows [OF q(1,2) 1 2 len]) (simp only: q(3) if_False)
  then show ?thesis using 1 2 by blast
qed

section \<open>An arrow that is a comment\<close>

text \<open>Two dashes start a comment, so the short form of a relationship is not part of the query:
  \<open>MATCH (f)-->(g) RETURN g\<close>, and everything else that continues \<open>MATCH (f)--\<close> up to the end of the
  line, is answered as \<open>MATCH (f)\<close>, without an error.\<close>

theorem arrow_without_bracket_is_comment:
  assumes "NUL \<notin> set s" "CHR 0x0A \<notin> set s"
  shows "pmm_cypher_parse (Some (''MATCH (f)--'' @ s)) = pmm_cypher_parse (Some ''MATCH (f)'')"
proof -
  have t: "takeWhile (\<lambda>c. c \<noteq> NUL) s = s" "takeWhile (\<lambda>c. c \<noteq> CHR 0x0A) s = s" "dropWhile (\<lambda>c. c \<noteq> CHR 0x0A) s = []"
    using assms by (auto simp: takeWhile_eq_all_conv dropWhile_eq_Nil_conv)
  have "lr_tokens (snd (pmm_lex (Some (''MATCH (f)--'' @ s)))) =
    [\<lparr>tk_type = TOK_MATCH, tk_text = ''MATCH'', tk_pos = 0\<rparr>,
     \<lparr>tk_type = TOK_LPAREN, tk_text = ''('', tk_pos = 6\<rparr>,
     \<lparr>tk_type = TOK_IDENT, tk_text = ''f'', tk_pos = 7\<rparr>,
     \<lparr>tk_type = TOK_RPAREN, tk_text = '')'', tk_pos = 8\<rparr>,
     \<lparr>tk_type = TOK_EOF, tk_text = [], tk_pos = 11 + length s\<rparr>]"
    by (simp add: lexer_eval t)
  then have "pmm_cypher_parse (Some (''MATCH (f)--'' @ s)) = Some (0, Some demo_query, None)"
    by (simp add: pmm_cypher_parse_def split_beta lex_fine parser_eval demo_query_def eval_nat_numeral)
  then show ?thesis using demo_parse by simp
qed

lemma arrow_without_bracket_is_comment_witness:
  "pmm_cypher_parse (Some (''MATCH (f)--'' @ ''>(g) RETURN g'')) = pmm_cypher_parse (Some ''MATCH (f)'')"
  by (rule arrow_without_bracket_is_comment) simp_all

end
