(* ===== verification/Gbuf_Table.thy ===== *)
theory Gbuf_Table
  imports Cyp_Prelude "HOL-Library.AList" "HOL-Library.Multiset"
begin

text \<open>
  The containers of the graph buffer: the string hash table of src/src/foundation/hash_table.c
  and the arrays of pointers of src/src/foundation/dyn_array.h, with the buckets (a table whose
  values are arrays) that the secondary indexes of src/src/graph_buffer/graph_buffer.c are.
  The probing of the vendored table is not modelled: a table is its content, an association list
  with one entry per key.  A pointer to a node or an edge is the number of its allocation.
  \<open>hash_table\<close> is the contract of a table; the lemmas on buckets are proved from it.
\<close>

section \<open>The hash table\<close>

type_synonym 'v htable = "(string \<times> 'v) list"

definition ht_get :: "'v htable \<Rightarrow> string \<Rightarrow> 'v option" where
  "ht_get t k = map_of t k"

definition ht_set :: "'v htable \<Rightarrow> string \<Rightarrow> 'v \<Rightarrow> 'v htable" where
  "ht_set t k v = AList.update k v t"

definition ht_delete :: "'v htable \<Rightarrow> string \<Rightarrow> 'v htable" where
  "ht_delete t k = AList.delete k t"

definition ht_count :: "'v htable \<Rightarrow> nat" where
  "ht_count t = length t"

definition ht_wf :: "'v htable \<Rightarrow> bool" where
  "ht_wf t \<longleftrightarrow> distinct (map fst t)"

text \<open>The contract: a finite map, and a count of its keys.\<close>

locale hash_table =
  fixes get :: "'t \<Rightarrow> string \<Rightarrow> 'v option"
    and set_key :: "'t \<Rightarrow> string \<Rightarrow> 'v \<Rightarrow> 't"
    and del :: "'t \<Rightarrow> string \<Rightarrow> 't"
    and count :: "'t \<Rightarrow> nat"
    and wf :: "'t \<Rightarrow> bool"
  assumes get_set: "get (set_key t k v) k' = (if k' = k then Some v else get t k')"
    and get_del: "wf t \<Longrightarrow> get (del t k) k' = (if k' = k then None else get t k')"
    and wf_set: "wf t \<Longrightarrow> wf (set_key t k v)"
    and wf_del: "wf t \<Longrightarrow> wf (del t k)"
    and count: "wf t \<Longrightarrow> count t = card {k. get t k \<noteq> None}"
    and finite_keys: "finite {k. get t k \<noteq> None}"
begin

lemma get_set_same: "get (set_key t k v) k = Some v"
  by (simp add: get_set)

lemma count_set_new:
  assumes "wf t" "get t k = None"
  shows "count (set_key t k v) = Suc (count t)"
proof -
  have "{x. get (set_key t k v) x \<noteq> None} = insert k {x. get t x \<noteq> None}"
    by (auto simp: get_set)
  moreover have "finite {x. get t x \<noteq> None}" "k \<notin> {x. get t x \<noteq> None}"
    using finite_keys assms(2) by simp_all
  ultimately show ?thesis
    unfolding count[OF assms(1)] count[OF wf_set[OF assms(1)]] by (metis card_insert_disjoint)
qed

lemma count_del:
  assumes "wf t" "get t k \<noteq> None"
  shows "Suc (count (del t k)) = count t"
proof -
  have "{x. get (del t k) x \<noteq> None} = {x. get t x \<noteq> None} - {k}"
    using assms by (auto simp: get_del)
  moreover have "finite {x. get t x \<noteq> None}" "k \<in> {x. get t x \<noteq> None}"
    using finite_keys assms(2) by simp_all
  ultimately show ?thesis
    unfolding count[OF assms(1)] count[OF wf_del[OF assms(1)]] by (simp only: card_Suc_Diff1)
qed

end

interpretation ht: hash_table ht_get ht_set ht_delete ht_count ht_wf
proof unfold_locales
  fix t :: "'v htable" and k k' :: string and v :: 'v
  show "ht_get (ht_set t k v) k' = (if k' = k then Some v else ht_get t k')"
    by (simp add: ht_get_def ht_set_def update_conv')
  show "ht_wf t \<Longrightarrow> ht_get (ht_delete t k) k' = (if k' = k then None else ht_get t k')"
    by (simp add: ht_get_def ht_delete_def delete_conv')
  show "ht_wf t \<Longrightarrow> ht_wf (ht_set t k v)"
    by (simp add: ht_wf_def ht_set_def distinct_update)
  show "ht_wf t \<Longrightarrow> ht_wf (ht_delete t k)"
    by (simp add: ht_wf_def ht_delete_def distinct_delete)
  have keys: "{k. ht_get t k \<noteq> None} = fst ` set t"
    by (auto simp: ht_get_def map_of_eq_None_iff)
  show "ht_wf t \<Longrightarrow> ht_count t = card {k. ht_get t k \<noteq> None}"
    unfolding keys by (metis ht_count_def ht_wf_def distinct_card length_map set_map)
  show "finite {k. ht_get t k \<noteq> None}"
    unfolding keys by simp
qed

lemma ht_get_Nil [simp]: "ht_get [] k = None"
  by (simp add: ht_get_def)

lemma ht_wf_Nil [simp]: "ht_wf []"
  by (simp add: ht_wf_def)

section \<open>Arrays of pointers\<close>

text \<open>The position of the first entry that satisfies a test.\<close>

fun first_index :: "('a \<Rightarrow> bool) \<Rightarrow> 'a list \<Rightarrow> nat option" where
  "first_index P [] = None"
| "first_index P (x # xs) = (if P x then Some 0 else map_option Suc (first_index P xs))"

text \<open>Removal by id: the last entry takes the place of the first one with that id.\<close>

definition remove_from_ptr_array :: "(nat \<Rightarrow> int) \<Rightarrow> nat list \<Rightarrow> int \<Rightarrow> nat list" where
  "remove_from_ptr_array id_of arr i =
     (case first_index (\<lambda>r. id_of r = i) arr of
        None \<Rightarrow> arr
      | Some j \<Rightarrow> butlast (arr[j := last arr]))"

lemma first_index_Some:
  "first_index P xs = Some j \<Longrightarrow> j < length xs \<and> P (xs ! j)"
  by (induction xs arbitrary: j) (auto split: if_splits)

lemma first_index_None: "first_index P xs = None \<longleftrightarrow> (\<forall>x\<in>set xs. \<not> P x)"
  by (induction xs) auto

lemma mset_swap_remove:
  assumes "j < length xs"
  shows "mset (butlast (xs[j := last xs])) = mset xs - {#xs ! j#}"
proof -
  let ?ys = "xs[j := last xs]"
  have ne: "xs \<noteq> []" "?ys \<noteq> []"
    using assms by auto
  have last: "last ?ys = last xs"
    using last_list_update[OF ne(1), of j "last xs"] by simp
  have "mset ?ys = mset (butlast ?ys) + {#last ?ys#}"
    by (metis append_butlast_last_id mset.simps(1,2) mset_append ne(2))
  moreover have "mset ?ys = add_mset (last xs) (mset xs - {#xs ! j#})"
    using assms by (simp add: mset_update)
  ultimately show ?thesis
    by (simp add: last)
qed

text \<open>Where no two entries share an id the array loses exactly that entry.\<close>

lemma remove_from_ptr_array_set:
  assumes "distinct arr" "inj_on id_of (set arr)" "r \<in> set arr" "id_of r = i"
  shows "set (remove_from_ptr_array id_of arr i) = set arr - {r}"
    and "distinct (remove_from_ptr_array id_of arr i)"
proof -
  obtain j where j: "first_index (\<lambda>r. id_of r = i) arr = Some j"
    using assms(3,4) first_index_None[of "\<lambda>r. id_of r = i" arr] by fastforce
  note J = first_index_Some[OF j]
  have r: "arr ! j = r"
    using J assms by (auto dest: inj_onD)
  have eq: "mset (remove_from_ptr_array id_of arr i) = mset arr - {#r#}"
    using J mset_swap_remove[of j arr] by (simp add: remove_from_ptr_array_def j r)
  also have "\<dots> = mset (remove1 r arr)"
    by simp
  finally have m: "mset (remove_from_ptr_array id_of arr i) = mset (remove1 r arr)" .
  show "set (remove_from_ptr_array id_of arr i) = set arr - {r}"
    using mset_eq_setD[OF m] assms(1) by simp
  show "distinct (remove_from_ptr_array id_of arr i)"
    using mset_eq_imp_distinct_iff[OF m] assms(1) by simp
qed

lemma remove_from_ptr_array_other:
  "\<forall>r\<in>set arr. id_of r \<noteq> i \<Longrightarrow> remove_from_ptr_array id_of arr i = arr"
  by (simp add: remove_from_ptr_array_def first_index_None[THEN iffD2])

section \<open>Buckets\<close>

definition get_or_create_array :: "nat list htable \<Rightarrow> string \<Rightarrow> nat list \<times> nat list htable" where
  "get_or_create_array t k =
     (case ht_get t k of Some arr \<Rightarrow> (arr, t) | None \<Rightarrow> ([], ht_set t k []))"

definition index_push :: "nat list htable \<Rightarrow> string \<Rightarrow> nat \<Rightarrow> nat list htable" where
  "index_push t k r = (let (arr, t') = get_or_create_array t k in ht_set t' k (arr @ [r]))"

definition index_remove ::
  "(nat \<Rightarrow> int) \<Rightarrow> nat list htable \<Rightarrow> string \<Rightarrow> int \<Rightarrow> nat list htable" where
  "index_remove id_of t k i =
     (case ht_get t k of None \<Rightarrow> t | Some arr \<Rightarrow> ht_set t k (remove_from_ptr_array id_of arr i))"

text \<open>What a lookup hands to its caller: no array and an empty one look alike.\<close>

definition bucket :: "nat list htable \<Rightarrow> string \<Rightarrow> nat list" where
  "bucket t k = (case ht_get t k of None \<Rightarrow> [] | Some arr \<Rightarrow> arr)"

lemma bucket_Nil [simp]: "bucket [] k = []"
  by (simp add: bucket_def)

lemma bucket_set: "bucket (ht_set t k v) k' = (if k' = k then v else bucket t k')"
  by (simp add: bucket_def ht.get_set)

lemma bucket_push: "bucket (index_push t k r) k' = bucket t k' @ (if k' = k then [r] else [])"
  by (auto simp: index_push_def get_or_create_array_def bucket_def ht.get_set split: option.splits)

lemma bucket_remove:
  "bucket (index_remove id_of t k i) k' =
     (if k' = k then remove_from_ptr_array id_of (bucket t k) i else bucket t k')"
  by (auto simp: index_remove_def bucket_def ht.get_set remove_from_ptr_array_def
      split: option.splits)

text \<open>A table of buckets indexes a set of live entries by a key: each bucket holds exactly the
  live entries with its key, each once.\<close>

definition indexed_by :: "nat list htable \<Rightarrow> (nat \<Rightarrow> string) \<Rightarrow> nat set \<Rightarrow> bool" where
  "indexed_by t key live \<longleftrightarrow>
     (\<forall>k. distinct (bucket t k) \<and> set (bucket t k) = {r \<in> live. key r = k})"

lemma indexed_byD:
  "indexed_by t key live \<Longrightarrow> distinct (bucket t k)"
  "indexed_by t key live \<Longrightarrow> set (bucket t k) = {r \<in> live. key r = k}"
  by (simp_all add: indexed_by_def)

lemma indexed_by_empty [simp]: "indexed_by [] key {}"
  by (simp add: indexed_by_def)

lemma indexed_by_cong:
  "t = t' \<Longrightarrow> live = live' \<Longrightarrow> (\<And>r. r \<in> live' \<Longrightarrow> key r = key' r) \<Longrightarrow>
   indexed_by t key live \<longleftrightarrow> indexed_by t' key' live'"
  by (auto simp: indexed_by_def)

lemma indexed_by_push:
  "indexed_by t key live \<Longrightarrow> r \<notin> live \<Longrightarrow> k = key r \<Longrightarrow>
   indexed_by (index_push t k r) key (insert r live)"
  unfolding indexed_by_def bucket_push by auto

lemma indexed_by_remove:
  assumes "indexed_by t key live" "inj_on id_of live" "r \<in> live" "k = key r" "i = id_of r"
  shows "indexed_by (index_remove id_of t k i) key (live - {r})"
  unfolding indexed_by_def
proof (rule allI)
  fix k'
  have D: "distinct (bucket t k)" "set (bucket t k) = {x \<in> live. key x = k}"
    using assms(1) by (simp_all add: indexed_by_def)
  have I: "inj_on id_of (set (bucket t k))"
    using assms(2) D(2) by (auto intro: inj_on_subset)
  have R: "r \<in> set (bucket t k)"
    using D(2) assms(3,4) by auto
  note S = remove_from_ptr_array_set[OF D(1) I R assms(5)[symmetric]]
  show "distinct (bucket (index_remove id_of t k i) k') \<and>
        set (bucket (index_remove id_of t k i) k') = {x \<in> live - {r}. key x = k'}"
    using S D assms(1,4) by (auto simp: bucket_remove indexed_by_def)
qed

end
