(* ===== verification/Gbuf.thy ===== *)
theory Gbuf
  imports Gbuf_Table
begin

text \<open>
  The in-memory graph buffer of the indexer, src/src/graph_buffer/graph_buffer.c: its structs,
  the keys of its indexes, and every operation on nodes and edges up to the merge of a worker's
  buffer.  A node pointer is the position of the node in the array of nodes, which never shrinks.
  An edge pointer is the number of its allocation in the heap of edges \<open>gb_edge_heap\<close>; the live
  edges are the array \<open>gb_edges\<close> of pointers, and a freed edge is one that left it.  The intern
  pool shares equal strings and is invisible to values.  Ids are unbounded integers: the
  counter of 64 bits is not exhausted.  Handles and out-parameters are not NULL.
\<close>

unbundle bit_operations_syntax

section \<open>Structs\<close>

record gnode =
  gn_id :: int
  gn_label :: string
  gn_name :: string
  gn_qualified_name :: "string option"
  gn_file_path :: string
  gn_start_line :: int
  gn_end_line :: int
  gn_properties_json :: string

record gedge =
  ge_id :: int
  ge_source_id :: int
  ge_target_id :: int
  ge_type :: string
  ge_properties_json :: string

record dump_vector =
  dv_node_id :: int
  dv_project :: string
  dv_vector :: "8 word list"

text \<open>The weight of a token is the bit pattern of its float.\<close>

record dump_token_vec =
  dt_id :: int
  dt_project :: string
  dt_token :: string
  dt_vector :: "8 word list"
  dt_idf :: "32 word"

record gbuf =
  gb_project :: string
  gb_root_path :: string
  gb_next_id :: int
  gb_shared_ids :: "int option"
  gb_nodes :: "gnode list"
  gb_node_by_qn :: "nat htable"
  gb_by_id :: "int \<rightharpoonup> nat"
  gb_by_id_cap :: int
  gb_nodes_by_label :: "nat list htable"
  gb_nodes_by_name :: "nat list htable"
  gb_edge_heap :: "gedge list"
  gb_edges :: "nat list"
  gb_edge_by_key :: "nat htable"
  gb_edges_by_source_type :: "nat list htable"
  gb_edges_by_target_type :: "nat list htable"
  gb_edges_by_type :: "nat list htable"
  gb_dump_vectors :: "dump_vector list"
  gb_dump_token_vecs :: "dump_token_vec list"

text \<open>What two pointers refer to.\<close>

definition node_at :: "gbuf \<Rightarrow> nat \<Rightarrow> gnode" where
  "node_at gb r = gb_nodes gb ! r"

definition edge_at :: "gbuf \<Rightarrow> nat \<Rightarrow> gedge" where
  "edge_at gb r = gb_edge_heap gb ! r"

section \<open>Keys\<close>

text \<open>A copied or interned string; NULL becomes an empty JSON object.\<close>

definition heap_strdup :: "string option \<Rightarrow> string" where
  "heap_strdup s = (case s of Some v \<Rightarrow> v | None \<Rightarrow> ''{}'')"

definition gb_intern :: "string option \<Rightarrow> string" where
  "gb_intern s = (case s of Some v \<Rightarrow> v | None \<Rightarrow> ''{}'')"

definition make_id_key :: "int \<Rightarrow> string" where
  "make_id_key i = snprintf_buf 32 (show_int i)"

definition fnv1a64 :: "string \<Rightarrow> 64 word" where
  "fnv1a64 s = fold (\<lambda>c h. (h XOR of_nat (of_char c)) * 1099511628211) s 14695981039346656037"

text \<open>\<open>%016llx\<close>.\<close>

definition hex_digit :: "nat \<Rightarrow> char" where
  "hex_digit d = (if d < 10 then char_of (48 + d) else char_of (87 + d))"

definition show_hex16 :: "64 word \<Rightarrow> string" where
  "show_hex16 w = map (\<lambda>i. hex_digit (unat (drop_bit (4 * i) w) mod 16)) (rev [0..<16])"

abbreviation edge_key_buf :: nat where "edge_key_buf \<equiv> 256"

definition local_name_key :: string where
  "local_name_key = [CHR 0x22] @ ''local_name'' @ [CHR 0x22, CHR '':'', CHR 0x22]"

definition plain_edge_key :: "int \<Rightarrow> int \<Rightarrow> string \<Rightarrow> string" where
  "plain_edge_key src tgt ty = show_int src @ '':'' @ show_int tgt @ '':'' @ ty"

text \<open>The key that merges equal edges: an import also carries its local name, hashed when the
  whole does not fit the buffer.\<close>

definition make_edge_key :: "int \<Rightarrow> int \<Rightarrow> string \<Rightarrow> string option \<Rightarrow> string" where
  "make_edge_key src tgt ty props =
     (let plain = snprintf_buf edge_key_buf (plain_edge_key src tgt ty) in
      case props of
        None \<Rightarrow> plain
      | Some p \<Rightarrow>
          if ty \<noteq> ''IMPORTS'' then plain
          else (case strstr p local_name_key of
                  None \<Rightarrow> plain
                | Some rest \<Rightarrow>
                    let ln = takeWhile (\<lambda>c. c \<noteq> CHR 0x22) (drop (length local_name_key) rest);
                        key = plain_edge_key src tgt ty @ '':'' @ ln
                    in if edge_key_buf \<le> length key
                       then snprintf_buf edge_key_buf
                              (plain_edge_key src tgt ty @ '':'' @ [CHR 0x01] @ show_hex16 (fnv1a64 ln))
                       else key))"

definition make_src_type_key :: "int \<Rightarrow> string \<Rightarrow> string" where
  "make_src_type_key src ty = snprintf_buf edge_key_buf (show_int src @ '':'' @ ty)"

text \<open>The keys of an allocated edge.\<close>

definition edge_key :: "gedge \<Rightarrow> string" where
  "edge_key e = make_edge_key (ge_source_id e) (ge_target_id e) (ge_type e) (Some (ge_properties_json e))"

definition source_key :: "gedge \<Rightarrow> string" where
  "source_key e = make_src_type_key (ge_source_id e) (ge_type e)"

definition target_key :: "gedge \<Rightarrow> string" where
  "target_key e = make_src_type_key (ge_target_id e) (ge_type e)"

section \<open>Creation and ids\<close>

definition pmm_gbuf_new :: "string option \<Rightarrow> string option \<Rightarrow> gbuf" where
  "pmm_gbuf_new project root =
     \<lparr>gb_project = (case project of Some p \<Rightarrow> p | None \<Rightarrow> []),
      gb_root_path = (case root of Some p \<Rightarrow> p | None \<Rightarrow> []),
      gb_next_id = 1, gb_shared_ids = None, gb_nodes = [], gb_node_by_qn = [],
      gb_by_id = Map.empty, gb_by_id_cap = 0, gb_nodes_by_label = [], gb_nodes_by_name = [],
      gb_edge_heap = [], gb_edges = [], gb_edge_by_key = [], gb_edges_by_source_type = [],
      gb_edges_by_target_type = [], gb_edges_by_type = [], gb_dump_vectors = [],
      gb_dump_token_vecs = []\<rparr>"

text \<open>The shared counter is its current value.\<close>

definition pmm_gbuf_new_shared_ids :: "string option \<Rightarrow> string option \<Rightarrow> int option \<Rightarrow> gbuf" where
  "pmm_gbuf_new_shared_ids project root id_source =
     (let gb = pmm_gbuf_new project root in
      if id_source \<noteq> None then gb\<lparr>gb_shared_ids := id_source\<rparr> else gb)"

definition alloc_next_id :: "gbuf \<Rightarrow> int \<times> gbuf" where
  "alloc_next_id gb =
     (case gb_shared_ids gb of
        Some n \<Rightarrow> (n, gb\<lparr>gb_shared_ids := Some (n + 1)\<rparr>)
      | None \<Rightarrow> (gb_next_id gb, gb\<lparr>gb_next_id := gb_next_id gb + 1\<rparr>))"

definition pmm_gbuf_next_id :: "gbuf \<Rightarrow> int" where
  "pmm_gbuf_next_id gb = (case gb_shared_ids gb of Some n \<Rightarrow> n | None \<Rightarrow> gb_next_id gb)"

definition pmm_gbuf_set_next_id :: "gbuf \<Rightarrow> int \<Rightarrow> gbuf" where
  "pmm_gbuf_set_next_id gb n = gb\<lparr>gb_next_id := n\<rparr>"

section \<open>Vectors\<close>

definition pmm_gbuf_store_vector :: "gbuf \<Rightarrow> int \<Rightarrow> 8 word list \<Rightarrow> int \<times> gbuf" where
  "pmm_gbuf_store_vector gb node_id vec =
     (if vec = [] then (-1, gb)
      else (0, gb\<lparr>gb_dump_vectors := gb_dump_vectors gb @
                   [\<lparr>dv_node_id = node_id, dv_project = gb_project gb, dv_vector = vec\<rparr>]\<rparr>))"

definition pmm_gbuf_store_token_vector ::
  "gbuf \<Rightarrow> string option \<Rightarrow> 8 word list \<Rightarrow> 32 word \<Rightarrow> int \<times> gbuf" where
  "pmm_gbuf_store_token_vector gb token vec idf =
     (case token of
        None \<Rightarrow> (-1, gb)
      | Some tok \<Rightarrow>
          if vec = [] then (-1, gb)
          else (0, gb\<lparr>gb_dump_token_vecs := gb_dump_token_vecs gb @
                       [\<lparr>dt_id = int (length (gb_dump_token_vecs gb)) + 1,
                         dt_project = gb_project gb, dt_token = tok, dt_vector = vec,
                         dt_idf = idf\<rparr>]\<rparr>))"

section \<open>Nodes\<close>

text \<open>The array from ids to nodes doubles until the id fits.\<close>

function by_id_grow :: "int \<Rightarrow> int \<Rightarrow> int" where
  "by_id_grow nc i = (if 0 < nc \<and> nc \<le> i then by_id_grow (nc * 2) i else nc)"
  by pat_completeness auto
termination by (relation "measure (\<lambda>(nc, i). nat (i + 1 - nc))") auto

declare by_id_grow.simps [simp del]

definition register_node_in_indexes :: "gbuf \<Rightarrow> nat \<Rightarrow> gbuf" where
  "register_node_in_indexes gb r =
     (let n = node_at gb r;
          cap = (if gb_by_id_cap gb \<le> gn_id n
                 then by_id_grow (if 0 < gb_by_id_cap gb then gb_by_id_cap gb else 1024) (gn_id n)
                 else gb_by_id_cap gb)
      in gb\<lparr>gb_node_by_qn := (case gn_qualified_name n of
                                None \<Rightarrow> gb_node_by_qn gb
                              | Some qn \<Rightarrow> ht_set (gb_node_by_qn gb) qn r),
            gb_by_id_cap := cap,
            gb_by_id := (if 0 \<le> gn_id n \<and> gn_id n < cap then (gb_by_id gb)(gn_id n \<mapsto> r)
                         else gb_by_id gb),
            gb_nodes_by_label := index_push (gb_nodes_by_label gb) (gn_label n) r,
            gb_nodes_by_name := index_push (gb_nodes_by_name gb) (gn_name n) r\<rparr>)"

text \<open>A file's module definition does not touch the directory node of the same name.\<close>

definition module_on_container :: "gnode \<Rightarrow> string option \<Rightarrow> bool" where
  "module_on_container ex label \<longleftrightarrow>
     label = Some ''Module'' \<and> (gn_label ex = ''Project'' \<or> gn_label ex = ''Folder'')"

text \<open>The comparison that picks the survivor of two nodes with one qualified name: positive when
  the existing one stays.  The subtraction of lines is on 32 bits.\<close>

definition or_empty :: "string option \<Rightarrow> string" where
  "or_empty s = (case s of Some v \<Rightarrow> v | None \<Rightarrow> [])"

definition canonical_cmp ::
  "string option \<Rightarrow> string option \<Rightarrow> string option \<Rightarrow> int \<Rightarrow> gnode \<Rightarrow> int" where
  "canonical_cmp label name file start ex =
     (let c = strcmp (or_empty file) (gn_file_path ex);
          c = (if c = 0 then int32 (gn_start_line ex - start) else c);
          c = (if c = 0 then strcmp (gn_name ex) (or_empty name) else c)
      in if c = 0 then strcmp (gn_label ex) (or_empty label) else c)"

text \<open>The update in place, with the move between the buckets of labels and names.\<close>

definition update_in_place ::
  "gbuf \<Rightarrow> nat \<Rightarrow> string option \<Rightarrow> string option \<Rightarrow> string option \<Rightarrow> int \<Rightarrow> int \<Rightarrow> string option \<Rightarrow> gbuf" where
  "update_in_place gb r label name file start end_line props =
     (let ex = node_at gb r;
          new_name = heap_strdup name;
          new_label = gb_intern label;
          label_changed = gn_label ex \<noteq> new_label;
          name_changed = gn_name ex \<noteq> new_name;
          id_of = (\<lambda>x. gn_id (node_at gb x));
          by_label = (if label_changed then index_remove id_of (gb_nodes_by_label gb) (gn_label ex) (gn_id ex)
                      else gb_nodes_by_label gb);
          by_name = (if name_changed then index_remove id_of (gb_nodes_by_name gb) (gn_name ex) (gn_id ex)
                     else gb_nodes_by_name gb);
          ex' = ex\<lparr>gn_label := new_label, gn_name := new_name, gn_file_path := gb_intern file,
                   gn_start_line := start, gn_end_line := end_line,
                   gn_properties_json := (case props of Some p \<Rightarrow> p | None \<Rightarrow> gn_properties_json ex)\<rparr>
      in gb\<lparr>gb_nodes := (gb_nodes gb)[r := ex'],
            gb_nodes_by_label := (if label_changed then index_push by_label new_label r else by_label),
            gb_nodes_by_name := (if name_changed then index_push by_name new_name r else by_name)\<rparr>)"

definition pmm_gbuf_upsert_node ::
  "gbuf \<Rightarrow> string option \<Rightarrow> string option \<Rightarrow> string option \<Rightarrow> string option \<Rightarrow> int \<Rightarrow> int \<Rightarrow>
   string option \<Rightarrow> int \<times> gbuf" where
  "pmm_gbuf_upsert_node gb label name qn file start end_line props =
     (case qn of
        None \<Rightarrow> (0, gb)
      | Some q \<Rightarrow>
          (case ht_get (gb_node_by_qn gb) q of
             Some r \<Rightarrow>
               (let ex = node_at gb r in
                if module_on_container ex label then (gn_id ex, gb)
                else if 0 < canonical_cmp label name file start ex then (gn_id ex, gb)
                else (gn_id ex, update_in_place gb r label name file start end_line props))
           | None \<Rightarrow>
               (let (i, gb1) = alloc_next_id gb;
                    node = \<lparr>gn_id = i, gn_label = gb_intern label, gn_name = heap_strdup name,
                            gn_qualified_name = Some q, gn_file_path = gb_intern file,
                            gn_start_line = start, gn_end_line = end_line,
                            gn_properties_json = heap_strdup props\<rparr>
                in (i, register_node_in_indexes (gb1\<lparr>gb_nodes := gb_nodes gb1 @ [node]\<rparr>)
                         (length (gb_nodes gb1))))))"

definition pmm_gbuf_find_by_qn :: "gbuf \<Rightarrow> string \<Rightarrow> nat option" where
  "pmm_gbuf_find_by_qn gb qn = ht_get (gb_node_by_qn gb) qn"

definition pmm_gbuf_find_by_id :: "gbuf \<Rightarrow> int \<Rightarrow> nat option" where
  "pmm_gbuf_find_by_id gb i =
     (if i < 0 \<or> gb_by_id_cap gb \<le> i then None else gb_by_id gb i)"

definition pmm_gbuf_find_by_label :: "gbuf \<Rightarrow> string option \<Rightarrow> nat list" where
  "pmm_gbuf_find_by_label gb label = bucket (gb_nodes_by_label gb) (or_empty label)"

definition pmm_gbuf_find_by_name :: "gbuf \<Rightarrow> string option \<Rightarrow> nat list" where
  "pmm_gbuf_find_by_name gb name = bucket (gb_nodes_by_name gb) (or_empty name)"

definition pmm_gbuf_node_count :: "gbuf \<Rightarrow> int" where
  "pmm_gbuf_node_count gb = int32 (int (ht_count (gb_node_by_qn gb)))"

section \<open>Edges\<close>

definition register_edge_in_indexes :: "gbuf \<Rightarrow> nat \<Rightarrow> gbuf" where
  "register_edge_in_indexes gb r =
     (let e = edge_at gb r in
      gb\<lparr>gb_edges_by_source_type := index_push (gb_edges_by_source_type gb) (source_key e) r,
         gb_edges_by_target_type := index_push (gb_edges_by_target_type gb) (target_key e) r,
         gb_edges_by_type := index_push (gb_edges_by_type gb) (ge_type e) r\<rparr>)"

definition unindex_edge :: "gbuf \<Rightarrow> nat \<Rightarrow> gbuf" where
  "unindex_edge gb r =
     (let e = edge_at gb r;
          id_of = (\<lambda>x. ge_id (edge_at gb x))
      in gb\<lparr>gb_edge_by_key := ht_delete (gb_edge_by_key gb) (edge_key e),
            gb_edges_by_source_type :=
              index_remove id_of (gb_edges_by_source_type gb) (source_key e) (ge_id e),
            gb_edges_by_target_type :=
              index_remove id_of (gb_edges_by_target_type gb) (target_key e) (ge_id e),
            gb_edges_by_type := index_remove id_of (gb_edges_by_type gb) (ge_type e) (ge_id e)\<rparr>)"

text \<open>The edges that touch a deleted id leave every index; the others are compacted in place.\<close>

fun cascade_loop :: "string list \<Rightarrow> gbuf \<Rightarrow> nat list \<Rightarrow> nat list \<Rightarrow> gbuf" where
  "cascade_loop deleted gb kept [] = gb\<lparr>gb_edges := kept\<rparr>"
| "cascade_loop deleted gb kept (r # rs) =
     (if make_id_key (ge_source_id (edge_at gb r)) \<in> set deleted \<or>
         make_id_key (ge_target_id (edge_at gb r)) \<in> set deleted
      then cascade_loop deleted (unindex_edge gb r) kept rs
      else cascade_loop deleted gb (kept @ [r]) rs)"

definition cascade_delete_edges :: "gbuf \<Rightarrow> string list \<Rightarrow> gbuf" where
  "cascade_delete_edges gb deleted = cascade_loop deleted gb [] (gb_edges gb)"

definition pmm_gbuf_insert_edge ::
  "gbuf \<Rightarrow> int \<Rightarrow> int \<Rightarrow> string option \<Rightarrow> string option \<Rightarrow> int \<times> gbuf" where
  "pmm_gbuf_insert_edge gb src tgt type props =
     (case type of
        None \<Rightarrow> (0, gb)
      | Some ty \<Rightarrow>
          (let key = make_edge_key src tgt ty props in
           case ht_get (gb_edge_by_key gb) key of
             Some r \<Rightarrow>
               (ge_id (edge_at gb r),
                case props of
                  Some p \<Rightarrow> if p \<noteq> ''{}''
                            then gb\<lparr>gb_edge_heap :=
                                      (gb_edge_heap gb)[r := (edge_at gb r)\<lparr>ge_properties_json := p\<rparr>]\<rparr>
                            else gb
                | None \<Rightarrow> gb)
           | None \<Rightarrow>
               (let (i, gb1) = alloc_next_id gb;
                    r = length (gb_edge_heap gb1);
                    edge = \<lparr>ge_id = i, ge_source_id = src, ge_target_id = tgt, ge_type = ty,
                            ge_properties_json = heap_strdup props\<rparr>
                in (i, register_edge_in_indexes
                         (gb1\<lparr>gb_edge_heap := gb_edge_heap gb1 @ [edge],
                              gb_edges := gb_edges gb1 @ [r],
                              gb_edge_by_key := ht_set (gb_edge_by_key gb1) key r\<rparr>) r))))"

definition pmm_gbuf_find_edges_by_source_type :: "gbuf \<Rightarrow> int \<Rightarrow> string \<Rightarrow> nat list" where
  "pmm_gbuf_find_edges_by_source_type gb src ty =
     bucket (gb_edges_by_source_type gb) (make_src_type_key src ty)"

definition pmm_gbuf_find_edges_by_target_type :: "gbuf \<Rightarrow> int \<Rightarrow> string \<Rightarrow> nat list" where
  "pmm_gbuf_find_edges_by_target_type gb tgt ty =
     bucket (gb_edges_by_target_type gb) (make_src_type_key tgt ty)"

definition pmm_gbuf_find_edges_by_type :: "gbuf \<Rightarrow> string \<Rightarrow> nat list" where
  "pmm_gbuf_find_edges_by_type gb ty = bucket (gb_edges_by_type gb) ty"

definition pmm_gbuf_edge_count :: "gbuf \<Rightarrow> int" where
  "pmm_gbuf_edge_count gb = int (length (gb_edges gb))"

definition pmm_gbuf_edge_count_by_type :: "gbuf \<Rightarrow> string option \<Rightarrow> int" where
  "pmm_gbuf_edge_count_by_type gb type =
     (case type of None \<Rightarrow> 0 | Some ty \<Rightarrow> int (length (bucket (gb_edges_by_type gb) ty)))"

text \<open>The secondary indexes start again from nothing over the live edges.\<close>

definition rebuild_edge_secondary_indexes :: "gbuf \<Rightarrow> gbuf" where
  "rebuild_edge_secondary_indexes gb =
     fold (\<lambda>r g. register_edge_in_indexes g r) (gb_edges gb)
       (gb\<lparr>gb_edges_by_source_type := [], gb_edges_by_target_type := [], gb_edges_by_type := []\<rparr>)"

fun delete_type_loop :: "string \<Rightarrow> gbuf \<Rightarrow> nat list \<Rightarrow> nat list \<Rightarrow> gbuf" where
  "delete_type_loop ty gb kept [] = gb\<lparr>gb_edges := kept\<rparr>"
| "delete_type_loop ty gb kept (r # rs) =
     (if ge_type (edge_at gb r) = ty
      then delete_type_loop ty
             (gb\<lparr>gb_edge_by_key := ht_delete (gb_edge_by_key gb) (edge_key (edge_at gb r))\<rparr>) kept rs
      else delete_type_loop ty gb (kept @ [r]) rs)"

definition pmm_gbuf_delete_edges_by_type :: "gbuf \<Rightarrow> string option \<Rightarrow> int \<times> gbuf" where
  "pmm_gbuf_delete_edges_by_type gb type =
     (case type of
        None \<Rightarrow> (-1, gb)
      | Some ty \<Rightarrow> (0, rebuild_edge_secondary_indexes (delete_type_loop ty gb [] (gb_edges gb))))"

section \<open>Deleting nodes\<close>

text \<open>One node of the label: its id is noted and it leaves the two primary indexes.\<close>

definition delete_label_step :: "gbuf \<times> string list \<Rightarrow> nat \<Rightarrow> gbuf \<times> string list" where
  "delete_label_step st r =
     (let (gb, deleted) = st; n = node_at gb r in
      (gb\<lparr>gb_node_by_qn := (case gn_qualified_name n of
                              None \<Rightarrow> gb_node_by_qn gb
                            | Some qn \<Rightarrow> ht_delete (gb_node_by_qn gb) qn),
          gb_by_id := (if 0 \<le> gn_id n \<and> gn_id n < gb_by_id_cap gb then (gb_by_id gb)(gn_id n := None)
                       else gb_by_id gb)\<rparr>,
       make_id_key (gn_id n) # deleted))"

definition pmm_gbuf_delete_by_label :: "gbuf \<Rightarrow> string option \<Rightarrow> int \<times> gbuf" where
  "pmm_gbuf_delete_by_label gb label =
     (case label of
        None \<Rightarrow> (-1, gb)
      | Some l \<Rightarrow>
          (let arr = bucket (gb_nodes_by_label gb) l in
           if arr = [] then (0, gb)
           else (let (gb1, deleted) = foldl delete_label_step (gb, []) arr;
                     gb2 = gb1\<lparr>gb_nodes_by_label := ht_set (gb_nodes_by_label gb1) l []\<rparr>
                 in (0, cascade_delete_edges gb2 deleted))))"

definition file_node_to_delete :: "gbuf \<Rightarrow> string \<Rightarrow> nat \<Rightarrow> bool" where
  "file_node_to_delete gb file r \<longleftrightarrow>
     gn_file_path (node_at gb r) = file \<and>
     (case gn_qualified_name (node_at gb r) of
        None \<Rightarrow> False
      | Some qn \<Rightarrow> ht_get (gb_node_by_qn gb) qn \<noteq> None)"

text \<open>Out of the secondary indexes, out of the primary ones, and the qualified name NULL.\<close>

definition remove_file_node :: "gbuf \<Rightarrow> nat \<Rightarrow> gbuf" where
  "remove_file_node gb r =
     (let n = node_at gb r;
          id_of = (\<lambda>x. gn_id (node_at gb x))
      in gb\<lparr>gb_nodes_by_label := index_remove id_of (gb_nodes_by_label gb) (gn_label n) (gn_id n),
            gb_nodes_by_name := index_remove id_of (gb_nodes_by_name gb) (gn_name n) (gn_id n),
            gb_node_by_qn := (case gn_qualified_name n of
                                None \<Rightarrow> gb_node_by_qn gb
                              | Some qn \<Rightarrow> ht_delete (gb_node_by_qn gb) qn),
            gb_by_id := (if 0 \<le> gn_id n \<and> gn_id n < gb_by_id_cap gb then (gb_by_id gb)(gn_id n := None)
                         else gb_by_id gb),
            gb_nodes := (gb_nodes gb)[r := n\<lparr>gn_qualified_name := None\<rparr>]\<rparr>)"

fun delete_file_loop :: "string \<Rightarrow> gbuf \<Rightarrow> string list \<Rightarrow> nat list \<Rightarrow> gbuf \<times> string list" where
  "delete_file_loop file gb deleted [] = (gb, deleted)"
| "delete_file_loop file gb deleted (r # rs) =
     (if file_node_to_delete gb file r
      then delete_file_loop file (remove_file_node gb r) (make_id_key (gn_id (node_at gb r)) # deleted) rs
      else delete_file_loop file gb deleted rs)"

definition pmm_gbuf_delete_by_file :: "gbuf \<Rightarrow> string option \<Rightarrow> int \<times> gbuf" where
  "pmm_gbuf_delete_by_file gb file =
     (case file of
        None \<Rightarrow> (-1, gb)
      | Some f \<Rightarrow>
          (let (gb1, deleted) = delete_file_loop f gb [] [0..<length (gb_nodes gb)] in
           if deleted = [] then (0, gb1)
           else (int (length deleted), cascade_delete_edges gb1 deleted)))"

section \<open>Iteration\<close>

text \<open>A node counts as live while its qualified name is a key of the index.\<close>

definition live_node :: "gbuf \<Rightarrow> gnode \<Rightarrow> bool" where
  "live_node gb n \<longleftrightarrow>
     (case gn_qualified_name n of None \<Rightarrow> False | Some qn \<Rightarrow> ht_get (gb_node_by_qn gb) qn \<noteq> None)"

definition pmm_gbuf_foreach_node :: "gbuf \<Rightarrow> (gnode \<Rightarrow> 'a \<Rightarrow> 'a) \<Rightarrow> 'a \<Rightarrow> 'a" where
  "pmm_gbuf_foreach_node gb fn u = fold fn [n \<leftarrow> gb_nodes gb. live_node gb n] u"

definition pmm_gbuf_foreach_edge :: "gbuf \<Rightarrow> (gedge \<Rightarrow> 'a \<Rightarrow> 'a) \<Rightarrow> 'a \<Rightarrow> 'a" where
  "pmm_gbuf_foreach_edge gb fn u = fold fn (map (edge_at gb) (gb_edges gb)) u"

section \<open>Merging a worker's buffer\<close>

text \<open>A collision updates the node of \<open>dst\<close> under the rule of the upsert, and notes which id
  replaces the id of the source.\<close>

definition merge_update_existing ::
  "gbuf \<Rightarrow> nat \<Rightarrow> gnode \<Rightarrow> int htable \<Rightarrow> gbuf \<times> int htable" where
  "merge_update_existing dst r sn remap =
     (let ex = node_at dst r;
          dst1 = (if module_on_container ex (Some (gn_label sn)) then dst
                  else if canonical_cmp (Some (gn_label sn)) (Some (gn_name sn))
                            (Some (gn_file_path sn)) (gn_start_line sn) ex \<le> 0
                  then update_in_place dst r (Some (gn_label sn)) (Some (gn_name sn))
                         (Some (gn_file_path sn)) (gn_start_line sn) (gn_end_line sn)
                         (Some (gn_properties_json sn))
                  else dst)
      in (dst1, if gn_id sn \<noteq> gn_id ex then ht_set remap (make_id_key (gn_id sn)) (gn_id ex) else remap))"

definition merge_copy_new_node :: "gbuf \<Rightarrow> gnode \<Rightarrow> gbuf" where
  "merge_copy_new_node dst sn =
     (let dst1 = register_node_in_indexes (dst\<lparr>gb_nodes := gb_nodes dst @ [sn]\<rparr>) (length (gb_nodes dst))
      in if gb_next_id dst1 \<le> gn_id sn then dst1\<lparr>gb_next_id := gn_id sn + 1\<rparr> else dst1)"

definition merge_node :: "gbuf \<Rightarrow> gbuf \<times> int htable \<Rightarrow> gnode \<Rightarrow> gbuf \<times> int htable" where
  "merge_node src st sn =
     (let (dst, remap) = st in
      if \<not> live_node src sn then (dst, remap)
      else (case ht_get (gb_node_by_qn dst) (or_empty (gn_qualified_name sn)) of
              Some r \<Rightarrow> merge_update_existing dst r sn remap
            | None \<Rightarrow> (merge_copy_new_node dst sn, remap)))"

definition remapped :: "int htable \<Rightarrow> int \<Rightarrow> int" where
  "remapped remap i = (case ht_get remap (make_id_key i) of Some j \<Rightarrow> j | None \<Rightarrow> i)"

definition merge_remap_edges :: "gbuf \<Rightarrow> gbuf \<Rightarrow> int htable \<Rightarrow> gbuf" where
  "merge_remap_edges dst src remap =
     foldl (\<lambda>d r. let se = edge_at src r in
              snd (pmm_gbuf_insert_edge d (remapped remap (ge_source_id se)) (remapped remap (ge_target_id se))
                     (Some (ge_type se)) (Some (ge_properties_json se))))
       dst (gb_edges src)"

definition pmm_gbuf_merge :: "gbuf \<Rightarrow> gbuf \<Rightarrow> gbuf" where
  "pmm_gbuf_merge dst src =
     (if gb_nodes src = [] \<and> gb_edges src = [] then dst
      else (let (dst1, remap) = foldl (merge_node src) (dst, []) (gb_nodes src)
            in merge_remap_edges dst1 src remap))"

end
