(* ===== verification/Gbuf_Keys.thy ===== *)
theory Gbuf_Keys
  imports Gbuf Cyp_Digits
begin

text \<open>
  The keys of the indexes of the graph buffer (src/src/graph_buffer/graph_buffer.c): decimal ids
  are injective and hold no colon, so on ids of 64 bits and on types that are short and hold no
  colon the composite keys fit their buffers and determine the ids and the type.
\<close>

lemma make_id_key_inj: "id64 a \<Longrightarrow> id64 b \<Longrightarrow> make_id_key a = make_id_key b \<longleftrightarrow> a = b"
  using show_int_length[of a] show_int_length[of b]
  by (simp add: make_id_key_def snprintf_buf_id show_int_injective)

section \<open>Composite keys\<close>

definition type_ok :: "string \<Rightarrow> bool" where
  "type_ok ty \<longleftrightarrow> CHR '':'' \<notin> set ty \<and> length ty \<le> 150"

lemma split_at_colon:
  assumes "a @ CHR '':'' # b = a' @ CHR '':'' # b'" "CHR '':'' \<notin> set a" "CHR '':'' \<notin> set a'"
  shows "a = a' \<and> b = b'"
proof -
  have P: "takeWhile (\<lambda>c. c \<noteq> CHR '':'') (a @ CHR '':'' # b) = a"
          "takeWhile (\<lambda>c. c \<noteq> CHR '':'') (a' @ CHR '':'' # b') = a'"
    using assms(2,3) by (auto intro!: takeWhile_append_stop)
  then have "a = a'"
    using assms(1) by metis
  then show ?thesis
    using assms(1) by simp
qed

lemma make_src_type_key_inj:
  assumes "id64 a" "id64 b" "type_ok t" "type_ok u"
  shows "make_src_type_key a t = make_src_type_key b u \<longleftrightarrow> a = b \<and> t = u"
proof -
  have K: "make_src_type_key i ty = show_int i @ CHR '':'' # ty" if "id64 i" "type_ok ty" for i ty
    using show_int_length[OF that(1)] that(2)
    by (simp add: make_src_type_key_def snprintf_buf_id type_ok_def)
  show ?thesis
    using split_at_colon[of "show_int a" t "show_int b" u] show_int_no_colon[of a] show_int_no_colon[of b]
    by (auto simp: K assms show_int_injective)
qed

text \<open>What follows the type in the key of an edge: nothing, or a colon and the local name or
  its hash.\<close>

lemma make_edge_key_shape:
  assumes "id64 a" "id64 b" "type_ok ty"
  obtains tail where "make_edge_key a b ty props = plain_edge_key a b ty @ tail"
    and "tail = [] \<or> hd tail = CHR '':''"
proof -
  have P: "length (plain_edge_key a b ty) \<le> 192"
    using show_int_length[OF assms(1)] show_int_length[OF assms(2)] assms(3)
    by (simp add: plain_edge_key_def type_ok_def)
  have H: "length (show_hex16 w) = 16" for w
    by (simp add: show_hex16_def)
  have plain: "snprintf_buf 256 (plain_edge_key a b ty) = plain_edge_key a b ty"
    using P by (simp add: snprintf_buf_id)
  have hash: "snprintf_buf 256 (plain_edge_key a b ty @ CHR '':'' # CHR 0x01 # show_hex16 w) =
      plain_edge_key a b ty @ CHR '':'' # CHR 0x01 # show_hex16 w" for w
    using P H[of w] by (simp add: snprintf_buf_id)
  have "\<exists>tail. make_edge_key a b ty props = plain_edge_key a b ty @ tail \<and> (tail = [] \<or> hd tail = CHR '':'')"
    using hash unfolding make_edge_key_def Let_def plain by (auto split: option.splits)
  then show ?thesis
    using that by blast
qed

lemma make_edge_key_eqD:
  assumes "id64 a" "id64 b" "type_ok t" "id64 a'" "id64 b'" "type_ok t'"
    and eq: "make_edge_key a b t p = make_edge_key a' b' t' p'"
  shows "a = a' \<and> b = b' \<and> t = t'"
proof -
  obtain x where x: "make_edge_key a b t p = plain_edge_key a b t @ x" "x = [] \<or> hd x = CHR '':''"
    using make_edge_key_shape[OF assms(1-3)] by blast
  obtain y where y: "make_edge_key a' b' t' p' = plain_edge_key a' b' t' @ y" "y = [] \<or> hd y = CHR '':''"
    using make_edge_key_shape[OF assms(4-6)] by blast
  have "show_int a @ CHR '':'' # (show_int b @ CHR '':'' # t @ x) =
        show_int a' @ CHR '':'' # (show_int b' @ CHR '':'' # t' @ y)"
    using eq x y by (simp add: plain_edge_key_def)
  from split_at_colon[OF this show_int_no_colon show_int_no_colon]
  have 1: "show_int a = show_int a'" "show_int b @ CHR '':'' # t @ x = show_int b' @ CHR '':'' # t' @ y"
    by simp_all
  from split_at_colon[OF 1(2) show_int_no_colon show_int_no_colon]
  have 2: "show_int b = show_int b'" "t @ x = t' @ y"
    by simp_all
  have T: "takeWhile (\<lambda>c. c \<noteq> CHR '':'') (s @ z) = s" if "type_ok s" "z = [] \<or> hd z = CHR '':''" for s z
    using that by (cases z) (auto simp: type_ok_def takeWhile_append takeWhile_eq_all_conv)
  have "t = t'"
    using T[OF assms(3) x(2)] T[OF assms(6) y(2)] 2(2) by simp
  then show ?thesis
    using 1 2 by (simp add: show_int_injective)
qed

text \<open>Away from imports the properties play no part.\<close>

lemma make_edge_key_plain: "ty \<noteq> ''IMPORTS'' \<Longrightarrow> make_edge_key a b ty p = make_edge_key a b ty q"
  by (auto simp: make_edge_key_def Let_def split: option.splits)

lemma make_edge_key_NULL: "make_edge_key a b ty None = make_edge_key a b ty (Some ''{}'')"
  by (simp add: make_edge_key_def local_name_key_def Let_def)

lemma make_edge_key_strdup: "make_edge_key a b ty p = make_edge_key a b ty (Some (heap_strdup p))"
  by (cases p) (simp_all add: heap_strdup_def make_edge_key_NULL)

end
