(* ===== verification/Gbuf_Edge_Facts.thy ===== *)
theory Gbuf_Edge_Facts
  imports Gbuf_Keys
begin

text \<open>
  The edge part of the invariant of the graph buffer (src/src/graph_buffer/graph_buffer.c): the
  dedup index and the three secondary indexes describe exactly the live edges, and every edge
  operation keeps them so.
\<close>

section \<open>The invariant of the edges\<close>

definition edge_wf :: "gedge \<Rightarrow> bool" where
  "edge_wf e \<longleftrightarrow> id64 (ge_source_id e) \<and> id64 (ge_target_id e) \<and> type_ok (ge_type e)"

definition edge_heap_ok :: "gbuf \<Rightarrow> bool" where
  "edge_heap_ok gb \<longleftrightarrow>
     inj_on (\<lambda>r. ge_id (edge_at gb r)) {..<length (gb_edge_heap gb)} \<and>
     (\<forall>r<length (gb_edge_heap gb). 0 < ge_id (edge_at gb r) \<and>
        ge_id (edge_at gb r) < pmm_gbuf_next_id gb \<and> edge_wf (edge_at gb r))"

definition edge_keys_on :: "gbuf \<Rightarrow> nat set \<Rightarrow> bool" where
  "edge_keys_on gb S \<longleftrightarrow>
     ht_wf (gb_edge_by_key gb) \<and>
     (\<forall>k r. ht_get (gb_edge_by_key gb) k = Some r \<longleftrightarrow> r \<in> S \<and> edge_key (edge_at gb r) = k)"

definition edge_lists_on :: "gbuf \<Rightarrow> nat set \<Rightarrow> bool" where
  "edge_lists_on gb S \<longleftrightarrow>
     indexed_by (gb_edges_by_source_type gb) (\<lambda>r. source_key (edge_at gb r)) S \<and>
     indexed_by (gb_edges_by_target_type gb) (\<lambda>r. target_key (edge_at gb r)) S \<and>
     indexed_by (gb_edges_by_type gb) (\<lambda>r. ge_type (edge_at gb r)) S"

definition edges_ok :: "gbuf \<Rightarrow> bool" where
  "edges_ok gb \<longleftrightarrow>
     0 < pmm_gbuf_next_id gb \<and> distinct (gb_edges gb) \<and>
     set (gb_edges gb) \<subseteq> {..<length (gb_edge_heap gb)} \<and> edge_heap_ok gb \<and>
     edge_keys_on gb (set (gb_edges gb)) \<and> edge_lists_on gb (set (gb_edges gb))"

lemmas edge_inv_defs = edge_heap_ok_def edge_keys_on_def edge_lists_on_def

lemma next_id_cong:
  "gb_next_id g = gb_next_id h \<Longrightarrow> gb_shared_ids g = gb_shared_ids h \<Longrightarrow> pmm_gbuf_next_id g = pmm_gbuf_next_id h"
  by (simp add: pmm_gbuf_next_id_def split: option.split)

lemma next_id_updates [simp]:
  "pmm_gbuf_next_id (gb\<lparr>gb_edges := x0\<rparr>) = pmm_gbuf_next_id gb"
  "pmm_gbuf_next_id (gb\<lparr>gb_edge_heap := x1\<rparr>) = pmm_gbuf_next_id gb"
  "pmm_gbuf_next_id (gb\<lparr>gb_edge_by_key := x2\<rparr>) = pmm_gbuf_next_id gb"
  "pmm_gbuf_next_id (gb\<lparr>gb_edges_by_source_type := x3\<rparr>) = pmm_gbuf_next_id gb"
  "pmm_gbuf_next_id (gb\<lparr>gb_edges_by_target_type := x4\<rparr>) = pmm_gbuf_next_id gb"
  "pmm_gbuf_next_id (gb\<lparr>gb_edges_by_type := x5\<rparr>) = pmm_gbuf_next_id gb"
  "pmm_gbuf_next_id (gb\<lparr>gb_nodes := x6\<rparr>) = pmm_gbuf_next_id gb"
  "pmm_gbuf_next_id (gb\<lparr>gb_node_by_qn := x7\<rparr>) = pmm_gbuf_next_id gb"
  "pmm_gbuf_next_id (gb\<lparr>gb_by_id := x8\<rparr>) = pmm_gbuf_next_id gb"
  "pmm_gbuf_next_id (gb\<lparr>gb_by_id_cap := x9\<rparr>) = pmm_gbuf_next_id gb"
  "pmm_gbuf_next_id (gb\<lparr>gb_nodes_by_label := x10\<rparr>) = pmm_gbuf_next_id gb"
  "pmm_gbuf_next_id (gb\<lparr>gb_nodes_by_name := x11\<rparr>) = pmm_gbuf_next_id gb"
  by (simp_all add: pmm_gbuf_next_id_def split: option.split)

text \<open>The invariant reads only the edge fields and the counter.\<close>

lemma edges_ok_cong:
  assumes "gb_edges gb' = gb_edges gb" "gb_edge_heap gb' = gb_edge_heap gb"
    "gb_edge_by_key gb' = gb_edge_by_key gb"
    "gb_edges_by_source_type gb' = gb_edges_by_source_type gb"
    "gb_edges_by_target_type gb' = gb_edges_by_target_type gb"
    "gb_edges_by_type gb' = gb_edges_by_type gb"
    "pmm_gbuf_next_id gb \<le> pmm_gbuf_next_id gb'"
    and ok: "edges_ok gb"
  shows "edges_ok gb'"
  using ok assms(7) unfolding edges_ok_def edge_inv_defs edge_at_def
  by (auto simp: assms(1-6) intro: less_le_trans)

lemma edges_ok_new: "edges_ok (pmm_gbuf_new p q)" "0 < i \<Longrightarrow> edges_ok (pmm_gbuf_new_shared_ids p q (Some i))"
  by (simp_all add: edges_ok_def edge_inv_defs pmm_gbuf_new_def pmm_gbuf_new_shared_ids_def
      pmm_gbuf_next_id_def Let_def)

section \<open>Registering and unregistering\<close>

lemma register_edge_frame [simp]:
  "gb_edges (register_edge_in_indexes gb r) = gb_edges gb"
  "gb_edge_heap (register_edge_in_indexes gb r) = gb_edge_heap gb"
  "gb_edge_by_key (register_edge_in_indexes gb r) = gb_edge_by_key gb"
  "gb_nodes (register_edge_in_indexes gb r) = gb_nodes gb"
  "gb_node_by_qn (register_edge_in_indexes gb r) = gb_node_by_qn gb"
  "gb_by_id (register_edge_in_indexes gb r) = gb_by_id gb"
  "gb_by_id_cap (register_edge_in_indexes gb r) = gb_by_id_cap gb"
  "gb_nodes_by_label (register_edge_in_indexes gb r) = gb_nodes_by_label gb"
  "gb_nodes_by_name (register_edge_in_indexes gb r) = gb_nodes_by_name gb"
  "gb_next_id (register_edge_in_indexes gb r) = gb_next_id gb"
  "gb_shared_ids (register_edge_in_indexes gb r) = gb_shared_ids gb"
  "edge_at (register_edge_in_indexes gb r) = edge_at gb"
  by (simp_all add: register_edge_in_indexes_def Let_def edge_at_def fun_eq_iff)

lemma unindex_edge_frame [simp]:
  "gb_edges (unindex_edge gb r) = gb_edges gb"
  "gb_edge_heap (unindex_edge gb r) = gb_edge_heap gb"
  "gb_nodes (unindex_edge gb r) = gb_nodes gb"
  "gb_node_by_qn (unindex_edge gb r) = gb_node_by_qn gb"
  "gb_by_id (unindex_edge gb r) = gb_by_id gb"
  "gb_by_id_cap (unindex_edge gb r) = gb_by_id_cap gb"
  "gb_nodes_by_label (unindex_edge gb r) = gb_nodes_by_label gb"
  "gb_nodes_by_name (unindex_edge gb r) = gb_nodes_by_name gb"
  "gb_next_id (unindex_edge gb r) = gb_next_id gb"
  "gb_shared_ids (unindex_edge gb r) = gb_shared_ids gb"
  "edge_at (unindex_edge gb r) = edge_at gb"
  by (simp_all add: unindex_edge_def Let_def edge_at_def fun_eq_iff)

lemma register_edge_lists:
  "edge_lists_on gb S \<Longrightarrow> r \<notin> S \<Longrightarrow> edge_lists_on (register_edge_in_indexes gb r) (insert r S)"
  unfolding edge_lists_on_def
  by (simp add: register_edge_in_indexes_def Let_def edge_at_def indexed_by_push)

lemma unindex_edge_lists:
  assumes "edge_lists_on gb S" "edge_heap_ok gb" "S \<subseteq> {..<length (gb_edge_heap gb)}" "r \<in> S"
  shows "edge_lists_on (unindex_edge gb r) (S - {r})"
proof -
  have "inj_on (\<lambda>r. ge_id (edge_at gb r)) S"
    using assms(2,3) by (auto simp: edge_heap_ok_def intro: inj_on_subset)
  then show ?thesis
    using assms(1,4) unfolding edge_lists_on_def unindex_edge_frame
    by (simp add: unindex_edge_def Let_def indexed_by_remove)
qed

text \<open>Two live edges never share a key, so a deletion by key takes one of them.\<close>

lemma delete_key_keys:
  assumes "edge_keys_on gb S" "r \<in> S" "gb_edge_by_key gb' = ht_delete (gb_edge_by_key gb) (edge_key (edge_at gb r))"
    "edge_at gb' = edge_at gb"
  shows "edge_keys_on gb' (S - {r})"
proof -
  have wf: "ht_wf (gb_edge_by_key gb)"
    and iff: "\<And>k x. ht_get (gb_edge_by_key gb) k = Some x \<longleftrightarrow> x \<in> S \<and> edge_key (edge_at gb x) = k"
    using assms(1) by (simp_all add: edge_keys_on_def)
  have uniq: "x = r" if "x \<in> S" "edge_key (edge_at gb x) = edge_key (edge_at gb r)" for x
    using iff[of "edge_key (edge_at gb r)" x] iff[of "edge_key (edge_at gb r)" r] that assms(2) by simp
  show ?thesis
    unfolding edge_keys_on_def assms(3,4)
    using wf uniq by (auto simp: ht.wf_del ht.get_del iff)
qed

lemma unindex_edge_keys:
  "edge_keys_on gb S \<Longrightarrow> r \<in> S \<Longrightarrow> edge_keys_on (unindex_edge gb r) (S - {r})"
  by (rule delete_key_keys[of gb S r]) (simp_all add: unindex_edge_def Let_def edge_at_def fun_eq_iff)

section \<open>Inserting\<close>

text \<open>The key of a live edge gives its ends and its type.\<close>

lemma edge_key_lookup:
  assumes "edges_ok gb" "ht_get (gb_edge_by_key gb) (make_edge_key src tgt ty p) = Some r"
    "id64 src" "id64 tgt" "type_ok ty"
  shows "r \<in> set (gb_edges gb)" "ge_source_id (edge_at gb r) = src" "ge_target_id (edge_at gb r) = tgt"
    "ge_type (edge_at gb r) = ty"
proof -
  show r: "r \<in> set (gb_edges gb)"
    using assms(1,2) by (simp add: edges_ok_def edge_keys_on_def)
  have k: "edge_key (edge_at gb r) = make_edge_key src tgt ty p"
    using assms(1,2) by (simp add: edges_ok_def edge_keys_on_def)
  have "edge_wf (edge_at gb r)"
    using assms(1) r by (auto simp: edges_ok_def edge_heap_ok_def)
  then show "ge_source_id (edge_at gb r) = src" "ge_target_id (edge_at gb r) = tgt" "ge_type (edge_at gb r) = ty"
    using make_edge_key_eqD[OF _ _ _ assms(3-5) k[unfolded edge_key_def]] by (simp_all add: edge_wf_def)
qed

lemma next_id_alloc:
  "alloc_next_id gb = (i, gb1) \<Longrightarrow> i = pmm_gbuf_next_id gb \<and> pmm_gbuf_next_id gb1 = pmm_gbuf_next_id gb + 1"
  by (auto simp: alloc_next_id_def pmm_gbuf_next_id_def split: option.splits)

lemma alloc_frame:
  "alloc_next_id gb = (i, gb1) \<Longrightarrow>
   gb_edges gb1 = gb_edges gb \<and> gb_edge_heap gb1 = gb_edge_heap gb \<and> gb_edge_by_key gb1 = gb_edge_by_key gb \<and>
   gb_edges_by_source_type gb1 = gb_edges_by_source_type gb \<and>
   gb_edges_by_target_type gb1 = gb_edges_by_target_type gb \<and> gb_edges_by_type gb1 = gb_edges_by_type gb \<and>
   gb_nodes gb1 = gb_nodes gb \<and> gb_node_by_qn gb1 = gb_node_by_qn gb \<and> gb_by_id gb1 = gb_by_id gb \<and>
   gb_by_id_cap gb1 = gb_by_id_cap gb \<and> gb_nodes_by_label gb1 = gb_nodes_by_label gb \<and>
   gb_nodes_by_name gb1 = gb_nodes_by_name gb"
  by (auto simp: alloc_next_id_def split: option.splits)

lemma insert_edge_new_ok:
  assumes ok: "edges_ok gb" and al: "alloc_next_id gb = (i, gb1)" and wf: "edge_wf e" "ge_id e = i"
    and fresh: "ht_get (gb_edge_by_key gb) (edge_key e) = None"
  defines "r \<equiv> length (gb_edge_heap gb1)"
  defines "gb2 \<equiv> gb1\<lparr>gb_edge_heap := gb_edge_heap gb1 @ [e], gb_edges := gb_edges gb1 @ [r],
                      gb_edge_by_key := ht_set (gb_edge_by_key gb1) (edge_key e) r\<rparr>"
  shows "edges_ok (register_edge_in_indexes gb2 r)"
proof -
  note F = alloc_frame[OF al] and N = next_id_alloc[OF al]
  have r: "r = length (gb_edge_heap gb)"
    using F by (simp add: r_def)
  have r_new: "r \<notin> set (gb_edges gb)"
    using ok by (auto simp: edges_ok_def r)
  have at_old: "edge_at gb2 x = edge_at gb x" if "x < r" for x
    using that F by (simp add: edge_at_def gb2_def nth_append r)
  have at_new: "edge_at gb2 r = e"
    using F by (simp add: edge_at_def gb2_def r)
  have live_old: "x < r" if "x \<in> set (gb_edges gb)" for x
    using that ok by (auto simp: edges_ok_def r)
  have nid: "pmm_gbuf_next_id gb2 = pmm_gbuf_next_id gb + 1"
    using N next_id_cong[of gb2 gb1] by (simp add: gb2_def)
  have heap: "edge_heap_ok gb2"
  proof -
    have bound: "ge_id (edge_at gb x) < i" if "x < r" for x
      using ok that N by (auto simp: edges_ok_def edge_heap_ok_def r)
    have dom: "{..<length (gb_edge_heap gb2)} = insert r {..<r}"
      using F by (auto simp: gb2_def r)
    have "inj_on (\<lambda>x. ge_id (edge_at gb2 x)) {..<r}"
      using ok by (auto simp: edges_ok_def edge_heap_ok_def r at_old inj_on_def)
    moreover have "ge_id (edge_at gb2 x) \<noteq> ge_id (edge_at gb2 r)" if "x < r" for x
      using bound[OF that] by (simp add: at_old[OF that] at_new wf(2))
    ultimately have "inj_on (\<lambda>x. ge_id (edge_at gb2 x)) {..<length (gb_edge_heap gb2)}"
      unfolding dom inj_on_insert by (metis (no_types, lifting) Diff_iff imageE lessThan_iff)
    moreover have "0 < ge_id (edge_at gb2 x) \<and> ge_id (edge_at gb2 x) < pmm_gbuf_next_id gb2 \<and> edge_wf (edge_at gb2 x)"
      if "x < length (gb_edge_heap gb2)" for x
    proof (cases "x < r")
      case True
      then show ?thesis
        using ok nid by (auto simp: at_old edges_ok_def edge_heap_ok_def r intro: less_trans)
    next
      case False
      then have "x = r"
        using that F by (simp add: gb2_def r)
      then show ?thesis
        using N wf ok nid by (simp add: at_new edges_ok_def)
    qed
    ultimately show ?thesis
      by (simp add: edge_heap_ok_def)
  qed
  have key_eq: "ht_get (gb_edge_by_key gb) k = Some x \<longleftrightarrow> x \<in> set (gb_edges gb) \<and> edge_key (edge_at gb2 x) = k" for k x
    using ok live_old[of x] at_old[of x] by (auto simp: edges_ok_def edge_keys_on_def)
  have byk: "gb_edge_by_key gb2 = ht_set (gb_edge_by_key gb) (edge_key e) r"
    using F by (simp add: gb2_def)
  have keys: "edge_keys_on gb2 (insert r (set (gb_edges gb)))"
  proof -
    have "ht_get (gb_edge_by_key gb2) k = Some x \<longleftrightarrow>
        x \<in> insert r (set (gb_edges gb)) \<and> edge_key (edge_at gb2 x) = k" for k x
    proof (cases "k = edge_key e")
      case True
      have "x = r" if "x \<in> insert r (set (gb_edges gb))" "edge_key (edge_at gb2 x) = edge_key e"
        using that fresh key_eq[of "edge_key e" x] by auto
      then show ?thesis
        using True at_new by (auto simp: byk ht.get_set)
    next
      case False
      then show ?thesis
        using key_eq[of k x] at_new by (auto simp: byk ht.get_set)
    qed
    moreover have "ht_wf (gb_edge_by_key gb2)"
      using ok by (simp add: byk edges_ok_def edge_keys_on_def ht.wf_set)
    ultimately show ?thesis
      by (simp add: edge_keys_on_def)
  qed
  have lists: "edge_lists_on gb2 (set (gb_edges gb))"
  proof -
    have "edge_lists_on gb (set (gb_edges gb))"
      using ok by (simp add: edges_ok_def)
    moreover have "gb_edges_by_source_type gb2 = gb_edges_by_source_type gb"
      "gb_edges_by_target_type gb2 = gb_edges_by_target_type gb" "gb_edges_by_type gb2 = gb_edges_by_type gb"
      using F by (simp_all add: gb2_def)
    moreover have "edge_at gb2 x = edge_at gb x" if "x \<in> set (gb_edges gb)" for x
      using live_old[OF that] by (rule at_old)
    ultimately show ?thesis
      unfolding edge_lists_on_def by (simp cong: indexed_by_cong)
  qed
  have E: "gb_edges gb2 = gb_edges gb @ [r]" "length (gb_edge_heap gb2) = Suc r"
    using F by (simp_all add: gb2_def r)
  have "edge_heap_ok (register_edge_in_indexes gb2 r)" "edge_keys_on (register_edge_in_indexes gb2 r) (insert r (set (gb_edges gb)))"
    "pmm_gbuf_next_id (register_edge_in_indexes gb2 r) = pmm_gbuf_next_id gb2"
    using heap keys next_id_cong[of "register_edge_in_indexes gb2 r" gb2]
    by (simp_all add: edge_heap_ok_def edge_keys_on_def)
  moreover have "edge_lists_on (register_edge_in_indexes gb2 r) (insert r (set (gb_edges gb)))"
    by (rule register_edge_lists[OF lists r_new])
  ultimately show ?thesis
    using ok r_new live_old by (auto simp: edges_ok_def E nid less_Suc_eq)
qed

text \<open>New properties of an existing edge that give the same key.\<close>

lemma edge_props_update_ok:
  assumes ok: "edges_ok gb" and r: "r \<in> set (gb_edges gb)"
    and key: "edge_key ((edge_at gb r)\<lparr>ge_properties_json := p\<rparr>) = edge_key (edge_at gb r)"
  shows "edges_ok (gb\<lparr>gb_edge_heap := (gb_edge_heap gb)[r := (edge_at gb r)\<lparr>ge_properties_json := p\<rparr>]\<rparr>)"
    (is "edges_ok ?g")
proof -
  have len: "r < length (gb_edge_heap gb)"
    using ok r by (auto simp: edges_ok_def)
  have at: "edge_at ?g x = (if x = r then (edge_at gb r)\<lparr>ge_properties_json := p\<rparr> else edge_at gb x)" for x
    using len by (simp add: edge_at_def nth_list_update)
  have same: "ge_id (edge_at ?g x) = ge_id (edge_at gb x)" "edge_wf (edge_at ?g x) = edge_wf (edge_at gb x)"
    "edge_key (edge_at ?g x) = edge_key (edge_at gb x)" "source_key (edge_at ?g x) = source_key (edge_at gb x)"
    "target_key (edge_at ?g x) = target_key (edge_at gb x)" "ge_type (edge_at ?g x) = ge_type (edge_at gb x)" for x
    using key by (auto simp: at edge_wf_def source_key_def target_key_def)
  have nid: "pmm_gbuf_next_id ?g = pmm_gbuf_next_id gb"
    by (rule next_id_cong) simp_all
  show ?thesis
    using ok unfolding edges_ok_def edge_inv_defs same nid by simp
qed

theorem insert_edge_ok:
  assumes ok: "edges_ok gb" and wf: "id64 src" "id64 tgt" "type_ok ty"
  shows "edges_ok (snd (pmm_gbuf_insert_edge gb src tgt (Some ty) props))"
proof (cases "ht_get (gb_edge_by_key gb) (make_edge_key src tgt ty props)")
  case None
  obtain i gb1 where al: "alloc_next_id gb = (i, gb1)"
    by fastforce
  let ?e = "\<lparr>ge_id = i, ge_source_id = src, ge_target_id = tgt, ge_type = ty, ge_properties_json = heap_strdup props\<rparr>"
  have k: "edge_key ?e = make_edge_key src tgt ty props"
    by (simp add: edge_key_def make_edge_key_strdup[of src tgt ty props, symmetric])
  show ?thesis
    using insert_edge_new_ok[OF ok al, of ?e] None wf
    by (simp add: pmm_gbuf_insert_edge_def al edge_wf_def k Let_def)
next
  case (Some r)
  note L = edge_key_lookup[OF ok Some wf]
  have k: "edge_key (edge_at gb r) = make_edge_key src tgt ty props"
    using ok Some by (simp add: edges_ok_def edge_keys_on_def)
  show ?thesis
  proof (cases props)
    case None
    then show ?thesis
      using Some ok by (simp add: pmm_gbuf_insert_edge_def)
  next
    case (Some p)
    have "edge_key ((edge_at gb r)\<lparr>ge_properties_json := p\<rparr>) = edge_key (edge_at gb r)"
      using Some by (simp add: k) (simp add: edge_key_def L)
    then show ?thesis
      using \<open>ht_get _ _ = Some r\<close> Some ok edge_props_update_ok[OF ok L(1)]
      by (simp add: pmm_gbuf_insert_edge_def)
  qed
qed

section \<open>Deleting\<close>

text \<open>The part of the invariant that the loops keep: \<open>kept\<close> edges stay, \<open>rest\<close> are still to see.\<close>

definition edges_ok_on :: "gbuf \<Rightarrow> nat set \<Rightarrow> bool" where
  "edges_ok_on gb S \<longleftrightarrow> 0 < pmm_gbuf_next_id gb \<and> S \<subseteq> {..<length (gb_edge_heap gb)} \<and> edge_heap_ok gb \<and>
     edge_keys_on gb S \<and> edge_lists_on gb S"

lemma edges_ok_on_iff: "edges_ok gb \<longleftrightarrow> distinct (gb_edges gb) \<and> edges_ok_on gb (set (gb_edges gb))"
  by (auto simp: edges_ok_def edges_ok_on_def)

lemma unindex_edge_on:
  assumes "edges_ok_on gb S" "r \<in> S"
  shows "edges_ok_on (unindex_edge gb r) (S - {r})"
proof -
  have "edge_heap_ok (unindex_edge gb r)" "pmm_gbuf_next_id (unindex_edge gb r) = pmm_gbuf_next_id gb"
    using assms(1) next_id_cong[of "unindex_edge gb r" gb] by (simp_all add: edges_ok_on_def edge_heap_ok_def)
  then show ?thesis
    using assms unindex_edge_keys[of gb S r] unindex_edge_lists[of gb S r] by (auto simp: edges_ok_on_def)
qed

text \<open>An edge the cascade removes.\<close>

definition touches :: "string list \<Rightarrow> gedge \<Rightarrow> bool" where
  "touches deleted e \<longleftrightarrow>
     make_id_key (ge_source_id e) \<in> set deleted \<or> make_id_key (ge_target_id e) \<in> set deleted"

lemma cascade_loop_result:
  "gb_edges (cascade_loop deleted gb kept rs) = kept @ [r \<leftarrow> rs. \<not> touches deleted (edge_at gb r)]"
  "gb_edge_heap (cascade_loop deleted gb kept rs) = gb_edge_heap gb"
  "gb_nodes (cascade_loop deleted gb kept rs) = gb_nodes gb"
  "gb_node_by_qn (cascade_loop deleted gb kept rs) = gb_node_by_qn gb"
  "gb_by_id (cascade_loop deleted gb kept rs) = gb_by_id gb"
  "gb_by_id_cap (cascade_loop deleted gb kept rs) = gb_by_id_cap gb"
  "gb_nodes_by_label (cascade_loop deleted gb kept rs) = gb_nodes_by_label gb"
  "gb_nodes_by_name (cascade_loop deleted gb kept rs) = gb_nodes_by_name gb"
  "gb_next_id (cascade_loop deleted gb kept rs) = gb_next_id gb"
  "gb_shared_ids (cascade_loop deleted gb kept rs) = gb_shared_ids gb"
  by (induction rs arbitrary: gb kept) (simp_all add: touches_def)

lemma cascade_loop_on:
  "edges_ok_on gb (set kept \<union> set rs) \<Longrightarrow> distinct (kept @ rs) \<Longrightarrow>
   edges_ok (cascade_loop deleted gb kept rs)"
proof (induction rs arbitrary: gb kept)
  case Nil
  then show ?case
    by (auto simp: edges_ok_on_iff edges_ok_on_def edge_inv_defs edge_at_def)
next
  case (Cons r rs)
  show ?case
  proof (cases "touches deleted (edge_at gb r)")
    case True
    have "set kept \<union> set (r # rs) - {r} = set kept \<union> set rs"
      using Cons.prems(2) by auto
    then have "edges_ok_on (unindex_edge gb r) (set kept \<union> set rs)"
      using unindex_edge_on[OF Cons.prems(1), of r] by simp
    then show ?thesis
      using Cons.IH[of "unindex_edge gb r" kept] Cons.prems(2) True by (simp add: touches_def)
  next
    case False
    then show ?thesis
      using Cons.IH[of gb "kept @ [r]"] Cons.prems by (simp add: touches_def)
  qed
qed

lemma cascade_delete_ok: "edges_ok gb \<Longrightarrow> edges_ok (cascade_delete_edges gb deleted)"
  unfolding cascade_delete_edges_def by (rule cascade_loop_on) (simp_all add: edges_ok_on_iff)

text \<open>Deleting by type empties the dedup index first and builds the lists again.\<close>

lemma delete_type_loop_result:
  "gb_edges (delete_type_loop ty gb kept rs) = kept @ [r \<leftarrow> rs. ge_type (edge_at gb r) \<noteq> ty]"
  "gb_edge_heap (delete_type_loop ty gb kept rs) = gb_edge_heap gb"
  "gb_nodes (delete_type_loop ty gb kept rs) = gb_nodes gb"
  "gb_node_by_qn (delete_type_loop ty gb kept rs) = gb_node_by_qn gb"
  "gb_by_id (delete_type_loop ty gb kept rs) = gb_by_id gb"
  "gb_by_id_cap (delete_type_loop ty gb kept rs) = gb_by_id_cap gb"
  "gb_nodes_by_label (delete_type_loop ty gb kept rs) = gb_nodes_by_label gb"
  "gb_nodes_by_name (delete_type_loop ty gb kept rs) = gb_nodes_by_name gb"
  "gb_next_id (delete_type_loop ty gb kept rs) = gb_next_id gb"
  "gb_shared_ids (delete_type_loop ty gb kept rs) = gb_shared_ids gb"
  by (induction rs arbitrary: gb kept) (simp_all add: edge_at_def)

lemma delete_type_loop_keys:
  "edge_keys_on gb (set kept \<union> set rs) \<Longrightarrow> distinct (kept @ rs) \<Longrightarrow>
   edge_keys_on (delete_type_loop ty gb kept rs) (set (gb_edges (delete_type_loop ty gb kept rs)))"
proof (induction rs arbitrary: gb kept)
  case Nil
  then show ?case
    by (simp add: edge_keys_on_def edge_at_def)
next
  case (Cons r rs)
  show ?case
  proof (cases "ge_type (edge_at gb r) = ty")
    case True
    let ?g = "gb\<lparr>gb_edge_by_key := ht_delete (gb_edge_by_key gb) (edge_key (edge_at gb r))\<rparr>"
    have "set kept \<union> set (r # rs) - {r} = set kept \<union> set rs"
      using Cons.prems(2) by auto
    then have "edge_keys_on ?g (set kept \<union> set rs)"
      using delete_key_keys[OF Cons.prems(1), of r ?g] by (simp add: edge_at_def fun_eq_iff)
    then show ?thesis
      using Cons.IH[of ?g kept] Cons.prems(2) True by simp
  next
    case False
    then show ?thesis
      using Cons.IH[of gb "kept @ [r]"] Cons.prems by simp
  qed
qed

lemma rebuild_fold:
  "edge_lists_on gb S \<Longrightarrow> distinct rs \<Longrightarrow> set rs \<inter> S = {} \<Longrightarrow>
   edge_lists_on (fold (\<lambda>r g. register_edge_in_indexes g r) rs gb) (S \<union> set rs)"
proof (induction rs arbitrary: gb S)
  case (Cons r rs)
  then show ?case
    using Cons.IH[OF register_edge_lists[OF Cons.prems(1), of r]] by simp
qed simp

lemma register_fold_frame [simp]:
  "gb_edges (fold (\<lambda>r g. register_edge_in_indexes g r) rs gb) = gb_edges gb"
  "gb_edge_heap (fold (\<lambda>r g. register_edge_in_indexes g r) rs gb) = gb_edge_heap gb"
  "gb_edge_by_key (fold (\<lambda>r g. register_edge_in_indexes g r) rs gb) = gb_edge_by_key gb"
  "gb_nodes (fold (\<lambda>r g. register_edge_in_indexes g r) rs gb) = gb_nodes gb"
  "gb_node_by_qn (fold (\<lambda>r g. register_edge_in_indexes g r) rs gb) = gb_node_by_qn gb"
  "gb_by_id (fold (\<lambda>r g. register_edge_in_indexes g r) rs gb) = gb_by_id gb"
  "gb_by_id_cap (fold (\<lambda>r g. register_edge_in_indexes g r) rs gb) = gb_by_id_cap gb"
  "gb_nodes_by_label (fold (\<lambda>r g. register_edge_in_indexes g r) rs gb) = gb_nodes_by_label gb"
  "gb_nodes_by_name (fold (\<lambda>r g. register_edge_in_indexes g r) rs gb) = gb_nodes_by_name gb"
  "gb_next_id (fold (\<lambda>r g. register_edge_in_indexes g r) rs gb) = gb_next_id gb"
  "gb_shared_ids (fold (\<lambda>r g. register_edge_in_indexes g r) rs gb) = gb_shared_ids gb"
  by (induction rs arbitrary: gb) simp_all

lemma edge_at_cong: "gb_edge_heap g = gb_edge_heap h \<Longrightarrow> edge_at g = edge_at h"
  by (simp add: edge_at_def fun_eq_iff)

lemma rebuild_frame:
  "gb_edges (rebuild_edge_secondary_indexes gb) = gb_edges gb"
  "gb_edge_heap (rebuild_edge_secondary_indexes gb) = gb_edge_heap gb"
  "gb_edge_by_key (rebuild_edge_secondary_indexes gb) = gb_edge_by_key gb"
  "gb_nodes (rebuild_edge_secondary_indexes gb) = gb_nodes gb"
  "gb_node_by_qn (rebuild_edge_secondary_indexes gb) = gb_node_by_qn gb"
  "gb_by_id (rebuild_edge_secondary_indexes gb) = gb_by_id gb"
  "gb_by_id_cap (rebuild_edge_secondary_indexes gb) = gb_by_id_cap gb"
  "gb_nodes_by_label (rebuild_edge_secondary_indexes gb) = gb_nodes_by_label gb"
  "gb_nodes_by_name (rebuild_edge_secondary_indexes gb) = gb_nodes_by_name gb"
  "gb_next_id (rebuild_edge_secondary_indexes gb) = gb_next_id gb"
  "gb_shared_ids (rebuild_edge_secondary_indexes gb) = gb_shared_ids gb"
  by (simp_all add: rebuild_edge_secondary_indexes_def)

lemma rebuild_lists:
  "distinct (gb_edges gb) \<Longrightarrow> edge_lists_on (rebuild_edge_secondary_indexes gb) (set (gb_edges gb))"
  unfolding rebuild_edge_secondary_indexes_def
  using rebuild_fold[of "gb\<lparr>gb_edges_by_source_type := [], gb_edges_by_target_type := [], gb_edges_by_type := []\<rparr>"
      "{}" "gb_edges gb"]
  by (simp add: edge_lists_on_def)

lemma delete_edges_by_type_ok:
  assumes ok: "edges_ok gb"
  shows "edges_ok (snd (pmm_gbuf_delete_edges_by_type gb type))"
proof (cases type)
  case None
  then show ?thesis
    using ok by (simp add: pmm_gbuf_delete_edges_by_type_def)
next
  case (Some ty)
  define g where "g = delete_type_loop ty gb [] (gb_edges gb)"
  have E: "gb_edges g = [r \<leftarrow> gb_edges gb. ge_type (edge_at gb r) \<noteq> ty]"
    and H: "gb_edge_heap g = gb_edge_heap gb" and N: "pmm_gbuf_next_id g = pmm_gbuf_next_id gb"
    using next_id_cong[of g gb] by (simp_all add: g_def delete_type_loop_result)
  have A: "edge_at g = edge_at gb"
    by (rule edge_at_cong[OF H])
  have K: "edge_keys_on g (set (gb_edges g))"
    unfolding g_def using delete_type_loop_keys[of gb "[]" "gb_edges gb" ty] ok by (simp add: edges_ok_def)
  have D: "distinct (gb_edges g)"
    using ok by (simp add: E edges_ok_def)
  have A': "edge_at (rebuild_edge_secondary_indexes g) = edge_at gb"
    using A edge_at_cong[OF rebuild_frame(2)[of g]] by simp
  have N': "pmm_gbuf_next_id (rebuild_edge_secondary_indexes g) = pmm_gbuf_next_id gb"
    using N next_id_cong[of "rebuild_edge_secondary_indexes g" g] by (simp add: rebuild_frame)
  have "edge_keys_on (rebuild_edge_secondary_indexes g) (set (gb_edges g))"
    using K by (simp add: edge_keys_on_def rebuild_frame A A')
  moreover have "edge_heap_ok (rebuild_edge_secondary_indexes g)"
    using ok by (simp add: edges_ok_def edge_heap_ok_def rebuild_frame H A' N')
  ultimately have "edges_ok (rebuild_edge_secondary_indexes g)"
    using D ok rebuild_lists[OF D] by (auto simp: edges_ok_def rebuild_frame N' E H)
  then show ?thesis
    by (simp add: pmm_gbuf_delete_edges_by_type_def Some g_def)
qed

end
