(* ===== verification/Gbuf_Node_Facts.thy ===== *)
theory Gbuf_Node_Facts
  imports Gbuf_Edge_Facts
begin

text \<open>
  The node part of the invariant of the graph buffer (src/src/graph_buffer/graph_buffer.c): the
  index by qualified name, the array by id and the lists by label and by name describe exactly
  the nodes that are not deleted, and the upsert, the deletion by file and the copy of a merge
  keep them so.
\<close>

section \<open>The invariant of the nodes\<close>

definition live_refs :: "gbuf \<Rightarrow> nat set" where
  "live_refs gb = {r. r < length (gb_nodes gb) \<and> gn_qualified_name (node_at gb r) \<noteq> None}"

definition node_lists_on :: "gbuf \<Rightarrow> nat set \<Rightarrow> bool" where
  "node_lists_on gb S \<longleftrightarrow>
     indexed_by (gb_nodes_by_label gb) (\<lambda>r. gn_label (node_at gb r)) S \<and>
     indexed_by (gb_nodes_by_name gb) (\<lambda>r. gn_name (node_at gb r)) S"

definition nodes_ok :: "gbuf \<Rightarrow> bool" where
  "nodes_ok gb \<longleftrightarrow>
     ht_wf (gb_node_by_qn gb) \<and>
     (\<forall>q r. ht_get (gb_node_by_qn gb) q = Some r \<longleftrightarrow>
        r < length (gb_nodes gb) \<and> gn_qualified_name (node_at gb r) = Some q) \<and>
     inj_on (\<lambda>r. gn_id (node_at gb r)) {..<length (gb_nodes gb)} \<and>
     (\<forall>r<length (gb_nodes gb). 0 < gn_id (node_at gb r) \<and> gn_id (node_at gb r) < gb_by_id_cap gb) \<and>
     (\<forall>i r. gb_by_id gb i = Some r \<longleftrightarrow> r \<in> live_refs gb \<and> gn_id (node_at gb r) = i) \<and>
     node_lists_on gb (live_refs gb)"

definition ids_below :: "gbuf \<Rightarrow> bool" where
  "ids_below gb \<longleftrightarrow> (\<forall>r<length (gb_nodes gb). gn_id (node_at gb r) < pmm_gbuf_next_id gb)"

definition gbuf_ok :: "gbuf \<Rightarrow> bool" where
  "gbuf_ok gb \<longleftrightarrow> nodes_ok gb \<and> ids_below gb \<and> edges_ok gb"

lemma nodes_okD:
  assumes "nodes_ok gb"
  shows "ht_wf (gb_node_by_qn gb)"
    and "ht_get (gb_node_by_qn gb) q = Some r \<longleftrightarrow>
           r < length (gb_nodes gb) \<and> gn_qualified_name (node_at gb r) = Some q"
    and "inj_on (\<lambda>r. gn_id (node_at gb r)) {..<length (gb_nodes gb)}"
    and "r < length (gb_nodes gb) \<Longrightarrow> 0 < gn_id (node_at gb r) \<and> gn_id (node_at gb r) < gb_by_id_cap gb"
    and "gb_by_id gb i = Some r \<longleftrightarrow> r \<in> live_refs gb \<and> gn_id (node_at gb r) = i"
    and "node_lists_on gb (live_refs gb)"
  using assms by (simp_all add: nodes_ok_def)

lemma node_at_cong: "gb_nodes g = gb_nodes h \<Longrightarrow> node_at g = node_at h"
  by (simp add: node_at_def fun_eq_iff)

text \<open>The invariant reads only the node fields.\<close>

lemma nodes_ok_cong:
  assumes "gb_nodes gb' = gb_nodes gb" "gb_node_by_qn gb' = gb_node_by_qn gb"
    "gb_by_id gb' = gb_by_id gb" "gb_by_id_cap gb' = gb_by_id_cap gb"
    "gb_nodes_by_label gb' = gb_nodes_by_label gb" "gb_nodes_by_name gb' = gb_nodes_by_name gb"
  shows "nodes_ok gb' = nodes_ok gb"
  unfolding nodes_ok_def node_lists_on_def live_refs_def assms node_at_cong[OF assms(1)] ..

lemma live_node_iff:
  "nodes_ok gb \<Longrightarrow> r < length (gb_nodes gb) \<Longrightarrow> live_node gb (node_at gb r) \<longleftrightarrow> r \<in> live_refs gb"
  using nodes_okD(2)[of gb _ r]
  by (auto simp: live_node_def live_refs_def split: option.split)

lemma live_refs_qn:
  "nodes_ok gb \<Longrightarrow> r \<in> live_refs gb \<longleftrightarrow> (\<exists>q. ht_get (gb_node_by_qn gb) q = Some r)"
  by (auto simp: live_refs_def nodes_okD(2))

lemma nodes_ok_new: "nodes_ok (pmm_gbuf_new p q)" "nodes_ok (pmm_gbuf_new_shared_ids p q i)"
  by (simp_all add: nodes_ok_def node_lists_on_def live_refs_def pmm_gbuf_new_def
      pmm_gbuf_new_shared_ids_def Let_def)

section \<open>Adding a node\<close>

lemma by_id_grow_bounds: "0 < nc \<Longrightarrow> i < by_id_grow nc i \<and> nc \<le> by_id_grow nc i"
proof (induction nc i rule: by_id_grow.induct)
  case (1 nc i)
  show ?case
    using 1 by (subst (1 2) by_id_grow.simps) (auto intro: order_trans)
qed

lemma register_node_frame [simp]:
  "gb_nodes (register_node_in_indexes gb r) = gb_nodes gb"
  "gb_edges (register_node_in_indexes gb r) = gb_edges gb"
  "gb_edge_heap (register_node_in_indexes gb r) = gb_edge_heap gb"
  "gb_edge_by_key (register_node_in_indexes gb r) = gb_edge_by_key gb"
  "gb_edges_by_source_type (register_node_in_indexes gb r) = gb_edges_by_source_type gb"
  "gb_edges_by_target_type (register_node_in_indexes gb r) = gb_edges_by_target_type gb"
  "gb_edges_by_type (register_node_in_indexes gb r) = gb_edges_by_type gb"
  "gb_next_id (register_node_in_indexes gb r) = gb_next_id gb"
  "gb_shared_ids (register_node_in_indexes gb r) = gb_shared_ids gb"
  "node_at (register_node_in_indexes gb r) = node_at gb"
  by (simp_all add: register_node_in_indexes_def Let_def node_at_def fun_eq_iff)

lemma register_next_id [simp]: "pmm_gbuf_next_id (register_node_in_indexes gb r) = pmm_gbuf_next_id gb"
  by (rule next_id_cong) simp_all

lemma add_node_ok:
  assumes ok: "nodes_ok gb"
    and n: "gn_qualified_name n = Some q" "0 < gn_id n"
    and fresh: "ht_get (gb_node_by_qn gb) q = None" "\<forall>r<length (gb_nodes gb). gn_id (node_at gb r) \<noteq> gn_id n"
  defines "R \<equiv> length (gb_nodes gb)"
  defines "g \<equiv> register_node_in_indexes (gb\<lparr>gb_nodes := gb_nodes gb @ [n]\<rparr>) R"
  shows "nodes_ok g" "live_refs g = insert R (live_refs gb)" "gb_nodes g = gb_nodes gb @ [n]"
    "ht_get (gb_node_by_qn g) = (ht_get (gb_node_by_qn gb))(q \<mapsto> R)"
proof -
  note D = nodes_okD[OF ok]
  define cap where "cap = (if gb_by_id_cap gb \<le> gn_id n
                 then by_id_grow (if 0 < gb_by_id_cap gb then gb_by_id_cap gb else 1024) (gn_id n)
                 else gb_by_id_cap gb)"
  have cap: "gn_id n < cap" "gb_by_id_cap gb \<le> cap"
    using by_id_grow_bounds[of "if 0 < gb_by_id_cap gb then gb_by_id_cap gb else 1024" "gn_id n"]
    by (auto simp: cap_def split: if_splits)
  have at_new: "node_at (gb\<lparr>gb_nodes := gb_nodes gb @ [n]\<rparr>) R = n"
    by (simp add: node_at_def R_def)
  have at_old: "node_at g x = node_at gb x" if "x < R" for x
    using that by (simp add: g_def) (simp add: node_at_def nth_append R_def)
  have at_R: "node_at g R = n"
    by (simp add: g_def at_new)
  show nodes: "gb_nodes g = gb_nodes gb @ [n]"
    by (simp add: g_def)
  have fields: "gb_node_by_qn g = ht_set (gb_node_by_qn gb) q R"
    "gb_by_id_cap g = cap" "gb_by_id g = (gb_by_id gb)(gn_id n \<mapsto> R)"
    "gb_nodes_by_label g = index_push (gb_nodes_by_label gb) (gn_label n) R"
    "gb_nodes_by_name g = index_push (gb_nodes_by_name gb) (gn_name n) R"
    using n by (simp_all add: g_def register_node_in_indexes_def at_new cap_def Let_def
        by_id_grow_bounds[THEN conjunct1])
  show get: "ht_get (gb_node_by_qn g) = (ht_get (gb_node_by_qn gb))(q \<mapsto> R)"
    by (simp add: fields ht.get_set fun_eq_iff)
  have len: "length (gb_nodes g) = Suc R"
    by (simp add: nodes R_def)
  have below: "x < R" if "x \<in> live_refs gb" for x
    using that by (simp add: live_refs_def R_def)
  show live: "live_refs g = insert R (live_refs gb)"
    using n at_R by (auto simp: live_refs_def len less_Suc_eq at_old R_def[symmetric])
  have Rnew: "R \<notin> live_refs gb"
    using below by blast
  have qn_R: "gn_qualified_name (node_at gb x) \<noteq> Some q" if "x < R" for x
    using D(2)[of q x] fresh(1) that by (simp add: R_def)
  have 1: "ht_get (gb_node_by_qn g) q' = Some r \<longleftrightarrow>
      r < length (gb_nodes g) \<and> gn_qualified_name (node_at g r) = Some q'" for q' r
    using D(2)[of q' r] n(1) qn_R
    by (cases "r = R") (auto simp: get len at_R at_old less_Suc_eq R_def[symmetric])
  have 2: "inj_on (\<lambda>r. gn_id (node_at g r)) {..<length (gb_nodes g)}"
  proof -
    have "inj_on (\<lambda>r. gn_id (node_at g r)) {..<R}"
      using D(3) by (auto simp: inj_on_def at_old R_def[symmetric])
    moreover have "gn_id (node_at g R) \<notin> (\<lambda>r. gn_id (node_at g r)) ` {..<R}"
      using fresh(2) by (auto simp: at_R at_old R_def[symmetric] image_iff)
    ultimately show ?thesis
      by (simp add: len lessThan_Suc)
  qed
  have 3: "\<forall>r<length (gb_nodes g). 0 < gn_id (node_at g r) \<and> gn_id (node_at g r) < gb_by_id_cap g"
    using D(4) n(2) cap by (auto simp: len less_Suc_eq at_R at_old fields R_def[symmetric] intro: less_le_trans)
  have 4: "gb_by_id g i = Some r \<longleftrightarrow> r \<in> live_refs g \<and> gn_id (node_at g r) = i" for i r
  proof (cases "r = R")
    case True
    then show ?thesis
      using Rnew D(5)[of i R] by (auto simp: fields live at_R)
  next
    case False
    then show ?thesis
      using D(5)[of i r] fresh(2) below[of r]
      by (auto simp: fields live at_old R_def[symmetric])
  qed
  have 5: "node_lists_on g (live_refs g)"
  proof -
    have "indexed_by (gb_nodes_by_label gb) (\<lambda>r. gn_label (node_at g r)) (live_refs gb)"
      "indexed_by (gb_nodes_by_name gb) (\<lambda>r. gn_name (node_at g r)) (live_refs gb)"
      using D(6) below at_old by (simp_all add: node_lists_on_def cong: indexed_by_cong)
    then show ?thesis
      unfolding node_lists_on_def live fields
      using Rnew by (auto intro!: indexed_by_push simp: at_R)
  qed
  show "nodes_ok g"
    unfolding nodes_ok_def using 1 2 3 4 5 D(1) by (simp add: fields ht.wf_set)
qed

section \<open>Updating a node\<close>

lemma update_in_place_frame [simp]:
  "gb_node_by_qn (update_in_place gb r l n f s e p) = gb_node_by_qn gb"
  "gb_by_id (update_in_place gb r l n f s e p) = gb_by_id gb"
  "gb_by_id_cap (update_in_place gb r l n f s e p) = gb_by_id_cap gb"
  "gb_edges (update_in_place gb r l n f s e p) = gb_edges gb"
  "gb_edge_heap (update_in_place gb r l n f s e p) = gb_edge_heap gb"
  "gb_edge_by_key (update_in_place gb r l n f s e p) = gb_edge_by_key gb"
  "gb_edges_by_source_type (update_in_place gb r l n f s e p) = gb_edges_by_source_type gb"
  "gb_edges_by_target_type (update_in_place gb r l n f s e p) = gb_edges_by_target_type gb"
  "gb_edges_by_type (update_in_place gb r l n f s e p) = gb_edges_by_type gb"
  "gb_next_id (update_in_place gb r l n f s e p) = gb_next_id gb"
  "gb_shared_ids (update_in_place gb r l n f s e p) = gb_shared_ids gb"
  "length (gb_nodes (update_in_place gb r l n f s e p)) = length (gb_nodes gb)"
  by (simp_all add: update_in_place_def Let_def)

definition updated_node :: "gnode \<Rightarrow> string option \<Rightarrow> string option \<Rightarrow> string option \<Rightarrow> int \<Rightarrow> int \<Rightarrow> string option \<Rightarrow> gnode" where
  "updated_node ex l n f s e p =
     ex\<lparr>gn_label := heap_strdup l, gn_name := heap_strdup n, gn_file_path := heap_strdup f,
        gn_start_line := s, gn_end_line := e,
        gn_properties_json := (case p of Some v \<Rightarrow> v | None \<Rightarrow> gn_properties_json ex)\<rparr>"

lemma gb_intern_strdup: "gb_intern s = heap_strdup s"
  by (simp add: gb_intern_def heap_strdup_def)

lemma update_in_place_at:
  "r < length (gb_nodes gb) \<Longrightarrow> node_at (update_in_place gb r l n f s e p) x =
     (if x = r then updated_node (node_at gb r) l n f s e p else node_at gb x)"
  by (simp add: update_in_place_def updated_node_def node_at_def Let_def gb_intern_strdup nth_list_update)

text \<open>An entry moves to the bucket of its new key.\<close>

lemma indexed_by_move:
  assumes ix: "indexed_by t key live" and inj: "inj_on id_of live" and r: "r \<in> live"
    and key': "\<And>x. x \<in> live \<Longrightarrow> x \<noteq> r \<Longrightarrow> key' x = key x"
  shows "indexed_by (if key r \<noteq> key' r then index_push (index_remove id_of t (key r) (id_of r)) (key' r) r else t)
           key' live"
proof (cases "key r = key' r")
  case True
  then have "key' x = key x" if "x \<in> live" for x
    using key'[OF that] by (cases "x = r") simp_all
  then show ?thesis
    using ix True by (simp cong: indexed_by_cong)
next
  case False
  have "indexed_by (index_remove id_of t (key r) (id_of r)) key (live - {r})"
    by (rule indexed_by_remove[OF ix inj r refl refl])
  then have "indexed_by (index_remove id_of t (key r) (id_of r)) key' (live - {r})"
    using indexed_by_cong[OF refl refl, of "live - {r}" key' key] key' by simp
  from indexed_by_push[OF this, of r "key' r"] show ?thesis
    using False r by (simp add: insert_absorb)
qed

lemma update_in_place_ok:
  assumes ok: "nodes_ok gb" and r: "r \<in> live_refs gb"
  shows "nodes_ok (update_in_place gb r l n f s e p)" (is "nodes_ok ?g")
    and "live_refs (update_in_place gb r l n f s e p) = live_refs gb"
proof -
  note D = nodes_okD[OF ok]
  have len: "r < length (gb_nodes gb)"
    using r by (simp add: live_refs_def)
  note at = update_in_place_at[OF len, of l n f s e p]
  have same: "gn_id (node_at ?g x) = gn_id (node_at gb x)"
    "gn_qualified_name (node_at ?g x) = gn_qualified_name (node_at gb x)" for x
    by (simp_all add: at updated_node_def)
  show live: "live_refs ?g = live_refs gb"
    by (simp add: live_refs_def same)
  have inj: "inj_on (\<lambda>x. gn_id (node_at gb x)) (live_refs gb)"
    using D(3) by (rule inj_on_subset) (auto simp: live_refs_def)
  have by_label: "gb_nodes_by_label ?g = (if gn_label (node_at gb r) \<noteq> gn_label (node_at ?g r)
      then index_push (index_remove (\<lambda>x. gn_id (node_at gb x)) (gb_nodes_by_label gb) (gn_label (node_at gb r))
             (gn_id (node_at gb r))) (gn_label (node_at ?g r)) r
      else gb_nodes_by_label gb)"
    by (simp add: at updated_node_def) (simp add: update_in_place_def Let_def gb_intern_strdup)
  have by_name: "gb_nodes_by_name ?g = (if gn_name (node_at gb r) \<noteq> gn_name (node_at ?g r)
      then index_push (index_remove (\<lambda>x. gn_id (node_at gb x)) (gb_nodes_by_name gb) (gn_name (node_at gb r))
             (gn_id (node_at gb r))) (gn_name (node_at ?g r)) r
      else gb_nodes_by_name gb)"
    by (simp add: at updated_node_def) (simp add: update_in_place_def Let_def gb_intern_strdup)
  have "indexed_by (gb_nodes_by_label ?g) (\<lambda>x. gn_label (node_at ?g x)) (live_refs gb)"
    unfolding by_label
    by (rule indexed_by_move[OF _ inj r, of _ "\<lambda>x. gn_label (node_at gb x)"])
      (use D(6) in \<open>simp_all add: node_lists_on_def at\<close>)
  moreover have "indexed_by (gb_nodes_by_name ?g) (\<lambda>x. gn_name (node_at ?g x)) (live_refs gb)"
    unfolding by_name
    by (rule indexed_by_move[OF _ inj r, of _ "\<lambda>x. gn_name (node_at gb x)"])
      (use D(6) in \<open>simp_all add: node_lists_on_def at\<close>)
  ultimately show "nodes_ok ?g"
    using ok unfolding nodes_ok_def node_lists_on_def same live update_in_place_frame by simp
qed

end
