(* ===== verification/Gbuf_Ops_Facts.thy ===== *)
theory Gbuf_Ops_Facts
  imports Gbuf_Node_Facts
begin

text \<open>
  The operations of the graph buffer (src/src/graph_buffer/graph_buffer.c) against their
  abstract content: the map from qualified names to nodes and the list of live edges.  Each
  operation keeps the invariant, and its effect on the content is written out.
\<close>

section \<open>The abstract content\<close>

definition node_content :: "gbuf \<Rightarrow> string \<Rightarrow> gnode option" where
  "node_content gb q = map_option (node_at gb) (ht_get (gb_node_by_qn gb) q)"

definition edge_content :: "gbuf \<Rightarrow> gedge list" where
  "edge_content gb = map (edge_at gb) (gb_edges gb)"

lemma gbuf_okD:
  assumes "gbuf_ok gb"
  shows "nodes_ok gb" "ids_below gb" "edges_ok gb"
  using assms by (simp_all add: gbuf_ok_def)

lemma ids_below_cong:
  "gb_nodes g = gb_nodes h \<Longrightarrow> pmm_gbuf_next_id h \<le> pmm_gbuf_next_id g \<Longrightarrow> ids_below h \<Longrightarrow> ids_below g"
  using node_at_cong[of g h] by (auto simp: ids_below_def intro: less_le_trans)

lemma gbuf_ok_new: "gbuf_ok (pmm_gbuf_new p q)" "0 < i \<Longrightarrow> gbuf_ok (pmm_gbuf_new_shared_ids p q (Some i))"
  by (simp_all add: gbuf_ok_def nodes_ok_new edges_ok_new ids_below_def)
    (simp_all add: pmm_gbuf_new_def pmm_gbuf_new_shared_ids_def Let_def)

text \<open>The content determines the live nodes, one per qualified name.\<close>

lemma node_content_Some:
  "nodes_ok gb \<Longrightarrow> node_content gb q = Some n \<longleftrightarrow>
     (\<exists>r. r < length (gb_nodes gb) \<and> node_at gb r = n \<and> gn_qualified_name n = Some q)"
  using nodes_okD(2)[of gb q] by (auto simp: node_content_def)

lemma live_nodes_content:
  assumes "nodes_ok gb"
  shows "set [n \<leftarrow> gb_nodes gb. live_node gb n] = ran (node_content gb)"
proof -
  have "n \<in> set [n \<leftarrow> gb_nodes gb. live_node gb n] \<longleftrightarrow> (\<exists>r<length (gb_nodes gb). node_at gb r = n \<and> r \<in> live_refs gb)" for n
    using live_node_iff[OF assms] by (auto simp: in_set_conv_nth node_at_def)
  then show ?thesis
    by (auto simp: ran_def node_content_Some[OF assms] live_refs_def)
qed

section \<open>Upsert\<close>

definition fresh_node :: "int \<Rightarrow> string option \<Rightarrow> string option \<Rightarrow> string \<Rightarrow> string option \<Rightarrow> int \<Rightarrow> int \<Rightarrow> string option \<Rightarrow> gnode" where
  "fresh_node i l n q f s e p =
     \<lparr>gn_id = i, gn_label = heap_strdup l, gn_name = heap_strdup n, gn_qualified_name = Some q,
      gn_file_path = heap_strdup f, gn_start_line = s, gn_end_line = e, gn_properties_json = heap_strdup p\<rparr>"

text \<open>What an upsert leaves under its qualified name.\<close>

definition upsert_result ::
  "gnode option \<Rightarrow> int \<Rightarrow> string option \<Rightarrow> string option \<Rightarrow> string \<Rightarrow> string option \<Rightarrow> int \<Rightarrow> int \<Rightarrow> string option \<Rightarrow> gnode" where
  "upsert_result old i l n q f s e p =
     (case old of
        None \<Rightarrow> fresh_node i l n q f s e p
      | Some ex \<Rightarrow> if module_on_container ex l \<or> 0 < canonical_cmp l n f s ex then ex
                   else updated_node ex l n f s e p)"

lemma upsert_frame:
  assumes "pmm_gbuf_upsert_node gb l n (Some q) f s e p = (i, gb')"
  shows "gb_edges gb' = gb_edges gb \<and> gb_edge_heap gb' = gb_edge_heap gb \<and>
    gb_edge_by_key gb' = gb_edge_by_key gb \<and> gb_edges_by_source_type gb' = gb_edges_by_source_type gb \<and>
    gb_edges_by_target_type gb' = gb_edges_by_target_type gb \<and> gb_edges_by_type gb' = gb_edges_by_type gb \<and>
    pmm_gbuf_next_id gb \<le> pmm_gbuf_next_id gb'"
proof (cases "ht_get (gb_node_by_qn gb) q")
  case None
  obtain j gb1 where al: "alloc_next_id gb = (j, gb1)"
    by fastforce
  show ?thesis
    using assms None alloc_frame[OF al] next_id_alloc[OF al]
    by (auto simp: pmm_gbuf_upsert_node_def al)
next
  case (Some r)
  have "pmm_gbuf_next_id (update_in_place gb r l n f s e p) = pmm_gbuf_next_id gb"
    by (rule next_id_cong) simp_all
  then show ?thesis
    using assms Some by (auto simp: pmm_gbuf_upsert_node_def Let_def split: if_splits)
qed

theorem upsert_node_ok:
  assumes ok: "gbuf_ok gb" and up: "pmm_gbuf_upsert_node gb l n (Some q) f s e p = (i, gb')"
  shows "gbuf_ok gb'"
    and "node_content gb' = (node_content gb)(q \<mapsto> upsert_result (node_content gb q) (pmm_gbuf_next_id gb) l n q f s e p)"
    and "i = gn_id (upsert_result (node_content gb q) (pmm_gbuf_next_id gb) l n q f s e p)"
proof -
  note N = gbuf_okD(1)[OF ok]
  have edges: "edges_ok gb'"
    using upsert_frame[OF up] by (intro edges_ok_cong[of gb' gb, OF _ _ _ _ _ _ _ gbuf_okD(3)[OF ok]]) simp_all
  have "gbuf_ok gb' \<and> node_content gb' = (node_content gb)(q \<mapsto> upsert_result (node_content gb q) (pmm_gbuf_next_id gb) l n q f s e p) \<and>
    i = gn_id (upsert_result (node_content gb q) (pmm_gbuf_next_id gb) l n q f s e p)"
  proof (cases "ht_get (gb_node_by_qn gb) q")
    case None
    obtain j gb1 where al: "alloc_next_id gb = (j, gb1)"
      by fastforce
    note F = alloc_frame[OF al] and J = next_id_alloc[OF al]
    let ?n = "fresh_node j l n q f s e p"
    have gb': "gb' = register_node_in_indexes (gb1\<lparr>gb_nodes := gb_nodes gb1 @ [?n]\<rparr>) (length (gb_nodes gb1))"
      and i: "i = j"
      using up None by (auto simp: pmm_gbuf_upsert_node_def al fresh_node_def gb_intern_strdup)
    have N1: "nodes_ok gb1"
      using N F nodes_ok_cong[of gb1 gb] by simp
    have at1: "node_at gb1 = node_at gb"
      using F by (intro node_at_cong) simp
    have nid: "pmm_gbuf_next_id gb' = pmm_gbuf_next_id gb + 1"
      using J by (simp add: gb')
    have fresh: "\<forall>r<length (gb_nodes gb1). gn_id (node_at gb1 r) \<noteq> gn_id ?n"
      using gbuf_okD(2)[OF ok] F J by (auto simp: ids_below_def at1 fresh_node_def)
    have pos: "0 < gn_id ?n"
      using gbuf_okD(3)[OF ok] J by (simp add: fresh_node_def edges_ok_def)
    have q1: "gn_qualified_name ?n = Some q" "ht_get (gb_node_by_qn gb1) q = None"
      using None F by (simp_all add: fresh_node_def)
    note A = add_node_ok[OF N1 q1(1) pos q1(2) fresh, folded gb']
    have at': "node_at gb' r = (if r = length (gb_nodes gb) then ?n else node_at gb r)" if "r \<le> length (gb_nodes gb)" for r
      using A(3) F that by (auto simp: node_at_def nth_append)
    have below: "ids_below gb'"
      using gbuf_okD(2)[OF ok] F J A(3) by (auto simp: ids_below_def nid at' less_Suc_eq fresh_node_def)
    have dom: "r < length (gb_nodes gb)" if "ht_get (gb_node_by_qn gb) x = Some r" for x r
      using that nodes_okD(2)[OF N] by simp
    have content: "node_content gb' = (node_content gb)(q \<mapsto> ?n)"
    proof
      fix x
      show "node_content gb' x = ((node_content gb)(q \<mapsto> ?n)) x"
      proof (cases "x = q")
        case True
        then show ?thesis
          using A(4) F by (simp add: node_content_def at')
      next
        case False
        then show ?thesis
          using A(4) F dom[of x] at' by (cases "ht_get (gb_node_by_qn gb) x") (auto simp: node_content_def)
      qed
    qed
    show ?thesis
      using A(1) below edges content i J None
      by (simp add: gbuf_ok_def upsert_result_def node_content_def) (simp add: fresh_node_def)
  next
    case (Some r)
    have r: "r \<in> live_refs gb"
      using live_refs_qn[OF N] Some by blast
    have len: "r < length (gb_nodes gb)"
      using r by (simp add: live_refs_def)
    have old: "node_content gb q = Some (node_at gb r)"
      by (simp add: node_content_def Some)
    show ?thesis
    proof (cases "module_on_container (node_at gb r) l \<or> 0 < canonical_cmp l n f s (node_at gb r)")
      case True
      then have "gb' = gb" "i = gn_id (node_at gb r)"
        using up Some by (auto simp: pmm_gbuf_upsert_node_def Let_def split: if_splits)
      then show ?thesis
        using ok old True by (simp add: upsert_result_def fun_upd_idem)
    next
      case False
      let ?g = "update_in_place gb r l n f s e p"
      have gb': "gb' = ?g" "i = gn_id (node_at gb r)"
        using up Some False by (auto simp: pmm_gbuf_upsert_node_def Let_def)
      note U = update_in_place_ok[OF N r, of l n f s e p] and at = update_in_place_at[OF len, of l n f s e p]
      have nid: "pmm_gbuf_next_id ?g = pmm_gbuf_next_id gb"
        by (rule next_id_cong) simp_all
      have below: "ids_below ?g"
        using gbuf_okD(2)[OF ok] by (simp add: ids_below_def nid at updated_node_def)
      have inj: "x = q" if "ht_get (gb_node_by_qn gb) x = Some r" for x
        using that Some nodes_okD(2)[OF N] by simp
      have content: "node_content ?g = (node_content gb)(q \<mapsto> updated_node (node_at gb r) l n f s e p)"
      proof
        fix x
        show "node_content ?g x = ((node_content gb)(q \<mapsto> updated_node (node_at gb r) l n f s e p)) x"
          using inj[of x] Some by (cases "ht_get (gb_node_by_qn gb) x") (auto simp: node_content_def at)
      qed
      show ?thesis
        using U(1) below edges content old False
        by (simp add: gbuf_ok_def gb' upsert_result_def) (simp add: updated_node_def)
    qed
  qed
  then show "gbuf_ok gb'"
    and "node_content gb' = (node_content gb)(q \<mapsto> upsert_result (node_content gb q) (pmm_gbuf_next_id gb) l n q f s e p)"
    and "i = gn_id (upsert_result (node_content gb q) (pmm_gbuf_next_id gb) l n q f s e p)"
    by simp_all
qed

lemma upsert_node_NULL: "pmm_gbuf_upsert_node gb l n None f s e p = (0, gb)"
  by (simp add: pmm_gbuf_upsert_node_def)

text \<open>In one lemma for both: the invariant survives any upsert.\<close>

lemma upsert_gbuf_ok: "gbuf_ok gb \<Longrightarrow> gbuf_ok (snd (pmm_gbuf_upsert_node gb l n q f s e p))"
  using upsert_node_ok(1)[of gb l n _ f s e p] by (cases q) (auto simp: upsert_node_NULL intro: prod.collapse[symmetric])

end
