(* ===== verification/Gbuf_Delete_Facts.thy ===== *)
theory Gbuf_Delete_Facts
  imports Gbuf_Ops_Facts
begin

text \<open>
  Deletion by file and edge insertion in the graph buffer
  (src/src/graph_buffer/graph_buffer.c): the invariant and the exact effect on the content.
\<close>

section \<open>One node of the file\<close>

lemma file_node_to_delete_iff:
  "nodes_ok gb \<Longrightarrow> r < length (gb_nodes gb) \<Longrightarrow>
   file_node_to_delete gb f r \<longleftrightarrow> r \<in> live_refs gb \<and> gn_file_path (node_at gb r) = f"
  using nodes_okD(2)[of gb _ r]
  by (auto simp: file_node_to_delete_def live_refs_def split: option.split)

lemma remove_file_node_frame [simp]:
  "gb_edges (remove_file_node gb r) = gb_edges gb"
  "gb_edge_heap (remove_file_node gb r) = gb_edge_heap gb"
  "gb_edge_by_key (remove_file_node gb r) = gb_edge_by_key gb"
  "gb_edges_by_source_type (remove_file_node gb r) = gb_edges_by_source_type gb"
  "gb_edges_by_target_type (remove_file_node gb r) = gb_edges_by_target_type gb"
  "gb_edges_by_type (remove_file_node gb r) = gb_edges_by_type gb"
  "gb_next_id (remove_file_node gb r) = gb_next_id gb"
  "gb_shared_ids (remove_file_node gb r) = gb_shared_ids gb"
  "gb_by_id_cap (remove_file_node gb r) = gb_by_id_cap gb"
  "length (gb_nodes (remove_file_node gb r)) = length (gb_nodes gb)"
  by (simp_all add: remove_file_node_def Let_def)

lemma remove_file_node_at:
  "r < length (gb_nodes gb) \<Longrightarrow> node_at (remove_file_node gb r) x =
     (if x = r then (node_at gb r)\<lparr>gn_qualified_name := None\<rparr> else node_at gb x)"
  by (simp add: remove_file_node_def node_at_def Let_def nth_list_update)

lemma remove_file_node_ok:
  assumes ok: "nodes_ok gb" and r: "r \<in> live_refs gb"
  shows "nodes_ok (remove_file_node gb r)" (is "nodes_ok ?g")
    and "live_refs (remove_file_node gb r) = live_refs gb - {r}"
    and "ht_get (gb_node_by_qn (remove_file_node gb r)) q =
           (if gn_qualified_name (node_at gb r) = Some q then None else ht_get (gb_node_by_qn gb) q)"
proof -
  note D = nodes_okD[OF ok]
  have len: "r < length (gb_nodes gb)"
    using r by (simp add: live_refs_def)
  note at = remove_file_node_at[OF len]
  obtain qn where qn: "gn_qualified_name (node_at gb r) = Some qn"
    using r by (auto simp: live_refs_def)
  have same: "gn_id (node_at ?g x) = gn_id (node_at gb x)" "gn_label (node_at ?g x) = gn_label (node_at gb x)"
    "gn_name (node_at ?g x) = gn_name (node_at gb x)" for x
    by (simp_all add: at)
  have fields: "gb_node_by_qn ?g = ht_delete (gb_node_by_qn gb) qn"
    "gb_by_id ?g = (gb_by_id gb)(gn_id (node_at gb r) := None)"
    using D(4)[OF len] qn by (simp_all add: remove_file_node_def Let_def)
  have get: "ht_get (gb_node_by_qn ?g) q = (if gn_qualified_name (node_at gb r) = Some q then None
      else ht_get (gb_node_by_qn gb) q)" for q
    by (auto simp: fields ht.get_del[OF D(1)] qn)
  then show "ht_get (gb_node_by_qn ?g) q = (if gn_qualified_name (node_at gb r) = Some q then None
      else ht_get (gb_node_by_qn gb) q)" .
  show live: "live_refs ?g = live_refs gb - {r}"
    by (auto simp: live_refs_def at)
  have inj: "inj_on (\<lambda>x. gn_id (node_at gb x)) (live_refs gb)"
    using D(3) by (rule inj_on_subset) (auto simp: live_refs_def)
  have uniq: "x = r" if "x < length (gb_nodes gb)" "gn_qualified_name (node_at gb x) = Some qn" for x
    using that D(2)[of qn x] D(2)[of qn r] qn len by simp
  have idx: "x = r" if "x \<in> live_refs gb" "gn_id (node_at gb x) = gn_id (node_at gb r)" for x
    using inj that r by (auto dest: inj_onD)
  have 1: "ht_get (gb_node_by_qn ?g) q' = Some x \<longleftrightarrow>
      x < length (gb_nodes ?g) \<and> gn_qualified_name (node_at ?g x) = Some q'" for q' x
  proof (cases "x = r")
    case True
    then show ?thesis
      using D(2)[of q' r] qn len by (simp add: get at)
  next
    case False
    have "gn_qualified_name (node_at gb x) \<noteq> Some q'" if "x < length (gb_nodes gb)" "q' = qn"
      using uniq[OF that(1)] that(2) False by blast
    then show ?thesis
      using D(2)[of q' x] False qn by (auto simp: get at)
  qed
  have 2: "gb_by_id ?g i = Some x \<longleftrightarrow> x \<in> live_refs ?g \<and> gn_id (node_at ?g x) = i" for i x
    using D(5)[of i x] idx[of x] by (auto simp: fields live same)
  have lists: "gb_nodes_by_label ?g = index_remove (\<lambda>x. gn_id (node_at gb x)) (gb_nodes_by_label gb)
        (gn_label (node_at gb r)) (gn_id (node_at gb r))"
    "gb_nodes_by_name ?g = index_remove (\<lambda>x. gn_id (node_at gb x)) (gb_nodes_by_name gb)
        (gn_name (node_at gb r)) (gn_id (node_at gb r))"
    by (simp_all add: remove_file_node_def Let_def)
  have 3: "node_lists_on ?g (live_refs ?g)"
    using D(6) unfolding node_lists_on_def live same lists
    by (auto intro: indexed_by_remove[OF _ inj r refl refl])
  have 4: "ht_wf (gb_node_by_qn ?g)"
    by (simp only: fields ht.wf_del[OF D(1)])
  have 5: "inj_on (\<lambda>x. gn_id (node_at ?g x)) {..<length (gb_nodes ?g)}"
    "\<forall>x<length (gb_nodes ?g). 0 < gn_id (node_at ?g x) \<and> gn_id (node_at ?g x) < gb_by_id_cap ?g"
    using D(3,4) by (simp_all add: same)
  show "nodes_ok ?g"
    unfolding nodes_ok_def using 5(2) by (intro conjI allI 1 2 3 4 5(1)) simp
qed

section \<open>The loop over the nodes\<close>

definition file_refs :: "gbuf \<Rightarrow> string \<Rightarrow> nat set" where
  "file_refs gb f = {r \<in> live_refs gb. gn_file_path (node_at gb r) = f}"

lemma delete_file_loop_result:
  assumes "nodes_ok gb" "distinct rs" "set rs \<subseteq> {..<length (gb_nodes gb)}"
    and "delete_file_loop f gb del rs = (gb', del')"
  shows "nodes_ok gb' \<and> live_refs gb' = live_refs gb - (file_refs gb f \<inter> set rs) \<and>
    (\<forall>x. node_at gb' x = (if x \<in> file_refs gb f \<inter> set rs
       then (node_at gb x)\<lparr>gn_qualified_name := None\<rparr> else node_at gb x)) \<and>
    set del' = set del \<union> (\<lambda>x. make_id_key (gn_id (node_at gb x))) ` (file_refs gb f \<inter> set rs) \<and>
    length del' = length del + card (file_refs gb f \<inter> set rs) \<and>
    length (gb_nodes gb') = length (gb_nodes gb) \<and>
    gb_edges gb' = gb_edges gb \<and> gb_edge_heap gb' = gb_edge_heap gb \<and> gb_edge_by_key gb' = gb_edge_by_key gb \<and>
    gb_edges_by_source_type gb' = gb_edges_by_source_type gb \<and>
    gb_edges_by_target_type gb' = gb_edges_by_target_type gb \<and> gb_edges_by_type gb' = gb_edges_by_type gb \<and>
    gb_next_id gb' = gb_next_id gb \<and> gb_shared_ids gb' = gb_shared_ids gb"
  using assms
proof (induction rs arbitrary: gb del)
  case Nil
  then show ?case
    by simp
next
  case (Cons r rs)
  have len: "r < length (gb_nodes gb)" and notin: "r \<notin> set rs" "distinct rs"
    and sub: "set rs \<subseteq> {..<length (gb_nodes gb)}"
    using Cons.prems(2,3) by auto
  show ?case
  proof (cases "file_node_to_delete gb f r")
    case True
    then have r: "r \<in> live_refs gb" "gn_file_path (node_at gb r) = f"
      using file_node_to_delete_iff[OF Cons.prems(1) len] by simp_all
    let ?g = "remove_file_node gb r"
    note R = remove_file_node_ok[OF Cons.prems(1) r(1)] and at = remove_file_node_at[OF len]
    have files: "file_refs ?g f = file_refs gb f - {r}"
      by (auto simp: file_refs_def R(2) at)
    have split: "file_refs gb f \<inter> set (r # rs) = insert r (file_refs ?g f \<inter> set rs)"
      using r notin by (auto simp: files) (simp add: file_refs_def)
    have fin: "finite (file_refs ?g f \<inter> set rs)" "r \<notin> file_refs ?g f \<inter> set rs"
      using notin by simp_all
    have loop: "delete_file_loop f ?g (make_id_key (gn_id (node_at gb r)) # del) rs = (gb', del')"
      using Cons.prems(4) True by simp
    note IH = Cons.IH[OF R(1) notin(2) _ loop]
    have IH: "nodes_ok gb'" "live_refs gb' = live_refs ?g - (file_refs ?g f \<inter> set rs)"
      "\<forall>x. node_at gb' x = (if x \<in> file_refs ?g f \<inter> set rs
         then (node_at ?g x)\<lparr>gn_qualified_name := None\<rparr> else node_at ?g x)"
      "set del' = set (make_id_key (gn_id (node_at gb r)) # del) \<union>
         (\<lambda>x. make_id_key (gn_id (node_at ?g x))) ` (file_refs ?g f \<inter> set rs)"
      "length del' = length (make_id_key (gn_id (node_at gb r)) # del) + card (file_refs ?g f \<inter> set rs)"
      "length (gb_nodes gb') = length (gb_nodes ?g)" "gb_edges gb' = gb_edges ?g"
      "gb_edge_heap gb' = gb_edge_heap ?g" "gb_edge_by_key gb' = gb_edge_by_key ?g"
      "gb_edges_by_source_type gb' = gb_edges_by_source_type ?g"
      "gb_edges_by_target_type gb' = gb_edges_by_target_type ?g" "gb_edges_by_type gb' = gb_edges_by_type ?g"
      "gb_next_id gb' = gb_next_id ?g" "gb_shared_ids gb' = gb_shared_ids ?g"
      using IH sub by simp_all
    have "gn_id (node_at ?g x) = gn_id (node_at gb x)" for x
      by (simp add: at)
    then have "set del' = set del \<union> (\<lambda>x. make_id_key (gn_id (node_at gb x))) ` (file_refs gb f \<inter> set (r # rs))"
      unfolding split using IH(4) by simp
    moreover have "length del' = length del + card (file_refs gb f \<inter> set (r # rs))"
      unfolding split using IH(5) fin by simp
    moreover have "live_refs gb' = live_refs gb - (file_refs gb f \<inter> set (r # rs))"
      unfolding split using IH(2) R(2) by auto
    moreover have "\<forall>x. node_at gb' x = (if x \<in> file_refs gb f \<inter> set (r # rs)
        then (node_at gb x)\<lparr>gn_qualified_name := None\<rparr> else node_at gb x)"
      unfolding split using IH(3) fin(2) by (auto simp: at)
    ultimately show ?thesis
      using IH by simp
  next
    case False
    then have "r \<notin> file_refs gb f"
      using file_node_to_delete_iff[OF Cons.prems(1) len] by (simp add: file_refs_def)
    then have "file_refs gb f \<inter> set (r # rs) = file_refs gb f \<inter> set rs"
      by auto
    then show ?thesis
      using Cons.IH[OF Cons.prems(1) notin(2) sub, of del] Cons.prems(4) False by simp
  qed
qed

section \<open>Deletion by file\<close>

lemma cascade_frame:
  "gb_nodes (cascade_delete_edges gb d) = gb_nodes gb" "gb_node_by_qn (cascade_delete_edges gb d) = gb_node_by_qn gb"
  "gb_by_id (cascade_delete_edges gb d) = gb_by_id gb" "gb_by_id_cap (cascade_delete_edges gb d) = gb_by_id_cap gb"
  "gb_nodes_by_label (cascade_delete_edges gb d) = gb_nodes_by_label gb"
  "gb_nodes_by_name (cascade_delete_edges gb d) = gb_nodes_by_name gb"
  "gb_next_id (cascade_delete_edges gb d) = gb_next_id gb"
  "gb_shared_ids (cascade_delete_edges gb d) = gb_shared_ids gb"
  "gb_edge_heap (cascade_delete_edges gb d) = gb_edge_heap gb"
  "gb_edges (cascade_delete_edges gb d) = [r \<leftarrow> gb_edges gb. \<not> touches d (edge_at gb r)]"
  by (simp_all add: cascade_delete_edges_def cascade_loop_result)

lemma cascade_content: "edge_content (cascade_delete_edges gb d) = [e \<leftarrow> edge_content gb. \<not> touches d e]"
  by (simp add: edge_content_def cascade_frame filter_map comp_def edge_at_cong[OF cascade_frame(9)])

text \<open>The ids of the live nodes of a file.\<close>

definition file_ids :: "gbuf \<Rightarrow> string \<Rightarrow> int set" where
  "file_ids gb f = {gn_id n |n q. node_content gb q = Some n \<and> gn_file_path n = f}"

lemma file_ids_refs: "nodes_ok gb \<Longrightarrow> file_ids gb f = (\<lambda>x. gn_id (node_at gb x)) ` file_refs gb f"
  by (auto simp: file_ids_def file_refs_def live_refs_def node_content_Some)

theorem delete_by_file_result:
  assumes ok: "gbuf_ok gb" and small: "pmm_gbuf_next_id gb \<le> LONG_MAX"
    and del: "pmm_gbuf_delete_by_file gb (Some f) = (k, gb')"
  shows "gbuf_ok gb'"
    and "k = int (card (file_ids gb f))"
    and "node_content gb' q = (case node_content gb q of
           Some n \<Rightarrow> if gn_file_path n = f then None else Some n | None \<Rightarrow> None)"
    and "edge_content gb' = [e \<leftarrow> edge_content gb. ge_source_id e \<notin> file_ids gb f \<and> ge_target_id e \<notin> file_ids gb f]"
proof -
  note N = gbuf_okD(1)[OF ok]
  obtain g d where loop: "delete_file_loop f gb [] [0..<length (gb_nodes gb)] = (g, d)"
    by fastforce
  have full: "file_refs gb f \<inter> set [0..<length (gb_nodes gb)] = file_refs gb f"
    by (auto simp: file_refs_def live_refs_def)
  have L: "nodes_ok g" "live_refs g = live_refs gb - file_refs gb f"
    "node_at g x = (if x \<in> file_refs gb f then (node_at gb x)\<lparr>gn_qualified_name := None\<rparr> else node_at gb x)"
    "set d = (\<lambda>x. make_id_key (gn_id (node_at gb x))) ` file_refs gb f"
    "length d = card (file_refs gb f)" "length (gb_nodes g) = length (gb_nodes gb)"
    "gb_edges g = gb_edges gb" "gb_edge_heap g = gb_edge_heap gb" "gb_edge_by_key g = gb_edge_by_key gb"
    "gb_edges_by_source_type g = gb_edges_by_source_type gb"
    "gb_edges_by_target_type g = gb_edges_by_target_type gb" "gb_edges_by_type g = gb_edges_by_type gb"
    "gb_next_id g = gb_next_id gb" "gb_shared_ids g = gb_shared_ids gb" for x
    using delete_file_loop_result[OF N _ _ loop] unfolding full by (simp_all add: subset_eq)
  have nid: "pmm_gbuf_next_id g = pmm_gbuf_next_id gb"
    using L by (intro next_id_cong)
  have E: "edges_ok g"
    by (rule edges_ok_cong[of g gb]) (use L nid gbuf_okD(3)[OF ok] in simp_all)
  have B: "ids_below g"
    using gbuf_okD(2)[OF ok] L(3,6) by (simp add: ids_below_def nid)
  have gb': "gb' = (if d = [] then g else cascade_delete_edges g d)" and k: "k = int (length d)"
    using del loop by (auto simp: pmm_gbuf_delete_by_file_def split: if_splits)
  have card: "card (file_ids gb f) = card (file_refs gb f)"
    unfolding file_ids_refs[OF N]
    by (rule card_image, rule inj_on_subset[OF nodes_okD(3)[OF N]]) (auto simp: file_refs_def live_refs_def)
  show "k = int (card (file_ids gb f))"
    by (simp add: k L(5) card)
  have nodes_cascade: "nodes_ok (cascade_delete_edges g d)"
    using nodes_ok_cong[of "cascade_delete_edges g d" g] L(1) by (simp add: cascade_frame)
  have "ids_below (cascade_delete_edges g d)"
    using next_id_cong[of "cascade_delete_edges g d" g]
    by (intro ids_below_cong[OF _ _ B]) (simp_all only: cascade_frame order_refl)
  then show "gbuf_ok gb'"
    using L(1) B E nodes_cascade cascade_delete_ok[OF E, of d] by (simp add: gb' gbuf_ok_def)
  have content: "node_content gb' = node_content g"
    by (simp add: gb' node_content_def cascade_frame node_at_cong[of "cascade_delete_edges g d" g] fun_eq_iff)
  have iff: "node_content g q = Some n \<longleftrightarrow> node_content gb q = Some n \<and> gn_file_path n \<noteq> f" for n
    unfolding node_content_Some[OF L(1)] node_content_Some[OF N]
    using L(3,6) by (auto simp: file_refs_def live_refs_def split: if_splits)
  show "node_content gb' q = (case node_content gb q of
           Some n \<Rightarrow> if gn_file_path n = f then None else Some n | None \<Rightarrow> None)"
  proof (cases "\<exists>n. node_content gb q = Some n \<and> gn_file_path n \<noteq> f")
    case True
    then show ?thesis
      using iff unfolding content by auto
  next
    case False
    then have "node_content g q = None"
      using iff by (meson not_None_eq)
    then show ?thesis
      using False unfolding content by (auto split: option.split)
  qed
  have ids: "id64 i" if i: "i \<in> file_ids gb f" for i
  proof -
    obtain r where r: "r < length (gb_nodes gb)" "i = gn_id (node_at gb r)"
      using i unfolding file_ids_refs[OF N] by (auto simp: file_refs_def live_refs_def)
    then have "0 < i" "i < pmm_gbuf_next_id gb"
      using nodes_okD(4)[OF N r(1)] gbuf_okD(2)[OF ok] by (simp_all add: ids_below_def)
    then show ?thesis
      using small by (simp add: id64_def)
  qed
  have "touches d e \<longleftrightarrow> ge_source_id e \<in> file_ids gb f \<or> ge_target_id e \<in> file_ids gb f"
    if e: "e \<in> set (edge_content gb)" for e
  proof -
    have wf: "id64 (ge_source_id e)" "id64 (ge_target_id e)"
      using e gbuf_okD(3)[OF ok] by (auto simp: edge_content_def edges_ok_def edge_heap_ok_def edge_wf_def)
    have "make_id_key i \<in> set d \<longleftrightarrow> i \<in> file_ids gb f" if "id64 i" for i
      using that ids make_id_key_inj unfolding L(4) file_ids_refs[OF N] by (auto simp: image_iff)
    then show ?thesis
      using wf by (simp add: touches_def)
  qed
  moreover have "edge_content g = edge_content gb"
    using L(7) edge_at_cong[OF L(8)] by (simp add: edge_content_def)
  then have "edge_content gb' = [e \<leftarrow> edge_content gb. \<not> touches d e]"
    by (cases "d = []") (simp_all add: gb' cascade_content touches_def)
  ultimately show "edge_content gb' = [e \<leftarrow> edge_content gb. ge_source_id e \<notin> file_ids gb f \<and> ge_target_id e \<notin> file_ids gb f]"
    by (auto intro!: filter_cong)
qed

end
