(* ===== verification/Gbuf_Merge_Facts.thy ===== *)
theory Gbuf_Merge_Facts
  imports Gbuf_Delete_Facts
begin

text \<open>
  Edge insertion and the merge of a worker's buffer (src/src/graph_buffer/graph_buffer.c): the
  effect on the set of edges, and the merge as a map of qualified names and a renaming of ids.
\<close>

section \<open>Inserting an edge\<close>

definition edge_map :: "gbuf \<Rightarrow> string \<Rightarrow> gedge option" where
  "edge_map gb k = map_option (edge_at gb) (ht_get (gb_edge_by_key gb) k)"

definition insert_result :: "gedge option \<Rightarrow> int \<Rightarrow> int \<Rightarrow> int \<Rightarrow> string \<Rightarrow> string option \<Rightarrow> gedge" where
  "insert_result old i src tgt ty p =
     (case old of
        None \<Rightarrow> \<lparr>ge_id = i, ge_source_id = src, ge_target_id = tgt, ge_type = ty,
                 ge_properties_json = heap_strdup p\<rparr>
      | Some e \<Rightarrow> (case p of
                     Some v \<Rightarrow> if v \<noteq> ''{}'' then e\<lparr>ge_properties_json := v\<rparr> else e
                   | None \<Rightarrow> e))"

lemma edge_map_content: "edges_ok gb \<Longrightarrow> ran (edge_map gb) = set (edge_content gb)"
  unfolding edges_ok_def edge_keys_on_def ran_def edge_map_def edge_content_def by auto

lemma edge_map_key: "edges_ok gb \<Longrightarrow> edge_map gb k = Some e \<longleftrightarrow> e \<in> set (edge_content gb) \<and> edge_key e = k"
  unfolding edges_ok_def edge_keys_on_def edge_map_def edge_content_def by auto

lemma alloc_shared: "alloc_next_id gb = (i, gb1) \<Longrightarrow> gb_shared_ids gb = None \<Longrightarrow> gb_shared_ids gb1 = None"
  by (auto simp: alloc_next_id_def)

lemma insert_edge_nodes:
  assumes "pmm_gbuf_insert_edge gb src tgt type p = (i, gb')"
  shows "gb_nodes gb' = gb_nodes gb \<and> gb_node_by_qn gb' = gb_node_by_qn gb \<and> gb_by_id gb' = gb_by_id gb \<and>
    gb_by_id_cap gb' = gb_by_id_cap gb \<and> gb_nodes_by_label gb' = gb_nodes_by_label gb \<and>
    gb_nodes_by_name gb' = gb_nodes_by_name gb \<and> pmm_gbuf_next_id gb \<le> pmm_gbuf_next_id gb' \<and>
    (gb_shared_ids gb = None \<longrightarrow> gb_shared_ids gb' = None)"
proof (cases type)
  case None
  then show ?thesis
    using assms by (simp add: pmm_gbuf_insert_edge_def)
next
  case (Some ty)
  show ?thesis
  proof (cases "ht_get (gb_edge_by_key gb) (make_edge_key src tgt ty p)")
    case None
    obtain j gb1 where al: "alloc_next_id gb = (j, gb1)"
      by fastforce
    show ?thesis
      using assms None alloc_frame[OF al] next_id_alloc[OF al] alloc_shared[OF al] Some
      by (auto simp: pmm_gbuf_insert_edge_def al Let_def next_id_cong[of "register_edge_in_indexes _ _"])
  next
    case (Some r)
    then show ?thesis
      using assms \<open>type = Some ty\<close>
      by (auto simp: pmm_gbuf_insert_edge_def Let_def split: option.splits if_splits)
  qed
qed

lemma node_content_cong:
  "gb_nodes g = gb_nodes h \<Longrightarrow> gb_node_by_qn g = gb_node_by_qn h \<Longrightarrow> node_content g = node_content h"
  by (rule ext) (simp only: node_content_def node_at_cong[of g h])

lemma insert_edge_gbuf_ok:
  assumes ok: "gbuf_ok gb" and wf: "id64 src" "id64 tgt" "type_ok ty"
    and ins: "pmm_gbuf_insert_edge gb src tgt (Some ty) p = (i, gb')"
  shows "gbuf_ok gb'" "node_content gb' = node_content gb"
proof -
  note F = insert_edge_nodes[OF ins]
  have "edges_ok gb'"
    using insert_edge_ok[OF gbuf_okD(3)[OF ok] wf, of p] ins by simp
  moreover have "nodes_ok gb'"
    using F nodes_ok_cong[of gb' gb] gbuf_okD(1)[OF ok] by simp
  moreover have "ids_below gb'"
    using F gbuf_okD(2)[OF ok] by (intro ids_below_cong[of gb' gb]) simp_all
  ultimately show "gbuf_ok gb'"
    by (simp add: gbuf_ok_def)
  show "node_content gb' = node_content gb"
    using F by (intro node_content_cong) simp_all
qed

theorem insert_edge_content:
  assumes ok: "edges_ok gb" and wf: "id64 src" "id64 tgt" "type_ok ty"
    and ins: "pmm_gbuf_insert_edge gb src tgt (Some ty) p = (i, gb')"
  defines "k \<equiv> make_edge_key src tgt ty p"
  defines "e \<equiv> insert_result (edge_map gb k) (pmm_gbuf_next_id gb) src tgt ty p"
  shows "edge_map gb' = (edge_map gb)(k \<mapsto> e)" "i = ge_id e"
    "ge_source_id e = src \<and> ge_target_id e = tgt \<and> ge_type e = ty"
proof -
  have dom: "r < length (gb_edge_heap gb)" if "ht_get (gb_edge_by_key gb) x = Some r" for x r
    using ok that by (auto simp: edges_ok_def edge_keys_on_def)
  have "edge_map gb' = (edge_map gb)(k \<mapsto> e) \<and> i = ge_id e \<and>
    ge_source_id e = src \<and> ge_target_id e = tgt \<and> ge_type e = ty"
  proof (cases "ht_get (gb_edge_by_key gb) k")
    case None
    obtain j gb1 where al: "alloc_next_id gb = (j, gb1)"
      by fastforce
    note F = alloc_frame[OF al] and J = next_id_alloc[OF al]
    have e: "e = \<lparr>ge_id = j, ge_source_id = src, ge_target_id = tgt, ge_type = ty, ge_properties_json = heap_strdup p\<rparr>"
      using None J by (simp add: e_def insert_result_def edge_map_def)
    have heap: "gb_edge_heap gb' = gb_edge_heap gb @ [e]"
      and keys: "gb_edge_by_key gb' = ht_set (gb_edge_by_key gb) k (length (gb_edge_heap gb))" and i: "i = j"
      using ins None F by (auto simp: pmm_gbuf_insert_edge_def al e Let_def k_def)
    have at: "edge_at gb' r = (if r = length (gb_edge_heap gb) then e else edge_at gb r)" if "r \<le> length (gb_edge_heap gb)" for r
      using that by (simp add: edge_at_def heap nth_append)
    have "edge_map gb' x = ((edge_map gb)(k \<mapsto> e)) x" for x
      using dom[of x] at by (cases "ht_get (gb_edge_by_key gb) x") (auto simp: edge_map_def keys ht.get_set)
    then show ?thesis
      by (auto simp: fun_eq_iff i e)
  next
    case (Some r)
    note L = edge_key_lookup[OF ok Some[unfolded k_def] wf]
    have old: "edge_map gb k = Some (edge_at gb r)"
      by (simp add: edge_map_def Some)
    have keys: "gb_edge_by_key gb' = gb_edge_by_key gb" and i: "i = ge_id (edge_at gb r)"
      and heap: "gb_edge_heap gb' = (gb_edge_heap gb)[r := e]"
      using ins Some list_update_id[of "gb_edge_heap gb" r]
      by (auto simp: pmm_gbuf_insert_edge_def Let_def k_def e_def old[unfolded k_def] insert_result_def edge_at_def
          split: option.splits if_splits)
    have at: "edge_at gb' x = (if x = r then e else edge_at gb x)" for x
      using dom[OF Some] by (simp add: edge_at_def heap nth_list_update)
    have inj: "x = k" if "ht_get (gb_edge_by_key gb) x = Some r" for x
      using that Some ok by (simp add: edges_ok_def edge_keys_on_def)
    have "edge_map gb' x = ((edge_map gb)(k \<mapsto> e)) x" for x
      using inj[of x] Some by (cases "ht_get (gb_edge_by_key gb) x") (auto simp: edge_map_def keys at)
    moreover have "ge_id e = ge_id (edge_at gb r)" "ge_source_id e = src" "ge_target_id e = tgt" "ge_type e = ty"
      using L by (auto simp: e_def old insert_result_def split: option.split)
    ultimately show ?thesis
      by (auto simp: fun_eq_iff i)
  qed
  then show "edge_map gb' = (edge_map gb)(k \<mapsto> e)" "i = ge_id e"
    "ge_source_id e = src \<and> ge_target_id e = tgt \<and> ge_type e = ty"
    by simp_all
qed

text \<open>The ends and types of the edges.\<close>

definition edge_triple :: "gedge \<Rightarrow> int \<times> int \<times> string" where
  "edge_triple e = (ge_source_id e, ge_target_id e, ge_type e)"

definition edge_triples :: "gbuf \<Rightarrow> (int \<times> int \<times> string) set" where
  "edge_triples gb = edge_triple ` set (edge_content gb)"

lemma image_ran_update:
  assumes "\<And>x. m k = Some x \<Longrightarrow> f x = f e"
  shows "f ` ran (m(k \<mapsto> e)) = insert (f e) (f ` ran m)"
proof (intro equalityI subsetI)
  fix y
  assume "y \<in> insert (f e) (f ` ran m)"
  then consider "y = f e" | x j where "m j = Some x" "y = f x"
    by (auto simp: ran_def)
  then show "y \<in> f ` ran (m(k \<mapsto> e))"
  proof cases
    case 1
    then show ?thesis
      by (auto simp: ran_def)
  next
    case 2
    then show ?thesis
      using assms[of x] by (cases "j = k") (auto simp: ran_def)
  qed
qed (auto simp: ran_def split: if_splits)

lemma insert_edge_triples:
  assumes ok: "edges_ok gb" and wf: "id64 src" "id64 tgt" "type_ok ty"
    and ins: "pmm_gbuf_insert_edge gb src tgt (Some ty) p = (i, gb')"
  shows "edge_triples gb' = insert (src, tgt, ty) (edge_triples gb)"
proof -
  define k where "k = make_edge_key src tgt ty p"
  note C = insert_edge_content[OF assms, folded k_def]
  have ok': "edges_ok gb'"
    using insert_edge_ok[OF ok wf, of p] ins by simp
  have old: "edge_triple e = (src, tgt, ty)" if "edge_map gb k = Some e" for e
  proof -
    have e: "e \<in> set (edge_content gb)" "edge_key e = k"
      using that edge_map_key[OF ok] by auto
    have "edge_wf e"
      using e(1) ok by (auto simp: edge_content_def edges_ok_def edge_heap_ok_def)
    then show ?thesis
      using make_edge_key_eqD[OF _ _ _ wf e(2)[unfolded edge_key_def k_def]] by (auto simp: edge_triple_def edge_wf_def)
  qed
  have e: "edge_triple (insert_result (edge_map gb k) (pmm_gbuf_next_id gb) src tgt ty p) = (src, tgt, ty)"
    using C(3) by (simp add: edge_triple_def)
  show ?thesis
    unfolding edge_triples_def edge_map_content[OF ok, symmetric] edge_map_content[OF ok', symmetric] C(1)
    using image_ran_update[of "edge_map gb" k edge_triple, OF old[folded e]] by (simp only: e)
qed

section \<open>Merging the nodes\<close>

definition merge_result :: "gnode option \<Rightarrow> gnode \<Rightarrow> gnode" where
  "merge_result old sn =
     (case old of
        None \<Rightarrow> sn
      | Some ex \<Rightarrow>
          if module_on_container ex (Some (gn_label sn)) \<or>
             0 < canonical_cmp (Some (gn_label sn)) (Some (gn_name sn)) (Some (gn_file_path sn)) (gn_start_line sn) ex
          then ex
          else updated_node ex (Some (gn_label sn)) (Some (gn_name sn)) (Some (gn_file_path sn))
                 (gn_start_line sn) (gn_end_line sn) (Some (gn_properties_json sn)))"

definition node_ids :: "gbuf \<Rightarrow> int set" where
  "node_ids gb = gn_id ` set (gb_nodes gb)"

lemma node_ids_at: "node_ids gb = (\<lambda>r. gn_id (node_at gb r)) ` {..<length (gb_nodes gb)}"
  by (force simp: node_ids_def node_at_def in_set_conv_nth)

text \<open>One live node of the source: what it leaves under its name, and the note on its id.\<close>

definition noted :: "int htable \<Rightarrow> gnode option \<Rightarrow> gnode \<Rightarrow> int htable" where
  "noted remap old sn =
     (case old of
        Some ex \<Rightarrow> if gn_id sn \<noteq> gn_id ex then ht_set remap (make_id_key (gn_id sn)) (gn_id ex) else remap
      | None \<Rightarrow> remap)"

lemma merge_node_step:
  assumes ok: "gbuf_ok dst" "gb_shared_ids dst = None"
    and sn: "live_node src sn" "gn_qualified_name sn = Some q" "0 < gn_id sn" "gn_id sn \<notin> node_ids dst"
    and step: "merge_node src (dst, remap) sn = (dst', remap')"
  shows "gbuf_ok dst'" "gb_shared_ids dst' = None"
    "node_content dst' = (node_content dst)(q \<mapsto> merge_result (node_content dst q) sn)"
    "node_ids dst' \<subseteq> insert (gn_id sn) (node_ids dst)"
    "edge_content dst' = edge_content dst" "remap' = noted remap (node_content dst q) sn"
proof -
  note N = gbuf_okD(1)[OF ok(1)]
  have "gbuf_ok dst' \<and> gb_shared_ids dst' = None \<and>
    node_content dst' = (node_content dst)(q \<mapsto> merge_result (node_content dst q) sn) \<and>
    node_ids dst' \<subseteq> insert (gn_id sn) (node_ids dst) \<and>
    edge_content dst' = edge_content dst \<and> remap' = noted remap (node_content dst q) sn"
  proof (cases "ht_get (gb_node_by_qn dst) q")
    case None
    have fresh: "\<forall>r<length (gb_nodes dst). gn_id (node_at dst r) \<noteq> gn_id sn"
      using sn(4) unfolding node_ids_at by (metis (no_types, lifting) imageI lessThan_iff)
    let ?g = "register_node_in_indexes (dst\<lparr>gb_nodes := gb_nodes dst @ [sn]\<rparr>) (length (gb_nodes dst))"
    note A = add_node_ok[OF N sn(2,3) None fresh]
    have dst': "dst' = (if gb_next_id dst \<le> gn_id sn then ?g\<lparr>gb_next_id := gn_id sn + 1\<rparr> else ?g)"
      and r: "remap' = remap"
      using step None sn(1,2) by (auto simp: merge_node_def merge_copy_new_node_def or_empty_def Let_def)
    have F: "gb_nodes dst' = gb_nodes ?g" "gb_node_by_qn dst' = gb_node_by_qn ?g" "gb_by_id dst' = gb_by_id ?g"
      "gb_by_id_cap dst' = gb_by_id_cap ?g" "gb_nodes_by_label dst' = gb_nodes_by_label ?g"
      "gb_nodes_by_name dst' = gb_nodes_by_name ?g" "gb_edges dst' = gb_edges dst" "gb_edge_heap dst' = gb_edge_heap dst"
      "gb_edge_by_key dst' = gb_edge_by_key dst" "gb_edges_by_source_type dst' = gb_edges_by_source_type dst"
      "gb_edges_by_target_type dst' = gb_edges_by_target_type dst" "gb_edges_by_type dst' = gb_edges_by_type dst"
      "gb_shared_ids dst' = None"
      using ok(2) by (simp_all add: dst')
    have nid: "pmm_gbuf_next_id dst \<le> pmm_gbuf_next_id dst'" "gn_id sn < pmm_gbuf_next_id dst'"
      using ok(2) by (auto simp: dst' pmm_gbuf_next_id_def)
    have nodes: "gb_nodes dst' = gb_nodes dst @ [sn]"
      by (simp add: F(1))
    have at: "node_at dst' x = (if x = length (gb_nodes dst) then sn else node_at dst x)" if "x \<le> length (gb_nodes dst)" for x
      using that by (simp add: node_at_def nodes nth_append)
    have "nodes_ok dst'"
      using A(1) nodes_ok_cong[of dst' ?g] F by simp
    moreover have "edges_ok dst'"
      by (rule edges_ok_cong[of dst' dst]) (use F nid(1) gbuf_okD(3)[OF ok(1)] in simp_all)
    moreover have "ids_below dst'"
      using gbuf_okD(2)[OF ok(1)] nid by (auto simp: ids_below_def nodes at less_Suc_eq intro: less_le_trans)
    moreover have "node_content dst' = (node_content dst)(q \<mapsto> sn)"
    proof
      fix x
      have "r < length (gb_nodes dst)" if "ht_get (gb_node_by_qn dst) x = Some r" for r
        using that nodes_okD(2)[OF N] by simp
      then show "node_content dst' x = ((node_content dst)(q \<mapsto> sn)) x"
        using A(4) at by (cases "ht_get (gb_node_by_qn dst) x") (auto simp: node_content_def F(2))
    qed
    moreover have "edge_content dst' = edge_content dst"
      using F edge_at_cong[of dst' dst] by (simp add: edge_content_def)
    moreover have "node_content dst q = None"
      by (simp add: node_content_def None)
    ultimately show ?thesis
      using F r by (auto simp: gbuf_ok_def merge_result_def noted_def node_ids_def nodes)
  next
    case (Some r)
    have live: "r \<in> live_refs dst"
      using live_refs_qn[OF N] Some by blast
    have len: "r < length (gb_nodes dst)"
      using live by (simp add: live_refs_def)
    have old: "node_content dst q = Some (node_at dst r)"
      by (simp add: node_content_def Some)
    have rem: "remap' = noted remap (node_content dst q) sn"
      using step Some sn(1,2)
      by (auto simp: merge_node_def merge_update_existing_def or_empty_def Let_def old noted_def)
    show ?thesis
    proof (cases "module_on_container (node_at dst r) (Some (gn_label sn)) \<or>
        0 < canonical_cmp (Some (gn_label sn)) (Some (gn_name sn)) (Some (gn_file_path sn)) (gn_start_line sn) (node_at dst r)")
      case True
      then have "dst' = dst"
        using step Some sn(1,2) by (auto simp: merge_node_def merge_update_existing_def or_empty_def Let_def split: if_splits)
      then show ?thesis
        using ok old True rem by (auto simp: merge_result_def fun_upd_idem)
    next
      case False
      let ?g = "update_in_place dst r (Some (gn_label sn)) (Some (gn_name sn)) (Some (gn_file_path sn))
                 (gn_start_line sn) (gn_end_line sn) (Some (gn_properties_json sn))"
      have dst': "dst' = ?g"
        using step Some sn(1,2) False
        by (auto simp: merge_node_def merge_update_existing_def or_empty_def Let_def split: if_splits)
      note U = update_in_place_ok[OF N live] and at = update_in_place_at[OF len]
      have nid: "pmm_gbuf_next_id ?g = pmm_gbuf_next_id dst"
        by (rule next_id_cong) simp_all
      have "ids_below ?g"
        using gbuf_okD(2)[OF ok(1)] by (simp add: ids_below_def nid at updated_node_def)
      moreover have "edges_ok ?g"
        by (rule edges_ok_cong[of ?g dst]) (use nid gbuf_okD(3)[OF ok(1)] in simp_all)
      moreover have "node_content ?g = (node_content dst)(q \<mapsto> merge_result (node_content dst q) sn)"
      proof
        fix x
        have "x = q" if "ht_get (gb_node_by_qn dst) x = Some r"
          using that Some nodes_okD(2)[OF N] by simp
        then show "node_content ?g x = ((node_content dst)(q \<mapsto> merge_result (node_content dst q) sn)) x"
          using Some False by (cases "ht_get (gb_node_by_qn dst) x") (auto simp: node_content_def at merge_result_def)
      qed
      moreover have "edge_content ?g = edge_content dst"
        using edge_at_cong[of ?g dst] by (simp add: edge_content_def)
      moreover have "node_ids ?g = node_ids dst"
      proof -
        have "gn_id (node_at ?g x) = gn_id (node_at dst x)" for x
          by (simp add: at updated_node_def)
        then show ?thesis
          by (simp add: node_ids_at)
      qed
      ultimately show ?thesis
        using U(1) ok(2) rem by (auto simp: dst' gbuf_ok_def)
    qed
  qed
  then show "gbuf_ok dst'" "gb_shared_ids dst' = None"
    "node_content dst' = (node_content dst)(q \<mapsto> merge_result (node_content dst q) sn)"
    "node_ids dst' \<subseteq> insert (gn_id sn) (node_ids dst)"
    "edge_content dst' = edge_content dst" "remap' = noted remap (node_content dst q) sn"
    by simp_all
qed

text \<open>The live nodes of the source by qualified name.\<close>

definition qn_map :: "gnode list \<Rightarrow> string \<Rightarrow> gnode option" where
  "qn_map ns = map_of (map (\<lambda>n. (or_empty (gn_qualified_name n), n)) ns)"

lemma foldl_skip: "(\<And>s x. \<not> P x \<Longrightarrow> f s x = s) \<Longrightarrow> foldl f s xs = foldl f s (filter P xs)"
  by (induction xs arbitrary: s) simp_all

lemma merge_nodes_fold:
  assumes "gbuf_ok dst" "gb_shared_ids dst = None"
    and "\<forall>n\<in>set ns. live_node src n \<and> 0 < gn_id n \<and> id64 (gn_id n) \<and> gn_id n \<notin> node_ids dst"
    and "distinct (map gn_qualified_name ns)" "distinct (map gn_id ns)"
    and "foldl (merge_node src) (dst, remap) ns = (dst', remap')"
  shows "gbuf_ok dst' \<and> gb_shared_ids dst' = None \<and> edge_content dst' = edge_content dst \<and>
    node_ids dst' \<subseteq> node_ids dst \<union> gn_id ` set ns \<and>
    (\<forall>q. node_content dst' q = (case qn_map ns q of None \<Rightarrow> node_content dst q
                                | Some s \<Rightarrow> Some (merge_result (node_content dst q) s))) \<and>
    (\<forall>n\<in>set ns. ht_get remap (make_id_key (gn_id n)) = None \<longrightarrow>
       remapped remap' (gn_id n) = gn_id (merge_result (node_content dst (or_empty (gn_qualified_name n))) n)) \<and>
    (\<forall>i. id64 i \<and> i \<notin> gn_id ` set ns \<longrightarrow> ht_get remap' (make_id_key i) = ht_get remap (make_id_key i))"
  using assms
proof (induction ns arbitrary: dst remap)
  case Nil
  then show ?case
    by (simp add: qn_map_def)
next
  case (Cons n ns)
  obtain q where q: "gn_qualified_name n = Some q"
    using Cons.prems(3) by (auto simp: live_node_def split: option.splits)
  obtain d1 r1 where step: "merge_node src (dst, remap) n = (d1, r1)"
    by fastforce
  have n: "live_node src n" "0 < gn_id n" "id64 (gn_id n)" "gn_id n \<notin> node_ids dst"
    using Cons.prems(3) by simp_all
  note S = merge_node_step[OF Cons.prems(1,2) n(1) q n(2,4) step]
  have loop: "foldl (merge_node src) (d1, r1) ns = (dst', remap')"
    using Cons.prems(6) step by simp
  have neq: "gn_id m \<noteq> gn_id n" if "m \<in> set ns" for m
    using Cons.prems(5) that by (metis distinct.simps(2) image_eqI list.set_map list.simps(9))
  have pre: "\<forall>m\<in>set ns. live_node src m \<and> 0 < gn_id m \<and> id64 (gn_id m) \<and> gn_id m \<notin> node_ids d1"
    using Cons.prems(3) S(4) neq by auto
  have d: "distinct (map gn_qualified_name ns)" "distinct (map gn_id ns)"
    using Cons.prems(4,5) by simp_all
  have IH: "gbuf_ok dst'" "gb_shared_ids dst' = None" "edge_content dst' = edge_content d1"
    "node_ids dst' \<subseteq> node_ids d1 \<union> gn_id ` set ns"
    "node_content dst' x = (case qn_map ns x of None \<Rightarrow> node_content d1 x
        | Some s \<Rightarrow> Some (merge_result (node_content d1 x) s))"
    "m \<in> set ns \<Longrightarrow> ht_get r1 (make_id_key (gn_id m)) = None \<Longrightarrow>
       remapped remap' (gn_id m) = gn_id (merge_result (node_content d1 (or_empty (gn_qualified_name m))) m)"
    "id64 i \<Longrightarrow> i \<notin> gn_id ` set ns \<Longrightarrow> ht_get remap' (make_id_key i) = ht_get r1 (make_id_key i)" for x m i
    using Cons.IH[OF S(1,2) pre d loop] by simp_all
  have other: "m \<in> set ns \<Longrightarrow> gn_qualified_name m \<noteq> Some q" for m
    using Cons.prems(4) q by force
  have live: "m \<in> set ns \<Longrightarrow> gn_qualified_name m \<noteq> None" for m
    using pre by (force simp: live_node_def split: option.splits)
  have none: "qn_map ns q = None"
    using other live by (fastforce simp: qn_map_def map_of_eq_None_iff or_empty_def split: option.splits)
  have cons: "qn_map (n # ns) x = (if x = q then Some n else qn_map ns x)" for x
    by (simp add: qn_map_def q or_empty_def)
  have key: "ht_get r1 (make_id_key i) = ht_get remap (make_id_key i)" if "id64 i" "i \<noteq> gn_id n" for i
    using that n(3) make_id_key_inj[of i "gn_id n"] by (auto simp: S(6) noted_def ht.get_set split: option.split)
  have "node_content dst' x = (case qn_map (n # ns) x of None \<Rightarrow> node_content dst x
      | Some s \<Rightarrow> Some (merge_result (node_content dst x) s))" for x
    using IH(5)[of x] none by (auto simp: cons S(3) split: option.split)
  moreover have "ht_get remap' (make_id_key i) = ht_get remap (make_id_key i)" if "id64 i \<and> i \<notin> gn_id ` set (n # ns)" for i
    using IH(7)[of i] key[of i] that by simp
  moreover have "remapped remap' (gn_id m) = gn_id (merge_result (node_content dst (or_empty (gn_qualified_name m))) m)"
    if m: "m \<in> set (n # ns)" "ht_get remap (make_id_key (gn_id m)) = None" for m
  proof (cases "m = n")
    case True
    have "gn_id n \<notin> gn_id ` set ns"
      using Cons.prems(5) by simp
    then have "ht_get remap' (make_id_key (gn_id n)) = ht_get r1 (make_id_key (gn_id n))"
      using IH(7) n(3) by blast
    then show ?thesis
      using m(2) True q by (auto simp: remapped_def S(6) noted_def ht.get_set or_empty_def merge_result_def
          updated_node_def split: option.split)
  next
    case False
    then have mm: "m \<in> set ns"
      using m(1) by simp
    have "gn_id m \<noteq> gn_id n" "id64 (gn_id m)"
      using mm Cons.prems(3) neq[OF mm] by simp_all
    then have "ht_get r1 (make_id_key (gn_id m)) = None"
      using key m(2) by simp
    moreover have "node_content d1 (or_empty (gn_qualified_name m)) = node_content dst (or_empty (gn_qualified_name m))"
      using other[OF mm] live[OF mm] by (auto simp: S(3) or_empty_def split: option.splits)
    ultimately show ?thesis
      using IH(6)[OF mm] by simp
  qed
  moreover have "node_ids dst' \<subseteq> node_ids dst \<union> gn_id ` set (n # ns)"
    using IH(4) S(4) by auto
  ultimately show ?case
    using IH(1-3) S(5) by simp
qed

section \<open>Merging the edges\<close>

lemma merge_edges_fold:
  assumes "gbuf_ok d" "\<forall>r\<in>set rs. id64 (ren (ge_source_id (edge_at src r))) \<and> id64 (ren (ge_target_id (edge_at src r))) \<and>
      type_ok (ge_type (edge_at src r))"
    and "d' = foldl (\<lambda>d r. let se = edge_at src r in
              snd (pmm_gbuf_insert_edge d (ren (ge_source_id se)) (ren (ge_target_id se))
                     (Some (ge_type se)) (Some (ge_properties_json se)))) d rs"
  shows "gbuf_ok d' \<and> node_content d' = node_content d \<and> gb_nodes d' = gb_nodes d \<and>
    (gb_shared_ids d = None \<longrightarrow> gb_shared_ids d' = None) \<and>
    edge_triples d' = edge_triples d \<union>
      (\<lambda>r. (ren (ge_source_id (edge_at src r)), ren (ge_target_id (edge_at src r)), ge_type (edge_at src r))) ` set rs"
  using assms
proof (induction rs arbitrary: d)
  case (Cons r rs)
  let ?s = "ren (ge_source_id (edge_at src r))" and ?t = "ren (ge_target_id (edge_at src r))"
  obtain i d1 where ins: "pmm_gbuf_insert_edge d ?s ?t (Some (ge_type (edge_at src r))) (Some (ge_properties_json (edge_at src r))) = (i, d1)"
    by fastforce
  have wf: "id64 ?s" "id64 ?t" "type_ok (ge_type (edge_at src r))"
    using Cons.prems(2) by simp_all
  note I = insert_edge_gbuf_ok[OF Cons.prems(1) wf ins] insert_edge_triples[OF gbuf_okD(3)[OF Cons.prems(1)] wf ins]
  show ?case
    using Cons.IH[OF I(1)] Cons.prems(2,3) I(2,3) insert_edge_nodes[OF ins] by (simp add: ins Let_def)
qed simp

end
