(* ===== verification/Gbuf_Order.thy ===== *)
theory Gbuf_Order
  imports Gbuf_Merge_Facts Cyp_Store
begin

text \<open>
  Why the order of arrival does not matter in the graph buffer
  (src/src/graph_buffer/graph_buffer.c): the survivor of a collision is the least of the
  candidates in one total order, so keeping the better of two is commutative and associative,
  and a merge acts on keys and on edges named by qualified names as a union.
\<close>

section \<open>The canonical order\<close>

type_synonym nkey = "string \<times> int \<times> string \<times> string"

text \<open>File, line, name and label: what the canonical rule looks at.\<close>

definition node_key :: "gnode \<Rightarrow> nkey" where
  "node_key n = (gn_file_path n, gn_start_line n, gn_name n, gn_label n)"

fun key_le :: "nkey \<Rightarrow> nkey \<Rightarrow> bool" where
  "key_le (f, s, n, l) (f', s', n', l') \<longleftrightarrow>
     strcmp f f' < 0 \<or>
     (f = f' \<and> (s' < s \<or> (s = s' \<and> (strcmp n' n < 0 \<or> (n = n' \<and> strcmp l' l \<le> 0)))))"

text \<open>The later candidate replaces the earlier one when it is at least as good.\<close>

definition better :: "nkey \<Rightarrow> nkey \<Rightarrow> nkey" where
  "better old new = (if key_le new old then new else old)"

definition line_ok :: "int \<Rightarrow> bool" where
  "line_ok s \<longleftrightarrow> 0 \<le> s \<and> s < 2 ^ 31"

text \<open>Strings under \<open>strcmp\<close> are a strict linear order.\<close>

definition slt :: "string \<Rightarrow> string \<Rightarrow> bool" where
  "slt a b \<longleftrightarrow> strcmp a b < 0"

lemma slt_irrefl [simp]: "\<not> slt a a"
  by (simp add: slt_def)

lemma slt_total: "slt a b \<or> a = b \<or> slt b a"
  using strcmp_antisym[of a b] by (auto simp: slt_def not_less order_le_less)

lemma slt_asym: "slt a b \<Longrightarrow> \<not> slt b a"
  using strcmp_antisym[of a b] by (simp add: slt_def)

lemma slt_trans:
  assumes "slt a b" "slt b c"
  shows "slt a c"
proof -
  have "strcmp a c \<le> 0"
    using assms by (intro strcmp_trans[of a b c]) (simp_all add: slt_def)
  moreover have "a \<noteq> c"
    using assms slt_asym by blast
  ultimately show ?thesis
    by (simp add: slt_def order_less_le)
qed

lemma strcmp_le_slt: "strcmp a b \<le> 0 \<longleftrightarrow> slt a b \<or> a = b"
  by (auto simp: slt_def order_le_less)

lemma key_le_slt:
  "key_le (f, s, n, l) (f', s', n', l') \<longleftrightarrow>
     slt f f' \<or> (f = f' \<and> (s' < s \<or> (s = s' \<and> (slt n' n \<or> (n = n' \<and> (slt l' l \<or> l' = l))))))"
  by (simp add: strcmp_le_slt) (simp add: slt_def)

declare key_le.simps [simp del]

lemma key_le_total: "key_le a b \<or> key_le b a"
proof -
  obtain f s n l f' s' n' l' where "a = (f, s, n, l)" "b = (f', s', n', l')"
    by (metis prod_cases4)
  then show ?thesis
    using slt_total[of f f'] slt_total[of n n'] slt_total[of l l'] by (auto simp: key_le_slt)
qed

lemma key_le_antisym: "key_le a b \<Longrightarrow> key_le b a \<Longrightarrow> a = b"
proof -
  assume "key_le a b" "key_le b a"
  moreover obtain f s n l f' s' n' l' where "a = (f, s, n, l)" "b = (f', s', n', l')"
    by (metis prod_cases4)
  ultimately show ?thesis
    using slt_asym[of f f'] slt_asym[of n n'] slt_asym[of l l'] by (auto simp: key_le_slt)
qed

lemma key_le_trans: "key_le a b \<Longrightarrow> key_le b c \<Longrightarrow> key_le a c"
proof -
  assume *: "key_le a b" "key_le b c"
  obtain f s n l where a: "a = (f, s, n, l)"
    by (metis prod_cases4)
  obtain f' s' n' l' where b: "b = (f', s', n', l')"
    by (metis prod_cases4)
  obtain f'' s'' n'' l'' where c: "c = (f'', s'', n'', l'')"
    by (metis prod_cases4)
  show ?thesis
    using * slt_trans[of f f' f''] slt_trans[of n'' n' n] slt_trans[of l'' l' l]
    by (auto simp: a b c key_le_slt)
qed

lemma better_comm: "better a b = better b a"
  using key_le_total[of a b] key_le_antisym[of a b] by (auto simp: better_def)

lemma better_assoc: "better (better a b) c = better a (better b c)"
  using key_le_total[of a b] key_le_total[of b c] key_le_total[of a c]
    key_le_trans[of a b c] key_le_trans[of b a c] key_le_trans[of c b a] key_le_trans[of a c b]
    key_le_trans[of b c a] key_le_trans[of c a b] key_le_antisym[of a c] key_le_antisym[of a b] key_le_antisym[of b c]
  by (auto simp: better_def)

lemma better_cases: "better a b = a \<or> better a b = b"
  by (simp add: better_def)

lemma canonical_cmp_key:
  assumes "line_ok s" "line_ok (gn_start_line ex)"
  shows "0 < canonical_cmp (Some l) (Some n) (Some f) s ex \<longleftrightarrow> \<not> key_le (f, s, n, l) (node_key ex)"
proof -
  have "int32 (gn_start_line ex - s) = gn_start_line ex - s"
    using assms by (intro int32_id) (simp_all add: line_ok_def)
  moreover have "0 < strcmp x y \<longleftrightarrow> \<not> slt x y \<and> x \<noteq> y" for x y
    by (auto simp: slt_def not_less order_less_le)
  ultimately show ?thesis
    unfolding canonical_cmp_def or_empty_def node_key_def Let_def key_le_slt
    by (auto simp: not_less)
qed

section \<open>One merge\<close>

lemma content_id_inj:
  assumes "nodes_ok gb" "node_content gb q = Some a" "node_content gb q' = Some b" "gn_id a = gn_id b"
  shows "q = q'"
proof -
  obtain r where r: "r < length (gb_nodes gb)" "node_at gb r = a" "gn_qualified_name a = Some q"
    using assms(2)[unfolded node_content_Some[OF assms(1)]] by blast
  obtain r' where r': "r' < length (gb_nodes gb)" "node_at gb r' = b" "gn_qualified_name b = Some q'"
    using assms(3)[unfolded node_content_Some[OF assms(1)]] by blast
  have "r = r'"
    by (rule inj_onD[OF nodes_okD(3)[OF assms(1)]]) (simp_all add: r r' assms(4))
  then show ?thesis
    using r r' by simp
qed

definition live_ids :: "gbuf \<Rightarrow> int set" where
  "live_ids gb = gn_id ` ran (node_content gb)"

lemma live_ids_sub: "nodes_ok gb \<Longrightarrow> live_ids gb \<subseteq> node_ids gb"
  by (auto simp: live_ids_def ran_def node_content_Some node_ids_at)

definition ids64 :: "gbuf \<Rightarrow> bool" where
  "ids64 gb \<longleftrightarrow> list_all (\<lambda>n. id64 (gn_id n)) (gb_nodes gb)"

lemma merge_result_id: "gn_id (merge_result (Some d) s) = gn_id d" "merge_result None s = s"
  by (simp_all add: merge_result_def updated_node_def)

text \<open>The list of live nodes and the index by name are the same map.\<close>

lemma live_list:
  assumes "nodes_ok src"
  defines "ns \<equiv> filter (live_node src) (gb_nodes src)"
  shows "qn_map ns = node_content src" "distinct (map gn_qualified_name ns)" "distinct (map gn_id ns)"
    "set ns = ran (node_content src)"
proof -
  note D = nodes_okD[OF assms(1)]
  show set: "set ns = ran (node_content src)"
    unfolding ns_def by (rule live_nodes_content[OF assms(1)])
  have live: "n \<in> set ns \<Longrightarrow> \<exists>q. gn_qualified_name n = Some q \<and> node_content src q = Some n" for n
    unfolding set ran_def using node_content_Some[OF assms(1)] by blast
  have "distinct (map gn_id (gb_nodes src))"
    using D(3) by (simp add: distinct_map inj_on_nth distinct_conv_nth node_at_def inj_on_def)
      (metis lessThan_iff nth_eq_iff_index_eq)
  then show ids: "distinct (map gn_id ns)"
    unfolding ns_def by (rule distinct_map_filter)
  have inj: "inj_on gn_qualified_name (set ns)"
    by (rule inj_onI) (metis live option.inject)
  moreover have "distinct ns"
    using ids by (simp add: distinct_map)
  ultimately show names: "distinct (map gn_qualified_name ns)"
    by (simp add: distinct_map)
  show "qn_map ns = node_content src"
  proof
    fix q
    have inj2: "inj_on (\<lambda>n. or_empty (gn_qualified_name n)) (set ns)"
      by (rule inj_onI) (metis live option.inject option.simps(5) or_empty_def)
    then have d2: "distinct (map fst (map (\<lambda>n. (or_empty (gn_qualified_name n), n)) ns))"
      using \<open>distinct ns\<close> by (simp add: comp_def distinct_map)
    have pair: "(q, n) \<in> set (map (\<lambda>n. (or_empty (gn_qualified_name n), n)) ns) \<longleftrightarrow>
        n \<in> set ns \<and> gn_qualified_name n = Some q" for n
      using live[of n] by (auto simp: or_empty_def image_iff)
    have "qn_map ns q = Some n \<longleftrightarrow> node_content src q = Some n" for n
      unfolding qn_map_def map_of_eq_Some_iff[OF d2] pair
    proof
      show "n \<in> set ns \<and> gn_qualified_name n = Some q" if "node_content src q = Some n"
        using that by (auto simp: set ran_def) (auto simp: node_content_Some[OF assms(1)])
    qed (use live[of n] in auto)
    then show "qn_map ns q = node_content src q"
      by (metis option.exhaust)
  qed
qed

theorem merge_facts:
  assumes dst: "gbuf_ok dst" "gb_shared_ids dst = None" "ids64 dst"
    and src: "gbuf_ok src" "ids64 src" and disj: "node_ids dst \<inter> node_ids src = {}"
  defines "m \<equiv> pmm_gbuf_merge dst src"
  obtains ren where "gbuf_ok m" "gb_shared_ids m = None" "node_ids m \<subseteq> node_ids dst \<union> node_ids src"
    "\<And>q. node_content m q = (case node_content src q of None \<Rightarrow> node_content dst q
          | Some s \<Rightarrow> Some (merge_result (node_content dst q) s))"
    "edge_triples m = edge_triples dst \<union> (\<lambda>(a, b, ty). (ren a, ren b, ty)) ` edge_triples src"
    "\<And>q s. node_content src q = Some s \<Longrightarrow> ren (gn_id s) = gn_id (merge_result (node_content dst q) s)"
    "\<And>i. id64 i \<Longrightarrow> i \<notin> live_ids src \<Longrightarrow> ren i = i"
proof (cases "gb_nodes src = [] \<and> gb_edges src = []")
  case True
  have "node_content src q = None" for q
    using True node_content_Some[OF gbuf_okD(1)[OF src(1)], of q] by (cases "node_content src q") auto
  moreover have "edge_triples src = {}"
    using True by (simp add: edge_triples_def edge_content_def)
  moreover have "m = dst"
    using True by (simp add: m_def pmm_gbuf_merge_def)
  ultimately show ?thesis
    using dst by (intro that[of id]) auto
next
  case False
  note S = gbuf_okD(1)[OF src(1)]
  define ns where "ns = filter (live_node src) (gb_nodes src)"
  note L = live_list[OF S, folded ns_def]
  obtain d1 remap where fold: "foldl (merge_node src) (dst, []) ns = (d1, remap)"
    by fastforce
  have "foldl (merge_node src) (dst, []) (gb_nodes src) = foldl (merge_node src) (dst, []) ns"
    unfolding ns_def by (rule foldl_skip) (simp add: merge_node_def split: prod.split)
  then have m: "m = merge_remap_edges d1 src remap"
    using False fold by (auto simp: m_def pmm_gbuf_merge_def)
  have pre: "\<forall>n\<in>set ns. live_node src n \<and> 0 < gn_id n \<and> id64 (gn_id n) \<and> gn_id n \<notin> node_ids dst"
  proof
    fix n
    assume "n \<in> set ns"
    then have n: "live_node src n" "n \<in> set (gb_nodes src)"
      by (simp_all add: ns_def)
    then obtain r where "r < length (gb_nodes src)" "n = node_at src r"
      by (auto simp: in_set_conv_nth node_at_def)
    then have "0 < gn_id n"
      using nodes_okD(4)[OF S] by simp
    moreover have "gn_id n \<in> node_ids src"
      using n(2) by (simp add: node_ids_def)
    ultimately show "live_node src n \<and> 0 < gn_id n \<and> id64 (gn_id n) \<and> gn_id n \<notin> node_ids dst"
      using n src(2) disj by (auto simp: ids64_def list_all_iff)
  qed
  note F = merge_nodes_fold[OF dst(1,2) pre L(2,3) fold]
  have d1: "gbuf_ok d1" "gb_shared_ids d1 = None" "edge_content d1 = edge_content dst"
    "node_content d1 q = (case node_content src q of None \<Rightarrow> node_content dst q
          | Some s \<Rightarrow> Some (merge_result (node_content dst q) s))" for q
    using F by (simp_all add: L(1))
  have ren: "remapped remap (gn_id s) = gn_id (merge_result (node_content dst q) s)" if "node_content src q = Some s" for q s
  proof -
    have "s \<in> set ns" "gn_qualified_name s = Some q"
      using that by (auto simp: L(4) ran_def node_content_Some[OF S])
    then show ?thesis
      using F by (fastforce simp: or_empty_def)
  qed
  have ren_id: "remapped remap i = i" if "id64 i" "i \<notin> live_ids src" for i
    using F that by (simp add: remapped_def live_ids_def L(4))
  have ren64: "id64 (remapped remap i)" if "id64 i" for i
  proof (cases "i \<in> live_ids src")
    case True
    then obtain q s where s: "node_content src q = Some s" "i = gn_id s"
      by (auto simp: live_ids_def ran_def)
    show ?thesis
    proof (cases "node_content dst q")
      case None
      then show ?thesis
        using ren[OF s(1)] s(2) that by (simp add: merge_result_id)
    next
      case (Some d)
      then have "id64 (gn_id d)"
        using dst(3) unfolding node_content_Some[OF gbuf_okD(1)[OF dst(1)]]
        by (auto simp: ids64_def list_all_iff node_at_def)
      then show ?thesis
        using ren[OF s(1)] s(2) Some by (simp add: merge_result_id)
    qed
  qed (simp add: ren_id that)
  have wf: "edge_wf (edge_at src r)" if "r \<in> set (gb_edges src)" for r
    using gbuf_okD(3)[OF src(1)] that by (auto simp: edges_ok_def edge_heap_ok_def)
  have E: "gbuf_ok m \<and> node_content m = node_content d1 \<and> gb_nodes m = gb_nodes d1 \<and>
      (gb_shared_ids d1 = None \<longrightarrow> gb_shared_ids m = None) \<and> edge_triples m = edge_triples d1 \<union>
      (\<lambda>r. (remapped remap (ge_source_id (edge_at src r)), remapped remap (ge_target_id (edge_at src r)),
            ge_type (edge_at src r))) ` set (gb_edges src)"
    by (rule merge_edges_fold[OF d1(1)]) (use wf ren64 in \<open>auto simp: m merge_remap_edges_def edge_wf_def\<close>)
  have F_ids: "node_ids d1 \<subseteq> node_ids dst \<union> gn_id ` set ns"
    using F by simp
  have "node_ids m \<subseteq> node_ids dst \<union> node_ids src"
    using F_ids E by (auto simp: node_ids_def ns_def)
  moreover have "(\<lambda>r. (remapped remap (ge_source_id (edge_at src r)), remapped remap (ge_target_id (edge_at src r)),
            ge_type (edge_at src r))) ` set (gb_edges src) =
      (\<lambda>(a, b, ty). (remapped remap a, remapped remap b, ty)) ` edge_triples src"
    by (simp add: edge_triples_def edge_content_def edge_triple_def image_image)
  moreover have "edge_triples d1 = edge_triples dst"
    using d1(3) by (simp add: edge_triples_def)
  ultimately show ?thesis
    using E d1 ren ren_id by (intro that[of "remapped remap"]) simp_all
qed

end
