(* ===== verification/Gbuf_Workers.thy ===== *)
theory Gbuf_Workers
  imports Gbuf_Order
begin

text \<open>
  The merge of several workers' graph buffers (src/src/graph_buffer/graph_buffer.c) seen through
  qualified names: which candidate survives under each name, and which names each edge joins.
\<close>

section \<open>The graph by qualified names\<close>

definition key_content :: "gbuf \<Rightarrow> string \<Rightarrow> nkey option" where
  "key_content gb q = map_option node_key (node_content gb q)"

definition named_edges :: "gbuf \<Rightarrow> (string \<times> string \<times> string) set" where
  "named_edges gb = {(q1, q2, ty). \<exists>a b. node_content gb q1 = Some a \<and> node_content gb q2 = Some b \<and>
                       (gn_id a, gn_id b, ty) \<in> edge_triples gb}"

text \<open>Every edge joins two live nodes of the buffer.\<close>

definition edges_closed :: "gbuf \<Rightarrow> bool" where
  "edges_closed gb \<longleftrightarrow> (\<forall>(i, j, ty)\<in>edge_triples gb. i \<in> live_ids gb \<and> j \<in> live_ids gb)"

fun combine :: "nkey option \<Rightarrow> nkey option \<Rightarrow> nkey option" where
  "combine None k = k"
| "combine (Some a) None = Some a"
| "combine (Some a) (Some b) = Some (better a b)"

lemma combine_None [simp]: "combine k None = k"
  by (cases k) simp_all

lemma combine_comm: "combine a b = combine b a"
  by (cases a; cases b) (simp_all add: better_comm)

lemma combine_assoc: "combine (combine a b) c = combine a (combine b c)"
  by (cases a; cases b; cases c) (simp_all add: better_assoc)

definition lines_ok :: "gbuf \<Rightarrow> bool" where
  "lines_ok gb \<longleftrightarrow> (\<forall>n\<in>ran (node_content gb). line_ok (gn_start_line n))"

text \<open>What a worker's buffer must satisfy beside the main one.\<close>

definition part_ok :: "gbuf \<Rightarrow> bool" where
  "part_ok gb \<longleftrightarrow> gbuf_ok gb \<and> ids64 gb \<and> lines_ok gb \<and> edges_closed gb"

lemma content_line_ok: "lines_ok gb \<Longrightarrow> node_content gb q = Some n \<Longrightarrow> line_ok (gn_start_line n)"
  by (auto simp: lines_ok_def ran_def)

lemma node_key_updated:
  "node_key (updated_node ex (Some l) (Some n) (Some f) s e p) = (f, s, n, l)"
  by (simp add: node_key_def updated_node_def heap_strdup_def)

lemma merge_result_key:
  assumes "line_ok (gn_start_line s)" "line_ok (gn_start_line d)" "\<not> module_on_container d (Some (gn_label s))"
  shows "node_key (merge_result (Some d) s) = better (node_key d) (node_key s)"
  using assms(3) unfolding merge_result_def option.case canonical_cmp_key[OF assms(1,2)]
  by (auto simp: node_key_updated better_def) (simp_all add: node_key_def)

section \<open>One worker\<close>

text \<open>A name is free of the guard when no container meets a module definition there.\<close>

definition labels_at :: "gbuf \<Rightarrow> string \<Rightarrow> string set" where
  "labels_at gb q = {gn_label n |n. node_content gb q = Some n}"

definition containers :: "string set" where
  "containers = {''Project'', ''Folder''}"

lemma module_on_container_labels:
  "node_content gb q = Some d \<Longrightarrow> module_on_container d (Some l) \<longleftrightarrow> l = ''Module'' \<and> labels_at gb q \<inter> containers \<noteq> {}"
  by (auto simp: module_on_container_def labels_at_def containers_def)

theorem merge_one_worker:
  assumes dst: "part_ok dst" "gb_shared_ids dst = None" and src: "part_ok src"
    and disj: "node_ids dst \<inter> node_ids src = {}"
  defines "m \<equiv> pmm_gbuf_merge dst src"
  shows "part_ok m" "gb_shared_ids m = None" "node_ids m \<subseteq> node_ids dst \<union> node_ids src"
    and "named_edges m = named_edges dst \<union> named_edges src"
    and "labels_at dst q \<inter> containers = {} \<or> ''Module'' \<notin> labels_at src q \<Longrightarrow>
         key_content m q = combine (key_content dst q) (key_content src q)"
    and "labels_at dst q \<inter> containers \<noteq> {} \<Longrightarrow> labels_at src q \<subseteq> {''Module''} \<Longrightarrow>
         node_content m q = node_content dst q"
    and "labels_at m q \<subseteq> labels_at dst q \<union> labels_at src q"
proof -
  have D: "gbuf_ok dst" "ids64 dst" "lines_ok dst" "edges_closed dst"
    and S: "gbuf_ok src" "ids64 src" "lines_ok src" "edges_closed src"
    using dst(1) src by (simp_all add: part_ok_def)
  obtain ren where M: "gbuf_ok m" "gb_shared_ids m = None" "node_ids m \<subseteq> node_ids dst \<union> node_ids src"
    "\<And>q. node_content m q = (case node_content src q of None \<Rightarrow> node_content dst q
          | Some s \<Rightarrow> Some (merge_result (node_content dst q) s))"
    "edge_triples m = edge_triples dst \<union> (\<lambda>(a, b, ty). (ren a, ren b, ty)) ` edge_triples src"
    "\<And>q s. node_content src q = Some s \<Longrightarrow> ren (gn_id s) = gn_id (merge_result (node_content dst q) s)"
    by (rule merge_facts[OF D(1) dst(2) D(2) S(1,2) disj, folded m_def]) (rule that)
  note ND = gbuf_okD(1)[OF D(1)] and NS = gbuf_okD(1)[OF S(1)] and NM = gbuf_okD(1)[OF M(1)]
  have from_dst: "\<exists>a'. node_content m q = Some a' \<and> gn_id a' = gn_id a" if "node_content dst q = Some a" for q a
    using that M(4)[of q] by (cases "node_content src q") (auto simp: merge_result_id)
  have from_src: "\<exists>a'. node_content m q = Some a' \<and> gn_id a' = ren (gn_id a)" if "node_content src q = Some a" for q a
    using that M(4)[of q] M(6)[OF that] by auto
  show "gb_shared_ids m = None" "node_ids m \<subseteq> node_ids dst \<union> node_ids src"
    by (fact M(2,3))+
  have named: "\<exists>q1 a q2 b. node_content g q1 = Some a \<and> gn_id a = i \<and> node_content g q2 = Some b \<and> gn_id b = j"
    if "edges_closed g" "(i, j, ty) \<in> edge_triples g" for g i j ty
  proof -
    have "i \<in> live_ids g" "j \<in> live_ids g"
      using that by (auto simp: edges_closed_def)
    then show ?thesis
      by (auto simp: live_ids_def ran_def)
  qed
  have closed: "edges_closed m"
    unfolding edges_closed_def
  proof (clarify)
    fix i j ty
    assume "(i, j, ty) \<in> edge_triples m"
    then consider "(i, j, ty) \<in> edge_triples dst" | i' j' where "(i', j', ty) \<in> edge_triples src" "i = ren i'" "j = ren j'"
      unfolding M(5) by auto
    then show "i \<in> live_ids m \<and> j \<in> live_ids m"
    proof cases
      case 1
      obtain q1 a q2 b where "node_content dst q1 = Some a" "gn_id a = i" "node_content dst q2 = Some b" "gn_id b = j"
        using named[OF D(4) 1] by blast
      then show ?thesis
        using from_dst[of q1 a] from_dst[of q2 b] by (auto simp: live_ids_def ran_def image_iff)
    next
      case 2
      obtain q1 a q2 b where "node_content src q1 = Some a" "gn_id a = i'" "node_content src q2 = Some b" "gn_id b = j'"
        using named[OF S(4) 2(1)] by blast
      then show ?thesis
        using from_src[of q1 a] from_src[of q2 b] 2(2,3) by (auto simp: live_ids_def ran_def image_iff)
    qed
  qed
  have ids: "ids64 m"
    using M(3) D(2) S(2) by (auto simp: ids64_def list_all_iff node_ids_def)
  show "named_edges m = named_edges dst \<union> named_edges src"
  proof (intro equalityI subsetI)
    fix x
    assume "x \<in> named_edges dst \<union> named_edges src"
    then consider "x \<in> named_edges dst" | "x \<in> named_edges src"
      by blast
    then show "x \<in> named_edges m"
    proof cases
      case 1
      then obtain q1 q2 ty a b where x: "x = (q1, q2, ty)" "node_content dst q1 = Some a"
        "node_content dst q2 = Some b" "(gn_id a, gn_id b, ty) \<in> edge_triples dst"
        by (auto simp: named_edges_def)
      then show ?thesis
        using from_dst[OF x(2)] from_dst[OF x(3)] by (auto simp: named_edges_def M(5))
    next
      case 2
      then obtain q1 q2 ty a b where x: "x = (q1, q2, ty)" "node_content src q1 = Some a"
        "node_content src q2 = Some b" "(gn_id a, gn_id b, ty) \<in> edge_triples src"
        by (auto simp: named_edges_def)
      have "(ren (gn_id a), ren (gn_id b), ty) \<in> edge_triples m"
        unfolding M(5) using x(4) by (force simp: image_iff)
      then show ?thesis
        using from_src[OF x(2)] from_src[OF x(3)] x(1) by (auto simp: named_edges_def)
    qed
  next
    fix x
    assume "x \<in> named_edges m"
    then obtain q1 q2 ty a b where x: "x = (q1, q2, ty)" "node_content m q1 = Some a" "node_content m q2 = Some b"
      "(gn_id a, gn_id b, ty) \<in> edge_triples m"
      by (auto simp: named_edges_def)
    from x(4) consider "(gn_id a, gn_id b, ty) \<in> edge_triples dst"
      | i j where "(i, j, ty) \<in> edge_triples src" "gn_id a = ren i" "gn_id b = ren j"
      unfolding M(5) by auto
    then show "x \<in> named_edges dst \<union> named_edges src"
    proof cases
      case 1
      then obtain p1 a' p2 b' where p: "node_content dst p1 = Some a'" "gn_id a' = gn_id a"
        "node_content dst p2 = Some b'" "gn_id b' = gn_id b"
        using named[OF D(4) 1] by blast
      have "p1 = q1" "p2 = q2"
        using from_dst[OF p(1)] from_dst[OF p(3)] content_id_inj[OF NM] x(2,3) p(2,4) by metis+
      then show ?thesis
        using p 1 x(1) by (auto simp: named_edges_def)
    next
      case 2
      then obtain p1 a' p2 b' where p: "node_content src p1 = Some a'" "gn_id a' = i"
        "node_content src p2 = Some b'" "gn_id b' = j"
        using named[OF S(4) 2(1)] by blast
      have "p1 = q1" "p2 = q2"
        using from_src[OF p(1)] from_src[OF p(3)] content_id_inj[OF NM] x(2,3) p(2,4) 2(2,3) by metis+
      then show ?thesis
        using p 2(1) x(1) by (auto simp: named_edges_def)
    qed
  qed
  show "key_content m q = combine (key_content dst q) (key_content src q)"
    if g: "labels_at dst q \<inter> containers = {} \<or> ''Module'' \<notin> labels_at src q"
  proof (cases "node_content src q")
    case None
    then show ?thesis
      by (simp add: key_content_def M(4))
  next
    case (Some s)
    show ?thesis
    proof (cases "node_content dst q")
      case None
      then show ?thesis
        using Some by (simp add: key_content_def M(4) merge_result_id)
    next
      case d: (Some d)
      have "\<not> module_on_container d (Some (gn_label s))"
        using g Some unfolding module_on_container_labels[OF d] by (auto simp: labels_at_def)
      then show ?thesis
        using d Some merge_result_key[of s d] content_line_ok[OF D(3) d] content_line_ok[OF S(3) Some]
        by (simp add: key_content_def M(4))
    qed
  qed
  show "node_content m q = node_content dst q"
    if g: "labels_at dst q \<inter> containers \<noteq> {}" "labels_at src q \<subseteq> {''Module''}"
  proof (cases "node_content src q")
    case (Some s)
    obtain d where d: "node_content dst q = Some d"
      using g(1) by (auto simp: labels_at_def)
    have "module_on_container d (Some (gn_label s))"
      using g Some unfolding module_on_container_labels[OF d] by (auto simp: labels_at_def)
    then show ?thesis
      using Some d by (simp add: M(4) merge_result_def)
  qed (simp add: M(4))
  show "labels_at m q \<subseteq> labels_at dst q \<union> labels_at src q"
    by (auto simp: labels_at_def M(4) merge_result_def updated_node_def heap_strdup_def split: option.splits if_splits)
  have "line_ok (gn_start_line n)" if n: "node_content m q = Some n" for q n
    using n content_line_ok[OF D(3), of q] content_line_ok[OF S(3), of q]
    by (auto simp: M(4) merge_result_def updated_node_def split: option.splits if_splits)
  then have "lines_ok m"
    by (auto simp: lines_ok_def ran_def)
  then show "part_ok m"
    using M(1) ids closed by (simp add: part_ok_def)
qed

section \<open>Several workers\<close>

text \<open>The main buffer takes the workers' buffers one after the other.\<close>

definition merge_workers :: "gbuf \<Rightarrow> gbuf list \<Rightarrow> gbuf" where
  "merge_workers dst ws = foldl pmm_gbuf_merge dst ws"

text \<open>No id is used twice, which the shared counter provides.\<close>

definition all_ids :: "gbuf list \<Rightarrow> int list" where
  "all_ids ws = concat (map (\<lambda>w. map gn_id (gb_nodes w)) ws)"

definition workers_ok :: "gbuf \<Rightarrow> gbuf list \<Rightarrow> bool" where
  "workers_ok dst ws \<longleftrightarrow> part_ok dst \<and> gb_shared_ids dst = None \<and> list_all part_ok ws \<and> distinct (all_ids (dst # ws))"

lemma all_ids_mset: "mset ws = mset vs \<Longrightarrow> mset (all_ids ws) = mset (all_ids vs)"
  by (simp add: all_ids_def mset_concat flip: sum_mset_sum_list)

lemma workers_ok_mset: "mset ws = mset vs \<Longrightarrow> workers_ok dst ws \<Longrightarrow> workers_ok dst vs"
proof -
  assume m: "mset ws = mset vs" and ok: "workers_ok dst ws"
  have "mset (all_ids (dst # ws)) = mset (all_ids (dst # vs))"
    by (rule all_ids_mset) (simp add: m)
  then have "distinct (all_ids (dst # vs))"
    using ok mset_eq_imp_distinct_iff by (auto simp: workers_ok_def)
  then show ?thesis
    using ok mset_eq_setD[OF m] by (simp add: workers_ok_def list_all_iff)
qed

lemma node_ids_list: "node_ids w = set (map gn_id (gb_nodes w))"
  by (simp add: node_ids_def)

text \<open>The labels that the workers bring to a name.\<close>

definition worker_labels :: "gbuf list \<Rightarrow> string \<Rightarrow> string set" where
  "worker_labels ws q = (\<Union>w\<in>set ws. labels_at w q)"

theorem merge_workers_result:
  assumes "part_ok dst" "gb_shared_ids dst = None" "list_all part_ok ws"
    and "distinct (all_ids ws)" "node_ids dst \<inter> set (all_ids ws) = {}"
  shows "part_ok (merge_workers dst ws)"
    and "named_edges (merge_workers dst ws) = named_edges dst \<union> (\<Union>w\<in>set ws. named_edges w)"
    and "(labels_at dst q \<union> worker_labels ws q) \<inter> containers = {} \<or> ''Module'' \<notin> worker_labels ws q \<Longrightarrow>
         key_content (merge_workers dst ws) q = foldl combine (key_content dst q) (map (\<lambda>w. key_content w q) ws)"
    and "labels_at dst q \<inter> containers \<noteq> {} \<Longrightarrow> worker_labels ws q \<subseteq> {''Module''} \<Longrightarrow>
         node_content (merge_workers dst ws) q = node_content dst q"
proof -
  have "part_ok (merge_workers dst ws) \<and>
    named_edges (merge_workers dst ws) = named_edges dst \<union> (\<Union>w\<in>set ws. named_edges w) \<and>
    ((labels_at dst q \<union> worker_labels ws q) \<inter> containers = {} \<or> ''Module'' \<notin> worker_labels ws q \<longrightarrow>
       key_content (merge_workers dst ws) q = foldl combine (key_content dst q) (map (\<lambda>w. key_content w q) ws)) \<and>
    (labels_at dst q \<inter> containers \<noteq> {} \<and> worker_labels ws q \<subseteq> {''Module''} \<longrightarrow>
       node_content (merge_workers dst ws) q = node_content dst q)"
    using assms
  proof (induction ws arbitrary: dst)
    case Nil
    then show ?case
      by (simp add: merge_workers_def)
  next
    case (Cons w ws)
    have disj: "node_ids dst \<inter> node_ids w = {}"
      using Cons.prems(5) by (auto simp: all_ids_def node_ids_list)
    let ?m = "pmm_gbuf_merge dst w"
    note W = merge_one_worker[OF Cons.prems(1,2) _ disj]
    have w: "part_ok w"
      using Cons.prems(3) by simp
    have tail: "list_all part_ok ws" "distinct (all_ids ws)" "node_ids w \<inter> set (all_ids ws) = {}"
      using Cons.prems(3,4) by (simp_all add: all_ids_def node_ids_list)
    have "node_ids ?m \<inter> set (all_ids ws) = {}"
    proof -
      have "node_ids dst \<inter> set (all_ids ws) = {}"
        using Cons.prems(5) by (auto simp: all_ids_def)
      then show ?thesis
        using W(3)[OF w] tail(3) by blast
    qed
    note IH = Cons.IH[OF W(1)[OF w] W(2)[OF w] tail(1,2) this]
    have step: "merge_workers dst (w # ws) = merge_workers ?m ws"
      by (simp add: merge_workers_def)
    have wl: "worker_labels (w # ws) q = labels_at w q \<union> worker_labels ws q"
      by (simp add: worker_labels_def)
    have lab: "labels_at ?m q \<subseteq> labels_at dst q \<union> labels_at w q"
      by (rule W(7)[OF w])
    have key: "key_content (merge_workers ?m ws) q = foldl combine (key_content dst q) (map (\<lambda>w. key_content w q) (w # ws))"
      if g: "(labels_at dst q \<union> worker_labels (w # ws) q) \<inter> containers = {} \<or> ''Module'' \<notin> worker_labels (w # ws) q"
    proof -
      have "key_content ?m q = combine (key_content dst q) (key_content w q)"
        by (rule W(5)[OF w]) (use g wl in auto)
      moreover have "(labels_at ?m q \<union> worker_labels ws q) \<inter> containers = {} \<or> ''Module'' \<notin> worker_labels ws q"
        using g lab unfolding wl by blast
      ultimately show ?thesis
        using IH by simp
    qed
    have seed: "node_content (merge_workers ?m ws) q = node_content dst q"
      if g: "labels_at dst q \<inter> containers \<noteq> {}" "worker_labels (w # ws) q \<subseteq> {''Module''}"
    proof -
      have "node_content ?m q = node_content dst q"
        by (rule W(6)[OF w]) (use g wl in auto)
      moreover from this have "labels_at ?m q = labels_at dst q"
        by (simp add: labels_at_def)
      ultimately show ?thesis
        using IH g unfolding wl by simp
    qed
    show ?case
      unfolding step using IH W(4)[OF w] key seed by auto
  qed
  then show "part_ok (merge_workers dst ws)"
    and "named_edges (merge_workers dst ws) = named_edges dst \<union> (\<Union>w\<in>set ws. named_edges w)"
    and "(labels_at dst q \<union> worker_labels ws q) \<inter> containers = {} \<or> ''Module'' \<notin> worker_labels ws q \<Longrightarrow>
         key_content (merge_workers dst ws) q = foldl combine (key_content dst q) (map (\<lambda>w. key_content w q) ws)"
    and "labels_at dst q \<inter> containers \<noteq> {} \<Longrightarrow> worker_labels ws q \<subseteq> {''Module''} \<Longrightarrow>
         node_content (merge_workers dst ws) q = node_content dst q"
    by blast+
qed

lemma foldl_combine_mset: "mset xs = mset ys \<Longrightarrow> foldl combine k xs = foldl combine k ys"
  unfolding foldl_conv_fold
proof (rule fold_multiset_equiv[THEN fun_cong])
  fix x y
  show "(\<lambda>s. combine s x) \<circ> (\<lambda>s. combine s y) = (\<lambda>s. combine s y) \<circ> (\<lambda>s. combine s x)"
    by (auto simp: fun_eq_iff combine_assoc) (metis combine_comm)
qed simp

end
