(* ===== verification/Gbuf_Pool.thy ===== *)
theory Gbuf_Pool
  imports Gbuf_Workers
begin

text \<open>
  The parallel extraction as the graph buffer sees it (src/src/pipeline/pass_parallel.c,
  src/src/graph_buffer/graph_buffer.c): every worker fills a buffer of its own and takes ids from
  one shared counter, in any interleaving.  A step is one upsert of a definition or one edge
  between two nodes of the worker's own buffer; the counter is handed to the buffer for the step
  and taken back after it, which is the atomic increment.
\<close>

record pool =
  pl_counter :: int
  pl_workers :: "gbuf list"

definition with_counter :: "int \<Rightarrow> gbuf \<Rightarrow> gbuf" where
  "with_counter c gb = gb\<lparr>gb_shared_ids := Some c\<rparr>"

definition pool_put :: "pool \<Rightarrow> nat \<Rightarrow> gbuf \<Rightarrow> pool" where
  "pool_put P w gb = \<lparr>pl_counter = pmm_gbuf_next_id gb, pl_workers = (pl_workers P)[w := gb]\<rparr>"

inductive pool_step :: "pool \<Rightarrow> pool \<Rightarrow> bool" where
  upsert: "w < length (pl_workers P) \<Longrightarrow> line_ok start \<Longrightarrow>
    pmm_gbuf_upsert_node (with_counter (pl_counter P) (pl_workers P ! w)) label name (Some qn) file start end_line props
      = (i, gb') \<Longrightarrow> pool_step P (pool_put P w gb')"
| edge: "w < length (pl_workers P) \<Longrightarrow> src \<in> live_ids (pl_workers P ! w) \<Longrightarrow> tgt \<in> live_ids (pl_workers P ! w) \<Longrightarrow>
    id64 src \<Longrightarrow> id64 tgt \<Longrightarrow> type_ok ty \<Longrightarrow>
    pmm_gbuf_insert_edge (with_counter (pl_counter P) (pl_workers P ! w)) src tgt (Some ty) props = (i, gb') \<Longrightarrow>
    pool_step P (pool_put P w gb')"

inductive pool_reachable :: "int \<Rightarrow> nat \<Rightarrow> pool \<Rightarrow> bool" for c0 :: int and k :: nat where
  start: "pool_reachable c0 k \<lparr>pl_counter = c0, pl_workers = replicate k (pmm_gbuf_new_shared_ids p r (Some c0))\<rparr>"
| step: "pool_reachable c0 k P \<Longrightarrow> pool_step P P' \<Longrightarrow> pool_reachable c0 k P'"

inductive_cases pool_stepE: "pool_step P P'"

text \<open>The invariant: each buffer is well formed below the counter, ids come from the counter and
  no two nodes share one.\<close>

definition worker_inv :: "int \<Rightarrow> int \<Rightarrow> gbuf \<Rightarrow> bool" where
  "worker_inv c0 c gb \<longleftrightarrow>
     gbuf_ok gb \<and> pmm_gbuf_next_id gb \<le> c \<and> (\<forall>i\<in>node_ids gb. c0 \<le> i \<and> i < c) \<and>
     lines_ok gb \<and> edges_closed gb"

definition pool_inv :: "int \<Rightarrow> pool \<Rightarrow> bool" where
  "pool_inv c0 P \<longleftrightarrow> c0 \<le> pl_counter P \<and> list_all (worker_inv c0 (pl_counter P)) (pl_workers P) \<and>
     distinct (all_ids (pl_workers P))"

lemma with_counter_at: "node_at (with_counter c gb) = node_at gb" "edge_at (with_counter c gb) = edge_at gb"
  by (simp_all add: with_counter_def node_at_def edge_at_def fun_eq_iff)

lemma with_counter_same [simp]:
  "node_content (with_counter c gb) = node_content gb" "edge_triples (with_counter c gb) = edge_triples gb"
  "gb_nodes (with_counter c gb) = gb_nodes gb" "pmm_gbuf_next_id (with_counter c gb) = c"
  unfolding node_content_def edge_triples_def edge_content_def with_counter_at
  by (simp_all add: with_counter_def pmm_gbuf_next_id_def)

lemma with_counter_ok:
  assumes "gbuf_ok gb" "pmm_gbuf_next_id gb \<le> c"
  shows "gbuf_ok (with_counter c gb)"
proof -
  have "nodes_ok (with_counter c gb)"
    using gbuf_okD(1)[OF assms(1)] nodes_ok_cong[of "with_counter c gb" gb] by (simp add: with_counter_def)
  moreover have "edges_ok (with_counter c gb)"
    by (rule edges_ok_cong[of _ gb, OF _ _ _ _ _ _ _ gbuf_okD(3)[OF assms(1)]])
      (use assms(2) in \<open>simp_all add: with_counter_def pmm_gbuf_next_id_def\<close>)
  moreover have "ids_below (with_counter c gb)"
    by (rule ids_below_cong[of _ gb, OF _ _ gbuf_okD(2)[OF assms(1)]]) (use assms(2) in simp_all)
  ultimately show ?thesis
    by (simp add: gbuf_ok_def)
qed

text \<open>An upsert adds at most the id it takes from the counter.\<close>

lemma upsert_ids:
  assumes "pmm_gbuf_upsert_node gb l n (Some q) f s e p = (i, gb')" "gbuf_ok gb"
  shows "(map gn_id (gb_nodes gb') = map gn_id (gb_nodes gb) \<and> pmm_gbuf_next_id gb' = pmm_gbuf_next_id gb) \<or>
    (map gn_id (gb_nodes gb') = map gn_id (gb_nodes gb) @ [pmm_gbuf_next_id gb] \<and>
     pmm_gbuf_next_id gb' = pmm_gbuf_next_id gb + 1)"
proof (cases "ht_get (gb_node_by_qn gb) q")
  case None
  obtain j gb1 where al: "alloc_next_id gb = (j, gb1)"
    by fastforce
  show ?thesis
    using assms(1) None alloc_frame[OF al] next_id_alloc[OF al] by (auto simp: pmm_gbuf_upsert_node_def al)
next
  case (Some r)
  have nid: "pmm_gbuf_next_id (update_in_place gb r l n f s e p) = pmm_gbuf_next_id gb"
    by (rule next_id_cong) simp_all
  have "map gn_id (gb_nodes (update_in_place gb r l n f s e p)) = map gn_id (gb_nodes gb)"
    using Some nodes_okD(2)[OF gbuf_okD(1)[OF assms(2)]]
    by (auto simp: update_in_place_def Let_def map_update node_at_def list_update_same_conv)
  then show ?thesis
    using assms(1) Some nid by (auto simp: pmm_gbuf_upsert_node_def Let_def split: if_splits)
qed

lemma upsert_edges_same:
  assumes "pmm_gbuf_upsert_node gb l n (Some q) f s e p = (i, gb')"
  shows "edge_triples gb' = edge_triples gb"
  using upsert_frame[OF assms] edge_at_cong[of gb' gb] by (simp add: edge_triples_def edge_content_def)

lemma upsert_result_id: "gn_id (upsert_result (Some d) i l n q f s e p) = gn_id d"
  by (simp add: upsert_result_def updated_node_def)

lemma worker_upsert:
  assumes inv: "worker_inv c0 c gb" and c: "c0 \<le> c" and start: "line_ok s"
    and up: "pmm_gbuf_upsert_node (with_counter c gb) l n (Some q) f s e p = (i, gb')"
  shows "worker_inv c0 (pmm_gbuf_next_id gb') gb'"
proof -
  have ok: "gbuf_ok (with_counter c gb)"
    using inv by (simp add: worker_inv_def with_counter_ok)
  note U = upsert_node_ok[OF ok up] and I = upsert_ids[OF up ok, simplified]
  have "\<forall>i\<in>node_ids gb'. c0 \<le> i \<and> i < pmm_gbuf_next_id gb'"
  proof -
    have old: "\<forall>i\<in>set (map gn_id (gb_nodes gb)). c0 \<le> i \<and> i < c"
      using inv by (simp add: worker_inv_def node_ids_list)
    show ?thesis
      unfolding node_ids_list using I
    proof
      assume "map gn_id (gb_nodes gb') = map gn_id (gb_nodes gb) \<and> pmm_gbuf_next_id gb' = c"
      then show "\<forall>i\<in>set (map gn_id (gb_nodes gb')). c0 \<le> i \<and> i < pmm_gbuf_next_id gb'"
        using old by simp
    next
      assume "map gn_id (gb_nodes gb') = map gn_id (gb_nodes gb) @ [c] \<and> pmm_gbuf_next_id gb' = c + 1"
      then show "\<forall>i\<in>set (map gn_id (gb_nodes gb')). c0 \<le> i \<and> i < pmm_gbuf_next_id gb'"
        using old c by auto
    qed
  qed
  moreover have "lines_ok gb'"
  proof -
    have "line_ok (gn_start_line m)" if "node_content gb' x = Some m" for x m
      using that inv start content_line_ok[of gb x]
      by (auto simp: U(2) worker_inv_def upsert_result_def fresh_node_def updated_node_def
          split: if_splits option.splits dest: content_line_ok)
    then show ?thesis
      by (auto simp: lines_ok_def ran_def)
  qed
  moreover have "edges_closed gb'"
  proof -
    have "live_ids gb \<subseteq> live_ids gb'"
    proof
      fix j
      assume "j \<in> live_ids gb"
      then obtain x m where m: "node_content gb x = Some m" "j = gn_id m"
        by (auto simp: live_ids_def ran_def)
      have "\<exists>m'. node_content gb' x = Some m' \<and> gn_id m' = j"
        using m by (cases "x = q") (auto simp: U(2) upsert_result_id)
      then show "j \<in> live_ids gb'"
        by (auto simp: live_ids_def ran_def)
    qed
    then show ?thesis
      using inv upsert_edges_same[OF up] by (auto simp: worker_inv_def edges_closed_def)
  qed
  ultimately show ?thesis
    using U(1) by (simp add: worker_inv_def)
qed

lemma worker_edge:
  assumes inv: "worker_inv c0 c gb" and ends: "src \<in> live_ids gb" "tgt \<in> live_ids gb"
    and wf: "id64 src" "id64 tgt" "type_ok ty"
    and ins: "pmm_gbuf_insert_edge (with_counter c gb) src tgt (Some ty) p = (i, gb')"
  shows "worker_inv c0 (pmm_gbuf_next_id gb') gb'" "gb_nodes gb' = gb_nodes gb" "c \<le> pmm_gbuf_next_id gb'"
proof -
  have ok: "gbuf_ok (with_counter c gb)"
    using inv by (simp add: worker_inv_def with_counter_ok)
  note I = insert_edge_gbuf_ok[OF ok wf ins] and T = insert_edge_triples[OF gbuf_okD(3)[OF ok] wf ins]
  show nodes: "gb_nodes gb' = gb_nodes gb" and c: "c \<le> pmm_gbuf_next_id gb'"
    using insert_edge_nodes[OF ins] by simp_all
  have live: "live_ids gb' = live_ids gb"
    by (simp add: live_ids_def I(2))
  have "\<forall>i\<in>node_ids gb'. c0 \<le> i \<and> i < pmm_gbuf_next_id gb'"
    using inv c nodes by (auto simp: worker_inv_def node_ids_def)
  moreover have "lines_ok gb'"
    using inv by (simp add: worker_inv_def lines_ok_def I(2))
  moreover have "edges_closed gb'"
    using inv ends by (auto simp: worker_inv_def edges_closed_def live T)
  ultimately show "worker_inv c0 (pmm_gbuf_next_id gb') gb'"
    using I(1) by (simp add: worker_inv_def)
qed

lemma worker_inv_mono: "worker_inv c0 c gb \<Longrightarrow> c \<le> c' \<Longrightarrow> worker_inv c0 c' gb"
  by (fastforce simp: worker_inv_def)

text \<open>Replacing one buffer of the list by one with the same ids, or with one fresh id more.\<close>

lemma all_ids_update:
  assumes "w < length ws"
  shows "mset (all_ids (ws[w := g])) + mset (map gn_id (gb_nodes (ws ! w))) =
         mset (all_ids ws) + mset (map gn_id (gb_nodes g))"
proof -
  have "mset (all_ids (ws[w := g])) = mset (all_ids (take w ws)) + mset (map gn_id (gb_nodes g)) + mset (all_ids (drop (Suc w) ws))"
    using assms by (simp add: upd_conv_take_nth_drop all_ids_def)
  moreover have "mset (all_ids ws) = mset (all_ids (take w ws)) + mset (map gn_id (gb_nodes (ws ! w))) + mset (all_ids (drop (Suc w) ws))"
    using id_take_nth_drop[OF assms] by (metis (no_types, lifting) all_ids_def append.assoc concat.simps(2) concat_append list.simps(9) map_append mset_append)
  ultimately show ?thesis
    by simp
qed

lemma list_all_replace:
  "list_all Q ws \<Longrightarrow> (\<And>x. Q x \<Longrightarrow> R x) \<Longrightarrow> R g \<Longrightarrow> list_all R (ws[w := g])"
  by (auto simp: list_all_iff dest: set_update_subset_insert[THEN subsetD])

lemma pool_step_inv:
  assumes "pool_inv c0 P" "pool_step P P'"
  shows "pool_inv c0 P'"
  using assms(2)
proof cases
  case (upsert w start label name qn fp end_line props i gb')
  let ?c = "pl_counter P" and ?gb = "pl_workers P ! w"
  have inv: "worker_inv c0 ?c ?gb" and c0: "c0 \<le> ?c" and all: "list_all (worker_inv c0 ?c) (pl_workers P)"
    and dist: "distinct (all_ids (pl_workers P))"
    using assms(1) upsert(2) by (simp_all add: pool_inv_def list_all_length)
  have ok: "gbuf_ok (with_counter ?c ?gb)"
    using inv by (simp add: worker_inv_def with_counter_ok)
  note W = worker_upsert[OF inv c0 upsert(3,4)] and I = upsert_ids[OF upsert(4) ok, simplified]
  have mono: "?c \<le> pmm_gbuf_next_id gb'"
    using I by linarith
  have below: "?c \<notin> set (all_ids (pl_workers P))"
    using all by (force simp: all_ids_def list_all_iff worker_inv_def node_ids_def)
  have "distinct (all_ids ((pl_workers P)[w := gb']))"
    using I
  proof
    assume "map gn_id (gb_nodes gb') = map gn_id (gb_nodes ?gb) \<and> pmm_gbuf_next_id gb' = ?c"
    then have "mset (all_ids ((pl_workers P)[w := gb'])) = mset (all_ids (pl_workers P))"
      using all_ids_update[OF upsert(2), of gb'] by simp
    then show ?thesis
      using dist mset_eq_imp_distinct_iff by blast
  next
    assume "map gn_id (gb_nodes gb') = map gn_id (gb_nodes ?gb) @ [?c] \<and> pmm_gbuf_next_id gb' = ?c + 1"
    then have "mset (all_ids ((pl_workers P)[w := gb'])) = mset (?c # all_ids (pl_workers P))"
      using all_ids_update[OF upsert(2), of gb'] by simp
    then show ?thesis
      using dist below mset_eq_imp_distinct_iff[of _ "?c # all_ids (pl_workers P)"] by simp
  qed
  moreover have "list_all (worker_inv c0 (pmm_gbuf_next_id gb')) ((pl_workers P)[w := gb'])"
    by (rule list_all_replace[OF all]) (rule worker_inv_mono[OF _ mono] W; assumption?)+
  ultimately show ?thesis
    using c0 mono by (simp add: pool_inv_def pool_put_def upsert(1))
next
  case (edge w src tgt ty props i gb')
  let ?c = "pl_counter P" and ?gb = "pl_workers P ! w"
  have inv: "worker_inv c0 ?c ?gb" and c0: "c0 \<le> ?c" and all: "list_all (worker_inv c0 ?c) (pl_workers P)"
    and dist: "distinct (all_ids (pl_workers P))"
    using assms(1) edge(2) by (simp_all add: pool_inv_def list_all_length)
  note W = worker_edge[OF inv edge(3-8)]
  have "mset (all_ids ((pl_workers P)[w := gb'])) = mset (all_ids (pl_workers P))"
    using all_ids_update[OF edge(2), of gb'] W(2) by simp
  then have "distinct (all_ids ((pl_workers P)[w := gb']))"
    using dist mset_eq_imp_distinct_iff by blast
  moreover have "list_all (worker_inv c0 (pmm_gbuf_next_id gb')) ((pl_workers P)[w := gb'])"
    by (rule list_all_replace[OF all]) (rule worker_inv_mono[OF _ W(3)] W(1); assumption?)+
  ultimately show ?thesis
    using c0 W(3) by (simp add: pool_inv_def pool_put_def edge(1))
qed

lemma all_ids_empty: "\<forall>w\<in>set ws. gb_nodes w = [] \<Longrightarrow> all_ids ws = []"
  by (induction ws) (simp_all add: all_ids_def)

lemma pool_reachable_inv:
  assumes "0 < c0"
  shows "pool_reachable c0 k P \<Longrightarrow> pool_inv c0 P"
proof (induction rule: pool_reachable.induct)
  case (start p r)
  let ?g = "pmm_gbuf_new_shared_ids p r (Some c0)"
  have g: "gb_nodes ?g = []" "pmm_gbuf_next_id ?g = c0" "node_content ?g = (\<lambda>q. None)" "edge_triples ?g = {}"
    by (simp_all add: pmm_gbuf_new_shared_ids_def pmm_gbuf_new_def Let_def pmm_gbuf_next_id_def node_content_def
        edge_triples_def edge_content_def fun_eq_iff)
  have "worker_inv c0 c0 ?g"
    using gbuf_ok_new(2)[OF assms] by (simp add: worker_inv_def g node_ids_def lines_ok_def edges_closed_def ran_def)
  moreover have "all_ids (replicate k ?g) = []"
    by (rule all_ids_empty) (simp add: g)
  ultimately show ?case
    by (simp add: pool_inv_def list_all_iff)
next
  case (step P P')
  then show ?case
    using pool_step_inv by blast
qed

text \<open>When the counter starts where the main buffer stands, the workers can be merged.\<close>

lemma pool_workers_ok:
  assumes main: "part_ok main" "gb_shared_ids main = None"
    and run: "pool_reachable (pmm_gbuf_next_id main) k P" and small: "pl_counter P \<le> LONG_MAX"
  shows "workers_ok main (pl_workers P)"
proof -
  let ?c0 = "pmm_gbuf_next_id main"
  have ok: "gbuf_ok main"
    using main(1) by (simp add: part_ok_def)
  have pos: "0 < ?c0"
    using gbuf_okD(3)[OF ok] by (simp add: edges_ok_def)
  have inv: "pool_inv ?c0 P"
    by (rule pool_reachable_inv[OF pos run])
  then have all: "list_all (worker_inv ?c0 (pl_counter P)) (pl_workers P)" and dist: "distinct (all_ids (pl_workers P))"
    by (simp_all add: pool_inv_def)
  have "part_ok w" if "w \<in> set (pl_workers P)" for w
  proof -
    have w: "worker_inv ?c0 (pl_counter P) w"
      using all that by (simp add: list_all_iff)
    have "\<forall>i\<in>node_ids w. id64 i"
      using w pos small by (fastforce simp: worker_inv_def id64_def)
    then show ?thesis
      using w by (simp add: worker_inv_def part_ok_def ids64_def list_all_iff node_ids_def)
  qed
  moreover have "set (map gn_id (gb_nodes main)) \<inter> set (all_ids (pl_workers P)) = {}"
  proof -
    have "i < ?c0" if "i \<in> set (map gn_id (gb_nodes main))" for i
      using that gbuf_okD(2)[OF ok] by (auto simp: ids_below_def node_at_def in_set_conv_nth)
    moreover have "?c0 \<le> i" if "i \<in> set (all_ids (pl_workers P))" for i
      using that all by (force simp: all_ids_def list_all_iff worker_inv_def node_ids_def)
    ultimately show ?thesis
      by force
  qed
  moreover have "distinct (map gn_id (gb_nodes main))"
    using nodes_okD(3)[OF gbuf_okD(1)[OF ok]]
    by (simp add: distinct_conv_nth node_at_def inj_on_def) blast
  ultimately show ?thesis
    using main dist by (simp add: workers_ok_def list_all_iff all_ids_def)
qed

end
