(* ===== verification/Gbuf_Props.thy ===== *)
theory Gbuf_Props
  imports Gbuf_Pool
begin

text \<open>
  The properties of the graph buffer (src/src/graph_buffer/graph_buffer.c) in the index that the
  passes of the indexer fill: the invariant of every reachable buffer, the lookups, the upsert
  and the deletion by file as operations on a map, the deduplication of edges, and the merge of
  the workers' buffers.
\<close>

section \<open>The invariant\<close>

inductive gbuf_reachable :: "gbuf \<Rightarrow> bool" where
  new: "gbuf_reachable (pmm_gbuf_new p r)"
| new_shared: "0 < i \<Longrightarrow> gbuf_reachable (pmm_gbuf_new_shared_ids p r (Some i))"
| upsert: "gbuf_reachable gb \<Longrightarrow> gbuf_reachable (snd (pmm_gbuf_upsert_node gb l n q f s e props))"
| insert: "gbuf_reachable gb \<Longrightarrow> id64 src \<Longrightarrow> id64 tgt \<Longrightarrow> type_ok ty \<Longrightarrow>
    gbuf_reachable (snd (pmm_gbuf_insert_edge gb src tgt (Some ty) props))"
| delete_file: "gbuf_reachable gb \<Longrightarrow> pmm_gbuf_next_id gb \<le> LONG_MAX \<Longrightarrow>
    gbuf_reachable (snd (pmm_gbuf_delete_by_file gb f))"
| delete_type: "gbuf_reachable gb \<Longrightarrow> gbuf_reachable (snd (pmm_gbuf_delete_edges_by_type gb type))"
| set_next_id: "gbuf_reachable gb \<Longrightarrow> gb_next_id gb \<le> i \<Longrightarrow> gbuf_reachable (pmm_gbuf_set_next_id gb i)"
| vector: "gbuf_reachable gb \<Longrightarrow> gbuf_reachable (snd (pmm_gbuf_store_vector gb i v))"
| token: "gbuf_reachable gb \<Longrightarrow> gbuf_reachable (snd (pmm_gbuf_store_token_vector gb tok v w))"
| merge: "gbuf_reachable dst \<Longrightarrow> gb_shared_ids dst = None \<Longrightarrow> ids64 dst \<Longrightarrow> gbuf_reachable src \<Longrightarrow> ids64 src \<Longrightarrow>
    node_ids dst \<inter> node_ids src = {} \<Longrightarrow> gbuf_reachable (pmm_gbuf_merge dst src)"

lemma gbuf_ok_frame:
  assumes "gbuf_ok gb" "gb_nodes g = gb_nodes gb" "gb_node_by_qn g = gb_node_by_qn gb" "gb_by_id g = gb_by_id gb"
    "gb_by_id_cap g = gb_by_id_cap gb" "gb_nodes_by_label g = gb_nodes_by_label gb"
    "gb_nodes_by_name g = gb_nodes_by_name gb" "gb_edges g = gb_edges gb" "gb_edge_heap g = gb_edge_heap gb"
    "gb_edge_by_key g = gb_edge_by_key gb" "gb_edges_by_source_type g = gb_edges_by_source_type gb"
    "gb_edges_by_target_type g = gb_edges_by_target_type gb" "gb_edges_by_type g = gb_edges_by_type gb"
    "pmm_gbuf_next_id gb \<le> pmm_gbuf_next_id g"
  shows "gbuf_ok g"
proof -
  have "nodes_ok g"
    using gbuf_okD(1)[OF assms(1)] nodes_ok_cong[of g gb] assms(2-7) by simp
  moreover have "edges_ok g"
    by (rule edges_ok_cong[of g gb, OF assms(8-14) gbuf_okD(3)[OF assms(1)]])
  moreover have "ids_below g"
    by (rule ids_below_cong[of g gb, OF assms(2,14) gbuf_okD(2)[OF assms(1)]])
  ultimately show ?thesis
    by (simp add: gbuf_ok_def)
qed

lemma delete_by_file_ok: "gbuf_ok gb \<Longrightarrow> pmm_gbuf_next_id gb \<le> LONG_MAX \<Longrightarrow> gbuf_ok (snd (pmm_gbuf_delete_by_file gb f))"
  using delete_by_file_result(1)[of gb] by (cases f) (auto simp: pmm_gbuf_delete_by_file_def intro: prod.collapse[symmetric])

lemma delete_type_gbuf_ok:
  assumes "gbuf_ok gb"
  shows "gbuf_ok (snd (pmm_gbuf_delete_edges_by_type gb type))"
proof (cases type)
  case None
  then show ?thesis
    using assms by (simp add: pmm_gbuf_delete_edges_by_type_def)
next
  case (Some ty)
  let ?g = "snd (pmm_gbuf_delete_edges_by_type gb (Some ty))"
  have F: "gb_nodes ?g = gb_nodes gb" "gb_node_by_qn ?g = gb_node_by_qn gb" "gb_by_id ?g = gb_by_id gb"
    "gb_by_id_cap ?g = gb_by_id_cap gb" "gb_nodes_by_label ?g = gb_nodes_by_label gb"
    "gb_nodes_by_name ?g = gb_nodes_by_name gb" "gb_next_id ?g = gb_next_id gb" "gb_shared_ids ?g = gb_shared_ids gb"
    by (simp_all add: pmm_gbuf_delete_edges_by_type_def rebuild_frame delete_type_loop_result)
  have "nodes_ok ?g"
    using gbuf_okD(1)[OF assms] nodes_ok_cong[of ?g gb] F by simp
  moreover have "ids_below ?g"
    by (rule ids_below_cong[of ?g gb, OF F(1) _ gbuf_okD(2)[OF assms]]) (simp only: next_id_cong[OF F(7,8)])
  ultimately show ?thesis
    using delete_edges_by_type_ok[OF gbuf_okD(3)[OF assms], of type] Some by (simp add: gbuf_ok_def)
qed

lemma reachable_gbuf_ok: "gbuf_reachable gb \<Longrightarrow> gbuf_ok gb"
proof (induction rule: gbuf_reachable.induct)
  case (insert gb src tgt ty props)
  then show ?case
    using insert_edge_gbuf_ok(1)[of gb src tgt ty props] by (metis prod.collapse)
next
  case (set_next_id gb i)
  then show ?case
    by (intro gbuf_ok_frame[OF set_next_id.IH])
      (simp_all add: pmm_gbuf_set_next_id_def pmm_gbuf_next_id_def split: option.split)
next
  case (vector gb i v)
  then show ?case
    by (intro gbuf_ok_frame[OF vector.IH])
      (simp_all add: pmm_gbuf_store_vector_def pmm_gbuf_next_id_def split: option.split)
next
  case (token gb tok v w)
  then show ?case
    by (intro gbuf_ok_frame[OF token.IH])
      (simp_all add: pmm_gbuf_store_token_vector_def pmm_gbuf_next_id_def split: option.split)
next
  case (merge dst src)
  then show ?case
    using merge_facts[of dst src] by metis
qed (simp_all add: gbuf_ok_new upsert_gbuf_ok delete_by_file_ok delete_type_gbuf_ok)

text \<open>C6: the indexes of a buffer describe its content.  In every buffer that the operations reach
  from an empty one (upserts, edge insertions, deletions by file and by edge type, merges) the
  index by qualified name, the array by id and the lists by label and by name hold exactly the
  nodes not deleted, the dedup index and the three edge lists hold exactly the live edges, each
  once, and no index refers to a freed edge.\<close>

theorem gbuf_invariant:
  assumes "gbuf_reachable gb"
  shows "(\<forall>q r. pmm_gbuf_find_by_qn gb q = Some r \<longleftrightarrow> r \<in> live_refs gb \<and> gn_qualified_name (node_at gb r) = Some q) \<and>
    (\<forall>i r. pmm_gbuf_find_by_id gb i = Some r \<longleftrightarrow> r \<in> live_refs gb \<and> gn_id (node_at gb r) = i) \<and>
    indexed_by (gb_nodes_by_label gb) (\<lambda>r. gn_label (node_at gb r)) (live_refs gb) \<and>
    indexed_by (gb_nodes_by_name gb) (\<lambda>r. gn_name (node_at gb r)) (live_refs gb) \<and>
    (\<forall>k r. ht_get (gb_edge_by_key gb) k = Some r \<longleftrightarrow> r \<in> set (gb_edges gb) \<and> edge_key (edge_at gb r) = k) \<and>
    indexed_by (gb_edges_by_source_type gb) (\<lambda>r. source_key (edge_at gb r)) (set (gb_edges gb)) \<and>
    indexed_by (gb_edges_by_target_type gb) (\<lambda>r. target_key (edge_at gb r)) (set (gb_edges gb)) \<and>
    indexed_by (gb_edges_by_type gb) (\<lambda>r. ge_type (edge_at gb r)) (set (gb_edges gb)) \<and> distinct (gb_edges gb)"
proof -
  note ok = gbuf_okD[OF reachable_gbuf_ok[OF assms]]
  note D = nodes_okD[OF ok(1)]
  have "pmm_gbuf_find_by_qn gb q = Some r \<longleftrightarrow> r \<in> live_refs gb \<and> gn_qualified_name (node_at gb r) = Some q" for q r
    using D(2)[of q r] by (auto simp: pmm_gbuf_find_by_qn_def live_refs_def)
  moreover have "pmm_gbuf_find_by_id gb i = Some r \<longleftrightarrow> r \<in> live_refs gb \<and> gn_id (node_at gb r) = i" for i r
    using D(4)[of r] D(5)[of i r] by (auto simp: pmm_gbuf_find_by_id_def live_refs_def)
  ultimately show ?thesis
    using D(6) ok(3) by (simp add: node_lists_on_def edges_ok_def edge_keys_on_def edge_lists_on_def)
qed

section \<open>A buffer with two nodes and an edge\<close>

definition demo_gbuf :: gbuf where
  "demo_gbuf =
     (let g0 = pmm_gbuf_new (Some ''p'') None;
          g1 = snd (pmm_gbuf_upsert_node g0 (Some ''Function'') (Some ''f'') (Some ''p.f'') (Some ''a.c'') 1 2 None);
          g2 = snd (pmm_gbuf_upsert_node g1 (Some ''Function'') (Some ''g'') (Some ''p.g'') (Some ''b.c'') 3 4 None)
      in snd (pmm_gbuf_insert_edge g2 1 2 (Some ''CALLS'') None))"

lemma demo_reachable: "gbuf_reachable demo_gbuf"
  unfolding demo_gbuf_def Let_def
  by (rule gbuf_reachable.insert) (simp_all add: gbuf_reachable.upsert gbuf_reachable.new id64_def type_ok_def)

lemma demo_next_id: "pmm_gbuf_next_id demo_gbuf = 4"
  by code_simp

lemma gbuf_invariant_witness: "distinct (gb_edges demo_gbuf)"
  using gbuf_invariant[OF demo_reachable] by blast

section \<open>Nodes\<close>

lemma count_content: "nodes_ok gb \<Longrightarrow> ht_count (gb_node_by_qn gb) = card (dom (node_content gb))"
  by (simp add: ht.count[OF nodes_okD(1)] dom_def node_content_def)

lemma foreach_nodes: "pmm_gbuf_foreach_node gb (\<lambda>n acc. acc @ [n]) [] = [n \<leftarrow> gb_nodes gb. live_node gb n]"
proof -
  have "fold (\<lambda>n acc. acc @ [n]) ns xs = xs @ ns" for ns xs :: "gnode list"
    by (induction ns arbitrary: xs) simp_all
  then show ?thesis
    by (simp add: pmm_gbuf_foreach_node_def)
qed

text \<open>The iteration visits each live node once, and the node count is the number of visits.
  It visits exactly the nodes of the map from qualified names, no two with one name or one id.\<close>

theorem foreach_visits_content:
  assumes "gbuf_reachable gb"
  defines "visited \<equiv> pmm_gbuf_foreach_node gb (\<lambda>n acc. acc @ [n]) []"
  shows "set visited = ran (node_content gb) \<and> distinct (map gn_id visited) \<and>
    distinct (map gn_qualified_name visited) \<and> pmm_gbuf_node_count gb = int32 (int (length visited))"
proof -
  note N = gbuf_okD(1)[OF reachable_gbuf_ok[OF assms(1)]]
  note L = live_list[OF N]
  have names: "set (map (\<lambda>n. or_empty (gn_qualified_name n)) visited) = dom (node_content gb)"
    unfolding visited_def foreach_nodes set_map L(4)
    by (force simp: ran_def dom_def or_empty_def node_content_Some[OF N] image_iff split: option.splits)
  have "distinct (map (\<lambda>n. or_empty (gn_qualified_name n)) visited)"
  proof -
    have "inj_on (\<lambda>n. or_empty (gn_qualified_name n)) (set visited)"
    proof (rule inj_onI)
      fix x y
      assume xy: "x \<in> set visited" "y \<in> set visited" "or_empty (gn_qualified_name x) = or_empty (gn_qualified_name y)"
      obtain q q' where "node_content gb q = Some x" "node_content gb q' = Some y"
        using xy(1,2) unfolding visited_def foreach_nodes L(4) ran_def by blast
      moreover from this have "gn_qualified_name x = Some q" "gn_qualified_name y = Some q'"
        by (auto simp: node_content_Some[OF N])
      ultimately show "x = y"
        using xy(3) by (simp add: or_empty_def)
    qed
    then show ?thesis
      using L(3) by (simp add: distinct_map visited_def foreach_nodes)
  qed
  then have "card (dom (node_content gb)) = length visited"
    using names by (metis distinct_card length_map)
  then show ?thesis
    using L by (simp add: visited_def foreach_nodes pmm_gbuf_node_count_def count_content[OF N])
qed

lemma foreach_visits_content_witness:
  "pmm_gbuf_node_count demo_gbuf = int32 (int (length (pmm_gbuf_foreach_node demo_gbuf (\<lambda>n acc. acc @ [n]) [])))"
  using foreach_visits_content[OF demo_reachable] by blast

text \<open>C9: the upsert is the update of a map.  Under its qualified name the buffer holds the new node,
  the kept canonical winner or the refreshed one; nothing else changes, no edge is touched, the id
  handed back is the id of the node now under that name, and only a new name adds to the count.\<close>

theorem upsert_refines_map:
  assumes "gbuf_reachable gb" "pmm_gbuf_upsert_node gb label name (Some q) fp start end_line props = (i, gb')"
  defines "n \<equiv> upsert_result (node_content gb q) (pmm_gbuf_next_id gb) label name q fp start end_line props"
  shows "node_content gb' = (node_content gb)(q \<mapsto> n) \<and> i = gn_id n \<and> edge_content gb' = edge_content gb \<and>
    ht_count (gb_node_by_qn gb') =
      (case node_content gb q of None \<Rightarrow> Suc (ht_count (gb_node_by_qn gb)) | Some _ \<Rightarrow> ht_count (gb_node_by_qn gb))"
proof -
  note ok = reachable_gbuf_ok[OF assms(1)]
  note U = upsert_node_ok[OF ok assms(2), folded n_def]
  have fin: "finite (dom (node_content gb))"
    using ht.finite_keys[of "gb_node_by_qn gb"] by (simp add: dom_def node_content_def)
  have "ht_count (gb_node_by_qn gb') = card (insert q (dom (node_content gb)))"
    by (simp add: count_content[OF gbuf_okD(1)[OF U(1)]] U(2))
  also have "\<dots> = (case node_content gb q of None \<Rightarrow> Suc (ht_count (gb_node_by_qn gb)) | Some _ \<Rightarrow> ht_count (gb_node_by_qn gb))"
    using fin by (auto simp: count_content[OF gbuf_okD(1)[OF ok]] card_insert_if split: option.split)
  finally show ?thesis
    using U(2,3) upsert_frame[OF assms(2)] edge_at_cong[of gb' gb] by (simp add: edge_content_def)
qed

lemma upsert_refines_map_witness:
  "fst (pmm_gbuf_upsert_node demo_gbuf (Some ''Class'') (Some ''f'') (Some ''p.f'') (Some ''b.c'') 9 9 None) = 1"
proof -
  obtain i gb' where up: "pmm_gbuf_upsert_node demo_gbuf (Some ''Class'') (Some ''f'') (Some ''p.f'') (Some ''b.c'') 9 9 None = (i, gb')"
    by fastforce
  have "gn_id (upsert_result (node_content demo_gbuf ''p.f'') (pmm_gbuf_next_id demo_gbuf) (Some ''Class'') (Some ''f'')
      ''p.f'' (Some ''b.c'') 9 9 None) = 1"
    by code_simp
  then show ?thesis
    using upsert_refines_map[OF demo_reachable up] up by simp
qed

text \<open>C12: deleting a file removes exactly its nodes and what hangs on them.  The result is the
  number of nodes removed; a node of another file stays under its name as it was, and an edge
  stays, in its place, just when neither of its ends was removed.\<close>

theorem delete_by_file_exact:
  assumes "gbuf_reachable gb" "pmm_gbuf_next_id gb \<le> LONG_MAX" "pmm_gbuf_delete_by_file gb (Some f) = (k, gb')"
  shows "k = int (card (file_ids gb f)) \<and>
    node_content gb' = (\<lambda>q. case node_content gb q of
        Some n \<Rightarrow> if gn_file_path n = f then None else Some n | None \<Rightarrow> None) \<and>
    edge_content gb' = [e \<leftarrow> edge_content gb. ge_source_id e \<notin> file_ids gb f \<and> ge_target_id e \<notin> file_ids gb f]"
  using delete_by_file_result[OF reachable_gbuf_ok[OF assms(1)] assms(2,3)] by (auto simp: fun_eq_iff)

lemma delete_by_file_exact_witness:
  "edge_content (snd (pmm_gbuf_delete_by_file demo_gbuf (Some ''a.c''))) = []"
proof -
  obtain k gb' where del: "pmm_gbuf_delete_by_file demo_gbuf (Some ''a.c'') = (k, gb')"
    by fastforce
  have "file_ids demo_gbuf ''a.c'' \<supseteq> {1}"
  proof -
    have "node_content demo_gbuf ''p.f'' \<noteq> None" "gn_file_path (the (node_content demo_gbuf ''p.f'')) = ''a.c''"
      "gn_id (the (node_content demo_gbuf ''p.f'')) = 1"
      by code_simp+
    then show ?thesis
      by (auto simp: file_ids_def)
  qed
  moreover have "edge_content demo_gbuf = [\<lparr>ge_id = 3, ge_source_id = 1, ge_target_id = 2, ge_type = ''CALLS'',
      ge_properties_json = ''{}''\<rparr>]"
    by code_simp
  ultimately show ?thesis
    using delete_by_file_exact[OF demo_reachable _ del] demo_next_id del by (auto simp: filter_empty_conv)
qed

section \<open>Edges\<close>

lemma index_mset:
  assumes "indexed_by t key (set rs)" "distinct rs"
  shows "mset (bucket t k) = mset [r \<leftarrow> rs. key r = k]"
proof -
  have "set (bucket t k) = set [r \<leftarrow> rs. key r = k]"
    using indexed_byD(2)[OF assms(1), of k] by auto
  then show ?thesis
    using indexed_byD(1)[OF assms(1)] assms(2) by (simp add: set_eq_iff_mset_eq_distinct del: set_filter)
qed

text \<open>The edge lookups are exact.  For an id of 64 bits and an edge type that is short and has no
  colon, the lists by source and type, by target and type and by type hold the live edges with
  these ends and this type, each as often as the buffer holds it, and the count by type is their
  number.\<close>

theorem find_edges_exact:
  assumes "gbuf_reachable gb" "id64 i" "type_ok ty"
  shows "mset (map (edge_at gb) (pmm_gbuf_find_edges_by_source_type gb i ty)) =
      mset [e \<leftarrow> edge_content gb. ge_source_id e = i \<and> ge_type e = ty] \<and>
    mset (map (edge_at gb) (pmm_gbuf_find_edges_by_target_type gb i ty)) =
      mset [e \<leftarrow> edge_content gb. ge_target_id e = i \<and> ge_type e = ty] \<and>
    mset (map (edge_at gb) (pmm_gbuf_find_edges_by_type gb ty)) = mset [e \<leftarrow> edge_content gb. ge_type e = ty] \<and>
    pmm_gbuf_edge_count_by_type gb (Some ty) = int (length [e \<leftarrow> edge_content gb. ge_type e = ty])"
proof -
  note ok = gbuf_okD(3)[OF reachable_gbuf_ok[OF assms(1)]]
  have lists: "indexed_by (gb_edges_by_source_type gb) (\<lambda>r. source_key (edge_at gb r)) (set (gb_edges gb))"
    "indexed_by (gb_edges_by_target_type gb) (\<lambda>r. target_key (edge_at gb r)) (set (gb_edges gb))"
    "indexed_by (gb_edges_by_type gb) (\<lambda>r. ge_type (edge_at gb r)) (set (gb_edges gb))" and dist: "distinct (gb_edges gb)"
    using ok by (simp_all add: edges_ok_def edge_lists_on_def)
  have wf: "edge_wf (edge_at gb r)" if "r \<in> set (gb_edges gb)" for r
    using ok that by (auto simp: edges_ok_def edge_heap_ok_def)
  have src: "[r \<leftarrow> gb_edges gb. source_key (edge_at gb r) = make_src_type_key i ty] =
      [r \<leftarrow> gb_edges gb. ge_source_id (edge_at gb r) = i \<and> ge_type (edge_at gb r) = ty]"
    using wf assms(2,3) by (intro filter_cong) (auto simp: source_key_def edge_wf_def make_src_type_key_inj)
  have tgt: "[r \<leftarrow> gb_edges gb. target_key (edge_at gb r) = make_src_type_key i ty] =
      [r \<leftarrow> gb_edges gb. ge_target_id (edge_at gb r) = i \<and> ge_type (edge_at gb r) = ty]"
    using wf assms(2,3) by (intro filter_cong) (auto simp: target_key_def edge_wf_def make_src_type_key_inj)
  note M = index_mset[OF lists(1) dist, of "make_src_type_key i ty"] index_mset[OF lists(2) dist, of "make_src_type_key i ty"]
    index_mset[OF lists(3) dist, of ty]
  have "length (bucket (gb_edges_by_type gb) ty) = length [r \<leftarrow> gb_edges gb. ge_type (edge_at gb r) = ty]"
    by (rule mset_eq_length[OF M(3)])
  then show ?thesis
    using M unfolding src tgt
    by (simp add: pmm_gbuf_find_edges_by_source_type_def pmm_gbuf_find_edges_by_target_type_def
        pmm_gbuf_find_edges_by_type_def pmm_gbuf_edge_count_by_type_def edge_content_def filter_map comp_def)
qed

lemma find_edges_exact_witness:
  "pmm_gbuf_edge_count_by_type demo_gbuf (Some ''CALLS'') = 1"
proof -
  have "length [e \<leftarrow> edge_content demo_gbuf. ge_type e = ''CALLS''] = 1"
    by code_simp
  then show ?thesis
    using find_edges_exact[OF demo_reachable, of 1 "''CALLS''"] by (simp add: id64_def type_ok_def)
qed

text \<open>An edge is stored once.  Inserting an edge updates the map from dedup keys to edges at its
  key and adds its ends and type to the set of edges; away from imports no two live edges agree in
  both ends and the type, and inserting the same ends and type again hands back the same id.\<close>

theorem insert_edge_dedup:
  assumes "gbuf_reachable gb" "id64 src" "id64 tgt" "type_ok ty"
    and "pmm_gbuf_insert_edge gb src tgt (Some ty) props = (i, gb')"
  shows "edge_map gb' = (edge_map gb)(make_edge_key src tgt ty props \<mapsto>
      insert_result (edge_map gb (make_edge_key src tgt ty props)) (pmm_gbuf_next_id gb) src tgt ty props) \<and>
    ran (edge_map gb') = set (edge_content gb') \<and>
    edge_triples gb' = insert (src, tgt, ty) (edge_triples gb) \<and> node_content gb' = node_content gb \<and>
    distinct (map edge_triple [e \<leftarrow> edge_content gb'. ge_type e \<noteq> ''IMPORTS'']) \<and>
    (if ty = ''IMPORTS'' then True else fst (pmm_gbuf_insert_edge gb' src tgt (Some ty) props2) = i)"
proof -
  note ok = reachable_gbuf_ok[OF assms(1)]
  note E = gbuf_okD(3)[OF ok]
  note I = insert_edge_content[OF E assms(2-5)] and G = insert_edge_gbuf_ok[OF ok assms(2-5)]
  note E' = gbuf_okD(3)[OF G(1)]
  let ?rs = "[r \<leftarrow> gb_edges gb'. ge_type (edge_at gb' r) \<noteq> ''IMPORTS'']"
  have "inj_on (\<lambda>r. edge_triple (edge_at gb' r)) (set ?rs)"
  proof (rule inj_onI)
    fix x y
    assume xy: "x \<in> set ?rs" "y \<in> set ?rs" "edge_triple (edge_at gb' x) = edge_triple (edge_at gb' y)"
    then have "edge_key (edge_at gb' x) = edge_key (edge_at gb' y)"
      using make_edge_key_plain[of "ge_type (edge_at gb' x)"] by (auto simp: edge_key_def edge_triple_def)
    moreover have "ht_get (gb_edge_by_key gb') (edge_key (edge_at gb' z)) = Some z" if "z \<in> set ?rs" for z
      using E' that by (simp add: edges_ok_def edge_keys_on_def)
    ultimately show "x = y"
      using xy(1,2) by (metis option.inject)
  qed
  then have "distinct (map edge_triple [e \<leftarrow> edge_content gb'. ge_type e \<noteq> ''IMPORTS''])"
    using E' by (simp add: edge_content_def filter_map comp_def distinct_map edges_ok_def)
  moreover have "fst (pmm_gbuf_insert_edge gb' src tgt (Some ty) props2) = i" if ne: "ty \<noteq> ''IMPORTS''"
  proof -
    obtain j gb'' where ins: "pmm_gbuf_insert_edge gb' src tgt (Some ty) props2 = (j, gb'')"
      by fastforce
    have "make_edge_key src tgt ty props2 = make_edge_key src tgt ty props"
      using make_edge_key_strdup[of src tgt ty props] make_edge_key_strdup[of src tgt ty props2]
        make_edge_key_plain[OF ne, of src tgt] by metis
    then have "j = ge_id (insert_result (Some (insert_result (edge_map gb (make_edge_key src tgt ty props))
        (pmm_gbuf_next_id gb) src tgt ty props)) (pmm_gbuf_next_id gb') src tgt ty props2)"
      using insert_edge_content(2)[OF E' assms(2-4) ins] by (simp add: I(1))
    then show ?thesis
      using I(2) ins by (simp add: insert_result_def split: option.splits)
  qed
  ultimately show ?thesis
    using I(1) G(2) insert_edge_triples[OF E assms(2-5)] edge_map_content[OF E'] by simp
qed

lemma insert_edge_dedup_witness:
  "edge_triples (snd (pmm_gbuf_insert_edge demo_gbuf 2 1 (Some ''CALLS'') None)) = insert (2, 1, ''CALLS'') (edge_triples demo_gbuf)"
proof -
  obtain i gb' where ins: "pmm_gbuf_insert_edge demo_gbuf 2 1 (Some ''CALLS'') None = (i, gb')"
    by fastforce
  show ?thesis
    using insert_edge_dedup[OF demo_reachable _ _ _ ins] ins by (simp add: id64_def type_ok_def)
qed

section \<open>Workers\<close>

text \<open>C8: the workers of a parallel extraction can be merged.  Whatever the interleaving of their
  upserts and edges, with ids taken from one shared counter that starts at the main buffer's next
  id, every buffer keeps the invariant, every edge joins two nodes of its buffer, and no id is
  used twice, in the workers or in the main buffer.\<close>

theorem extraction_ids_unique:
  assumes "gbuf_reachable main" "gb_shared_ids main = None" "part_ok main"
    and "pool_reachable (pmm_gbuf_next_id main) k P" "pl_counter P \<le> LONG_MAX"
  shows "list_all part_ok (pl_workers P) \<and> distinct (all_ids (main # pl_workers P))"
  using pool_workers_ok[OF assms(3,2,4,5)] by (simp add: workers_ok_def)

text \<open>Two workers: one meets a function, the other a class of the same name and a call to it.\<close>

definition demo_main :: gbuf where
  "demo_main = pmm_gbuf_new (Some ''p'') None"

definition demo_pool :: "nat \<Rightarrow> pool" where
  "demo_pool j =
     (let w0 = pmm_gbuf_new_shared_ids (Some ''p'') None (Some 1);
          P0 = \<lparr>pl_counter = 1, pl_workers = [w0, w0]\<rparr>;
          P1 = pool_put P0 0 (snd (pmm_gbuf_upsert_node (with_counter (pl_counter P0) (pl_workers P0 ! 0))
                 (Some ''Function'') (Some ''f'') (Some ''p.f'') (Some ''b.c'') 1 2 None));
          P2 = pool_put P1 1 (snd (pmm_gbuf_upsert_node (with_counter (pl_counter P1) (pl_workers P1 ! 1))
                 (Some ''Class'') (Some ''f'') (Some ''p.f'') (Some ''a.c'') 7 8 None));
          P3 = pool_put P2 1 (snd (pmm_gbuf_upsert_node (with_counter (pl_counter P2) (pl_workers P2 ! 1))
                 (Some ''Function'') (Some ''g'') (Some ''p.g'') (Some ''a.c'') 9 9 None));
          P4 = pool_put P3 1 (snd (pmm_gbuf_insert_edge (with_counter (pl_counter P3) (pl_workers P3 ! 1)) 3 2
                 (Some ''CALLS'') None))
      in [P0, P1, P2, P3, P4] ! j)"

lemma pool_upsertI:
  "pool_reachable c0 k P \<Longrightarrow> w < length (pl_workers P) \<Longrightarrow> line_ok start \<Longrightarrow>
   pool_reachable c0 k (pool_put P w (snd (pmm_gbuf_upsert_node (with_counter (pl_counter P) (pl_workers P ! w))
     label name (Some qn) fp start end_line props)))"
  by (rule pool_reachable.step, assumption, rule pool_step.upsert) (auto simp: prod_eq_iff)

lemma pool_edgeI:
  "pool_reachable c0 k P \<Longrightarrow> w < length (pl_workers P) \<Longrightarrow> src \<in> live_ids (pl_workers P ! w) \<Longrightarrow>
   tgt \<in> live_ids (pl_workers P ! w) \<Longrightarrow> id64 src \<Longrightarrow> id64 tgt \<Longrightarrow> type_ok ty \<Longrightarrow>
   pool_reachable c0 k (pool_put P w (snd (pmm_gbuf_insert_edge (with_counter (pl_counter P) (pl_workers P ! w))
     src tgt (Some ty) props)))"
  by (rule pool_reachable.step, assumption, rule pool_step.edge) (auto simp: prod_eq_iff)

lemma demo_live:
  "2 \<in> live_ids (pl_workers (demo_pool 3) ! 1)" "3 \<in> live_ids (pl_workers (demo_pool 3) ! 1)"
proof -
  have "node_content (pl_workers (demo_pool 3) ! 1) ''p.f'' \<noteq> None"
    "gn_id (the (node_content (pl_workers (demo_pool 3) ! 1) ''p.f'')) = 2"
    "node_content (pl_workers (demo_pool 3) ! 1) ''p.g'' \<noteq> None"
    "gn_id (the (node_content (pl_workers (demo_pool 3) ! 1) ''p.g'')) = 3"
    by code_simp+
  then show "2 \<in> live_ids (pl_workers (demo_pool 3) ! 1)" "3 \<in> live_ids (pl_workers (demo_pool 3) ! 1)"
    unfolding live_ids_def ran_def by (auto simp: image_iff)
qed

lemma demo_pool_reachable: "pool_reachable 1 2 (demo_pool 4)"
proof -
  have 0: "pool_reachable 1 2 (demo_pool 0)"
    using pool_reachable.start[of 1 2 "Some ''p''" None] by (simp add: demo_pool_def Let_def numeral_2_eq_2)
  have 1: "pool_reachable 1 2 (demo_pool 1)"
    using pool_upsertI[OF 0, of 0 1 "Some ''Function''" "Some ''f''" "''p.f''" "Some ''b.c''" 2 None]
    by (simp add: demo_pool_def Let_def line_ok_def)
  have 2: "pool_reachable 1 2 (demo_pool 2)"
    using pool_upsertI[OF 1, of 1 7 "Some ''Class''" "Some ''f''" "''p.f''" "Some ''a.c''" 8 None]
    by (simp add: demo_pool_def Let_def line_ok_def pool_put_def)
  have 3: "pool_reachable 1 2 (demo_pool 3)"
    using pool_upsertI[OF 2, of 1 9 "Some ''Function''" "Some ''g''" "''p.g''" "Some ''a.c''" 9 None]
    by (simp add: demo_pool_def Let_def line_ok_def pool_put_def)
  have len: "length (pl_workers (demo_pool 3)) = 2"
    by code_simp
  have "pool_reachable 1 2 (pool_put (demo_pool 3) 1 (snd (pmm_gbuf_insert_edge
      (with_counter (pl_counter (demo_pool 3)) (pl_workers (demo_pool 3) ! 1)) 3 2 (Some ''CALLS'') None)))"
    by (rule pool_edgeI[OF 3 _ demo_live(2,1)]) (simp_all add: len id64_def type_ok_def)
  then show ?thesis
    by (simp add: demo_pool_def Let_def)
qed

lemma demo_main_ok: "gbuf_reachable demo_main" "gb_shared_ids demo_main = None" "part_ok demo_main"
  "pmm_gbuf_next_id demo_main = 1"
proof -
  show r: "gbuf_reachable demo_main"
    unfolding demo_main_def by (rule gbuf_reachable.new)
  show "gb_shared_ids demo_main = None" "pmm_gbuf_next_id demo_main = 1"
    by (simp_all add: demo_main_def pmm_gbuf_new_def pmm_gbuf_next_id_def)
  show "part_ok demo_main"
    using reachable_gbuf_ok[OF r]
    by (simp add: part_ok_def ids64_def lines_ok_def edges_closed_def edge_triples_def edge_content_def ran_def
        node_content_def demo_main_def pmm_gbuf_new_def)
qed

lemma extraction_ids_unique_witness: "distinct (all_ids (demo_main # pl_workers (demo_pool 4)))"
proof -
  have "pl_counter (demo_pool 4) = 5"
    by code_simp
  then show ?thesis
    using extraction_ids_unique[OF demo_main_ok(1-3), of 2 "demo_pool 4"] demo_pool_reachable
    by (simp add: demo_main_ok(4))
qed

text \<open>The names at which the order of the workers can not show: no container meets a module
  definition there, or the main buffer holds the container and the workers only bring module
  definitions.\<close>

definition settled :: "gbuf \<Rightarrow> gbuf list \<Rightarrow> string \<Rightarrow> bool" where
  "settled main ws q \<longleftrightarrow>
     (labels_at main q \<union> worker_labels ws q) \<inter> containers = {} \<or> ''Module'' \<notin> worker_labels ws q \<or>
     (labels_at main q \<inter> containers \<noteq> {} \<and> worker_labels ws q \<subseteq> {''Module''})"

lemma settled_mset: "mset ws = mset vs \<Longrightarrow> settled main ws q = settled main vs q"
  by (auto simp: settled_def worker_labels_def dest: mset_eq_setD)

text \<open>C7: the graph does not depend on the order in which the workers are merged.  Where every name is
  settled, any two orders of the same buffers give the same label, name, file and start line under
  every qualified name, and the same set of edges between qualified names, which is the union of
  the workers' edges and the main buffer's.\<close>

theorem merge_order_irrelevant:
  assumes "workers_ok main ws" "mset ws = mset vs" "\<forall>q. settled main ws q"
  shows "key_content (merge_workers main ws) = key_content (merge_workers main vs) \<and>
    named_edges (merge_workers main ws) = named_edges (merge_workers main vs) \<and>
    named_edges (merge_workers main ws) = named_edges main \<union> (\<Union>w\<in>set ws. named_edges w)"
proof -
  have pre: "part_ok main \<and> gb_shared_ids main = None \<and> list_all part_ok us \<and> distinct (all_ids us) \<and>
      node_ids main \<inter> set (all_ids us) = {}" if "workers_ok main us" for us
    using that by (auto simp: workers_ok_def all_ids_def node_ids_list)
  have vs: "workers_ok main vs"
    by (rule workers_ok_mset[OF assms(2,1)])
  note W = merge_workers_result[of main ws] and V = merge_workers_result[of main vs]
  have "key_content (merge_workers main ws) q = key_content (merge_workers main vs) q" for q
  proof (cases "(labels_at main q \<union> worker_labels ws q) \<inter> containers = {} \<or> ''Module'' \<notin> worker_labels ws q")
    case True
    then have "(labels_at main q \<union> worker_labels vs q) \<inter> containers = {} \<or> ''Module'' \<notin> worker_labels vs q"
      using mset_eq_setD[OF assms(2)] by (simp add: worker_labels_def)
    moreover have "foldl combine (key_content main q) (map (\<lambda>w. key_content w q) ws) =
        foldl combine (key_content main q) (map (\<lambda>w. key_content w q) vs)"
      by (rule foldl_combine_mset) (simp add: assms(2))
    ultimately show ?thesis
      using W(3)[of q] V(3)[of q] pre[OF assms(1)] pre[OF vs] True by simp
  next
    case False
    then have s: "labels_at main q \<inter> containers \<noteq> {}" "worker_labels ws q \<subseteq> {''Module''}"
      using assms(3) unfolding settled_def by blast+
    moreover have "worker_labels vs q = worker_labels ws q"
      using mset_eq_setD[OF assms(2)] by (simp add: worker_labels_def)
    ultimately show ?thesis
      using W(4)[of q] V(4)[of q] pre[OF assms(1)] pre[OF vs] by (simp add: key_content_def)
  qed
  moreover have "named_edges (merge_workers main ws) = named_edges main \<union> (\<Union>w\<in>set ws. named_edges w)"
    using pre[OF assms(1)] by (intro W(2)) simp_all
  moreover have "named_edges (merge_workers main vs) = named_edges main \<union> (\<Union>w\<in>set vs. named_edges w)"
    using pre[OF vs] by (intro V(2)) simp_all
  ultimately show ?thesis
    using mset_eq_setD[OF assms(2)] by auto
qed

lemma worker_labels_sub:
  assumes "list_all part_ok ws"
  shows "worker_labels ws q \<subseteq> set (concat (map (\<lambda>w. map gn_label (gb_nodes w)) ws))"
proof -
  have "labels_at w q \<subseteq> gn_label ` set (gb_nodes w)" if "part_ok w" for w
  proof -
    have "nodes_ok w"
      using that by (simp add: part_ok_def gbuf_ok_def)
    then show ?thesis
      by (auto simp: labels_at_def node_content_Some node_at_def)
  qed
  then show ?thesis
    using assms by (fastforce simp: worker_labels_def list_all_iff)
qed

text \<open>The function of the first worker gives way to the class of the second, in both orders.\<close>

lemma merge_order_irrelevant_witness:
  "key_content (merge_workers demo_main [pl_workers (demo_pool 4) ! 0, pl_workers (demo_pool 4) ! 1]) =
   key_content (merge_workers demo_main [pl_workers (demo_pool 4) ! 1, pl_workers (demo_pool 4) ! 0])"
proof -
  have c: "pl_counter (demo_pool 4) = 5"
    by code_simp
  have l: "length (pl_workers (demo_pool 4)) = 2"
    by code_simp
  have ws: "pl_workers (demo_pool 4) = [pl_workers (demo_pool 4) ! 0, pl_workers (demo_pool 4) ! 1]"
    by (rule nth_equalityI) (auto simp: l less_Suc_eq numeral_2_eq_2)
  have ok: "workers_ok demo_main [pl_workers (demo_pool 4) ! 0, pl_workers (demo_pool 4) ! 1]"
    using pool_workers_ok[OF demo_main_ok(3,2), of 2 "demo_pool 4"] demo_pool_reachable
    unfolding ws[symmetric] by (simp add: demo_main_ok(4) c)
  have labels: "concat (map (\<lambda>w. map gn_label (gb_nodes w)) [pl_workers (demo_pool 4) ! 0, pl_workers (demo_pool 4) ! 1]) =
      [''Function'', ''Class'', ''Function'']"
    by code_simp
  have "settled demo_main [pl_workers (demo_pool 4) ! 0, pl_workers (demo_pool 4) ! 1] q" for q
    using worker_labels_sub[of "[pl_workers (demo_pool 4) ! 0, pl_workers (demo_pool 4) ! 1]" q, unfolded labels] ok
    by (auto simp: settled_def workers_ok_def)
  then show ?thesis
    using merge_order_irrelevant[OF ok, of "[pl_workers (demo_pool 4) ! 1, pl_workers (demo_pool 4) ! 0]"] by auto
qed

section \<open>Deletion by label\<close>

text \<open>Deletion by label leaves traces.  After the functions are deleted by label a lookup by name
  still finds the deleted node; once its qualified name is upserted again the iteration visits two
  nodes with that name, the deleted one and the new one, while the count says one.\<close>

theorem delete_by_label_leaves_traces:
  "(let gb1 = snd (pmm_gbuf_delete_by_label demo_gbuf (Some ''Function''));
        gb2 = snd (pmm_gbuf_upsert_node gb1 (Some ''Function'') (Some ''f'') (Some ''p.f'') (Some ''a.c'') 1 2 None)
    in map (node_at gb1) (pmm_gbuf_find_by_name gb1 (Some ''g'')) = map (node_at demo_gbuf) (pmm_gbuf_find_by_name demo_gbuf (Some ''g'')) \<and>
       pmm_gbuf_find_by_qn gb1 ''p.g'' = None \<and> length (pmm_gbuf_find_by_name gb1 (Some ''g'')) = 1 \<and>
       map (\<lambda>n. (gn_id n, gn_qualified_name n)) (pmm_gbuf_foreach_node gb2 (\<lambda>n acc. acc @ [n]) []) =
         [(1, Some ''p.f''), (4, Some ''p.f'')] \<and> pmm_gbuf_node_count gb2 = 1)"
  by code_simp

end
