(* ===== verification/Gbuf_Dump.thy ===== *)
theory Gbuf_Dump
  imports Gbuf Cyp_Store
begin

text \<open>
  How a graph buffer reaches the database and comes back (src/src/graph_buffer/graph_buffer.c): the
  rows of the dump with their sequential ids, the partitions that are streamed to the writer, the
  vectors, and the load of an indexed project into a buffer.  The rows are those of the query
  engine's tables.  Outside the file and so parameters: the JSON parser (\<open>js text key\<close> is the
  string that the root object of the text holds under the key), \<open>qsort\<close>, the writer of pages and
  the memory budget.  Arrays indexed by id are functions that are 0 where the source has not
  written; ids are not negative.
\<close>

section \<open>Rows\<close>

text \<open>An edge row carries two values that the writer indexes.\<close>

record dump_edge = pmm_edge +
  de_url_path :: string
  de_local_name :: string

definition quoted :: "string \<Rightarrow> string" where
  "quoted key = [CHR 0x22] @ key @ [CHR 0x22]"

definition extract_prop_string :: "(string \<Rightarrow> string \<Rightarrow> string option) \<Rightarrow> string \<Rightarrow> string \<Rightarrow> string option" where
  "extract_prop_string js props key = (if strstr props (quoted key) = None then None else js props key)"

definition extract_url_path :: "(string \<Rightarrow> string \<Rightarrow> string option) \<Rightarrow> string \<Rightarrow> string option" where
  "extract_url_path js props = extract_prop_string js props ''url_path''"

definition extract_local_name :: "(string \<Rightarrow> string \<Rightarrow> string option) \<Rightarrow> string \<Rightarrow> string option" where
  "extract_local_name js props = extract_prop_string js props ''local_name''"

definition count_live_nodes :: "gbuf \<Rightarrow> nat" where
  "count_live_nodes gb = length [n \<leftarrow> gb_nodes gb. live_node gb n]"

definition remap_id :: "(int \<Rightarrow> int) \<Rightarrow> int \<Rightarrow> int \<Rightarrow> int" where
  "remap_id temp_to_final max_temp_id temp_id = (if temp_id < max_temp_id then temp_to_final temp_id else 0)"

definition dump_node :: "gbuf \<Rightarrow> int \<Rightarrow> gnode \<Rightarrow> pmm_node" where
  "dump_node gb final_id n =
     \<lparr>n_id = final_id, n_project = Some (gb_project gb), n_label = Some (gn_label n), n_name = Some (gn_name n),
      n_qualified_name = gn_qualified_name n, n_file_path = Some (gn_file_path n),
      n_start_line = gn_start_line n, n_end_line = gn_end_line n,
      n_properties_json = Some (gn_properties_json n)\<rparr>"

text \<open>One node of the array: skipped when deleted, else the next id and its row.\<close>

definition build_node_step ::
  "gbuf \<Rightarrow> int \<Rightarrow> (int \<Rightarrow> int) \<times> pmm_node list \<Rightarrow> gnode \<Rightarrow> (int \<Rightarrow> int) \<times> pmm_node list" where
  "build_node_step gb max_temp_id st n =
     (let (ttf, rows) = st in
      if \<not> live_node gb n then (ttf, rows)
      else (let final_id = int (length rows) + 1 in
            (if gn_id n < max_temp_id then ttf(gn_id n := final_id) else ttf,
             rows @ [dump_node gb final_id n])))"

definition build_dump_nodes :: "gbuf \<Rightarrow> int \<Rightarrow> (int \<Rightarrow> int) \<times> pmm_node list" where
  "build_dump_nodes gb max_temp_id = foldl (build_node_step gb max_temp_id) (\<lambda>i. 0, []) (gb_nodes gb)"

definition dump_edge_row ::
  "(string \<Rightarrow> string \<Rightarrow> string option) \<Rightarrow> gbuf \<Rightarrow> int \<Rightarrow> int \<Rightarrow> int \<Rightarrow> gedge \<Rightarrow> dump_edge" where
  "dump_edge_row js gb i src tgt e =
     \<lparr>e_id = i, e_project = Some (gb_project gb), e_source_id = src, e_target_id = tgt,
      e_type = Some (ge_type e), e_properties_json = Some (ge_properties_json e),
      de_url_path = or_empty (extract_url_path js (ge_properties_json e)),
      de_local_name = or_empty (if ge_type e = ''IMPORTS'' then extract_local_name js (ge_properties_json e) else None)\<rparr>"

definition build_edge_step ::
  "(string \<Rightarrow> string \<Rightarrow> string option) \<Rightarrow> gbuf \<Rightarrow> (int \<Rightarrow> int) \<Rightarrow> int \<Rightarrow> dump_edge list \<Rightarrow> gedge \<Rightarrow> dump_edge list" where
  "build_edge_step js gb ttf max_temp_id rows e =
     (let src = remap_id ttf max_temp_id (ge_source_id e);
          tgt = remap_id ttf max_temp_id (ge_target_id e)
      in if src = 0 \<or> tgt = 0 then rows
         else rows @ [dump_edge_row js gb (int (length rows) + 1) src tgt e])"

definition build_dump_edges ::
  "(string \<Rightarrow> string \<Rightarrow> string option) \<Rightarrow> gbuf \<Rightarrow> (int \<Rightarrow> int) \<Rightarrow> int \<Rightarrow> dump_edge list" where
  "build_dump_edges js gb ttf max_temp_id =
     foldl (build_edge_step js gb ttf max_temp_id) [] (map (edge_at gb) (gb_edges gb))"

section \<open>Vectors\<close>

definition remap_vectors :: "(int \<Rightarrow> int) \<Rightarrow> int \<Rightarrow> dump_vector list \<Rightarrow> dump_vector list" where
  "remap_vectors ttf max_temp_id vs =
     [v\<lparr>dv_node_id := ttf (dv_node_id v)\<rparr>.
        v \<leftarrow> vs, 0 < dv_node_id v \<and> dv_node_id v < max_temp_id \<and> 0 < ttf (dv_node_id v)]"

text \<open>Of neighbours with one id the last is kept.\<close>

fun dedup_vectors :: "dump_vector list \<Rightarrow> dump_vector list" where
  "dedup_vectors [] = []"
| "dedup_vectors [v] = [v]"
| "dedup_vectors (v # w # vs) =
     (if dv_node_id v = dv_node_id w then dedup_vectors (w # vs) else v # dedup_vectors (w # vs))"

definition remap_sort_dedup_vectors ::
  "(dump_vector list \<Rightarrow> dump_vector list) \<Rightarrow> (int \<Rightarrow> int) \<Rightarrow> int \<Rightarrow> dump_vector list \<Rightarrow> dump_vector list" where
  "remap_sort_dedup_vectors qsort ttf max_temp_id vs =
     (let r = remap_vectors ttf max_temp_id vs in
      if 2 \<le> length r then dedup_vectors (qsort r) else r)"

section \<open>The dump\<close>

record dump_image =
  di_nodes :: "pmm_node list"
  di_edges :: "dump_edge list"
  di_vectors :: "dump_vector list"
  di_token_vecs :: "dump_token_vec list"

text \<open>The writer: whether the file opens, the result of each append and of the last call; and
  whether the memory budget is exceeded after a partition.\<close>

record writer =
  wr_open :: bool
  wr_append :: "nat \<Rightarrow> pmm_node list \<Rightarrow> int"
  wr_finalize :: "dump_image \<Rightarrow> int"
  wr_over_budget :: "nat \<Rightarrow> bool"

record dump_result =
  dr_rc :: int
  dr_appended :: "pmm_node list list"
  dr_image :: "dump_image option"

abbreviation partition_nodes :: nat where "partition_nodes \<equiv> 65536"

definition forget_properties :: "pmm_node \<Rightarrow> pmm_node" where
  "forget_properties n = n\<lparr>n_properties_json := None\<rparr>"

text \<open>The loop over the partitions: the result, the partitions handed over, and the rows as they
  stand afterwards; under pressure a written partition loses its properties.\<close>

function append_partitions :: "writer \<Rightarrow> nat \<Rightarrow> bool \<Rightarrow> pmm_node list \<Rightarrow> int \<times> pmm_node list list \<times> pmm_node list" where
  "append_partitions w k free_heavy rows =
     (if rows = [] then (0, [], [])
      else (let chunk = take partition_nodes rows; rest = drop partition_nodes rows; rc = wr_append w k chunk in
            if rc \<noteq> 0 then (rc, [chunk], rows)
            else (let heavy = free_heavy \<or> wr_over_budget w k;
                      (rc', chunks, rows') = append_partitions w (Suc k) heavy rest
                  in (rc', chunk # chunks, (if heavy then map forget_properties chunk else chunk) @ rows'))))"
  by pat_completeness auto
termination by (relation "measure (\<lambda>(w, k, f, rows). length rows)") auto

declare append_partitions.simps [simp del]

definition pmm_gbuf_dump_to_sqlite ::
  "(string \<Rightarrow> string \<Rightarrow> string option) \<Rightarrow> (dump_vector list \<Rightarrow> dump_vector list) \<Rightarrow> writer \<Rightarrow> gbuf \<Rightarrow> dump_result" where
  "pmm_gbuf_dump_to_sqlite js qsort w gb =
     (let max_temp_id = gb_next_id gb;
          (ttf, rows) = build_dump_nodes gb max_temp_id
      in if \<not> wr_open w then \<lparr>dr_rc = -1, dr_appended = [], dr_image = None\<rparr>
         else (let (rc, chunks, rows') = append_partitions w 0 False rows;
                   image = \<lparr>di_nodes = rows',
                            di_edges = (if rc = 0 then build_dump_edges js gb ttf max_temp_id else []),
                            di_vectors = (if rc = 0 then remap_sort_dedup_vectors qsort ttf max_temp_id (gb_dump_vectors gb)
                                          else gb_dump_vectors gb),
                            di_token_vecs = gb_dump_token_vecs gb\<rparr>;
                   frc = wr_finalize w image
               in \<lparr>dr_rc = (if rc = 0 then frc else rc), dr_appended = chunks, dr_image = Some image\<rparr>))"

text \<open>The tables that a reader of the file sees: the rows appended and the edges of the last call.\<close>

definition dumped_tables :: "dump_result \<Rightarrow> tables" where
  "dumped_tables r =
     \<lparr>t_nodes = concat (dr_appended r),
      t_edges = (case dr_image r of None \<Rightarrow> [] | Some im \<Rightarrow> map pmm_edge.truncate (di_edges im))\<rparr>"

section \<open>The load\<close>

definition load_node_step :: "int \<Rightarrow> gbuf \<times> (int \<Rightarrow> int) \<Rightarrow> pmm_node \<Rightarrow> gbuf \<times> (int \<Rightarrow> int)" where
  "load_node_step max_old_id st row =
     (let (gb, old_to_new) = st;
          (new_id, gb1) = pmm_gbuf_upsert_node gb (n_label row) (n_name row) (n_qualified_name row) (n_file_path row)
                            (int32 (n_start_line row)) (int32 (n_end_line row)) (n_properties_json row)
      in (gb1, if 0 < new_id \<and> n_id row \<le> max_old_id then old_to_new(n_id row := new_id) else old_to_new))"

definition load_edge_step :: "int \<Rightarrow> (int \<Rightarrow> int) \<Rightarrow> gbuf \<Rightarrow> pmm_edge \<Rightarrow> gbuf" where
  "load_edge_step max_old_id old_to_new gb row =
     (let src = (if e_source_id row \<le> max_old_id then old_to_new (e_source_id row) else 0);
          tgt = (if e_target_id row \<le> max_old_id then old_to_new (e_target_id row) else 0)
      in if 0 < src \<and> 0 < tgt then snd (pmm_gbuf_insert_edge gb src tgt (e_type row) (e_properties_json row)) else gb)"

text \<open>SELECT MAX(id): no row gives NULL, which reads as 0.\<close>

definition max_node_id :: "pmm_node list \<Rightarrow> int" where
  "max_node_id rows = (case rows of [] \<Rightarrow> 0 | r # rs \<Rightarrow> foldl max (n_id r) (map n_id rs))"

definition pmm_gbuf_load_from_db :: "gbuf \<Rightarrow> tables \<Rightarrow> string \<Rightarrow> gbuf" where
  "pmm_gbuf_load_from_db gb D project =
     (let rows = order_by (\<lambda>a b. n_id a \<le> n_id b) [n \<leftarrow> t_nodes D. n_project n = Some project];
          max_old_id = max_node_id rows;
          (gb1, old_to_new) = foldl (load_node_step max_old_id) (gb, \<lambda>i. 0) rows
      in foldl (load_edge_step max_old_id old_to_new) gb1 [e \<leftarrow> t_edges D. e_project e = Some project])"

end
