(* ===== verification/Gbuf_Dump_Facts.thy ===== *)
theory Gbuf_Dump_Facts
  imports Gbuf_Dump Gbuf_Pool
begin

text \<open>
  Facts on the dump of a graph buffer (src/src/graph_buffer/graph_buffer.c): the loops that build
  the rows as maps over the live nodes and the edges between them, and the stream of partitions.
\<close>

section \<open>Final ids\<close>

definition live_list :: "gbuf \<Rightarrow> gnode list" where
  "live_list gb = [n \<leftarrow> gb_nodes gb. live_node gb n]"

text \<open>The place of a live node among the live nodes, from 1; 0 for any other id.\<close>

definition final_id :: "gbuf \<Rightarrow> int \<Rightarrow> int" where
  "final_id gb i = (case first_index (\<lambda>n. gn_id n = i) (live_list gb) of Some k \<Rightarrow> int k + 1 | None \<Rightarrow> 0)"

lemma first_index_snoc:
  "first_index P (xs @ [x]) = (case first_index P xs of Some k \<Rightarrow> Some k
     | None \<Rightarrow> if P x then Some (length xs) else None)"
  by (induction xs) (auto split: option.split)

lemma first_index_nth_distinct:
  "distinct (map f xs) \<Longrightarrow> k < length xs \<Longrightarrow> first_index (\<lambda>x. f x = f (xs ! k)) xs = Some k"
proof (induction xs arbitrary: k)
  case (Cons x xs)
  then show ?case
    by (cases k) (auto simp: nth_Cons' image_iff)
qed simp

lemma final_id_pos: "0 < final_id gb i \<longleftrightarrow> i \<in> gn_id ` set (live_list gb)"
  by (auto simp: final_id_def first_index_None image_iff split: option.split dest!: first_index_Some)

lemma final_id_cases: "final_id gb i = 0 \<or> 0 < final_id gb i"
  by (simp add: final_id_def split: option.split)

lemma final_id_nth:
  "distinct (map gn_id (live_list gb)) \<Longrightarrow> k < length (live_list gb) \<Longrightarrow>
   final_id gb (gn_id (live_list gb ! k)) = int k + 1"
  by (simp add: final_id_def first_index_nth_distinct)

text \<open>Rows numbered from 1.\<close>

definition numbered :: "(int \<Rightarrow> 'a \<Rightarrow> 'b) \<Rightarrow> 'a list \<Rightarrow> 'b list" where
  "numbered f xs = map (\<lambda>k. f (int k + 1) (xs ! k)) [0..<length xs]"

lemma numbered_Nil [simp]: "numbered f [] = []"
  by (simp add: numbered_def)

lemma numbered_snoc [simp]: "numbered f (xs @ [x]) = numbered f xs @ [f (int (length xs) + 1) x]"
  by (simp add: numbered_def nth_append)

lemma length_numbered [simp]: "length (numbered f xs) = length xs"
  by (simp add: numbered_def)

lemma nth_numbered: "k < length xs \<Longrightarrow> numbered f xs ! k = f (int k + 1) (xs ! k)"
  by (simp add: numbered_def)

lemma map_numbered: "map g (numbered f xs) = numbered (\<lambda>i x. g (f i x)) xs"
  by (simp add: numbered_def)

lemma numbered_const: "numbered (\<lambda>i x. f x) xs = map f xs"
  by (induction xs rule: rev_induct) simp_all

section \<open>Node rows\<close>

lemma build_nodes_fold:
  assumes "\<forall>n\<in>set ns. gn_id n < mx" "distinct (map gn_id [n \<leftarrow> ns. live_node gb n])"
  shows "foldl (build_node_step gb mx) (\<lambda>i. 0, []) ns =
    (\<lambda>i. case first_index (\<lambda>n. gn_id n = i) [n \<leftarrow> ns. live_node gb n] of Some k \<Rightarrow> int k + 1 | None \<Rightarrow> 0,
     numbered (dump_node gb) [n \<leftarrow> ns. live_node gb n])"
  using assms
proof (induction ns rule: rev_induct)
  case (snoc n ns)
  let ?l = "[n \<leftarrow> ns. live_node gb n]"
  have IH: "foldl (build_node_step gb mx) (\<lambda>i. 0, []) ns =
    (\<lambda>i. case first_index (\<lambda>n. gn_id n = i) ?l of Some k \<Rightarrow> int k + 1 | None \<Rightarrow> 0,
     numbered (dump_node gb) ?l)"
    using snoc by simp
  show ?case
  proof (cases "live_node gb n")
    case True
    have new: "first_index (\<lambda>m. gn_id m = gn_id n) ?l = None"
      using snoc.prems(2) True unfolding first_index_None by (fastforce simp: image_iff)
    have "(\<lambda>i. case first_index (\<lambda>n. gn_id n = i) (?l @ [n]) of Some k \<Rightarrow> int k + 1 | None \<Rightarrow> 0) =
      (\<lambda>i. case first_index (\<lambda>n. gn_id n = i) ?l of Some k \<Rightarrow> int k + 1 | None \<Rightarrow> 0)(gn_id n := int (length ?l) + 1)"
      using new by (auto simp: fun_eq_iff first_index_snoc split: option.split)
    then show ?thesis
      using True snoc.prems(1) unfolding foldl_append IH by (simp add: build_node_step_def Let_def)
  next
    case False
    then show ?thesis
      unfolding foldl_append IH by (simp add: build_node_step_def)
  qed
qed simp

text \<open>The ids of a buffer that draws from its own counter lie below it.\<close>

lemma own_ids_below:
  "gbuf_ok gb \<Longrightarrow> gb_shared_ids gb = None \<Longrightarrow> n \<in> set (gb_nodes gb) \<Longrightarrow> gn_id n < gb_next_id gb"
  by (auto simp: gbuf_ok_def ids_below_def node_at_def in_set_conv_nth pmm_gbuf_next_id_def)

lemma live_list_facts:
  assumes "gbuf_ok gb"
  shows "distinct (map gn_id (live_list gb))" "gn_id ` set (live_list gb) = live_ids gb"
    "set (live_list gb) = ran (node_content gb)" "distinct (map gn_qualified_name (live_list gb))"
  using Gbuf_Order.live_list[OF gbuf_okD(1)[OF assms]] by (simp_all add: live_list_def live_ids_def)

lemma build_dump_nodes_eq:
  assumes "gbuf_ok gb" "gb_shared_ids gb = None"
  shows "build_dump_nodes gb (gb_next_id gb) =
    (final_id gb, numbered (dump_node gb) (live_list gb))"
proof -
  have "\<forall>n\<in>set (gb_nodes gb). gn_id n < gb_next_id gb"
    using own_ids_below[OF assms] by blast
  moreover have "distinct (map gn_id [n \<leftarrow> gb_nodes gb. live_node gb n])"
    using live_list_facts(1)[OF assms(1)] by (simp add: live_list_def)
  moreover have "(\<lambda>i. case first_index (\<lambda>n. gn_id n = i) [n \<leftarrow> gb_nodes gb. live_node gb n] of Some k \<Rightarrow> int k + 1 | None \<Rightarrow> 0) = final_id gb"
    by (simp add: fun_eq_iff final_id_def live_list_def)
  ultimately show ?thesis
    unfolding build_dump_nodes_def using build_nodes_fold[of "gb_nodes gb" "gb_next_id gb" gb] by (simp add: live_list_def)
qed

lemma remap_final:
  assumes "gbuf_ok gb" "gb_shared_ids gb = None"
  shows "remap_id (final_id gb) (gb_next_id gb) i = final_id gb i"
proof (cases "i < gb_next_id gb")
  case False
  have "i \<notin> gn_id ` set (live_list gb)"
    using False own_ids_below[OF assms] by (auto simp: live_list_def)
  then have "final_id gb i = 0"
    using final_id_pos[of gb i] final_id_cases[of gb i] by auto
  then show ?thesis
    using False by (simp add: remap_id_def)
qed (simp add: remap_id_def)

lemma final_id_zero: "gbuf_ok gb \<Longrightarrow> final_id gb i = 0 \<longleftrightarrow> i \<notin> live_ids gb"
  by (metis final_id_cases final_id_pos less_irrefl live_list_facts(2))

section \<open>Edge rows\<close>

definition dumped_edge :: "gbuf \<Rightarrow> gedge \<Rightarrow> bool" where
  "dumped_edge gb e \<longleftrightarrow> ge_source_id e \<in> live_ids gb \<and> ge_target_id e \<in> live_ids gb"

lemma build_edges_fold:
  assumes "gbuf_ok gb" "gb_shared_ids gb = None"
  shows "foldl (build_edge_step js gb (final_id gb) (gb_next_id gb)) [] es =
    numbered (\<lambda>i e. dump_edge_row js gb i (final_id gb (ge_source_id e)) (final_id gb (ge_target_id e)) e)
      [e \<leftarrow> es. dumped_edge gb e]"
proof (induction es rule: rev_induct)
  case (snoc e es)
  have step: "build_edge_step js gb (final_id gb) (gb_next_id gb) rows e =
      (if dumped_edge gb e then rows @ [dump_edge_row js gb (int (length rows) + 1) (final_id gb (ge_source_id e))
         (final_id gb (ge_target_id e)) e] else rows)" for rows
    unfolding build_edge_step_def remap_final[OF assms] Let_def final_id_zero[OF assms(1)] dumped_edge_def by simp
  show ?case
    unfolding foldl_append snoc.IH by (simp add: step)
qed simp

lemma build_dump_edges_eq:
  assumes "gbuf_ok gb" "gb_shared_ids gb = None"
  shows "build_dump_edges js gb (final_id gb) (gb_next_id gb) =
    numbered (\<lambda>i e. dump_edge_row js gb i (final_id gb (ge_source_id e)) (final_id gb (ge_target_id e)) e)
      [e \<leftarrow> edge_content gb. dumped_edge gb e]"
  unfolding build_dump_edges_def edge_content_def[symmetric] by (rule build_edges_fold[OF assms])

section \<open>Partitions\<close>

lemma append_partitions_ok:
  "\<forall>k c. wr_append w k c = 0 \<Longrightarrow> append_partitions w k f rows = (rc, chunks, rows') \<Longrightarrow>
    rc = 0 \<and> concat chunks = rows \<and> length rows' = length rows \<and> list_all (\<lambda>c. length c \<le> partition_nodes) chunks"
proof (induction w k f rows arbitrary: rc chunks rows' rule: append_partitions.induct)
  case (1 w k f rows)
  show ?case
  proof (cases "rows = []")
    case True
    then show ?thesis
      using 1(3) by (simp add: append_partitions.simps[of w k f "[]"])
  next
    case False
    obtain rc1 cs1 rs1 where rec: "append_partitions w (Suc k) (f \<or> wr_over_budget w k) (drop partition_nodes rows) = (rc1, cs1, rs1)"
      by (metis prod_cases3)
    have IH: "rc1 = 0 \<and> concat cs1 = drop partition_nodes rows \<and> length rs1 = length (drop partition_nodes rows) \<and>
        list_all (\<lambda>c. length c \<le> partition_nodes) cs1"
      using 1(1)[OF False refl refl refl _ refl 1(2) rec] 1(2) by simp
    have "rc = rc1" "chunks = take partition_nodes rows # cs1" "length rows' = length (take partition_nodes rows) + length rs1"
      using 1(2,3) False rec by (auto simp: append_partitions.simps[of w k f rows] Let_def split: if_splits)
    then show ?thesis
      using IH by simp
  qed
qed

lemma append_partitions_done:
  "append_partitions w k f rows = (0, chunks, rows') \<Longrightarrow> concat chunks = rows"
proof (induction w k f rows arbitrary: chunks rows' rule: append_partitions.induct)
  case (1 w k f rows)
  show ?case
  proof (cases "rows = []")
    case True
    then show ?thesis
      using 1(2) by (simp add: append_partitions.simps[of w k f "[]"])
  next
    case False
    obtain rc1 cs1 rs1 where rec: "append_partitions w (Suc k) (f \<or> wr_over_budget w k) (drop partition_nodes rows) = (rc1, cs1, rs1)"
      by (metis prod_cases3)
    have app: "wr_append w k (take partition_nodes rows) = 0" and "rc1 = 0" "chunks = take partition_nodes rows # cs1"
      using 1(2) False rec by (auto simp: append_partitions.simps[of w k f rows] Let_def split: if_splits)
    then show ?thesis
      using 1(1)[OF False refl refl refl _ refl rec[unfolded \<open>rc1 = 0\<close>]] by simp
  qed
qed

text \<open>An append that fails ends the loop with its code.\<close>

lemma append_partitions_fails:
  "append_partitions w k f rows = (rc, chunks, rows') \<Longrightarrow> rc \<noteq> 0 \<Longrightarrow>
    \<exists>c rest. concat chunks @ rest = rows \<and> chunks \<noteq> [] \<and> last chunks = c \<and>
       wr_append w (k + length chunks - 1) c = rc"
proof (induction w k f rows arbitrary: rc chunks rows' rule: append_partitions.induct)
  case (1 w k f rows)
  have ne: "rows \<noteq> []"
    using 1(2,3) by (auto simp: append_partitions.simps[of w k f "[]"])
  show ?case
  proof (cases "wr_append w k (take partition_nodes rows) = 0")
    case False
    then have "rc = wr_append w k (take partition_nodes rows)" "chunks = [take partition_nodes rows]"
      using 1(2) ne by (auto simp: append_partitions.simps[of w k f rows] Let_def)
    then show ?thesis
      by (auto intro: exI[of _ "drop partition_nodes rows"])
  next
    case True
    obtain rc1 cs1 rs1 where rec: "append_partitions w (Suc k) (f \<or> wr_over_budget w k) (drop partition_nodes rows) = (rc1, cs1, rs1)"
      by (metis prod_cases3)
    have eq: "rc = rc1" "chunks = take partition_nodes rows # cs1"
      using 1(2) ne rec True by (auto simp: append_partitions.simps[of w k f rows] Let_def)
    obtain rest where IH: "concat cs1 @ rest = drop partition_nodes rows" "cs1 \<noteq> []"
      "wr_append w (Suc k + length cs1 - 1) (last cs1) = rc1"
      using 1(1)[OF ne refl refl refl _ refl rec] True 1(3) eq(1) by auto
    have "concat chunks @ rest = rows"
      using IH(1) by (simp add: eq(2))
    then show ?thesis
      using IH(2,3) by (auto simp: eq intro!: exI[of _ rest])
  qed
qed

end
