(* ===== verification/Gbuf_Load_Facts.thy ===== *)
theory Gbuf_Load_Facts
  imports Gbuf_Dump_Facts
begin

text \<open>
  Loading the rows of a dump back into a graph buffer (src/src/graph_buffer/graph_buffer.c): the
  nodes come back under their names with their final ids, the edges with the ids mapped.
\<close>

section \<open>Reading the rows in order\<close>

lemma order_by_sorted: "sorted_wrt le xs \<Longrightarrow> order_by le xs = xs"
proof (induction xs)
  case (Cons x xs)
  then show ?case
    by (cases xs) simp_all
qed simp

lemma foldl_max_ge: "(a :: int) \<le> foldl max a xs \<and> (\<forall>x\<in>set xs. x \<le> foldl max a xs)"
proof (induction xs arbitrary: a)
  case (Cons x xs)
  show ?case
    using Cons.IH[of "max a x"] by auto
qed simp

lemma max_node_id_ge: "r \<in> set rows \<Longrightarrow> n_id r \<le> max_node_id rows"
  using foldl_max_ge[of "n_id (hd rows)" "map n_id (tl rows)"]
  by (cases rows) (auto simp: max_node_id_def)

lemma numbered_sorted: "sorted_wrt (\<lambda>a b. n_id a \<le> n_id b) (numbered (dump_node gb) ls)"
  unfolding numbered_def sorted_wrt_map
  by (rule sorted_wrt_mono_rel[of _ "(<)"]) (simp_all add: dump_node_def)

section \<open>Loading the nodes\<close>

text \<open>An upsert under a new name.\<close>

lemma upsert_fresh:
  assumes "gbuf_ok gb" "gb_shared_ids gb = None" "node_content gb q = None"
    and "pmm_gbuf_upsert_node gb l n (Some q) f s e p = (i, gb')"
  shows "i = pmm_gbuf_next_id gb" "gb_shared_ids gb' = None" "pmm_gbuf_next_id gb' = pmm_gbuf_next_id gb + 1"
    "node_content gb' = (node_content gb)(q \<mapsto> fresh_node i l n q f s e p)" "gbuf_ok gb'" "edge_content gb' = edge_content gb"
proof -
  have none: "ht_get (gb_node_by_qn gb) q = None"
    using assms(3) by (simp add: node_content_def)
  obtain j gb1 where al: "alloc_next_id gb = (j, gb1)"
    by fastforce
  show "i = pmm_gbuf_next_id gb" "gb_shared_ids gb' = None" "pmm_gbuf_next_id gb' = pmm_gbuf_next_id gb + 1"
    using assms(4) none next_id_alloc[OF al] alloc_shared[OF al assms(2)] by (auto simp: pmm_gbuf_upsert_node_def al)
  then show "node_content gb' = (node_content gb)(q \<mapsto> fresh_node i l n q f s e p)" "gbuf_ok gb'"
    using upsert_node_ok[OF assms(1,4)] assms(3) by (simp_all add: upsert_result_def)
  show "edge_content gb' = edge_content gb"
    using upsert_frame[OF assms(4)] edge_at_cong[of gb' gb] by (simp add: edge_content_def)
qed

definition line32 :: "int \<Rightarrow> bool" where
  "line32 s \<longleftrightarrow> - (2 ^ 31) \<le> s \<and> s < 2 ^ 31"

lemma line32_id: "line32 s \<Longrightarrow> int32 s = s"
  by (simp add: line32_def int32_id)

lemma load_nodes_fold:
  assumes "\<forall>n\<in>set ls. gn_qualified_name n \<noteq> None \<and> line32 (gn_start_line n) \<and> line32 (gn_end_line n)"
    and "distinct (map gn_qualified_name ls)" "\<forall>i\<in>{1..int (length ls)}. i \<le> mx"
  shows "\<exists>g m. foldl (load_node_step mx) (pmm_gbuf_new pr ro, \<lambda>i. 0) (numbered (dump_node gb) ls) = (g, m) \<and>
    gbuf_ok g \<and> gb_shared_ids g = None \<and> pmm_gbuf_next_id g = int (length ls) + 1 \<and> edge_content g = [] \<and>
    (\<forall>q. node_content g q = (case first_index (\<lambda>n. gn_qualified_name n = Some q) ls of
        None \<Rightarrow> None | Some k \<Rightarrow> Some ((ls ! k)\<lparr>gn_id := int k + 1\<rparr>))) \<and>
    (\<forall>i. m i = (if 1 \<le> i \<and> i \<le> int (length ls) then i else 0))"
  using assms
proof (induction ls rule: rev_induct)
  case Nil
  then show ?case
    using gbuf_ok_new(1)[of pr ro]
    by (simp add: node_content_def edge_content_def) (simp add: pmm_gbuf_new_def pmm_gbuf_next_id_def)
next
  case (snoc x ls)
  have pre: "\<forall>n\<in>set ls. gn_qualified_name n \<noteq> None \<and> line32 (gn_start_line n) \<and> line32 (gn_end_line n)"
    "distinct (map gn_qualified_name ls)" "\<forall>i\<in>{1..int (length ls)}. i \<le> mx"
    using snoc.prems by simp_all
  obtain g m where IH: "foldl (load_node_step mx) (pmm_gbuf_new pr ro, \<lambda>i. 0) (numbered (dump_node gb) ls) = (g, m)"
    "gbuf_ok g" "gb_shared_ids g = None" "pmm_gbuf_next_id g = int (length ls) + 1" "edge_content g = []"
    "\<forall>q. node_content g q = (case first_index (\<lambda>n. gn_qualified_name n = Some q) ls of
        None \<Rightarrow> None | Some k \<Rightarrow> Some ((ls ! k)\<lparr>gn_id := int k + 1\<rparr>))"
    "\<forall>i. m i = (if 1 \<le> i \<and> i \<le> int (length ls) then i else 0)"
    using snoc.IH[OF pre] by blast
  obtain q where q: "gn_qualified_name x = Some q"
    using snoc.prems(1) by auto
  have lines: "int32 (gn_start_line x) = gn_start_line x" "int32 (gn_end_line x) = gn_end_line x"
    using snoc.prems(1) by (simp_all add: line32_id)
  have new: "first_index (\<lambda>n. gn_qualified_name n = Some q) ls = None"
    using snoc.prems(2) q by (force simp: first_index_None)
  have none: "node_content g q = None"
    using IH(6) new by simp
  obtain i g' where up: "pmm_gbuf_upsert_node g (Some (gn_label x)) (Some (gn_name x)) (Some q) (Some (gn_file_path x))
      (gn_start_line x) (gn_end_line x) (Some (gn_properties_json x)) = (i, g')"
    by fastforce
  note U = upsert_fresh[OF IH(2,3) none up]
  have i: "i = int (length ls) + 1"
    using U(1) IH(4) by simp
  have node: "fresh_node i (Some (gn_label x)) (Some (gn_name x)) q (Some (gn_file_path x)) (gn_start_line x)
      (gn_end_line x) (Some (gn_properties_json x)) = x\<lparr>gn_id := i\<rparr>"
    using q by (simp add: fresh_node_def heap_strdup_def)
  have mx: "int (length ls) + 1 \<le> mx"
    using snoc.prems(3) by simp
  have step: "load_node_step mx (g, m) (dump_node gb (int (length ls) + 1) x) = (g', m(i := i))"
    using up mx by (simp add: load_node_step_def dump_node_def q lines i)
  have content: "node_content g' p = (case first_index (\<lambda>n. gn_qualified_name n = Some p) (ls @ [x]) of
        None \<Rightarrow> None | Some k \<Rightarrow> Some (((ls @ [x]) ! k)\<lparr>gn_id := int k + 1\<rparr>))" for p
  proof (cases "p = q")
    case True
    then show ?thesis
      using new q by (simp add: U(4) first_index_snoc node[unfolded i] i)
  next
    case False
    have "first_index (\<lambda>n. gn_qualified_name n = Some p) (ls @ [x]) = first_index (\<lambda>n. gn_qualified_name n = Some p) ls"
      using False q by (auto simp: first_index_snoc split: option.split)
    then show ?thesis
      using False IH(6)
      by (auto simp: U(4) nth_append split: option.split dest!: first_index_Some)
  qed
  show ?case
    using U(2,3,5,6) IH(1,4,5,7) content by (intro exI[of _ g'] exI[of _ "m(i := i)"]) (auto simp: step i)
qed

section \<open>Loading the edges\<close>

definition edge_ends_ok :: "int \<Rightarrow> pmm_edge \<Rightarrow> bool" where
  "edge_ends_ok n row \<longleftrightarrow> 1 \<le> e_source_id row \<and> e_source_id row \<le> n \<and> 1 \<le> e_target_id row \<and> e_target_id row \<le> n \<and>
     (\<exists>ty. e_type row = Some ty \<and> type_ok ty)"

definition row_triple :: "pmm_edge \<Rightarrow> int \<times> int \<times> string" where
  "row_triple row = (e_source_id row, e_target_id row, or_empty (e_type row))"

lemma load_edges_fold:
  assumes "gbuf_ok g" "\<forall>row\<in>set rows. edge_ends_ok n row" "n \<le> mx" "n \<le> LONG_MAX"
    and "\<And>i. 1 \<le> i \<Longrightarrow> i \<le> n \<Longrightarrow> m i = i"
  shows "gbuf_ok (foldl (load_edge_step mx m) g rows) \<and>
    node_content (foldl (load_edge_step mx m) g rows) = node_content g \<and>
    edge_triples (foldl (load_edge_step mx m) g rows) = edge_triples g \<union> row_triple ` set rows"
  using assms(1,2)
proof (induction rows arbitrary: g)
  case (Cons row rows)
  obtain ty where row: "1 \<le> e_source_id row" "e_source_id row \<le> n" "1 \<le> e_target_id row" "e_target_id row \<le> n"
    "e_type row = Some ty" "type_ok ty"
    using Cons.prems(2) by (auto simp: edge_ends_ok_def)
  have wf: "id64 (e_source_id row)" "id64 (e_target_id row)"
    using row assms(4) by (simp_all add: id64_def)
  obtain i g' where ins: "pmm_gbuf_insert_edge g (e_source_id row) (e_target_id row) (Some ty) (e_properties_json row) = (i, g')"
    by fastforce
  have step: "load_edge_step mx m g row = g'"
    using row assms(3,5) ins by (simp add: load_edge_step_def)
  note I = insert_edge_gbuf_ok[OF Cons.prems(1) wf row(6) ins] insert_edge_triples[OF gbuf_okD(3)[OF Cons.prems(1)] wf row(6) ins]
  show ?case
    using Cons.IH[OF I(1)] Cons.prems(2) I(2,3) by (auto simp: step row_triple_def row(5) or_empty_def)
qed simp

section \<open>The whole load\<close>

lemma final_id_inj:
  "gbuf_ok gb \<Longrightarrow> i \<in> live_ids gb \<Longrightarrow> j \<in> live_ids gb \<Longrightarrow> final_id gb i = final_id gb j \<Longrightarrow> i = j"
  unfolding live_list_facts(2)[symmetric]
  by (auto simp: in_set_conv_nth final_id_nth live_list_facts(1))

lemma final_id_le:
  "final_id gb i \<le> int (length (live_list gb))"
  by (auto simp: final_id_def split: option.split dest: first_index_Some)

lemma first_index_qn:
  assumes "gbuf_ok gb" "node_content gb q = Some n"
  shows "\<exists>k<length (live_list gb). first_index (\<lambda>n. gn_qualified_name n = Some q) (live_list gb) = Some k \<and> live_list gb ! k = n"
proof -
  have n: "n \<in> set (live_list gb)" "gn_qualified_name n = Some q"
    using assms(2) live_list_facts(3)[OF assms(1)] by (auto simp: ran_def node_content_Some[OF gbuf_okD(1)[OF assms(1)]])
  then obtain k where k: "k < length (live_list gb)" "live_list gb ! k = n"
    by (auto simp: in_set_conv_nth)
  then show ?thesis
    using first_index_nth_distinct[OF live_list_facts(4)[OF assms(1)] k(1)] n(2) by auto
qed

end
