(* ===== verification/Gbuf_Dump_Props.thy ===== *)
theory Gbuf_Dump_Props
  imports Gbuf_Load_Facts Gbuf_Props
begin

text \<open>
  The properties of the dump and the load of a graph buffer (src/src/graph_buffer/graph_buffer.c):
  the dumped tables as a refinement of the buffer, the streaming of node rows, the round trip
  through the database and the vectors.
\<close>

section \<open>The dumped tables\<close>

definition writer_ok :: "writer \<Rightarrow> bool" where
  "writer_ok w \<longleftrightarrow> wr_open w \<and> (\<forall>k c. wr_append w k c = 0)"

lemma dump_eq:
  assumes "gbuf_ok gb" "gb_shared_ids gb = None" "writer_ok w"
  shows "dumped_tables (pmm_gbuf_dump_to_sqlite js qs w gb) =
    \<lparr>t_nodes = numbered (dump_node gb) (live_list gb),
     t_edges = map pmm_edge.truncate
       (numbered (\<lambda>i e. dump_edge_row js gb i (final_id gb (ge_source_id e)) (final_id gb (ge_target_id e)) e)
         [e \<leftarrow> edge_content gb. dumped_edge gb e])\<rparr>"
proof -
  obtain rc chunks rows' where app: "append_partitions w 0 False (numbered (dump_node gb) (live_list gb)) = (rc, chunks, rows')"
    by (metis prod_cases3)
  have "rc = 0" "concat chunks = numbered (dump_node gb) (live_list gb)"
    using append_partitions_ok[OF _ app] assms(3) by (simp_all add: writer_ok_def)
  then show ?thesis
    using assms(3)
    by (simp add: pmm_gbuf_dump_to_sqlite_def build_dump_nodes_eq[OF assms(1,2)] app dumped_tables_def writer_ok_def Let_def
        build_dump_edges_eq[OF assms(1,2)])
qed

lemma live_list_short: "gbuf_ok gb \<Longrightarrow> int (length (live_list gb)) < pmm_gbuf_next_id gb"
proof -
  assume ok: "gbuf_ok gb"
  have sub: "gn_id ` set (live_list gb) \<subseteq> {1..<pmm_gbuf_next_id gb}"
    using nodes_okD(4)[OF gbuf_okD(1)[OF ok]] gbuf_okD(2)[OF ok]
    by (fastforce simp: live_list_def in_set_conv_nth node_at_def ids_below_def)
  have "length (live_list gb) = card (gn_id ` set (live_list gb))"
    using live_list_facts(1)[OF ok] by (metis distinct_card length_map set_map)
  also have "\<dots> \<le> card {1..<pmm_gbuf_next_id gb}"
    by (rule card_mono[OF _ sub]) simp
  finally have "length (live_list gb) \<le> nat (pmm_gbuf_next_id gb - 1)"
    by simp
  moreover have "0 < pmm_gbuf_next_id gb"
    using gbuf_okD(3)[OF ok] by (simp add: edges_ok_def)
  ultimately show ?thesis
    by linarith
qed

lemma length_live: "gbuf_ok gb \<Longrightarrow> length (live_list gb) = card (dom (node_content gb))"
proof -
  assume ok: "gbuf_ok gb"
  note L = live_list_facts[OF ok] and N = gbuf_okD(1)[OF ok]
  have "inj_on (node_content gb) (dom (node_content gb))"
    by (rule inj_onI) (auto simp: node_content_Some[OF N])
  then have "card (dom (node_content gb)) = card (node_content gb ` dom (node_content gb))"
    by (simp add: card_image)
  also have "node_content gb ` dom (node_content gb) = Some ` ran (node_content gb)"
    by (force simp: ran_def dom_def)
  also have "card (Some ` ran (node_content gb)) = card (set (live_list gb))"
    by (simp add: card_image L(3))
  also have "\<dots> = length (live_list gb)"
    using L(1) by (simp add: distinct_card distinct_map)
  finally show ?thesis
    by simp
qed

lemma final_id_range: "gbuf_ok gb \<Longrightarrow> i \<in> live_ids gb \<Longrightarrow> 1 \<le> final_id gb i \<and> final_id gb i \<le> int (length (live_list gb))"
  using final_id_pos[of gb i] final_id_le[of gb i] live_list_facts(2)[of gb] by force

text \<open>C11: the dump is the graph with ids from 1 on.  When the writer accepts the rows, the node rows
  are the live nodes in order with ids 1, 2, ..., as many as the node count, no two with the same
  qualified name; the edge rows are the edges between live nodes in order, their ends mapped to the
  ids of the same nodes, so every end is the id of a node row.\<close>

theorem dump_refines_buffer:
  fixes js :: "string \<Rightarrow> string \<Rightarrow> string option" and qs :: "dump_vector list \<Rightarrow> dump_vector list"
  assumes "gbuf_reachable gb" "gb_shared_ids gb = None" "writer_ok w"
  defines "D \<equiv> dumped_tables (pmm_gbuf_dump_to_sqlite js qs w gb)"
  defines "live \<equiv> pmm_gbuf_foreach_node gb (\<lambda>n acc. acc @ [n]) []"
  shows "t_nodes D = numbered (dump_node gb) live \<and> map n_id (t_nodes D) = map int [1..<Suc (length live)] \<and>
    length (t_nodes D) = ht_count (gb_node_by_qn gb) \<and> distinct (map n_qualified_name (t_nodes D)) \<and>
    map (\<lambda>e. (e_id e, e_source_id e, e_target_id e, e_type e, e_properties_json e)) (t_edges D) =
      numbered (\<lambda>i e. (i, final_id gb (ge_source_id e), final_id gb (ge_target_id e), Some (ge_type e), Some (ge_properties_json e)))
        [e \<leftarrow> edge_content gb. ge_source_id e \<in> live_ids gb \<and> ge_target_id e \<in> live_ids gb] \<and>
    list_all (\<lambda>e. e_source_id e \<in> n_id ` set (t_nodes D) \<and> e_target_id e \<in> n_id ` set (t_nodes D)) (t_edges D)"
proof -
  note ok = reachable_gbuf_ok[OF assms(1)]
  have live: "live = live_list gb"
    by (simp add: live_def foreach_nodes live_list_def)
  note D = dump_eq[OF ok assms(2,3), of js qs, folded D_def]
  have nodes: "t_nodes D = numbered (dump_node gb) live"
    by (simp add: D live)
  have ids: "map n_id (t_nodes D) = map int [1..<Suc (length live)]"
    by (rule nth_equalityI) (simp_all add: nodes numbered_def dump_node_def del: upt_Suc)
  have idset: "n_id ` set (t_nodes D) = {1..int (length live)}"
  proof -
    have "n_id ` set (t_nodes D) = int ` {1..<Suc (length live)}"
      using arg_cong[OF ids, of set] by (simp del: upt_Suc)
    also have "\<dots> = {1..int (length live)}"
      by (force simp: image_iff intro: bexI[of _ "nat _"])
    finally show ?thesis .
  qed
  have names: "map n_qualified_name (t_nodes D) = map gn_qualified_name live"
    by (simp add: nodes map_numbered dump_node_def numbered_const)
  have cnt: "length (t_nodes D) = ht_count (gb_node_by_qn gb)"
    by (simp add: nodes live length_live[OF ok] count_content[OF gbuf_okD(1)[OF ok]])
  have edges: "map (\<lambda>e. (e_id e, e_source_id e, e_target_id e, e_type e, e_properties_json e)) (t_edges D) =
      numbered (\<lambda>i e. (i, final_id gb (ge_source_id e), final_id gb (ge_target_id e), Some (ge_type e), Some (ge_properties_json e)))
        [e \<leftarrow> edge_content gb. ge_source_id e \<in> live_ids gb \<and> ge_target_id e \<in> live_ids gb]"
    by (simp add: D map_numbered dump_edge_row_def pmm_edge.truncate_def dumped_edge_def)
  have "list_all (\<lambda>e. e_source_id e \<in> n_id ` set (t_nodes D) \<and> e_target_id e \<in> n_id ` set (t_nodes D)) (t_edges D)"
    unfolding idset list_all_length
  proof (intro allI impI)
    fix k
    assume k: "k < length (t_edges D)"
    let ?es = "[e \<leftarrow> edge_content gb. dumped_edge gb e]"
    have len: "k < length ?es"
      using k by (simp add: D)
    note e = nth_mem[OF this]
    have "t_edges D ! k = pmm_edge.truncate (dump_edge_row js gb (int k + 1) (final_id gb (ge_source_id (?es ! k)))
        (final_id gb (ge_target_id (?es ! k))) (?es ! k))"
      using len by (simp add: D nth_numbered)
    moreover have "ge_source_id (?es ! k) \<in> live_ids gb" "ge_target_id (?es ! k) \<in> live_ids gb"
      using e by (simp_all add: dumped_edge_def)
    ultimately show "e_source_id (t_edges D ! k) \<in> {1..int (length live)} \<and> e_target_id (t_edges D ! k) \<in> {1..int (length live)}"
      using final_id_range[OF ok] by (simp add: dump_edge_row_def pmm_edge.truncate_def live)
  qed
  then show ?thesis
    using nodes ids names cnt edges live_list_facts(4)[OF ok] live by simp
qed

definition demo_writer :: writer where
  "demo_writer = \<lparr>wr_open = True, wr_append = \<lambda>k c. 0, wr_finalize = \<lambda>im. 0, wr_over_budget = \<lambda>k. False\<rparr>"

definition no_json :: "string \<Rightarrow> string \<Rightarrow> string option" where
  "no_json text key = None"

lemma demo_writer_ok: "writer_ok demo_writer"
  by (simp add: writer_ok_def demo_writer_def)

lemma demo_not_shared: "gb_shared_ids demo_gbuf = None"
  by code_simp

lemma dump_refines_buffer_witness:
  "map n_id (t_nodes (dumped_tables (pmm_gbuf_dump_to_sqlite no_json id demo_writer demo_gbuf))) = [1, 2]"
proof -
  have "length (pmm_gbuf_foreach_node demo_gbuf (\<lambda>n acc. acc @ [n]) []) = 2"
    by code_simp
  moreover have "map n_id (t_nodes (dumped_tables (pmm_gbuf_dump_to_sqlite no_json id demo_writer demo_gbuf))) =
      map int [1..<Suc (length (pmm_gbuf_foreach_node demo_gbuf (\<lambda>n acc. acc @ [n]) []))]"
    using dump_refines_buffer[OF demo_reachable demo_not_shared demo_writer_ok] by blast
  ultimately show ?thesis
    by (simp add: numeral_2_eq_2)
qed

section \<open>Streaming\<close>

lemma append_pressure:
  assumes "\<forall>k c. wr_append w k c = wr_append w' k c"
  shows "fst (append_partitions w k f rows) = fst (append_partitions w' k f' rows) \<and>
    fst (snd (append_partitions w k f rows)) = fst (snd (append_partitions w' k f' rows))"
proof (induction "length rows" arbitrary: k f f' rows rule: less_induct)
  case less
  show ?case
  proof (cases "rows = [] \<or> wr_append w k (take partition_nodes rows) \<noteq> 0")
    case True
    then show ?thesis
      using assms by (auto simp: append_partitions.simps[of _ k _ rows] Let_def)
  next
    case False
    have "length (drop partition_nodes rows) < length rows"
      using False by simp
    note IH = less[OF this, of "Suc k" "f \<or> wr_over_budget w k" "f' \<or> wr_over_budget w' k"]
    obtain a b c a' b' c' where
      "append_partitions w (Suc k) (f \<or> wr_over_budget w k) (drop partition_nodes rows) = (a, b, c)"
      "append_partitions w' (Suc k) (f' \<or> wr_over_budget w' k) (drop partition_nodes rows) = (a', b', c')"
      by (metis prod_cases3)
    then show ?thesis
      using False assms IH by (simp add: append_partitions.simps[of _ k _ rows] Let_def)
  qed
qed

text \<open>Streaming the node rows is safe.  The tables do not depend on the memory budget, which only
  decides whether written rows lose their properties in memory; when the file does not open the
  dump reports an error and writes nothing, and when an append fails the dump reports its code,
  hands over no edge, and what was written is a beginning of the rows.\<close>

theorem dump_streams_rows:
  fixes js :: "string \<Rightarrow> string \<Rightarrow> string option" and w :: writer and qs :: "dump_vector list \<Rightarrow> dump_vector list"
  assumes "gbuf_reachable gb" "gb_shared_ids gb = None"
  defines "res \<equiv> pmm_gbuf_dump_to_sqlite js qs w gb"
  shows "dumped_tables res = dumped_tables (pmm_gbuf_dump_to_sqlite js qs (w\<lparr>wr_over_budget := pressure\<rparr>) gb) \<and>
    (if wr_open w then dr_image res \<noteq> None else dr_rc res = -1 \<and> dr_appended res = []) \<and>
    take (length (t_nodes (dumped_tables res))) (numbered (dump_node gb) (live_list gb)) = t_nodes (dumped_tables res) \<and>
    (if t_nodes (dumped_tables res) = numbered (dump_node gb) (live_list gb) then True
     else t_edges (dumped_tables res) = [] \<and> dr_rc res \<noteq> 0)"
proof -
  note ok = reachable_gbuf_ok[OF assms(1)]
  let ?rows = "numbered (dump_node gb) (live_list gb)" and ?w' = "w\<lparr>wr_over_budget := pressure\<rparr>"
  obtain rc chunks rows' where app: "append_partitions w 0 False ?rows = (rc, chunks, rows')"
    by (metis prod_cases3)
  obtain rc2 chunks2 rows2 where app2: "append_partitions ?w' 0 False ?rows = (rc2, chunks2, rows2)"
    by (metis prod_cases3)
  have same: "rc2 = rc" "chunks2 = chunks"
    using append_pressure[of w ?w' 0 False ?rows False] by (simp_all add: app app2)
  have done_: "concat chunks = ?rows" if "rc = 0"
    using append_partitions_done[of w 0 False ?rows chunks rows'] app that by simp
  have "\<exists>rest. concat chunks @ rest = ?rows"
    using append_partitions_fails[OF app] done_ by (cases "rc = 0") auto
  then have part: "take (length (concat chunks)) ?rows = concat chunks"
    by (metis append_eq_conv_conj)
  show ?thesis
    using same done_ part
    by (auto simp: res_def pmm_gbuf_dump_to_sqlite_def build_dump_nodes_eq[OF ok assms(2)] app app2 dumped_tables_def
        Let_def)
qed

lemma dump_streams_rows_witness:
  "dumped_tables (pmm_gbuf_dump_to_sqlite no_json id demo_writer demo_gbuf) =
   dumped_tables (pmm_gbuf_dump_to_sqlite no_json id (demo_writer\<lparr>wr_over_budget := \<lambda>k. True\<rparr>) demo_gbuf)"
  using dump_streams_rows[OF demo_reachable demo_not_shared, where pressure = "\<lambda>k. True"] by blast

section \<open>The round trip\<close>

lemma dumped_edge_rows:
  fixes js :: "string \<Rightarrow> string \<Rightarrow> string option"
  assumes "gbuf_ok gb"
  defines "rows \<equiv> map pmm_edge.truncate
       (numbered (\<lambda>i e. dump_edge_row js gb i (final_id gb (ge_source_id e)) (final_id gb (ge_target_id e)) e)
         [e \<leftarrow> edge_content gb. dumped_edge gb e])"
  shows "\<forall>row\<in>set rows. edge_ends_ok (int (length (live_list gb))) row \<and> e_project row = Some (gb_project gb)"
    "row_triple ` set rows = (\<lambda>(a, b, ty). (final_id gb a, final_id gb b, ty)) `
       {(a, b, ty) \<in> edge_triples gb. a \<in> live_ids gb \<and> b \<in> live_ids gb}"
proof -
  let ?es = "[e \<leftarrow> edge_content gb. dumped_edge gb e]"
  have rows: "map (\<lambda>row. (row_triple row, e_type row, e_project row)) rows =
      map (\<lambda>e. ((final_id gb (ge_source_id e), final_id gb (ge_target_id e), ge_type e), Some (ge_type e), Some (gb_project gb))) ?es"
    by (simp add: rows_def map_numbered dump_edge_row_def pmm_edge.truncate_def row_triple_def or_empty_def numbered_const)
  have wf: "type_ok (ge_type e)" if "e \<in> set (edge_content gb)" for e
    using that gbuf_okD(3)[OF assms(1)] by (auto simp: edge_content_def edges_ok_def edge_heap_ok_def edge_wf_def)
  show "\<forall>row\<in>set rows. edge_ends_ok (int (length (live_list gb))) row \<and> e_project row = Some (gb_project gb)"
  proof
    fix row
    assume "row \<in> set rows"
    then have "(row_triple row, e_type row, e_project row) \<in> set (map (\<lambda>row. (row_triple row, e_type row, e_project row)) rows)"
      by simp
    then obtain e where "e \<in> set ?es" "row_triple row = (final_id gb (ge_source_id e), final_id gb (ge_target_id e), ge_type e)"
      "e_type row = Some (ge_type e)" "e_project row = Some (gb_project gb)"
      unfolding rows by auto
    then show "edge_ends_ok (int (length (live_list gb))) row \<and> e_project row = Some (gb_project gb)"
      using wf final_id_range[OF assms(1)] by (simp add: edge_ends_ok_def row_triple_def dumped_edge_def)
  qed
  have "row_triple ` set rows = set (map fst (map (\<lambda>row. (row_triple row, e_type row, e_project row)) rows))"
    by simp
  also have "\<dots> = (\<lambda>e. (final_id gb (ge_source_id e), final_id gb (ge_target_id e), ge_type e)) ` set ?es"
    unfolding rows by simp
  also have "\<dots> = (\<lambda>(a, b, ty). (final_id gb a, final_id gb b, ty)) `
       {(a, b, ty) \<in> edge_triples gb. a \<in> live_ids gb \<and> b \<in> live_ids gb}"
    by (force simp: edge_triples_def edge_triple_def dumped_edge_def image_iff)
  finally show "row_triple ` set rows = (\<lambda>(a, b, ty). (final_id gb a, final_id gb b, ty)) `
       {(a, b, ty) \<in> edge_triples gb. a \<in> live_ids gb \<and> b \<in> live_ids gb}" .
qed

lemma image_triple_iff:
  assumes "\<And>i j. i \<in> L \<Longrightarrow> j \<in> L \<Longrightarrow> f i = f j \<Longrightarrow> i = j" "a \<in> L" "b \<in> L"
  shows "(f a, f b, ty) \<in> (\<lambda>(a, b, ty). (f a, f b, ty)) ` {(a, b, ty). (a, b, ty) \<in> T \<and> a \<in> L \<and> b \<in> L} \<longleftrightarrow> (a, b, ty) \<in> T"
proof
  assume "(f a, f b, ty) \<in> (\<lambda>(a, b, ty). (f a, f b, ty)) ` {(a, b, ty). (a, b, ty) \<in> T \<and> a \<in> L \<and> b \<in> L}"
  then obtain x y where "f x = f a" "f y = f b" "(x, y, ty) \<in> T" "x \<in> L" "y \<in> L"
    by auto
  then show "(a, b, ty) \<in> T"
    using assms(1)[of x a] assms(1)[of y b] assms(2,3) by simp
next
  assume "(a, b, ty) \<in> T"
  then show "(f a, f b, ty) \<in> (\<lambda>(a, b, ty). (f a, f b, ty)) ` {(a, b, ty). (a, b, ty) \<in> T \<and> a \<in> L \<and> b \<in> L}"
    using assms(2,3) by (force simp: image_iff)
qed

text \<open>C10: an indexed project survives the database.  Loading the dumped tables into a fresh buffer gives a
  well-formed buffer with the same nodes under the same qualified names, in every field but the id,
  which is the final id of the dump, and with the same edges between qualified names.\<close>

theorem load_dump_roundtrip:
  fixes js :: "string \<Rightarrow> string \<Rightarrow> string option" and qs :: "dump_vector list \<Rightarrow> dump_vector list"
    and project root :: "string option"
  assumes "gbuf_reachable gb" "gb_shared_ids gb = None" "writer_ok w" "pmm_gbuf_next_id gb \<le> LONG_MAX"
    and lines: "\<forall>n\<in>set (live_list gb). line32 (gn_start_line n) \<and> line32 (gn_end_line n)"
  defines "D \<equiv> dumped_tables (pmm_gbuf_dump_to_sqlite js qs w gb)"
  defines "g \<equiv> pmm_gbuf_load_from_db (pmm_gbuf_new project root) D (gb_project gb)"
  shows "gbuf_ok g \<and> node_content g = (\<lambda>q. map_option (\<lambda>n. n\<lparr>gn_id := final_id gb (gn_id n)\<rparr>) (node_content gb q)) \<and>
    named_edges g = named_edges gb"
proof -
  note ok = reachable_gbuf_ok[OF assms(1)]
  note L = live_list_facts[OF ok]
  let ?rows = "numbered (dump_node gb) (live_list gb)"
  have D: "D = \<lparr>t_nodes = ?rows, t_edges = map pmm_edge.truncate
       (numbered (\<lambda>i e. dump_edge_row js gb i (final_id gb (ge_source_id e)) (final_id gb (ge_target_id e)) e)
         [e \<leftarrow> edge_content gb. dumped_edge gb e])\<rparr>"
    unfolding D_def by (rule dump_eq[OF ok assms(2,3)])
  have "n_project r = Some (gb_project gb)" if "r \<in> set ?rows" for r
    using that by (auto simp: numbered_def dump_node_def)
  then have nodes: "order_by (\<lambda>a b. n_id a \<le> n_id b) [n \<leftarrow> t_nodes D. n_project n = Some (gb_project gb)] = ?rows"
    using numbered_sorted by (simp add: D order_by_sorted)
  define mx where "mx = max_node_id ?rows"
  have le: "\<forall>i\<in>{1..int (length (live_list gb))}. i \<le> mx"
  proof
    fix i
    assume i: "i \<in> {1..int (length (live_list gb))}"
    then have "?rows ! nat (i - 1) \<in> set ?rows"
      by (intro nth_mem) auto
    moreover have "n_id (?rows ! nat (i - 1)) = i"
      using i by (subst nth_numbered) (auto simp: dump_node_def)
    ultimately show "i \<le> mx"
      using max_node_id_ge[of "?rows ! nat (i - 1)" ?rows] by (simp add: mx_def)
  qed
  have names: "\<forall>n\<in>set (live_list gb). gn_qualified_name n \<noteq> None \<and> line32 (gn_start_line n) \<and> line32 (gn_end_line n)"
    using lines L(3) node_content_Some[OF gbuf_okD(1)[OF ok]] by (fastforce simp: ran_def)
  obtain g1 m where load: "foldl (load_node_step mx) (pmm_gbuf_new project root, \<lambda>i. 0) ?rows = (g1, m)"
    and G: "gbuf_ok g1" "edge_content g1 = []" and m: "\<And>i. 1 \<le> i \<Longrightarrow> i \<le> int (length (live_list gb)) \<Longrightarrow> m i = i"
    and C: "\<And>q. node_content g1 q = (case first_index (\<lambda>n. gn_qualified_name n = Some q) (live_list gb) of
        None \<Rightarrow> None | Some k \<Rightarrow> Some ((live_list gb ! k)\<lparr>gn_id := int k + 1\<rparr>))"
    using load_nodes_fold[OF names L(4) le, of project root gb] by auto
  have small: "int (length (live_list gb)) \<le> LONG_MAX"
    using live_list_short[OF ok] assms(4) by simp
  have mx_le: "int (length (live_list gb)) \<le> mx"
    using le by (cases "live_list gb") (auto simp: mx_def max_node_id_def)
  note E = dumped_edge_rows[OF ok, of js]
  have "[e \<leftarrow> t_edges D. e_project e = Some (gb_project gb)] = t_edges D"
    using E(1) by (simp add: D)
  then have g: "g = foldl (load_edge_step mx m) g1 (t_edges D)"
    using load by (simp add: g_def pmm_gbuf_load_from_db_def nodes mx_def[symmetric])
  have F: "gbuf_ok g" "node_content g = node_content g1" "edge_triples g = edge_triples g1 \<union> row_triple ` set (t_edges D)"
    using load_edges_fold[OF G(1) _ mx_le small m, of "t_edges D"] E(1) by (simp_all add: g D)
  have content: "node_content g q = map_option (\<lambda>n. n\<lparr>gn_id := final_id gb (gn_id n)\<rparr>) (node_content gb q)" for q
  proof (cases "node_content gb q")
    case None
    have "gn_qualified_name n \<noteq> Some q" if n: "n \<in> set (live_list gb)" for n
    proof
      assume nq: "gn_qualified_name n = Some q"
      obtain p where "node_content gb p = Some n"
        using n unfolding L(3) ran_def by blast
      moreover from this have "gn_qualified_name n = Some p"
        by (auto simp: node_content_Some[OF gbuf_okD(1)[OF ok]])
      ultimately show False
        using nq None by simp
    qed
    then have "first_index (\<lambda>n. gn_qualified_name n = Some q) (live_list gb) = None"
      by (simp add: first_index_None)
    then show ?thesis
      using None by (simp add: F(2) C)
  next
    case (Some n)
    obtain k where k: "k < length (live_list gb)" "first_index (\<lambda>n. gn_qualified_name n = Some q) (live_list gb) = Some k"
      "live_list gb ! k = n"
      using first_index_qn[OF ok Some] by blast
    then show ?thesis
      using Some final_id_nth[OF L(1) k(1)] by (simp add: F(2) C)
  qed
  have triples: "edge_triples g = (\<lambda>(a, b, ty). (final_id gb a, final_id gb b, ty)) `
       {(a, b, ty) \<in> edge_triples gb. a \<in> live_ids gb \<and> b \<in> live_ids gb}"
    using F(3) E(2) by (simp add: D) (simp add: edge_triples_def G(2))
  have live: "gn_id n \<in> live_ids gb" if "node_content gb q = Some n" for q n
    using that by (auto simp: live_ids_def ran_def)
  have "(final_id gb (gn_id a), final_id gb (gn_id b), ty) \<in> edge_triples g \<longleftrightarrow> (gn_id a, gn_id b, ty) \<in> edge_triples gb"
    if "node_content gb q1 = Some a" "node_content gb q2 = Some b" for q1 q2 a b ty
    unfolding triples by (rule image_triple_iff[OF _ live[OF that(1)] live[OF that(2)]]) (rule final_id_inj[OF ok])
  then have "named_edges g = named_edges gb"
    by (auto simp: named_edges_def content)
  then show ?thesis
    using F(1) content by (simp add: fun_eq_iff)
qed

lemma load_dump_roundtrip_witness:
  "named_edges (pmm_gbuf_load_from_db (pmm_gbuf_new (Some ''p'') None)
     (dumped_tables (pmm_gbuf_dump_to_sqlite no_json id demo_writer demo_gbuf)) (gb_project demo_gbuf)) = named_edges demo_gbuf"
proof -
  have "map (\<lambda>n. (gn_start_line n, gn_end_line n)) (live_list demo_gbuf) = [(1, 2), (3, 4)]"
    by code_simp
  then have "\<forall>n\<in>set (live_list demo_gbuf). line32 (gn_start_line n) \<and> line32 (gn_end_line n)"
    by (auto simp: line32_def map_eq_Cons_conv)
  then show ?thesis
    using load_dump_roundtrip[OF demo_reachable demo_not_shared demo_writer_ok] by (simp add: demo_next_id)
qed

section \<open>Vectors\<close>

text \<open>What the dump relies on of \<open>qsort\<close>: the same vectors, in order of their ids.\<close>

definition sorts :: "(dump_vector list \<Rightarrow> dump_vector list) \<Rightarrow> bool" where
  "sorts qs \<longleftrightarrow> (\<forall>vs. mset (qs vs) = mset vs \<and> sorted (map dv_node_id (qs vs)))"

lemma dedup_vectors_set: "set (dedup_vectors vs) \<subseteq> set vs"
  by (induction vs rule: dedup_vectors.induct) auto

lemma dedup_vectors_ids: "dv_node_id ` set (dedup_vectors vs) = dv_node_id ` set vs"
  by (induction vs rule: dedup_vectors.induct) auto

lemma dedup_vectors_hd: "vs \<noteq> [] \<Longrightarrow> dedup_vectors vs \<noteq> [] \<and> dv_node_id (hd (dedup_vectors vs)) = dv_node_id (hd vs)"
  by (induction vs rule: dedup_vectors.induct) auto

lemma dedup_vectors_strict:
  "sorted (map dv_node_id vs) \<Longrightarrow> sorted_wrt (<) (map dv_node_id (dedup_vectors vs))"
proof (induction vs rule: dedup_vectors.induct)
  case (3 v w vs)
  have "dv_node_id x \<in> dv_node_id ` set (w # vs)" if "x \<in> set (dedup_vectors (w # vs))" for x
    using that dedup_vectors_ids[of "w # vs"] by blast
  then show ?case
    using 3 by fastforce
qed simp_all

text \<open>The vectors of the dump are a table keyed by node.  Their ids strictly increase, each is the
  final id of a live node that had a vector, every live node that had a vector keeps one of its
  own, and vectors of deleted nodes or of other ids are dropped.\<close>

theorem dump_vectors_table:
  fixes js :: "string \<Rightarrow> string \<Rightarrow> string option"
  assumes "gbuf_reachable gb" "gb_shared_ids gb = None" "sorts qs" "writer_ok w"
  defines "vs \<equiv> di_vectors (the (dr_image (pmm_gbuf_dump_to_sqlite js qs w gb)))"
  shows "sorted_wrt (<) (map dv_node_id vs) \<and>
    dv_node_id ` set vs = final_id gb ` (dv_node_id ` set (gb_dump_vectors gb) \<inter> live_ids gb) \<and>
    list_all (\<lambda>v. \<exists>u\<in>set (gb_dump_vectors gb). v = u\<lparr>dv_node_id := final_id gb (dv_node_id u)\<rparr>) vs"
proof -
  note ok = reachable_gbuf_ok[OF assms(1)]
  let ?r = "remap_vectors (final_id gb) (gb_next_id gb) (gb_dump_vectors gb)"
  obtain rc chunks rows' where app: "append_partitions w 0 False (numbered (dump_node gb) (live_list gb)) = (rc, chunks, rows')"
    by (metis prod_cases3)
  have "rc = 0"
    using append_partitions_ok[OF _ app] assms(4) by (simp add: writer_ok_def)
  then have vs_def: "vs = remap_sort_dedup_vectors qs (final_id gb) (gb_next_id gb) (gb_dump_vectors gb)"
    using assms(4)
    by (simp add: vs_def pmm_gbuf_dump_to_sqlite_def build_dump_nodes_eq[OF ok assms(2)] app writer_ok_def Let_def)
  have live: "0 < i \<and> i < gb_next_id gb \<and> 0 < final_id gb i \<longleftrightarrow> i \<in> live_ids gb" for i
  proof -
    have "0 < i \<and> i < gb_next_id gb" if i: "i \<in> live_ids gb"
    proof -
      obtain n where n: "n \<in> set (gb_nodes gb)" "i = gn_id n"
        using i unfolding live_list_facts(2)[OF ok, symmetric] by (auto simp: live_list_def)
      then have "0 < i"
        using nodes_okD(4)[OF gbuf_okD(1)[OF ok]] by (auto simp: in_set_conv_nth node_at_def)
      then show ?thesis
        using own_ids_below[OF ok assms(2) n(1)] n(2) by simp
    qed
    then show ?thesis
      using final_id_pos[of gb i] live_list_facts(2)[OF ok] by auto
  qed
  have r_ids: "dv_node_id ` set ?r = final_id gb ` (dv_node_id ` set (gb_dump_vectors gb) \<inter> live_ids gb)"
    using live by (force simp: remap_vectors_def image_iff)
  have r_from: "\<exists>u\<in>set (gb_dump_vectors gb). v = u\<lparr>dv_node_id := final_id gb (dv_node_id u)\<rparr>" if "v \<in> set ?r" for v
    using that by (auto simp: remap_vectors_def)
  have q: "set (qs ?r) = set ?r" "sorted (map dv_node_id (qs ?r))"
    using assms(3) mset_eq_setD by (auto simp: sorts_def)
  show ?thesis
  proof (cases "2 \<le> length ?r")
    case True
    then have vs: "vs = dedup_vectors (qs ?r)"
      by (simp add: vs_def remap_sort_dedup_vectors_def)
    have "list_all (\<lambda>v. \<exists>u\<in>set (gb_dump_vectors gb). v = u\<lparr>dv_node_id := final_id gb (dv_node_id u)\<rparr>) vs"
      unfolding list_all_iff vs using r_from dedup_vectors_set[of "qs ?r"] q(1) by blast
    then show ?thesis
      using dedup_vectors_strict[OF q(2)] dedup_vectors_ids[of "qs ?r"] r_ids q(1) by (simp add: vs)
  next
    case False
    then have vs: "vs = ?r"
      by (simp add: vs_def remap_sort_dedup_vectors_def)
    have "sorted_wrt (<) (map dv_node_id vs)"
      using False by (cases vs; cases "tl vs") (auto simp: vs)
    then show ?thesis
      using r_ids r_from by (simp add: vs list_all_iff)
  qed
qed

lemma sorts_sort_key: "sorts (sort_key dv_node_id)"
  by (simp add: sorts_def)

definition demo_vectors :: gbuf where
  "demo_vectors =
     (let g1 = snd (pmm_gbuf_store_vector demo_gbuf 2 [7]);
          g2 = snd (pmm_gbuf_store_vector g1 9 [8])
      in snd (pmm_gbuf_store_vector g2 2 [9]))"

lemma dump_vectors_table_witness:
  "sorted_wrt (<) (map dv_node_id (di_vectors (the (dr_image
     (pmm_gbuf_dump_to_sqlite no_json (sort_key dv_node_id) demo_writer demo_vectors)))))"
proof -
  have "gbuf_reachable demo_vectors"
    unfolding demo_vectors_def Let_def by (intro gbuf_reachable.vector demo_reachable)
  moreover have "gb_shared_ids demo_vectors = None"
    by code_simp
  ultimately show ?thesis
    using dump_vectors_table[OF _ _ sorts_sort_key demo_writer_ok] by blast
qed

end
