(* ===== verification/Gitignore.thy ===== *)
theory Gitignore
  imports Cyp_Prelude
begin

text \<open>
  The gitignore matcher of the file discovery, src/src/discover/gitignore.c: its structs, the glob
  matcher, the parser of ignore files, the matching of a path against a list of patterns and the
  merge of two lists.  A pointer into a string is the string from there on.  Characters compare as
  signed bytes, as \<open>char\<close> is on the platforms the build files name.  In the parser memory is there;
  in the merge, which promises to be atomic, every allocation may fail.
\<close>

section \<open>Pointers into strings\<close>

definition strchr_at :: "string \<Rightarrow> char \<Rightarrow> string option" where
  "strchr_at s c = (case dropWhile (\<lambda>d. d \<noteq> c) s of [] \<Rightarrow> None | t \<Rightarrow> Some t)"

lemma strchr_at_Some: "strchr_at s c = Some t \<longleftrightarrow> (\<exists>u v. s = u @ c # v \<and> t = c # v \<and> c \<notin> set u)"
proof
  assume "strchr_at s c = Some t"
  then have t: "t = dropWhile (\<lambda>d. d \<noteq> c) s" "t \<noteq> []"
    by (auto simp: strchr_at_def split: list.splits)
  from t(2) obtain d r where r: "t = d # r"
    by (auto simp: neq_Nil_conv)
  then have "d = c"
    using t hd_dropWhile[of "\<lambda>d. d \<noteq> c" s] by (metis list.sel(1))
  then have "s = takeWhile (\<lambda>d. d \<noteq> c) s @ c # r \<and> t = c # r"
    using t(1) r takeWhile_dropWhile_id[of "\<lambda>d. d \<noteq> c" s] by simp
  moreover have "c \<notin> set (takeWhile (\<lambda>d. d \<noteq> c) s)"
    by (auto dest: set_takeWhileD)
  ultimately show "\<exists>u v. s = u @ c # v \<and> t = c # v \<and> c \<notin> set u"
    by blast
next
  assume "\<exists>u v. s = u @ c # v \<and> t = c # v \<and> c \<notin> set u"
  then obtain u v where *: "s = u @ c # v" "t = c # v" "c \<notin> set u"
    by blast
  then have "dropWhile (\<lambda>d. d \<noteq> c) (u @ c # v) = c # v"
    by (subst dropWhile_append2) auto
  then show "strchr_at s c = Some t"
    by (simp add: * strchr_at_def)
qed

lemma strchr_at_None: "strchr_at s c = None \<longleftrightarrow> c \<notin> set s"
  by (induction s) (auto simp: strchr_at_def)

lemma strchr_at_tl_length: "strchr_at s c = Some t \<Longrightarrow> length (tl t) < length s"
  by (auto simp: strchr_at_Some)

fun strrchr_at :: "string \<Rightarrow> char \<Rightarrow> string option" where
  "strrchr_at [] c = None"
| "strrchr_at (d # ds) c =
     (case strrchr_at ds c of
        Some t \<Rightarrow> Some t
      | None \<Rightarrow> if d = c then Some (d # ds) else None)"

definition schar :: "char \<Rightarrow> int" where
  "schar c = (let n = of_char c in if n < 128 then n else n - 256)"

section \<open>Structs\<close>

record gi_pattern =
  gi_text :: string
  gi_negated :: bool
  gi_dir_only :: bool
  gi_rooted :: bool

text \<open>The patterns are the first \<open>count\<close> entries of an array of \<open>gi_capacity\<close>.\<close>

record gitignore =
  gi_patterns :: "gi_pattern list"
  gi_capacity :: int

section \<open>Glob matching\<close>

text \<open>The scan of a character class: the result is whether the character is in it and the pattern after
  the closing bracket.\<close>

function charclass_loop :: "char \<Rightarrow> char \<Rightarrow> bool \<Rightarrow> string \<Rightarrow> bool \<times> string" where
  "charclass_loop ch prev matched pat =
     (case pat of
        [] \<Rightarrow> (matched, [])
      | c # cs \<Rightarrow>
          if c = CHR '']'' then (matched, cs)
          else if c = CHR ''-'' \<and> prev \<noteq> NUL \<and> cs \<noteq> [] \<and> hd cs \<noteq> CHR '']''
          then charclass_loop ch (hd cs)
                 (matched \<or> schar prev \<le> schar ch \<and> schar ch \<le> schar (hd cs)) (tl cs)
          else charclass_loop ch c (matched \<or> ch = c) cs)"
  by pat_completeness auto
termination by (relation "measure (\<lambda>(ch, prev, matched, pat). length pat)") auto

declare charclass_loop.simps [simp del]

definition glob_match_charclass :: "string \<Rightarrow> char \<Rightarrow> bool \<times> string" where
  "glob_match_charclass pat ch =
     (let negate_class = (pat \<noteq> [] \<and> (hd pat = CHR ''!'' \<or> hd pat = CHR ''^''));
          (matched, rest) = charclass_loop ch NUL False (if negate_class then tl pat else pat)
      in (if negate_class then \<not> matched else matched, rest))"

lemma charclass_loop_length: "length (snd (charclass_loop ch prev m pat)) \<le> length pat"
proof (induction ch prev m pat rule: charclass_loop.induct)
  case (1 ch prev m pat)
  then show ?case
    by (subst charclass_loop.simps) (fastforce split: list.splits)
qed

lemma glob_match_charclass_length: "length (snd (glob_match_charclass pat ch)) \<le> length pat"
proof -
  let ?neg = "pat \<noteq> [] \<and> (hd pat = CHR ''!'' \<or> hd pat = CHR ''^'')"
  show ?thesis
    using charclass_loop_length[of ch NUL False "if ?neg then tl pat else pat"]
    by (auto simp: glob_match_charclass_def Let_def split: prod.splits if_splits)
qed

text \<open>The matcher and its searches: the loop of \<open>glob_match\<close> is its recursion, and each search tries the
  rest of the pattern at the positions its star may end at.\<close>

function glob_match :: "string \<Rightarrow> string \<Rightarrow> bool"
  and glob_match_doublestar :: "string \<Rightarrow> string \<Rightarrow> bool"
  and glob_match_doublestar_slash :: "string \<Rightarrow> string \<Rightarrow> bool"
  and doublestar_slash_loop :: "string \<Rightarrow> string \<Rightarrow> bool"
  and glob_match_doublestar_any :: "string \<Rightarrow> string \<Rightarrow> bool"
  and glob_match_star :: "string \<Rightarrow> string \<Rightarrow> bool" where
  "glob_match pat str =
     (case pat of
        [] \<Rightarrow> str = []
      | p # ps \<Rightarrow>
          (case str of
             [] \<Rightarrow> dropWhile (\<lambda>c. c = CHR ''*'') pat = []
           | s # ss \<Rightarrow>
               if p = CHR ''*'' \<and> ps \<noteq> [] \<and> hd ps = CHR ''*'' then glob_match_doublestar (tl ps) str
               else if p = CHR ''*'' then glob_match_star ps str
               else if p = CHR ''?'' then s \<noteq> CHR ''/'' \<and> glob_match ps ss
               else if p = CHR ''['' then
                 (if fst (glob_match_charclass ps s)
                  then glob_match (snd (glob_match_charclass ps s)) ss else False)
               else p = s \<and> glob_match ps ss))"
| "glob_match_doublestar pat2 str =
     (case pat2 of
        [] \<Rightarrow> True
      | p # ps \<Rightarrow> if p = CHR ''/'' then glob_match_doublestar_slash ps str
                  else glob_match_doublestar_any pat2 str)"
| "glob_match_doublestar_slash pat str \<longleftrightarrow> glob_match pat str \<or> doublestar_slash_loop pat str"
| "doublestar_slash_loop pat s =
     (case s of
        [] \<Rightarrow> False
      | c # cs \<Rightarrow> c = CHR ''/'' \<and> glob_match pat cs \<or> doublestar_slash_loop pat cs)"
| "glob_match_doublestar_any pat s \<longleftrightarrow>
     glob_match pat s \<or> (case s of [] \<Rightarrow> False | c # cs \<Rightarrow> glob_match_doublestar_any pat cs)"
| "glob_match_star pat s \<longleftrightarrow>
     glob_match pat s \<or>
     (case s of [] \<Rightarrow> False | c # cs \<Rightarrow> if c = CHR ''/'' then False else glob_match_star pat cs)"
  by pat_completeness auto
termination
  by (relation "measures [
        \<lambda>x. case x of Inl (Inl (p, s)) \<Rightarrow> length p
            | Inl (Inr (Inl (p, s))) \<Rightarrow> length p | Inl (Inr (Inr (p, s))) \<Rightarrow> length p
            | Inr (Inl (p, s)) \<Rightarrow> length p | Inr (Inr (Inl (p, s))) \<Rightarrow> length p
            | Inr (Inr (Inr (p, s))) \<Rightarrow> length p,
        \<lambda>x. case x of Inl (Inl (p, s)) \<Rightarrow> 0
            | Inl (Inr (Inl (p, s))) \<Rightarrow> 3 | Inl (Inr (Inr (p, s))) \<Rightarrow> 2
            | Inr (Inl (p, s)) \<Rightarrow> 1 | Inr (Inr (Inl (p, s))) \<Rightarrow> 1
            | Inr (Inr (Inr (p, s))) \<Rightarrow> 1,
        \<lambda>x. case x of Inl (Inl (p, s)) \<Rightarrow> length s
            | Inl (Inr (Inl (p, s))) \<Rightarrow> length s | Inl (Inr (Inr (p, s))) \<Rightarrow> length s
            | Inr (Inl (p, s)) \<Rightarrow> length s | Inr (Inr (Inl (p, s))) \<Rightarrow> length s
            | Inr (Inr (Inr (p, s))) \<Rightarrow> length s]")
    (auto simp: le_imp_less_Suc glob_match_charclass_length)

declare glob_match.simps [simp del] glob_match_doublestar.simps [simp del]
  glob_match_doublestar_slash.simps [simp del] doublestar_slash_loop.simps [simp del]
  glob_match_doublestar_any.simps [simp del] glob_match_star.simps [simp del]

section \<open>Parsing ignore files\<close>

definition trim_end :: "string \<Rightarrow> string" where
  "trim_end line =
     rev (dropWhile (\<lambda>c. c = CHR '' '' \<or> c = CHR 0x09 \<or> c = CHR 0x0D) (rev line))"

text \<open>The pattern of a line that is neither blank nor a comment, when anything is left of it.\<close>

definition line_pattern :: "string \<Rightarrow> gi_pattern option" where
  "line_pattern line =
     (let s = trim_end line in
      if s = [] then None
      else
        let negated = hd s = CHR ''!''; s1 = (if negated then tl s else s) in
        if s1 = [] then None
        else
          let dir_only = last s1 = CHR ''/''; s2 = (if dir_only then butlast s1 else s1) in
          if s2 = [] then None
          else
            let rooted = hd s2 = CHR ''/''; s3 = (if rooted then tl s2 else s2) in
            if s3 = [] then None
            else Some \<lparr>gi_text = s3, gi_negated = negated, gi_dir_only = dir_only,
                       gi_rooted = rooted \<or> CHR ''/'' \<in> set s3\<rparr>)"

definition gi_add_pattern :: "gitignore \<Rightarrow> string \<Rightarrow> gitignore" where
  "gi_add_pattern gi line =
     (case line_pattern line of
        None \<Rightarrow> gi
      | Some p \<Rightarrow>
          \<lparr>gi_patterns = gi_patterns gi @ [p],
           gi_capacity = (if gi_capacity gi \<le> int (length (gi_patterns gi))
                          then if gi_capacity gi \<noteq> 0 then gi_capacity gi * 2 else 16
                          else gi_capacity gi)\<rparr>)"

function parse_loop :: "gitignore \<Rightarrow> string \<Rightarrow> gitignore" where
  "parse_loop gi line =
     (if line = [] then gi
      else
        let text = takeWhile (\<lambda>c. c \<noteq> CHR 0x0A) line;
            gi1 = (if text \<noteq> [] \<and> hd text \<noteq> CHR ''#'' then gi_add_pattern gi text else gi)
        in case strchr_at line (CHR 0x0A) of
             None \<Rightarrow> gi1
           | Some eol \<Rightarrow> parse_loop gi1 (tl eol))"
  by pat_completeness auto
termination
  by (relation "measure (\<lambda>(gi, line). length line)") (auto dest: strchr_at_tl_length)

declare parse_loop.simps [simp del]

definition pmm_gitignore_parse :: "string option \<Rightarrow> gitignore option" where
  "pmm_gitignore_parse content =
     map_option (parse_loop \<lparr>gi_patterns = [], gi_capacity = 0\<rparr>) content"

text \<open>The file system gives the content of a file that can be opened.\<close>

definition pmm_gitignore_load :: "(string \<Rightarrow> string option) \<Rightarrow> string option \<Rightarrow> gitignore option" where
  "pmm_gitignore_load fs path =
     (case path of
        None \<Rightarrow> None
      | Some p \<Rightarrow>
          (case fs p of
             None \<Rightarrow> None
           | Some content \<Rightarrow> pmm_gitignore_parse (Some (cstr content))))"

section \<open>Matching a path\<close>

function unrooted_loop :: "string \<Rightarrow> string \<Rightarrow> bool" where
  "unrooted_loop pattern s =
     (if s = [] then False
      else if glob_match pattern s then True
      else (case strchr_at s (CHR ''/'') of
              None \<Rightarrow> False
            | Some t \<Rightarrow> unrooted_loop pattern (tl t)))"
  by pat_completeness auto
termination
  by (relation "measure (\<lambda>(p, s). length s)") (auto dest: strchr_at_tl_length)

declare unrooted_loop.simps [simp del]

definition match_unrooted :: "string \<Rightarrow> string \<Rightarrow> string \<Rightarrow> bool" where
  "match_unrooted pattern rel_path basename =
     (if glob_match pattern basename then True
      else if CHR ''/'' \<notin> set rel_path then False
      else unrooted_loop pattern rel_path)"

definition path_basename :: "string \<Rightarrow> string" where
  "path_basename rel_path =
     (case strrchr_at rel_path (CHR ''/'') of Some t \<Rightarrow> tl t | None \<Rightarrow> rel_path)"

definition pattern_step :: "string \<Rightarrow> bool \<Rightarrow> int \<Rightarrow> gi_pattern \<Rightarrow> int" where
  "pattern_step rel_path is_dir matched p =
     (if gi_dir_only p \<and> \<not> is_dir then matched
      else
        let this_match = (if gi_rooted p then glob_match (gi_text p) rel_path
                          else match_unrooted (gi_text p) rel_path (path_basename rel_path))
        in if this_match then if gi_negated p then -1 else 1 else matched)"

definition pmm_gitignore_match_result :: "gitignore option \<Rightarrow> string option \<Rightarrow> bool \<Rightarrow> int" where
  "pmm_gitignore_match_result gi rel_path is_dir =
     (case (gi, rel_path) of
        (Some g, Some p) \<Rightarrow> foldl (pattern_step p is_dir) 0 (gi_patterns g)
      | _ \<Rightarrow> 0)"

definition pmm_gitignore_matches :: "gitignore option \<Rightarrow> string option \<Rightarrow> bool \<Rightarrow> bool" where
  "pmm_gitignore_matches gi rel_path is_dir \<longleftrightarrow> 0 < pmm_gitignore_match_result gi rel_path is_dir"

section \<open>Merging\<close>

text \<open>The copy of the patterns: \<open>dup k s\<close> is what the duplication of string \<open>s\<close> of pattern \<open>k\<close>
  returns, NULL when there is no memory.\<close>

fun merge_copies :: "(nat \<Rightarrow> string \<Rightarrow> string option) \<Rightarrow> nat \<Rightarrow> gi_pattern list \<Rightarrow> gi_pattern list \<Rightarrow>
  gi_pattern list option" where
  "merge_copies dup k acc [] = Some acc"
| "merge_copies dup k acc (p # ps) =
     (case dup k (gi_text p) of
        None \<Rightarrow> None
      | Some s \<Rightarrow> merge_copies dup (Suc k) (acc @ [p\<lparr>gi_text := s\<rparr>]) ps)"

text \<open>\<open>grow\<close> is whether the array can be enlarged.  A failed copy leaves the array longer and its
  patterns as they were.\<close>

definition pmm_gitignore_merge ::
  "bool \<Rightarrow> (nat \<Rightarrow> string \<Rightarrow> string option) \<Rightarrow> gitignore option \<Rightarrow> gitignore option \<Rightarrow> bool \<times> gitignore option" where
  "pmm_gitignore_merge grow dup dst src =
     (case dst of
        None \<Rightarrow> (False, None)
      | Some d \<Rightarrow>
          (case src of
             None \<Rightarrow> (True, dst)
           | Some s \<Rightarrow>
               if gi_patterns s = [] then (True, dst)
               else
                 let needed = int (length (gi_patterns d) + length (gi_patterns s)) in
                 if gi_capacity d < needed \<and> \<not> grow then (False, dst)
                 else
                   let d1 = d\<lparr>gi_capacity := max (gi_capacity d) needed\<rparr> in
                   (case merge_copies dup 0 (gi_patterns d) (gi_patterns s) of
                      None \<Rightarrow> (False, Some d1)
                    | Some ps \<Rightarrow> (True, Some (d1\<lparr>gi_patterns := ps\<rparr>)))))"

end
