(* ===== verification/Gitignore_Facts.thy ===== *)
theory Gitignore_Facts
  imports Gitignore
begin

text \<open>
  The meaning of glob patterns as languages, the matcher of src/src/discover/gitignore.c against
  it, and the facts on parsed lines that the properties of Gitignore_Props rest on.
\<close>

section \<open>Patterns as languages\<close>

datatype gatom = Lit char | AnyChar | Star | Globstar | GlobDir | Class bool "(char \<times> char) list"

text \<open>The ranges of a class and the pattern after it; a single character is a range of one.\<close>

function class_ranges :: "char \<Rightarrow> string \<Rightarrow> (char \<times> char) list \<times> string" where
  "class_ranges prev [] = ([], [])"
| "class_ranges prev (c # cs) =
     (if c = CHR '']'' then ([], cs)
      else if c = CHR ''-'' \<and> prev \<noteq> NUL \<and> cs \<noteq> [] \<and> hd cs \<noteq> CHR '']''
      then (case class_ranges (hd cs) (tl cs) of (rs, rest) \<Rightarrow> ((prev, hd cs) # rs, rest))
      else (case class_ranges c cs of (rs, rest) \<Rightarrow> ((c, c) # rs, rest)))"
  by pat_completeness auto
termination by (relation "measure (\<lambda>(prev, pat). length pat)") auto

definition in_ranges :: "char \<Rightarrow> (char \<times> char) list \<Rightarrow> bool" where
  "in_ranges ch rs \<longleftrightarrow> list_ex (\<lambda>(lo, hi). schar lo \<le> schar ch \<and> schar ch \<le> schar hi) rs"

definition class_atom :: "string \<Rightarrow> gatom \<times> string" where
  "class_atom pat =
     (if pat \<noteq> [] \<and> (hd pat = CHR ''!'' \<or> hd pat = CHR ''^'')
      then case class_ranges NUL (tl pat) of (rs, rest) \<Rightarrow> (Class True rs, rest)
      else case class_ranges NUL pat of (rs, rest) \<Rightarrow> (Class False rs, rest))"

lemma class_ranges_length: "length (snd (class_ranges prev pat)) \<le> length pat"
proof (induction prev pat rule: class_ranges.induct)
  case (2 prev c cs)
  show ?case
    using 2 by (cases cs) (auto split: prod.splits)
qed simp

lemma class_atom_length: "length (snd (class_atom pat)) \<le> length pat"
  using class_ranges_length[of NUL pat] class_ranges_length[of NUL "tl pat"]
  by (cases pat) (auto simp: class_atom_def split: prod.splits)

function glob_atoms :: "string \<Rightarrow> gatom list" where
  "glob_atoms [] = []"
| "glob_atoms (p # ps) =
     (if p = CHR ''*'' \<and> ps \<noteq> [] \<and> hd ps = CHR ''*'' then
        (if tl ps \<noteq> [] \<and> hd (tl ps) = CHR ''/'' then GlobDir # glob_atoms (tl (tl ps))
         else Globstar # glob_atoms (tl ps))
      else if p = CHR ''*'' then Star # glob_atoms ps
      else if p = CHR ''?'' then AnyChar # glob_atoms ps
      else if p = CHR ''['' then fst (class_atom ps) # glob_atoms (snd (class_atom ps))
      else Lit p # glob_atoms ps)"
  by pat_completeness auto
termination
  by (relation "measure length") (auto simp: le_imp_less_Suc class_atom_length)

text \<open>The strings a sequence of atoms stands for: \<open>**/\<close> is a possibly empty run of whole components,
  but something must be left to match.\<close>

fun glob_lang :: "gatom list \<Rightarrow> string set" where
  "glob_lang [] = {[]}"
| "glob_lang (a # as) =
     (case a of
        Lit c \<Rightarrow> {c # v | v. v \<in> glob_lang as}
      | AnyChar \<Rightarrow> {c # v | c v. c \<noteq> CHR ''/'' \<and> v \<in> glob_lang as}
      | Class negate rs \<Rightarrow> {c # v | c v. negate \<noteq> in_ranges c rs \<and> v \<in> glob_lang as}
      | Star \<Rightarrow> {u @ v | u v. CHR ''/'' \<notin> set u \<and> v \<in> glob_lang as}
      | Globstar \<Rightarrow> {u @ v | u v. v \<in> glob_lang as}
      | GlobDir \<Rightarrow> {u @ v | u v. (u = [] \<or> last u = CHR ''/'') \<and> u @ v \<noteq> [] \<and> v \<in> glob_lang as})"

section \<open>The matcher against the languages\<close>

lemma schar_inject: "schar a = schar b \<longleftrightarrow> a = b"
proof
  assume *: "schar a = schar b"
  have "0 \<le> (of_char c :: int) \<and> (of_char c :: int) < 256" for c
    using of_char_mod_256[of c, where 'a=int] by (metis pos_mod_bound pos_mod_sign zero_less_numeral)
  from this[of a] this[of b] have "(of_char a :: int) = of_char b"
    using * by (auto simp: schar_def Let_def split: if_splits)
  then show "a = b"
    by simp
qed simp

lemma ex_split_Nil: "(\<exists>u v. [] = u @ v \<and> P u v) \<longleftrightarrow> P [] []"
  by simp

lemma ex_split_Cons:
  "(\<exists>u v. c # cs = u @ v \<and> P u v) \<longleftrightarrow> P [] (c # cs) \<or> (\<exists>u v. cs = u @ v \<and> P (c # u) v)"
  unfolding Cons_eq_append_conv by blast

lemma charclass_loop_ranges:
  "charclass_loop ch prev m pat = (m \<or> in_ranges ch (fst (class_ranges prev pat)), snd (class_ranges prev pat))"
proof (induction prev pat arbitrary: m rule: class_ranges.induct)
  case (2 prev c cs)
  have "ch = c \<longleftrightarrow> schar c \<le> schar ch \<and> schar ch \<le> schar c"
    using schar_inject[of ch c] by auto
  then show ?case
    using 2 by (subst charclass_loop.simps) (auto simp: in_ranges_def split: prod.splits)
qed (simp add: charclass_loop.simps in_ranges_def)

lemma glob_match_charclass_atom:
  assumes "class_atom pat = (Class negate rs, rest)"
  shows "snd (glob_match_charclass pat ch) = rest"
    and "fst (glob_match_charclass pat ch) \<longleftrightarrow> negate \<noteq> in_ranges ch rs"
  using assms
  by (auto simp: glob_match_charclass_def class_atom_def charclass_loop_ranges split: prod.splits if_splits)

lemma class_atom_cases: "\<exists>negate rs rest. class_atom pat = (Class negate rs, rest)"
  by (auto simp: class_atom_def split: prod.splits if_splits)

lemma glob_match_Nil: "glob_match pat [] \<longleftrightarrow> dropWhile (\<lambda>c. c = CHR ''*'') pat = []"
  by (subst glob_match.simps) (simp split: list.splits)

lemma glob_match_Nil_pat [simp]: "glob_match [] str \<longleftrightarrow> str = []"
  by (subst glob_match.simps) simp

lemma star_search:
  "glob_match_star pat s \<longleftrightarrow> (\<exists>u v. s = u @ v \<and> CHR ''/'' \<notin> set u \<and> glob_match pat v)"
proof (induction s)
  case (Cons c cs)
  show ?case
    unfolding ex_split_Cons using Cons by (subst glob_match_star.simps) auto
qed (simp add: glob_match_star.simps)

lemma any_search: "glob_match_doublestar_any pat s \<longleftrightarrow> (\<exists>u v. s = u @ v \<and> glob_match pat v)"
proof (induction s)
  case (Cons c cs)
  show ?case
    unfolding ex_split_Cons using Cons by (subst glob_match_doublestar_any.simps) auto
qed (simp add: glob_match_doublestar_any.simps)

lemma slash_search:
  "doublestar_slash_loop pat s \<longleftrightarrow> (\<exists>u v. s = u @ v \<and> u \<noteq> [] \<and> last u = CHR ''/'' \<and> glob_match pat v)"
proof (induction s)
  case (Cons c cs)
  show ?case
    unfolding ex_split_Cons using Cons by (subst doublestar_slash_loop.simps) auto
qed (simp add: doublestar_slash_loop.simps)

lemma glob_lang_Nil: "[] \<in> glob_lang (glob_atoms pat) \<longleftrightarrow> dropWhile (\<lambda>c. c = CHR ''*'') pat = []"
proof (induction pat rule: glob_atoms.induct)
  case (2 p ps)
  consider "p = CHR ''*''" "ps \<noteq> []" "hd ps = CHR ''*''" | "p = CHR ''*''" "\<not> (ps \<noteq> [] \<and> hd ps = CHR ''*'')"
    | "p = CHR ''[''" | "p \<noteq> CHR ''*''" "p \<noteq> CHR ''[''"
    by blast
  then show ?case
  proof cases
    case 1
    then obtain qs where ps: "ps = CHR ''*'' # qs"
      by (cases ps) auto
    show ?thesis
    proof (cases "qs \<noteq> [] \<and> hd qs = CHR ''/''")
      case True
      then show ?thesis
        using 1 by (cases qs) (simp_all add: ps)
    next
      case False
      then show ?thesis
        using "2.IH"(2) 1 by (auto simp: ps)
    qed
  next
    case 2
    then show ?thesis
      using "2.IH"(3) by auto
  next
    case 3
    obtain negate rs rest where "class_atom ps = (Class negate rs, rest)"
      using class_atom_cases by blast
    then show ?thesis
      using 3 by simp
  next
    case 4
    then show ?thesis
      by simp
  qed
qed simp

lemma GlobDir_lang:
  "s # ss \<in> glob_lang (GlobDir # as) \<longleftrightarrow> s # ss \<in> glob_lang as \<or>
     (\<exists>u v. s # ss = u @ v \<and> u \<noteq> [] \<and> last u = CHR ''/'' \<and> v \<in> glob_lang as)"
proof -
  have "s # ss \<in> glob_lang (GlobDir # as) \<longleftrightarrow>
      (\<exists>u v. s # ss = u @ v \<and> (u = [] \<or> last u = CHR ''/'') \<and> v \<in> glob_lang as)"
    by (simp, intro ex_cong1, auto)
  also have "\<dots> \<longleftrightarrow> s # ss \<in> glob_lang as \<or>
      (\<exists>u v. s # ss = u @ v \<and> u \<noteq> [] \<and> last u = CHR ''/'' \<and> v \<in> glob_lang as)"
    by (metis append_Nil)
  finally show ?thesis .
qed

lemma glob_match_lang: "glob_match pat str \<longleftrightarrow> str \<in> glob_lang (glob_atoms pat)"
proof (induction pat arbitrary: str rule: glob_atoms.induct)
  case (2 p ps)
  show ?case
  proof (cases str)
    case Nil
    then show ?thesis
      by (simp only: glob_match_Nil glob_lang_Nil)
  next
    case (Cons s ss)
    consider "p = CHR ''*''" "ps \<noteq> []" "hd ps = CHR ''*''" | "p = CHR ''*''" "\<not> (ps \<noteq> [] \<and> hd ps = CHR ''*'')"
      | "p = CHR ''?''" | "p = CHR ''[''" | "p \<noteq> CHR ''*''" "p \<noteq> CHR ''?''" "p \<noteq> CHR ''[''"
      by blast
    then show ?thesis
    proof cases
      case 1
      have step: "glob_match (p # ps) str = glob_match_doublestar (tl ps) str"
        using 1 Cons by (subst glob_match.simps) simp
      show ?thesis
      proof (cases "tl ps \<noteq> [] \<and> hd (tl ps) = CHR ''/''")
        case True
        then have "glob_match (p # ps) str \<longleftrightarrow> glob_match (tl (tl ps)) str \<or> doublestar_slash_loop (tl (tl ps)) str"
          unfolding step by (subst glob_match_doublestar.simps) (cases "tl ps"; simp add: glob_match_doublestar_slash.simps)
        then show ?thesis
          using "2.IH"(1)[OF _ True] 1 True Cons by (simp only: slash_search glob_atoms.simps GlobDir_lang not_False_eq_True simp_thms if_True)
      next
        case False
        then have "glob_match (p # ps) str \<longleftrightarrow> tl ps = [] \<or> glob_match_doublestar_any (tl ps) str"
          unfolding step by (subst glob_match_doublestar.simps) (cases "tl ps"; simp)
        then show ?thesis
          using "2.IH"(2)[OF _ False] 1 False Cons by (auto simp: any_search)
      qed
    next
      case 2
      then have "glob_match (p # ps) str = glob_match_star ps str"
        using Cons by (subst glob_match.simps) auto
      then show ?thesis
        using "2.IH"(3) 2 by (auto simp: star_search)
    next
      case 3
      then show ?thesis
        using "2.IH"(4) Cons by (subst glob_match.simps) auto
    next
      case 4
      obtain negate rs rest where *: "class_atom ps = (Class negate rs, rest)"
        using class_atom_cases by blast
      then have "glob_match (p # ps) str \<longleftrightarrow> negate \<noteq> in_ranges s rs \<and> glob_match rest ss"
        using 4 Cons by (subst glob_match.simps) (simp add: glob_match_charclass_atom[OF *])
      then show ?thesis
        using "2.IH"(5) 4 Cons * by auto
    next
      case 5
      then show ?thesis
        using "2.IH"(6) Cons by (subst glob_match.simps) auto
    qed
  qed
qed simp

section \<open>Where a path is matched\<close>

text \<open>The places where an unanchored pattern may match a path: the path and what follows each slash.\<close>

definition component_tail :: "string \<Rightarrow> string \<Rightarrow> bool" where
  "component_tail s path \<longleftrightarrow> s = path \<or> (\<exists>u. path = u @ CHR ''/'' # s)"

lemma strrchr_at_None: "strrchr_at s c = None \<longleftrightarrow> c \<notin> set s"
  by (induction s) (auto split: option.splits)

lemma strrchr_at_Some: "strrchr_at s c = Some t \<longleftrightarrow> (\<exists>u v. s = u @ c # v \<and> t = c # v \<and> c \<notin> set v)"
proof (induction s arbitrary: t)
  case (Cons d ds)
  have "(\<exists>u v. d # ds = u @ c # v \<and> t = c # v \<and> c \<notin> set v) \<longleftrightarrow>
      (d = c \<and> t = c # ds \<and> c \<notin> set ds) \<or> (\<exists>u v. ds = u @ c # v \<and> t = c # v \<and> c \<notin> set v)"
    by (auto simp: Cons_eq_append_conv)
  note split = this
  show ?case
  proof (cases "strrchr_at ds c")
    case None
    then show ?thesis
      using strrchr_at_None[of ds c] unfolding split by auto
  next
    case (Some w)
    then have "c \<in> set ds"
      using strrchr_at_None[of ds c] by auto
    then show ?thesis
      using Some Cons.IH[of t] unfolding split by simp
  qed
qed simp

lemma path_basename_tail: "component_tail (path_basename p) p"
  by (auto simp: path_basename_def component_tail_def strrchr_at_Some split: option.splits)

lemma unrooted_loop_iff:
  "unrooted_loop pat s \<longleftrightarrow> (\<exists>t. component_tail t s \<and> t \<noteq> [] \<and> glob_match pat t)"
proof (induction pat s rule: unrooted_loop.induct)
  case (1 pat s)
  show ?case
  proof (cases "strchr_at s (CHR ''/'')")
    case None
    then have n: "CHR ''/'' \<notin> set s"
      by (simp add: strchr_at_None)
    show ?thesis
      by (subst unrooted_loop.simps) (use n in \<open>auto simp: component_tail_def None\<close>)
  next
    case (Some w)
    then obtain u v where *: "s = u @ CHR ''/'' # v" "w = CHR ''/'' # v" "CHR ''/'' \<notin> set u"
      by (auto simp: strchr_at_Some)
    have "component_tail t s \<longleftrightarrow> t = s \<or> component_tail t v" for t
    proof -
      have "(\<exists>x. u @ CHR ''/'' # v = x @ CHR ''/'' # t) \<longleftrightarrow> t = v \<or> (\<exists>y. v = y @ CHR ''/'' # t)"
        using *(3) by (fastforce simp: append_eq_append_conv2 Cons_eq_append_conv append_eq_Cons_conv)
      then show ?thesis
        by (auto simp: component_tail_def *(1))
    qed
    moreover have "unrooted_loop pat s \<longleftrightarrow> glob_match pat s \<or> unrooted_loop pat v"
      using Some * by (subst unrooted_loop.simps) auto
    moreover have "unrooted_loop pat v \<longleftrightarrow> (\<exists>t. component_tail t v \<and> t \<noteq> [] \<and> glob_match pat t)" if "\<not> glob_match pat s"
      using 1[OF _ that Some] * by simp
    ultimately show ?thesis
      using * by auto
  qed
qed

lemma match_unrooted_iff:
  "match_unrooted pat p (path_basename p) \<longleftrightarrow> (\<exists>t. component_tail t p \<and> glob_match pat t)"
proof -
  have "path_basename p = []" if tail: "component_tail [] p"
  proof (cases "p = []")
    case False
    then obtain u where "p = u @ [CHR ''/'']"
      using tail by (auto simp: component_tail_def)
    then have "strrchr_at p (CHR ''/'') = Some [CHR ''/'']"
      by (auto simp: strrchr_at_Some)
    then show ?thesis
      by (simp add: path_basename_def)
  qed (simp add: path_basename_def)
  moreover have "path_basename p = p \<and> (\<forall>t. component_tail t p \<longrightarrow> t = p)" if "CHR ''/'' \<notin> set p"
    using that by (auto simp: component_tail_def path_basename_def strrchr_at_Some split: option.splits)
  ultimately show ?thesis
    using path_basename_tail[of p] by (auto simp: match_unrooted_def unrooted_loop_iff)
qed

section \<open>Lines of an ignore file\<close>

fun split_char :: "char \<Rightarrow> string \<Rightarrow> string list" where
  "split_char sep [] = [[]]"
| "split_char sep (c # cs) =
     (if c = sep then [] # split_char sep cs
      else (c # hd (split_char sep cs)) # tl (split_char sep cs))"

abbreviation split_lines :: "string \<Rightarrow> string list" where
  "split_lines \<equiv> split_char (CHR 0x0A)"

definition line_patterns :: "string \<Rightarrow> gi_pattern list" where
  "line_patterns line =
     (if line = [] \<or> hd line = CHR ''#'' then []
      else case line_pattern line of None \<Rightarrow> [] | Some p \<Rightarrow> [p])"

definition content_patterns :: "string \<Rightarrow> gi_pattern list" where
  "content_patterns s = concat (map line_patterns (split_lines s))"

lemma split_char_not_Nil [simp]: "split_char sep s \<noteq> []"
  by (induction s) auto

lemma split_char_append: "split_char sep (a @ sep # b) = split_char sep a @ split_char sep b"
  by (induction a) auto

lemma split_char_single: "sep \<notin> set a \<Longrightarrow> split_char sep a = [a]"
  by (induction a) auto

lemma content_patterns_append: "content_patterns (a @ CHR 0x0A # b) = content_patterns a @ content_patterns b"
  by (simp add: content_patterns_def split_char_append)

lemma content_patterns_line: "CHR 0x0A \<notin> set a \<Longrightarrow> content_patterns a = line_patterns a"
  by (simp add: content_patterns_def split_char_single)

lemma parse_loop_patterns: "gi_patterns (parse_loop gi s) = gi_patterns gi @ content_patterns s"
proof (induction gi s rule: parse_loop.induct)
  case (1 gi s)
  have add: "gi_patterns (if t \<noteq> [] \<and> hd t \<noteq> CHR ''#'' then gi_add_pattern g t else g) = gi_patterns g @ line_patterns t" for g t
    by (simp add: line_patterns_def gi_add_pattern_def split: option.splits)
  show ?case
  proof (cases "strchr_at s (CHR 0x0A)")
    case None
    then have n: "CHR 0x0A \<notin> set s"
      by (simp add: strchr_at_None)
    then have t: "takeWhile (\<lambda>c. c \<noteq> CHR 0x0A) s = s"
      by (auto simp: takeWhile_eq_all_conv)
    show ?thesis
      by (subst parse_loop.simps)
        (simp add: Let_def t None content_patterns_line[OF n] line_patterns_def gi_add_pattern_def split: option.splits)
  next
    case (Some w)
    then obtain u v where *: "s = u @ CHR 0x0A # v" "w = CHR 0x0A # v" "CHR 0x0A \<notin> set u"
      by (auto simp: strchr_at_Some)
    have t: "takeWhile (\<lambda>c. c \<noteq> CHR 0x0A) s = u"
      unfolding *(1) using *(3) by (subst takeWhile_append2) auto
    let ?g = "if u \<noteq> [] \<and> hd u \<noteq> CHR ''#'' then gi_add_pattern gi u else gi"
    have sw: "s \<noteq> []" "tl w = v"
      using *(1,2) by auto
    have "parse_loop gi s = parse_loop ?g v"
      by (subst parse_loop.simps) (simp add: Let_def t Some sw)
    moreover have "gi_patterns (parse_loop ?g v) = gi_patterns ?g @ content_patterns v"
      using 1[OF sw(1) refl refl Some] unfolding t sw(2) .
    ultimately show ?thesis
      by (simp only: add *(1) content_patterns_append content_patterns_line[OF *(3)] append_assoc)
  qed
qed

lemma parse_patterns: "gi_patterns (the (pmm_gitignore_parse (Some s))) = content_patterns s"
  by (simp add: pmm_gitignore_parse_def parse_loop_patterns)

end
