(* ===== verification/Gitignore_Props.thy ===== *)
theory Gitignore_Props
  imports Gitignore_Facts
begin

text \<open>
  The properties of the gitignore matcher (src/src/discover/gitignore.c): globs against their
  languages, the rule that decides, merging, and printing a parsed file.
\<close>

section \<open>Globs\<close>

text \<open>C16: the glob matcher decides the language of its pattern.  The loop with its five mutually
  recursive searches accepts exactly the strings of the concatenation of atoms that the pattern
  spells: a literal, one character or a class, a run without slashes, any run, or a run of whole
  components.\<close>

theorem glob_match_semantics: "glob_match pat str \<longleftrightarrow> str \<in> glob_lang (glob_atoms pat)"
  by (rule glob_match_lang)

section \<open>The rule that decides\<close>

text \<open>When a rule applies to a path: an anchored one matches the whole path, another one the path or
  what follows one of its slashes.\<close>

definition rule_applies :: "string \<Rightarrow> bool \<Rightarrow> gi_pattern \<Rightarrow> bool" where
  "rule_applies path is_dir r \<longleftrightarrow>
     (gi_dir_only r \<longrightarrow> is_dir) \<and>
     (if gi_rooted r then path \<in> glob_lang (glob_atoms (gi_text r))
      else \<exists>t. component_tail t path \<and> t \<in> glob_lang (glob_atoms (gi_text r)))"

definition rule_sign :: "gi_pattern \<Rightarrow> int" where
  "rule_sign r = (if gi_negated r then -1 else 1)"

lemma pattern_step_rule: "pattern_step path is_dir k r = (if rule_applies path is_dir r then rule_sign r else k)"
  by (auto simp: pattern_step_def rule_applies_def rule_sign_def match_unrooted_iff glob_match_lang Let_def)

definition last_rule :: "string \<Rightarrow> bool \<Rightarrow> gi_pattern list \<Rightarrow> gi_pattern option" where
  "last_rule path is_dir rs = find (rule_applies path is_dir) (rev rs)"

lemma find_append: "find P (xs @ ys) = (case find P xs of None \<Rightarrow> find P ys | Some x \<Rightarrow> Some x)"
  by (induction xs) auto

lemma foldl_pattern_step:
  "foldl (pattern_step path is_dir) k rs = (case last_rule path is_dir rs of None \<Rightarrow> k | Some r \<Rightarrow> rule_sign r)"
  by (induction rs rule: rev_induct) (simp_all add: last_rule_def pattern_step_rule)

lemma match_result_last_rule:
  "pmm_gitignore_match_result (Some gi) (Some path) is_dir =
     (case last_rule path is_dir (gi_patterns gi) of None \<Rightarrow> 0 | Some r \<Rightarrow> rule_sign r)"
  by (simp add: pmm_gitignore_match_result_def foldl_pattern_step)

lemma last_rule_append:
  "last_rule path is_dir (rs @ qs) =
     (case last_rule path is_dir qs of None \<Rightarrow> last_rule path is_dir rs | Some r \<Rightarrow> Some r)"
  unfolding last_rule_def by (simp add: find_append)

lemma last_rule_Some:
  assumes "last_rule path is_dir rs = Some r"
  shows "\<exists>qs ts. rs = qs @ r # ts \<and> rule_applies path is_dir r \<and> list_all (\<lambda>t. \<not> rule_applies path is_dir t) ts"
  using assms
proof (induction rs rule: rev_induct)
  case (snoc x xs)
  show ?case
  proof (cases "rule_applies path is_dir x")
    case True
    then show ?thesis
      using snoc.prems by (intro exI[of _ xs] exI[of _ "[]"]) (simp add: last_rule_def)
  next
    case False
    then have "last_rule path is_dir xs = Some r"
      using snoc.prems by (simp add: last_rule_def)
    then obtain qs ts where "xs = qs @ r # ts" "rule_applies path is_dir r" "list_all (\<lambda>t. \<not> rule_applies path is_dir t) ts"
      using snoc.IH by blast
    then show ?thesis
      using False by (intro exI[of _ qs] exI[of _ "ts @ [x]"]) simp
  qed
qed (simp add: last_rule_def)

text \<open>C17: the last rule that applies decides.  A path is not ignored by a list without an applicable rule,
  and otherwise the sign of the last applicable rule is the result, so a negated rule takes back
  what the rules before it said.\<close>

theorem gitignore_last_rule:
  "(case pmm_gitignore_parse (Some content) of
      None \<Rightarrow> False
    | Some gi \<Rightarrow>
        (if list_all (\<lambda>r. \<not> rule_applies path is_dir r) (gi_patterns gi)
         then pmm_gitignore_match_result (Some gi) (Some path) is_dir = 0 \<and> \<not> pmm_gitignore_matches (Some gi) (Some path) is_dir
         else \<exists>qs r ts. gi_patterns gi = qs @ r # ts \<and> rule_applies path is_dir r \<and>
                list_all (\<lambda>t. \<not> rule_applies path is_dir t) ts \<and>
                pmm_gitignore_match_result (Some gi) (Some path) is_dir = (if gi_negated r then -1 else 1) \<and>
                (pmm_gitignore_matches (Some gi) (Some path) is_dir \<longleftrightarrow> \<not> gi_negated r)))"
proof -
  obtain gi where gi: "pmm_gitignore_parse (Some content) = Some gi"
    by (simp add: pmm_gitignore_parse_def)
  show ?thesis
  proof (cases "last_rule path is_dir (gi_patterns gi)")
    case None
    then have "list_all (\<lambda>r. \<not> rule_applies path is_dir r) (gi_patterns gi)"
      by (auto simp: last_rule_def find_None_iff list_all_iff)
    then show ?thesis
      using None by (simp add: gi match_result_last_rule pmm_gitignore_matches_def)
  next
    case (Some r)
    from last_rule_Some[OF this] obtain qs ts where *: "gi_patterns gi = qs @ r # ts" "rule_applies path is_dir r"
      "list_all (\<lambda>t. \<not> rule_applies path is_dir t) ts"
      by blast
    then have "\<not> list_all (\<lambda>r. \<not> rule_applies path is_dir r) (gi_patterns gi)"
      by simp
    then show ?thesis
      using * Some by (auto simp: gi match_result_last_rule pmm_gitignore_matches_def rule_sign_def)
  qed
qed

section \<open>Merging\<close>

text \<open>What strdup promises: a copy or NULL.\<close>

definition dups :: "(nat \<Rightarrow> string \<Rightarrow> string option) \<Rightarrow> bool" where
  "dups dup \<longleftrightarrow> (\<forall>k s. dup k s = None \<or> dup k s = Some s)"

lemma merge_copies_dups:
  "dups dup \<Longrightarrow> merge_copies dup k acc ps = Some qs \<Longrightarrow> qs = acc @ ps"
proof (induction dup k acc ps rule: merge_copies.induct)
  case (2 dup k acc p ps)
  then obtain x where x: "dup k (gi_text p) = Some x"
    by (auto split: option.splits)
  moreover from this have "x = gi_text p"
    using 2(2) unfolding dups_def by (metis option.distinct(1) option.inject)
  ultimately show ?case
    using 2 by simp
qed simp

lemma merge_copies_all: "merge_copies (\<lambda>k. Some) k acc ps = Some (acc @ ps)"
  by (induction ps arbitrary: k acc) simp_all

lemma merge_patterns:
  assumes "dups dup" "pmm_gitignore_merge grow dup (Some d) (Some s) = (ok, m)"
  obtains g where "m = Some g" "gi_patterns g = (if ok then gi_patterns d @ gi_patterns s else gi_patterns d)"
proof -
  have copies: "merge_copies dup 0 (gi_patterns d) (gi_patterns s) = Some ps \<Longrightarrow> ps = gi_patterns d @ gi_patterns s" for ps
    using merge_copies_dups[OF assms(1)] by blast
  show thesis
    using assms(2) that by (auto simp: pmm_gitignore_merge_def Let_def dest: copies split: if_splits option.splits)
qed

text \<open>C18: merging is atomic and the merged rules come last.  When an allocation fails anywhere, the
  destination answers every path as before; when none does, the source decides every path it has
  a rule for and the destination the others.\<close>

theorem gitignore_merge_overrides:
  assumes "dups dup" "pmm_gitignore_merge grow dup (Some d) (Some s) = (ok, m)"
  shows "pmm_gitignore_match_result m (Some path) is_dir =
     (if ok \<and> pmm_gitignore_match_result (Some s) (Some path) is_dir \<noteq> 0
      then pmm_gitignore_match_result (Some s) (Some path) is_dir
      else pmm_gitignore_match_result (Some d) (Some path) is_dir) \<and>
     (grow \<and> dup = (\<lambda>k. Some) \<longrightarrow> ok)"
proof
  obtain g where g: "m = Some g" "gi_patterns g = (if ok then gi_patterns d @ gi_patterns s else gi_patterns d)"
    using merge_patterns[OF assms] .
  show "pmm_gitignore_match_result m (Some path) is_dir =
     (if ok \<and> pmm_gitignore_match_result (Some s) (Some path) is_dir \<noteq> 0
      then pmm_gitignore_match_result (Some s) (Some path) is_dir
      else pmm_gitignore_match_result (Some d) (Some path) is_dir)"
    by (simp add: g match_result_last_rule last_rule_append rule_sign_def split: option.splits)
  show "grow \<and> dup = (\<lambda>k. Some) \<longrightarrow> ok"
    using assms(2) by (auto simp: pmm_gitignore_merge_def Let_def merge_copies_all split: if_splits)
qed

definition demo_ignore :: "string \<Rightarrow> gitignore" where
  "demo_ignore content = the (pmm_gitignore_parse (Some content))"

lemma gitignore_merge_overrides_witness:
  "pmm_gitignore_match_result (snd (pmm_gitignore_merge True (\<lambda>k. Some)
      (Some (demo_ignore ''*.log'')) (Some (demo_ignore ''!/a.log'')))) (Some ''a.log'') False = -1"
proof -
  have s: "pmm_gitignore_match_result (Some (demo_ignore ''!/a.log'')) (Some ''a.log'') False = -1"
    by code_simp
  have "fst (pmm_gitignore_merge True (\<lambda>k. Some) (Some (demo_ignore ''*.log'')) (Some (demo_ignore ''!/a.log'')))"
    by code_simp
  then show ?thesis
    using gitignore_merge_overrides[OF _ prod.collapse[symmetric], of "\<lambda>k. Some"] s by (simp add: dups_def)
qed

text \<open>Merging two parsed files gives the rules of the two texts one after the other, and the answers
  to every path are those of the file that holds both.\<close>

theorem gitignore_merge_is_concat:
  "gi_patterns (the (snd (pmm_gitignore_merge True (\<lambda>k. Some) (pmm_gitignore_parse (Some a)) (pmm_gitignore_parse (Some b))))) =
     gi_patterns (the (pmm_gitignore_parse (Some (a @ CHR 0x0A # b)))) \<and>
   pmm_gitignore_match_result (snd (pmm_gitignore_merge True (\<lambda>k. Some) (pmm_gitignore_parse (Some a)) (pmm_gitignore_parse (Some b))))
     path is_dir = pmm_gitignore_match_result (pmm_gitignore_parse (Some (a @ CHR 0x0A # b))) path is_dir"
proof -
  obtain A B C where AB: "pmm_gitignore_parse (Some a) = Some A" "pmm_gitignore_parse (Some b) = Some B"
    "pmm_gitignore_parse (Some (a @ CHR 0x0A # b)) = Some C"
    by (simp add: pmm_gitignore_parse_def)
  have dup: "dups (\<lambda>k. Some)"
    by (simp add: dups_def)
  obtain ok m where m: "pmm_gitignore_merge True (\<lambda>k. Some) (Some A) (Some B) = (ok, m)"
    by fastforce
  have ok: ok
    using m by (auto simp: pmm_gitignore_merge_def Let_def merge_copies_all split: if_splits)
  obtain g where g: "m = Some g" "gi_patterns g = gi_patterns A @ gi_patterns B"
    using merge_patterns[OF dup m] ok by auto
  have "gi_patterns g = gi_patterns C"
    using parse_patterns[of a] parse_patterns[of b] parse_patterns[of "a @ CHR 0x0A # b"]
    by (simp add: g(2) AB content_patterns_append)
  moreover from this have "pmm_gitignore_match_result (Some g) path is_dir = pmm_gitignore_match_result (Some C) path is_dir"
    by (simp add: pmm_gitignore_match_result_def split: option.splits)
  ultimately show ?thesis
    unfolding AB m by (simp add: g(1))
qed

section \<open>Printing a parsed file\<close>

definition print_pattern :: "gi_pattern \<Rightarrow> string" where
  "print_pattern p = (if gi_negated p then ''!'' else []) @ (if gi_rooted p then ''/'' else []) @
     gi_text p @ (if gi_dir_only p then ''/'' else [])"

definition print_patterns :: "gi_pattern list \<Rightarrow> string" where
  "print_patterns ps = concat (map (\<lambda>p. print_pattern p @ [CHR 0x0A]) ps)"

definition is_blank :: "char \<Rightarrow> bool" where
  "is_blank c \<longleftrightarrow> c = CHR '' '' \<or> c = CHR 0x09 \<or> c = CHR 0x0D"

text \<open>What holds of every pattern that a line gives.\<close>

definition pattern_ok :: "gi_pattern \<Rightarrow> bool" where
  "pattern_ok p \<longleftrightarrow> gi_text p \<noteq> [] \<and> CHR 0x0A \<notin> set (gi_text p) \<and>
     (gi_rooted p \<or> CHR ''/'' \<notin> set (gi_text p)) \<and>
     (gi_dir_only p \<or> \<not> is_blank (last (gi_text p)) \<and> last (gi_text p) \<noteq> CHR ''/'') \<and>
     (gi_negated p \<or> gi_rooted p \<or> hd (gi_text p) \<noteq> CHR ''#'' \<and> hd (gi_text p) \<noteq> CHR ''!'')"

lemma trim_end_prefix: "\<exists>w. line = trim_end line @ w"
proof -
  let ?b = "\<lambda>c. c = CHR '' '' \<or> c = CHR 0x09 \<or> c = CHR 0x0D"
  have "rev line = takeWhile ?b (rev line) @ dropWhile ?b (rev line)"
    by (simp only: takeWhile_dropWhile_id)
  then have "line = rev (dropWhile ?b (rev line)) @ rev (takeWhile ?b (rev line))"
    by (metis rev_append rev_rev_ident)
  then show ?thesis
    unfolding trim_end_def by (rule exI)
qed

lemma trim_end_last: "trim_end line \<noteq> [] \<Longrightarrow> \<not> is_blank (last (trim_end line))"
  using hd_dropWhile[of is_blank "rev line"]
  by (auto simp: trim_end_def is_blank_def[abs_def] last_rev)

lemma trim_end_id: "line \<noteq> [] \<Longrightarrow> \<not> is_blank (last line) \<Longrightarrow> trim_end line = line"
  by (cases line rule: rev_cases) (auto simp: trim_end_def is_blank_def)

lemma line_pattern_ok:
  assumes "line_pattern line = Some p" "CHR 0x0A \<notin> set line" "hd line \<noteq> CHR ''#''"
  shows "pattern_ok p"
proof -
  define s where "s = trim_end line"
  define s1 where "s1 = (if hd s = CHR ''!'' then tl s else s)"
  define s2 where "s2 = (if last s1 = CHR ''/'' then butlast s1 else s1)"
  define s3 where "s3 = (if hd s2 = CHR ''/'' then tl s2 else s2)"
  have ne: "s \<noteq> []" "s1 \<noteq> []" "s2 \<noteq> []" "s3 \<noteq> []"
    and p: "p = \<lparr>gi_text = s3, gi_negated = (hd s = CHR ''!''), gi_dir_only = (last s1 = CHR ''/''),
      gi_rooted = (hd s2 = CHR ''/'' \<or> CHR ''/'' \<in> set s3)\<rparr>"
    using assms(1) unfolding line_pattern_def s_def[symmetric] s1_def s2_def s3_def
    by (auto simp: Let_def split: if_splits)
  obtain w where w: "line = s @ w"
    using trim_end_prefix unfolding s_def by blast
  have sub: "set s3 \<subseteq> set s2" "set s2 \<subseteq> set s1" "set s1 \<subseteq> set s"
    using ne by (auto simp: s1_def s2_def s3_def dest: list.set_sel(2) in_set_butlastD)
  have l3: "last s3 = last s2"
    using ne by (auto simp: s3_def last_tl)
  have l1: "last s1 = last s"
    using ne by (auto simp: s1_def last_tl)
  have h: "hd s = hd line"
    using ne(1) w by simp
  have "hd s3 = hd s" if "\<not> gi_negated p" "\<not> gi_rooted p"
    using that ne by (cases s1 rule: rev_cases) (auto simp: p s1_def s2_def s3_def hd_append split: if_splits)
  then have "gi_negated p \<or> gi_rooted p \<or> hd s3 \<noteq> CHR ''#'' \<and> hd s3 \<noteq> CHR ''!''"
    using assms(3) h by (auto simp: p)
  moreover have "\<not> is_blank (last s3) \<and> last s3 \<noteq> CHR ''/''" if "last s1 \<noteq> CHR ''/''"
    using that trim_end_last[of line] ne(1) l1 l3 by (simp add: s_def[symmetric] s2_def)
  moreover have "CHR 0x0A \<notin> set s3"
    using sub assms(2) w by auto
  ultimately show ?thesis
    using ne(4) by (auto simp: pattern_ok_def p)
qed

lemma hd_eq_in_set: "hd xs = c \<Longrightarrow> xs \<noteq> [] \<Longrightarrow> c \<in> set xs"
  by auto

lemma print_pattern_line:
  assumes "pattern_ok p"
  shows "line_patterns (print_pattern p) = [p]"
proof -
  obtain c cs where t: "gi_text p = c # cs"
    using assms by (cases "gi_text p") (auto simp: pattern_ok_def)
  have "trim_end (print_pattern p) = print_pattern p"
    using assms by (intro trim_end_id) (auto simp: print_pattern_def pattern_ok_def t is_blank_def)
  moreover have "print_pattern p \<noteq> []" "hd (print_pattern p) \<noteq> CHR ''#''"
    using assms by (auto simp: print_pattern_def pattern_ok_def t)
  moreover have "line_pattern (print_pattern p) = Some p"
    using assms calculation(1)
    by (cases p) (auto dest: hd_eq_in_set simp: line_pattern_def Let_def print_pattern_def pattern_ok_def t butlast_append)
  ultimately show ?thesis
    by (simp add: line_patterns_def)
qed

lemma print_parse_ok: "list_all pattern_ok ps \<Longrightarrow> content_patterns (print_patterns ps) = ps"
proof (induction ps)
  case (Cons p ps)
  have "CHR 0x0A \<notin> set (print_pattern p)"
    using Cons.prems by (auto simp: print_pattern_def pattern_ok_def)
  then show ?case
    using Cons by (simp add: print_patterns_def content_patterns_append content_patterns_line print_pattern_line)
qed (simp add: print_patterns_def content_patterns_def line_patterns_def)

lemma split_lines_no_newline: "l \<in> set (split_lines s) \<Longrightarrow> CHR 0x0A \<notin> set l"
proof (induction s arbitrary: l)
  case (Cons c cs)
  obtain k ks where "split_lines cs = k # ks"
    by (metis split_char_not_Nil list.exhaust)
  then show ?case
    using Cons by (auto split: if_splits)
qed simp

lemma content_patterns_ok: "list_all pattern_ok (content_patterns s)"
  using line_pattern_ok split_lines_no_newline
  by (fastforce simp: list_all_iff content_patterns_def line_patterns_def split: option.splits if_splits)

text \<open>Printing a parsed file and parsing it again gives the same rules: nothing of a rule, its text,
  its sign, its restriction to directories or its anchor, is lost or made up by the parser.\<close>

theorem gitignore_print_parse:
  "gi_patterns (the (pmm_gitignore_parse (Some (print_patterns (gi_patterns (the (pmm_gitignore_parse (Some content)))))))) =
   gi_patterns (the (pmm_gitignore_parse (Some content)))"
  unfolding parse_patterns by (rule print_parse_ok[OF content_patterns_ok])

end
