(* ===== verification/Disc_Base.thy ===== *)
theory Disc_Base
  imports Gitignore
begin

text \<open>
  What the file discovery (src/src/discover) takes from its surroundings: the file system and the
  environment as arguments, the directory reader of src/src/foundation/compat_fs.c and the path
  and environment helpers of src/src/foundation/platform.c on their POSIX branches.
\<close>

section \<open>The file system\<close>

datatype file_kind = Regular | Directory | Symlink | Other_Kind

text \<open>The calls the code makes, on one unchanging state of the disk: \<open>lstat\<close> and \<open>stat\<close> give a kind and
  a size, \<open>readdir\<close> the names of a directory that can be opened, \<open>read\<close> the content of a file that
  can be opened.\<close>

record filesys =
  fs_lstat :: "string \<Rightarrow> (file_kind \<times> int) option"
  fs_stat :: "string \<Rightarrow> (file_kind \<times> int) option"
  fs_readdir :: "string \<Rightarrow> string list option"
  fs_read :: "string \<Rightarrow> string option"

definition pmm_readdir :: "string list \<Rightarrow> string list" where
  "pmm_readdir names =
     map (take 259) (filter (\<lambda>n. \<not> (n \<noteq> [] \<and> hd n = CHR ''.'' \<and> (tl n = [] \<or> tl n = ''.''))) names)"

text \<open>\<open>fgets\<close> with a buffer of \<open>n + 1\<close> bytes: up to the newline or \<open>n\<close> bytes.\<close>

fun fgets_split :: "nat \<Rightarrow> string \<Rightarrow> string \<times> string" where
  "fgets_split 0 s = ([], s)"
| "fgets_split (Suc n) [] = ([], [])"
| "fgets_split (Suc n) (c # cs) =
     (if c = CHR 0x0A then ([c], cs)
      else case fgets_split n cs of (l, r) \<Rightarrow> (c # l, r))"

lemma fgets_split_length: "length (snd (fgets_split n s)) \<le> length s"
  by (induction n s rule: fgets_split.induct) (auto split: prod.splits)

lemma fgets_split_progress: "length (snd (fgets_split (Suc n) (c # cs))) < length (c # cs)"
  using fgets_split_length[of n cs] by (auto split: prod.splits)

text \<open>The buffers that a loop over \<open>fgets\<close> with 4096 bytes sees, as C strings.\<close>

function fgets_lines :: "string \<Rightarrow> string list" where
  "fgets_lines s = (case s of [] \<Rightarrow> [] | _ \<Rightarrow> cstr (fst (fgets_split 4095 s)) # fgets_lines (snd (fgets_split 4095 s)))"
  by pat_completeness auto
termination
proof (relation "measure length")
  fix s c cs
  assume "s = (c :: char) # cs"
  then show "(snd (fgets_split 4095 s), s) \<in> measure length"
    using fgets_split_progress[of 4094 c cs] by simp
qed simp

declare fgets_lines.simps [simp del]

section \<open>Paths\<close>

definition pmm_canonicalize_drive :: "string \<Rightarrow> string" where
  "pmm_canonicalize_drive path =
     (case path of
        c # d # rest \<Rightarrow>
          if 97 \<le> (of_char c :: nat) \<and> (of_char c :: nat) \<le> 122 \<and> d = CHR '':'' \<and> (rest = [] \<or> hd rest = CHR ''/'')
          then c_toupper c # d # rest else path
      | _ \<Rightarrow> path)"

definition pmm_normalize_path_sep :: "string \<Rightarrow> string" where
  "pmm_normalize_path_sep path =
     pmm_canonicalize_drive (map (\<lambda>c. if c = CHR 0x5C then CHR ''/'' else c) path)"

section \<open>The environment\<close>

text \<open>The environment gives the value of the first entry of a name.  The result is the returned pointer,
  which is the buffer when it is not NULL; otherwise the buffer is empty.\<close>

definition pmm_safe_getenv :: "(string \<Rightarrow> string option) \<Rightarrow> string \<Rightarrow> nat \<Rightarrow> string option \<Rightarrow> string option" where
  "pmm_safe_getenv env name buf_sz fallback =
     (if name = [] \<or> buf_sz = 0 then None
      else
        let copy = (\<lambda>v. if buf_sz \<le> length v then None else Some v) in
        case env name of
          Some v \<Rightarrow> copy v
        | None \<Rightarrow> (case fallback of Some v \<Rightarrow> copy v | None \<Rightarrow> None))"

definition env_buf :: "(string \<Rightarrow> string option) \<Rightarrow> string \<Rightarrow> nat \<Rightarrow> string" where
  "env_buf env name buf_sz = (case pmm_safe_getenv env name buf_sz None of Some v \<Rightarrow> v | None \<Rightarrow> [])"

definition pmm_get_home_dir :: "(string \<Rightarrow> string option) \<Rightarrow> string option" where
  "pmm_get_home_dir env =
     (if env_buf env ''HOME'' 256 \<noteq> [] then
        Some (pmm_normalize_path_sep (snprintf_buf 1024 (env_buf env ''HOME'' 256)))
      else if env_buf env ''USERPROFILE'' 256 \<noteq> [] then
        Some (pmm_normalize_path_sep (snprintf_buf 1024 (env_buf env ''USERPROFILE'' 256)))
      else None)"

definition pmm_app_config_dir :: "(string \<Rightarrow> string option) \<Rightarrow> string option" where
  "pmm_app_config_dir env =
     (if env_buf env ''XDG_CONFIG_HOME'' 256 \<noteq> [] then
        Some (snprintf_buf 1024 (env_buf env ''XDG_CONFIG_HOME'' 256))
      else (case pmm_get_home_dir env of
              Some home \<Rightarrow> Some (snprintf_buf 1024 (home @ ''/.config''))
            | None \<Rightarrow> None))"

end
