(* ===== verification/Disc_Lang.thy ===== *)
theory Disc_Lang
  imports Disc_Base
begin

text \<open>
  Language detection, src/src/discover/language.c, and the user's extra extensions,
  src/src/discover/userconfig.c.  A value of the enum \<open>CBMLanguage\<close> is the name of its enumerator
  without the prefix \<open>PMM_LANG_\<close>, and \<open>lang_count\<close> is the one that stands for no language.  The
  JSON reader is an argument; its values are the objects and strings the code asks for.  The
  process-wide pointer to the user configuration is an argument of the lookups.
\<close>

type_synonym cbm_language = string

definition lang_count :: cbm_language where
  "lang_count = ''COUNT''"

section \<open>Tables\<close>

text \<open>The enumerators of src/internal/pmm/pmm.h in order, then the tables of language.c.\<close>

definition cbm_languages :: "string list" where
  "cbm_languages =
   [''GO'', ''PYTHON'', ''JAVASCRIPT'', ''TYPESCRIPT'', ''TSX'', ''RUST'', ''JAVA'', ''CPP'',
   ''CSHARP'', ''PHP'', ''LUA'', ''SCALA'', ''KOTLIN'', ''RUBY'', ''C'', ''BASH'', ''ZIG'',
   ''ELIXIR'', ''HASKELL'', ''OCAML'', ''OBJC'', ''SWIFT'', ''DART'', ''PERL'', ''GROOVY'',
   ''ERLANG'', ''R'', ''HTML'', ''CSS'', ''SCSS'', ''YAML'', ''TOML'', ''HCL'', ''SQL'',
   ''DOCKERFILE'', ''CLOJURE'', ''FSHARP'', ''JULIA'', ''VIMSCRIPT'', ''NIX'', ''COMMONLISP'',
   ''ELM'', ''FORTRAN'', ''CUDA'', ''COBOL'', ''VERILOG'', ''EMACSLISP'', ''JSON'', ''XML'',
   ''MARKDOWN'', ''MAKEFILE'', ''CMAKE'', ''PROTOBUF'', ''GRAPHQL'', ''VUE'', ''SVELTE'',
   ''MESON'', ''GLSL'', ''INI'', ''MATLAB'', ''LEAN'', ''FORM'', ''MAGMA'', ''WOLFRAM'',
   ''SOLIDITY'', ''TYPST'', ''GDSCRIPT'', ''GLEAM'', ''POWERSHELL'', ''PASCAL'', ''DLANG'',
   ''NIM'', ''SCHEME'', ''FENNEL'', ''FISH'', ''AWK'', ''ZSH'', ''TCL'', ''ADA'', ''AGDA'',
   ''RACKET'', ''ODIN'', ''RESCRIPT'', ''PURESCRIPT'', ''NICKEL'', ''CRYSTAL'', ''TEAL'', ''HARE'',
   ''PONY'', ''LUAU'', ''JANET'', ''SWAY'', ''NASM'', ''ASSEMBLY'', ''ASTRO'', ''BLADE'', ''JUST'',
   ''GOTEMPLATE'', ''TEMPL'', ''LIQUID'', ''JINJA2'', ''PRISMA'', ''HYPRLANG'', ''DOTENV'',
   ''DIFF'', ''WGSL'', ''KDL'', ''JSON5'', ''JSONNET'', ''RON'', ''THRIFT'', ''CAPNP'',
   ''PROPERTIES'', ''SSHCONFIG'', ''BIBTEX'', ''STARLARK'', ''BICEP'', ''CSV'', ''REQUIREMENTS'',
   ''HLSL'', ''VHDL'', ''SYSTEMVERILOG'', ''DEVICETREE'', ''LINKERSCRIPT'', ''GN'', ''KCONFIG'',
   ''BITBAKE'', ''SMALI'', ''TABLEGEN'', ''ISPC'', ''CAIRO'', ''MOVE'', ''SQUIRREL'', ''FUNC'',
   ''REGEX'', ''JSDOC'', ''RST'', ''BEANCOUNT'', ''MERMAID'', ''PUPPET'', ''PO'',
   ''GITATTRIBUTES'', ''GITIGNORE'', ''SLANG'', ''LLVM_IR'', ''SMITHY'', ''WIT'', ''TLAPLUS'',
   ''PKL'', ''GOMOD'', ''APEX'', ''SOQL'', ''SOSL'', ''KUSTOMIZE'', ''K8S'', ''PINE'', ''QML'',
   ''CFSCRIPT'', ''CFML'', ''MOJO'', ''OBJECTSCRIPT_UDL'', ''OBJECTSCRIPT_ROUTINE'',
   ''OBJECTSCRIPT_EXPORT'']"

definition ext_table_1 :: "(string \<times> cbm_language) list" where
  "ext_table_1 =
   [(''.bash'', ''BASH''), (''.sh'', ''BASH''), (''.c'', ''C''), (''.cc'', ''CPP''),
    (''.ccm'', ''CPP''), (''.cpp'', ''CPP''), (''.cppm'', ''CPP''), (''.cxx'', ''CPP''),
    (''.h'', ''CPP''), (''.hh'', ''CPP''), (''.hpp'', ''CPP''), (''.hxx'', ''CPP''),
    (''.ixx'', ''CPP''), (''.cs'', ''CSHARP''), (''.clj'', ''CLOJURE''), (''.cljc'', ''CLOJURE''),
    (''.cljs'', ''CLOJURE''), (''.cmake'', ''CMAKE''), (''.cbl'', ''COBOL''),
    (''.cob'', ''COBOL''), (''.cl'', ''COMMONLISP''), (''.lisp'', ''COMMONLISP''),
    (''.lsp'', ''COMMONLISP''), (''.css'', ''CSS''), (''.cu'', ''CUDA''), (''.cuh'', ''CUDA''),
    (''.dart'', ''DART''), (''.dockerfile'', ''DOCKERFILE''), (''.ex'', ''ELIXIR''),
    (''.exs'', ''ELIXIR''), (''.env'', ''DOTENV''), (''.elm'', ''ELM''), (''.el'', ''EMACSLISP''),
    (''.erl'', ''ERLANG''), (''.fs'', ''FSHARP''), (''.fsi'', ''FSHARP''), (''.fsx'', ''FSHARP''),
    (''.frm'', ''FORM''), (''.prc'', ''FORM''), (''.f03'', ''FORTRAN''), (''.f08'', ''FORTRAN''),
    (''.f90'', ''FORTRAN''), (''.f95'', ''FORTRAN''), (''.frag'', ''GLSL''), (''.glsl'', ''GLSL''),
    (''.vert'', ''GLSL''), (''.go'', ''GO''), (''.gql'', ''GRAPHQL''), (''.graphql'', ''GRAPHQL''),
    (''.gradle'', ''GROOVY''), (''.groovy'', ''GROOVY''), (''.hs'', ''HASKELL''),
    (''.hcl'', ''HCL''), (''.tf'', ''HCL''), (''.htm'', ''HTML''), (''.html'', ''HTML''),
    (''.cfg'', ''INI''), (''.conf'', ''INI''), (''.ini'', ''INI''), (''.java'', ''JAVA''),
    (''.js'', ''JAVASCRIPT''), (''.jsx'', ''JAVASCRIPT'')]"

definition ext_table_2 :: "(string \<times> cbm_language) list" where
  "ext_table_2 =
   [(''.mjs'', ''JAVASCRIPT''), (''.cjs'', ''JAVASCRIPT''), (''.json'', ''JSON''),
    (''.jl'', ''JULIA''), (''.kt'', ''KOTLIN''), (''.kts'', ''KOTLIN''), (''.lean'', ''LEAN''),
    (''.lua'', ''LUA''), (''.mag'', ''MAGMA''), (''.magma'', ''MAGMA''), (''.mk'', ''MAKEFILE''),
    (''.md'', ''MARKDOWN''), (''.mdx'', ''MARKDOWN''), (''.txt'', ''MARKDOWN''),
    (''.text'', ''MARKDOWN''), (''.pdf'', ''MARKDOWN''), (''.docx'', ''MARKDOWN''),
    (''.m'', ''MATLAB''), (''.matlab'', ''MATLAB''), (''.mlx'', ''MATLAB''),
    (''.meson'', ''MESON''), (''.mojo'', ''MOJO''), (''.nix'', ''NIX''), (''.ml'', ''OCAML''),
    (''.mli'', ''OCAML''), (''.pl'', ''PERL''), (''.pm'', ''PERL''), (''.php'', ''PHP''),
    (''.proto'', ''PROTOBUF''), (''.py'', ''PYTHON''), (''.R'', ''R''), (''.r'', ''R''),
    (''.gemspec'', ''RUBY''), (''.rake'', ''RUBY''), (''.rb'', ''RUBY''), (''.rs'', ''RUST''),
    (''.sc'', ''SCALA''), (''.scala'', ''SCALA''), (''.scss'', ''SCSS''), (''.sql'', ''SQL''),
    (''.svelte'', ''SVELTE''), (''.swift'', ''SWIFT''), (''.sv'', ''VERILOG''),
    (''.v'', ''VERILOG''), (''.toml'', ''TOML''), (''.tsx'', ''TSX''), (''.ts'', ''TYPESCRIPT''),
    (''.mts'', ''TYPESCRIPT''), (''.cts'', ''TYPESCRIPT''), (''.vim'', ''VIMSCRIPT''),
    (''.vimrc'', ''VIMSCRIPT''), (''justfile'', ''JUST''), (''Justfile'', ''JUST''),
    (''.justfile'', ''JUST''), (''.just'', ''JUST''), (''hyprland.conf'', ''HYPRLANG''),
    (''ssh_config'', ''SSHCONFIG''), (''sshd_config'', ''SSHCONFIG''), (''BUILD'', ''STARLARK''),
    (''BUILD.bazel'', ''STARLARK''), (''WORKSPACE'', ''STARLARK'')]"

definition ext_table_3 :: "(string \<times> cbm_language) list" where
  "ext_table_3 =
   [(''WORKSPACE.bazel'', ''STARLARK''), (''.inc'', ''BITBAKE''),
    (''.mac'', ''OBJECTSCRIPT_ROUTINE''), (''.int'', ''OBJECTSCRIPT_ROUTINE''),
    (''.rtn'', ''OBJECTSCRIPT_ROUTINE''), (''.vue'', ''VUE''), (''.wl'', ''WOLFRAM''),
    (''.wls'', ''WOLFRAM''), (''.xml'', ''XML''), (''.xsd'', ''XML''), (''.xsl'', ''XML''),
    (''.svg'', ''XML''), (''.yaml'', ''YAML''), (''.yml'', ''YAML''), (''.adb'', ''ADA''),
    (''.ads'', ''ADA''), (''.agda'', ''AGDA''), (''.astro'', ''ASTRO''), (''.awk'', ''AWK''),
    (''.bb'', ''BITBAKE''), (''.bbappend'', ''BITBAKE''), (''.bbclass'', ''BITBAKE''),
    (''.beancount'', ''BEANCOUNT''), (''.bib'', ''BIBTEX''), (''.bicep'', ''BICEP''),
    (''.bzl'', ''STARLARK''), (''.cairo'', ''CAIRO''), (''.capnp'', ''CAPNP''),
    (''.cls'', ''APEX''), (''.cr'', ''CRYSTAL''), (''.csv'', ''CSV''), (''.d'', ''DLANG''),
    (''.diff'', ''DIFF''), (''.dpr'', ''PASCAL''), (''.dts'', ''DEVICETREE''),
    (''.dtsi'', ''DEVICETREE''), (''.fc'', ''FUNC''), (''.fish'', ''FISH''),
    (''.fnl'', ''FENNEL''), (''.fx'', ''HLSL''), (''.gd'', ''GDSCRIPT''), (''.gleam'', ''GLEAM''),
    (''.gn'', ''GN''), (''.gni'', ''GN'')]"

definition ext_table_4 :: "(string \<times> cbm_language) list" where
  "ext_table_4 =
   [(''.gotmpl'', ''GOTEMPLATE''), (''.tpl'', ''GOTEMPLATE''), (''.ha'', ''HARE''),
    (''.hl'', ''HYPRLANG''), (''.hlsl'', ''HLSL''), (''.hlsli'', ''HLSL''), (''.ispc'', ''ISPC''),
    (''.j2'', ''JINJA2''), (''.janet'', ''JANET''), (''.jinja'', ''JINJA2''),
    (''.jinja2'', ''JINJA2''), (''.json5'', ''JSON5''), (''.jsonnet'', ''JSONNET''),
    (''.kdl'', ''KDL''), (''.ld'', ''LINKERSCRIPT''), (''.lds'', ''LINKERSCRIPT''),
    (''.libsonnet'', ''JSONNET''), (''.liquid'', ''LIQUID''), (''.ll'', ''LLVM_IR''),
    (''.lpr'', ''PASCAL''), (''.luau'', ''LUAU''), (''.qml'', ''QML''), (''.cfc'', ''CFSCRIPT''),
    (''.cfm'', ''CFML''), (''.mermaid'', ''MERMAID''), (''.mmd'', ''MERMAID''),
    (''.move'', ''MOVE''), (''.nasm'', ''NASM''), (''.ncl'', ''NICKEL''), (''.nut'', ''SQUIRREL''),
    (''.odin'', ''ODIN''), (''.overlay'', ''DEVICETREE''), (''.pas'', ''PASCAL''),
    (''.patch'', ''DIFF''), (''.pine'', ''PINE''), (''.pkl'', ''PKL''), (''.po'', ''PO''),
    (''.pony'', ''PONY''), (''.pot'', ''PO''), (''.pp'', ''PUPPET'')]"

definition ext_table_5 :: "(string \<times> cbm_language) list" where
  "ext_table_5 =
   [(''.prisma'', ''PRISMA''), (''.properties'', ''PROPERTIES''), (''.ps1'', ''POWERSHELL''),
    (''.psd1'', ''POWERSHELL''), (''.psm1'', ''POWERSHELL''), (''.purs'', ''PURESCRIPT''),
    (''.res'', ''RESCRIPT''), (''.resi'', ''RESCRIPT''), (''.re'', ''REGEX''),
    (''.rkt'', ''RACKET''), (''.ron'', ''RON''), (''.rst'', ''RST''), (''.s'', ''ASSEMBLY''),
    (''.S'', ''ASSEMBLY''), (''.scm'', ''SCHEME''), (''.slang'', ''SLANG''),
    (''.smali'', ''SMALI''), (''.smithy'', ''SMITHY''), (''.sol'', ''SOLIDITY''),
    (''.soql'', ''SOQL''), (''.sosl'', ''SOSL''), (''.ss'', ''SCHEME''), (''.star'', ''STARLARK''),
    (''.sw'', ''SWAY''), (''.tcl'', ''TCL''), (''.td'', ''TABLEGEN''), (''.templ'', ''TEMPL''),
    (''.thrift'', ''THRIFT''), (''.tl'', ''TEAL''), (''.tla'', ''TLAPLUS''),
    (''.tmpl'', ''GOTEMPLATE''), (''.trigger'', ''APEX''), (''.typ'', ''TYPST''),
    (''.vhd'', ''VHDL''), (''.vhdl'', ''VHDL''), (''.wgsl'', ''WGSL''), (''.wit'', ''WIT''),
    (''.zsh'', ''ZSH''), (''.zig'', ''ZIG'')]"

definition ext_table :: "(string \<times> cbm_language) list" where
  "ext_table = ext_table_1 @ ext_table_2 @ ext_table_3 @ ext_table_4 @ ext_table_5"

definition filename_table :: "(string \<times> cbm_language) list" where
  "filename_table =
   [(''CMakeLists.txt'', ''CMAKE''), (''Dockerfile'', ''DOCKERFILE''),
    (''GNUmakefile'', ''MAKEFILE''), (''Makefile'', ''MAKEFILE''), (''makefile'', ''MAKEFILE''),
    (''meson.build'', ''MESON''), (''meson.options'', ''MESON''),
    (''meson_options.txt'', ''MESON''), (''kustomization.yaml'', ''KUSTOMIZE''),
    (''kustomization.yml'', ''KUSTOMIZE''), (''.vimrc'', ''VIMSCRIPT''), (''.zshrc'', ''ZSH''),
    (''.zshenv'', ''ZSH''), (''.zprofile'', ''ZSH''), (''justfile'', ''JUST''),
    (''Justfile'', ''JUST''), (''.justfile'', ''JUST''), (''hyprland.conf'', ''HYPRLANG''),
    (''ssh_config'', ''SSHCONFIG''), (''sshd_config'', ''SSHCONFIG''),
    (''.ssh/config'', ''SSHCONFIG''), (''BUILD'', ''STARLARK''), (''BUILD.bazel'', ''STARLARK''),
    (''WORKSPACE'', ''STARLARK''), (''WORKSPACE.bazel'', ''STARLARK''),
    (''requirements.txt'', ''REQUIREMENTS''), (''requirements-dev.txt'', ''REQUIREMENTS''),
    (''requirements-test.txt'', ''REQUIREMENTS''), (''Kconfig'', ''KCONFIG''),
    (''go.mod'', ''GOMOD''), (''.env'', ''DOTENV''), (''.env.local'', ''DOTENV''),
    (''.gitattributes'', ''GITATTRIBUTES'')]"

definition lang_names_1 :: "(cbm_language \<times> string) list" where
  "lang_names_1 =
   [(''GO'', ''Go''), (''PYTHON'', ''Python''), (''JAVASCRIPT'', ''JavaScript''),
    (''TYPESCRIPT'', ''TypeScript''), (''TSX'', ''TSX''), (''RUST'', ''Rust''),
    (''JAVA'', ''Java''), (''CPP'', ''C++''), (''CSHARP'', ''C#''), (''PHP'', ''PHP''),
    (''LUA'', ''Lua''), (''SCALA'', ''Scala''), (''KOTLIN'', ''Kotlin''), (''RUBY'', ''Ruby''),
    (''C'', ''C''), (''BASH'', ''Bash''), (''ZIG'', ''Zig''), (''ELIXIR'', ''Elixir''),
    (''HASKELL'', ''Haskell''), (''OCAML'', ''OCaml''), (''OBJC'', ''Objective-C''),
    (''SWIFT'', ''Swift''), (''DART'', ''Dart''), (''PERL'', ''Perl''), (''GROOVY'', ''Groovy''),
    (''ERLANG'', ''Erlang''), (''R'', ''R''), (''HTML'', ''HTML''), (''CSS'', ''CSS''),
    (''SCSS'', ''SCSS''), (''YAML'', ''YAML''), (''TOML'', ''TOML''), (''HCL'', ''HCL''),
    (''SQL'', ''SQL''), (''DOCKERFILE'', ''Dockerfile''), (''CLOJURE'', ''Clojure''),
    (''FSHARP'', ''F#''), (''JULIA'', ''Julia''), (''VIMSCRIPT'', ''VimScript''),
    (''NIX'', ''Nix''), (''COMMONLISP'', ''Common Lisp''), (''ELM'', ''Elm''),
    (''FORTRAN'', ''Fortran''), (''CUDA'', ''CUDA''), (''COBOL'', ''COBOL''),
    (''VERILOG'', ''Verilog''), (''EMACSLISP'', ''Emacs Lisp''), (''JSON'', ''JSON''),
    (''XML'', ''XML''), (''MARKDOWN'', ''Markdown''), (''MAKEFILE'', ''Makefile''),
    (''CMAKE'', ''CMake''), (''PROTOBUF'', ''Protobuf''), (''GRAPHQL'', ''GraphQL''),
    (''VUE'', ''Vue''), (''SVELTE'', ''Svelte''), (''MESON'', ''Meson''), (''GLSL'', ''GLSL''),
    (''INI'', ''INI''), (''MATLAB'', ''MATLAB''), (''LEAN'', ''Lean''), (''FORM'', ''FORM''),
    (''MAGMA'', ''Magma''), (''WOLFRAM'', ''Wolfram''), (''KUSTOMIZE'', ''Kustomize''),
    (''K8S'', ''Kubernetes''), (''PINE'', ''PineScript''), (''SOLIDITY'', ''Solidity''),
    (''TYPST'', ''Typst''), (''GDSCRIPT'', ''GDScript''), (''GLEAM'', ''Gleam''),
    (''POWERSHELL'', ''PowerShell''), (''PASCAL'', ''Pascal''), (''DLANG'', ''D''),
    (''NIM'', ''Nim''), (''SCHEME'', ''Scheme''), (''FENNEL'', ''Fennel''), (''FISH'', ''Fish''),
    (''AWK'', ''AWK''), (''ZSH'', ''Zsh''), (''TCL'', ''Tcl''), (''ADA'', ''Ada'')]"

definition lang_names_2 :: "(cbm_language \<times> string) list" where
  "lang_names_2 =
   [(''AGDA'', ''Agda''), (''RACKET'', ''Racket''), (''ODIN'', ''Odin''),
    (''RESCRIPT'', ''ReScript''), (''PURESCRIPT'', ''PureScript''), (''NICKEL'', ''Nickel''),
    (''CRYSTAL'', ''Crystal''), (''TEAL'', ''Teal''), (''HARE'', ''Hare''), (''PONY'', ''Pony''),
    (''LUAU'', ''Luau''), (''QML'', ''QML''), (''CFSCRIPT'', ''CFML''), (''CFML'', ''CFML''),
    (''JANET'', ''Janet''), (''SWAY'', ''Sway''), (''NASM'', ''NASM''),
    (''ASSEMBLY'', ''Assembly''), (''ASTRO'', ''Astro''), (''BLADE'', ''Blade''),
    (''JUST'', ''Just''), (''GOTEMPLATE'', ''Go Template''), (''TEMPL'', ''Templ''),
    (''LIQUID'', ''Liquid''), (''JINJA2'', ''Jinja2''), (''PRISMA'', ''Prisma''),
    (''HYPRLANG'', ''Hyprlang''), (''DOTENV'', ''DotEnv''), (''SYSTEMVERILOG'', ''SystemVerilog''),
    (''DIFF'', ''Diff''), (''WGSL'', ''WGSL''), (''KDL'', ''KDL''), (''JSON5'', ''JSON5''),
    (''JSONNET'', ''Jsonnet''), (''RON'', ''RON''), (''THRIFT'', ''Thrift''),
    (''CAPNP'', ''Cap'n Proto''), (''PROPERTIES'', ''Properties''),
    (''SSHCONFIG'', ''SSH Config''), (''BIBTEX'', ''BibTeX''), (''STARLARK'', ''Starlark''),
    (''BICEP'', ''Bicep''), (''CSV'', ''CSV''), (''REQUIREMENTS'', ''Requirements''),
    (''HLSL'', ''HLSL''), (''VHDL'', ''VHDL''), (''DEVICETREE'', ''DeviceTree''),
    (''LINKERSCRIPT'', ''Linker Script''), (''GN'', ''GN''), (''KCONFIG'', ''Kconfig''),
    (''BITBAKE'', ''BitBake''), (''SMALI'', ''Smali''), (''TABLEGEN'', ''TableGen''),
    (''ISPC'', ''ISPC''), (''CAIRO'', ''Cairo''), (''MOVE'', ''Move''),
    (''SQUIRREL'', ''Squirrel''), (''FUNC'', ''FunC''), (''REGEX'', ''Regex''),
    (''JSDOC'', ''JSDoc''), (''RST'', ''reStructuredText''), (''BEANCOUNT'', ''Beancount''),
    (''MERMAID'', ''Mermaid''), (''PUPPET'', ''Puppet''), (''PO'', ''PO''),
    (''GITATTRIBUTES'', ''gitattributes''), (''GITIGNORE'', ''gitignore''), (''SLANG'', ''Slang''),
    (''LLVM_IR'', ''LLVM IR''), (''SMITHY'', ''Smithy''), (''WIT'', ''WIT''),
    (''TLAPLUS'', ''TLA+''), (''PKL'', ''Pkl''), (''GOMOD'', ''Go Mod''), (''APEX'', ''Apex''),
    (''SOQL'', ''SOQL''), (''SOSL'', ''SOSL''), (''MOJO'', ''Mojo''),
    (''OBJECTSCRIPT_UDL'', ''ObjectScript UDL''),
    (''OBJECTSCRIPT_ROUTINE'', ''ObjectScript Routine''),
    (''OBJECTSCRIPT_EXPORT'', ''ObjectScript Export XML'')]"

definition lang_names :: "(cbm_language \<times> string) list" where
  "lang_names = lang_names_1 @ lang_names_2"

text \<open>The first entry of a table.\<close>

fun table_scan :: "(string \<times> string) list \<Rightarrow> string \<Rightarrow> string option" where
  "table_scan [] k = None"
| "table_scan ((e, l) # es) k = (if strcmp e k = 0 then Some l else table_scan es k)"

section \<open>The user's extensions\<close>

record userext =
  ue_ext :: "string option"
  ue_lang :: cbm_language

type_synonym userconfig = "userext list"

definition lang_name_table :: "(string \<times> cbm_language) list" where
  "lang_name_table =
   [(''go'', ''GO''), (''python'', ''PYTHON''), (''javascript'', ''JAVASCRIPT''),
    (''typescript'', ''TYPESCRIPT''), (''tsx'', ''TSX''), (''rust'', ''RUST''),
    (''java'', ''JAVA''), (''c++'', ''CPP''), (''cpp'', ''CPP''), (''c#'', ''CSHARP''),
    (''csharp'', ''CSHARP''), (''php'', ''PHP''), (''lua'', ''LUA''), (''scala'', ''SCALA''),
    (''kotlin'', ''KOTLIN''), (''ruby'', ''RUBY''), (''c'', ''C''), (''bash'', ''BASH''),
    (''sh'', ''BASH''), (''zig'', ''ZIG''), (''elixir'', ''ELIXIR''), (''haskell'', ''HASKELL''),
    (''ocaml'', ''OCAML''), (''objective-c'', ''OBJC''), (''objc'', ''OBJC''),
    (''swift'', ''SWIFT''), (''dart'', ''DART''), (''perl'', ''PERL''), (''groovy'', ''GROOVY''),
    (''erlang'', ''ERLANG''), (''r'', ''R''), (''html'', ''HTML''), (''css'', ''CSS''),
    (''scss'', ''SCSS''), (''yaml'', ''YAML''), (''toml'', ''TOML''), (''hcl'', ''HCL''),
    (''terraform'', ''HCL''), (''sql'', ''SQL''), (''dockerfile'', ''DOCKERFILE''),
    (''clojure'', ''CLOJURE''), (''f#'', ''FSHARP''), (''fsharp'', ''FSHARP''),
    (''julia'', ''JULIA''), (''vimscript'', ''VIMSCRIPT''), (''nix'', ''NIX''),
    (''common lisp'', ''COMMONLISP''), (''commonlisp'', ''COMMONLISP''),
    (''lisp'', ''COMMONLISP''), (''elm'', ''ELM''), (''fortran'', ''FORTRAN''),
    (''cuda'', ''CUDA''), (''cobol'', ''COBOL''), (''verilog'', ''VERILOG''),
    (''emacs lisp'', ''EMACSLISP''), (''emacslisp'', ''EMACSLISP''), (''json'', ''JSON''),
    (''xml'', ''XML''), (''markdown'', ''MARKDOWN''), (''makefile'', ''MAKEFILE''),
    (''cmake'', ''CMAKE''), (''protobuf'', ''PROTOBUF''), (''graphql'', ''GRAPHQL''),
    (''vue'', ''VUE''), (''svelte'', ''SVELTE''), (''meson'', ''MESON''), (''glsl'', ''GLSL''),
    (''ini'', ''INI''), (''matlab'', ''MATLAB''), (''mojo'', ''MOJO''), (''lean'', ''LEAN''),
    (''form'', ''FORM''), (''magma'', ''MAGMA''), (''wolfram'', ''WOLFRAM'')]"

definition lang_from_string :: "string option \<Rightarrow> cbm_language" where
  "lang_from_string s =
     (case s of
        None \<Rightarrow> lang_count
      | Some t \<Rightarrow>
          if t = [] then lang_count
          else (case table_scan lang_name_table (map c_tolower (take 63 t)) of
                  Some l \<Rightarrow> l | None \<Rightarrow> lang_count))"

text \<open>What the configuration asks of a JSON value.\<close>

datatype yyjson_val = YObj "(string \<times> yyjson_val) list" | YStr string | YOther

definition yyjson_is_obj :: "yyjson_val \<Rightarrow> bool" where
  "yyjson_is_obj v = (case v of YObj kvs \<Rightarrow> True | _ \<Rightarrow> False)"

definition yyjson_obj_get :: "yyjson_val \<Rightarrow> string \<Rightarrow> yyjson_val option" where
  "yyjson_obj_get v key = (case v of YObj kvs \<Rightarrow> map_of kvs key | _ \<Rightarrow> None)"

definition yyjson_get_str :: "yyjson_val \<Rightarrow> string option" where
  "yyjson_get_str v = (case v of YStr s \<Rightarrow> Some s | _ \<Rightarrow> None)"

text \<open>One pair of the object of extra extensions; the log messages are left out.\<close>

definition extra_extension_step :: "userext list \<Rightarrow> string \<times> yyjson_val \<Rightarrow> userext list" where
  "extra_extension_step entries kv =
     (case (kv, yyjson_get_str (snd kv)) of
        ((ext, _), None) \<Rightarrow> entries
      | ((ext, _), Some lang_str) \<Rightarrow>
          if ext = [] \<or> hd ext \<noteq> CHR ''.'' then entries
          else
            let lang = lang_from_string (Some lang_str) in
            if lang = lang_count then entries
            else entries @ [\<lparr>ue_ext = Some ext, ue_lang = lang\<rparr>])"

definition parse_extra_extensions :: "yyjson_val \<Rightarrow> userext list \<Rightarrow> userext list" where
  "parse_extra_extensions root entries =
     (if \<not> yyjson_is_obj root then entries
      else (case yyjson_obj_get root ''extra_extensions'' of
              Some (YObj kvs) \<Rightarrow> foldl extra_extension_step entries kvs
            | _ \<Rightarrow> entries))"

abbreviation MAX_CONFIG_SIZE :: nat where "MAX_CONFIG_SIZE \<equiv> 65536"

definition load_config_file ::
  "filesys \<Rightarrow> (string \<Rightarrow> yyjson_val option) \<Rightarrow> string \<Rightarrow> userext list \<Rightarrow> userext list" where
  "load_config_file fs yyjson_read path entries =
     (case fs_read fs path of
        None \<Rightarrow> entries
      | Some buf \<Rightarrow>
          if buf = [] \<or> MAX_CONFIG_SIZE < length buf then entries
          else (case yyjson_read buf of
                  None \<Rightarrow> entries
                | Some root \<Rightarrow> parse_extra_extensions root entries))"

text \<open>A project entry at \<open>p\<close> removes the first global entry of its extension: the last global entry takes
  its place and the freed slot is marked.\<close>

definition dedup_step :: "userext list \<times> nat \<Rightarrow> nat \<Rightarrow> userext list \<times> nat" where
  "dedup_step st p =
     (let (entries, global_count) = st in
      case find (\<lambda>g. ue_ext (entries ! g) \<noteq> None \<and> ue_ext (entries ! g) = ue_ext (entries ! p)) [0..<global_count] of
        None \<Rightarrow> (entries, global_count)
      | Some g \<Rightarrow>
          let es = entries[g := entries ! (global_count - 1)] in
          (es[global_count - 1 := (es ! (global_count - 1))\<lparr>ue_ext := None\<rparr>], global_count - 1))"

definition dedup_entries :: "userext list \<Rightarrow> nat \<Rightarrow> userext list" where
  "dedup_entries entries global_count =
     filter (\<lambda>e. ue_ext e \<noteq> None)
       (fst (foldl dedup_step (entries, global_count) [global_count..<length entries]))"

definition global_config_path :: "(string \<Rightarrow> string option) \<Rightarrow> string" where
  "global_config_path env =
     snprintf_buf 1280 ((case pmm_app_config_dir env of Some d \<Rightarrow> d | None \<Rightarrow> ''/tmp'') @ ''/project-mind-mcp/config.json'')"

definition project_config_path :: "string \<Rightarrow> string" where
  "project_config_path repo = snprintf_buf 1280 (repo @ ''/.project-mind-mcp.json'')"

definition pmm_userconfig_load ::
  "filesys \<Rightarrow> (string \<Rightarrow> string option) \<Rightarrow> (string \<Rightarrow> yyjson_val option) \<Rightarrow> string option \<Rightarrow> userconfig" where
  "pmm_userconfig_load fs env yyjson_read repo_path =
     (let global = load_config_file fs yyjson_read (global_config_path env) [];
          entries = (case repo_path of
                       Some repo \<Rightarrow> if repo \<noteq> [] then load_config_file fs yyjson_read (project_config_path repo) global
                                    else global
                     | None \<Rightarrow> global)
      in dedup_entries entries (length global))"

definition pmm_userconfig_lookup :: "userconfig option \<Rightarrow> string option \<Rightarrow> cbm_language" where
  "pmm_userconfig_lookup cfg ext =
     (case (cfg, ext) of
        (Some es, Some x) \<Rightarrow>
          if x = [] then lang_count
          else (case find (\<lambda>e. ue_ext e = Some x) es of Some e \<Rightarrow> ue_lang e | None \<Rightarrow> lang_count)
      | _ \<Rightarrow> lang_count)"

section \<open>Extensions and file names\<close>

definition pmm_language_for_extension :: "userconfig option \<Rightarrow> string option \<Rightarrow> cbm_language" where
  "pmm_language_for_extension ucfg ext =
     (case ext of
        None \<Rightarrow> lang_count
      | Some x \<Rightarrow>
          if x = [] then lang_count
          else
            let ulang = pmm_userconfig_lookup ucfg (Some x) in
            if ucfg \<noteq> None \<and> ulang \<noteq> lang_count then ulang
            else (case table_scan ext_table x of Some l \<Rightarrow> l | None \<Rightarrow> lang_count))"

definition compound_ext_table :: "(string \<times> cbm_language) list" where
  "compound_ext_table = [(''.blade.php'', ''BLADE'')]"

text \<open>The walk from the first dot of the name to the one before the last, \<open>last_dot\<close> being the length of
  the last extension.\<close>

function compound_probe :: "userconfig option \<Rightarrow> nat \<Rightarrow> string option \<Rightarrow> cbm_language option" where
  "compound_probe ucfg last_dot p =
     (case p of
        None \<Rightarrow> None
      | Some s \<Rightarrow>
          if s = [] \<or> length s \<le> last_dot then None
          else (case table_scan compound_ext_table s of
                  Some l \<Rightarrow> Some l
                | None \<Rightarrow>
                    let lang = pmm_userconfig_lookup ucfg (Some s) in
                    if ucfg \<noteq> None \<and> lang \<noteq> lang_count then Some lang
                    else compound_probe ucfg last_dot (strchr_at (tl s) (CHR ''.''))))"
  by pat_completeness auto
termination
proof (relation "measure (\<lambda>(ucfg, n, p). case p of None \<Rightarrow> 0 | Some s \<Rightarrow> Suc (length s))")
  fix ucfg :: "userconfig option" and last_dot :: nat and p :: "string option" and s :: string and x
  assume "p = Some s" "\<not> (s = [] \<or> length s \<le> last_dot)"
  then show "((ucfg, last_dot, strchr_at (tl s) (CHR ''.'')), ucfg, last_dot, p)
      \<in> measure (\<lambda>(ucfg, n, p). case p of None \<Rightarrow> 0 | Some s \<Rightarrow> Suc (length s))"
    by (cases s) (auto simp: strchr_at_Some split: option.splits)
qed simp

declare compound_probe.simps [simp del]

definition pmm_language_for_filename :: "userconfig option \<Rightarrow> string option \<Rightarrow> cbm_language" where
  "pmm_language_for_filename ucfg filename =
     (case filename of
        None \<Rightarrow> lang_count
      | Some name \<Rightarrow>
          if name = [] then lang_count
          else (case table_scan filename_table name of
                  Some l \<Rightarrow> l
                | None \<Rightarrow>
                    if starts_with ''.env.'' name then ''DOTENV''
                    else (case strrchr_at name (CHR ''.'') of
                            None \<Rightarrow> lang_count
                          | Some ext \<Rightarrow>
                              (case compound_probe ucfg (length ext) (strchr_at name (CHR ''.'')) of
                                 Some l \<Rightarrow> l
                               | None \<Rightarrow> pmm_language_for_extension ucfg (Some ext)))))"

text \<open>The name of the value of an enumerator.\<close>

definition pmm_language_name :: "int \<Rightarrow> string" where
  "pmm_language_name lang =
     (if lang < 0 \<or> int (length cbm_languages) \<le> lang then ''Unknown''
      else (case table_scan lang_names (cbm_languages ! nat lang) of Some n \<Rightarrow> n | None \<Rightarrow> ''Unknown''))"

section \<open>Telling languages apart by content\<close>

definition str_contains :: "string \<Rightarrow> string \<Rightarrow> bool" where
  "str_contains haystack needle \<longleftrightarrow> strstr haystack needle \<noteq> None"

definition has_objc_markers :: "string \<Rightarrow> bool" where
  "has_objc_markers buf \<longleftrightarrow>
     list_ex (str_contains buf)
       [''@interface'', ''@implementation'', ''@protocol'', ''@property'', ''#import'', ''@selector'',
        ''@encode'', ''@synthesize'', ''@dynamic'']"

definition has_magma_end_markers :: "string \<Rightarrow> bool" where
  "has_magma_end_markers buf \<longleftrightarrow>
     list_ex (str_contains buf)
       [''end function;'', ''end procedure;'', ''end intrinsic;'', ''end if;'', ''end for;'', ''end while;'']"

definition has_magma_callable_pattern :: "string \<Rightarrow> bool" where
  "has_magma_callable_pattern buf \<longleftrightarrow>
     list_ex (\<lambda>marker.
       case strstr buf marker of
         None \<Rightarrow> False
       | Some p \<Rightarrow> (case dropWhile c_isalpha (drop (length marker) p) of
                      [] \<Rightarrow> False | c # _ \<Rightarrow> c = CHR ''(''))
       [''intrinsic '', ''procedure '']"

text \<open>The buffers of the three functions: the first 4096 bytes of the file as a C string.\<close>

definition read_4k :: "filesys \<Rightarrow> string \<Rightarrow> string option" where
  "read_4k fs path = map_option (\<lambda>content. cstr (take 4096 content)) (fs_read fs path)"

text \<open>A scan of the lines of a buffer for the first one that satisfies a test.\<close>

function scan_lines :: "(string \<Rightarrow> bool) \<Rightarrow> string \<Rightarrow> bool" where
  "scan_lines P line =
     (if line = [] then False
      else if P line then True
      else (case strchr_at line (CHR 0x0A) of
              None \<Rightarrow> False
            | Some nl \<Rightarrow> scan_lines P (tl nl)))"
  by pat_completeness auto
termination
  by (relation "measure (\<lambda>(P, line). length line)") (auto dest: strchr_at_tl_length)

declare scan_lines.simps [simp del]

definition matlab_line :: "string \<Rightarrow> bool" where
  "matlab_line line =
     (let p = dropWhile (\<lambda>c. c = CHR '' '' \<or> c = CHR 0x09) line in
      starts_with ''function '' p \<or> starts_with (''function'' @ [CHR 0x09]) p \<or>
      starts_with ''classdef '' p \<or> starts_with (''classdef'' @ [CHR 0x09]) p \<or>
      starts_with ''%%'' p \<or>
      p \<noteq> [] \<and> hd p = CHR ''%'' \<and> (tl p = [] \<or> hd (tl p) \<noteq> CHR ''{''))"

definition has_matlab_line_markers :: "string \<Rightarrow> bool" where
  "has_matlab_line_markers buf = scan_lines matlab_line buf"

definition pmm_disambiguate_m :: "filesys \<Rightarrow> string option \<Rightarrow> cbm_language" where
  "pmm_disambiguate_m fs path =
     (case Option.bind path (read_4k fs) of
        None \<Rightarrow> ''MATLAB''
      | Some buf \<Rightarrow>
          if has_objc_markers buf then ''OBJC''
          else if has_magma_end_markers buf then ''MAGMA''
          else if (str_contains buf ''intrinsic '' \<or> str_contains buf ''procedure '') \<and> has_magma_callable_pattern buf
          then ''MAGMA''
          else if has_matlab_line_markers buf then ''MATLAB''
          else ''MATLAB'')"

definition c_isupper :: "char \<Rightarrow> bool" where
  "c_isupper c \<longleftrightarrow> 65 \<le> (of_char c :: nat) \<and> (of_char c :: nat) \<le> 90"

text \<open>A line that starts with a word and a blank, followed by an upper-case letter.\<close>

definition upper_after :: "string \<Rightarrow> string \<Rightarrow> bool" where
  "upper_after word line \<longleftrightarrow>
     starts_with word line \<and> (case drop (length word) line of [] \<Rightarrow> False | c # _ \<Rightarrow> c_isupper c)"

definition pmm_disambiguate_cls :: "filesys \<Rightarrow> string option \<Rightarrow> cbm_language" where
  "pmm_disambiguate_cls fs path =
     (case Option.bind path (read_4k fs) of
        None \<Rightarrow> ''APEX''
      | Some buf \<Rightarrow> if scan_lines (upper_after ''Class '') buf then ''OBJECTSCRIPT_UDL'' else ''APEX'')"

definition pmm_disambiguate_inc :: "filesys \<Rightarrow> string option \<Rightarrow> cbm_language" where
  "pmm_disambiguate_inc fs path =
     (case Option.bind path (read_4k fs) of
        None \<Rightarrow> ''BITBAKE''
      | Some buf \<Rightarrow>
          if scan_lines (\<lambda>line. upper_after ''ROUTINE '' line \<or> starts_with ''#define'' line \<or>
               starts_with ''#def1arg'' line \<or> starts_with ''#;'' line) buf
          then ''OBJECTSCRIPT_ROUTINE'' else ''BITBAKE'')"

end
