(* ===== verification/Discover.thy ===== *)
theory Discover
  imports Disc_Lang
begin

text \<open>
  The file discovery, src/src/discover/discover.c, on its POSIX branches: the filters, the ignore
  files of git, the decision on a directory or a file, the walk with its explicit stack, and the
  entry points.  The file system, the environment, the user configuration and the clock are
  arguments; the clock is read by number of the call.  Memory is there.  A buffer that a path does
  not fit stops the walk as in the code.
\<close>

datatype index_mode = PMM_MODE_FULL | PMM_MODE_MODERATE | PMM_MODE_FAST

section \<open>Tables\<close>

definition ALWAYS_SKIP_DIRS :: "string list" where
  "ALWAYS_SKIP_DIRS =
   [''.git'', ''.hg'', ''.svn'', ''.worktrees'', ''.idea'', ''.vs'', ''.vscode'', ''.eclipse'',
    ''.claude'', ''.claude-worktrees'', ''Antigravity'', ''.cache'', ''.eggs'', ''.env'',
    ''.mypy_cache'', ''.nox'', ''.pytest_cache'', ''.ruff_cache'', ''.tox'', ''.venv'',
    ''__pycache__'', ''env'', ''htmlcov'', ''site-packages'', ''venv'', ''.npm'', ''.nyc_output'',
    ''.pnpm-store'', ''.yarn'', ''bower_components'', ''coverage'', ''node_modules'', ''.next'',
    ''.nuxt'', ''.svelte-kit'', ''.angular'', ''.turbo'', ''.parcel-cache'', ''.docusaurus'',
    ''.expo'', ''dist'', ''obj'', ''Pods'', ''target'', ''temp'', ''tmp'', ''.terraform'',
    ''.serverless'', ''bazel-bin'', ''bazel-out'', ''bazel-testlogs'', ''.cargo'', ''.stack-work'',
    ''.dart_tool'', ''zig-cache'', ''zig-out'', ''.metals'', ''.bloop'', ''.bsp'', ''.ccls-cache'',
    ''.clangd'', ''elm-stuff'', ''_opam'', ''.cpcache'', ''.shadow-cljs'', ''.vercel'',
    ''.netlify'', ''deploy'', ''deployed'', ''.qdrant_code_embeddings'', ''.tmp'', ''vendor'',
    ''vendored'']"

definition FAST_SKIP_DIRS :: "string list" where
  "FAST_SKIP_DIRS =
   [''generated'', ''gen'', ''auto-generated'', ''fixtures'', ''testdata'', ''test_data'',
    ''__tests__'', ''__mocks__'', ''__snapshots__'', ''__fixtures__'', ''__test__'', ''examples'',
    ''example'', ''samples'', ''sample'', ''assets'', ''static'', ''public'', ''media'',
    ''third_party'', ''thirdparty'', ''3rdparty'', ''external'', ''migrations'', ''seeds'',
    ''e2e'', ''integration'', ''locale'', ''locales'', ''i18n'', ''l10n'', ''scripts'', ''tools'',
    ''hack'', ''bin'', ''build'', ''out'']"

definition ALWAYS_IGNORED_SUFFIXES :: "string list" where
  "ALWAYS_IGNORED_SUFFIXES =
   [''.tmp'', ''~'', ''.pyc'', ''.pyo'', ''.o'', ''.a'', ''.so'', ''.dll'', ''.class'', ''.png'',
    ''.jpg'', ''.jpeg'', ''.gif'', ''.ico'', ''.bmp'', ''.tiff'', ''.webp'', ''.svg'', ''.wasm'',
    ''.node'', ''.exe'', ''.bin'', ''.dat'', ''.db'', ''.sqlite'', ''.sqlite3'', ''.woff'',
    ''.woff2'', ''.ttf'', ''.eot'', ''.otf'']"

definition FAST_IGNORED_SUFFIXES :: "string list" where
  "FAST_IGNORED_SUFFIXES =
   [''.zip'', ''.tar'', ''.gz'', ''.bz2'', ''.xz'', ''.rar'', ''.7z'', ''.jar'', ''.war'',
    ''.ear'', ''.mp3'', ''.mp4'', ''.avi'', ''.mov'', ''.wav'', ''.flac'', ''.ogg'', ''.mkv'',
    ''.webm'', ''.pdf'', ''.doc'', ''.docx'', ''.xls'', ''.xlsx'', ''.ppt'', ''.pptx'', ''.odt'',
    ''.ods'', ''.map'', ''.min.js'', ''.min.css'', ''.pem'', ''.crt'', ''.key'', ''.cer'',
    ''.p12'', ''.pb'', ''.avro'', ''.parquet'', ''.beam'', ''.elc'', ''.rlib'', ''.coverage'',
    ''.prof'', ''.out'', ''.patch'', ''.diff'']"

definition FAST_SKIP_FILENAMES :: "string list" where
  "FAST_SKIP_FILENAMES =
   [''LICENSE'', ''LICENSE.txt'', ''LICENSE.md'', ''LICENSE-MIT'', ''LICENSE-APACHE'', ''LICENCE'',
    ''LICENCE.txt'', ''LICENCE.md'', ''CHANGELOG'', ''CHANGELOG.md'', ''CHANGES.md'', ''HISTORY'',
    ''HISTORY.md'', ''AUTHORS'', ''AUTHORS.md'', ''CONTRIBUTORS'', ''CONTRIBUTORS.md'',
    ''CODEOWNERS'', ''go.sum'', ''yarn.lock'', ''pnpm-lock.yaml'', ''Pipfile.lock'',
    ''poetry.lock'', ''Gemfile.lock'', ''Cargo.lock'', ''mix.lock'', ''flake.lock'',
    ''pubspec.lock'', ''composer.lock'', ''package-lock.json'', ''configure'', ''Makefile.in'',
    ''config.guess'', ''config.sub'']"

definition FAST_PATTERNS :: "string list" where
  "FAST_PATTERNS =
   [''.d.ts'', ''.bundle.'', ''.chunk.'', ''.generated.'', ''.pb.go'', ''_pb2.py'', ''.pb2.py'',
    ''_grpc.pb.go'', ''_string.go'', ''mock_'', ''_mock.'', ''_test_helpers.'', ''.stories.'',
    ''.spec.'', ''.test.'']"

definition IGNORED_JSON_FILES :: "string list" where
  "IGNORED_JSON_FILES =
   [''package.json'', ''package-lock.json'', ''tsconfig.json'', ''jsconfig.json'',
    ''composer.json'', ''composer.lock'', ''yarn.lock'', ''openapi.json'', ''swagger.json'',
    ''jest.config.json'', ''.eslintrc.json'', ''.prettierrc.json'', ''.babelrc.json'',
    ''tslint.json'', ''angular.json'', ''firebase.json'', ''renovate.json'', ''lerna.json'',
    ''turbo.json'', ''.stylelintrc.json'', ''pnpm-lock.json'', ''deno.json'', ''biome.json'',
    ''devcontainer.json'', ''.devcontainer.json'', ''launch.json'', ''settings.json'',
    ''extensions.json'', ''tasks.json'']"

section \<open>Filters\<close>

definition str_in_list :: "string \<Rightarrow> string list \<Rightarrow> bool" where
  "str_in_list s names \<longleftrightarrow> list_ex (\<lambda>n. strcmp s n = 0) names"

definition disc_ends_with :: "string \<Rightarrow> string \<Rightarrow> bool" where
  "disc_ends_with s suffix \<longleftrightarrow> length suffix \<le> length s \<and> strcmp (drop (length s - length suffix) s) suffix = 0"

definition pmm_should_skip_dir :: "string option \<Rightarrow> index_mode \<Rightarrow> bool" where
  "pmm_should_skip_dir dirname mode =
     (case dirname of
        None \<Rightarrow> False
      | Some d \<Rightarrow>
          if str_in_list d ALWAYS_SKIP_DIRS then True
          else mode \<noteq> PMM_MODE_FULL \<and> str_in_list d FAST_SKIP_DIRS)"

definition pmm_has_ignored_suffix :: "string option \<Rightarrow> index_mode \<Rightarrow> bool" where
  "pmm_has_ignored_suffix filename mode =
     (case filename of
        None \<Rightarrow> False
      | Some f \<Rightarrow>
          if list_ex (disc_ends_with f) ALWAYS_IGNORED_SUFFIXES then True
          else mode \<noteq> PMM_MODE_FULL \<and> list_ex (disc_ends_with f) FAST_IGNORED_SUFFIXES)"

definition pmm_should_skip_filename :: "string option \<Rightarrow> index_mode \<Rightarrow> bool" where
  "pmm_should_skip_filename filename mode =
     (case filename of
        None \<Rightarrow> False
      | Some f \<Rightarrow> mode \<noteq> PMM_MODE_FULL \<and> str_in_list f FAST_SKIP_FILENAMES)"

definition pmm_matches_fast_pattern :: "string option \<Rightarrow> index_mode \<Rightarrow> bool" where
  "pmm_matches_fast_pattern filename mode =
     (case filename of
        None \<Rightarrow> False
      | Some f \<Rightarrow> mode \<noteq> PMM_MODE_FULL \<and> list_ex (str_contains f) FAST_PATTERNS)"

section \<open>The ignore files of git\<close>

fun ascii_ieq :: "string \<Rightarrow> string \<Rightarrow> bool" where
  "ascii_ieq (a # as) (b # bs) = (if c_tolower a \<noteq> c_tolower b then False else ascii_ieq as bs)"
| "ascii_ieq as bs = (as = [] \<and> bs = [])"

definition trim_ws :: "string \<Rightarrow> string" where
  "trim_ws s = rev (dropWhile c_isspace (rev (dropWhile c_isspace s)))"

text \<open>The scan carries the character before the current one, none at the start.\<close>

fun strip_comment_loop :: "char option \<Rightarrow> bool \<Rightarrow> char \<Rightarrow> string \<Rightarrow> string" where
  "strip_comment_loop prev in_quote quote [] = []"
| "strip_comment_loop prev in_quote quote (c # cs) =
     (if (c = CHR 0x22 \<or> c = CHR 0x27) \<and> prev \<noteq> Some (CHR 0x5C) then
        c # (if \<not> in_quote then strip_comment_loop (Some c) True c cs
             else if c = quote then strip_comment_loop (Some c) False quote cs
             else strip_comment_loop (Some c) in_quote quote cs)
      else if \<not> in_quote \<and> (c = CHR ''#'' \<or> c = CHR '';'') \<and> (case prev of None \<Rightarrow> True | Some d \<Rightarrow> c_isspace d)
      then []
      else c # strip_comment_loop (Some c) in_quote quote cs)"

definition strip_inline_comment :: "string \<Rightarrow> string" where
  "strip_inline_comment s = strip_comment_loop None False NUL s"

definition strip_matching_quotes :: "string \<Rightarrow> string" where
  "strip_matching_quotes s =
     (if 2 \<le> length s \<and> (hd s = CHR 0x22 \<and> last s = CHR 0x22 \<or> hd s = CHR 0x27 \<and> last s = CHR 0x27)
      then butlast (tl s) else s)"

definition has_trailing_sep :: "string \<Rightarrow> bool" where
  "has_trailing_sep path \<longleftrightarrow> path \<noteq> [] \<and> (last path = CHR ''/'' \<or> last path = CHR 0x5C)"

definition path_join :: "nat \<Rightarrow> string \<Rightarrow> string \<Rightarrow> string" where
  "path_join out_sz base rel =
     pmm_normalize_path_sep
       (snprintf_buf out_sz
         (if base = [] then rel
          else if rel = [] then base
          else if has_trailing_sep base then base @ rel
          else base @ ''/'' @ rel))"

text \<open>All buffers of paths have 4096 bytes.\<close>

abbreviation SZ_4K :: nat where "SZ_4K \<equiv> 4096"

definition expand_git_path :: "(string \<Rightarrow> string option) \<Rightarrow> string \<Rightarrow> string option" where
  "expand_git_path env path =
     (if path = [] then None
      else
        let normalized = pmm_normalize_path_sep (snprintf_buf SZ_4K path) in
        if normalized = [] then None
        else if hd normalized \<noteq> CHR ''~'' then Some (pmm_normalize_path_sep (snprintf_buf SZ_4K normalized))
        else if tl normalized \<noteq> [] \<and> hd (tl normalized) \<noteq> CHR ''/'' then None
        else (case pmm_get_home_dir env of
                None \<Rightarrow> None
              | Some home \<Rightarrow>
                  if home = [] then None
                  else if tl normalized = [] then Some (pmm_normalize_path_sep (snprintf_buf SZ_4K home))
                  else Some (path_join SZ_4K home (drop 2 normalized))))"

definition core_excludes_step ::
  "(string \<Rightarrow> string option) \<Rightarrow> bool \<times> string option \<Rightarrow> string \<Rightarrow> bool \<times> string option" where
  "core_excludes_step env st line =
     (let (in_core, found) = st; s = trim_ws line in
      if s = [] \<or> hd s = CHR ''#'' \<or> hd s = CHR '';'' then st
      else if hd s = CHR ''['' then
        (if CHR '']'' \<notin> set s then (False, found)
         else (ascii_ieq (trim_ws (takeWhile (\<lambda>c. c \<noteq> CHR '']'') (tl s))) ''core'', found))
      else if \<not> in_core then st
      else (case strchr_at s (CHR ''='') of
              None \<Rightarrow> st
            | Some eq \<Rightarrow>
                let key = trim_ws (takeWhile (\<lambda>c. c \<noteq> CHR ''='') s);
                    value = strip_matching_quotes (trim_ws (strip_inline_comment (trim_ws (tl eq))))
                in if ascii_ieq key ''excludesfile'' \<and> value \<noteq> [] \<and> expand_git_path env value \<noteq> None
                   then (in_core, expand_git_path env value) else st))"

definition read_core_excludes_file ::
  "filesys \<Rightarrow> (string \<Rightarrow> string option) \<Rightarrow> string \<Rightarrow> string option" where
  "read_core_excludes_file fs env config_path =
     (case fs_read fs config_path of
        None \<Rightarrow> None
      | Some content \<Rightarrow> snd (foldl (core_excludes_step env) (False, None) (fgets_lines content)))"

definition resolve_xdg_git_config_dir :: "(string \<Rightarrow> string option) \<Rightarrow> string option" where
  "resolve_xdg_git_config_dir env =
     (if env_buf env ''XDG_CONFIG_HOME'' SZ_4K \<noteq> []
      then Some (pmm_normalize_path_sep (snprintf_buf SZ_4K (env_buf env ''XDG_CONFIG_HOME'' SZ_4K)))
      else (case pmm_get_home_dir env of
              None \<Rightarrow> None
            | Some home \<Rightarrow> if home = [] then None else Some (path_join SZ_4K home ''.config'')))"

definition resolve_global_excludes_path :: "filesys \<Rightarrow> (string \<Rightarrow> string option) \<Rightarrow> string option" where
  "resolve_global_excludes_path fs env =
     (let from_home =
            (case pmm_get_home_dir env of
               Some home \<Rightarrow> if home \<noteq> [] then read_core_excludes_file fs env (path_join SZ_4K home ''.gitconfig'') else None
             | None \<Rightarrow> None)
      in case from_home of
           Some p \<Rightarrow> Some p
         | None \<Rightarrow>
             (case resolve_xdg_git_config_dir env of
                None \<Rightarrow> None
              | Some xdg \<Rightarrow>
                  (case read_core_excludes_file fs env (path_join SZ_4K xdg ''git/config'') of
                     Some p \<Rightarrow> Some p
                   | None \<Rightarrow> Some (path_join SZ_4K xdg ''git/ignore''))))"

definition discover_path_is_absolute :: "string \<Rightarrow> bool" where
  "discover_path_is_absolute path \<longleftrightarrow> path \<noteq> [] \<and> (hd path = CHR ''/'' \<or> hd path = CHR 0x5C)"

text \<open>A path named in a file of git: absolute, or relative to a base.\<close>

definition git_file_path :: "string \<Rightarrow> string \<Rightarrow> string" where
  "git_file_path base val =
     (if discover_path_is_absolute val then pmm_normalize_path_sep (snprintf_buf SZ_4K val)
      else path_join SZ_4K base val)"

fun gitdir_lines :: "string \<Rightarrow> string list \<Rightarrow> string option" where
  "gitdir_lines repo [] = None"
| "gitdir_lines repo (line # ls) =
     (let gs = trim_ws line in
      if starts_with ''gitdir:'' gs then
        (let val = trim_ws (drop 7 gs) in if val \<noteq> [] then Some (git_file_path repo val) else None)
      else gitdir_lines repo ls)"

definition resolve_git_common_dir :: "filesys \<Rightarrow> string \<Rightarrow> string option" where
  "resolve_git_common_dir fs repo_path =
     (let dot_git = snprintf_buf SZ_4K (repo_path @ ''/.git'') in
      case fs_stat fs dot_git of
        None \<Rightarrow> None
      | Some (kind, _) \<Rightarrow>
          if kind = Directory then Some (pmm_normalize_path_sep dot_git)
          else if kind \<noteq> Regular then None
          else (case fs_read fs dot_git of
                  None \<Rightarrow> None
                | Some content \<Rightarrow>
                    (case gitdir_lines repo_path (fgets_lines content) of
                       None \<Rightarrow> None
                     | Some git_dir \<Rightarrow>
                         (case fs_read fs (path_join SZ_4K git_dir ''commondir'') of
                            None \<Rightarrow> Some (pmm_normalize_path_sep git_dir)
                          | Some cf \<Rightarrow>
                              (case fgets_lines cf of
                                 [] \<Rightarrow> Some (pmm_normalize_path_sep git_dir)
                               | cbuf # _ \<Rightarrow>
                                   if trim_ws cbuf \<noteq> [] then Some (git_file_path git_dir (trim_ws cbuf))
                                   else Some (pmm_normalize_path_sep git_dir))))))"

end
