(* ===== verification/Disc_Walk.thy ===== *)
theory Disc_Walk
  imports Discover "HOL-Library.Multiset"
begin

text \<open>
  The walk of the file discovery, src/src/discover/discover.c: the list of files with its limits,
  the decision on a directory and a file, the loop over the stack of directories, and the entry
  points.  The loop ends on every file system, since a pushed path is longer than its parent and
  shorter than its buffer.
\<close>

section \<open>The list of files\<close>

record file_info =
  fi_path :: string
  fi_rel_path :: string
  fi_language :: cbm_language
  fi_size :: int

record discover_opts =
  do_mode :: index_mode
  do_ignore_file :: "string option"
  do_max_file_size :: int

text \<open>\<open>fl_ticks\<close> counts the readings of the clock.\<close>

record file_list =
  fl_files :: "file_info list"
  fl_count :: int
  fl_max_files :: int
  fl_deadline_ms :: int
  fl_count_only :: bool
  fl_collect_excluded :: bool
  fl_limit_exceeded :: bool
  fl_failed :: bool
  fl_excluded :: "string list"
  fl_collect_ignored :: bool
  fl_ignored :: "(string \<times> string) list"
  fl_ignored_total :: int
  fl_ticks :: nat

text \<open>What the walk reads and never changes.\<close>

record walk_ctx =
  wc_fs :: filesys
  wc_ucfg :: "userconfig option"
  wc_clock :: "nat \<Rightarrow> int"
  wc_opts :: "discover_opts option"
  wc_gitignore :: "gitignore option"
  wc_global_gi :: "gitignore option"
  wc_pmmignore :: "gitignore option"

definition file_list_should_stop :: "walk_ctx \<Rightarrow> file_list \<Rightarrow> bool \<times> file_list" where
  "file_list_should_stop ctx fl =
     (let fl1 = (if \<not> fl_failed fl \<and> fl_deadline_ms fl \<noteq> 0
                 then fl\<lparr>fl_failed := fl_deadline_ms fl \<le> wc_clock ctx (fl_ticks fl), fl_ticks := Suc (fl_ticks fl)\<rparr>
                 else fl)
      in (fl_failed fl1 \<or> fl_limit_exceeded fl1, fl1))"

definition file_list_add_excluded :: "file_list \<Rightarrow> string \<Rightarrow> file_list" where
  "file_list_add_excluded fl rel_path =
     (if \<not> fl_collect_excluded fl \<or> rel_path = [] then fl
      else fl\<lparr>fl_excluded := fl_excluded fl @ [rel_path]\<rparr>)"

abbreviation PMM_DISCOVER_IGNORED_CAP :: nat where "PMM_DISCOVER_IGNORED_CAP \<equiv> 2000"

definition file_list_add_ignored :: "file_list \<Rightarrow> string \<Rightarrow> string \<Rightarrow> file_list" where
  "file_list_add_ignored fl rel_path reason =
     (if \<not> fl_collect_ignored fl \<or> rel_path = [] then fl
      else
        let fl1 = fl\<lparr>fl_ignored_total := fl_ignored_total fl + 1\<rparr> in
        if PMM_DISCOVER_IGNORED_CAP \<le> length (fl_ignored fl1) then fl1
        else fl1\<lparr>fl_ignored := fl_ignored fl1 @ [(rel_path, reason)]\<rparr>)"

definition fl_add :: "file_list \<Rightarrow> string \<Rightarrow> string \<Rightarrow> cbm_language \<Rightarrow> int \<Rightarrow> file_list" where
  "fl_add fl abs_path rel_path lang sz =
     (if 0 \<le> fl_max_files fl \<and> fl_max_files fl \<le> fl_count fl then fl\<lparr>fl_limit_exceeded := True\<rparr>
      else if fl_count_only fl then fl\<lparr>fl_count := fl_count fl + 1\<rparr>
      else fl\<lparr>fl_files := fl_files fl @ [\<lparr>fi_path = abs_path, fi_rel_path = rel_path, fi_language = lang, fi_size = sz\<rparr>],
              fl_count := fl_count fl + 1\<rparr>)"

section \<open>Deciding on an entry\<close>

definition local_rel_path :: "string \<Rightarrow> string \<Rightarrow> string" where
  "local_rel_path rel_path local_prefix =
     (if local_prefix = [] then rel_path
      else if starts_with local_prefix rel_path \<and> drop (length local_prefix) rel_path \<noteq> [] \<and>
              hd (drop (length local_prefix) rel_path) = CHR ''/''
      then tl (drop (length local_prefix) rel_path)
      else rel_path)"

definition is_safety_core_dir :: "string \<Rightarrow> bool" where
  "is_safety_core_dir name = str_in_list name [''.git'', ''node_modules'', ''.worktrees'', ''.claude-worktrees'']"

definition opts_mode :: "discover_opts option \<Rightarrow> index_mode" where
  "opts_mode opts = (case opts of Some o' \<Rightarrow> do_mode o' | None \<Rightarrow> PMM_MODE_FULL)"

text \<open>\<open>local_gi\<close> is the nested ignore file of the directory, when there is one, and the prefix it is
  relative to.\<close>

definition local_ignores :: "gitignore option \<Rightarrow> string \<Rightarrow> string \<Rightarrow> bool \<Rightarrow> bool" where
  "local_ignores local_gi local_prefix rel_path is_dir \<longleftrightarrow>
     local_gi \<noteq> None \<and> pmm_gitignore_matches local_gi (Some (local_rel_path rel_path local_prefix)) is_dir"

definition should_skip_directory :: "walk_ctx \<Rightarrow> string \<Rightarrow> string \<Rightarrow> gitignore option \<Rightarrow> string \<Rightarrow> bool" where
  "should_skip_directory ctx entry_name rel_path local_gi local_prefix =
     (let pmm_result = pmm_gitignore_match_result (wc_pmmignore ctx) (Some rel_path) True;
          unskipped = (wc_pmmignore ctx \<noteq> None \<and> \<not> is_safety_core_dir entry_name \<and> pmm_result < 0)
      in if pmm_should_skip_dir (Some entry_name) (opts_mode (wc_opts ctx)) \<and> \<not> unskipped then True
         else if wc_gitignore ctx \<noteq> None \<and> pmm_gitignore_matches (wc_gitignore ctx) (Some rel_path) True then True
         else
           let global_ignored = (wc_global_gi ctx \<noteq> None \<and> pmm_gitignore_matches (wc_global_gi ctx) (Some rel_path) True)
           in if local_ignores local_gi local_prefix rel_path True then True
              else if wc_pmmignore ctx \<noteq> None \<and> 0 < pmm_result then True
              else if wc_pmmignore ctx \<noteq> None \<and> pmm_result < 0 \<and> global_ignored then False
              else global_ignored)"

definition file_skip_reason :: "walk_ctx \<Rightarrow> string \<Rightarrow> string \<Rightarrow> gitignore option \<Rightarrow> string \<Rightarrow> int \<Rightarrow> string option" where
  "file_skip_reason ctx entry_name rel_path local_gi local_prefix file_size =
     (let mode = opts_mode (wc_opts ctx) in
      if pmm_has_ignored_suffix (Some entry_name) mode then Some ''ignored-suffix''
      else if pmm_should_skip_filename (Some entry_name) mode then Some ''skip-list''
      else if pmm_matches_fast_pattern (Some entry_name) mode then Some ''fast-pattern''
      else if wc_gitignore ctx \<noteq> None \<and> pmm_gitignore_matches (wc_gitignore ctx) (Some rel_path) False then Some ''gitignore''
      else
        let global_ignored = (wc_global_gi ctx \<noteq> None \<and> pmm_gitignore_matches (wc_global_gi ctx) (Some rel_path) False)
        in if local_ignores local_gi local_prefix rel_path False then Some ''gitignore''
           else
             let pmm_result = pmm_gitignore_match_result (wc_pmmignore ctx) (Some rel_path) False
             in if wc_pmmignore ctx \<noteq> None \<and> 0 < pmm_result then Some ''pmmignore''
                else
                  let global_ignored1 = (if wc_pmmignore ctx \<noteq> None \<and> pmm_result < 0 \<and> global_ignored then False
                                         else global_ignored)
                  in if (case wc_opts ctx of None \<Rightarrow> False
                         | Some o' \<Rightarrow> 0 < do_max_file_size o' \<and> do_max_file_size o' < file_size)
                     then Some ''size-cap''
                     else if global_ignored1 then Some ''gitignore'' else None)"

definition detect_file_language :: "walk_ctx \<Rightarrow> string \<Rightarrow> string \<Rightarrow> cbm_language" where
  "detect_file_language ctx entry_name abs_path =
     (let fs = wc_fs ctx; lang0 = pmm_language_for_filename (wc_ucfg ctx) (Some entry_name) in
      if lang0 = lang_count then lang_count
      else
        let dot = strrchr_at entry_name (CHR ''.'');
            lang1 = (if dot = Some ''.m'' then pmm_disambiguate_m fs (Some abs_path) else lang0);
            lang2 = (if dot = Some ''.cls'' then pmm_disambiguate_cls fs (Some abs_path) else lang1);
            lang = (if dot = Some ''.inc'' then pmm_disambiguate_inc fs (Some abs_path) else lang2);
            export_mark = ''<Export generator=''
        in if lang = ''XML'' \<and>
              (case fs_read fs abs_path of None \<Rightarrow> False
               | Some content \<Rightarrow> strstr (cstr (take 255 content)) export_mark \<noteq> None)
           then ''OBJECTSCRIPT_EXPORT''
           else if lang = ''JSON'' \<and> str_in_list entry_name IGNORED_JSON_FILES then lang_count
           else lang)"

text \<open>A symbolic link has no usable status.\<close>

definition safe_stat :: "filesys \<Rightarrow> string \<Rightarrow> (file_kind \<times> int) option" where
  "safe_stat fs abs_path =
     (case fs_lstat fs abs_path of
        None \<Rightarrow> None
      | Some (kind, sz) \<Rightarrow> if kind = Symlink then None else Some (kind, sz))"

section \<open>The walk\<close>

record walk_frame =
  wf_dir :: string
  wf_prefix :: string
  wf_local_gi :: "gitignore option"
  wf_local_gi_prefix :: string

definition walk_dir_process_file ::
  "walk_ctx \<Rightarrow> string \<Rightarrow> string \<Rightarrow> string \<Rightarrow> gitignore option \<Rightarrow> string \<Rightarrow> int \<Rightarrow> file_list \<Rightarrow> file_list" where
  "walk_dir_process_file ctx abs_path rel_path name local_gi local_prefix sz out =
     (case file_skip_reason ctx name rel_path local_gi local_prefix sz of
        Some reason \<Rightarrow> file_list_add_ignored out rel_path reason
      | None \<Rightarrow>
          let lang = detect_file_language ctx name abs_path in
          if lang = lang_count then out else fl_add out abs_path rel_path lang sz)"

definition try_load_nested_gitignore :: "walk_ctx \<Rightarrow> walk_frame \<Rightarrow> gitignore option" where
  "try_load_nested_gitignore ctx frame =
     (if wf_local_gi frame \<noteq> None \<or> wf_prefix frame = [] then None
      else
        let gi_path = snprintf_buf SZ_4K (wf_dir frame @ ''/.gitignore'') in
        case fs_stat (wc_fs ctx) gi_path of
          Some (Regular, _) \<Rightarrow> pmm_gitignore_load (fs_read (wc_fs ctx)) (Some gi_path)
        | _ \<Rightarrow> None)"

text \<open>The head of the list is the top of the stack.\<close>

definition walk_push_subdir ::
  "walk_frame list \<Rightarrow> string \<Rightarrow> string \<Rightarrow> walk_frame \<Rightarrow> file_list \<Rightarrow> walk_frame list \<times> file_list" where
  "walk_push_subdir ws abs_path rel_path parent out =
     (if abs_path = [] \<or> SZ_4K \<le> length abs_path \<or> SZ_4K \<le> length rel_path then (ws, out\<lparr>fl_failed := True\<rparr>)
      else if SZ_4K \<le> length (wf_local_gi_prefix parent) then (ws, out\<lparr>fl_failed := True\<rparr>)
      else (\<lparr>wf_dir = abs_path, wf_prefix = rel_path, wf_local_gi = wf_local_gi parent,
             wf_local_gi_prefix = wf_local_gi_prefix parent\<rparr> # ws, out))"

definition entry_abs :: "walk_frame \<Rightarrow> string \<Rightarrow> string" where
  "entry_abs frame name = wf_dir frame @ ''/'' @ name"

definition entry_rel :: "walk_frame \<Rightarrow> string \<Rightarrow> string" where
  "entry_rel frame name = (if wf_prefix frame \<noteq> [] then wf_prefix frame @ ''/'' @ name else name)"

definition walk_dir_process_entry ::
  "walk_ctx \<Rightarrow> walk_frame \<Rightarrow> string \<Rightarrow> walk_frame list \<Rightarrow> file_list \<Rightarrow> walk_frame list \<times> file_list" where
  "walk_dir_process_entry ctx frame name ws out =
     (let abs_path = entry_abs frame name; rel_path = entry_rel frame name in
      if SZ_4K \<le> length abs_path \<or> rel_path = [] \<or> SZ_4K \<le> length rel_path then (ws, out\<lparr>fl_failed := True\<rparr>)
      else (case safe_stat (wc_fs ctx) abs_path of
              None \<Rightarrow> (ws, if fl_count_only out then out\<lparr>fl_failed := True\<rparr> else out)
            | Some (kind, sz) \<Rightarrow>
                if kind = Directory then
                  (if \<not> should_skip_directory ctx name rel_path (wf_local_gi frame) (wf_local_gi_prefix frame)
                   then walk_push_subdir ws abs_path rel_path frame out
                   else (ws, file_list_add_excluded out rel_path))
                else if kind = Regular then
                  (ws, walk_dir_process_file ctx abs_path rel_path name (wf_local_gi frame) (wf_local_gi_prefix frame) sz out)
                else (ws, out)))"

fun entry_loop ::
  "walk_ctx \<Rightarrow> walk_frame \<Rightarrow> string list \<Rightarrow> walk_frame list \<Rightarrow> file_list \<Rightarrow> walk_frame list \<times> file_list" where
  "entry_loop ctx frame [] ws out = (ws, snd (file_list_should_stop ctx out))"
| "entry_loop ctx frame (name # names) ws out =
     (let (stop, out1) = file_list_should_stop ctx out in
      if stop then (ws, out1)
      else let (ws1, out2) = walk_dir_process_entry ctx frame name ws out1 in entry_loop ctx frame names ws1 out2)"

text \<open>The frame with the ignore file of its directory.\<close>

definition load_frame :: "walk_ctx \<Rightarrow> walk_frame \<Rightarrow> walk_frame" where
  "load_frame ctx frame =
     (case try_load_nested_gitignore ctx frame of
        None \<Rightarrow> frame
      | Some gi \<Rightarrow> frame\<lparr>wf_local_gi := Some gi, wf_local_gi_prefix := wf_prefix frame\<rparr>)"

definition walk_step :: "walk_ctx \<Rightarrow> walk_frame \<Rightarrow> walk_frame list \<Rightarrow> file_list \<Rightarrow> walk_frame list \<times> file_list" where
  "walk_step ctx frame ws out =
     (case fs_readdir (wc_fs ctx) (wf_dir frame) of
        None \<Rightarrow> (ws, if fl_count_only out then out\<lparr>fl_failed := True\<rparr> else out)
      | Some names \<Rightarrow> entry_loop ctx (load_frame ctx frame) (pmm_readdir names) ws out)"

definition deeper :: "walk_frame \<Rightarrow> walk_frame \<Rightarrow> bool" where
  "deeper parent f \<longleftrightarrow> length (wf_dir parent) < length (wf_dir f) \<and> length (wf_dir f) < SZ_4K"

lemma walk_dir_process_entry_deeper:
  "\<exists>new. fst (walk_dir_process_entry ctx frame name ws out) = new @ ws \<and> list_all (deeper frame) new"
proof -
  have "\<exists>new. f # ws = new @ ws \<and> list_all (deeper frame) new" if "deeper frame f" for f
    using that by (intro exI[of _ "[f]"]) simp
  then show ?thesis
    by (auto simp: walk_dir_process_entry_def walk_push_subdir_def Let_def deeper_def entry_abs_def split: option.splits)
qed

lemma entry_loop_deeper:
  "\<exists>new. fst (entry_loop ctx frame names ws out) = new @ ws \<and> list_all (deeper frame) new"
proof (induction names arbitrary: ws out)
  case (Cons name names)
  obtain stop out1 where s: "file_list_should_stop ctx out = (stop, out1)"
    by fastforce
  obtain ws1 out2 where e: "walk_dir_process_entry ctx frame name ws out1 = (ws1, out2)"
    by fastforce
  obtain new where "ws1 = new @ ws" "list_all (deeper frame) new"
    using walk_dir_process_entry_deeper[of ctx frame name ws out1] e by auto
  moreover obtain new' where "fst (entry_loop ctx frame names ws1 out2) = new' @ ws1" "list_all (deeper frame) new'"
    using Cons by blast
  ultimately show ?case
    by (cases stop) (auto simp: s e intro: exI[of _ "new' @ new"])
qed simp

lemma walk_step_deeper:
  "\<exists>new. fst (walk_step ctx frame ws out) = new @ ws \<and> list_all (deeper frame) new"
proof (cases "fs_readdir (wc_fs ctx) (wf_dir frame)")
  case (Some names)
  have "wf_dir (load_frame ctx frame) = wf_dir frame"
    by (simp add: load_frame_def split: option.splits)
  then have "deeper (load_frame ctx frame) = deeper frame"
    by (simp add: deeper_def fun_eq_iff)
  then show ?thesis
    using entry_loop_deeper[of ctx "load_frame ctx frame" "pmm_readdir names" ws out] by (simp add: walk_step_def Some)
qed (simp add: walk_step_def)

function walk_loop :: "walk_ctx \<Rightarrow> walk_frame list \<Rightarrow> file_list \<Rightarrow> file_list" where
  "walk_loop ctx ws out =
     (case ws of
        [] \<Rightarrow> out
      | frame # rest \<Rightarrow>
          let stopped = file_list_should_stop ctx out in
          if fst stopped then snd stopped
          else let step = walk_step ctx frame rest (snd stopped) in walk_loop ctx (fst step) (snd step))"
  by pat_completeness auto
termination
proof (relation "inv_image (mult less_than) (\<lambda>(ctx, ws, out). image_mset (\<lambda>f. SZ_4K - length (wf_dir f)) (mset ws))")
  show "wf (inv_image (mult less_than) (\<lambda>(ctx, ws, out). image_mset (\<lambda>f. SZ_4K - length (wf_dir f)) (mset ws)))"
    by (intro wf_inv_image wf_mult wf_less_than)
next
  fix ctx :: walk_ctx and ws rest :: "walk_frame list" and out frame stopped step
  assume "ws = frame # rest" "step = walk_step ctx frame rest (snd stopped)"
  moreover obtain new where "fst (walk_step ctx frame rest (snd stopped)) = new @ rest" "list_all (deeper frame) new"
    using walk_step_deeper by blast
  moreover from this have "(image_mset (\<lambda>f. SZ_4K - length (wf_dir f)) (mset rest) + image_mset (\<lambda>f. SZ_4K - length (wf_dir f)) (mset new),
      image_mset (\<lambda>f. SZ_4K - length (wf_dir f)) (mset rest) + {#SZ_4K - length (wf_dir frame)#}) \<in> mult less_than"
    by (intro one_step_implies_mult) (auto simp: deeper_def list_all_iff)
  ultimately show "((ctx, fst step, snd step), ctx, ws, out)
      \<in> inv_image (mult less_than) (\<lambda>(ctx, ws, out). image_mset (\<lambda>f. SZ_4K - length (wf_dir f)) (mset ws))"
    by (simp add: ac_simps)
qed

declare walk_loop.simps [simp del]

definition walk_dir :: "walk_ctx \<Rightarrow> string \<Rightarrow> string \<Rightarrow> file_list \<Rightarrow> file_list" where
  "walk_dir ctx dir_path rel_prefix out =
     (if dir_path = [] \<or> SZ_4K \<le> length dir_path \<or> SZ_4K \<le> length rel_prefix then out\<lparr>fl_failed := True\<rparr>
      else walk_loop ctx [\<lparr>wf_dir = dir_path, wf_prefix = rel_prefix, wf_local_gi = None, wf_local_gi_prefix = []\<rparr>] out)"

section \<open>Entry points\<close>

datatype discover_status = PMM_DISCOVER_ERROR | PMM_DISCOVER_OK | PMM_DISCOVER_LIMIT_EXCEEDED

text \<open>The status and the out-parameters; the lists are empty where the code stores NULL.\<close>

record discover_result =
  ds_status :: discover_status
  ds_files :: "file_info list"
  ds_count :: int
  ds_excluded :: "string list"
  ds_ignored :: "(string \<times> string) list"
  ds_ignored_total :: int

definition discover_error :: discover_result where
  "discover_error = \<lparr>ds_status = PMM_DISCOVER_ERROR, ds_files = [], ds_count = 0, ds_excluded = [],
     ds_ignored = [], ds_ignored_total = 0\<rparr>"

text \<open>The surroundings of a call.\<close>

record disc_env =
  de_fs :: filesys
  de_env :: "string \<Rightarrow> string option"
  de_ucfg :: "userconfig option"
  de_clock :: "nat \<Rightarrow> int"

text \<open>The ignore rules of a repository: its .gitignore with the excludes of its git directory, and those of
  the user, read only when the repository has a git configuration.\<close>

definition load_gitignore :: "disc_env \<Rightarrow> string \<Rightarrow> gitignore option" where
  "load_gitignore de repo_path =
     (let fs = de_fs de;
          gitignore = pmm_gitignore_load (fs_read fs) (Some (snprintf_buf SZ_4K (repo_path @ ''/.gitignore'')))
      in case resolve_git_common_dir fs repo_path of
           None \<Rightarrow> gitignore
         | Some common \<Rightarrow>
             (case pmm_gitignore_load (fs_read fs) (Some (path_join SZ_4K common ''info/exclude'')) of
                None \<Rightarrow> gitignore
              | Some git_exclude \<Rightarrow>
                  if gitignore = None then Some git_exclude
                  else snd (pmm_gitignore_merge True (\<lambda>k. Some) gitignore (Some git_exclude))))"

definition load_global_gi :: "disc_env \<Rightarrow> string \<Rightarrow> gitignore option" where
  "load_global_gi de repo_path =
     (let fs = de_fs de in
      case resolve_git_common_dir fs repo_path of
        None \<Rightarrow> None
      | Some common \<Rightarrow>
          (case fs_stat fs (path_join SZ_4K common ''config'') of
             Some (Regular, _) \<Rightarrow>
               (case resolve_global_excludes_path fs (de_env de) of
                  None \<Rightarrow> None
                | Some p \<Rightarrow> pmm_gitignore_load (fs_read fs) (Some p))
           | _ \<Rightarrow> None))"

definition load_pmmignore :: "disc_env \<Rightarrow> string \<Rightarrow> discover_opts option \<Rightarrow> gitignore option" where
  "load_pmmignore de repo_path opts =
     (case Option.bind opts do_ignore_file of
        Some p \<Rightarrow> pmm_gitignore_load (fs_read (de_fs de)) (Some p)
      | None \<Rightarrow> pmm_gitignore_load (fs_read (de_fs de)) (Some (snprintf_buf SZ_4K (repo_path @ ''/.pmmignore''))))"

definition discover_ctx :: "disc_env \<Rightarrow> string \<Rightarrow> discover_opts option \<Rightarrow> walk_ctx" where
  "discover_ctx de repo_path opts =
     \<lparr>wc_fs = de_fs de, wc_ucfg = de_ucfg de, wc_clock = de_clock de, wc_opts = opts,
      wc_gitignore = load_gitignore de repo_path, wc_global_gi = load_global_gi de repo_path,
      wc_pmmignore = load_pmmignore de repo_path opts\<rparr>"

definition init_file_list :: "bool \<Rightarrow> bool \<Rightarrow> bool \<Rightarrow> int \<Rightarrow> int \<Rightarrow> file_list" where
  "init_file_list want_excluded want_ignored count_only max_files deadline_ms =
     \<lparr>fl_files = [], fl_count = 0, fl_max_files = (if count_only then max_files else -1),
      fl_deadline_ms = (if count_only then deadline_ms else 0), fl_count_only = count_only,
      fl_collect_excluded = (\<not> count_only \<and> want_excluded), fl_limit_exceeded = False, fl_failed = False,
      fl_excluded = [], fl_collect_ignored = (\<not> count_only \<and> want_ignored), fl_ignored = [],
      fl_ignored_total = 0, fl_ticks = 0\<rparr>"

definition discover_impl ::
  "disc_env \<Rightarrow> string option \<Rightarrow> discover_opts option \<Rightarrow> bool \<Rightarrow> bool \<Rightarrow> bool \<Rightarrow> int \<Rightarrow> int \<Rightarrow> discover_result" where
  "discover_impl de repo opts want_excluded want_ignored count_only max_files deadline_ms =
     (case repo of
        None \<Rightarrow> discover_error
      | Some repo_path \<Rightarrow>
          if count_only \<and> max_files < 0 then discover_error
          else (case fs_stat (de_fs de) repo_path of
                  Some (Directory, _) \<Rightarrow>
                    let fl = walk_dir (discover_ctx de repo_path opts) repo_path []
                               (init_file_list want_excluded want_ignored count_only max_files deadline_ms)
                    in if count_only then
                         discover_error\<lparr>ds_status := (if fl_failed fl then PMM_DISCOVER_ERROR
                                                      else if fl_limit_exceeded fl then PMM_DISCOVER_LIMIT_EXCEEDED
                                                      else PMM_DISCOVER_OK),
                                        ds_count := fl_count fl\<rparr>
                       else if fl_failed fl then discover_error
                       else \<lparr>ds_status = PMM_DISCOVER_OK, ds_files = fl_files fl, ds_count = fl_count fl,
                             ds_excluded = (if want_excluded then fl_excluded fl else []),
                             ds_ignored = (if want_ignored then fl_ignored fl else []),
                             ds_ignored_total = (if want_ignored then fl_ignored_total fl else 0)\<rparr>
                | _ \<Rightarrow> discover_error))"

definition pmm_discover_ex2 :: "disc_env \<Rightarrow> string option \<Rightarrow> discover_opts option \<Rightarrow> bool \<Rightarrow> bool \<Rightarrow> discover_result" where
  "pmm_discover_ex2 de repo opts want_excluded want_ignored =
     discover_impl de repo opts want_excluded want_ignored False 0 0"

definition pmm_discover_ex :: "disc_env \<Rightarrow> string option \<Rightarrow> discover_opts option \<Rightarrow> bool \<Rightarrow> discover_result" where
  "pmm_discover_ex de repo opts want_excluded = pmm_discover_ex2 de repo opts want_excluded False"

definition pmm_discover :: "disc_env \<Rightarrow> string option \<Rightarrow> discover_opts option \<Rightarrow> discover_result" where
  "pmm_discover de repo opts = pmm_discover_ex de repo opts False"

text \<open>The status and the count, -1 when it failed.\<close>

definition pmm_discover_count_bounded ::
  "disc_env \<Rightarrow> string option \<Rightarrow> discover_opts option \<Rightarrow> int \<Rightarrow> int \<Rightarrow> discover_status \<times> int" where
  "pmm_discover_count_bounded de repo opts max_files deadline_ms =
     (if repo = None \<or> max_files < 0 then (PMM_DISCOVER_ERROR, -1)
      else
        let r = discover_impl de repo opts False False True max_files deadline_ms in
        (ds_status r, if ds_status r = PMM_DISCOVER_ERROR then -1 else ds_count r))"

end
