(* ===== verification/Disc_Walk_Facts.thy ===== *)
theory Disc_Walk_Facts
  imports Disc_Walk
begin

text \<open>
  The walk of the discovery (src/src/discover/discover.c) as a run over the items of the tree: what
  each entry of a directory is, the items of a directory tree in the order of the walk, and the
  proof that the loop over the stack is the run over these items.
\<close>

section \<open>Items\<close>

text \<open>What an entry of a directory is to the walk.\<close>

datatype item =
  Found file_info
| Excluded string
| Ignored string string
| Subdir walk_frame
| Overlong
| Unreadable
| Unsupported

definition entry_item :: "walk_ctx \<Rightarrow> walk_frame \<Rightarrow> string \<Rightarrow> item" where
  "entry_item ctx frame name =
     (let abs_path = entry_abs frame name; rel_path = entry_rel frame name in
      if SZ_4K \<le> length abs_path \<or> rel_path = [] \<or> SZ_4K \<le> length rel_path then Overlong
      else (case safe_stat (wc_fs ctx) abs_path of
              None \<Rightarrow> Unreadable
            | Some (kind, sz) \<Rightarrow>
                if kind = Directory then
                  (if should_skip_directory ctx name rel_path (wf_local_gi frame) (wf_local_gi_prefix frame)
                   then Excluded rel_path
                   else if SZ_4K \<le> length (wf_local_gi_prefix frame) then Overlong
                   else Subdir \<lparr>wf_dir = abs_path, wf_prefix = rel_path, wf_local_gi = wf_local_gi frame,
                                wf_local_gi_prefix = wf_local_gi_prefix frame\<rparr>)
                else if kind = Regular then
                  (case file_skip_reason ctx name rel_path (wf_local_gi frame) (wf_local_gi_prefix frame) sz of
                     Some reason \<Rightarrow> Ignored rel_path reason
                   | None \<Rightarrow>
                       let lang = detect_file_language ctx name abs_path in
                       if lang = lang_count then Unsupported
                       else Found \<lparr>fi_path = abs_path, fi_rel_path = rel_path, fi_language = lang, fi_size = sz\<rparr>)
                else Unsupported))"

definition apply_item :: "item \<Rightarrow> file_list \<Rightarrow> file_list" where
  "apply_item it fl =
     (case it of
        Found fi \<Rightarrow> fl_add fl (fi_path fi) (fi_rel_path fi) (fi_language fi) (fi_size fi)
      | Excluded p \<Rightarrow> file_list_add_excluded fl p
      | Ignored p reason \<Rightarrow> file_list_add_ignored fl p reason
      | Overlong \<Rightarrow> fl\<lparr>fl_failed := True\<rparr>
      | Unreadable \<Rightarrow> if fl_count_only fl then fl\<lparr>fl_failed := True\<rparr> else fl
      | _ \<Rightarrow> fl)"

definition item_frames :: "item \<Rightarrow> walk_frame list" where
  "item_frames it = (case it of Subdir f \<Rightarrow> [f] | _ \<Rightarrow> [])"

lemma process_entry_item:
  "walk_dir_process_entry ctx frame name ws out =
     (item_frames (entry_item ctx frame name) @ ws, apply_item (entry_item ctx frame name) out)"
  by (auto simp: walk_dir_process_entry_def entry_item_def walk_push_subdir_def walk_dir_process_file_def
      apply_item_def item_frames_def entry_abs_def Let_def split: option.splits)

section \<open>The items of a tree\<close>

text \<open>The items of one directory; a directory that cannot be opened is a single one.\<close>

definition dir_items :: "walk_ctx \<Rightarrow> walk_frame \<Rightarrow> item list" where
  "dir_items ctx frame =
     (case fs_readdir (wc_fs ctx) (wf_dir frame) of
        None \<Rightarrow> [Unreadable]
      | Some names \<Rightarrow> map (entry_item ctx (load_frame ctx frame)) (pmm_readdir names))"

definition sub_frames :: "walk_ctx \<Rightarrow> walk_frame \<Rightarrow> walk_frame list" where
  "sub_frames ctx frame = rev (concat (map item_frames (dir_items ctx frame)))"

lemma wf_dir_load_frame [simp]: "wf_dir (load_frame ctx frame) = wf_dir frame"
  by (simp add: load_frame_def split: option.splits)

lemma wf_prefix_load_frame [simp]: "wf_prefix (load_frame ctx frame) = wf_prefix frame"
  by (simp add: load_frame_def split: option.splits)

lemma entry_item_Subdir:
  "entry_item ctx frame name = Subdir f \<Longrightarrow>
   wf_dir f = entry_abs frame name \<and> wf_prefix f = entry_rel frame name \<and> length (entry_abs frame name) < SZ_4K \<and>
   \<not> should_skip_directory ctx name (entry_rel frame name) (wf_local_gi frame) (wf_local_gi_prefix frame)"
  by (auto simp: entry_item_def Let_def split: if_splits option.splits prod.splits)

lemma sub_framesE:
  assumes "f \<in> set (sub_frames ctx frame)"
  obtains names name where "fs_readdir (wc_fs ctx) (wf_dir frame) = Some names" "name \<in> set (pmm_readdir names)"
    "entry_item ctx (load_frame ctx frame) name = Subdir f"
  using assms by (auto simp: sub_frames_def dir_items_def item_frames_def split: option.splits item.splits)

lemma sub_frames_deeper: "f \<in> set (sub_frames ctx frame) \<Longrightarrow> deeper frame f"
  by (erule sub_framesE) (auto simp: deeper_def entry_abs_def dest: entry_item_Subdir)

text \<open>The items of the directory, then those of its subdirectories, the last one first.\<close>

function tree_items :: "walk_ctx \<Rightarrow> walk_frame \<Rightarrow> item list" where
  "tree_items ctx frame = dir_items ctx frame @ concat (map (tree_items ctx) (sub_frames ctx frame))"
  by pat_completeness auto
termination
proof (relation "measure (\<lambda>(ctx, f). SZ_4K - length (wf_dir f))")
  fix ctx frame f
  assume "f \<in> set (sub_frames ctx frame)"
  from sub_frames_deeper[OF this] show "((ctx, f), ctx, frame) \<in> measure (\<lambda>(ctx, f). SZ_4K - length (wf_dir f))"
    by (auto simp: deeper_def)
qed simp

declare tree_items.simps [simp del]

section \<open>Runs over items\<close>

definition stopped :: "file_list \<Rightarrow> bool" where
  "stopped fl \<longleftrightarrow> fl_failed fl \<or> fl_limit_exceeded fl"

definition item_step :: "file_list \<Rightarrow> item \<Rightarrow> file_list" where
  "item_step fl it = (if stopped fl then fl else apply_item it fl)"

definition run_items :: "file_list \<Rightarrow> item list \<Rightarrow> file_list" where
  "run_items fl its = foldl item_step fl its"

lemma run_items_simps [simp]:
  "run_items fl [] = fl"
  "run_items fl (it # its) = run_items (item_step fl it) its"
  "run_items fl (its @ its') = run_items (run_items fl its) its'"
  by (simp_all add: run_items_def)

lemma run_items_stopped: "stopped fl \<Longrightarrow> run_items fl its = fl"
  by (induction its) (simp_all add: item_step_def)

text \<open>The state without its clock.\<close>

definition untimed :: "file_list \<Rightarrow> file_list" where
  "untimed fl = fl\<lparr>fl_deadline_ms := 0, fl_ticks := 0\<rparr>"

lemma untimed_simps [simp]:
  "fl_failed (untimed fl) = fl_failed fl" "fl_limit_exceeded (untimed fl) = fl_limit_exceeded fl"
  "stopped (untimed fl) = stopped fl"
  by (simp_all add: untimed_def stopped_def)

lemma apply_item_untimed: "untimed (apply_item it fl) = apply_item it (untimed fl)"
  by (cases it) (simp_all add: apply_item_def untimed_def fl_add_def file_list_add_excluded_def
      file_list_add_ignored_def Let_def)

lemma apply_item_deadline [simp]: "fl_deadline_ms (apply_item it fl) = fl_deadline_ms fl"
  by (cases it) (simp_all add: apply_item_def fl_add_def file_list_add_excluded_def file_list_add_ignored_def Let_def)

lemma apply_item_failed: "fl_failed fl \<Longrightarrow> fl_failed (apply_item it fl)"
  by (cases it) (simp_all add: apply_item_def fl_add_def file_list_add_excluded_def file_list_add_ignored_def Let_def)

text \<open>Two states of the walk agree with a run: up to the clock, or the deadline has passed.\<close>

definition agrees :: "file_list \<Rightarrow> file_list \<Rightarrow> bool" where
  "agrees fl rn \<longleftrightarrow> untimed fl = rn \<or> fl_deadline_ms fl \<noteq> 0 \<and> fl_failed fl"

lemma should_stop_agrees:
  assumes "file_list_should_stop ctx fl = (stop, fl1)"
  shows "fl_deadline_ms fl1 = fl_deadline_ms fl" "stop \<longleftrightarrow> stopped fl1"
    "untimed fl1 = untimed fl \<or> fl_deadline_ms fl \<noteq> 0 \<and> fl_failed fl1"
  using assms by (auto simp: file_list_should_stop_def stopped_def untimed_def Let_def split: if_splits)

lemma should_stop_failed: "fl_failed fl \<Longrightarrow> fl_failed (snd (file_list_should_stop ctx fl)) \<and> fst (file_list_should_stop ctx fl)"
  by (simp add: file_list_should_stop_def)

lemma entry_loop_failed: "fl_failed out \<Longrightarrow> fl_failed (snd (entry_loop ctx frame names ws out))"
  using should_stop_failed[of out ctx] by (cases names) (auto split: prod.splits)

lemma rev_item_frames [simp]: "rev (item_frames it) = item_frames it"
  by (simp add: item_frames_def split: item.splits)

lemma entry_loop_run:
  assumes "entry_loop ctx frame names ws out = (ws', out')"
  shows "fl_deadline_ms out' = fl_deadline_ms out \<and>
    agrees out' (run_items (untimed out) (map (entry_item ctx frame) names)) \<and>
    (stopped out' \<or> ws' = rev (concat (map item_frames (map (entry_item ctx frame) names))) @ ws)"
  using assms
proof (induction names arbitrary: ws out)
  case Nil
  obtain stop out1 where s: "file_list_should_stop ctx out = (stop, out1)"
    by fastforce
  then show ?case
    using Nil should_stop_agrees[OF s] by (auto simp: agrees_def)
next
  case (Cons name names)
  let ?it = "entry_item ctx frame name"
  obtain stop out1 where s: "file_list_should_stop ctx out = (stop, out1)"
    by fastforce
  note S = should_stop_agrees[OF s]
  show ?case
  proof (cases stop)
    case True
    then have "ws' = ws" "out' = out1"
      using Cons.prems by (simp_all add: s)
    then show ?thesis
      using S True run_items_stopped[of "untimed out1"]
      by (auto simp: agrees_def simp del: run_items_simps list.map)
  next
    case False
    then have u: "untimed out1 = untimed out" "\<not> stopped out1"
      using S by (auto simp: stopped_def)
    have "untimed (apply_item ?it out1) = item_step (untimed out) ?it"
      using u by (simp add: apply_item_untimed item_step_def flip: u(1))
    moreover have "entry_loop ctx frame names (item_frames ?it @ ws) (apply_item ?it out1) = (ws', out')"
      using Cons.prems False by (simp add: s process_entry_item)
    ultimately show ?thesis
      using Cons.IH[of "item_frames ?it @ ws" "apply_item ?it out1"] S(1) by simp
  qed
qed

lemma walk_step_run:
  assumes "walk_step ctx frame ws out = (ws', out')" "\<not> stopped out"
  shows "fl_deadline_ms out' = fl_deadline_ms out \<and> agrees out' (run_items (untimed out) (dir_items ctx frame)) \<and>
    (stopped out' \<or> ws' = sub_frames ctx frame @ ws)"
proof (cases "fs_readdir (wc_fs ctx) (wf_dir frame)")
  case None
  then have "ws' = ws" "out' = apply_item Unreadable out"
    using assms(1) by (auto simp: walk_step_def apply_item_def)
  then show ?thesis
    using assms(2) None
    by (simp add: dir_items_def sub_frames_def item_frames_def agrees_def item_step_def apply_item_untimed)
next
  case (Some names)
  then show ?thesis
    using assms(1) entry_loop_run[of ctx "load_frame ctx frame" "pmm_readdir names" ws out ws' out']
    by (simp add: walk_step_def dir_items_def sub_frames_def)
qed

lemma walk_loop_stopped:
  assumes "stopped out"
  shows "untimed (walk_loop ctx ws out) = untimed out \<or> fl_deadline_ms out \<noteq> 0 \<and> fl_failed (walk_loop ctx ws out)"
    and "fl_deadline_ms (walk_loop ctx ws out) = fl_deadline_ms out"
    and "fl_failed out \<Longrightarrow> fl_failed (walk_loop ctx ws out)"
proof -
  obtain stop out1 where s: "file_list_should_stop ctx out = (stop, out1)"
    by fastforce
  note S = should_stop_agrees[OF s]
  have "stopped out1"
    using S(3) assms by (metis stopped_def untimed_simps(3))
  then have "walk_loop ctx ws out = (if ws = [] then out else out1)"
    using S(2) by (subst walk_loop.simps) (simp add: s split: list.splits)
  then show "untimed (walk_loop ctx ws out) = untimed out \<or> fl_deadline_ms out \<noteq> 0 \<and> fl_failed (walk_loop ctx ws out)"
    "fl_deadline_ms (walk_loop ctx ws out) = fl_deadline_ms out"
    "fl_failed out \<Longrightarrow> fl_failed (walk_loop ctx ws out)"
    using S should_stop_failed[of out ctx] s by auto
qed

lemma walk_loop_run:
  "fl_deadline_ms (walk_loop ctx ws out) = fl_deadline_ms out \<and>
   agrees (walk_loop ctx ws out) (run_items (untimed out) (concat (map (tree_items ctx) ws)))"
proof (induction ctx ws out rule: walk_loop.induct)
  case (1 ctx ws out)
  show ?case
  proof (cases ws)
    case Nil
    then show ?thesis
      by (subst walk_loop.simps, subst (2) walk_loop.simps) (simp add: agrees_def)
  next
    case (Cons frame rest)
    obtain stop out1 where s: "file_list_should_stop ctx out = (stop, out1)"
      by fastforce
    obtain ws' out' where w: "walk_step ctx frame rest out1 = (ws', out')"
      by fastforce
    note S = should_stop_agrees[OF s]
    have unfold: "walk_loop ctx ws out = (if stop then out1 else walk_loop ctx ws' out')"
      by (subst walk_loop.simps) (simp add: Cons s w)
    show ?thesis
    proof (cases stop)
      case True
      then show ?thesis
        using S run_items_stopped[of "untimed out1"] by (auto simp: unfold agrees_def)
    next
      case False
      then have u: "untimed out1 = untimed out" "\<not> stopped out1"
        using S by (auto simp: stopped_def)
      have IH: "fl_deadline_ms (walk_loop ctx ws' out') = fl_deadline_ms out' \<and>
          agrees (walk_loop ctx ws' out') (run_items (untimed out') (concat (map (tree_items ctx) ws')))"
        using 1[OF Cons refl _ refl] False by (simp add: s w)
      note W = walk_step_run[OF w u(2), unfolded u(1)]
      have items: "concat (map (tree_items ctx) ws) =
          dir_items ctx frame @ concat (map (tree_items ctx) (sub_frames ctx frame @ rest))"
        by (simp add: Cons tree_items.simps[of ctx frame])
      show ?thesis
      proof (cases "stopped out'")
        case True
        then show ?thesis
          using W S(1) walk_loop_stopped[OF True, of ctx ws'] run_items_stopped[of "untimed out'"] False
          unfolding items run_items_simps by (auto simp: unfold agrees_def)
      next
        case nst: False
        then have "untimed out' = run_items (untimed out) (dir_items ctx frame)"
          using W by (auto simp: agrees_def stopped_def)
        then show ?thesis
          using W IH S(1) nst False unfolding items run_items_simps by (simp add: unfold)
      qed
    qed
  qed
qed

end
