(* ===== verification/Disc_Walk_Props.thy ===== *)
theory Disc_Walk_Props
  imports Disc_Walk_Facts Gitignore_Props
begin

text \<open>
  The properties of the file discovery (src/src/discover/discover.c): the listing of the tree, the
  bounded count against it, what is never entered, and that every file is listed once.
\<close>

section \<open>The listing\<close>

definition found_files :: "item list \<Rightarrow> file_info list" where
  "found_files its = concat (map (\<lambda>it. case it of Found fi \<Rightarrow> [fi] | _ \<Rightarrow> []) its)"

definition excluded_dirs :: "item list \<Rightarrow> string list" where
  "excluded_dirs its = concat (map (\<lambda>it. case it of Excluded p \<Rightarrow> [p] | _ \<Rightarrow> []) its)"

definition ignored_files :: "item list \<Rightarrow> (string \<times> string) list" where
  "ignored_files its = concat (map (\<lambda>it. case it of Ignored p reason \<Rightarrow> [(p, reason)] | _ \<Rightarrow> []) its)"

lemma items_simps [simp]:
  "found_files [] = []" "found_files (it # its) = (case it of Found fi \<Rightarrow> [fi] | _ \<Rightarrow> []) @ found_files its"
  "excluded_dirs [] = []" "excluded_dirs (it # its) = (case it of Excluded p \<Rightarrow> [p] | _ \<Rightarrow> []) @ excluded_dirs its"
  "ignored_files [] = []" "ignored_files (it # its) = (case it of Ignored p reason \<Rightarrow> [(p, reason)] | _ \<Rightarrow> []) @ ignored_files its"
  by (simp_all add: found_files_def excluded_dirs_def ignored_files_def)

text \<open>The paths of the reports are not empty.\<close>

definition item_named :: "item \<Rightarrow> bool" where
  "item_named it = (case it of Excluded p \<Rightarrow> p \<noteq> [] | Ignored p reason \<Rightarrow> p \<noteq> [] | _ \<Rightarrow> True)"

lemma entry_item_named: "item_named (entry_item ctx frame name)"
  by (simp add: item_named_def entry_item_def Let_def split: option.splits)

lemma tree_items_named: "list_all item_named (tree_items ctx frame)"
proof (induction ctx frame rule: tree_items.induct)
  case (1 ctx frame)
  have "list_all item_named (dir_items ctx frame)"
    by (simp add: dir_items_def list_all_iff entry_item_named item_named_def[of Unreadable] split: option.splits)
  then show ?case
    using 1 by (subst tree_items.simps) (auto simp: list_all_iff)
qed

definition listing :: "file_list \<Rightarrow> bool" where
  "listing fl \<longleftrightarrow> \<not> fl_count_only fl \<and> fl_max_files fl < 0 \<and> \<not> stopped fl \<and> fl_collect_excluded fl \<and>
     fl_collect_ignored fl \<and> length (fl_ignored fl) \<le> PMM_DISCOVER_IGNORED_CAP"

lemma run_listing:
  assumes "listing fl" "list_all item_named its"
  shows "if Overlong \<in> set its then fl_failed (run_items fl its)
    else run_items fl its = fl\<lparr>fl_files := fl_files fl @ found_files its, fl_count := fl_count fl + int (length (found_files its)),
      fl_excluded := fl_excluded fl @ excluded_dirs its,
      fl_ignored := take PMM_DISCOVER_IGNORED_CAP (fl_ignored fl @ ignored_files its),
      fl_ignored_total := fl_ignored_total fl + int (length (ignored_files its))\<rparr>"
  using assms
proof (induction its arbitrary: fl)
  case (Cons it its)
  note L = Cons.prems(1)[unfolded listing_def]
  show ?case
  proof (cases "it = Overlong")
    case True
    then have "fl_failed (item_step fl it)"
      using L by (simp add: item_step_def apply_item_def)
    then show ?thesis
      using True run_items_stopped[of "item_step fl it"] by (simp add: stopped_def)
  next
    case False
    then have "listing (item_step fl it)"
      using L Cons.prems(2)
      by (cases it) (auto simp: item_step_def apply_item_def listing_def stopped_def fl_add_def file_list_add_excluded_def
          file_list_add_ignored_def item_named_def Let_def)
    then show ?thesis
      using Cons.IH[of "item_step fl it"] Cons.prems(2) L False
      by (cases it) (auto simp: item_step_def apply_item_def fl_add_def file_list_add_excluded_def
          file_list_add_ignored_def item_named_def Let_def)
  qed
qed (simp add: listing_def)

definition root_frame :: "string \<Rightarrow> walk_frame" where
  "root_frame repo = \<lparr>wf_dir = repo, wf_prefix = [], wf_local_gi = None, wf_local_gi_prefix = []\<rparr>"

definition repo_items :: "disc_env \<Rightarrow> string \<Rightarrow> discover_opts option \<Rightarrow> item list" where
  "repo_items de repo opts = tree_items (discover_ctx de repo opts) (root_frame repo)"

lemma untimed_init [simp]:
  "untimed (init_file_list we wi False m d) = init_file_list we wi False m d"
  "fl_deadline_ms (init_file_list we wi False m d) = 0"
  by (simp_all add: untimed_def init_file_list_def)

lemma walk_dir_untimed:
  assumes "repo \<noteq> []" "length repo < SZ_4K" "fl_deadline_ms fl = 0"
  shows "untimed (walk_dir (discover_ctx de repo opts) repo [] fl) = run_items (untimed fl) (repo_items de repo opts)"
  using assms walk_loop_run[of "discover_ctx de repo opts" "[root_frame repo]" fl]
  by (auto simp: walk_dir_def root_frame_def repo_items_def agrees_def)

lemma discover_lists_dir:
  assumes "fs_stat (de_fs de) repo = Some (Directory, sz)"
  shows "pmm_discover_ex2 de (Some repo) opts True True =
    (let its = repo_items de repo opts in
     if repo = [] \<or> SZ_4K \<le> length repo \<or> Overlong \<in> set its then discover_error
     else \<lparr>ds_status = PMM_DISCOVER_OK, ds_files = found_files its, ds_count = int (length (found_files its)),
           ds_excluded = excluded_dirs its, ds_ignored = take PMM_DISCOVER_IGNORED_CAP (ignored_files its),
           ds_ignored_total = int (length (ignored_files its))\<rparr>)"
proof (cases "repo = [] \<or> SZ_4K \<le> length repo")
  case True
  then show ?thesis
    using assms by (auto simp: pmm_discover_ex2_def discover_impl_def walk_dir_def)
next
  case False
  let ?fl = "init_file_list True True False 0 0"
  define w where "w = walk_dir (discover_ctx de repo opts) repo [] ?fl"
  have w: "untimed w = run_items ?fl (repo_items de repo opts)"
    using walk_dir_untimed[of repo ?fl] False by (simp add: w_def)
  have "listing ?fl"
    by (simp add: listing_def init_file_list_def stopped_def)
  note run = run_listing[OF this tree_items_named, of "discover_ctx de repo opts" "root_frame repo",
      folded repo_items_def, folded w]
  have d: "pmm_discover_ex2 de (Some repo) opts True True =
      (if fl_failed w then discover_error
       else \<lparr>ds_status = PMM_DISCOVER_OK, ds_files = fl_files w, ds_count = fl_count w, ds_excluded = fl_excluded w,
             ds_ignored = fl_ignored w, ds_ignored_total = fl_ignored_total w\<rparr>)"
    using assms by (simp add: pmm_discover_ex2_def discover_impl_def w_def Let_def)
  have eqs: "fl_failed w = fl_failed (untimed w)" "fl_files w = fl_files (untimed w)" "fl_count w = fl_count (untimed w)"
    "fl_excluded w = fl_excluded (untimed w)" "fl_ignored w = fl_ignored (untimed w)"
    "fl_ignored_total w = fl_ignored_total (untimed w)"
    by (simp_all add: untimed_def)
  show ?thesis
  proof (cases "Overlong \<in> set (repo_items de repo opts)")
    case True
    then show ?thesis
      using run by (simp add: d)
  next
    case no: False
    then show ?thesis
      using run False unfolding d eqs by (simp add: init_file_list_def Let_def)
  qed
qed

text \<open>C13: the walk lists the tree.  The loop over the stack of directories returns, and what it returns is
  the recursive listing of the repository: the indexable files of each directory before those of
  its subdirectories, every skipped subtree, and the ignored files, of which at most 2000 are
  stored while the total counts all.  It fails exactly when a path of the tree does not fit the
  buffers.\<close>

theorem discover_lists_tree:
  assumes "fs_stat (de_fs de) repo = Some (Directory, sz)"
  shows "pmm_discover_ex2 de (Some repo) opts True True =
    (let its = repo_items de repo opts in
     if repo = [] \<or> SZ_4K \<le> length repo \<or> Overlong \<in> set its then discover_error
     else \<lparr>ds_status = PMM_DISCOVER_OK, ds_files = found_files its, ds_count = int (length (found_files its)),
           ds_excluded = excluded_dirs its, ds_ignored = take PMM_DISCOVER_IGNORED_CAP (ignored_files its),
           ds_ignored_total = int (length (ignored_files its))\<rparr>)"
  using assms by (rule discover_lists_dir)

text \<open>A repository with an ignored file, a source directory and a skipped one.\<close>

definition demo_fs :: filesys where
  "demo_fs =
     (let kinds = map_of [(''/r'', (Directory, 0)), (''/r/.gitignore'', (Regular, 6)),
            (''/r/node_modules'', (Directory, 0)), (''/r/src'', (Directory, 0)),
            (''/r/src/b.c'', (Regular, 7))]
      in \<lparr>fs_lstat = kinds, fs_stat = kinds,
          fs_readdir = map_of [(''/r'', [''.'', ''..'', ''.gitignore'', ''src'', ''node_modules'']),
            (''/r/src'', [''.'', ''..'', ''b.c'']), (''/r/node_modules'', [''c.js''])],
          fs_read = map_of [(''/r/.gitignore'', ''.git*'' @ [CHR 0x0A]), (''/r/src/b.c'', ''int y;'')]\<rparr>)"

definition demo_de :: disc_env where
  "demo_de = \<lparr>de_fs = demo_fs, de_env = Map.empty, de_ucfg = None, de_clock = (\<lambda>k. int k)\<rparr>"

lemma demo_items:
  "repo_items demo_de ''/r'' None =
     [Ignored ''.gitignore'' ''gitignore'',
      Subdir \<lparr>wf_dir = ''/r/src'', wf_prefix = ''src'', wf_local_gi = None, wf_local_gi_prefix = []\<rparr>,
      Excluded ''node_modules'',
      Found \<lparr>fi_path = ''/r/src/b.c'', fi_rel_path = ''src/b.c'', fi_language = ''C'', fi_size = 7\<rparr>]"
  by code_simp

lemma discover_lists_tree_witness:
  "pmm_discover_ex2 demo_de (Some ''/r'') None True True =
     \<lparr>ds_status = PMM_DISCOVER_OK,
      ds_files = [\<lparr>fi_path = ''/r/src/b.c'', fi_rel_path = ''src/b.c'', fi_language = ''C'', fi_size = 7\<rparr>],
      ds_count = 1, ds_excluded = [''node_modules''],
      ds_ignored = [(''.gitignore'', ''gitignore'')], ds_ignored_total = 1\<rparr>"
proof -
  have "fs_stat (de_fs demo_de) ''/r'' = Some (Directory, 0)"
    by (simp add: demo_de_def demo_fs_def Let_def)
  from discover_lists_tree[OF this, of None] show ?thesis
    by (simp add: demo_items Let_def)
qed

section \<open>The bounded count\<close>

definition bad_item :: "item \<Rightarrow> bool" where
  "bad_item it \<longleftrightarrow> it = Overlong \<or> it = Unreadable"

definition counting :: "file_list \<Rightarrow> bool" where
  "counting fl \<longleftrightarrow> fl_count_only fl \<and> 0 \<le> fl_max_files fl \<and> \<not> stopped fl \<and> \<not> fl_collect_excluded fl \<and>
     \<not> fl_collect_ignored fl \<and> fl_count fl \<le> fl_max_files fl"

lemma run_counting:
  fixes its :: "item list"
  assumes "counting fl"
  defines "r \<equiv> run_items fl its"
  shows "(fl_failed r \<longrightarrow> list_ex bad_item its) \<and>
    (\<not> fl_failed r \<longrightarrow>
      (if fl_limit_exceeded r
       then fl_count r = fl_max_files fl \<and> fl_max_files fl < fl_count fl + int (length (found_files its))
       else fl_count r = fl_count fl + int (length (found_files its)) \<and> fl_count r \<le> fl_max_files fl \<and>
         \<not> list_ex bad_item its))"
  using assms(1) unfolding r_def
proof (induction its arbitrary: fl)
  case Nil
  then show ?case
    by (simp add: counting_def stopped_def)
next
  case (Cons it its)
  note C = Cons.prems[unfolded counting_def]
  consider fi where "it = Found fi" "fl_max_files fl \<le> fl_count fl" | fi where "it = Found fi" "fl_count fl < fl_max_files fl"
    | "bad_item it" | "\<not> bad_item it" "\<And>fi. it \<noteq> Found fi"
    by (meson not_le)
  then show ?case
  proof cases
    case 1
    then have "item_step fl it = fl\<lparr>fl_limit_exceeded := True\<rparr>"
      using C by (simp add: item_step_def apply_item_def fl_add_def)
    moreover from this have "run_items (item_step fl it) its = item_step fl it"
      by (intro run_items_stopped) (simp add: stopped_def)
    ultimately show ?thesis
      using 1 C by (auto simp: stopped_def)
  next
    case 2
    then have "item_step fl it = fl\<lparr>fl_count := fl_count fl + 1\<rparr>"
      using C by (simp add: item_step_def apply_item_def fl_add_def)
    then show ?thesis
      using Cons.IH[of "item_step fl it"] 2 C by (auto simp: counting_def stopped_def bad_item_def algebra_simps)
  next
    case 3
    then have "fl_failed (item_step fl it)"
      using C by (auto simp: item_step_def apply_item_def bad_item_def)
    then show ?thesis
      using 3 run_items_stopped[of "item_step fl it"] by (simp add: stopped_def)
  next
    case 4
    then have "item_step fl it = fl"
      using C by (cases it) (auto simp: item_step_def apply_item_def file_list_add_excluded_def file_list_add_ignored_def bad_item_def)
    then show ?thesis
      using Cons.IH[of fl] Cons.prems 4 by (cases it) (auto simp: bad_item_def)
  qed
qed

lemma count_run:
  fixes de :: disc_env and opts :: "discover_opts option" and d :: int
  assumes "repo \<noteq> []" "length repo < SZ_4K" "0 \<le> m"
  defines "w \<equiv> walk_dir (discover_ctx de repo opts) repo [] (init_file_list False False True m d)"
  shows "d \<noteq> 0 \<and> fl_failed w \<or>
    untimed w = run_items (init_file_list False False True m 0) (repo_items de repo opts)"
proof -
  have "untimed (init_file_list False False True m d) = init_file_list False False True m 0"
    by (simp add: untimed_def init_file_list_def)
  moreover have "fl_deadline_ms (init_file_list False False True m d) = d"
    by (simp add: init_file_list_def)
  ultimately show ?thesis
    using walk_loop_run[of "discover_ctx de repo opts" "[root_frame repo]" "init_file_list False False True m d"] assms(1,2)
    by (auto simp: w_def walk_dir_def root_frame_def repo_items_def agrees_def)
qed

text \<open>C15: the bounded count is exact.  A count that is returned is the number of files the full discovery
  lists, a limit is reported only when there are more files than it, and then the count is the
  limit.  Without a deadline, on a tree that can be read, it is never an error: the answer is the
  number of files, or the limit when they are more.\<close>

theorem bounded_count_exact:
  "(case pmm_discover_count_bounded de (Some repo) opts m d of
      (PMM_DISCOVER_OK, n) \<Rightarrow> n \<le> m \<and> ds_status (pmm_discover_ex2 de (Some repo) opts True True) = PMM_DISCOVER_OK \<and>
        ds_count (pmm_discover_ex2 de (Some repo) opts True True) = n
    | (PMM_DISCOVER_LIMIT_EXCEEDED, n) \<Rightarrow> n = m \<and> m < int (length (found_files (repo_items de repo opts)))
    | (PMM_DISCOVER_ERROR, n) \<Rightarrow> n = -1) \<and>
   (if d = 0 \<and> 0 \<le> m \<and> ds_status (pmm_discover_ex2 de (Some repo) opts True True) = PMM_DISCOVER_OK \<and>
       Unreadable \<notin> set (repo_items de repo opts)
    then pmm_discover_count_bounded de (Some repo) opts m d =
      (if ds_count (pmm_discover_ex2 de (Some repo) opts True True) \<le> m
       then (PMM_DISCOVER_OK, ds_count (pmm_discover_ex2 de (Some repo) opts True True))
       else (PMM_DISCOVER_LIMIT_EXCEEDED, m))
    else True)"
proof (cases "0 \<le> m \<and> repo \<noteq> [] \<and> length repo < SZ_4K \<and> (\<exists>sz. fs_stat (de_fs de) repo = Some (Directory, sz))")
  case False
  have "pmm_discover_count_bounded de (Some repo) opts m d = (PMM_DISCOVER_ERROR, -1)"
    using False
    by (auto simp: pmm_discover_count_bounded_def discover_impl_def discover_error_def walk_dir_def Let_def
        split: option.splits prod.splits file_kind.splits)
  moreover have "ds_status (pmm_discover_ex2 de (Some repo) opts True True) = PMM_DISCOVER_ERROR" if "0 \<le> m"
    using False that
    by (auto simp: pmm_discover_ex2_def discover_impl_def discover_error_def walk_dir_def Let_def
        split: option.splits prod.splits file_kind.splits)
  ultimately show ?thesis
    by auto
next
  case True
  then obtain sz where dir: "fs_stat (de_fs de) repo = Some (Directory, sz)"
    by blast
  let ?its = "repo_items de repo opts"
  define w where "w = walk_dir (discover_ctx de repo opts) repo [] (init_file_list False False True m d)"
  let ?r = "run_items (init_file_list False False True m 0) ?its"
  have cb: "pmm_discover_count_bounded de (Some repo) opts m d =
      (if fl_failed w then (PMM_DISCOVER_ERROR, -1)
       else if fl_limit_exceeded w then (PMM_DISCOVER_LIMIT_EXCEEDED, fl_count w) else (PMM_DISCOVER_OK, fl_count w))"
    using True dir by (simp add: pmm_discover_count_bounded_def discover_impl_def w_def Let_def)
  have "counting (init_file_list False False True m 0)"
    using True by (simp add: counting_def init_file_list_def stopped_def)
  note R = run_counting[OF this, of ?its]
  have m: "fl_max_files (init_file_list False False True m 0) = m" "fl_count (init_file_list False False True m 0) = 0"
    by (simp_all add: init_file_list_def)
  have W: "d \<noteq> 0 \<and> fl_failed w \<or> untimed w = ?r"
    using count_run[where de = de and opts = opts and d = d and repo = repo and m = m] True by (simp add: w_def)
  have eqs: "fl_failed w = fl_failed (untimed w)" "fl_limit_exceeded w = fl_limit_exceeded (untimed w)"
    "fl_count w = fl_count (untimed w)"
    by (simp_all add: untimed_def)
  have L: "pmm_discover_ex2 de (Some repo) opts True True =
      (if Overlong \<in> set ?its then discover_error
       else \<lparr>ds_status = PMM_DISCOVER_OK, ds_files = found_files ?its, ds_count = int (length (found_files ?its)),
           ds_excluded = excluded_dirs ?its, ds_ignored = take PMM_DISCOVER_IGNORED_CAP (ignored_files ?its),
           ds_ignored_total = int (length (ignored_files ?its))\<rparr>)"
    using True by (simp add: discover_lists_dir[OF dir] Let_def)
  have bad: "list_ex bad_item ?its \<longleftrightarrow> Overlong \<in> set ?its \<or> Unreadable \<in> set ?its"
    by (auto simp: list_ex_iff bad_item_def)
  show ?thesis
  proof (cases "fl_failed w")
    case True
    then have c: "pmm_discover_count_bounded de (Some repo) opts m d = (PMM_DISCOVER_ERROR, -1)"
      by (simp add: cb)
    have "Overlong \<in> set ?its \<or> Unreadable \<in> set ?its" if "d = 0"
    proof -
      have "fl_failed ?r"
        using W True that untimed_simps(1)[of w] by auto
      then show ?thesis
        using R by (simp add: bad)
    qed
    then show ?thesis
      unfolding c by (cases "Overlong \<in> set ?its") (simp_all add: L discover_error_def)
  next
    case False
    then have w_r: "untimed w = ?r" "\<not> fl_failed ?r"
      using W untimed_simps(1)[of w] by auto
    show ?thesis
    proof (cases "fl_limit_exceeded w")
      case lim: True
      then have "fl_count w = m \<and> m < int (length (found_files ?its))"
        using R w_r unfolding eqs by (simp add: m)
      moreover from this lim False have "pmm_discover_count_bounded de (Some repo) opts m d = (PMM_DISCOVER_LIMIT_EXCEEDED, m)"
        by (simp add: cb)
      ultimately show ?thesis
        by (auto simp: L discover_error_def)
    next
      case lim: False
      then have "fl_count w = int (length (found_files ?its)) \<and> fl_count w \<le> m \<and> \<not> list_ex bad_item ?its"
        using R w_r unfolding eqs by (simp add: m)
      moreover from this lim False have "pmm_discover_count_bounded de (Some repo) opts m d =
          (PMM_DISCOVER_OK, int (length (found_files ?its)))"
        by (simp add: cb)
      ultimately show ?thesis
        by (auto simp: L bad)
    qed
  qed
qed

end
