(* ===== verification/Disc_Paths_Props.thy ===== *)
theory Disc_Paths_Props
  imports Disc_Walk_Props
begin

text \<open>
  Where the files of a discovery lie (src/src/discover/discover.c): under no directory of the
  built-in list that nothing un-skips, and each at one place of the list.
\<close>

section \<open>Names of entries\<close>

text \<open>What POSIX promises of a directory: different names, none empty, none with a slash and none longer
  than 255 bytes.\<close>

definition names_ok :: "filesys \<Rightarrow> bool" where
  "names_ok fs \<longleftrightarrow>
     (\<forall>d names. fs_readdir fs d = Some names \<longrightarrow>
        distinct names \<and> list_all (\<lambda>n. n \<noteq> [] \<and> CHR ''/'' \<notin> set n \<and> length n \<le> 255) names)"

lemma pmm_readdir_names:
  assumes "names_ok fs" "fs_readdir fs d = Some names"
  shows "distinct (pmm_readdir names)" "name \<in> set (pmm_readdir names) \<Longrightarrow> name \<noteq> [] \<and> CHR ''/'' \<notin> set name"
proof -
  have ok: "distinct names" "list_all (\<lambda>n. n \<noteq> [] \<and> CHR ''/'' \<notin> set n \<and> length n \<le> 255) names"
    using assms by (auto simp: names_ok_def)
  let ?keep = "filter (\<lambda>n. \<not> (n \<noteq> [] \<and> hd n = CHR ''.'' \<and> (tl n = [] \<or> tl n = ''.''))) names"
  have "map (take 259) ?keep = ?keep"
    using ok(2) by (intro map_idI) (auto simp: list_all_iff)
  then have "pmm_readdir names = ?keep"
    by (simp add: pmm_readdir_def)
  then show "distinct (pmm_readdir names)" "name \<in> set (pmm_readdir names) \<Longrightarrow> name \<noteq> [] \<and> CHR ''/'' \<notin> set name"
    using ok by (auto simp: list_all_iff)
qed

lemma entry_item_Found:
  "entry_item ctx frame name = Found fi \<Longrightarrow>
   fi_path fi = entry_abs frame name \<and> fi_rel_path fi = entry_rel frame name"
  by (auto simp: entry_item_def Let_def split: if_splits option.splits prod.splits)

lemma found_files_iff: "fi \<in> set (found_files its) \<longleftrightarrow> Found fi \<in> set its"
  by (induction its) (auto split: item.splits)

lemma found_files_append: "found_files (xs @ ys) = found_files xs @ found_files ys"
  by (simp add: found_files_def)

lemma found_files_concat: "found_files (concat xss) = concat (map found_files xss)"
  by (induction xss) (simp_all add: found_files_append)

lemma dir_items_FoundE:
  assumes "Found fi \<in> set (dir_items ctx frame)"
  obtains names name where "fs_readdir (wc_fs ctx) (wf_dir frame) = Some names" "name \<in> set (pmm_readdir names)"
    "entry_item ctx (load_frame ctx frame) name = Found fi"
  using assms by (auto simp: dir_items_def split: option.splits)

lemma tree_items_cases:
  assumes "it \<in> set (tree_items ctx frame)"
  obtains "it \<in> set (dir_items ctx frame)"
  | f where "f \<in> set (sub_frames ctx frame)" "it \<in> set (tree_items ctx f)"
  using assms by (subst (asm) tree_items.simps) auto

section \<open>What is never entered\<close>

definition enterable :: "walk_ctx \<Rightarrow> string \<Rightarrow> bool" where
  "enterable ctx d \<longleftrightarrow> \<not> is_safety_core_dir d \<and>
     (pmm_should_skip_dir (Some d) (opts_mode (wc_opts ctx)) \<longrightarrow> wc_pmmignore ctx \<noteq> None)"

lemma safety_core_skipped: "is_safety_core_dir d \<Longrightarrow> pmm_should_skip_dir (Some d) mode"
  by (auto simp: is_safety_core_dir_def pmm_should_skip_dir_def str_in_list_def ALWAYS_SKIP_DIRS_def)

lemma not_skipped_enterable:
  "\<not> should_skip_directory ctx name rel_path local_gi local_prefix \<Longrightarrow> enterable ctx name"
  using safety_core_skipped[of name "opts_mode (wc_opts ctx)"]
  by (auto simp: should_skip_directory_def enterable_def Let_def split: if_splits)

definition dirs_ok :: "walk_ctx \<Rightarrow> walk_frame \<Rightarrow> bool" where
  "dirs_ok ctx frame \<longleftrightarrow> wf_prefix frame = [] \<or> list_all (enterable ctx) (split_char (CHR ''/'') (wf_prefix frame))"

lemma split_entry_rel:
  assumes "CHR ''/'' \<notin> set name"
  shows "split_char (CHR ''/'') (entry_rel frame name) =
    (if wf_prefix frame = [] then [name] else split_char (CHR ''/'') (wf_prefix frame) @ [name])"
  using assms by (simp add: entry_rel_def split_char_append split_char_single)

lemma tree_dirs_ok:
  assumes "names_ok (wc_fs ctx)" "dirs_ok ctx frame" "Found fi \<in> set (tree_items ctx frame)"
  shows "list_all (enterable ctx) (butlast (split_char (CHR ''/'') (fi_rel_path fi)))"
  using assms
proof (induction ctx frame rule: tree_items.induct)
  case (1 ctx frame)
  from "1.prems"(3) show ?case
  proof (cases rule: tree_items_cases)
    case 1
    then obtain names name where n: "fs_readdir (wc_fs ctx) (wf_dir frame) = Some names" "name \<in> set (pmm_readdir names)"
      and e: "entry_item ctx (load_frame ctx frame) name = Found fi"
      by (rule dir_items_FoundE)
    show ?thesis
      using entry_item_Found[OF e] pmm_readdir_names(2)[OF "1.prems"(1) n] "1.prems"(2)
      by (auto simp: split_entry_rel dirs_ok_def)
  next
    case (2 f)
    then obtain names name where n: "fs_readdir (wc_fs ctx) (wf_dir frame) = Some names" "name \<in> set (pmm_readdir names)"
      and e: "entry_item ctx (load_frame ctx frame) name = Subdir f"
      using sub_framesE by blast
    note E = entry_item_Subdir[OF e]
    have "enterable ctx name"
      using E not_skipped_enterable by blast
    then have "dirs_ok ctx f"
      using E pmm_readdir_names(2)[OF "1.prems"(1) n] "1.prems"(2) by (auto simp: dirs_ok_def split_entry_rel)
    then show ?thesis
      using "1.IH"[OF 2(1)] "1.prems"(1) 2(2) by blast
  qed
qed

text \<open>C14: nothing below a skipped directory is indexed.  Whatever the ignore files of the repository and of
  the user say, no directory on the way to a discovered file is one of the safety core (the
  directories of git, of node modules and of worktrees), and none is on the built-in list unless
  the repository has a .pmmignore that can take it back.\<close>

theorem safety_core_never_entered:
  assumes "names_ok (de_fs de)"
  shows "list_all (\<lambda>fi. list_all (\<lambda>d. \<not> is_safety_core_dir d \<and>
        (if pmm_should_skip_dir (Some d) (opts_mode opts) then load_pmmignore de repo opts \<noteq> None else True))
      (butlast (split_char (CHR ''/'') (fi_rel_path fi)))) (ds_files (pmm_discover_ex2 de (Some repo) opts True True))"
proof -
  let ?ctx = "discover_ctx de repo opts"
  have ctx: "wc_fs ?ctx = de_fs de" "wc_opts ?ctx = opts" "wc_pmmignore ?ctx = load_pmmignore de repo opts"
    by (simp_all add: discover_ctx_def)
  have "fi \<in> set (found_files (repo_items de repo opts))"
    if "fi \<in> set (ds_files (pmm_discover_ex2 de (Some repo) opts True True))" for fi
  proof (cases "\<exists>sz. fs_stat (de_fs de) repo = Some (Directory, sz)")
    case True
    then show ?thesis
      using that discover_lists_dir by (auto simp: Let_def discover_error_def split: if_splits)
  next
    case False
    then show ?thesis
      using that by (auto simp: pmm_discover_ex2_def discover_impl_def discover_error_def split: option.splits prod.splits file_kind.splits)
  qed
  moreover have "list_all (enterable ?ctx) (butlast (split_char (CHR ''/'') (fi_rel_path fi)))"
    if "fi \<in> set (found_files (repo_items de repo opts))" for fi
    using that assms by (intro tree_dirs_ok[of ?ctx "root_frame repo"])
      (simp_all add: ctx dirs_ok_def root_frame_def found_files_iff repo_items_def)
  ultimately show ?thesis
    by (auto simp: list_all_iff enterable_def ctx)
qed

lemma demo_names_ok: "names_ok (de_fs demo_de)"
  by (auto simp: names_ok_def demo_de_def demo_fs_def Let_def split: if_splits)

lemma safety_core_never_entered_witness:
  "list_all (\<lambda>fi. list_all (\<lambda>d. \<not> is_safety_core_dir d) (butlast (split_char (CHR ''/'') (fi_rel_path fi))))
     (ds_files (pmm_discover_ex2 demo_de (Some ''/r'') None True True))"
  using safety_core_never_entered[OF demo_names_ok, of None "''/r''"] by (simp add: list_all_iff)

section \<open>Each file once\<close>

lemma paths_under: "Found fi \<in> set (tree_items ctx frame) \<Longrightarrow> \<exists>t. fi_path fi = wf_dir frame @ CHR ''/'' # t"
proof (induction ctx frame rule: tree_items.induct)
  case (1 ctx frame)
  from "1.prems" show ?case
  proof (cases rule: tree_items_cases)
    case 1
    then show ?thesis
      by (auto elim!: dir_items_FoundE dest!: entry_item_Found simp: entry_abs_def)
  next
    case (2 f)
    then obtain t where "fi_path fi = wf_dir f @ CHR ''/'' # t"
      using "1.IH" by blast
    then show ?thesis
      using 2(1) by (auto elim!: sub_framesE dest!: entry_item_Subdir simp: entry_abs_def)
  qed
qed

text \<open>The entry of a directory that a path goes through.\<close>

definition entry_of :: "string \<Rightarrow> string \<Rightarrow> string" where
  "entry_of dir path = takeWhile (\<lambda>c. c \<noteq> CHR ''/'') (drop (Suc (length dir)) path)"

lemma entry_of_append: "CHR ''/'' \<notin> set name \<Longrightarrow> entry_of dir (dir @ CHR ''/'' # name @ CHR ''/'' # t) = name"
  unfolding entry_of_def by (simp add: takeWhile_append2) (subst takeWhile_append2, auto)

lemma entry_of_single: "CHR ''/'' \<notin> set name \<Longrightarrow> entry_of dir (dir @ CHR ''/'' # name) = name"
  unfolding entry_of_def by (simp add: takeWhile_eq_all_conv) auto

lemma distinct_concat_map_key:
  assumes "distinct (map h xs)" "\<And>x. x \<in> set xs \<Longrightarrow> distinct (F x)" "\<And>x y. x \<in> set xs \<Longrightarrow> y \<in> set (F x) \<Longrightarrow> key y = h x"
  shows "distinct (concat (map F xs))"
  using assms
proof (induction xs)
  case (Cons x xs)
  have "set (F x) \<inter> set (concat (map F xs)) = {}"
  proof (rule ccontr)
    assume "set (F x) \<inter> set (concat (map F xs)) \<noteq> {}"
    then obtain y z where "y \<in> set (F x)" "z \<in> set xs" "y \<in> set (F z)"
      by auto
    then have "h x = h z"
      using Cons.prems(3)[of x y] Cons.prems(3)[of z y] by simp
    then show False
      using Cons.prems(1) \<open>z \<in> set xs\<close> by auto
  qed
  then show ?case
    using Cons by (simp add: Cons.prems(2))
qed simp

lemma distinct_found:
  assumes "names_ok (wc_fs ctx)"
  shows "distinct (map fi_path (found_files (tree_items ctx frame)))"
  using assms
proof (induction ctx frame rule: tree_items.induct)
  case (1 ctx frame)
  let ?F = "load_frame ctx frame" and ?d = "wf_dir frame"
  show ?case
  proof (cases "fs_readdir (wc_fs ctx) ?d")
    case None
    then show ?thesis
      by (subst tree_items.simps) (simp add: dir_items_def sub_frames_def item_frames_def)
  next
    case (Some names)
    note N = pmm_readdir_names[OF "1.prems" Some]
    let ?paths = "\<lambda>its. map fi_path (found_files its)"
    have abs: "entry_abs ?F name = ?d @ CHR ''/'' # name" for name
      by (simp add: entry_abs_def)
    have own: "distinct (?paths (dir_items ctx frame))"
    proof -
      have "distinct (concat (map (\<lambda>n. ?paths [entry_item ctx ?F n]) (pmm_readdir names)))"
      proof (rule distinct_concat_map_key[where h = id and key = "entry_of ?d"])
        fix n y
        assume "n \<in> set (pmm_readdir names)" "y \<in> set (?paths [entry_item ctx ?F n])"
        then show "entry_of ?d y = id n"
          using N(2)[of n] by (auto simp: abs entry_of_single dest!: entry_item_Found[OF sym] split: item.splits)
      qed (auto simp: N(1) split: item.splits)
      moreover have "?paths (map (entry_item ctx ?F) ns) = concat (map (\<lambda>n. ?paths [entry_item ctx ?F n]) ns)" for ns
        by (induction ns) simp_all
      ultimately show ?thesis
        by (simp add: dir_items_def Some)
    qed
    have sub: "\<exists>name. name \<in> set (pmm_readdir names) \<and> wf_dir f = ?d @ CHR ''/'' # name" if "f \<in> set (sub_frames ctx frame)" for f
      using that Some by (auto elim!: sub_framesE dest!: entry_item_Subdir simp: abs)
    have "distinct (map wf_dir (concat (map (\<lambda>n. item_frames (entry_item ctx ?F n)) (pmm_readdir names))))"
      unfolding map_concat map_map comp_def
    proof (rule distinct_concat_map_key[where h = id and key = "entry_of ?d"])
      fix n y
      assume "n \<in> set (pmm_readdir names)" "y \<in> set (map wf_dir (item_frames (entry_item ctx ?F n)))"
      then show "entry_of ?d y = id n"
        using N(2)[of n] by (auto simp: abs entry_of_single item_frames_def dest!: entry_item_Subdir[OF sym] split: item.splits)
    qed (auto simp: N(1) item_frames_def split: item.splits)
    then have dist: "distinct (map wf_dir (sub_frames ctx frame))"
      by (simp add: sub_frames_def dir_items_def Some rev_map[symmetric] comp_def)
    have "distinct (map (\<lambda>f. entry_of ?d (wf_dir f)) (sub_frames ctx frame))"
    proof -
      have "x = ?d @ CHR ''/'' # entry_of ?d x" if "x \<in> wf_dir ` set (sub_frames ctx frame)" for x
        using that sub N(2) by (force simp: entry_of_single)
      then have "inj_on (entry_of ?d) (wf_dir ` set (sub_frames ctx frame))"
        by (intro inj_onI) metis
      then show ?thesis
        using dist by (auto simp: distinct_map inj_on_def)
    qed
    then have subs: "distinct (concat (map (\<lambda>f. ?paths (tree_items ctx f)) (sub_frames ctx frame)))"
    proof (rule distinct_concat_map_key[where key = "entry_of ?d"])
      fix f y
      assume f: "f \<in> set (sub_frames ctx frame)" and "y \<in> set (?paths (tree_items ctx f))"
      then obtain fi where "Found fi \<in> set (tree_items ctx f)" "y = fi_path fi"
        by (auto simp: found_files_iff)
      then obtain t where "y = wf_dir f @ CHR ''/'' # t"
        using paths_under by blast
      then show "entry_of ?d y = entry_of ?d (wf_dir f)"
        using sub[OF f] N(2) by (auto simp: entry_of_single entry_of_append)
    qed (use "1.IH" "1.prems" in auto)
    have "CHR ''/'' \<notin> set (drop (Suc (length ?d)) y)" if "y \<in> set (?paths (dir_items ctx frame))" for y
      using that Some N(2) by (auto simp: found_files_iff abs elim!: dir_items_FoundE dest!: entry_item_Found)
    moreover have "CHR ''/'' \<in> set (drop (Suc (length ?d)) y)"
      if y: "y \<in> set (concat (map (\<lambda>f. ?paths (tree_items ctx f)) (sub_frames ctx frame)))" for y
    proof -
      obtain f fi where "f \<in> set (sub_frames ctx frame)" "Found fi \<in> set (tree_items ctx f)" "y = fi_path fi"
        using y by (auto simp: found_files_iff)
      then show ?thesis
        using sub[of f] paths_under[of fi ctx f] by auto
    qed
    ultimately have "set (?paths (dir_items ctx frame)) \<inter>
        set (concat (map (\<lambda>f. ?paths (tree_items ctx f)) (sub_frames ctx frame))) = {}"
      by blast
    then show ?thesis
      using own subs
      by (subst tree_items.simps) (simp add: found_files_append found_files_concat map_concat comp_def)
  qed
qed

text \<open>A file is listed once.  The paths of a discovery are pairwise different.\<close>

theorem files_listed_once:
  assumes "names_ok (de_fs de)"
  shows "distinct (map fi_path (ds_files (pmm_discover_ex2 de (Some repo) opts True True)))"
proof (cases "\<exists>sz. fs_stat (de_fs de) repo = Some (Directory, sz)")
  case True
  have "wc_fs (discover_ctx de repo opts) = de_fs de"
    by (simp add: discover_ctx_def)
  then have "distinct (map fi_path (found_files (repo_items de repo opts)))"
    unfolding repo_items_def using assms by (intro distinct_found) simp
  then show ?thesis
    using True discover_lists_dir by (auto simp: Let_def discover_error_def split: if_splits)
next
  case False
  then show ?thesis
    by (auto simp: pmm_discover_ex2_def discover_impl_def discover_error_def split: option.splits prod.splits file_kind.splits)
qed

lemma files_listed_once_witness:
  "distinct (map fi_path (ds_files (pmm_discover_ex2 demo_de (Some ''/r'') None True True)))"
  by (rule files_listed_once[OF demo_names_ok])

end
