(* ===== verification/Disc_Lang_Props.thy ===== *)
theory Disc_Lang_Props
  imports Disc_Lang Gitignore_Facts
begin

text \<open>
  The properties of language detection (src/src/discover/language.c) and of the user's extra
  extensions (src/src/discover/userconfig.c).
\<close>

section \<open>The user's extensions\<close>

definition entries_ok :: "userext list \<Rightarrow> bool" where
  "entries_ok es \<longleftrightarrow> list_all (\<lambda>e. ue_ext e \<noteq> None \<and> ue_ext e \<noteq> Some [] \<and> ue_lang e \<noteq> lang_count) es"

lemma extra_extension_step_append: "\<exists>new. entries_ok new \<and> (\<forall>es. extra_extension_step es kv = es @ new)"
proof (cases "yyjson_get_str (snd kv)")
  case None
  then show ?thesis
    by (intro exI[of _ "[]"]) (simp add: extra_extension_step_def entries_ok_def split: prod.splits)
next
  case (Some s)
  let ?new = "if fst kv = [] \<or> hd (fst kv) \<noteq> CHR ''.'' \<or> lang_from_string (Some s) = lang_count then []
    else [\<lparr>ue_ext = Some (fst kv), ue_lang = lang_from_string (Some s)\<rparr>]"
  have "entries_ok ?new \<and> (\<forall>es. extra_extension_step es kv = es @ ?new)"
    using Some by (cases kv) (auto simp: extra_extension_step_def entries_ok_def Let_def)
  then show ?thesis
    by blast
qed

lemma foldl_extensions_append:
  "\<exists>new. entries_ok new \<and> (\<forall>es. foldl extra_extension_step es kvs = es @ new)"
proof (induction kvs)
  case Nil
  show ?case
    by (intro exI[of _ "[]"]) (simp add: entries_ok_def)
next
  case (Cons kv kvs)
  obtain a b where "entries_ok a" "\<And>es. extra_extension_step es kv = es @ a"
    "entries_ok b" "\<And>es. foldl extra_extension_step es kvs = es @ b"
    using Cons extra_extension_step_append[of kv] by blast
  then show ?case
    by (intro exI[of _ "a @ b"]) (simp add: entries_ok_def)
qed

lemma load_config_append:
  "\<exists>new. entries_ok new \<and> (\<forall>es. load_config_file fs yy path es = es @ new)"
proof -
  have nil: "\<exists>new. entries_ok new \<and> (\<forall>es. es = es @ new)"
    by (intro exI[of _ "[]"]) (simp add: entries_ok_def)
  have "\<exists>new. entries_ok new \<and> (\<forall>es. parse_extra_extensions root es = es @ new)" for root
  proof (cases "\<exists>kvs. yyjson_is_obj root \<and> yyjson_obj_get root ''extra_extensions'' = Some (YObj kvs)")
    case True
    then show ?thesis
      using foldl_extensions_append by (auto simp: parse_extra_extensions_def)
  next
    case False
    then have "parse_extra_extensions root es = es" for es
      by (auto simp: parse_extra_extensions_def split: option.splits yyjson_val.splits)
    then show ?thesis
      using nil by simp
  qed
  note parse = this
  show ?thesis
  proof (cases "\<exists>buf root. fs_read fs path = Some buf \<and> buf \<noteq> [] \<and> length buf \<le> MAX_CONFIG_SIZE \<and> yy buf = Some root")
    case True
    then show ?thesis
      using parse by (auto simp: load_config_file_def)
  next
    case False
    then have "load_config_file fs yy path es = es" for es
      by (auto simp: load_config_file_def not_less split: option.splits)
    then show ?thesis
      using nil by simp
  qed
qed

lemma load_config_entries:
  "entries_ok (load_config_file fs yy path [])"
  "load_config_file fs yy path es = es @ load_config_file fs yy path []"
  using load_config_append[of fs yy path] by force+

text \<open>The array during the deduplication: the global entries that are left, freed slots, the project's.\<close>

definition dedup_inv :: "userext list \<Rightarrow> userext list \<Rightarrow> nat \<Rightarrow> userext list \<times> nat \<Rightarrow> bool" where
  "dedup_inv G P j st \<longleftrightarrow>
     (\<exists>L N. st = (L @ N @ P, length L) \<and> length L + length N = length G \<and> list_all (\<lambda>e. ue_ext e = None) N \<and>
        distinct (map ue_ext L) \<and> set L = {e \<in> set G. ue_ext e \<notin> ue_ext ` set (take j P)})"

lemma swap_remove:
  assumes "g < length L" "distinct (map f L)"
  shows "distinct (map f (butlast (L[g := last L]))) \<and> set (butlast (L[g := last L])) = {x \<in> set L. f x \<noteq> f (L ! g)}"
proof (cases L rule: rev_cases)
  case (snoc xs l)
  have d: "distinct (map f xs)" "f l \<notin> f ` set xs"
    using assms(2) by (auto simp: snoc)
  then have dx: "distinct xs"
    by (simp add: distinct_map)
  show ?thesis
  proof (cases "g < length xs")
    case True
    then have b: "butlast (L[g := last L]) = xs[g := l]" "L ! g = xs ! g" "set L = insert l (set xs)"
      by (simp_all add: snoc list_update_append nth_append)
    have "distinct (map f (xs[g := l]))"
      using d by (simp add: map_update distinct_list_update)
    moreover have "set (xs[g := l]) = insert l (set xs - {xs ! g})"
      using dx True by (simp add: set_update_distinct)
    moreover have "f x = f (xs ! g) \<longleftrightarrow> x = xs ! g" if "x \<in> set xs" for x
      using d(1) True that by (metis distinct_map inj_on_eq_iff nth_mem)
    moreover have "f l \<noteq> f (xs ! g)"
      using d(2) True by (auto simp: image_iff)
    ultimately show ?thesis
      unfolding b by auto
  next
    case False
    then have "g = length xs"
      using assms(1) by (simp add: snoc)
    then show ?thesis
      using d by (auto simp: snoc list_update_append) (metis image_eqI)
  qed
qed (use assms in simp)

lemma dedup_step_inv:
  assumes "dedup_inv G P j st" "j < length P" "entries_ok G" "entries_ok P"
  shows "dedup_inv G P (Suc j) (dedup_step st (length G + j))"
proof -
  obtain L N where st: "st = (L @ N @ P, length L)" and len: "length L + length N = length G"
    and N: "list_all (\<lambda>e. ue_ext e = None) N" and L: "distinct (map ue_ext L)"
      "set L = {e \<in> set G. ue_ext e \<notin> ue_ext ` set (take j P)}"
    using assms(1) by (auto simp: dedup_inv_def)
  let ?p = "P ! j"
  have p: "(L @ N @ P) ! (length G + j) = ?p"
    using len by (simp add: nth_append)
  have take: "ue_ext ` set (take (Suc j) P) = insert (ue_ext ?p) (ue_ext ` set (take j P))"
    using assms(2) by (simp add: take_Suc_conv_app_nth)
  let ?Q = "\<lambda>g. ue_ext ((L @ N @ P) ! g) \<noteq> None \<and> ue_ext ((L @ N @ P) ! g) = ue_ext ?p"
  show ?thesis
  proof (cases "find ?Q [0..<length L]")
    case None
    have "\<exists>y. ue_ext ?p = Some y"
      using assms(2,4) by (auto simp: entries_ok_def list_all_iff)
    moreover have "\<not> ?Q g" if "g < length L" for g
      using None that by (auto simp: find_None_iff)
    ultimately have "ue_ext e \<noteq> ue_ext ?p" if "e \<in> set L" for e
      using that by (force simp: in_set_conv_nth nth_append)
    then have "set L = {e \<in> set G. ue_ext e \<notin> ue_ext ` set (take (Suc j) P)}"
      using L(2) unfolding take by blast
    then show ?thesis
      using None len N L(1) by (auto simp: dedup_inv_def dedup_step_def st p)
  next
    case (Some g)
    then have g: "g < length L" "ue_ext (L ! g) = ue_ext ?p"
      by (auto simp: find_Some_iff nth_append)
    let ?L = "butlast (L[g := last L])" and ?n = "(last L)\<lparr>ue_ext := None\<rparr>"
    have Lne: "L \<noteq> []"
      using g(1) by auto
    have nth: "(L @ N @ P) ! (length L - 1) = last L"
      using Lne by (simp add: nth_append last_conv_nth)
    have es: "(L @ N @ P)[g := last L] = L[g := last L] @ N @ P"
      using g(1) by (simp add: list_update_append)
    have "last (L[g := last L]) = last L"
      using g(1) Lne by (cases "g = length L - 1") (simp_all add: last_list_update)
    then have split: "L[g := last L] = ?L @ [last L]"
      using Lne by (metis append_butlast_last_id length_0_conv length_list_update)
    have step: "dedup_step st (length G + j) = (?L @ (?n # N) @ P, length ?L)"
    proof -
      have "dedup_step st (length G + j) =
          (let es = (L @ N @ P)[g := (L @ N @ P) ! (length L - 1)]
           in (es[length L - 1 := (es ! (length L - 1))\<lparr>ue_ext := None\<rparr>], length L - 1))"
        using Some by (simp add: dedup_step_def st p)
      moreover have "(L @ N @ P)[g := (L @ N @ P) ! (length L - 1)] = ?L @ last L # N @ P"
        unfolding nth es by (subst split) simp
      moreover have "length L - 1 = length ?L"
        by simp
      ultimately show ?thesis
        by (simp only: Let_def nth_append_length list_update_length append_Cons)
    qed
    have "length ?L + length (?n # N) = length G"
      using len g(1) by simp
    moreover have "distinct (map ue_ext ?L)" "set ?L = {e \<in> set G. ue_ext e \<notin> ue_ext ` set (take (Suc j) P)}"
      using swap_remove[OF g(1) L(1)] L(2) unfolding take g(2) by auto
    moreover have "list_all (\<lambda>e. ue_ext e = None) (?n # N)"
      using N by simp
    ultimately show ?thesis
      unfolding step dedup_inv_def by blast
  qed
qed

lemma dedup_fold_inv:
  assumes "entries_ok G" "entries_ok P" "distinct (map ue_ext G)"
  shows "j \<le> length P \<Longrightarrow> dedup_inv G P j (foldl dedup_step (G @ P, length G) [length G..<length G + j])"
proof (induction j)
  case 0
  show ?case
    unfolding dedup_inv_def by (rule exI[of _ G], rule exI[of _ "[]"]) (use assms(3) in auto)
next
  case (Suc j)
  then show ?case
    using dedup_step_inv[of G P j] assms by simp
qed

definition lookup_ext :: "userext list \<Rightarrow> string \<Rightarrow> userext option" where
  "lookup_ext es x = find (\<lambda>e. ue_ext e = Some x) es"

lemma lookup_ext_append:
  "lookup_ext (es @ es') x = (case lookup_ext es x of None \<Rightarrow> lookup_ext es' x | Some e \<Rightarrow> Some e)"
  unfolding lookup_ext_def by (induction es) auto

lemma lookup_ext_None: "lookup_ext es x = None \<longleftrightarrow> Some x \<notin> ue_ext ` set es"
  unfolding lookup_ext_def find_None_iff by force

lemma lookup_ext_distinct:
  assumes "distinct (map ue_ext es)" "e \<in> set es" "ue_ext e = Some x"
  shows "lookup_ext es x = Some e"
  using assms unfolding lookup_ext_def by (induction es) (auto simp: image_iff)

lemma dedup_lookup:
  assumes "entries_ok G" "entries_ok P" "distinct (map ue_ext G)"
  shows "lookup_ext (dedup_entries (G @ P) (length G)) x =
    (case lookup_ext P x of Some e \<Rightarrow> Some e | None \<Rightarrow> lookup_ext G x)"
proof -
  obtain L N where st: "foldl dedup_step (G @ P, length G) [length G..<length G + length P] = (L @ N @ P, length L)"
    and N: "list_all (\<lambda>e. ue_ext e = None) N" and L: "distinct (map ue_ext L)"
      "set L = {e \<in> set G. ue_ext e \<notin> ue_ext ` set P}"
    using dedup_fold_inv[OF assms, of "length P"] by (auto simp: dedup_inv_def)
  have "filter (\<lambda>e. ue_ext e \<noteq> None) L = L" "filter (\<lambda>e. ue_ext e \<noteq> None) N = []"
    "filter (\<lambda>e. ue_ext e \<noteq> None) P = P"
    using L(2) N assms(1,2) by (auto simp: entries_ok_def list_all_iff filter_id_conv filter_empty_conv)
  then have d: "dedup_entries (G @ P) (length G) = L @ P"
    using st by (simp add: dedup_entries_def)
  show ?thesis
  proof (cases "Some x \<in> ue_ext ` set P")
    case True
    then have "lookup_ext L x = None"
      using L(2) by (auto simp: lookup_ext_None)
    moreover obtain e where "lookup_ext P x = Some e"
      using True lookup_ext_None[of P x] by blast
    ultimately show ?thesis
      by (simp add: d lookup_ext_append)
  next
    case False
    then have "lookup_ext P x = None"
      by (simp add: lookup_ext_None)
    moreover have "lookup_ext L x = lookup_ext G x"
    proof (cases "lookup_ext G x")
      case None
      then have "lookup_ext L x = None"
        using L(2) unfolding lookup_ext_None by auto
      then show ?thesis
        using None by simp
    next
      case (Some e)
      then have "e \<in> set G" "ue_ext e = Some x"
        by (auto simp: lookup_ext_def find_Some_iff)
      then show ?thesis
        using False L Some by (auto intro!: lookup_ext_distinct)
    qed
    ultimately show ?thesis
      by (simp add: d lookup_ext_append split: option.splits)
  qed
qed

lemma userconfig_lookup_ext:
  "pmm_userconfig_lookup (Some es) (Some x) =
     (if x = [] then lang_count else case lookup_ext es x of Some e \<Rightarrow> ue_lang e | None \<Rightarrow> lang_count)"
  by (simp add: pmm_userconfig_lookup_def lookup_ext_def)

text \<open>C19: the project's extensions win.  After the removal of the global entries that the project overrides,
  by moving the last global entry into the freed slot, a lookup gives the project's language for an
  extension the project names and the global one for the others, provided the global file names no
  extension twice.\<close>

theorem user_config_project_wins:
  fixes fs :: filesys and yy :: "string \<Rightarrow> yyjson_val option"
  defines "load path \<equiv> load_config_file fs yy path []"
  assumes "distinct (map ue_ext (load (global_config_path env)))" "repo \<noteq> []"
  shows "pmm_userconfig_lookup (Some (pmm_userconfig_load fs env yy (Some repo))) (Some x) =
    (if pmm_userconfig_lookup (Some (load (project_config_path repo))) (Some x) \<noteq> lang_count
     then pmm_userconfig_lookup (Some (load (project_config_path repo))) (Some x)
     else pmm_userconfig_lookup (Some (load (global_config_path env))) (Some x))"
proof -
  let ?G = "load (global_config_path env)" and ?P = "load (project_config_path repo)"
  have ok: "entries_ok ?G" "entries_ok ?P"
    by (simp_all add: load_def load_config_entries(1))
  have e: "pmm_userconfig_load fs env yy (Some repo) = dedup_entries (?G @ ?P) (length ?G)"
    using assms(3) load_config_entries(2)[of fs yy "project_config_path repo" ?G]
    by (simp add: pmm_userconfig_load_def load_def Let_def)
  have "ue_lang u \<noteq> lang_count" if "lookup_ext ?P x = Some u" for u
    using that ok(2) by (auto simp: lookup_ext_def entries_ok_def list_all_iff find_Some_iff)
  then show ?thesis
    by (simp add: e userconfig_lookup_ext dedup_lookup[OF ok assms(2)] split: option.splits)
qed

text \<open>A global file that maps two extensions and a project file that overrides the first.\<close>

definition demo_json :: "string \<Rightarrow> yyjson_val option" where
  "demo_json = map_of
     [(''G'', YObj [(''extra_extensions'', YObj [(''.x'', YStr ''Go''), (''.y'', YStr ''rust''), (''z'', YStr ''lua'')])]),
      (''P'', YObj [(''extra_extensions'', YObj [(''.x'', YStr ''PYTHON''), (''.w'', YOther)])]),
      (''D'', YObj [(''extra_extensions'', YObj [(''.x'', YStr ''go''), (''.x'', YStr ''rust'')])])]"

definition demo_config_fs :: "string \<Rightarrow> filesys" where
  "demo_config_fs global =
     \<lparr>fs_lstat = Map.empty, fs_stat = Map.empty, fs_readdir = Map.empty,
      fs_read = map_of [(''/tmp/project-mind-mcp/config.json'', global), (''/r/.project-mind-mcp.json'', ''P'')]\<rparr>"

lemma demo_extensions:
  "map_option (\<lambda>v. parse_extra_extensions v []) (demo_json ''G'') =
     Some [\<lparr>ue_ext = Some ''.x'', ue_lang = ''GO''\<rparr>, \<lparr>ue_ext = Some ''.y'', ue_lang = ''RUST''\<rparr>]"
  "map_option (\<lambda>v. parse_extra_extensions v []) (demo_json ''P'') = Some [\<lparr>ue_ext = Some ''.x'', ue_lang = ''PYTHON''\<rparr>]"
  "map_option (\<lambda>v. parse_extra_extensions v []) (demo_json ''D'') =
     Some [\<lparr>ue_ext = Some ''.x'', ue_lang = ''GO''\<rparr>, \<lparr>ue_ext = Some ''.x'', ue_lang = ''RUST''\<rparr>]"
  by code_simp+

lemma demo_paths:
  "global_config_path Map.empty = ''/tmp/project-mind-mcp/config.json''"
  "project_config_path ''/r'' = ''/r/.project-mind-mcp.json''"
  by (simp_all add: global_config_path_def project_config_path_def pmm_app_config_dir_def pmm_get_home_dir_def
      env_buf_def pmm_safe_getenv_def snprintf_buf_def)

lemma demo_load:
  "map_option (\<lambda>v. parse_extra_extensions v []) (demo_json g) = Some es \<Longrightarrow> g \<noteq> [] \<Longrightarrow> length g < 9 \<Longrightarrow>
   load_config_file (demo_config_fs g) demo_json (global_config_path Map.empty) [] = es"
  "load_config_file (demo_config_fs g) demo_json (project_config_path ''/r'') [] = [\<lparr>ue_ext = Some ''.x'', ue_lang = ''PYTHON''\<rparr>]"
  using demo_extensions(2) by (auto simp: load_config_file_def demo_paths demo_config_fs_def)

lemma user_config_project_wins_witness:
  "pmm_userconfig_lookup (Some (pmm_userconfig_load (demo_config_fs ''G'') Map.empty demo_json (Some ''/r''))) (Some ''.x'') = ''PYTHON'' \<and>
   pmm_userconfig_lookup (Some (pmm_userconfig_load (demo_config_fs ''G'') Map.empty demo_json (Some ''/r''))) (Some ''.y'') = ''RUST''"
proof -
  let ?P = "[\<lparr>ue_ext = Some ''.x'', ue_lang = ''PYTHON''\<rparr>]"
  let ?G = "[\<lparr>ue_ext = Some ''.x'', ue_lang = ''GO''\<rparr>, \<lparr>ue_ext = Some ''.y'', ue_lang = ''RUST''\<rparr>]"
  have "pmm_userconfig_lookup (Some ?P) (Some ''.x'') = ''PYTHON''" "pmm_userconfig_lookup (Some ?P) (Some ''.y'') = lang_count"
    "pmm_userconfig_lookup (Some ?G) (Some ''.y'') = ''RUST''"
    by (simp_all add: userconfig_lookup_ext lookup_ext_def)
  moreover have "''PYTHON'' \<noteq> lang_count"
    by (simp add: lang_count_def)
  moreover note user_config_project_wins[of "demo_config_fs ''G''" demo_json Map.empty "''/r''", unfolded demo_load(1)[OF demo_extensions(1), simplified] demo_load(2)]
  ultimately show ?thesis
    by simp
qed

text \<open>A repeated global entry survives its override.  When the global file names an extension twice,
  only the first of the two is removed for the project's entry, and the lookup answers with the
  global one that is left.\<close>

theorem repeated_global_entry_wins:
  "pmm_userconfig_lookup (Some (pmm_userconfig_load (demo_config_fs ''D'') Map.empty demo_json (Some ''/r''))) (Some ''.x'') = ''RUST'' \<and>
   pmm_userconfig_lookup (Some (load_config_file (demo_config_fs ''D'') demo_json (project_config_path ''/r'') [])) (Some ''.x'') = ''PYTHON''"
proof -
  have "load_config_file (demo_config_fs ''D'') demo_json (project_config_path ''/r'') es =
      es @ [\<lparr>ue_ext = Some ''.x'', ue_lang = ''PYTHON''\<rparr>]" for es
    using load_config_entries(2) demo_load(2) by metis
  moreover have "dedup_entries [\<lparr>ue_ext = Some ''.x'', ue_lang = ''GO''\<rparr>, \<lparr>ue_ext = Some ''.x'', ue_lang = ''RUST''\<rparr>,
      \<lparr>ue_ext = Some ''.x'', ue_lang = ''PYTHON''\<rparr>] 2 =
      [\<lparr>ue_ext = Some ''.x'', ue_lang = ''RUST''\<rparr>, \<lparr>ue_ext = Some ''.x'', ue_lang = ''PYTHON''\<rparr>]"
    by code_simp
  ultimately show ?thesis
    by (simp add: pmm_userconfig_load_def demo_load(1)[OF demo_extensions(3), simplified] Let_def userconfig_lookup_ext
        lookup_ext_def numeral_2_eq_2)
qed

section \<open>File names\<close>

text \<open>The ends of a name that start with a dot, the longest first.\<close>

fun dot_suffixes :: "string \<Rightarrow> string list" where
  "dot_suffixes [] = []"
| "dot_suffixes (c # cs) = (if c = CHR ''.'' then (c # cs) # dot_suffixes cs else dot_suffixes cs)"

text \<open>The language of an extension that is not the last: built in, or the user's.\<close>

definition compound_language :: "userconfig option \<Rightarrow> string \<Rightarrow> cbm_language option" where
  "compound_language ucfg s =
     (if s = ''.blade.php'' then Some ''BLADE''
      else if pmm_userconfig_lookup ucfg (Some s) \<noteq> lang_count then Some (pmm_userconfig_lookup ucfg (Some s))
      else None)"

fun first_known :: "userconfig option \<Rightarrow> string list \<Rightarrow> cbm_language" where
  "first_known ucfg [] = lang_count"
| "first_known ucfg [s] = pmm_language_for_extension ucfg (Some s)"
| "first_known ucfg (s # t # ts) =
     (case compound_language ucfg s of Some l \<Rightarrow> l | None \<Rightarrow> first_known ucfg (t # ts))"

lemma dot_suffixes_Nil: "dot_suffixes s = [] \<longleftrightarrow> CHR ''.'' \<notin> set s"
  by (induction s) auto

lemma strchr_dot: "strchr_at s (CHR ''.'') = (case dot_suffixes s of [] \<Rightarrow> None | t # ts \<Rightarrow> Some t)"
  by (induction s) (auto simp: strchr_at_def)

lemma strrchr_dot: "strrchr_at s (CHR ''.'') = (if dot_suffixes s = [] then None else Some (last (dot_suffixes s)))"
  by (induction s) (auto split: option.splits)

lemma dot_suffixes_rest: "dot_suffixes s = t # ts \<Longrightarrow> dot_suffixes (tl t) = ts \<and> t \<noteq> [] \<and> length t \<le> length s"
  by (induction s) (fastforce split: if_splits)+

lemma dot_suffixes_length: "t \<in> set (dot_suffixes s) \<Longrightarrow> length t \<le> length s"
  by (induction s) (auto split: if_splits)

lemma compound_probe_known:
  "ts = dot_suffixes s \<Longrightarrow> ts \<noteq> [] \<Longrightarrow>
   (case compound_probe ucfg (length (last ts)) (strchr_at s (CHR ''.'')) of
      Some l \<Rightarrow> l | None \<Rightarrow> pmm_language_for_extension ucfg (Some (last ts))) = first_known ucfg ts"
proof (induction ts arbitrary: s)
  case (Cons t ts)
  have s: "strchr_at s (CHR ''.'') = Some t" "t \<noteq> []" "dot_suffixes (tl t) = ts"
    using Cons.prems(1)[symmetric] dot_suffixes_rest[of s t ts] by (simp_all add: strchr_dot)
  show ?case
  proof (cases ts)
    case Nil
    then show ?thesis
      by (simp add: s compound_probe.simps[of ucfg "length t"])
  next
    case (Cons u us)
    have "last ts \<in> set (dot_suffixes (tl t))"
      using s(3) Cons by simp
    then have "length (last ts) \<le> length (tl t)"
      by (rule dot_suffixes_length)
    then have longer: "\<not> length t \<le> length (last ts)"
      using s(2) by (cases t) auto
    have "compound_probe ucfg (length (last ts)) (Some t) =
        (case compound_language ucfg t of Some l \<Rightarrow> Some l
         | None \<Rightarrow> compound_probe ucfg (length (last ts)) (strchr_at (tl t) (CHR ''.'')))"
      using longer s(2)
      by (subst compound_probe.simps)
        (auto simp: compound_ext_table_def compound_language_def pmm_userconfig_lookup_def Let_def split: option.splits)
    then show ?thesis
      using Cons.IH[of "tl t"] s Cons by (auto split: option.splits)
  qed
qed simp

text \<open>The longest known extension decides.  The scan over the dots of a name, with its stop before the
  last one, gives the language of the first of the name's extensions, from the longest, that the
  user's configuration or the built-in tables know, after the special file names.\<close>

theorem longest_extension_decides:
  "pmm_language_for_filename ucfg (Some name) =
     (if name = [] then lang_count
      else case table_scan filename_table name of
        Some l \<Rightarrow> l
      | None \<Rightarrow> if starts_with ''.env.'' name then ''DOTENV'' else first_known ucfg (dot_suffixes name))"
proof (cases "dot_suffixes name = []")
  case True
  then show ?thesis
    by (simp add: pmm_language_for_filename_def strrchr_dot split: option.splits)
next
  case False
  then show ?thesis
    using compound_probe_known[of "dot_suffixes name" name ucfg]
    by (simp add: pmm_language_for_filename_def strrchr_dot split: option.splits)
qed

text \<open>Not every language name is understood.  The printed name of a language that the tables detect is not
  accepted in the user's configuration.\<close>

theorem printed_name_not_accepted:
  "pmm_language_for_extension None (Some ''.sol'') = ''SOLIDITY'' \<and>
   cbm_languages ! 64 = ''SOLIDITY'' \<and> lang_from_string (Some (pmm_language_name 64)) = lang_count"
  by code_simp

end
