(* ===== verification/Fqn.thy ===== *)
theory Fqn
  imports Disc_Lang
begin

text \<open>
  Qualified names.  The extraction names definitions (src/internal/pmm/helpers.c), the pipeline
  computes the names it looks up, resolves relative imports and derives project names
  (src/src/pipeline/fqn.c), and project names are checked before they become file names
  (src/src/foundation/str_util.c).  Allocation succeeds; a buffer that is written through a pointer
  is the string that it holds.
\<close>

unbundle bit_operations_syntax

section \<open>Names of the pipeline\<close>

fun join_segments :: "string list \<Rightarrow> string" where
  "join_segments [] = []"
| "join_segments [s] = s"
| "join_segments (s # ss) = s @ ''.'' @ join_segments ss"

text \<open>The string before the position of a pointer into it.\<close>

definition before :: "string \<Rightarrow> string \<Rightarrow> string" where
  "before s t = take (length s - length t) s"

definition strip_file_extension :: "string \<Rightarrow> string" where
  "strip_file_extension path =
     (let start = (case strrchr_at path (CHR ''/'') of None \<Rightarrow> path | Some t \<Rightarrow> tl t)
      in case strrchr_at start (CHR ''.'') of None \<Rightarrow> path | Some ext \<Rightarrow> before path ext)"

function tokenize_path :: "string \<Rightarrow> nat \<Rightarrow> string list" where
  "tokenize_path tok max_segs =
     (if tok = [] \<or> max_segs = 0 then []
      else
        let seg = takeWhile (\<lambda>c. c \<noteq> CHR ''/'') tok;
            rest = (case strchr_at tok (CHR ''/'') of None \<Rightarrow> [] | Some slash \<Rightarrow> tl slash)
        in if seg \<noteq> [] then seg # tokenize_path rest (max_segs - 1) else tokenize_path rest max_segs)"
  by pat_completeness auto
termination
  by (relation "measure (\<lambda>(tok, k). length tok)") (auto dest: strchr_at_tl_length split: option.splits)

declare tokenize_path.simps [simp del]

abbreviation FQN_MAX_PATH_SEGS :: nat where "FQN_MAX_PATH_SEGS \<equiv> 254"

definition strip_init_or_index :: "string list \<Rightarrow> string option \<Rightarrow> string list" where
  "strip_init_or_index segments name =
     (if length segments \<le> 1 then segments
      else if last segments \<noteq> ''__init__'' \<and> last segments \<noteq> ''index'' then segments
      else (case name of Some n \<Rightarrow> if n \<noteq> [] then butlast segments else segments | None \<Rightarrow> segments))"

definition str_or_empty :: "string option \<Rightarrow> string" where
  "str_or_empty s = (case s of Some v \<Rightarrow> v | None \<Rightarrow> [])"

definition pmm_pipeline_fqn_compute :: "string option \<Rightarrow> string option \<Rightarrow> string option \<Rightarrow> string" where
  "pmm_pipeline_fqn_compute project rel_path name =
     (case project of
        None \<Rightarrow> []
      | Some proj \<Rightarrow>
          let path = pmm_normalize_path_sep (str_or_empty rel_path);
              is_file_qn = (name = Some ''__file__'');
              path = (if \<not> is_file_qn then strip_file_extension path else path);
              segments = strip_init_or_index (proj # tokenize_path path FQN_MAX_PATH_SEGS) name
          in join_segments
               (case name of Some n \<Rightarrow> if n \<noteq> [] then segments @ [n] else segments | None \<Rightarrow> segments))"

definition pmm_pipeline_fqn_module :: "string option \<Rightarrow> string option \<Rightarrow> string" where
  "pmm_pipeline_fqn_module project rel_path = pmm_pipeline_fqn_compute project rel_path None"

definition pmm_pipeline_fqn_folder :: "string option \<Rightarrow> string option \<Rightarrow> string" where
  "pmm_pipeline_fqn_folder project rel_dir =
     (case project of
        None \<Rightarrow> []
      | Some proj \<Rightarrow> join_segments (proj # tokenize_path (pmm_normalize_path_sep (str_or_empty rel_dir)) FQN_MAX_PATH_SEGS))"

text \<open>The rightmost of two pointers into a string, where NULL is leftmost.\<close>

definition rightmost :: "string option \<Rightarrow> string option \<Rightarrow> string option" where
  "rightmost a b =
     (case a of
        None \<Rightarrow> b
      | Some s \<Rightarrow> (case b of None \<Rightarrow> a | Some t \<Rightarrow> if length s < length t then a else b))"

definition pmm_pipeline_fqn_module_dir :: "string option \<Rightarrow> string option \<Rightarrow> bool \<Rightarrow> string" where
  "pmm_pipeline_fqn_module_dir project rel_path module_is_dir =
     (if \<not> module_is_dir then pmm_pipeline_fqn_module project rel_path
      else
        let src = str_or_empty rel_path in
        case rightmost (strrchr_at src (CHR ''/'')) (strrchr_at src (CHR 0x5C)) of
          None \<Rightarrow> pmm_pipeline_fqn_folder project (Some [])
        | Some sep \<Rightarrow> pmm_pipeline_fqn_folder project (Some (before src sep)))"

section \<open>Relative imports\<close>

abbreviation FQN_PATH_BUF :: nat where "FQN_PATH_BUF \<equiv> 1024"

definition path_append_segment :: "string \<Rightarrow> nat \<Rightarrow> string \<Rightarrow> string option" where
  "path_append_segment buf buf_size seg =
     (if buf_size < length buf + (if buf \<noteq> [] then 1 else 0) + length seg + 1 then None
      else Some (if buf \<noteq> [] then buf @ ''/'' @ seg else seg))"

definition path_pop_segment :: "string \<Rightarrow> string" where
  "path_pop_segment buf = (case strrchr_at buf (CHR ''/'') of Some sep \<Rightarrow> before buf sep | None \<Rightarrow> [])"

definition seed_source_dir :: "nat \<Rightarrow> string option \<Rightarrow> string" where
  "seed_source_dir buf_size source_rel =
     (let buf = map (\<lambda>c. if c = CHR 0x5C then CHR ''/'' else c) (snprintf_buf buf_size (str_or_empty source_rel))
      in case strrchr_at buf (CHR ''/'') of Some sep \<Rightarrow> before buf sep | None \<Rightarrow> [])"

datatype rel_kind = FQN_REL_KIND_NONE | FQN_REL_KIND_PYTHON | FQN_REL_KIND_JS

definition char_at :: "string \<Rightarrow> nat \<Rightarrow> char" where
  "char_at s i = (if i < length s then s ! i else NUL)"

definition classify_relative_import :: "string option \<Rightarrow> rel_kind" where
  "classify_relative_import module_path =
     (case module_path of
        None \<Rightarrow> FQN_REL_KIND_NONE
      | Some m \<Rightarrow>
          if char_at m 0 \<noteq> CHR ''.'' then FQN_REL_KIND_NONE
          else
            let has_slash = CHR ''/'' \<in> set m;
                js_like = (char_at m 1 = CHR ''/'' \<or> char_at m 1 = CHR ''.'' \<and> char_at m 2 = CHR ''/'')
            in if has_slash \<or> js_like then FQN_REL_KIND_JS else FQN_REL_KIND_PYTHON)"

function python_segments :: "string \<Rightarrow> nat \<Rightarrow> string \<Rightarrow> string option" where
  "python_segments buf buf_size p =
     (if p = [] then Some buf
      else
        let seg = takeWhile (\<lambda>c. c \<noteq> CHR ''.'') p;
            rest = (case dropWhile (\<lambda>c. c \<noteq> CHR ''.'') p of [] \<Rightarrow> [] | d # r \<Rightarrow> r)
        in if seg \<noteq> [] then
             (case path_append_segment buf buf_size seg of
                None \<Rightarrow> None
              | Some b \<Rightarrow> python_segments b buf_size rest)
           else python_segments buf buf_size rest)"
  by pat_completeness auto
termination
proof (relation "measure (\<lambda>(b, n, p). length p)")
  fix buf :: string and buf_size :: nat and p seg rest b
  assume p: "p \<noteq> []" and rest: "rest = (case dropWhile (\<lambda>c. c \<noteq> CHR ''.'') p of [] \<Rightarrow> [] | d # r \<Rightarrow> r)"
  have "length rest < length p"
    using p rest length_dropWhile_le[of "\<lambda>c. c \<noteq> CHR ''.''" p] by (cases "dropWhile (\<lambda>c. c \<noteq> CHR ''.'') p") auto
  then show "((b, buf_size, rest), buf, buf_size, p) \<in> measure (\<lambda>(b, n, p). length p)"
    "((buf, buf_size, rest), buf, buf_size, p) \<in> measure (\<lambda>(b, n, p). length p)"
    by simp_all
qed simp

declare python_segments.simps [simp del]

definition resolve_python_relative :: "string \<Rightarrow> nat \<Rightarrow> string \<Rightarrow> string option" where
  "resolve_python_relative buf buf_size module_path =
     (let dot_count = length (takeWhile (\<lambda>c. c = CHR ''.'') module_path);
          p = dropWhile (\<lambda>c. c = CHR ''.'') module_path
      in python_segments ((path_pop_segment ^^ (dot_count - 1)) buf) buf_size p)"

text \<open>A segment without its extension; a dot in front is not one.\<close>

definition strip_ext :: "string \<Rightarrow> string" where
  "strip_ext seg =
     (case strrchr_at seg (CHR ''.'') of
        None \<Rightarrow> seg
      | Some dot \<Rightarrow> if length dot < length seg then before seg dot else seg)"

function js_segments :: "string \<Rightarrow> nat \<Rightarrow> string \<Rightarrow> string option" where
  "js_segments buf buf_size p =
     (let q = dropWhile (\<lambda>c. c = CHR ''/'') p in
      if q = [] then Some buf
      else
        let seg = takeWhile (\<lambda>c. c \<noteq> CHR ''/'') q; rest = dropWhile (\<lambda>c. c \<noteq> CHR ''/'') q in
        if seg = ''.'' then js_segments buf buf_size rest
        else if seg = ''..'' then js_segments (path_pop_segment buf) buf_size rest
        else
          let seg' = (if rest = [] then strip_ext seg else seg) in
          if seg' \<noteq> [] then
            (case path_append_segment buf buf_size seg' of
               None \<Rightarrow> None
             | Some b \<Rightarrow> js_segments b buf_size rest)
          else js_segments buf buf_size rest)"
  by pat_completeness auto
termination
proof -
  have less: "length (dropWhile (\<lambda>c. c \<noteq> CHR ''/'') q) < length p"
    if "q = dropWhile (\<lambda>c. c = CHR ''/'') p" "q \<noteq> []" for p q
  proof -
    note Q = that
    obtain c r where q: "q = c # r"
      using Q(2) by (cases q) auto
    then have "c \<noteq> CHR ''/''"
      using Q(1) hd_dropWhile[of "\<lambda>c. c = CHR ''/''" p] by (metis list.discI list.sel(1))
    then have "length (dropWhile (\<lambda>c. c \<noteq> CHR ''/'') q) \<le> length r"
      by (simp add: q length_dropWhile_le)
    moreover have "length q \<le> length p"
      using Q(1) by (simp add: length_dropWhile_le)
    ultimately show ?thesis
      by (simp add: q)
  qed
  show ?thesis
    by (relation "measure (\<lambda>(b, n, p). length p)") (auto intro: less)
qed

declare js_segments.simps [simp del]

definition resolve_js_relative :: "string \<Rightarrow> nat \<Rightarrow> string \<Rightarrow> string option" where
  "resolve_js_relative buf buf_size module_path = js_segments buf buf_size module_path"

definition pmm_pipeline_resolve_relative_import :: "string option \<Rightarrow> string option \<Rightarrow> string option" where
  "pmm_pipeline_resolve_relative_import source_rel module_path =
     (let kind = classify_relative_import module_path in
      if kind = FQN_REL_KIND_NONE then None
      else
        let buf = seed_source_dir FQN_PATH_BUF source_rel in
        if kind = FQN_REL_KIND_PYTHON then resolve_python_relative buf FQN_PATH_BUF (str_or_empty module_path)
        else resolve_js_relative buf FQN_PATH_BUF (str_or_empty module_path))"

section \<open>Project names\<close>

abbreviation FQN_MAX_NAME_LEN :: nat where "FQN_MAX_NAME_LEN \<equiv> 200"

definition fnv1a32 :: "string \<Rightarrow> 32 word" where
  "fnv1a32 s = fold (\<lambda>c h. (h XOR of_nat (of_char c)) * 16777619) s 2166136261"

definition hex_char :: "nat \<Rightarrow> char" where
  "hex_char d = ''0123456789abcdef'' ! (d mod 16)"

text \<open>\<open>%08x\<close>.\<close>

definition show_hex8 :: "32 word \<Rightarrow> string" where
  "show_hex8 w = map (\<lambda>i. hex_char (unat (drop_bit (4 * i) w))) (rev [0..<8])"

definition fqn_bound_name_len :: "string \<Rightarrow> string" where
  "fqn_bound_name_len name =
     (if length name \<le> FQN_MAX_NAME_LEN then name
      else take (FQN_MAX_NAME_LEN - 9) name @ ''-'' @ show_hex8 (fnv1a32 name))"

definition path_is_root_syntax :: "string \<Rightarrow> bool" where
  "path_is_root_syntax path \<longleftrightarrow> path \<noteq> [] \<and> list_all (\<lambda>c. c = CHR ''/'' \<or> c = CHR 0x5C \<or> c = CHR '':'') path"

definition name_char_safe :: "char \<Rightarrow> bool" where
  "name_char_safe c \<longleftrightarrow> c_isalnum c \<or> c = CHR ''.'' \<or> c = CHR ''_'' \<or> c = CHR ''-''"

definition map_name_char :: "char \<Rightarrow> string" where
  "map_name_char c =
     (if name_char_safe c then [c]
      else if 128 \<le> (of_char c :: nat) then [hex_char (of_char c div 16), hex_char (of_char c)]
      else ''-'')"

fun collapse_runs :: "char \<Rightarrow> string \<Rightarrow> string" where
  "collapse_runs prev [] = []"
| "collapse_runs prev (c # cs) =
     (if c = CHR ''-'' \<and> prev = CHR ''-'' \<or> c = CHR ''.'' \<and> prev = CHR ''.'' then collapse_runs prev cs
      else c # collapse_runs c cs)"

text \<open>\<open>canonical\<close> is the canonical path of the system, NULL when there is none or it does not fit.\<close>

definition pmm_project_name_from_path :: "(string \<Rightarrow> string option) \<Rightarrow> string option \<Rightarrow> string" where
  "pmm_project_name_from_path canonical abs_path =
     (case abs_path of
        None \<Rightarrow> ''root''
      | Some p \<Rightarrow>
          if p = [] \<or> path_is_root_syntax p then ''root''
          else
            let name_path = (case canonical p of Some r \<Rightarrow> pmm_normalize_path_sep r | None \<Rightarrow> p);
                path = pmm_normalize_path_sep name_path;
                mapped = concat (map map_name_char path);
                collapsed = collapse_runs NUL mapped;
                start = dropWhile (\<lambda>c. c = CHR ''-'' \<or> c = CHR ''.'') collapsed;
                trimmed = rev (dropWhile (\<lambda>c. c = CHR ''-'') (rev start))
            in if trimmed = [] then ''root'' else fqn_bound_name_len trimmed)"

definition pmm_validate_project_name :: "string option \<Rightarrow> bool" where
  "pmm_validate_project_name name =
     (case name of
        None \<Rightarrow> False
      | Some n \<Rightarrow>
          if n = [] then False
          else if n = ''..'' \<or> strstr n ''..'' \<noteq> None then False
          else if CHR ''/'' \<in> set n \<or> CHR 0x5C \<in> set n then False
          else if hd n = CHR ''.'' then False
          else list_all name_char_safe n)"

section \<open>Names of the extraction\<close>

text \<open>The loop runs from the end of the path to the last separator.\<close>

fun strip_ext_loop :: "string \<Rightarrow> nat \<Rightarrow> nat" where
  "strip_ext_loop s 0 = length s"
| "strip_ext_loop s (Suc i) =
     (if s ! i = CHR ''.'' then (if i = 0 \<or> s ! (i - 1) = CHR ''/'' then length s else i)
      else if s ! i = CHR ''/'' then length s
      else strip_ext_loop s i)"

definition strip_ext_len :: "string \<Rightarrow> nat" where
  "strip_ext_len s = strip_ext_loop s (length s)"

definition should_skip_fqn_part :: "string \<Rightarrow> bool \<Rightarrow> bool \<Rightarrow> bool" where
  "should_skip_fqn_part part is_last has_name =
     (if \<not> is_last \<or> \<not> has_name then False else part = ''__init__'' \<or> part = ''index'')"

text \<open>What one part of the path adds to the name: a dot and the part without a leading dot.\<close>

definition append_part :: "string \<Rightarrow> bool \<Rightarrow> bool \<Rightarrow> string" where
  "append_part part is_last has_name =
     (if part = [] \<or> should_skip_fqn_part part is_last has_name then []
      else
        let seg = (if hd part = CHR ''.'' then tl part else part) in
        if seg \<noteq> [] then CHR ''.'' # seg else [])"

function append_path_segments :: "string \<Rightarrow> bool \<Rightarrow> string" where
  "append_path_segments start has_name =
     (if start = [] then []
      else
        let part = takeWhile (\<lambda>c. c \<noteq> CHR ''/'') start in
        case strchr_at start (CHR ''/'') of
          None \<Rightarrow> append_part part True has_name
        | Some slash \<Rightarrow> append_part part False has_name @ append_path_segments (tl slash) has_name)"
  by pat_completeness auto
termination
  by (relation "measure (\<lambda>(s, b). length s)") (auto dest: strchr_at_tl_length)

declare append_path_segments.simps [simp del]

definition pmm_fqn_compute :: "string option \<Rightarrow> string option \<Rightarrow> string option \<Rightarrow> string" where
  "pmm_fqn_compute project rel_path name =
     (let proj = str_or_empty project; path = str_or_empty rel_path; nm = str_or_empty name in
      proj @ append_path_segments (take (strip_ext_len path) path) (nm \<noteq> []) @
      (if nm \<noteq> [] then CHR ''.'' # nm else []))"

definition pmm_fqn_module :: "string option \<Rightarrow> string option \<Rightarrow> string" where
  "pmm_fqn_module project rel_path = pmm_fqn_compute project rel_path None"

definition pmm_lang_module_is_dir :: "cbm_language \<Rightarrow> bool" where
  "pmm_lang_module_is_dir lang \<longleftrightarrow> lang = ''JAVA'' \<or> lang = ''GO''"

function folder_segments :: "string \<Rightarrow> string" where
  "folder_segments start =
     (if start = [] then []
      else
        let part = takeWhile (\<lambda>c. c \<noteq> CHR ''/'') start;
            here = (if part \<noteq> [] then CHR ''.'' # part else [])
        in case strchr_at start (CHR ''/'') of
             None \<Rightarrow> here
           | Some slash \<Rightarrow> here @ folder_segments (tl slash))"
  by pat_completeness auto
termination
  by (relation "measure length") (auto dest: strchr_at_tl_length)

declare folder_segments.simps [simp del]

definition pmm_fqn_folder :: "string \<Rightarrow> string \<Rightarrow> string" where
  "pmm_fqn_folder project rel_dir =
     project @ (if rel_dir \<noteq> [] \<and> rel_dir \<noteq> ''.'' then folder_segments rel_dir else [])"

text \<open>\<open>project\<close> is not NULL where a directory module is asked for.\<close>

definition pmm_fqn_module_source_lang :: "string \<Rightarrow> string option \<Rightarrow> cbm_language \<Rightarrow> string" where
  "pmm_fqn_module_source_lang project rel_path lang =
     (if \<not> pmm_lang_module_is_dir lang then pmm_fqn_module (Some project) rel_path
      else
        let path = str_or_empty rel_path in
        case strrchr_at path (CHR ''/'') of
          None \<Rightarrow> pmm_fqn_folder project []
        | Some slash \<Rightarrow> pmm_fqn_folder project (before path slash))"

definition pmm_fqn_compute_source_lang :: "string \<Rightarrow> string option \<Rightarrow> string option \<Rightarrow> cbm_language \<Rightarrow> string" where
  "pmm_fqn_compute_source_lang project rel_path name lang =
     (if \<not> pmm_lang_module_is_dir lang then pmm_fqn_compute (Some project) rel_path name
      else
        let module = pmm_fqn_module_source_lang project rel_path lang in
        if str_or_empty name = [] then module else module @ ''.'' @ str_or_empty name)"

end
