(* ===== verification/Fqn_Facts.thy ===== *)
theory Fqn_Facts
  imports Fqn Gitignore_Facts
begin

section \<open>Project names\<close>

text \<open>No two dashes and no two dots in a row.\<close>

definition no_run :: "char \<Rightarrow> char \<Rightarrow> bool" where
  "no_run a b \<longleftrightarrow> \<not> (a = b \<and> (b = CHR ''-'' \<or> b = CHR ''.''))"

lemma strstr_pair: "strstr s [a, b] = None \<longleftrightarrow> successively (\<lambda>x y. \<not> (x = a \<and> y = b)) s"
proof (induction s)
  case (Cons c s)
  then show ?case
    by (cases s) auto
qed simp

lemma no_run_pairs:
  "successively no_run s \<longleftrightarrow> strstr s ''--'' = None \<and> strstr s ''..'' = None"
proof (induction s)
  case (Cons c s)
  then show ?case
    by (cases s) (auto simp: no_run_def)
qed simp

lemma collapse_no_run: "successively no_run (prev # collapse_runs prev s)"
  by (induction prev s rule: collapse_runs.induct) (auto simp: no_run_def)

lemma collapse_id: "successively no_run (prev # s) \<Longrightarrow> collapse_runs prev s = s"
  by (induction prev s rule: collapse_runs.induct) (auto simp: no_run_def)

lemma collapse_set: "set (collapse_runs prev s) \<subseteq> set s"
  by (induction prev s rule: collapse_runs.induct) auto

lemma collapse_length: "length (collapse_runs prev s) \<le> length s"
  by (induction prev s rule: collapse_runs.induct) auto

lemma hex_char_safe: "name_char_safe (hex_char d)" "hex_char d \<noteq> CHR ''.''" "hex_char d \<noteq> CHR ''-''"
proof -
  have "hex_char d \<in> set ''0123456789abcdef''"
    unfolding hex_char_def by (rule nth_mem) simp
  moreover have "list_all (\<lambda>c. name_char_safe c \<and> c \<noteq> CHR ''.'' \<and> c \<noteq> CHR ''-'') ''0123456789abcdef''"
    by code_simp
  ultimately have "name_char_safe (hex_char d) \<and> hex_char d \<noteq> CHR ''.'' \<and> hex_char d \<noteq> CHR ''-''"
    unfolding list_all_iff by (rule bspec[rotated])
  then show "name_char_safe (hex_char d)" "hex_char d \<noteq> CHR ''.''" "hex_char d \<noteq> CHR ''-''"
    by simp_all
qed

lemma map_name_char_safe: "list_all name_char_safe (map_name_char c)"
proof -
  have "name_char_safe (CHR ''-'')"
    by (simp add: name_char_safe_def)
  then show ?thesis
    by (simp add: map_name_char_def hex_char_safe)
qed

text \<open>A name between the steps: what trimming leaves.\<close>

definition clean :: "string \<Rightarrow> bool" where
  "clean s \<longleftrightarrow> s \<noteq> [] \<and> list_all name_char_safe s \<and> successively no_run s \<and>
     hd s \<noteq> CHR ''-'' \<and> hd s \<noteq> CHR ''.'' \<and> last s \<noteq> CHR ''-''"

definition trim_name :: "string \<Rightarrow> string" where
  "trim_name s = rev (dropWhile (\<lambda>c. c = CHR ''-'') (rev (dropWhile (\<lambda>c. c = CHR ''-'' \<or> c = CHR ''.'') s)))"

lemma rev_dropWhile_prefix: "\<exists>b. m = rev (dropWhile P (rev m)) @ b"
  by (metis rev_append rev_rev_ident takeWhile_dropWhile_id)

lemma trim_name_clean:
  assumes "list_all name_char_safe s" "trim_name (collapse_runs NUL s) \<noteq> []"
  shows "clean (trim_name (collapse_runs NUL s))"
proof -
  let ?c = "collapse_runs NUL s"
  let ?m = "dropWhile (\<lambda>c. c = CHR ''-'' \<or> c = CHR ''.'') ?c" and ?t = "trim_name ?c"
  obtain a where a: "?c = a @ ?m"
    by (metis takeWhile_dropWhile_id)
  obtain b where b: "?m = ?t @ b"
    using rev_dropWhile_prefix unfolding trim_name_def by blast
  have "successively no_run ?c"
    using collapse_no_run[of NUL s] by (auto simp: successively_Cons)
  moreover have c: "?c = a @ ?t @ b"
    using a b by simp
  ultimately have "successively no_run (a @ ?t @ b)"
    by metis
  then have "successively no_run ?t"
    by (simp add: successively_append_iff)
  moreover have "set ?t \<subseteq> set ?c"
    by (subst c) auto
  then have "list_all name_char_safe ?t"
    using assms(1) collapse_set[of NUL s] by (auto simp: list_all_iff)
  moreover have "?m \<noteq> []"
    using assms(2) b by auto
  then have "hd ?m \<noteq> CHR ''-''" "hd ?m \<noteq> CHR ''.''"
    using hd_dropWhile[of "\<lambda>c. c = CHR ''-'' \<or> c = CHR ''.''" ?c] by blast+
  then have "hd ?t \<noteq> CHR ''-''" "hd ?t \<noteq> CHR ''.''"
    using assms(2) hd_append2[of ?t b] unfolding b[symmetric] by simp_all
  moreover have "dropWhile (\<lambda>c. c = CHR ''-'') (rev ?m) \<noteq> []"
    using assms(2) by (simp add: trim_name_def)
  then have "last ?t \<noteq> CHR ''-''"
    using hd_dropWhile[of "\<lambda>c. c = CHR ''-''" "rev ?m"] by (simp add: trim_name_def last_rev)
  ultimately show ?thesis
    using assms(2) by (simp add: clean_def)
qed

lemma trim_name_id: "clean s \<Longrightarrow> trim_name s = s"
proof -
  assume "clean s"
  then have "dropWhile (\<lambda>c. c = CHR ''-'' \<or> c = CHR ''.'') s = s"
    by (cases s) (auto simp: clean_def)
  moreover have "dropWhile (\<lambda>c. c = CHR ''-'') (rev s) = rev s"
    using \<open>clean s\<close> by (cases s rule: rev_cases) (auto simp: clean_def)
  ultimately show ?thesis
    by (simp add: trim_name_def)
qed

lemma show_hex8_safe: "list_all name_char_safe (show_hex8 w)" "CHR ''.'' \<notin> set (show_hex8 w)"
  "CHR ''-'' \<notin> set (show_hex8 w)" "length (show_hex8 w) = 8"
  using hex_char_safe by (auto simp: show_hex8_def list_all_iff) (metis hex_char_safe)+

lemma no_dots_append:
  assumes "CHR ''.'' \<notin> set h"
  shows "successively (\<lambda>x y. \<not> (x = CHR ''.'' \<and> y = CHR ''.'')) h"
  using assms by (induction h) (auto simp: successively_Cons)

lemma bound_name:
  assumes "clean s"
  shows "length (fqn_bound_name_len s) \<le> 200" "fqn_bound_name_len s \<noteq> []" "hd (fqn_bound_name_len s) = hd s"
    "list_all name_char_safe (fqn_bound_name_len s)" "strstr (fqn_bound_name_len s) ''..'' = None"
    "last (fqn_bound_name_len s) \<noteq> CHR ''-''"
proof -
  have short: "s \<noteq> []" "strstr s ''..'' = None" "list_all name_char_safe s" "last s \<noteq> CHR ''-''"
    using assms by (simp_all add: clean_def no_run_pairs)
  let ?h = "show_hex8 (fnv1a32 s)"
  have "?h \<noteq> []"
    using show_hex8_safe(4)[of "fnv1a32 s"] by auto
  then have "last ?h \<in> set ?h"
    by simp
  then have h: "?h \<noteq> []" "successively (\<lambda>x y. \<not> (x = CHR ''.'' \<and> y = CHR ''.'')) ?h" "last ?h \<noteq> CHR ''-''"
    using \<open>?h \<noteq> []\<close> show_hex8_safe(2,3)[of "fnv1a32 s"] no_dots_append by (blast, blast, metis)
  have t: "successively (\<lambda>x y. \<not> (x = CHR ''.'' \<and> y = CHR ''.'')) (take n s)" for n
    using short(2) successively_append_iff[of _ "take n s" "drop n s"] unfolding strstr_pair by simp
  have l: "list_all name_char_safe (take n s)" for n
    using short(3) by (auto simp: list_all_iff dest: in_set_takeD)
  have dash: "name_char_safe (CHR ''-'')"
    by (simp add: name_char_safe_def)
  show "length (fqn_bound_name_len s) \<le> 200"
    by (simp add: fqn_bound_name_len_def show_hex8_safe)
  show "fqn_bound_name_len s \<noteq> []" "hd (fqn_bound_name_len s) = hd s"
    using short(1) by (auto simp: fqn_bound_name_len_def hd_append)
  show "list_all name_char_safe (fqn_bound_name_len s)"
    using short(3) l show_hex8_safe(1) dash by (simp add: fqn_bound_name_len_def)
  show "last (fqn_bound_name_len s) \<noteq> CHR ''-''"
    using short(4) h by (simp add: fqn_bound_name_len_def)
  show "strstr (fqn_bound_name_len s) ''..'' = None"
    using short(2) t h(2) unfolding fqn_bound_name_len_def strstr_pair
    by (simp add: successively_append_iff successively_Cons)
qed

lemma project_name_cases:
  obtains "pmm_project_name_from_path canonical p = ''root''"
  | s where "clean s" "pmm_project_name_from_path canonical p = fqn_bound_name_len s"
proof -
  have safe: "list_all name_char_safe (concat (map map_name_char path))" for path
    using map_name_char_safe by (auto simp: list_all_iff)
  show ?thesis
  proof (cases "p = None \<or> p = Some [] \<or> path_is_root_syntax (the p)")
    case True
    then have "pmm_project_name_from_path canonical p = ''root''"
      by (cases p) (auto simp: pmm_project_name_from_path_def)
    then show ?thesis
      by (rule that(1))
  next
    case False
    then obtain q where q: "p = Some q" "q \<noteq> []" "\<not> path_is_root_syntax q"
      by (cases p) auto
    let ?path = "pmm_normalize_path_sep (case canonical q of Some r \<Rightarrow> pmm_normalize_path_sep r | None \<Rightarrow> q)"
    let ?t = "trim_name (collapse_runs NUL (concat (map map_name_char ?path)))"
    have e: "pmm_project_name_from_path canonical p = (if ?t = [] then ''root'' else fqn_bound_name_len ?t)"
      using q(2,3) by (simp only: pmm_project_name_from_path_def trim_name_def Let_def q(1) option.case if_False simp_thms)
    then show ?thesis
      using that(1) that(2)[OF trim_name_clean[OF safe]] by (cases "?t = []") simp_all
  qed
qed

text \<open>What the derivation gives without a canonical path.\<close>

lemma safe_char_plain: "name_char_safe c \<Longrightarrow> c \<noteq> CHR ''/'' \<and> c \<noteq> CHR 0x5C \<and> c \<noteq> CHR '':''"
  by (auto simp: name_char_safe_def c_isalnum_def c_isalpha_def c_isdigit_def)

lemma safe_name_normal:
  assumes "list_all name_char_safe n"
  shows "pmm_normalize_path_sep n = n" "concat (map map_name_char n) = n" "path_is_root_syntax n \<longleftrightarrow> False"
proof -
  have m: "map (\<lambda>c. if c = CHR 0x5C then CHR ''/'' else c) n = n"
    using assms safe_char_plain by (induction n) auto
  have "\<not> name_char_safe (CHR '':'')"
    using safe_char_plain by blast
  then have "pmm_canonicalize_drive n = n"
    using assms by (auto simp: pmm_canonicalize_drive_def split: list.splits)
  then show "pmm_normalize_path_sep n = n"
    by (simp add: pmm_normalize_path_sep_def m)
  show "concat (map map_name_char n) = n"
    using assms by (induction n) (auto simp: map_name_char_def)
  show "path_is_root_syntax n \<longleftrightarrow> False"
    using assms safe_char_plain by (cases n) (auto simp: path_is_root_syntax_def)
qed

lemma project_name_again:
  assumes "n \<noteq> []" "list_all name_char_safe n" "length n \<le> 200"
  shows "pmm_project_name_from_path Map.empty (Some n) =
    (if trim_name (collapse_runs NUL n) = [] then ''root'' else trim_name (collapse_runs NUL n))"
proof -
  have c: "length (collapse_runs NUL n) \<le> length n"
    by (rule collapse_length)
  have "length (trim_name s) \<le> length s" for s
    unfolding trim_name_def using length_dropWhile_le order_trans by (metis length_rev)
  then have "length (trim_name (collapse_runs NUL n)) \<le> 200"
    using c assms(3) by (metis order_trans)
  then have b: "fqn_bound_name_len (trim_name (collapse_runs NUL n)) = trim_name (collapse_runs NUL n)"
    by (simp add: fqn_bound_name_len_def)
  have "pmm_project_name_from_path Map.empty (Some n) =
      (if trim_name (collapse_runs NUL n) = [] then ''root'' else fqn_bound_name_len (trim_name (collapse_runs NUL n)))"
    using assms(1) safe_name_normal[OF assms(2)]
    by (simp only: pmm_project_name_from_path_def option.case Let_def trim_name_def simp_thms if_False)
  then show ?thesis
    by (simp only: b)
qed

end
