(* ===== verification/Fqn_Paths.thy ===== *)
theory Fqn_Paths
  imports Fqn Gitignore_Facts
begin

text \<open>
  Paths as lists of components: what the functions of src/src/pipeline/fqn.c and
  src/internal/pmm/helpers.c that work on strings and buffers do to the list.
\<close>

section \<open>Components\<close>

definition component :: "string \<Rightarrow> bool" where
  "component c \<longleftrightarrow> c \<noteq> [] \<and> CHR ''/'' \<notin> set c"

abbreviation components :: "string list \<Rightarrow> bool" where
  "components \<equiv> list_all component"

fun join_slash :: "string list \<Rightarrow> string" where
  "join_slash [] = []"
| "join_slash [c] = c"
| "join_slash (c # cs) = c @ ''/'' @ join_slash cs"

abbreviation split_path :: "string \<Rightarrow> string list" where
  "split_path \<equiv> split_char (CHR ''/'')"

lemma join_slash_Cons: "join_slash (c # cs) = (if cs = [] then c else c @ CHR ''/'' # join_slash cs)"
  by (cases cs) auto

lemma join_slash_append: "join_slash (cs @ [c]) = (if cs = [] then c else join_slash cs @ CHR ''/'' # c)"
  by (induction cs) (auto simp: join_slash_Cons)

lemma join_slash_Nil [simp]: "components cs \<Longrightarrow> join_slash cs = [] \<longleftrightarrow> cs = []"
  by (cases cs) (auto simp: join_slash_Cons component_def)

lemma split_join: "cs \<noteq> [] \<Longrightarrow> components cs \<Longrightarrow> split_path (join_slash cs) = cs"
proof (induction cs)
  case (Cons c cs)
  then show ?case
    by (cases "cs = []") (auto simp: join_slash_Cons component_def split_char_single split_char_append)
qed simp

lemma join_split: "join_slash (split_path s) = s"
proof (induction s)
  case (Cons c s)
  show ?case
  proof (cases "split_path s")
    case (Cons d ds)
    then show ?thesis
      using Cons.IH by (cases ds) (auto simp: join_slash_Cons)
  qed (use split_char_not_Nil in blast)
qed simp

lemma split_path_components: "list_all (\<lambda>c. c \<noteq> []) (split_path s) \<Longrightarrow> components (split_path s)"
proof -
  have "c \<in> set (split_path s) \<Longrightarrow> CHR ''/'' \<notin> set c" for c
  proof (induction s arbitrary: c)
    case (Cons d s)
    have "hd (split_path s) \<in> set (split_path s)"
      by (simp add: split_char_not_Nil)
    moreover have "c \<in> set (tl (split_path s)) \<Longrightarrow> c \<in> set (split_path s)" for c
      by (meson list.set_sel(2) split_char_not_Nil)
    ultimately show ?case
      using Cons by (auto split: if_splits)
  qed simp
  then show "list_all (\<lambda>c. c \<noteq> []) (split_path s) \<Longrightarrow> components (split_path s)"
    by (auto simp: list_all_iff component_def)
qed

section \<open>Pointers into a path\<close>

lemma before_append [simp]: "before (u @ t) t = u"
  by (simp add: before_def)

lemma strchr_join:
  assumes "component c"
  shows "strchr_at (c @ CHR ''/'' # r) (CHR ''/'') = Some (CHR ''/'' # r)" "strchr_at c (CHR ''/'') = None"
    "takeWhile (\<lambda>d. d \<noteq> CHR ''/'') (c @ CHR ''/'' # r) = c" "takeWhile (\<lambda>d. d \<noteq> CHR ''/'') c = c"
    "dropWhile (\<lambda>d. d \<noteq> CHR ''/'') (c @ CHR ''/'' # r) = CHR ''/'' # r" "dropWhile (\<lambda>d. d \<noteq> CHR ''/'') c = []"
proof -
  have c: "CHR ''/'' \<notin> set c"
    using assms by (simp add: component_def)
  then show "strchr_at (c @ CHR ''/'' # r) (CHR ''/'') = Some (CHR ''/'' # r)" "strchr_at c (CHR ''/'') = None"
    by (auto simp: strchr_at_Some strchr_at_None)
  have "\<forall>x\<in>set c. x \<noteq> CHR ''/''"
    using c by blast
  then show "takeWhile (\<lambda>d. d \<noteq> CHR ''/'') (c @ CHR ''/'' # r) = c" "takeWhile (\<lambda>d. d \<noteq> CHR ''/'') c = c"
    "dropWhile (\<lambda>d. d \<noteq> CHR ''/'') (c @ CHR ''/'' # r) = CHR ''/'' # r" "dropWhile (\<lambda>d. d \<noteq> CHR ''/'') c = []"
    by (simp_all add: takeWhile_append_stop dropWhile_append_stop takeWhile_eq_all_conv dropWhile_eq_Nil_conv)
qed

lemma strrchr_join:
  assumes "component c"
  shows "strrchr_at (join_slash (cs @ [c])) (CHR ''/'') = (if cs = [] then None else Some (CHR ''/'' # c))"
proof -
  have c: "CHR ''/'' \<notin> set c"
    using assms by (simp add: component_def)
  show ?thesis
    using c by (auto simp: join_slash_append strrchr_at_None strrchr_at_Some)
qed

lemma before_last: "cs \<noteq> [] \<Longrightarrow> before (join_slash (cs @ [c])) (CHR ''/'' # c) = join_slash cs"
  by (simp add: join_slash_append)

text \<open>A name without its last dot and what follows.\<close>

definition stem :: "string \<Rightarrow> string" where
  "stem c = (case strrchr_at c (CHR ''.'') of None \<Rightarrow> c | Some ext \<Rightarrow> before c ext)"

lemma stem_cases:
  obtains "CHR ''.'' \<notin> set c" "stem c = c" | a b where "c = a @ CHR ''.'' # b" "CHR ''.'' \<notin> set b" "stem c = a"
proof (cases "strrchr_at c (CHR ''.'')")
  case None
  then have "stem c = c" "CHR ''.'' \<notin> set c"
    by (simp_all add: stem_def flip: strrchr_at_None)
  then show ?thesis
    using that(1) by blast
next
  case (Some t)
  then obtain a b where "c = a @ CHR ''.'' # b" "t = CHR ''.'' # b" "CHR ''.'' \<notin> set b"
    by (auto simp: strrchr_at_Some)
  then show ?thesis
    using that(2) Some by (simp add: stem_def)
qed

lemma stem_ext: "CHR ''.'' \<notin> set b \<Longrightarrow> stem (a @ CHR ''.'' # b) = a"
  by (rule stem_cases[of "a @ CHR ''.'' # b"]) (auto simp: append_eq_append_conv2 append_eq_Cons_conv Cons_eq_append_conv)

lemma stem_component: "component c \<Longrightarrow> hd c \<noteq> CHR ''.'' \<Longrightarrow> component (stem c)"
  by (rule stem_cases[of c]) (auto simp: component_def hd_append split: if_splits)

lemma strip_file_extension_join:
  assumes "component c"
  shows "strip_file_extension (join_slash (cs @ [c])) = join_slash (cs @ [stem c])"
proof -
  have s: "(case strrchr_at (join_slash (cs @ [c])) (CHR ''/'') of None \<Rightarrow> join_slash (cs @ [c]) | Some t \<Rightarrow> tl t) = c"
    using strrchr_join[OF assms, of cs] by (cases "cs = []") auto
  show ?thesis
  proof (rule stem_cases[of c])
    assume "CHR ''.'' \<notin> set c" "stem c = c"
    then have "strrchr_at c (CHR ''.'') = None"
      by (simp add: strrchr_at_None)
    then show ?thesis
      using \<open>stem c = c\<close> by (simp add: strip_file_extension_def s)
  next
    fix a b
    assume c: "c = a @ CHR ''.'' # b" "CHR ''.'' \<notin> set b" "stem c = a"
    then have "strrchr_at c (CHR ''.'') = Some (CHR ''.'' # b)"
      by (auto simp: strrchr_at_Some)
    then have "strip_file_extension (join_slash (cs @ [c])) = before (join_slash (cs @ [c])) (CHR ''.'' # b)"
      by (simp add: strip_file_extension_def s)
    moreover have "join_slash (cs @ [c]) = join_slash (cs @ [a]) @ CHR ''.'' # b"
      by (simp add: join_slash_append c(1))
    ultimately show ?thesis
      by (metis before_append c(3))
  qed
qed

lemma tokenize_join: "components cs \<Longrightarrow> tokenize_path (join_slash cs) k = take k cs"
proof (induction cs arbitrary: k)
  case Nil
  then show ?case
    by (simp add: tokenize_path.simps)
next
  case (Cons c cs)
  then have c: "component c" "c \<noteq> []"
    by (simp_all add: component_def)
  show ?case
  proof (cases k)
    case 0
    then show ?thesis
      by (subst tokenize_path.simps) simp
  next
    case (Suc j)
    have rec: "tokenize_path (if cs = [] then [] else join_slash cs) j = take j cs"
      using Cons by (cases "cs = []") (simp_all add: tokenize_path.simps[of "[]"])
    show ?thesis
    proof (cases "cs = []")
      case True
      then show ?thesis
        using c rec by (subst tokenize_path.simps) (simp add: Suc strchr_join Let_def)
    next
      case False
      then show ?thesis
        using c rec by (subst tokenize_path.simps) (simp add: Suc strchr_join Let_def join_slash_Cons)
    qed
  qed
qed

lemma join_segments_Cons: "join_segments (p # cs) = p @ concat (map (\<lambda>c. CHR ''.'' # c) cs)"
proof (induction cs arbitrary: p)
  case (Cons c cs)
  then show ?case
    by simp
qed simp

section \<open>The names of the extraction\<close>

lemma strip_ext_scan:
  "(\<forall>j. i \<le> j \<and> j < i + k \<longrightarrow> s ! j \<noteq> CHR ''.'' \<and> s ! j \<noteq> CHR ''/'') \<Longrightarrow> strip_ext_loop s (i + k) = strip_ext_loop s i"
  by (induction k) auto

lemma strip_ext_join:
  assumes "components (cs @ [c])" "hd c \<noteq> CHR ''.''"
  shows "take (strip_ext_len (join_slash (cs @ [c]))) (join_slash (cs @ [c])) = join_slash (cs @ [stem c])"
proof -
  let ?p = "if cs = [] then [] else join_slash cs @ ''/''"
  have j: "join_slash (cs @ [d]) = ?p @ d" for d
    by (simp add: join_slash_append)
  have c: "CHR ''/'' \<notin> set c" "c \<noteq> []"
    using assms(1) by (simp_all add: component_def)
  have scan: "strip_ext_loop (?p @ u @ v) (length ?p + length u + length v) = strip_ext_loop (?p @ u @ v) (length ?p + length u)"
    if "CHR ''.'' \<notin> set v" "CHR ''/'' \<notin> set v" for u v
  proof (rule strip_ext_scan)
    show "\<forall>j. length ?p + length u \<le> j \<and> j < length ?p + length u + length v \<longrightarrow>
        (?p @ u @ v) ! j \<noteq> CHR ''.'' \<and> (?p @ u @ v) ! j \<noteq> CHR ''/''"
    proof (intro allI impI)
      fix j
      assume *: "length ?p + length u \<le> j \<and> j < length ?p + length u + length v"
      then have "(?p @ u @ v) ! j = v ! (j - (length ?p + length u))"
        by (simp only: append_assoc[symmetric] nth_append length_append) simp
      moreover have "v ! (j - (length ?p + length u)) \<in> set v"
        using * by (intro nth_mem) linarith
      ultimately show "(?p @ u @ v) ! j \<noteq> CHR ''.'' \<and> (?p @ u @ v) ! j \<noteq> CHR ''/''"
        using that by metis
    qed
  qed
  show ?thesis
  proof (rule stem_cases[of c])
    assume s: "CHR ''.'' \<notin> set c" "stem c = c"
    have "strip_ext_loop (?p @ c) (length ?p) = length (?p @ c)"
      by (cases "cs = []") (simp_all add: nth_append)
    then have "strip_ext_len (?p @ c) = length (?p @ c)"
      using scan[OF s(1) c(1), of "[]"] by (simp add: strip_ext_len_def)
    then show ?thesis
      by (simp add: j s(2))
  next
    fix a b
    assume s: "c = a @ CHR ''.'' # b" "CHR ''.'' \<notin> set b" "stem c = a"
    then obtain a' z where a: "a = a' @ [z]"
      using assms(2) by (cases a rule: rev_cases) auto
    have z: "z \<noteq> CHR ''/''" "CHR ''/'' \<notin> set b"
      using c(1) s(1) a by auto
    have n: "(?p @ a @ ''.'' @ b) ! (length ?p + length a) = CHR ''.''"
      "(?p @ a @ ''.'' @ b) ! (length ?p + length a - 1) = z"
      by (simp_all add: nth_append a)
    have "strip_ext_len (?p @ c) = strip_ext_loop (?p @ (a @ ''.'') @ b) (length ?p + length (a @ ''.'') + length b)"
      unfolding strip_ext_len_def s(1) by (simp del: strip_ext_loop.simps add: ac_simps)
    also have "\<dots> = strip_ext_loop (?p @ a @ ''.'' @ b) (Suc (length ?p + length a))"
      by (subst scan[OF s(2) z(2)]) (simp del: strip_ext_loop.simps)
    finally have "strip_ext_len (?p @ c) = strip_ext_loop (?p @ a @ ''.'' @ b) (Suc (length ?p + length a))" .
    then have l: "strip_ext_len (?p @ c) = length (?p @ a)"
      using n z a by simp
    have "take (length (?p @ a)) (?p @ c) = ?p @ a"
      by (simp add: s(1))
    then show ?thesis
      unfolding j s(3) l .
  qed
qed

definition parts_name :: "string list \<Rightarrow> string" where
  "parts_name cs = concat (map (\<lambda>c. CHR ''.'' # c) cs)"

text \<open>The parts that count when a symbol is named.\<close>

definition module_parts :: "bool \<Rightarrow> string list \<Rightarrow> string list" where
  "module_parts has_name cs =
     (if cs \<noteq> [] \<and> has_name \<and> (last cs = ''__init__'' \<or> last cs = ''index'') then butlast cs else cs)"

lemma append_path_segments_join:
  assumes "components cs" "list_all (\<lambda>c. hd c \<noteq> CHR ''.'') cs"
  shows "append_path_segments (join_slash cs) h = parts_name (module_parts h cs)"
  using assms
proof (induction cs)
  case Nil
  then show ?case
    by (simp add: append_path_segments.simps parts_name_def module_parts_def)
next
  case (Cons c cs)
  then have c: "component c" "c \<noteq> []" "hd c \<noteq> CHR ''.''"
    by (simp_all add: component_def)
  show ?case
  proof (cases "cs = []")
    case True
    then show ?thesis
      using c by (subst append_path_segments.simps)
        (auto simp: strchr_join Let_def append_part_def should_skip_fqn_part_def parts_name_def module_parts_def)
  next
    case False
    then show ?thesis
      using c Cons by (subst append_path_segments.simps)
        (auto simp: strchr_join Let_def join_slash_Cons append_part_def should_skip_fqn_part_def parts_name_def module_parts_def)
  qed
qed

lemma folder_segments_join: "components cs \<Longrightarrow> folder_segments (join_slash cs) = parts_name cs"
proof (induction cs)
  case Nil
  then show ?case
    by (simp add: folder_segments.simps parts_name_def)
next
  case (Cons c cs)
  then have c: "component c" "c \<noteq> []"
    by (simp_all add: component_def)
  show ?case
  proof (cases "cs = []")
    case True
    then show ?thesis
      using c by (subst folder_segments.simps) (simp add: strchr_join Let_def parts_name_def)
  next
    case False
    then show ?thesis
      using c Cons by (subst folder_segments.simps) (simp add: strchr_join Let_def join_slash_Cons parts_name_def)
  qed
qed

section \<open>Normal paths\<close>

abbreviation normal_path :: "string \<Rightarrow> bool" where
  "normal_path s \<equiv> pmm_normalize_path_sep s = s"

lemma toupper_changes:
  assumes "97 \<le> (of_char c :: nat)" "of_char c \<le> (122::nat)"
  shows "c_toupper c \<noteq> c"
proof
  assume "c_toupper c = c"
  then have "char_of (of_char c - 32 :: nat) = c"
    using assms by (simp add: c_toupper_def)
  then have "(of_char c - 32 :: nat) mod 256 = of_char c"
    by (metis of_char_of)
  then show False
    using assms by (simp add: mod_less)
qed

definition lower_drive :: "string \<Rightarrow> bool" where
  "lower_drive s \<longleftrightarrow> (\<exists>c r. s = c # CHR '':'' # r \<and> 97 \<le> (of_char c :: nat) \<and> of_char c \<le> (122::nat) \<and> (r = [] \<or> hd r = CHR ''/''))"

lemma canonicalize_lower: "pmm_canonicalize_drive s = (if lower_drive s then c_toupper (hd s) # tl s else s)"
  by (auto simp: pmm_canonicalize_drive_def lower_drive_def split: list.splits)

lemma normal_path_iff: "normal_path s \<longleftrightarrow> CHR 0x5C \<notin> set s \<and> \<not> lower_drive s"
proof -
  let ?m = "map (\<lambda>c. if c = CHR 0x5C then CHR ''/'' else c) s"
  have m: "?m = s \<longleftrightarrow> CHR 0x5C \<notin> set s"
    by (induction s) auto
  show ?thesis
  proof (cases "lower_drive ?m")
    case True
    then obtain c r where c: "?m = c # r" "97 \<le> (of_char c :: nat)" "of_char c \<le> (122::nat)"
      by (auto simp: lower_drive_def)
    then obtain d t where d: "s = d # t" "c = (if d = CHR 0x5C then CHR ''/'' else d)"
      by (cases s) auto
    have "c \<noteq> CHR ''/''"
      using c(2) by auto
    then have "d = c"
      using d(2) by (auto split: if_splits)
    moreover have "pmm_normalize_path_sep s = c_toupper c # r"
      using True by (simp add: pmm_normalize_path_sep_def canonicalize_lower c(1))
    ultimately have "\<not> normal_path s"
      using toupper_changes[OF c(2,3)] d(1) by auto
    moreover have "CHR 0x5C \<notin> set s \<Longrightarrow> lower_drive s"
      using True m by metis
    ultimately show ?thesis
      by blast
  next
    case False
    then have "normal_path s \<longleftrightarrow> ?m = s"
      by (simp add: pmm_normalize_path_sep_def canonicalize_lower)
    then show ?thesis
      using m False by metis
  qed
qed

lemma normal_path_dir: "normal_path (d @ CHR ''/'' # r) \<Longrightarrow> normal_path d"
proof -
  assume "normal_path (d @ CHR ''/'' # r)"
  then have n: "CHR 0x5C \<notin> set d" "\<not> lower_drive (d @ CHR ''/'' # r)"
    by (simp_all add: normal_path_iff)
  have "lower_drive (d @ CHR ''/'' # r)" if "lower_drive d"
    using that by (auto simp: lower_drive_def hd_append)
  then show "normal_path d"
    using n by (auto simp: normal_path_iff)
qed

section \<open>Qualified names on lists of components\<close>

definition symbol_name :: "string option \<Rightarrow> string" where
  "symbol_name name = (if str_or_empty name \<noteq> [] then CHR ''.'' # str_or_empty name else [])"

lemma strip_init_parts:
  "strip_init_or_index (p # cs) name = p # module_parts (str_or_empty name \<noteq> []) cs"
  by (cases cs) (auto simp: strip_init_or_index_def module_parts_def str_or_empty_def split: option.splits)

lemma join_segments_name:
  "join_segments (case name of Some n \<Rightarrow> if n \<noteq> [] then (p # cs) @ [n] else p # cs | None \<Rightarrow> p # cs) =
   p @ parts_name cs @ symbol_name name"
  by (cases name) (simp_all add: join_segments_Cons parts_name_def symbol_name_def str_or_empty_def)

lemma pipeline_fqn_join:
  assumes "components (cs @ [stem c])" "component c" "normal_path (join_slash (cs @ [c]))" "length cs < 254"
    "name \<noteq> Some ''__file__''"
  shows "pmm_pipeline_fqn_compute (Some p) (Some (join_slash (cs @ [c]))) name =
    p @ parts_name (module_parts (str_or_empty name \<noteq> []) (cs @ [stem c])) @ symbol_name name"
proof -
  have t: "tokenize_path (strip_file_extension (join_slash (cs @ [c]))) FQN_MAX_PATH_SEGS = cs @ [stem c]"
    using assms(4) unfolding strip_file_extension_join[OF assms(2)] tokenize_join[OF assms(1)] by simp
  have "pmm_pipeline_fqn_compute (Some p) (Some (join_slash (cs @ [c]))) name =
      join_segments (case name of Some n \<Rightarrow>
        if n \<noteq> [] then strip_init_or_index (p # cs @ [stem c]) name @ [n] else strip_init_or_index (p # cs @ [stem c]) name
      | None \<Rightarrow> strip_init_or_index (p # cs @ [stem c]) name)"
    using assms(5) unfolding pmm_pipeline_fqn_compute_def option.case Let_def str_or_empty_def assms(3)
    by (simp only: if_True simp_thms t)
  then show ?thesis
    unfolding strip_init_parts join_segments_name .
qed

lemma extraction_fqn_join:
  assumes "components (cs @ [c])" "list_all (\<lambda>c. hd c \<noteq> CHR ''.'') (cs @ [c])"
  shows "pmm_fqn_compute (Some p) (Some (join_slash (cs @ [c]))) name =
    p @ parts_name (module_parts (str_or_empty name \<noteq> []) (cs @ [stem c])) @ symbol_name name"
proof -
  have c: "component c" "hd c \<noteq> CHR ''.''"
    using assms by simp_all
  have "hd (stem c) = hd c"
    using stem_component[OF c] by (cases rule: stem_cases[of c]) (auto simp: component_def hd_append)
  then have "list_all (\<lambda>c. hd c \<noteq> CHR ''.'') (cs @ [stem c])" "components (cs @ [stem c])"
    using assms stem_component[OF c] by simp_all
  then show ?thesis
    unfolding pmm_fqn_compute_def Let_def str_or_empty_def option.case strip_ext_join[OF assms(1) c(2)]
    by (subst append_path_segments_join) (simp_all add: symbol_name_def str_or_empty_def)
qed

section \<open>Relative imports\<close>

text \<open>The directories after following the segments of an import from a list of directories.\<close>

fun import_path :: "string list \<Rightarrow> string list \<Rightarrow> string list" where
  "import_path ds [] = ds"
| "import_path ds (s # ss) =
     (if s = ''.'' then import_path ds ss
      else if s = ''..'' then import_path (butlast ds) ss
      else import_path (ds @ [if ss = [] then strip_ext s else s]) ss)"

lemma strip_ext_component: "component s \<Longrightarrow> component (strip_ext s) \<and> length (strip_ext s) \<le> length s"
proof -
  assume s: "component s"
  show ?thesis
  proof (cases "strrchr_at s (CHR ''.'')")
    case None
    then show ?thesis
      using s by (simp add: strip_ext_def)
  next
    case (Some t)
    then obtain a b where "s = a @ CHR ''.'' # b" "t = CHR ''.'' # b"
      by (auto simp: strrchr_at_Some)
    then show ?thesis
      using s Some by (auto simp: strip_ext_def component_def)
  qed
qed

lemma path_pop_join: "components ds \<Longrightarrow> path_pop_segment (join_slash ds) = join_slash (butlast ds)"
proof (cases ds rule: rev_cases)
  case Nil
  then show ?thesis
    by (simp add: path_pop_segment_def)
next
  case (snoc cs c)
  assume "components ds"
  then have "component c"
    by (simp add: snoc)
  then show ?thesis
    using strrchr_join[of c cs] before_last[of cs c] by (simp add: path_pop_segment_def snoc)
qed

lemma path_append_join:
  assumes "components ds" "length (join_slash ds) + length s + 2 \<le> n"
  shows "path_append_segment (join_slash ds) n s = Some (join_slash (ds @ [s]))"
  using assms by (auto simp: path_append_segment_def join_slash_append)

lemma join_slash_length: "length (join_slash (butlast ds)) \<le> length (join_slash ds)"
  by (cases ds rule: rev_cases) (auto simp: join_slash_append)

lemma js_segments_slash: "js_segments b n (CHR ''/'' # p) = js_segments b n p"
  by (subst (1 2) js_segments.simps) simp

lemma component_hd: "component c \<Longrightarrow> dropWhile (\<lambda>d. d = CHR ''/'') (c @ r) = c @ r"
  by (cases c) (auto simp: component_def)

lemma js_segments_join:
  assumes "components ds" "components ss" "ss = [] \<or> length (join_slash ds) + length (join_slash ss) + 2 \<le> n"
  shows "js_segments (join_slash ds) n (join_slash ss) = Some (join_slash (import_path ds ss)) \<and>
    components (import_path ds ss)"
  using assms
proof (induction ss arbitrary: ds)
  case Nil
  then show ?case
    by (subst js_segments.simps) simp
next
  case (Cons s ss)
  have s: "component s" "s \<noteq> []"
    using Cons.prems(2) by (simp_all add: component_def)
  have e: "strip_ext s \<noteq> []" "component (strip_ext s)" "length (strip_ext s) \<le> length s"
    using strip_ext_component[OF s(1)] by (simp_all add: component_def)
  have r: "js_segments b n (if ss = [] then [] else CHR ''/'' # join_slash ss) = js_segments b n (join_slash ss)" for b
    by (simp add: js_segments_slash)
  have nil: "join_slash (s # ss) = s @ (if ss = [] then [] else CHR ''/'' # join_slash ss)"
    by (simp add: join_slash_Cons)
  have seg: "takeWhile (\<lambda>d. d \<noteq> CHR ''/'') (join_slash (s # ss)) = s"
    "dropWhile (\<lambda>d. d \<noteq> CHR ''/'') (join_slash (s # ss)) = (if ss = [] then [] else CHR ''/'' # join_slash ss)"
    "dropWhile (\<lambda>d. d = CHR ''/'') (join_slash (s # ss)) = join_slash (s # ss)" "join_slash (s # ss) \<noteq> []"
    unfolding nil using strchr_join[OF s(1)] component_hd[OF s(1)] s(2) by simp_all
  have step: "js_segments (join_slash ds) n (join_slash (s # ss)) =
      (if s = ''.'' then js_segments (join_slash ds) n (join_slash ss)
       else if s = ''..'' then js_segments (join_slash (butlast ds)) n (join_slash ss)
       else js_segments (join_slash (ds @ [if ss = [] then strip_ext s else s])) n (join_slash ss))"
  proof -
    have "path_append_segment (join_slash ds) n (if ss = [] then strip_ext s else s) =
        Some (join_slash (ds @ [if ss = [] then strip_ext s else s]))"
      by (rule path_append_join[OF Cons.prems(1)]) (use Cons.prems(3) e nil in \<open>auto split: if_splits\<close>)
    note append = this
    have empty: "(if ss = [] then [] else CHR ''/'' # join_slash ss) = [] \<longleftrightarrow> ss = []"
      "(if ss = [] then strip_ext s else s) = [] \<longleftrightarrow> False"
      using e(1) s(2) by simp_all
    show ?thesis
      unfolding js_segments.simps[of "join_slash ds" n "join_slash (s # ss)"] Let_def seg
      by (simp only: seg(4) empty append r path_pop_join[OF Cons.prems(1)] option.case if_False if_True simp_thms)
  qed
  have len: "length (join_slash ds) + length s + length (join_slash ss) + (if ss = [] then 2 else 3) \<le> n"
    using Cons.prems(3) by (auto simp: nil)
  show ?case
  proof -
    consider "s = ''.''" | "s = ''..''" | "s \<noteq> ''.''" "s \<noteq> ''..''"
      by blast
    then show ?thesis
    proof cases
      case 1
      then show ?thesis
        using Cons.IH[of ds] Cons.prems len unfolding step by (simp split: if_splits)
    next
      case 2
      have "components (butlast ds)"
        using Cons.prems(1) by (auto simp: list_all_iff dest: in_set_butlastD)
      then show ?thesis
        using 2 Cons.IH[of "butlast ds"] Cons.prems len join_slash_length[of ds] unfolding step
        by (simp split: if_splits)
    next
      case 3
      let ?d = "ds @ [if ss = [] then strip_ext s else s]"
      have "components ?d"
        using Cons.prems(1) s(1) e(2) by simp
      moreover have "ss = [] \<or> length (join_slash ?d) + length (join_slash ss) + 2 \<le> n"
        using len by (auto simp: join_slash_append)
      ultimately show ?thesis
        using 3 Cons.IH[of ?d] Cons.prems(2) unfolding step by simp
    qed
  qed
qed

lemma seed_source_join:
  assumes "components (cs @ [c])" "CHR 0x5C \<notin> set (join_slash (cs @ [c]))" "length (join_slash (cs @ [c])) < n"
  shows "seed_source_dir n (Some (join_slash (cs @ [c]))) = join_slash cs"
proof -
  have "map (\<lambda>c. if c = CHR 0x5C then CHR ''/'' else c) s = s" if "CHR 0x5C \<notin> set s" for s
    using that by (induction s) auto
  then have "seed_source_dir n (Some (join_slash (cs @ [c]))) = path_pop_segment (join_slash (cs @ [c]))"
    using assms(2,3) by (simp add: seed_source_dir_def snprintf_buf_id str_or_empty_def path_pop_segment_def Let_def)
  then show ?thesis
    using path_pop_join[OF assms(1)] by simp
qed

section \<open>Dotted imports\<close>

text \<open>The first dot is the directory of the file, every further one goes up; the names between the
  dots go down.\<close>

definition dotted_path :: "string list \<Rightarrow> string \<Rightarrow> string list" where
  "dotted_path ds spec =
     (let dots = length (takeWhile (\<lambda>c. c = CHR ''.'') spec)
      in take (length ds - (dots - 1)) ds @
         [c \<leftarrow> split_char (CHR ''.'') (dropWhile (\<lambda>c. c = CHR ''.'') spec). c \<noteq> []])"

lemma path_pops_join:
  "components ds \<Longrightarrow> (path_pop_segment ^^ k) (join_slash ds) = join_slash (take (length ds - k) ds)"
proof (induction k)
  case (Suc k)
  have "components (take (length ds - k) ds)"
    using Suc.prems by (auto simp: list_all_iff dest: in_set_takeD)
  then show ?case
    using Suc by (simp add: path_pop_join butlast_take)
qed simp

lemma python_segments_plain:
  assumes "CHR ''.'' \<notin> set p" "p \<noteq> []"
  shows "python_segments b n p = path_append_segment b n p"
proof -
  have t: "takeWhile (\<lambda>c. c \<noteq> CHR ''.'') p = p" "dropWhile (\<lambda>c. c \<noteq> CHR ''.'') p = []"
    using assms(1) by (auto simp: takeWhile_eq_all_conv dropWhile_eq_Nil_conv)
  show ?thesis
    using assms(2) by (subst python_segments.simps)
      (simp add: Let_def t python_segments.simps[of _ n "[]"] split: option.split)
qed

lemma python_segments_dot:
  assumes "CHR ''.'' \<notin> set a"
  shows "python_segments b n (a @ CHR ''.'' # r) =
    (if a = [] then python_segments b n r
     else case path_append_segment b n a of None \<Rightarrow> None | Some b' \<Rightarrow> python_segments b' n r)"
proof -
  have t: "takeWhile (\<lambda>c. c \<noteq> CHR ''.'') (a @ CHR ''.'' # r) = a"
    "dropWhile (\<lambda>c. c \<noteq> CHR ''.'') (a @ CHR ''.'' # r) = CHR ''.'' # r"
    using assms by (induction a) auto
  show ?thesis
    by (subst python_segments.simps) (simp add: Let_def t)
qed

lemma python_segments_join:
  assumes "components ds" "CHR ''/'' \<notin> set p" "p = [] \<or> length (join_slash ds) + length p + 2 \<le> n"
  shows "python_segments (join_slash ds) n p = Some (join_slash (ds @ [c \<leftarrow> split_char (CHR ''.'') p. c \<noteq> []]))"
  using assms
proof (induction p arbitrary: ds rule: length_induct)
  case (1 p)
  show ?case
  proof (cases "CHR ''.'' \<in> set p")
    case False
    then show ?thesis
      using "1.prems" path_append_join[of ds p n] python_segments_plain[OF False]
      by (cases "p = []") (auto simp: split_char_single python_segments.simps[of _ n "[]"])
  next
    case True
    then obtain a r where p: "p = a @ CHR ''.'' # r" "CHR ''.'' \<notin> set a"
      by (meson split_list_first)
    let ?ds = "if a = [] then ds else ds @ [a]"
    have "component a" if "a \<noteq> []"
      using that "1.prems"(2) by (simp add: p component_def)
    then have comp: "components ?ds" "CHR ''/'' \<notin> set r"
      using "1.prems"(1,2) by (auto simp: p)
    have "length (join_slash ?ds) + length r + 2 \<le> n"
      using "1.prems"(3) by (auto simp: p join_slash_append)
    then have "python_segments (join_slash ?ds) n r = Some (join_slash (?ds @ [c \<leftarrow> split_char (CHR ''.'') r. c \<noteq> []]))"
      using "1.IH" comp by (simp add: p(1))
    moreover have "path_append_segment (join_slash ds) n a = Some (join_slash (ds @ [a]))"
      by (rule path_append_join[OF "1.prems"(1)]) (use "1.prems"(3) in \<open>simp add: p\<close>)
    moreover have "split_char (CHR ''.'') p = a # split_char (CHR ''.'') r"
      using p(2) by (simp add: p(1) split_char_append split_char_single)
    ultimately show ?thesis
      unfolding p(1) python_segments_dot[OF p(2)] by (auto simp: p(1))
  qed
qed

end
