(* ===== verification/Fqn_Props.thy ===== *)
theory Fqn_Props
  imports Fqn_Facts Fqn_Paths
begin

text \<open>
  The properties of qualified names, relative imports and project names
  (src/src/pipeline/fqn.c, src/internal/pmm/helpers.c).
\<close>

section \<open>Project names\<close>

lemma clean_root: "clean ''root''"
  by (simp add: clean_def name_char_safe_def c_isalnum_def c_isalpha_def no_run_def)

lemma project_name_shape:
  obtains s where "clean s" "pmm_project_name_from_path canonical p = fqn_bound_name_len s"
proof (cases rule: project_name_cases[of canonical p])
  case 1
  then show ?thesis
    using that[OF clean_root] by (simp add: fqn_bound_name_len_def)
qed (rule that)

text \<open>C27: every path gives a usable project name.  The name is accepted by the check that guards the names
  of database files, and with at most 200 bytes it leaves room for their suffixes.\<close>

theorem project_name_valid:
  "pmm_validate_project_name (Some (pmm_project_name_from_path canonical path)) \<and>
   length (pmm_project_name_from_path canonical path) \<le> 200"
proof -
  obtain s where s: "clean s" "pmm_project_name_from_path canonical path = fqn_bound_name_len s"
    by (rule project_name_shape)
  let ?n = "fqn_bound_name_len s"
  note b = bound_name[OF s(1)]
  have "CHR ''/'' \<notin> set ?n" "CHR 0x5C \<notin> set ?n"
    using b(4) safe_char_plain by (auto simp: list_all_iff)
  moreover have "hd ?n \<noteq> CHR ''.''"
    using s(1) b(3) by (simp add: clean_def)
  moreover have "?n \<noteq> ''..''"
    using b(5) by auto
  ultimately show ?thesis
    using b by (simp add: pmm_validate_project_name_def s(2))
qed

text \<open>A derived name is a fixed point of the derivation just when it has no two dashes in a row, so that a
  name given back to the program denotes the same project.  Short names never have them; a long name
  does when the cut falls behind a dash.\<close>

theorem project_name_stable:
  "pmm_project_name_from_path Map.empty (Some (pmm_project_name_from_path canonical path)) =
     pmm_project_name_from_path canonical path \<longleftrightarrow>
   strstr (pmm_project_name_from_path canonical path) ''--'' = None"
proof -
  obtain s where s: "clean s" "pmm_project_name_from_path canonical path = fqn_bound_name_len s"
    by (rule project_name_shape)
  let ?n = "fqn_bound_name_len s"
  note b = bound_name[OF s(1)]
  have again: "pmm_project_name_from_path Map.empty (Some ?n) =
      (if trim_name (collapse_runs NUL ?n) = [] then ''root'' else trim_name (collapse_runs NUL ?n))"
    by (rule project_name_again[OF b(2,4,1)])
  show ?thesis
  proof (cases "strstr ?n ''--'' = None")
    case True
    then have "successively no_run ?n"
      by (simp add: no_run_pairs b(5))
    then have "clean ?n" "successively no_run (NUL # ?n)"
      using s(1) b by (auto simp: clean_def successively_Cons no_run_def)
    then show ?thesis
      using True again by (simp add: s(2) collapse_id trim_name_id b(2))
  next
    case False
    have "clean (pmm_project_name_from_path Map.empty (Some ?n))"
      using again trim_name_clean[OF b(4)] clean_root by simp
    then have "strstr (pmm_project_name_from_path Map.empty (Some ?n)) ''--'' = None"
      by (simp add: clean_def no_run_pairs)
    then show ?thesis
      using False by (metis s(2))
  qed
qed

section \<open>One name on both sides\<close>

lemma split_snoc:
  assumes "list_all (\<lambda>c. c \<noteq> []) (split_path rel)"
  obtains cs c where "rel = join_slash (cs @ [c])" "split_path rel = cs @ [c]" "components (cs @ [c])"
proof -
  obtain cs c where "split_path rel = cs @ [c]"
    using split_char_not_Nil[of "CHR ''/''" rel] by (metis rev_exhaust)
  then show ?thesis
    using that[of cs c] join_split[of rel] split_path_components[OF assms] by simp
qed

lemma folder_sides_agree:
  assumes "components (cs @ [c])" "list_all (\<lambda>c. hd c \<noteq> CHR ''.'') (cs @ [c])" "normal_path (join_slash (cs @ [c]))" "length cs < 254"
    and that: "pmm_lang_module_is_dir l"
  shows "pmm_fqn_module_source_lang p (Some (join_slash (cs @ [c]))) l =
    pmm_pipeline_fqn_module_dir (Some p) (Some (join_slash (cs @ [c]))) True"
proof -
  have c: "component c" "components cs"
    using assms(1) by simp_all
  have b: "strrchr_at (join_slash (cs @ [c])) (CHR 0x5C) = None"
    using assms(3) by (simp add: normal_path_iff strrchr_at_None)
  show ?thesis
  proof (cases "cs = []")
    case True
    then show ?thesis
      using that b strrchr_join[OF c(1), of cs]
      by (simp add: pmm_fqn_module_source_lang_def pmm_pipeline_fqn_module_dir_def str_or_empty_def rightmost_def
          pmm_fqn_folder_def pmm_pipeline_fqn_folder_def pmm_normalize_path_sep_def pmm_canonicalize_drive_def
          tokenize_path.simps[of "[]"])
  next
    case False
    have n: "normal_path (join_slash cs)"
      using assms(3) False normal_path_dir by (simp add: join_slash_append)
    have "hd (join_slash cs) \<noteq> CHR ''.''" "join_slash cs \<noteq> []"
      using False assms(2) c(2) by (cases cs; auto simp: join_slash_Cons component_def hd_append)+
    then have e: "pmm_fqn_folder p (join_slash cs) = p @ parts_name cs"
      by (auto simp: pmm_fqn_folder_def folder_segments_join[OF c(2)])
    have "tokenize_path (join_slash cs) FQN_MAX_PATH_SEGS = cs"
      using assms(4) unfolding tokenize_join[OF c(2)] by simp
    then have f: "pmm_pipeline_fqn_folder (Some p) (Some (join_slash cs)) = p @ parts_name cs"
      unfolding pmm_pipeline_fqn_folder_def option.case str_or_empty_def n
      by (simp add: join_segments_Cons parts_name_def)
    have s: "strrchr_at (join_slash (cs @ [c])) (CHR ''/'') = Some (CHR ''/'' # c)"
      using strrchr_join[OF c(1), of cs] False by simp
    show ?thesis
      using that by (simp add: pmm_fqn_module_source_lang_def pmm_pipeline_fqn_module_dir_def str_or_empty_def
          rightmost_def s b before_last[OF False] e f)
  qed
qed

text \<open>C28: the two computations of qualified names agree.  For a path in normal form whose components are not
  empty and do not start with a dot, the name that the extraction gives to a symbol or a module is
  the name that the pipeline looks up, for languages whose modules are files and for those whose
  modules are directories.\<close>

theorem fqn_sides_agree:
  assumes "pmm_normalize_path_sep rel = rel" "list_all (\<lambda>c. c \<noteq> [] \<and> hd c \<noteq> CHR ''.'') (split_char (CHR ''/'') rel)"
    and "length (split_char (CHR ''/'') rel) \<le> 254" "name \<noteq> Some ''__file__''"
  shows "pmm_fqn_compute (Some proj) (Some rel) name = pmm_pipeline_fqn_compute (Some proj) (Some rel) name \<and>
    pmm_fqn_module_source_lang proj (Some rel) lang =
      pmm_pipeline_fqn_module_dir (Some proj) (Some rel) (pmm_lang_module_is_dir lang)"
proof -
  have parts: "list_all (\<lambda>c. c \<noteq> []) (split_path rel)" "list_all (\<lambda>c. hd c \<noteq> CHR ''.'') (split_path rel)"
    using assms(2) by (simp_all add: list_all_iff)
  obtain cs c where c: "rel = join_slash (cs @ [c])" "split_path rel = cs @ [c]" "components (cs @ [c])"
    by (rule split_snoc[OF parts(1)])
  have d: "list_all (\<lambda>c. hd c \<noteq> CHR ''.'') (cs @ [c])" "length cs < 254" "components (cs @ [stem c])" "component c"
    using parts(2) assms(3) c(2,3) stem_component by simp_all
  have agree: "pmm_fqn_compute (Some proj) (Some rel) n = pmm_pipeline_fqn_compute (Some proj) (Some rel) n"
    if "n \<noteq> Some ''__file__''" for n
    unfolding c(1) extraction_fqn_join[OF c(3) d(1)]
    by (rule pipeline_fqn_join[OF d(3,4) assms(1)[unfolded c(1)] d(2) that, symmetric])
  moreover have "pmm_fqn_module_source_lang proj (Some rel) lang =
      pmm_pipeline_fqn_module_dir (Some proj) (Some rel) (pmm_lang_module_is_dir lang)"
  proof (cases "pmm_lang_module_is_dir lang")
    case True
    then show ?thesis
      using folder_sides_agree[OF c(3) d(1) assms(1)[unfolded c(1)] d(2) True] by (simp add: c(1))
  next
    case False
    then show ?thesis
      using agree[of None] by (simp add: pmm_fqn_module_source_lang_def pmm_pipeline_fqn_module_dir_def
          pmm_fqn_module_def pmm_pipeline_fqn_module_def)
  qed
  ultimately show ?thesis
    using assms(4) by blast
qed

lemma fqn_sides_agree_witness:
  "pmm_fqn_compute (Some ''p'') (Some ''src/__init__.py'') (Some ''f'') =
     pmm_pipeline_fqn_compute (Some ''p'') (Some ''src/__init__.py'') (Some ''f'') \<and>
   pmm_fqn_module_source_lang ''p'' (Some ''src/__init__.py'') ''GO'' =
     pmm_pipeline_fqn_module_dir (Some ''p'') (Some ''src/__init__.py'') (pmm_lang_module_is_dir ''GO'')"
  by (rule fqn_sides_agree) (code_simp, code_simp, code_simp, simp)

text \<open>A hidden directory gets two names: the extraction drops its dot and the pipeline keeps it.\<close>

lemma hidden_directory_names_differ:
  "pmm_fqn_module (Some ''p'') (Some ''.ci/run.py'') = ''p.ci.run'' \<and>
   pmm_pipeline_fqn_module (Some ''p'') (Some ''.ci/run.py'') = ''p..ci.run''"
  by code_simp

lemma strchr_split:
  assumes "strchr_at s c = Some w"
  obtains u v where "s = u @ c # v" "w = c # v" "takeWhile (\<lambda>x. x \<noteq> c) s = u"
proof -
  obtain u v where *: "s = u @ c # v" "w = c # v" "c \<notin> set u"
    using assms by (auto simp: strchr_at_Some)
  moreover have "takeWhile (\<lambda>x. x \<noteq> c) (u @ c # v) = u"
    by (rule takeWhile_append_stop) (use *(3) in auto)
  ultimately show ?thesis
    using that by blast
qed

lemma append_path_segments_length: "length (append_path_segments s h) \<le> length s + 1"
proof (induction s h rule: append_path_segments.induct)
  case (1 s h)
  have part: "length (append_part c l h) \<le> length c + 1" for c l
    by (auto simp: append_part_def Let_def)
  show ?case
  proof (cases "strchr_at s (CHR ''/'')")
    case None
    then show ?thesis
      using part[of "takeWhile (\<lambda>c. c \<noteq> CHR ''/'') s" True] length_takeWhile_le[of "\<lambda>c. c \<noteq> CHR ''/''" s]
      by (subst append_path_segments.simps) (simp add: Let_def)
  next
    case (Some w)
    then obtain u v where *: "s = u @ CHR ''/'' # v" "w = CHR ''/'' # v" "takeWhile (\<lambda>c. c \<noteq> CHR ''/'') s = u"
      by (rule strchr_split)
    have "length (append_path_segments v h) \<le> length v + 1"
      using 1[OF _ refl Some] * by simp
    then show ?thesis
      using part[of u False] Some *(3) by (subst append_path_segments.simps) (simp add: Let_def *(1,2))
  qed
qed

lemma folder_segments_length: "length (folder_segments s) \<le> length s + 1"
proof (induction s rule: folder_segments.induct)
  case (1 s)
  show ?case
  proof (cases "strchr_at s (CHR ''/'')")
    case None
    then show ?thesis
      using length_takeWhile_le[of "\<lambda>c. c \<noteq> CHR ''/''" s] by (subst folder_segments.simps) (simp add: Let_def)
  next
    case (Some w)
    then obtain u v where *: "s = u @ CHR ''/'' # v" "w = CHR ''/'' # v" "takeWhile (\<lambda>c. c \<noteq> CHR ''/'') s = u"
      by (rule strchr_split)
    have "length (folder_segments v) \<le> length v + 1"
      using 1[OF _ refl refl Some] * by simp
    then show ?thesis
      using Some *(3) by (subst folder_segments.simps) (simp add: Let_def *(1,2))
  qed
qed

text \<open>The names of the extraction fit the arena block that is asked for them, with their terminator.\<close>

theorem fqn_fits_arena:
  "length (pmm_fqn_compute project rel name) <
     length (str_or_empty project) + 1 + length (str_or_empty rel) + 1 + length (str_or_empty name) + 1 \<and>
   length (pmm_fqn_folder proj dir) < length proj + 1 + length dir + 1"
proof -
  have "length (append_path_segments (take k s) h) < Suc (Suc (length s))"
    "length (append_path_segments (take k s) h) < 3 + length s" for s k h
    using append_path_segments_length[of "take k s" h] by (simp_all add: less_Suc_eq_le min_def split: if_splits)
  then show ?thesis
    using folder_segments_length[of dir] by (auto simp: pmm_fqn_compute_def pmm_fqn_folder_def Let_def)
qed

section \<open>Relative imports\<close>

lemma relative_import_join:
  assumes "components (cs @ [c])" "CHR 0x5C \<notin> set (join_slash (cs @ [c]))" "components ss"
    and "hd (join_slash ss) = CHR ''.''" "CHR ''/'' \<in> set (join_slash ss)"
    and "length (join_slash (cs @ [c])) + length (join_slash ss) + 2 \<le> FQN_PATH_BUF"
  shows "pmm_pipeline_resolve_relative_import (Some (join_slash (cs @ [c]))) (Some (join_slash ss)) =
    Some (join_slash (import_path cs ss))"
proof -
  have kind: "classify_relative_import (Some (join_slash ss)) = FQN_REL_KIND_JS"
    using assms(4,5) by (cases "join_slash ss") (auto simp: classify_relative_import_def char_at_def)
  have seed: "seed_source_dir FQN_PATH_BUF (Some (join_slash (cs @ [c]))) = join_slash cs"
    by (rule seed_source_join[OF assms(1)]) (use assms(2,6) in auto)
  have "length (join_slash cs) \<le> length (join_slash (cs @ [c]))"
    using join_slash_length[of "cs @ [c]"] by simp
  then have "js_segments (join_slash cs) FQN_PATH_BUF (join_slash ss) = Some (join_slash (import_path cs ss))"
    using js_segments_join[of cs ss FQN_PATH_BUF] assms(1,3,6) by simp
  then show ?thesis
    by (simp add: pmm_pipeline_resolve_relative_import_def Let_def kind seed resolve_js_relative_def str_or_empty_def)
qed

lemma dotted_import_join:
  assumes "components (cs @ [c])" "CHR 0x5C \<notin> set (join_slash (cs @ [c]))"
    and "spec \<noteq> []" "hd spec = CHR ''.''" "CHR ''/'' \<notin> set spec"
    and "length (join_slash (cs @ [c])) + length spec + 2 \<le> FQN_PATH_BUF"
  shows "pmm_pipeline_resolve_relative_import (Some (join_slash (cs @ [c]))) (Some spec) =
    Some (join_slash (dotted_path cs spec))"
proof -
  let ?d = "length (takeWhile (\<lambda>c. c = CHR ''.'') spec)" and ?p = "dropWhile (\<lambda>c. c = CHR ''.'') spec"
  let ?ds = "take (length cs - (?d - 1)) cs"
  have "char_at spec 1 \<noteq> CHR ''/''"
    using assms(5) nth_mem[of 1 spec] by (auto simp: char_at_def simp del: nth_mem)
  moreover have "char_at spec 2 \<noteq> CHR ''/''"
    using assms(5) nth_mem[of 2 spec] by (auto simp: char_at_def simp del: nth_mem)
  ultimately have kind: "classify_relative_import (Some spec) = FQN_REL_KIND_PYTHON"
    using assms(3-5) by (cases spec) (auto simp: classify_relative_import_def char_at_def Let_def)
  have seed: "seed_source_dir FQN_PATH_BUF (Some (join_slash (cs @ [c]))) = join_slash cs"
    by (rule seed_source_join[OF assms(1)]) (use assms(2,6) in auto)
  have comp: "components ?ds" "CHR ''/'' \<notin> set ?p"
    using assms(1,5) by (auto simp: list_all_iff dest: in_set_takeD set_dropWhileD)
  have "length (join_slash (take k cs)) \<le> length (join_slash (cs @ [c]))" for k
  proof -
    have "length (join_slash xs) \<le> length (join_slash (xs @ ys))" for xs ys
      by (induction ys rule: rev_induct) (auto simp: join_slash_append simp flip: append_assoc intro: order_trans)
    from this[of "take k cs" "drop k cs @ [c]"] show ?thesis
      by (simp flip: append_assoc)
  qed
  moreover have "length ?p \<le> length spec"
    by (rule length_dropWhile_le)
  ultimately have "python_segments (join_slash ?ds) FQN_PATH_BUF ?p =
      Some (join_slash (?ds @ [c \<leftarrow> split_char (CHR ''.'') ?p. c \<noteq> []]))"
    using python_segments_join[OF comp, of FQN_PATH_BUF] assms(6) by (meson add_mono le_refl order_trans)
  then show ?thesis
    using assms(1) by (simp add: pmm_pipeline_resolve_relative_import_def Let_def kind seed resolve_python_relative_def
        path_pops_join dotted_path_def str_or_empty_def)
qed

text \<open>C29: a relative import is walked from the directory of the importing file.  The work on the path buffer
  is the walk on the list of directories.  With slashes (\<open>./m.ts\<close>, \<open>../../a/b\<close>) a dot stays, two dots go
  up, a name goes down, and the last one loses its extension.  Without (\<open>.m\<close>, \<open>...a.b\<close>) the first dot
  stays, every further one goes up, and the names between dots go down.  Above the root the walk
  stays at the root.\<close>

theorem relative_import_walks:
  assumes "list_all (\<lambda>c. c \<noteq> []) (split_char (CHR ''/'') src)" "CHR 0x5C \<notin> set src"
    and "spec \<noteq> []" "hd spec = CHR ''.''"
    and "CHR ''/'' \<in> set spec \<longrightarrow> list_all (\<lambda>c. c \<noteq> []) (split_char (CHR ''/'') spec)"
    and "length src + length spec + 2 \<le> 1024"
  shows "pmm_pipeline_resolve_relative_import (Some src) (Some spec) =
    Some (join_slash
      (if CHR ''/'' \<in> set spec then import_path (butlast (split_char (CHR ''/'') src)) (split_char (CHR ''/'') spec)
       else dotted_path (butlast (split_char (CHR ''/'') src)) spec))"
proof -
  obtain cs c where c: "src = join_slash (cs @ [c])" "split_path src = cs @ [c]" "components (cs @ [c])"
    by (rule split_snoc[OF assms(1)])
  show ?thesis
  proof (cases "CHR ''/'' \<in> set spec")
    case True
    then have s: "components (split_path spec)" "spec = join_slash (split_path spec)"
      using split_path_components assms(5) by (auto simp: join_split)
    show ?thesis
      using relative_import_join[OF c(3) _ s(1)] assms(2,4,6) True s(2)[symmetric] c(1,2) by simp
  next
    case False
    then show ?thesis
      using dotted_import_join[OF c(3) _ assms(3,4) False] assms(2,6) c(1,2) by simp
  qed
qed

lemma relative_import_walks_witness:
  "pmm_pipeline_resolve_relative_import (Some ''src/ui/main.ts'') (Some ''./../api/client.ts'') =
     Some (join_slash (import_path [''src'', ''ui''] [''.'', ''..'', ''api'', ''client.ts''])) \<and>
   join_slash (import_path [''src'', ''ui''] [''.'', ''..'', ''api'', ''client.ts'']) = ''src/api/client'' \<and>
   pmm_pipeline_resolve_relative_import (Some ''pkg/sub/mod.py'') (Some ''..util.text'') =
     Some (join_slash (dotted_path [''pkg'', ''sub''] ''..util.text'')) \<and>
   join_slash (dotted_path [''pkg'', ''sub''] ''..util.text'') = ''pkg/util/text''"
proof (intro conjI)
  have "pmm_pipeline_resolve_relative_import (Some ''src/ui/main.ts'') (Some ''./../api/client.ts'') =
     Some (join_slash (if CHR ''/'' \<in> set ''./../api/client.ts''
       then import_path (butlast (split_char (CHR ''/'') ''src/ui/main.ts'')) (split_char (CHR ''/'') ''./../api/client.ts'')
       else dotted_path (butlast (split_char (CHR ''/'') ''src/ui/main.ts'')) ''./../api/client.ts''))"
    by (rule relative_import_walks) code_simp+
  then show "pmm_pipeline_resolve_relative_import (Some ''src/ui/main.ts'') (Some ''./../api/client.ts'') =
     Some (join_slash (import_path [''src'', ''ui''] [''.'', ''..'', ''api'', ''client.ts'']))"
    by simp
  have "pmm_pipeline_resolve_relative_import (Some ''pkg/sub/mod.py'') (Some ''..util.text'') =
     Some (join_slash (if CHR ''/'' \<in> set ''..util.text''
       then import_path (butlast (split_char (CHR ''/'') ''pkg/sub/mod.py'')) (split_char (CHR ''/'') ''..util.text'')
       else dotted_path (butlast (split_char (CHR ''/'') ''pkg/sub/mod.py'')) ''..util.text''))"
    by (rule relative_import_walks) code_simp+
  then show "pmm_pipeline_resolve_relative_import (Some ''pkg/sub/mod.py'') (Some ''..util.text'') =
     Some (join_slash (dotted_path [''pkg'', ''sub''] ''..util.text''))"
    by simp
  show "join_slash (dotted_path [''pkg'', ''sub''] ''..util.text'') = ''pkg/util/text''"
    by (simp add: dotted_path_def)
qed code_simp

lemma parts_name_snoc: "parts_name (cs @ [a]) = parts_name (cs @ [b]) \<longleftrightarrow> a = b"
  by (simp add: parts_name_def)

lemma plain_path_normal:
  assumes "list_all (\<lambda>c. CHR '':'' \<notin> set c \<and> CHR 0x5C \<notin> set c) cs"
  shows "normal_path (join_slash cs)"
proof -
  have "CHR '':'' \<notin> set (join_slash cs)" "CHR 0x5C \<notin> set (join_slash cs)"
    using assms by (induction cs) (auto simp: join_slash_Cons)
  then show ?thesis
    by (auto simp: normal_path_iff lower_drive_def)
qed

lemma module_name_join:
  assumes "components (cs @ [c])" "hd c \<noteq> CHR ''.''" "list_all (\<lambda>c. CHR '':'' \<notin> set c \<and> CHR 0x5C \<notin> set c) (cs @ [c])"
    and "length cs < 254"
  shows "pmm_pipeline_fqn_module (Some p) (Some (join_slash (cs @ [c]))) = p @ parts_name (cs @ [stem c])"
  using pipeline_fqn_join[of cs c None p] assms stem_component[of c] plain_path_normal[OF assms(3)]
  by (simp add: pmm_pipeline_fqn_module_def str_or_empty_def module_parts_def symbol_name_def)

lemma stem_shorter: "length (stem c) \<le> length c"
  by (rule stem_cases[of c]) simp_all

lemma strip_ext_stem: "hd c \<noteq> CHR ''.'' \<Longrightarrow> strip_ext c = stem c"
proof (cases "strrchr_at c (CHR ''.'')")
  case (Some w)
  moreover assume "hd c \<noteq> CHR ''.''"
  ultimately have "length w < length c"
    by (auto simp: strrchr_at_Some neq_Nil_conv hd_append split: if_splits)
  then show ?thesis
    using Some by (simp add: strip_ext_def stem_def)
qed (simp add: strip_ext_def stem_def)

lemma stem_stem_id: "stem (stem c) = c \<longleftrightarrow> CHR ''.'' \<notin> set c"
proof (rule stem_cases[of c])
  fix a b
  assume "c = a @ CHR ''.'' # b" "stem c = a"
  then show ?thesis
    using stem_shorter[of a] by auto
qed simp

text \<open>C30: which imports of a neighbouring file are found.  The module name computed for the import \<open>./m\<close> is the
  name of the file \<open>m.ext\<close> in the same directory just when \<open>m\<close> has no dot: the extension of the import
  is cut off once when the path is resolved and again when the path is named.\<close>

theorem sibling_import_found:
  assumes "list_all (\<lambda>c. c \<noteq> [] \<and> CHR ''/'' \<notin> set c \<and> CHR 0x5C \<notin> set c \<and> CHR '':'' \<notin> set c) (m # ext # user # ds)"
    and "hd m \<noteq> CHR ''.''" "CHR ''.'' \<notin> set ext"
    and "length (join_slash (ds @ [user])) + length m + 4 \<le> 1024" "length ds < 254"
  shows "map_option (\<lambda>r. pmm_pipeline_fqn_module (Some p) (Some r))
      (pmm_pipeline_resolve_relative_import (Some (join_slash (ds @ [user]))) (Some (''./'' @ m))) =
    Some (pmm_pipeline_fqn_module (Some p) (Some (join_slash (ds @ [m @ ''.'' @ ext])))) \<longleftrightarrow>
    CHR ''.'' \<notin> set m"
proof -
  have d: "component m" "component user" "components ds"
    and plain: "list_all (\<lambda>c. CHR '':'' \<notin> set c \<and> CHR 0x5C \<notin> set c) (m # ext # user # ds)"
    using assms(1) by (simp_all add: component_def list_all_iff)
  have m: "m \<noteq> []" "m \<noteq> ''.''" "m \<noteq> ''..''" "stem m = strip_ext m"
    using assms(2) d(1) by (auto simp: component_def strip_ext_stem)
  have s: "component (strip_ext m)" "hd (strip_ext m) \<noteq> CHR ''.''"
    "list_all (\<lambda>c. CHR '':'' \<notin> set c \<and> CHR 0x5C \<notin> set c) (ds @ [strip_ext m])"
    using strip_ext_component[OF d(1)] assms(2) plain m(1)
    by (auto simp: m(4)[symmetric] list_all_iff component_def intro: stem_cases[of m])
  have "join_slash [''.'', m] = ''./'' @ m"
    by simp
  moreover have "CHR 0x5C \<notin> set (join_slash (ds @ [user]))"
    using plain by (induction ds) (auto simp: join_slash_Cons)
  ultimately have "pmm_pipeline_resolve_relative_import (Some (join_slash (ds @ [user]))) (Some (''./'' @ m)) =
      Some (join_slash (ds @ [strip_ext m]))"
    using relative_import_join[of ds user "[''.'', m]"] d m assms(4) by (simp add: component_def)
  moreover have "pmm_pipeline_fqn_module (Some p) (Some (join_slash (ds @ [strip_ext m]))) = p @ parts_name (ds @ [stem (stem m)])"
    using module_name_join[of ds "strip_ext m" p] d(3) s assms(5) by (simp add: m(4))
  moreover have "pmm_pipeline_fqn_module (Some p) (Some (join_slash (ds @ [m @ ''.'' @ ext]))) = p @ parts_name (ds @ [m])"
    using module_name_join[of ds "m @ ''.'' @ ext" p] d assms(1,2,3,5) plain stem_ext[OF assms(3), of m]
    by (simp add: component_def m(1))
  ultimately show ?thesis
    by (simp add: parts_name_snoc stem_stem_id)
qed

lemma sibling_import_found_witness:
  "map_option (\<lambda>r. pmm_pipeline_fqn_module (Some ''p'') (Some r))
      (pmm_pipeline_resolve_relative_import (Some (join_slash ([''app''] @ [''main.ts'']))) (Some (''./'' @ ''user.service''))) =
    Some (pmm_pipeline_fqn_module (Some ''p'') (Some (join_slash ([''app''] @ [''user.service'' @ ''.'' @ ''ts''])))) \<longleftrightarrow>
    CHR ''.'' \<notin> set ''user.service''"
  by (rule sibling_import_found) code_simp+

end
