(* ===== verification/Registry.thy ===== *)
theory Registry
  imports Fqn Gbuf_Table Cyp_Double
begin

text \<open>
  The registry of definitions and the resolution of calls (src/src/pipeline/registry.c).  A name is
  resolved by a chain of strategies: the import map of the file, its own module, the only definition
  with that simple name, the full qualified tail, and last the best of several candidates.  Three
  per-file caches of the thread stand in front; they are explicit state here.  Pointers to registered
  names are the names.  An import map is the list of its keys and values, and no import map is the
  empty list; the registry and the module name are not NULL.
\<close>

section \<open>Confidence\<close>

definition conf :: "nat \<Rightarrow> dbl" where
  "conf percent = round_rat False percent 100"

text \<open>The product; the factors are finite.\<close>

definition dbl_mul :: "dbl \<Rightarrow> dbl \<Rightarrow> dbl" where
  "dbl_mul a b =
     (case (a, b) of
        (DFin n1 m1 e1, DFin n2 m2 e2) \<Rightarrow>
          if 0 \<le> e1 + e2 then round_rat (n1 \<noteq> n2) (m1 * m2 * 2 ^ nat (e1 + e2)) 1
          else round_rat (n1 \<noteq> n2) (m1 * m2) (2 ^ nat (- (e1 + e2)))
      | _ \<Rightarrow> DNan False)"

definition dbl_min :: "dbl \<Rightarrow> dbl \<Rightarrow> dbl" where
  "dbl_min a b = (if dbl_less b a then b else a)"

definition pmm_confidence_band :: "dbl \<Rightarrow> string" where
  "pmm_confidence_band score =
     (if dbl_le (conf 70) score then ''high''
      else if dbl_le (conf 45) score then ''medium''
      else if dbl_le (conf 25) score then ''speculative''
      else [])"

text \<open>Scale confidence inversely with the candidate count.\<close>

definition candidate_count_penalty :: "dbl \<Rightarrow> nat \<Rightarrow> dbl" where
  "candidate_count_penalty base n =
     (if n \<le> 3 then base else dbl_mul base (dbl_min (conf 100) (dbl_div_count (conf 300) n)))"

section \<open>Names and scores\<close>

text \<open>The last \<open>::\<close> that the scan from the left meets.\<close>

function last_colons :: "string \<Rightarrow> string option" where
  "last_colons p =
     (case strstr p ''::'' of
        None \<Rightarrow> None
      | Some q \<Rightarrow> (case last_colons (drop 2 q) of None \<Rightarrow> Some q | Some r \<Rightarrow> Some r))"
  by pat_completeness auto

lemma strstr_append: "strstr s n = Some t \<Longrightarrow> \<exists>u. s = u @ t \<and> starts_with n t"
proof (induction s)
  case (Cons c cs)
  show ?case
  proof (cases "starts_with n (c # cs)")
    case True
    then show ?thesis
      using Cons.prems by auto
  next
    case False
    then obtain u where "cs = u @ t" "starts_with n t"
      using Cons by auto
    then show ?thesis
      by (intro exI[of _ "c # u"]) simp
  qed
qed (auto split: if_splits)

termination last_colons
proof (relation "measure length")
  fix p q
  assume "strstr p ''::'' = Some q"
  then obtain u where "p = u @ q" "starts_with ''::'' q"
    using strstr_append by blast
  then show "(drop 2 q, p) \<in> measure length"
    by (cases q) auto
qed simp

declare last_colons.simps [simp del]

definition simple_name :: "string \<Rightarrow> string" where
  "simple_name qn =
     (let seg = (case strrchr_at qn (CHR ''.'') of Some dot \<Rightarrow> tl dot | None \<Rightarrow> qn)
      in case last_colons qn of
           Some colons \<Rightarrow> if length (drop 2 colons) < length seg then drop 2 colons else seg
         | None \<Rightarrow> seg)"

function common_prefix_len :: "string \<Rightarrow> string \<Rightarrow> nat" where
  "common_prefix_len a b =
     (if a = [] \<or> b = [] then 0
      else if takeWhile (\<lambda>c. c \<noteq> CHR ''.'') a \<noteq> takeWhile (\<lambda>c. c \<noteq> CHR ''.'') b then 0
      else
        (case (strchr_at a (CHR ''.''), strchr_at b (CHR ''.'')) of
           (Some adot, Some bdot) \<Rightarrow> 1 + common_prefix_len (tl adot) (tl bdot)
         | _ \<Rightarrow> 1))"
  by pat_completeness auto
termination
  by (relation "measure (\<lambda>(a, b). length a)") (auto dest!: strchr_at_tl_length[OF sym])

declare common_prefix_len.simps [simp del]

definition is_test_qn :: "string \<Rightarrow> bool" where
  "is_test_qn qn \<longleftrightarrow>
     list_ex (\<lambda>w. strstr qn w \<noteq> None)
       [''Test'', ''test'', ''Mock'', ''mock'', ''Stub'', ''stub'', ''Fake'', ''fake'', ''Fixture'', ''spec'']"

abbreviation REG_TEST_PENALTY :: nat where "REG_TEST_PENALTY \<equiv> 1000"

definition candidate_score :: "string \<Rightarrow> string \<Rightarrow> nat" where
  "candidate_score candidate_qn module_qn =
     (if \<not> is_test_qn candidate_qn then REG_TEST_PENALTY else 0) + common_prefix_len candidate_qn module_qn"

fun best_loop :: "string \<Rightarrow> string option \<Rightarrow> int \<Rightarrow> string list \<Rightarrow> string option" where
  "best_loop module_qn best best_score [] = best"
| "best_loop module_qn best best_score (c # cs) =
     (if best_score < int (candidate_score c module_qn)
      then best_loop module_qn (Some c) (int (candidate_score c module_qn)) cs
      else best_loop module_qn best best_score cs)"

definition best_by_import_distance :: "string list \<Rightarrow> string \<Rightarrow> string option" where
  "best_by_import_distance candidates module_qn = best_loop module_qn None (- 1) candidates"

section \<open>The caches of a file\<close>

record resolution =
  rs_qualified_name :: "string option"
  rs_strategy :: "string option"
  rs_confidence :: dbl
  rs_candidate_count :: nat

definition empty_result :: resolution where
  "empty_result =
     \<lparr>rs_qualified_name = None, rs_strategy = None, rs_confidence = DFin False 0 0, rs_candidate_count = 0\<rparr>"

definition found :: "string \<Rightarrow> string \<Rightarrow> dbl \<Rightarrow> nat \<Rightarrow> resolution" where
  "found qn strategy c n =
     \<lparr>rs_qualified_name = Some qn, rs_strategy = Some strategy, rs_confidence = c, rs_candidate_count = n\<rparr>"

text \<open>\<open>res.qualified_name && res.qualified_name[0]\<close>.\<close>

definition resolved_to :: "resolution \<Rightarrow> bool" where
  "resolved_to res \<longleftrightarrow> (case rs_qualified_name res of Some qn \<Rightarrow> qn \<noteq> [] | None \<Rightarrow> False)"

type_synonym import_map = "(string \<times> string) list"

record file_caches =
  fc_reach :: "bool htable option"
  fc_import_map :: "string htable option"
  fc_resolve :: "resolution htable option"

definition no_caches :: file_caches where
  "no_caches = \<lparr>fc_reach = None, fc_import_map = None, fc_resolve = None\<rparr>"

definition pmm_registry_reach_cache_begin :: "file_caches \<Rightarrow> file_caches" where
  "pmm_registry_reach_cache_begin fc = fc\<lparr>fc_reach := Some []\<rparr>"

definition pmm_registry_reach_cache_end :: "file_caches \<Rightarrow> file_caches" where
  "pmm_registry_reach_cache_end fc = fc\<lparr>fc_reach := None\<rparr>"

definition pmm_registry_import_map_cache_begin :: "import_map \<Rightarrow> file_caches \<Rightarrow> file_caches" where
  "pmm_registry_import_map_cache_begin imports fc =
     fc\<lparr>fc_import_map :=
       (if imports = [] then None else Some (foldl (\<lambda>t (k, v). ht_set t k v) [] imports))\<rparr>"

definition pmm_registry_import_map_cache_end :: "file_caches \<Rightarrow> file_caches" where
  "pmm_registry_import_map_cache_end fc = fc\<lparr>fc_import_map := None\<rparr>"

definition pmm_registry_resolve_cache_begin :: "file_caches \<Rightarrow> file_caches" where
  "pmm_registry_resolve_cache_begin fc = fc\<lparr>fc_resolve := Some []\<rparr>"

definition pmm_registry_resolve_cache_end :: "file_caches \<Rightarrow> file_caches" where
  "pmm_registry_resolve_cache_end fc = fc\<lparr>fc_resolve := None\<rparr>"

definition candidate_module :: "string \<Rightarrow> string" where
  "candidate_module qn =
     (case strrchr_at qn (CHR ''.'') of
        Some dot \<Rightarrow> take 511 (before qn dot)
      | None \<Rightarrow> snprintf_buf 512 qn)"

definition is_import_reachable :: "string \<Rightarrow> string list \<Rightarrow> file_caches \<Rightarrow> bool \<times> file_caches" where
  "is_import_reachable candidate_qn import_vals fc =
     (case (case fc_reach fc of None \<Rightarrow> None | Some t \<Rightarrow> ht_get t candidate_qn) of
        Some cached \<Rightarrow> (cached, fc)
      | None \<Rightarrow>
          let cand_mod = candidate_module candidate_qn;
              reachable = list_ex (\<lambda>v. strstr cand_mod v \<noteq> None \<or> strstr v cand_mod \<noteq> None) import_vals
          in (reachable,
              case fc_reach fc of
                None \<Rightarrow> fc
              | Some t \<Rightarrow> fc\<lparr>fc_reach := Some (ht_set t candidate_qn reachable)\<rparr>))"

section \<open>Guards against noise\<close>

definition PERL_BUILTINS :: "string list" where
  "PERL_BUILTINS =
    [''abs'', ''atan2'', ''binmode'', ''bless'', ''caller'', ''chdir'', ''chmod'', ''chomp'', ''chop'',
     ''chown'', ''chr'', ''chroot'', ''close'', ''closedir'', ''cos'', ''defined'', ''delete'', ''die'',
     ''do'', ''each'', ''eof'', ''eval'', ''exec'', ''exists'', ''exit'', ''fork'', ''gmtime'', ''goto'',
     ''grep'', ''hex'', ''index'', ''int'', ''join'', ''keys'', ''last'', ''lc'', ''lcfirst'', ''length'',
     ''local'', ''localtime'', ''log'', ''lstat'', ''map'', ''mkdir'', ''my'', ''next'', ''oct'', ''open'',
     ''opendir'', ''ord'', ''our'', ''pop'', ''pos'', ''print'', ''printf'', ''push'', ''quotemeta'', ''rand'',
     ''read'', ''readdir'', ''readline'', ''redo'', ''ref'', ''rename'', ''require'', ''return'', ''reverse'',
     ''rindex'', ''rmdir'', ''say'', ''scalar'', ''seek'', ''shift'', ''sin'', ''sleep'', ''sort'', ''splice'',
     ''split'', ''sprintf'', ''sqrt'', ''srand'', ''stat'', ''substr'', ''system'', ''time'', ''uc'',
     ''ucfirst'', ''undef'', ''unlink'', ''unshift'', ''values'', ''wantarray'', ''warn'', ''write'']"

text \<open>\<open>bsearch\<close>: halving of the range \<open>[l, u)\<close>.\<close>

function bsearch :: "string \<Rightarrow> string list \<Rightarrow> nat \<Rightarrow> nat \<Rightarrow> nat option" where
  "bsearch key xs l u =
     (if u \<le> l then None
      else
        let i = (l + u) div 2; c = strcmp key (xs ! i)
        in if c < 0 then bsearch key xs l i
           else if 0 < c then bsearch key xs (i + 1) u
           else Some i)"
  by pat_completeness auto
termination
  by (relation "measure (\<lambda>(key, xs, l, u). u - l)") auto

declare bsearch.simps [simp del]

definition pmm_perl_is_builtin :: "string option \<Rightarrow> bool" where
  "pmm_perl_is_builtin name =
     (case name of
        None \<Rightarrow> False
      | Some n \<Rightarrow> if n = [] then False else bsearch n PERL_BUILTINS 0 (length PERL_BUILTINS) \<noteq> None)"

definition pmm_perl_suppress_generic_match :: "bool \<Rightarrow> bool \<Rightarrow> string option \<Rightarrow> string option \<Rightarrow> bool" where
  "pmm_perl_suppress_generic_match is_perl is_method callee_name strategy =
     (if \<not> is_perl then False
      else if \<not> (is_method \<or> pmm_perl_is_builtin callee_name) then False
      else
        (case strategy of
           None \<Rightarrow> False
         | Some s \<Rightarrow> s \<noteq> [] \<and> \<not> (s = ''same_module'' \<or> s = ''import_map'' \<or> s = ''import_map_suffix'')))"

definition pmm_tsjs_suppress_weak_method_match :: "bool \<Rightarrow> bool \<Rightarrow> string option \<Rightarrow> bool" where
  "pmm_tsjs_suppress_weak_method_match is_tsjs is_method strategy =
     (if \<not> is_tsjs \<or> \<not> is_method then False
      else
        (case strategy of
           None \<Rightarrow> False
         | Some s \<Rightarrow> s = ''suffix_match'' \<or> s = ''unique_name'' \<or> s = ''field_type_hint'' \<or> s = ''fuzzy''))"

section \<open>The registry\<close>

record registry =
  rg_label_pool :: "string list"
  rg_exact :: "string htable"
  rg_by_name :: "string list htable"

definition pmm_registry_new :: registry where
  "pmm_registry_new = \<lparr>rg_label_pool = [], rg_exact = [], rg_by_name = []\<rparr>"

definition registry_insert :: "registry \<Rightarrow> string \<Rightarrow> string \<Rightarrow> registry" where
  "registry_insert r qn interned =
     (let simple = simple_name qn; arr = (case ht_get (rg_by_name r) simple of None \<Rightarrow> [] | Some a \<Rightarrow> a)
      in r\<lparr>rg_exact := ht_set (rg_exact r) qn interned,
           rg_by_name := ht_set (rg_by_name r) simple (arr @ [qn])\<rparr>)"

definition pmm_registry_add :: "registry \<Rightarrow> string option \<Rightarrow> string option \<Rightarrow> string option \<Rightarrow> registry" where
  "pmm_registry_add r name qualified_name label =
     (case (qualified_name, label) of
        (Some qn, Some l) \<Rightarrow>
          if ht_get (rg_exact r) qn \<noteq> None then r
          else if l \<in> set (rg_label_pool r) then registry_insert r qn l
          else if length (rg_label_pool r) < 64 then
            registry_insert (r\<lparr>rg_label_pool := rg_label_pool r @ [l]\<rparr>) qn l
          else r
      | _ \<Rightarrow> r)"

definition pmm_registry_exists :: "registry \<Rightarrow> string option \<Rightarrow> bool" where
  "pmm_registry_exists r qn = (case qn of None \<Rightarrow> False | Some q \<Rightarrow> ht_get (rg_exact r) q \<noteq> None)"

definition pmm_registry_label_of :: "registry \<Rightarrow> string option \<Rightarrow> string option" where
  "pmm_registry_label_of r qn = (case qn of None \<Rightarrow> None | Some q \<Rightarrow> ht_get (rg_exact r) q)"

definition pmm_registry_find_by_name :: "registry \<Rightarrow> string \<Rightarrow> string list" where
  "pmm_registry_find_by_name r name = (case ht_get (rg_by_name r) name of None \<Rightarrow> [] | Some a \<Rightarrow> a)"

definition pmm_registry_size :: "registry \<Rightarrow> nat" where
  "pmm_registry_size r = ht_count (rg_exact r)"

text \<open>\<open>pmm_ht_get_key\<close>: the stored key.\<close>

definition registered_key :: "registry \<Rightarrow> string \<Rightarrow> string option" where
  "registered_key r k = (if ht_get (rg_exact r) k \<noteq> None then Some k else None)"

section \<open>Resolution\<close>

fun linear_lookup :: "string \<Rightarrow> import_map \<Rightarrow> string option" where
  "linear_lookup prefix [] = None"
| "linear_lookup prefix ((k, v) # imports) = (if k = prefix then Some v else linear_lookup prefix imports)"

text \<open>The first name of an array that starts and ends as asked.\<close>

fun suffix_scan :: "string \<Rightarrow> string \<Rightarrow> string list \<Rightarrow> string option" where
  "suffix_scan resolved_dot dot_suffix [] = None"
| "suffix_scan resolved_dot dot_suffix (qn # arr) =
     (if length resolved_dot + length dot_suffix \<le> length qn \<and>
         take (length resolved_dot) qn = resolved_dot \<and> drop (length qn - length dot_suffix) qn = dot_suffix
      then Some qn else suffix_scan resolved_dot dot_suffix arr)"

definition import_suffix_probe :: "registry \<Rightarrow> string \<Rightarrow> string \<Rightarrow> string option" where
  "import_suffix_probe r resolved suffix =
     suffix_scan (snprintf_buf 512 (resolved @ ''.'')) (snprintf_buf 256 (CHR ''.'' # suffix))
       (pmm_registry_find_by_name r (simple_name suffix))"

definition resolve_import_map ::
  "registry \<Rightarrow> string \<Rightarrow> string option \<Rightarrow> import_map \<Rightarrow> file_caches \<Rightarrow> resolution" where
  "resolve_import_map r prefix suffix imports fc =
     (if imports = [] then empty_result
      else
        (case (case fc_import_map fc of Some t \<Rightarrow> ht_get t prefix | None \<Rightarrow> linear_lookup prefix imports) of
           None \<Rightarrow> empty_result
         | Some resolved \<Rightarrow>
             let sfx = str_or_empty suffix in
             (case (if sfx = [] then registered_key r resolved else None) of
                Some direct \<Rightarrow> found direct ''import_map'' (conf 95) 1
              | None \<Rightarrow>
                  (case registered_key r
                      (snprintf_buf 512 (resolved @ ''.'' @ (if sfx \<noteq> [] then sfx else prefix))) of
                     Some stored \<Rightarrow> found stored ''import_map'' (conf 95) 1
                   | None \<Rightarrow>
                       (case (if sfx \<noteq> [] then import_suffix_probe r resolved sfx else None) of
                          Some qn \<Rightarrow> found qn ''import_map_suffix'' (conf 85) 1
                        | None \<Rightarrow> empty_result)))))"

definition resolve_same_module :: "registry \<Rightarrow> string \<Rightarrow> string option \<Rightarrow> string \<Rightarrow> resolution" where
  "resolve_same_module r callee_name suffix module_qn =
     (case registered_key r (snprintf_buf 512 (module_qn @ ''.'' @ callee_name)) of
        Some stored \<Rightarrow> found stored ''same_module'' (conf 90) 1
      | None \<Rightarrow>
          let sfx = str_or_empty suffix in
          (case (if sfx \<noteq> [] then registered_key r (snprintf_buf 512 (module_qn @ ''.'' @ sfx)) else None) of
             Some stored \<Rightarrow> found stored ''same_module'' (conf 90) 1
           | None \<Rightarrow> empty_result))"

text \<open>The candidates that an import reaches, as long as the array has room.\<close>

fun reachable_loop :: "nat \<Rightarrow> string list \<Rightarrow> string list \<Rightarrow> file_caches \<Rightarrow> string list \<times> file_caches" where
  "reachable_loop room vals [] fc = ([], fc)"
| "reachable_loop room vals (c # cs) fc =
     (if room = 0 then ([], fc)
      else
        let (b, fc1) = is_import_reachable c vals fc in
        if b then (let (out, fc2) = reachable_loop (room - 1) vals cs fc1 in (c # out, fc2))
        else reachable_loop room vals cs fc1)"

definition resolve_multi_with_imports ::
  "string list \<Rightarrow> string \<Rightarrow> string list \<Rightarrow> file_caches \<Rightarrow> resolution \<times> file_caches" where
  "resolve_multi_with_imports arr module_qn import_vals fc =
     (let (filtered, fc') = reachable_loop 256 import_vals arr fc;
          all_candidates =
            (case best_by_import_distance arr module_qn of
               Some best \<Rightarrow>
                 found best ''suffix_match''
                   (candidate_count_penalty (dbl_mul (conf 55) (conf 50)) (length arr)) (length arr)
             | None \<Rightarrow> empty_result)
      in (if length filtered = 1 then
            found (hd filtered) ''suffix_match'' (candidate_count_penalty (conf 55) (length arr)) (length arr)
          else if 1 < length filtered then
            (case best_by_import_distance filtered module_qn of
               Some best \<Rightarrow>
                 found best ''suffix_match'' (candidate_count_penalty (conf 55) (length filtered)) (length filtered)
             | None \<Rightarrow> all_candidates)
          else all_candidates, fc'))"

text \<open>The callee with \<open>::\<close> written as a dot, as far as the buffer goes.\<close>

fun dotted_callee :: "nat \<Rightarrow> string \<Rightarrow> string" where
  "dotted_callee 0 s = []"
| "dotted_callee (Suc room) [] = []"
| "dotted_callee (Suc room) (c # s) =
     (if c = CHR '':'' \<and> s \<noteq> [] \<and> hd s = CHR '':'' then CHR ''.'' # dotted_callee room (tl s)
      else c # dotted_callee room s)"

fun tail_scan :: "string \<Rightarrow> string option \<Rightarrow> string list \<Rightarrow> string option" where
  "tail_scan dotted match [] = match"
| "tail_scan dotted match (qn # arr) =
     (let k = length qn - length dotted in
      if length qn < length dotted \<or> drop k qn \<noteq> dotted \<or> (k \<noteq> 0 \<and> qn ! (k - 1) \<noteq> CHR ''.'')
      then tail_scan dotted match arr
      else if match \<noteq> None then None
      else tail_scan dotted (Some qn) arr)"

definition qualified_suffix_match :: "string list \<Rightarrow> string \<Rightarrow> string option" where
  "qualified_suffix_match arr callee_name =
     (let dotted = dotted_callee 511 callee_name in
      if CHR ''.'' \<notin> set dotted then None else tail_scan dotted None arr)"

abbreviation REG_MAX_CANDIDATES :: nat where "REG_MAX_CANDIDATES \<equiv> 256"

definition resolve_name_lookup ::
  "registry \<Rightarrow> string \<Rightarrow> string \<Rightarrow> string list \<Rightarrow> file_caches \<Rightarrow> resolution \<times> file_caches" where
  "resolve_name_lookup r callee_name module_qn import_vals fc =
     (let arr = pmm_registry_find_by_name r (simple_name callee_name) in
      if arr = [] then (empty_result, fc)
      else if REG_MAX_CANDIDATES < length arr then (empty_result, fc)
      else
        (case (if 1 < length arr then qualified_suffix_match arr callee_name else None) of
           Some q \<Rightarrow> (found q ''qualified_suffix'' (conf 90) 1, fc)
         | None \<Rightarrow>
             if length arr = 1 then
               if import_vals \<noteq> [] then
                 (let (reachable, fc') = is_import_reachable (hd arr) import_vals fc
                  in (found (hd arr) ''unique_name''
                        (if \<not> reachable then dbl_mul (conf 75) (conf 50) else conf 75) 1, fc'))
               else (found (hd arr) ''unique_name'' (conf 75) 1, fc)
             else if import_vals \<noteq> [] then resolve_multi_with_imports arr module_qn import_vals fc
             else
               (case best_by_import_distance arr module_qn of
                  Some best \<Rightarrow>
                    (found best ''suffix_match'' (candidate_count_penalty (conf 55) (length arr)) (length arr), fc)
                | None \<Rightarrow> (empty_result, fc))))"

text \<open>The callee split at its first separator, a dot or \<open>::\<close>.\<close>

definition split_callee :: "string \<Rightarrow> string \<times> string option" where
  "split_callee callee_name =
     (let dot = strchr_at callee_name (CHR ''.''); colons = strstr callee_name ''::'';
          sep =
            (case (colons, dot) of
               (Some q, None) \<Rightarrow> Some (q, 2)
             | (Some q, Some d) \<Rightarrow> if length d < length q then Some (q, 2) else Some (d, 1)
             | (None, Some d) \<Rightarrow> Some (d, 1)
             | (None, None) \<Rightarrow> None)
      in case sep of
           Some (p, sep_len) \<Rightarrow> (take 255 (before callee_name p), Some (drop sep_len p))
         | None \<Rightarrow> (snprintf_buf 256 callee_name, None))"

definition resolve_chain ::
  "registry \<Rightarrow> string \<Rightarrow> string \<Rightarrow> import_map \<Rightarrow> file_caches \<Rightarrow> resolution \<times> file_caches" where
  "resolve_chain r callee_name module_qn imports fc =
     (let (prefix, suffix) = split_callee callee_name;
          res = resolve_import_map r prefix suffix imports fc;
          res = (if \<not> resolved_to res then resolve_same_module r callee_name suffix module_qn else res)
      in if \<not> resolved_to res then resolve_name_lookup r callee_name module_qn (map snd imports) fc
         else (res, fc))"

definition pmm_registry_resolve ::
  "registry \<Rightarrow> string option \<Rightarrow> string \<Rightarrow> import_map \<Rightarrow> file_caches \<Rightarrow> resolution \<times> file_caches" where
  "pmm_registry_resolve r callee_name module_qn imports fc =
     (case callee_name of
        None \<Rightarrow> (empty_result, fc)
      | Some callee \<Rightarrow>
          (case (case fc_resolve fc of None \<Rightarrow> None | Some t \<Rightarrow> ht_get t callee) of
             Some cached \<Rightarrow> (cached, fc)
           | None \<Rightarrow>
               let (res, fc') = resolve_chain r callee module_qn imports fc
               in (res,
                   case fc_resolve fc' of
                     None \<Rightarrow> fc'
                   | Some t \<Rightarrow> fc'\<lparr>fc_resolve := Some (ht_set t callee res)\<rparr>)))"

text \<open>A worker opens the caches before it resolves the names of a file, and closes them after.\<close>

definition begin_file_caches :: "import_map \<Rightarrow> file_caches \<Rightarrow> file_caches" where
  "begin_file_caches imports fc =
     pmm_registry_resolve_cache_begin
       (pmm_registry_import_map_cache_begin imports (pmm_registry_reach_cache_begin fc))"

definition end_file_caches :: "file_caches \<Rightarrow> file_caches" where
  "end_file_caches fc =
     pmm_registry_reach_cache_end (pmm_registry_import_map_cache_end (pmm_registry_resolve_cache_end fc))"

section \<open>Fuzzy resolution and search by suffix\<close>

definition filter_import_reachable ::
  "string list \<Rightarrow> string list \<Rightarrow> nat \<Rightarrow> file_caches \<Rightarrow> string list \<times> file_caches" where
  "filter_import_reachable candidates import_vals max_out fc = reachable_loop max_out import_vals candidates fc"

text \<open>\<open>None\<close> is a result that is not ok.\<close>

definition pmm_registry_fuzzy_resolve ::
  "registry \<Rightarrow> string option \<Rightarrow> string \<Rightarrow> string list \<Rightarrow> file_caches \<Rightarrow> resolution option \<times> file_caches" where
  "pmm_registry_fuzzy_resolve r callee_name module_qn import_vals fc =
     (case callee_name of
        None \<Rightarrow> (None, fc)
      | Some callee \<Rightarrow>
          let arr = pmm_registry_find_by_name r (simple_name callee) in
          if arr = [] then (None, fc)
          else if REG_MAX_CANDIDATES < length arr then (None, fc)
          else if length arr = 1 then
            (let (reachable, fc') =
               (if import_vals \<noteq> [] then is_import_reachable (hd arr) import_vals fc else (True, fc))
             in (Some (found (hd arr) ''fuzzy'' (if \<not> reachable then dbl_mul (conf 40) (conf 50) else conf 40) 1), fc'))
          else
            (let (fptr, fc') =
               (if import_vals \<noteq> [] then filter_import_reachable arr import_vals 256 fc else (arr, fc))
             in (if fptr = [] then
                   map_option (\<lambda>best. found best ''fuzzy''
                       (candidate_count_penalty (dbl_mul (conf 30) (conf 50)) (length arr)) (length arr))
                     (best_by_import_distance arr module_qn)
                 else if length fptr = 1 then
                   Some (found (hd fptr) ''fuzzy'' (candidate_count_penalty (conf 40) (length arr)) (length arr))
                 else
                   map_option (\<lambda>best. found best ''fuzzy'' (candidate_count_penalty (conf 30) (length fptr)) (length fptr))
                     (best_by_import_distance fptr module_qn), fc')))"

definition few_scan :: "string \<Rightarrow> string \<Rightarrow> bool" where
  "few_scan target key \<longleftrightarrow>
     length target \<le> length key \<and> drop (length key - length target) key = target"

text \<open>The keys in the order of the table.\<close>

definition pmm_registry_find_ending_with :: "registry \<Rightarrow> string option \<Rightarrow> string list" where
  "pmm_registry_find_ending_with r suffix =
     (case suffix of
        None \<Rightarrow> []
      | Some s \<Rightarrow> filter (few_scan (CHR ''.'' # s)) (map fst (rg_exact r)))"

end
