(* ===== verification/Registry_Facts.thy ===== *)
theory Registry_Facts
  imports Registry Fqn_Paths
begin

text \<open>
  Lemmas on the registry: its two indexes, simple names, the search by suffix, the caches of a file,
  the choice of the best candidate, and the binary search.
\<close>

section \<open>The indexes\<close>

abbreviation registered_names :: "registry \<Rightarrow> string list" where
  "registered_names r \<equiv> map fst (rg_exact r)"

definition registry_wf :: "registry \<Rightarrow> bool" where
  "registry_wf r \<longleftrightarrow>
     ht_wf (rg_exact r) \<and> distinct (rg_label_pool r) \<and> length (rg_label_pool r) \<le> 64 \<and>
     snd ` set (rg_exact r) \<subseteq> set (rg_label_pool r) \<and>
     (\<forall>n. pmm_registry_find_by_name r n = filter (\<lambda>q. simple_name q = n) (registered_names r))"

lemma ht_get_names: "ht_get t k = None \<longleftrightarrow> k \<notin> set (map fst t)"
  by (simp add: ht_get_def map_of_eq_None_iff image_iff)

lemma ht_set_new: "ht_get t k = None \<Longrightarrow> ht_set t k v = t @ [(k, v)]"
  by (induction t) (auto simp: ht_set_def ht_get_def split: if_splits)

lemma registry_new_wf: "registry_wf pmm_registry_new"
  by (simp add: registry_wf_def pmm_registry_new_def ht_wf_def pmm_registry_find_by_name_def)

lemma registry_insert_wf:
  assumes "registry_wf r" "ht_get (rg_exact r) qn = None" "l \<in> set (rg_label_pool r)"
  shows "registry_wf (registry_insert r qn l)" "rg_exact (registry_insert r qn l) = rg_exact r @ [(qn, l)]"
    "rg_label_pool (registry_insert r qn l) = rg_label_pool r"
proof -
  show exact: "rg_exact (registry_insert r qn l) = rg_exact r @ [(qn, l)]"
    by (simp add: registry_insert_def Let_def ht_set_new[OF assms(2)])
  have by_name: "pmm_registry_find_by_name (registry_insert r qn l) n =
      pmm_registry_find_by_name r n @ (if simple_name qn = n then [qn] else [])" for n
    by (auto simp: registry_insert_def pmm_registry_find_by_name_def Let_def ht.get_set split: option.splits)
  show "rg_label_pool (registry_insert r qn l) = rg_label_pool r"
    by (simp add: registry_insert_def Let_def)
  then show "registry_wf (registry_insert r qn l)"
    using assms by (auto simp: registry_wf_def exact by_name ht_wf_def ht_get_names)
qed

lemma registry_pool_wf:
  assumes "registry_wf r" "l \<notin> set (rg_label_pool r)" "length (rg_label_pool r) < 64"
  shows "registry_wf (r\<lparr>rg_label_pool := rg_label_pool r @ [l]\<rparr>)"
  using assms by (auto simp: registry_wf_def pmm_registry_find_by_name_def)

lemma registry_add_cases:
  obtains (same) "pmm_registry_add r name q l = r"
  | (known) qn lb where "q = Some qn" "l = Some lb" "ht_get (rg_exact r) qn = None" "lb \<in> set (rg_label_pool r)"
      "pmm_registry_add r name q l = registry_insert r qn lb"
  | (fresh) qn lb where "q = Some qn" "l = Some lb" "ht_get (rg_exact r) qn = None" "lb \<notin> set (rg_label_pool r)"
      "length (rg_label_pool r) < 64"
      "pmm_registry_add r name q l = registry_insert (r\<lparr>rg_label_pool := rg_label_pool r @ [lb]\<rparr>) qn lb"
proof (cases "\<exists>qn lb. q = Some qn \<and> l = Some lb \<and> ht_get (rg_exact r) qn = None \<and>
    (lb \<in> set (rg_label_pool r) \<or> length (rg_label_pool r) < 64)")
  case True
  then obtain qn lb where *: "q = Some qn" "l = Some lb" "ht_get (rg_exact r) qn = None"
    "lb \<in> set (rg_label_pool r) \<or> length (rg_label_pool r) < 64"
    by blast
  then show ?thesis
    by (cases "lb \<in> set (rg_label_pool r)") (simp_all add: pmm_registry_add_def known fresh)
next
  case False
  then have "pmm_registry_add r name q l = r"
    by (auto simp: pmm_registry_add_def split: option.splits)
  then show ?thesis
    by (rule same)
qed

lemma registry_add_wf: "registry_wf r \<Longrightarrow> registry_wf (pmm_registry_add r name q l)"
  by (cases rule: registry_add_cases[of r name q l]) (simp_all add: registry_insert_wf(1) registry_pool_wf)

section \<open>Simple names\<close>

lemma strstr_dot:
  "strstr (u @ CHR ''.'' # s) ''::'' =
     (case strstr u ''::'' of Some q \<Rightarrow> Some (q @ CHR ''.'' # s) | None \<Rightarrow> strstr s ''::'')"
proof (induction u)
  case (Cons c u)
  then show ?case
    by (cases u) (auto split: option.splits)
qed simp

lemma strstr_colons: "strstr u ''::'' = Some q \<Longrightarrow> \<exists>w v. u = w @ q \<and> q = CHR '':'' # CHR '':'' # v"
  using strstr_append[of u "''::''" q] by (cases q; cases "tl q") auto

lemma last_colons_dot:
  "last_colons (u @ CHR ''.'' # s) =
     (case last_colons s of
        Some q \<Rightarrow> Some q
      | None \<Rightarrow> map_option (\<lambda>q. q @ CHR ''.'' # s) (last_colons u))"
proof (induction "length u" arbitrary: u rule: less_induct)
  case less
  show ?case
  proof (cases "strstr u ''::''")
    case None
    then show ?thesis
      using strstr_dot[of u s] last_colons.simps[of u] last_colons.simps[of s]
        last_colons.simps[of "u @ CHR ''.'' # s"]
      by (simp split: option.splits)
  next
    case (Some q)
    then obtain w v where q: "u = w @ q" "q = CHR '':'' # CHR '':'' # v"
      using strstr_colons by blast
    then have "last_colons (v @ CHR ''.'' # s) =
        (case last_colons s of Some q \<Rightarrow> Some q | None \<Rightarrow> map_option (\<lambda>q. q @ CHR ''.'' # s) (last_colons v))"
      using less[of v] by simp
    then show ?thesis
      using Some strstr_dot[of u s] last_colons.simps[of u] last_colons.simps[of "u @ CHR ''.'' # s"] q
      by (simp split: option.splits)
  qed
qed

lemma strrchr_append: "strrchr_at (u @ c # s) c = (case strrchr_at s c of None \<Rightarrow> Some (c # s) | Some t \<Rightarrow> Some t)"
  by (induction u) (auto split: option.splits)

lemma strrchr_length: "strrchr_at s c = Some t \<Longrightarrow> length t \<le> length s"
  by (auto simp: strrchr_at_Some)

lemma last_colons_length: "last_colons s = Some q \<Longrightarrow> length q \<le> length s \<and> 2 \<le> length q"
proof (induction s rule: last_colons.induct)
  case (1 p)
  obtain t where t: "strstr p ''::'' = Some t"
    using "1.prems" last_colons.simps[of p] by (auto split: option.splits)
  then obtain w v where v: "p = w @ t" "t = CHR '':'' # CHR '':'' # v"
    using strstr_colons by blast
  show ?case
  proof (cases "last_colons v")
    case None
    then show ?thesis
      using "1.prems" last_colons.simps[of p] t v by simp
  next
    case (Some r)
    then have "r = q"
      using "1.prems" last_colons.simps[of p] t v by simp
    then show ?thesis
      using "1.IH"[OF t] Some v by simp
  qed
qed

text \<open>The part behind a dot decides the simple name.\<close>

lemma simple_name_dot:
  assumes "s \<noteq> []"
  shows "simple_name (u @ CHR ''.'' # s) = simple_name s"
proof -
  let ?p = "u @ CHR ''.'' # s"
  define seg where "seg = (case strrchr_at s (CHR ''.'') of Some dot \<Rightarrow> tl dot | None \<Rightarrow> s)"
  have seg: "(case strrchr_at ?p (CHR ''.'') of Some dot \<Rightarrow> tl dot | None \<Rightarrow> ?p) = seg" "length seg \<le> length s"
    by (auto simp: strrchr_append seg_def split: option.splits dest!: strrchr_length)
  show ?thesis
  proof (cases "last_colons s")
    case (Some q)
    then show ?thesis
      using seg(1) by (simp add: simple_name_def Let_def last_colons_dot flip: seg_def)
  next
    case None
    have "\<not> length (drop 2 (q @ CHR ''.'' # s)) < length seg" if "last_colons u = Some q" for q
      using last_colons_length[OF that] seg(2) by simp linarith
    then show ?thesis
      using None seg(1) by (auto simp: simple_name_def Let_def last_colons_dot simp flip: seg_def split: option.splits)
  qed
qed

section \<open>The search by prefix and suffix\<close>

lemma suffix_scan_find:
  "suffix_scan p s arr =
     List.find (\<lambda>q. length p + length s \<le> length q \<and> take (length p) q = p \<and> drop (length q - length s) q = s) arr"
  by (induction arr) auto

lemma prefix_suffix:
  "length p + length s \<le> length q \<and> take (length p) q = p \<and> drop (length q - length s) q = s \<longleftrightarrow>
   (\<exists>mid. q = p @ mid @ s)"
proof
  assume a: "length p + length s \<le> length q \<and> take (length p) q = p \<and> drop (length q - length s) q = s"
  then obtain t where t: "q = p @ t"
    by (metis append_take_drop_id)
  then have "length s \<le> length t" "drop (length p + length t - length s) q = s"
    using a by simp_all
  then have "drop (length t - length s) t = s"
    by (simp add: t)
  then have "t = take (length t - length s) t @ s"
    by (metis append_take_drop_id)
  then show "\<exists>mid. q = p @ mid @ s"
    using t by blast
qed auto

lemma find_filter: "List.find P (filter Q xs) = List.find (\<lambda>x. P x \<and> Q x) xs"
  by (induction xs) auto

lemma find_cong: "(\<And>x. x \<in> set xs \<Longrightarrow> P x = Q x) \<Longrightarrow> List.find P xs = List.find Q xs"
  by (induction xs) auto

lemma import_suffix_probe_find:
  assumes "registry_wf r" "suffix \<noteq> []" "length resolved < 511" "length suffix < 255"
  shows "import_suffix_probe r resolved suffix =
    List.find (\<lambda>q. \<exists>mid. q = resolved @ ''.'' @ mid @ ''.'' @ suffix) (registered_names r)"
proof -
  have "import_suffix_probe r resolved suffix =
      List.find (\<lambda>q. \<exists>mid. q = (resolved @ ''.'') @ mid @ CHR ''.'' # suffix)
        (filter (\<lambda>q. simple_name q = simple_name suffix) (registered_names r))"
  proof -
    have "pmm_registry_find_by_name r n = filter (\<lambda>q. simple_name q = n) (registered_names r)" for n
      using assms(1) by (simp add: registry_wf_def)
    moreover have "snprintf_buf 512 (resolved @ ''.'') = resolved @ ''.''"
      "snprintf_buf 256 (CHR ''.'' # suffix) = CHR ''.'' # suffix"
      using assms(3,4) by (simp_all add: snprintf_buf_id)
    ultimately show ?thesis
      by (simp only: import_suffix_probe_def suffix_scan_find prefix_suffix)
  qed
  also have "\<dots> = List.find (\<lambda>q. (\<exists>mid. q = (resolved @ ''.'') @ mid @ CHR ''.'' # suffix) \<and>
      simple_name q = simple_name suffix) (registered_names r)"
    by (rule find_filter)
  also have "\<dots> = List.find (\<lambda>q. \<exists>mid. q = resolved @ ''.'' @ mid @ ''.'' @ suffix) (registered_names r)"
  proof (rule find_cong)
    fix q
    have "simple_name ((resolved @ ''.'' @ mid) @ CHR ''.'' # suffix) = simple_name suffix" for mid
      by (rule simple_name_dot[OF assms(2)])
    then show "((\<exists>mid. q = (resolved @ ''.'') @ mid @ CHR ''.'' # suffix) \<and> simple_name q = simple_name suffix) =
        (\<exists>mid. q = resolved @ ''.'' @ mid @ ''.'' @ suffix)"
      by auto
  qed
  finally show ?thesis .
qed

end
