(* ===== verification/Registry_Caches.thy ===== *)
theory Registry_Caches
  imports Registry_Facts
begin

text \<open>The caches of a file give the answers of the computations that they remember.\<close>

definition reaches :: "string list \<Rightarrow> string \<Rightarrow> bool" where
  "reaches vals c \<longleftrightarrow>
     list_ex (\<lambda>v. strstr (candidate_module c) v \<noteq> None \<or> strstr v (candidate_module c) \<noteq> None) vals"

definition reach_ok :: "string list \<Rightarrow> file_caches \<Rightarrow> bool" where
  "reach_ok vals fc \<longleftrightarrow> (\<forall>t c b. fc_reach fc = Some t \<longrightarrow> ht_get t c = Some b \<longrightarrow> b = reaches vals c)"

definition import_ok :: "import_map \<Rightarrow> file_caches \<Rightarrow> bool" where
  "import_ok imports fc \<longleftrightarrow> (\<forall>t p. fc_import_map fc = Some t \<longrightarrow> ht_get t p = linear_lookup p imports)"

definition resolve_ok :: "registry \<Rightarrow> string \<Rightarrow> import_map \<Rightarrow> file_caches \<Rightarrow> bool" where
  "resolve_ok r m imports fc \<longleftrightarrow>
     (\<forall>t c res. fc_resolve fc = Some t \<longrightarrow> ht_get t c = Some res \<longrightarrow> res = fst (resolve_chain r c m imports no_caches))"

lemma is_import_reachable_eq:
  "is_import_reachable c vals fc =
     (case (case fc_reach fc of None \<Rightarrow> None | Some t \<Rightarrow> ht_get t c) of
        Some cached \<Rightarrow> (cached, fc)
      | None \<Rightarrow> (reaches vals c,
          case fc_reach fc of None \<Rightarrow> fc | Some t \<Rightarrow> fc\<lparr>fc_reach := Some (ht_set t c (reaches vals c))\<rparr>))"
  by (simp add: is_import_reachable_def reaches_def Let_def split: option.splits)

lemma is_import_reachable_uncached: "is_import_reachable c vals no_caches = (reaches vals c, no_caches)"
  by (simp add: is_import_reachable_eq no_caches_def)

lemma is_import_reachable_cached:
  assumes "reach_ok vals fc"
  obtains fc' where "is_import_reachable c vals fc = (reaches vals c, fc')" "reach_ok vals fc'"
    "fc_import_map fc' = fc_import_map fc" "fc_resolve fc' = fc_resolve fc"
proof (cases "fc_reach fc")
  case None
  show ?thesis
    by (rule that[of fc]) (simp_all add: is_import_reachable_eq None assms)
next
  case (Some t)
  then have t: "ht_get t d = Some b \<Longrightarrow> b = reaches vals d" for d b
    using assms by (simp add: reach_ok_def)
  show ?thesis
  proof (cases "ht_get t c")
    case None
    have "reach_ok vals (fc\<lparr>fc_reach := Some (ht_set t c (reaches vals c))\<rparr>)"
      using t by (auto simp: reach_ok_def ht.get_set)
    then show ?thesis
      by (intro that[of "fc\<lparr>fc_reach := Some (ht_set t c (reaches vals c))\<rparr>"])
        (simp_all add: is_import_reachable_eq Some None)
  next
    case (Some b)
    show ?thesis
      by (rule that[of fc]) (simp_all add: is_import_reachable_eq \<open>fc_reach fc = Some t\<close> Some t[OF Some] assms)
  qed
qed

lemma reachable_loop_cached:
  assumes "reach_ok vals fc"
  obtains fc' where "reachable_loop room vals cs fc = (take room (filter (reaches vals) cs), fc')" "reach_ok vals fc'"
    "fc_import_map fc' = fc_import_map fc" "fc_resolve fc' = fc_resolve fc"
  using assms
proof (induction cs arbitrary: room fc thesis)
  case (Cons c cs)
  obtain fc1 where 1: "is_import_reachable c vals fc = (reaches vals c, fc1)" "reach_ok vals fc1"
    "fc_import_map fc1 = fc_import_map fc" "fc_resolve fc1 = fc_resolve fc"
    using is_import_reachable_cached[OF Cons.prems(2)] by blast
  obtain fc2 where 2: "reachable_loop (room - 1) vals cs fc1 = (take (room - 1) (filter (reaches vals) cs), fc2)"
    "reach_ok vals fc2" "fc_import_map fc2 = fc_import_map fc1" "fc_resolve fc2 = fc_resolve fc1"
    using Cons.IH[OF _ 1(2)] by blast
  obtain fc3 where 3: "reachable_loop room vals cs fc1 = (take room (filter (reaches vals) cs), fc3)"
    "reach_ok vals fc3" "fc_import_map fc3 = fc_import_map fc1" "fc_resolve fc3 = fc_resolve fc1"
    using Cons.IH[OF _ 1(2)] by blast
  show ?case
  proof (cases "room = 0")
    case True
    then show ?thesis
      using Cons.prems(1)[of fc] Cons.prems(2) by simp
  next
    case False
    then show ?thesis
      using Cons.prems(1)[of "if reaches vals c then fc2 else fc3"] 1 2 3 by (cases room) (simp_all split: if_splits)
  qed
qed simp

lemma reachable_loop_uncached: "reachable_loop room vals cs no_caches = (take room (filter (reaches vals) cs), no_caches)"
  by (induction cs arbitrary: room) (simp_all add: is_import_reachable_uncached take_Cons')

lemma resolve_multi_cached:
  assumes "reach_ok vals fc"
  obtains fc' where "resolve_multi_with_imports arr m vals fc = (fst (resolve_multi_with_imports arr m vals no_caches), fc')"
    "reach_ok vals fc'" "fc_import_map fc' = fc_import_map fc" "fc_resolve fc' = fc_resolve fc"
proof -
  obtain fc' where *: "reachable_loop 256 vals arr fc = (take 256 (filter (reaches vals) arr), fc')" "reach_ok vals fc'"
    "fc_import_map fc' = fc_import_map fc" "fc_resolve fc' = fc_resolve fc"
    by (rule reachable_loop_cached[OF assms])
  show ?thesis
    by (rule that[OF _ *(2-4)]) (simp add: resolve_multi_with_imports_def *(1) reachable_loop_uncached Let_def)
qed

lemma resolve_name_lookup_cached:
  assumes "reach_ok vals fc"
  obtains fc' where "resolve_name_lookup r c m vals fc = (fst (resolve_name_lookup r c m vals no_caches), fc')"
    "reach_ok vals fc'" "fc_import_map fc' = fc_import_map fc" "fc_resolve fc' = fc_resolve fc"
proof -
  let ?arr = "pmm_registry_find_by_name r (simple_name c)"
  obtain fc1 where 1: "is_import_reachable (hd ?arr) vals fc = (reaches vals (hd ?arr), fc1)" "reach_ok vals fc1"
    "fc_import_map fc1 = fc_import_map fc" "fc_resolve fc1 = fc_resolve fc"
    by (rule is_import_reachable_cached[OF assms])
  obtain fc2 where 2: "resolve_multi_with_imports ?arr m vals fc = (fst (resolve_multi_with_imports ?arr m vals no_caches), fc2)"
    "reach_ok vals fc2" "fc_import_map fc2 = fc_import_map fc" "fc_resolve fc2 = fc_resolve fc"
    by (rule resolve_multi_cached[OF assms])
  note def = resolve_name_lookup_def[of r c m vals] Let_def
  consider (none) "?arr = [] \<or> 256 < length ?arr"
    | (tail) q where "?arr \<noteq> []" "\<not> 256 < length ?arr" "(if 1 < length ?arr then qualified_suffix_match ?arr c else None) = Some q"
    | (one) "length ?arr = 1" "vals \<noteq> []"
    | (many) "1 < length ?arr" "\<not> 256 < length ?arr" "qualified_suffix_match ?arr c = None" "vals \<noteq> []"
    | (plain) "?arr \<noteq> []" "\<not> 256 < length ?arr" "(if 1 < length ?arr then qualified_suffix_match ?arr c else None) = None" "vals = []"
    by (cases ?arr; cases "tl ?arr"; cases "qualified_suffix_match ?arr c") fastforce+
  then show ?thesis
  proof cases
    case none
    then show ?thesis
      using that[of fc] assms by (auto simp: def)
  next
    case tail
    then show ?thesis
      using that[of fc] assms unfolding def by (simp only: if_False option.case fst_conv simp_thms)
  next
    case one
    then have "?arr \<noteq> []"
      by auto
    with one show ?thesis
      using that[of fc1] 1 by (simp add: def is_import_reachable_uncached)
  next
    case many
    then have "?arr \<noteq> []" "length ?arr \<noteq> 1"
      by auto
    with many show ?thesis
      using that[of fc2] 2 by (simp add: def)
  next
    case plain
    then show ?thesis
      using that[of fc] assms unfolding def
      by (cases "length ?arr = 1"; cases "best_by_import_distance ?arr m") simp_all
  qed
qed

lemma resolve_import_map_cached:
  "import_ok imports fc \<Longrightarrow> resolve_import_map r p s imports fc = resolve_import_map r p s imports no_caches"
  by (auto simp: resolve_import_map_def import_ok_def no_caches_def split: option.splits)

lemma resolve_chain_cached:
  assumes "reach_ok (map snd imports) fc" "import_ok imports fc"
  obtains fc' where "resolve_chain r c m imports fc = (fst (resolve_chain r c m imports no_caches), fc')"
    "reach_ok (map snd imports) fc'" "fc_import_map fc' = fc_import_map fc" "fc_resolve fc' = fc_resolve fc"
proof -
  obtain p s where ps: "split_callee c = (p, s)"
    by (cases "split_callee c")
  note im = resolve_import_map_cached[OF assms(2), of r p s]
  obtain fc1 where 1: "resolve_name_lookup r c m (map snd imports) fc =
      (fst (resolve_name_lookup r c m (map snd imports) no_caches), fc1)" "reach_ok (map snd imports) fc1"
    "fc_import_map fc1 = fc_import_map fc" "fc_resolve fc1 = fc_resolve fc"
    by (rule resolve_name_lookup_cached[OF assms(1)])
  consider (name) "snd (resolve_chain r c m imports fc) = fc1"
      "fst (resolve_chain r c m imports fc) = fst (resolve_chain r c m imports no_caches)"
    | (early) "resolve_chain r c m imports fc = (fst (resolve_chain r c m imports no_caches), fc)"
    using 1(1) by (cases "resolved_to (resolve_import_map r p s imports no_caches)";
        cases "resolved_to (resolve_same_module r c s m)") (simp_all add: resolve_chain_def ps im)
  then show ?thesis
  proof cases
    case name
    then show ?thesis
      using that[of fc1] 1(2-4) by (metis prod.collapse)
  next
    case early
    then show ?thesis
      using that[of fc] assms(1) by simp
  qed
qed

lemma resolve_uncached:
  "fst (pmm_registry_resolve r (Some c) m imports no_caches) = fst (resolve_chain r c m imports no_caches)"
  by (simp add: pmm_registry_resolve_def no_caches_def Let_def split: prod.splits)

lemma pmm_registry_resolve_cached:
  assumes "reach_ok (map snd imports) fc" "import_ok imports fc" "resolve_ok r m imports fc"
  obtains fc' where "pmm_registry_resolve r (Some c) m imports fc =
      (fst (pmm_registry_resolve r (Some c) m imports no_caches), fc')"
    "reach_ok (map snd imports) fc'" "import_ok imports fc'" "resolve_ok r m imports fc'"
proof -
  note uncached = resolve_uncached[of r c m "imports"]
  note def = pmm_registry_resolve_def[of r "Some c" m "imports" fc]
  obtain fc1 where 1: "resolve_chain r c m imports fc = (fst (resolve_chain r c m imports no_caches), fc1)"
    "reach_ok (map snd imports) fc1" "fc_import_map fc1 = fc_import_map fc" "fc_resolve fc1 = fc_resolve fc"
    by (rule resolve_chain_cached[OF assms(1,2)])
  have im: "import_ok imports fc1"
    using assms(2) 1(3) by (simp add: import_ok_def)
  show ?thesis
  proof (cases "fc_resolve fc")
    case None
    then show ?thesis
      using that[of fc1] 1 im by (simp add: def uncached resolve_ok_def)
  next
    case (Some t)
    show ?thesis
    proof (cases "ht_get t c")
      case None
      let ?fc = "fc1\<lparr>fc_resolve := Some (ht_set t c (fst (resolve_chain r c m imports no_caches)))\<rparr>"
      have "reach_ok (map snd imports) ?fc" "import_ok imports ?fc" "resolve_ok r m imports ?fc"
        using 1(2) im assms(3) Some by (simp_all add: reach_ok_def import_ok_def resolve_ok_def ht.get_set)
      then show ?thesis
        using that[of ?fc] 1 Some None by (simp add: def uncached)
    next
      case (Some res)
      then show ?thesis
        using that[of fc] assms \<open>fc_resolve fc = Some t\<close> by (simp add: def uncached resolve_ok_def)
    qed
  qed
qed

section \<open>Opening the caches\<close>

lemma linear_lookup_map_of: "linear_lookup p imports = map_of imports p"
  by (induction "imports") auto

lemma import_table_get: "ht_get (foldl (\<lambda>t (k, v). ht_set t k v) t imports) p =
    (case map_of (rev imports) p of Some v \<Rightarrow> Some v | None \<Rightarrow> ht_get t p)"
  by (induction "imports" arbitrary: t) (auto simp: ht.get_set map_add_def split: option.splits)

definition consistent_imports :: "import_map \<Rightarrow> bool" where
  "consistent_imports imports \<longleftrightarrow> (\<forall>k v v'. (k, v) \<in> set imports \<longrightarrow> (k, v') \<in> set imports \<longrightarrow> v = v')"

lemma map_of_rev_consistent:
  assumes "consistent_imports imports"
  shows "map_of (rev imports) p = map_of imports p"
proof (cases "map_of imports p")
  case None
  then show ?thesis
    by (metis map_of_eq_None_iff set_rev)
next
  case (Some v)
  then have "p \<in> fst ` set (rev imports)"
    by (force dest: map_of_SomeD)
  then obtain w where w: "map_of (rev imports) p = Some w"
    by (metis map_of_eq_None_iff not_None_eq)
  then show ?thesis
    using map_of_SomeD[OF Some] map_of_SomeD[OF w] assms Some by (auto simp: consistent_imports_def)
qed

lemma begin_file_caches_ok:
  assumes "consistent_imports imports"
  shows "reach_ok (map snd imports) (begin_file_caches imports fc)" "import_ok imports (begin_file_caches imports fc)"
    "resolve_ok r m imports (begin_file_caches imports fc)"
  by (auto simp: begin_file_caches_def reach_ok_def import_ok_def resolve_ok_def pmm_registry_resolve_cache_begin_def
      pmm_registry_import_map_cache_begin_def pmm_registry_reach_cache_begin_def import_table_get linear_lookup_map_of
      map_of_rev_consistent[OF assms] split: option.splits)

end
