(* ===== verification/Registry_Choice.thy ===== *)
theory Registry_Choice
  imports Registry_Caches
begin

text \<open>What the strategies answer: the best candidate, the cases of a resolution, the builtins of Perl.\<close>

section \<open>The best candidate\<close>

lemma best_loop_cases:
  "best_loop m b s cs = b \<and> (\<forall>c\<in>set cs. int (candidate_score c m) \<le> s) \<or>
   (\<exists>us c vs. cs = us @ c # vs \<and> best_loop m b s cs = Some c \<and> s < int (candidate_score c m) \<and>
      (\<forall>u\<in>set us. candidate_score u m < candidate_score c m) \<and> (\<forall>v\<in>set vs. candidate_score v m \<le> candidate_score c m))"
proof (induction cs arbitrary: b s)
  case (Cons d cs)
  show ?case
  proof (cases "s < int (candidate_score d m)")
    case True
    from Cons.IH[of "Some d" "int (candidate_score d m)"] show ?thesis
    proof (elim disjE exE conjE)
      fix us c vs
      assume *: "cs = us @ c # vs" "best_loop m (Some d) (int (candidate_score d m)) cs = Some c"
        "int (candidate_score d m) < int (candidate_score c m)"
        "\<forall>u\<in>set us. candidate_score u m < candidate_score c m" "\<forall>v\<in>set vs. candidate_score v m \<le> candidate_score c m"
      then show ?thesis
        using True by (intro disjI2 exI[of _ "d # us"] exI[of _ c] exI[of _ vs]) auto
    next
      assume "best_loop m (Some d) (int (candidate_score d m)) cs = Some d"
        "\<forall>c\<in>set cs. int (candidate_score c m) \<le> int (candidate_score d m)"
      then show ?thesis
        using True by (intro disjI2 exI[of _ "[]"] exI[of _ d] exI[of _ cs]) auto
    qed
  next
    case False
    from Cons.IH[of b s] show ?thesis
    proof (elim disjE exE conjE)
      fix us c vs
      assume *: "cs = us @ c # vs" "best_loop m b s cs = Some c" "s < int (candidate_score c m)"
        "\<forall>u\<in>set us. candidate_score u m < candidate_score c m" "\<forall>v\<in>set vs. candidate_score v m \<le> candidate_score c m"
      then show ?thesis
        using False by (intro disjI2 exI[of _ "d # us"] exI[of _ c] exI[of _ vs]) auto
    qed (use False in auto)
  qed
qed simp

lemma best_by_import_distance_first_max:
  assumes "cs \<noteq> []"
  obtains us c vs where "cs = us @ c # vs" "best_by_import_distance cs m = Some c"
    "\<forall>u\<in>set us. candidate_score u m < candidate_score c m" "\<forall>v\<in>set vs. candidate_score v m \<le> candidate_score c m"
proof -
  have "\<not> (\<forall>c\<in>set cs. int (candidate_score c m) \<le> - 1)"
    using assms by (cases cs) auto
  then show ?thesis
    using best_loop_cases[of m None "- 1" cs] that unfolding best_by_import_distance_def by blast
qed

lemma common_prefix_len_le: "common_prefix_len a b \<le> length b"
proof (induction a b rule: common_prefix_len.induct)
  case (1 a b)
  show ?case
  proof (cases "a = [] \<or> b = [] \<or> takeWhile (\<lambda>c. c \<noteq> CHR ''.'') a \<noteq> takeWhile (\<lambda>c. c \<noteq> CHR ''.'') b \<or>
      strchr_at a (CHR ''.'') = None \<or> strchr_at b (CHR ''.'') = None")
    case True
    then show ?thesis
      by (subst common_prefix_len.simps) (auto simp: Suc_le_eq split: option.splits)
  next
    case False
    then obtain x y where xy: "strchr_at a (CHR ''.'') = Some x" "strchr_at b (CHR ''.'') = Some y"
      by auto
    have "common_prefix_len (tl x) (tl y) \<le> length (tl y)"
      by (rule "1.IH") (use False xy in auto)
    then show ?thesis
      using False xy strchr_at_tl_length[OF xy(2)] by (subst common_prefix_len.simps) simp
  qed
qed

lemma test_score: "length m < 1000 \<Longrightarrow> candidate_score c m < 1000 \<longleftrightarrow> is_test_qn c"
  using common_prefix_len_le[of c m] by (simp add: candidate_score_def)

section \<open>The cases of a resolution\<close>

text \<open>The candidates of the last strategy: those that the imports reach, all if there are none.\<close>

definition suffix_candidates :: "registry \<Rightarrow> string \<Rightarrow> import_map \<Rightarrow> string list" where
  "suffix_candidates r callee ims =
     (let arr = pmm_registry_find_by_name r (simple_name callee); near = filter (reaches (map snd ims)) arr
      in if near = [] then arr else near)"

definition match_confidence :: "dbl \<Rightarrow> nat \<Rightarrow> bool" where
  "match_confidence c n \<longleftrightarrow>
     (\<exists>k\<in>{1..256}. n = k \<and> c \<in> {candidate_count_penalty (conf 55) k, candidate_count_penalty (dbl_mul (conf 55) (conf 50)) k})"

lemma resolve_multi_cases:
  assumes "arr \<noteq> []" "length arr \<le> 256"
  obtains us q vs c n where
    "(if filter (reaches vals) arr = [] then arr else filter (reaches vals) arr) = us @ q # vs"
    "fst (resolve_multi_with_imports arr m vals no_caches) = found q ''suffix_match'' c n" "match_confidence c n"
    "\<forall>u\<in>set us. candidate_score u m < candidate_score q m" "\<forall>v\<in>set vs. candidate_score v m \<le> candidate_score q m"
proof -
  let ?near = "filter (reaches vals) arr"
  have near: "take 256 ?near = ?near"
    by (rule take_all[OF le_trans[OF length_filter_le assms(2)]])
  note def = resolve_multi_with_imports_def reachable_loop_uncached near Let_def case_prod_conv fst_conv
  have len: "1 \<le> length arr" "length ?near \<le> 256"
    by (simp_all only: Suc_le_eq One_nat_def length_greater_0_conv assms(1) not_False_eq_True
        le_trans[OF length_filter_le assms(2)])
  consider "?near = []" | q where "?near = [q]" | "1 < length ?near"
    by (cases ?near; cases "tl ?near") auto
  then show ?thesis
  proof cases
    case 1
    obtain us q vs where b: "arr = us @ q # vs" "best_by_import_distance arr m = Some q"
      "\<forall>u\<in>set us. candidate_score u m < candidate_score q m" "\<forall>v\<in>set vs. candidate_score v m \<le> candidate_score q m"
      by (rule best_by_import_distance_first_max[OF assms(1)])
    show ?thesis
      by (rule that[OF _ _ _ b(3,4)]) (use 1 b(1,2) len assms(2) in \<open>auto simp: def match_confidence_def\<close>)
  next
    case 2
    show ?thesis
      by (rule that[of "[]" q "[]"]) (use 2 len assms(2) in \<open>auto simp: def match_confidence_def\<close>)
  next
    case 3
    then have "?near \<noteq> []" by auto
    obtain us q vs where b: "?near = us @ q # vs" "best_by_import_distance ?near m = Some q"
      "\<forall>u\<in>set us. candidate_score u m < candidate_score q m" "\<forall>v\<in>set vs. candidate_score v m \<le> candidate_score q m"
      by (rule best_by_import_distance_first_max[OF \<open>?near \<noteq> []\<close>])
    have "fst (resolve_multi_with_imports arr m vals no_caches) =
        found q ''suffix_match'' (candidate_count_penalty (conf 55) (length ?near)) (length ?near)"
      unfolding def using 3 b(2) by simp
    moreover have "match_confidence (candidate_count_penalty (conf 55) (length ?near)) (length ?near)"
      using 3 len by (auto simp: match_confidence_def)
    ultimately show ?thesis
      using \<open>?near \<noteq> []\<close> b by (intro that[of us q vs]) simp_all
  qed
qed

lemma tail_scan_member: "tail_scan d b arr = Some q \<Longrightarrow> q \<in> set arr \<or> b = Some q"
  by (induction arr arbitrary: b) (auto simp: Let_def split: if_splits)

lemma resolve_name_lookup_cases:
  obtains (none) "fst (resolve_name_lookup r c m (map snd ims) no_caches) = empty_result"
  | (tail) q where "fst (resolve_name_lookup r c m (map snd ims) no_caches) = found q ''qualified_suffix'' (conf 90) 1"
      "q \<in> set (pmm_registry_find_by_name r (simple_name c))"
  | (unique) q cf where "fst (resolve_name_lookup r c m (map snd ims) no_caches) = found q ''unique_name'' cf 1"
      "pmm_registry_find_by_name r (simple_name c) = [q]" "cf \<in> {conf 75, dbl_mul (conf 75) (conf 50)}"
  | (best) us q vs cf n where "fst (resolve_name_lookup r c m (map snd ims) no_caches) = found q ''suffix_match'' cf n"
      "suffix_candidates r c ims = us @ q # vs" "match_confidence cf n"
      "\<forall>u\<in>set us. candidate_score u m < candidate_score q m" "\<forall>v\<in>set vs. candidate_score v m \<le> candidate_score q m"
proof -
  let ?arr = "pmm_registry_find_by_name r (simple_name c)"
  note def = resolve_name_lookup_def[of r c m "map snd ims" no_caches] Let_def
  consider "?arr = [] \<or> 256 < length ?arr"
    | q where "?arr = [q]"
    | q where "1 < length ?arr" "length ?arr \<le> 256" "qualified_suffix_match ?arr c = Some q"
    | "1 < length ?arr" "length ?arr \<le> 256" "qualified_suffix_match ?arr c = None"
    by (cases ?arr; cases "tl ?arr"; cases "qualified_suffix_match ?arr c") fastforce+
  then show ?thesis
  proof cases
    case 1
    then show ?thesis
      by (intro none) (auto simp: def)
  next
    case (2 q)
    then show ?thesis
      by (intro unique[of q "if ims = [] \<or> reaches (map snd ims) q then conf 75 else dbl_mul (conf 75) (conf 50)"])
        (auto simp: def is_import_reachable_uncached)
  next
    case (3 q)
    then have "q \<in> set ?arr"
      using tail_scan_member[of _ None ?arr q] by (auto simp: qualified_suffix_match_def Let_def split: if_splits)
    then show ?thesis
      using 3 by (intro tail[of q]) (auto simp: def)
  next
    case 4
    then have "?arr \<noteq> []" by auto
    show ?thesis
    proof (cases "ims = []")
      case True
      obtain us q vs where b: "?arr = us @ q # vs" "best_by_import_distance ?arr m = Some q"
        "\<forall>u\<in>set us. candidate_score u m < candidate_score q m" "\<forall>v\<in>set vs. candidate_score v m \<le> candidate_score q m"
        by (rule best_by_import_distance_first_max[OF \<open>?arr \<noteq> []\<close>])
      show ?thesis
      proof (rule best[of q "candidate_count_penalty (conf 55) (length ?arr)" "length ?arr" us vs])
        show "fst (resolve_name_lookup r c m (map snd ims) no_caches) =
            found q ''suffix_match'' (candidate_count_penalty (conf 55) (length ?arr)) (length ?arr)"
          unfolding def using 4 True \<open>?arr \<noteq> []\<close> b(2) by simp
        show "match_confidence (candidate_count_penalty (conf 55) (length ?arr)) (length ?arr)"
          using 4 by (auto simp: match_confidence_def)
        show "suffix_candidates r c ims = us @ q # vs"
          using True b(1) by (simp add: suffix_candidates_def reaches_def Let_def)
      qed (use b in auto)
    next
      case False
      obtain us q vs cf n where b:
        "(if filter (reaches (map snd ims)) ?arr = [] then ?arr else filter (reaches (map snd ims)) ?arr) = us @ q # vs"
        "fst (resolve_multi_with_imports ?arr m (map snd ims) no_caches) = found q ''suffix_match'' cf n" "match_confidence cf n"
        "\<forall>u\<in>set us. candidate_score u m < candidate_score q m" "\<forall>v\<in>set vs. candidate_score v m \<le> candidate_score q m"
        by (rule resolve_multi_cases[OF \<open>?arr \<noteq> []\<close> 4(2)])
      show ?thesis
      proof (rule best[OF _ _ b(3-5)])
        show "fst (resolve_name_lookup r c m (map snd ims) no_caches) = found q ''suffix_match'' cf n"
          using 4 False \<open>?arr \<noteq> []\<close> b(2) by (simp add: def)
        show "suffix_candidates r c ims = us @ q # vs"
          unfolding suffix_candidates_def Let_def by (rule b(1))
      qed
    qed
  qed
qed

lemma registered_key_Some: "registered_key r k = Some q \<longleftrightarrow> q = k \<and> pmm_registry_exists r (Some k)"
  by (auto simp: registered_key_def pmm_registry_exists_def)

lemma find_by_name_registered:
  assumes "registry_wf r" "q \<in> set (pmm_registry_find_by_name r n)"
  shows "pmm_registry_exists r (Some q) \<and> simple_name q = n"
  using assms by (auto simp: registry_wf_def pmm_registry_exists_def ht_get_names)

lemma suffix_scan_member: "suffix_scan p s arr = Some q \<Longrightarrow> q \<in> set arr"
  by (induction arr) (auto split: if_splits)

lemma resolve_import_map_cases:
  obtains (none) "resolve_import_map r p s ims fc = empty_result"
  | (direct) q where "resolve_import_map r p s ims fc = found q ''import_map'' (conf 95) 1" "pmm_registry_exists r (Some q)"
  | (probe) q v where "resolve_import_map r p s ims fc = found q ''import_map_suffix'' (conf 85) 1"
      "import_suffix_probe r v (str_or_empty s) = Some q"
proof -
  note def = resolve_import_map_def[of r p s ims fc] Let_def
  define v where "v = (case fc_import_map fc of Some t \<Rightarrow> ht_get t p | None \<Rightarrow> linear_lookup p ims)"
  show ?thesis
  proof (cases "ims = [] \<or> v = None")
    case True
    then show ?thesis
      by (intro none) (auto simp: def v_def)
  next
    case False
    then obtain w where w: "v = Some w" "ims \<noteq> []"
      by auto
    let ?s = "str_or_empty s"
    let ?direct = "if ?s = [] then registered_key r w else None"
    let ?stored = "registered_key r (snprintf_buf 512 (w @ ''.'' @ (if ?s \<noteq> [] then ?s else p)))"
    let ?probe = "if ?s \<noteq> [] then import_suffix_probe r w ?s else None"
    have e: "resolve_import_map r p s ims fc =
        (case ?direct of Some q \<Rightarrow> found q ''import_map'' (conf 95) 1
         | None \<Rightarrow> (case ?stored of Some q \<Rightarrow> found q ''import_map'' (conf 95) 1
             | None \<Rightarrow> (case ?probe of Some q \<Rightarrow> found q ''import_map_suffix'' (conf 85) 1 | None \<Rightarrow> empty_result)))"
      unfolding def v_def[symmetric] w(1) option.case using w(2) by (simp only: if_False)
    consider q where "?direct = Some q" | q where "?direct = None" "?stored = Some q"
      | q where "?direct = None" "?stored = None" "?probe = Some q" | "?direct = None" "?stored = None" "?probe = None"
      by fastforce
    then show ?thesis
    proof cases
      case (1 q)
      then show ?thesis
        using e by (intro direct[of q]) (auto simp: registered_key_Some split: if_splits)
    next
      case (2 q)
      then have "pmm_registry_exists r (Some q)"
        by (simp add: registered_key_Some)
      then show ?thesis
        using e unfolding 2 option.case by (rule direct[rotated])
    next
      case (3 q)
      then have "import_suffix_probe r w ?s = Some q"
        by (simp split: if_splits)
      then show ?thesis
        using e unfolding 3 option.case by (rule probe[rotated])
    next
      case 4
      show ?thesis
        using e unfolding 4 option.case by (rule none)
    qed
  qed
qed

lemma resolve_same_module_cases:
  obtains (none) "resolve_same_module r c s m = empty_result"
  | (here) q where "resolve_same_module r c s m = found q ''same_module'' (conf 90) 1" "pmm_registry_exists r (Some q)"
proof -
  let ?s = "str_or_empty s"
  let ?first = "registered_key r (snprintf_buf 512 (m @ ''.'' @ c))"
  let ?second = "if ?s \<noteq> [] then registered_key r (snprintf_buf 512 (m @ ''.'' @ ?s)) else None"
  have e: "resolve_same_module r c s m =
      (case ?first of Some q \<Rightarrow> found q ''same_module'' (conf 90) 1
       | None \<Rightarrow> (case ?second of Some q \<Rightarrow> found q ''same_module'' (conf 90) 1 | None \<Rightarrow> empty_result))"
    by (simp only: resolve_same_module_def Let_def)
  consider q where "?first = Some q" | q where "?first = None" "?second = Some q" | "?first = None" "?second = None"
    by fastforce
  then show ?thesis
  proof cases
    case (1 q)
    then have "pmm_registry_exists r (Some q)"
      by (simp add: registered_key_Some)
    then show ?thesis
      using e unfolding 1 option.case by (rule here[rotated])
  next
    case (2 q)
    then have "pmm_registry_exists r (Some q)"
      by (simp add: registered_key_Some split: if_splits)
    then show ?thesis
      using e unfolding 2 option.case by (rule here[rotated])
  next
    case 3
    show ?thesis
      using e unfolding 3 option.case by (rule none)
  qed
qed

lemma resolve_chain_cases:
  obtains (name) "fst (resolve_chain r c m ims no_caches) = fst (resolve_name_lookup r c m (map snd ims) no_caches)"
  | (early) q st cf where "fst (resolve_chain r c m ims no_caches) = found q st cf 1" "pmm_registry_exists r (Some q)"
      "(st, cf) \<in> {(''import_map'', conf 95), (''same_module'', conf 90)}"
  | (probe) q v s where "fst (resolve_chain r c m ims no_caches) = found q ''import_map_suffix'' (conf 85) 1"
      "import_suffix_probe r v s = Some q"
proof -
  obtain p s where ps: "split_callee c = (p, s)"
    by (cases "split_callee c")
  note def = resolve_chain_def[of r c m ims no_caches] ps Let_def case_prod_conv
  have e: "\<not> resolved_to empty_result"
    by (simp add: resolved_to_def empty_result_def)
  show ?thesis
  proof (cases "resolved_to (resolve_import_map r p s ims no_caches)")
    case True
    then show ?thesis
      by (cases rule: resolve_import_map_cases[of r p s ims no_caches]) (auto simp: def e intro: early probe)
  next
    case False
    show ?thesis
    proof (cases "resolved_to (resolve_same_module r c s m)")
      case True
      then show ?thesis
        using False by (cases rule: resolve_same_module_cases[of r c s m]) (auto simp: def e intro: early)
    next
      case no: False
      show ?thesis
        by (rule name) (simp add: def False no)
    qed
  qed
qed

section \<open>Binary search\<close>

lemma strcmp_less_trans: "strcmp a b < 0 \<Longrightarrow> strcmp b c < 0 \<Longrightarrow> strcmp a c < 0"
proof -
  assume ab: "strcmp a b < 0" and bc: "strcmp b c < 0"
  have "strcmp a c \<le> 0"
    using strcmp_trans[of a b c] ab bc by simp
  moreover have "a \<noteq> c"
    using ab bc strcmp_antisym[of a b] by auto
  ultimately show ?thesis
    by (simp add: order.strict_iff_order)
qed

lemma bsearch_finds:
  assumes "sorted_wrt (\<lambda>a b. strcmp a b < 0) xs" "u \<le> length xs"
  shows "bsearch key xs l u \<noteq> None \<longleftrightarrow> (\<exists>i. l \<le> i \<and> i < u \<and> xs ! i = key)"
  using assms
proof (induction key xs l u rule: bsearch.induct)
  case (1 key xs l u)
  let ?i = "(l + u) div 2"
  note less = sorted_wrt_nth_less[OF "1.prems"(1)]
  show ?case
  proof (cases "u \<le> l")
    case True
    then show ?thesis
      by (subst bsearch.simps) simp
  next
    case False
    then have i: "l \<le> ?i" "?i < u" "?i < length xs"
      using "1.prems"(2) by auto
    consider "strcmp key (xs ! ?i) < 0" | "strcmp key (xs ! ?i) > 0" | "xs ! ?i = key"
      by (metis linorder_cases strcmp_eq_0)
    then show ?thesis
    proof cases
      case 1
      have "xs ! j \<noteq> key" if "?i \<le> j" "j < u" for j
        using that less[of ?i j] 1 "1.prems"(2) strcmp_less_trans[of key "xs ! ?i" key] by (cases "j = ?i") auto
      then have "j < ?i" if "j < u" "xs ! j = key" for j
        using that not_le by blast
      then have "(\<exists>j. l \<le> j \<and> j < u \<and> xs ! j = key) \<longleftrightarrow> (\<exists>j. l \<le> j \<and> j < ?i \<and> xs ! j = key)"
        using less_trans[OF _ i(2)] by blast
      then show ?thesis
        using 1 False "1.IH"(1)[OF False refl refl 1 "1.prems"(1)] i by (subst bsearch.simps) (simp add: Let_def)
    next
      case 2
      then have 2: "strcmp (xs ! ?i) key < 0"
        using strcmp_antisym[of "xs ! ?i" key] by simp
      have "xs ! j \<noteq> key" if "j \<le> ?i" for j
        using that less[of j ?i] 2 i strcmp_less_trans[of "xs ! j" "xs ! ?i" key] by (cases "j = ?i") auto
      then have "?i + 1 \<le> j" if "xs ! j = key" for j
        using that by (metis Suc_eq_plus1 Suc_leI not_le)
      then have "(\<exists>j. l \<le> j \<and> j < u \<and> xs ! j = key) \<longleftrightarrow> (\<exists>j. ?i + 1 \<le> j \<and> j < u \<and> xs ! j = key)"
        using order_trans[OF i(1) add_leD1[of ?i 1]] by blast
      moreover have "\<not> strcmp key (xs ! ?i) < 0" "0 < strcmp key (xs ! ?i)"
        using 2 strcmp_antisym[of "xs ! ?i" key] by simp_all
      ultimately show ?thesis
        using False "1.IH"(2)[OF False refl refl _ _ "1.prems"] by (subst bsearch.simps) (simp add: Let_def)
    next
      case 3
      then show ?thesis
        using False i by (subst bsearch.simps) (auto simp: Let_def)
    qed
  qed
qed

lemma perl_builtins_sorted: "sorted_wrt (\<lambda>a b. strcmp a b < 0) PERL_BUILTINS"
proof -
  have "successively (\<lambda>a b. strcmp a b < 0) PERL_BUILTINS"
    unfolding PERL_BUILTINS_def successively.simps by (intro conjI TrueI; simp)
  moreover have "transp (\<lambda>a b. strcmp a b < 0)"
    by (rule transpI) (rule strcmp_less_trans)
  ultimately show ?thesis
    by (metis successively_conv_sorted_wrt)
qed

lemma pmm_perl_is_builtin_iff: "pmm_perl_is_builtin (Some n) \<longleftrightarrow> n \<in> set PERL_BUILTINS"
proof -
  have "[] \<notin> set PERL_BUILTINS"
    by (simp add: PERL_BUILTINS_def)
  then show ?thesis
    using bsearch_finds[OF perl_builtins_sorted order_refl, of n 0]
    by (auto simp: pmm_perl_is_builtin_def in_set_conv_nth)
qed

end
