(* ===== verification/Registry_Props.thy ===== *)
theory Registry_Props
  imports Registry_Choice
begin

text \<open>The properties of the registry and of the resolution of names (src/src/pipeline/registry.c).\<close>

section \<open>Registration\<close>

text \<open>The definitions \<open>(qualified name, label)\<close> registered one after the other.\<close>

definition register_all :: "(string \<times> string) list \<Rightarrow> registry" where
  "register_all defs = foldl (\<lambda>r (q, l). pmm_registry_add r (Some (simple_name q)) (Some q) (Some l)) pmm_registry_new defs"

lemma register_all_snoc:
  "register_all (defs @ [(q, l)]) = pmm_registry_add (register_all defs) (Some (simple_name q)) (Some q) (Some l)"
  by (simp add: register_all_def)

lemma register_all_wf: "registry_wf (register_all defs)"
proof (induction defs rule: rev_induct)
  case (snoc d defs)
  then show ?case
    by (cases d) (simp add: register_all_snoc registry_add_wf)
qed (simp add: register_all_def registry_new_wf)

text \<open>The first definitions of each name, in order.\<close>

definition firsts :: "(string \<times> string) list \<Rightarrow> (string \<times> string) list" where
  "firsts defs = foldl (\<lambda>ds (q, l). if map_of ds q = None then ds @ [(q, l)] else ds) [] defs"

lemma firsts_snoc: "firsts (defs @ [(q, l)]) = (if map_of (firsts defs) q = None then firsts defs @ [(q, l)] else firsts defs)"
  by (simp add: firsts_def)

lemma firsts_map_of: "map_of (firsts defs) = map_of defs"
proof (induction defs rule: rev_induct)
  case (snoc d defs)
  then show ?case
    by (cases d) (auto simp: firsts_snoc map_add_def fun_eq_iff split: option.splits)
qed (simp add: firsts_def)

lemma register_all_exact:
  assumes "card (snd ` set defs) \<le> 64"
  shows "rg_exact (register_all defs) = firsts defs \<and> set (rg_label_pool (register_all defs)) \<subseteq> snd ` set defs"
  using assms
proof (induction defs rule: rev_induct)
  case (snoc d defs)
  obtain q l where d: "d = (q, l)"
    by (cases d)
  let ?r = "register_all defs"
  have small: "card (snd ` set defs) \<le> 64"
    by (rule le_trans[OF card_mono snoc.prems]) auto
  then have IH: "rg_exact ?r = firsts defs" "set (rg_label_pool ?r) \<subseteq> snd ` set defs"
    using snoc.IH by simp_all
  have wf: "registry_wf ?r"
    by (rule register_all_wf)
  have room: "length (rg_label_pool ?r) < 64" if "l \<notin> set (rg_label_pool ?r)"
  proof -
    have "card (insert l (set (rg_label_pool ?r))) \<le> card (snd ` set (defs @ [d]))"
      by (rule card_mono) (use IH(2) d in auto)
    then show ?thesis
      using that wf snoc.prems distinct_card[of "rg_label_pool ?r"] by (simp add: registry_wf_def)
  qed
  show ?case
  proof (cases rule: registry_add_cases[of ?r "Some (simple_name q)" "Some q" "Some l"])
    case same
    then have "ht_get (rg_exact ?r) q \<noteq> None"
      using room registry_insert_wf(2)[OF wf, of q l] registry_insert_wf(2)[OF registry_pool_wf[OF wf], of l q l]
      by (cases "l \<in> set (rg_label_pool ?r)") (auto simp: pmm_registry_add_def split: if_splits)
    then show ?thesis
      using same IH by (auto simp: d register_all_snoc firsts_snoc ht_get_def)
  next
    case (known qn lb)
    then show ?thesis
      using registry_insert_wf(2,3)[OF wf known(3,4)] IH by (auto simp: d register_all_snoc firsts_snoc ht_get_def)
  next
    case (fresh qn lb)
    then show ?thesis
      using registry_insert_wf(2,3)[OF registry_pool_wf[OF wf fresh(4,5)], of qn lb] IH
      by (auto simp: d register_all_snoc firsts_snoc ht_get_def)
  qed
qed (simp add: register_all_def pmm_registry_new_def firsts_def)

text \<open>C21: the registry is the map of the first definition of each qualified name, and its second index is
  that map grouped by simple name: after any registrations with at most 64 distinct labels, a label is
  the one of the first definition, the names found under a simple name are exactly the registered ones
  with it, each once, and the size is their number.\<close>

theorem registry_is_first_wins_map:
  assumes "card (snd ` set defs) \<le> 64"
  shows "pmm_registry_label_of (register_all defs) (Some q) = map_of defs q \<and>
    pmm_registry_exists (register_all defs) (Some q) = (q \<in> fst ` set defs) \<and>
    set (pmm_registry_find_by_name (register_all defs) n) = {q \<in> fst ` set defs. simple_name q = n} \<and>
    distinct (pmm_registry_find_by_name (register_all defs) n) \<and>
    pmm_registry_size (register_all defs) = card (fst ` set defs)"
proof -
  let ?r = "register_all defs"
  have exact: "rg_exact ?r = firsts defs"
    using register_all_exact[OF assms] by simp
  have wf: "registry_wf ?r"
    by (rule register_all_wf)
  have get: "ht_get (rg_exact ?r) k = map_of defs k" for k
    by (simp add: exact ht_get_def firsts_map_of)
  have keys: "set (registered_names ?r) = fst ` set defs"
    using get ht_get_names[of "rg_exact ?r"] by (metis (no_types) map_of_eq_None_iff subsetI subset_antisym)
  have "distinct (registered_names ?r)" "pmm_registry_find_by_name ?r n = filter (\<lambda>q. simple_name q = n) (registered_names ?r)"
    using wf by (simp_all add: registry_wf_def ht_wf_def)
  moreover have "length (rg_exact ?r) = card (set (registered_names ?r))"
    using distinct_card[OF calculation(1)] by simp
  ultimately show ?thesis
    using keys by (auto simp: pmm_registry_label_of_def pmm_registry_exists_def pmm_registry_size_def ht_count_def get
        map_of_eq_None_iff)
qed

lemma registry_is_first_wins_map_witness:
  "pmm_registry_label_of (register_all [(''p.a.f'', ''Function''), (''p.a.f'', ''Method'')]) (Some ''p.a.f'') =
     map_of [(''p.a.f'', ''Function''), (''p.a.f'', ''Method'')] ''p.a.f'' \<and>
   map_of [(''p.a.f'', ''Function''), (''p.a.f'', ''Method'')] ''p.a.f'' = Some ''Function''"
  using registry_is_first_wins_map[of "[(''p.a.f'', ''Function''), (''p.a.f'', ''Method'')]" "''p.a.f''" "''f''"] by simp

section \<open>Caches\<close>

text \<open>The names of a file resolved one after the other.\<close>

fun resolve_names :: "registry \<Rightarrow> string \<Rightarrow> import_map \<Rightarrow> string list \<Rightarrow> file_caches \<Rightarrow> resolution list" where
  "resolve_names r m ims [] fc = []"
| "resolve_names r m ims (c # cs) fc =
     (let (res, fc') = pmm_registry_resolve r (Some c) m ims fc in res # resolve_names r m ims cs fc')"

lemma resolve_names_cached:
  assumes "reach_ok (map snd ims) fc" "import_ok ims fc" "resolve_ok r m ims fc"
  shows "resolve_names r m ims cs fc = map (\<lambda>c. fst (pmm_registry_resolve r (Some c) m ims no_caches)) cs"
  using assms
proof (induction cs arbitrary: fc)
  case (Cons c cs)
  obtain fc' where "pmm_registry_resolve r (Some c) m ims fc = (fst (pmm_registry_resolve r (Some c) m ims no_caches), fc')"
    "reach_ok (map snd ims) fc'" "import_ok ims fc'" "resolve_ok r m ims fc'"
    by (rule pmm_registry_resolve_cached[OF Cons.prems])
  then show ?case
    using Cons.IH by simp
qed simp

text \<open>C22: the caches of a file change no answer.  After they are opened, whatever an earlier file left in
  them, every name of the file is resolved as without any cache, if no import name is bound to two
  targets.\<close>

theorem file_caches_transparent:
  assumes "consistent_imports imports"
  shows "resolve_names r module_qn imports names (begin_file_caches imports left_over) =
    map (\<lambda>c. fst (pmm_registry_resolve r (Some c) module_qn imports no_caches)) names"
  by (rule resolve_names_cached) (rule begin_file_caches_ok[OF assms])+

lemma file_caches_transparent_witness:
  "resolve_names (register_all [(''p.db.get'', ''Function''), (''p.api.get'', ''Function'')]) ''p.main''
     [(''db'', ''p.db'')] [''db.get'', ''get'', ''db.get''] (begin_file_caches [(''db'', ''p.db'')] no_caches) =
   map (\<lambda>c. fst (pmm_registry_resolve (register_all [(''p.db.get'', ''Function''), (''p.api.get'', ''Function'')])
     (Some c) ''p.main'' [(''db'', ''p.db'')] no_caches)) [''db.get'', ''get'', ''db.get'']"
  by (rule file_caches_transparent) (simp add: consistent_imports_def)

text \<open>An import name bound twice is resolved to its last target with the caches and to its first without.\<close>

lemma repeated_import_differs:
  "map rs_qualified_name (resolve_names (register_all [(''p.fast.load'', ''Function''), (''p.slow.load'', ''Function'')])
     ''p.main'' [(''impl'', ''p.fast''), (''impl'', ''p.slow'')] [''impl.load'']
     (begin_file_caches [(''impl'', ''p.fast''), (''impl'', ''p.slow'')] no_caches)) = [Some ''p.slow.load''] \<and>
   rs_qualified_name (fst (pmm_registry_resolve (register_all [(''p.fast.load'', ''Function''), (''p.slow.load'', ''Function'')])
     (Some ''impl.load'') ''p.main'' [(''impl'', ''p.fast''), (''impl'', ''p.slow'')] no_caches)) = Some ''p.fast.load''"
  by (simp add: register_all_def pmm_registry_add_def pmm_registry_new_def registry_insert_def ht_set_def ht_get_def Let_def
      simple_name_def last_colons.simps begin_file_caches_def pmm_registry_resolve_cache_begin_def
      pmm_registry_import_map_cache_begin_def pmm_registry_reach_cache_begin_def no_caches_def pmm_registry_resolve_def
      resolve_chain_def split_callee_def strchr_at_def before_def resolve_import_map_def registered_key_def snprintf_buf_def
      str_or_empty_def found_def resolved_to_def)

section \<open>Resolution\<close>

lemma resolve_chain_sound:
  assumes "registry_wf r" "res = fst (resolve_chain r c m ims no_caches)"
  shows "res = empty_result \<or>
    (\<exists>q s. rs_qualified_name res = Some q \<and> rs_strategy res = Some s \<and> pmm_registry_exists r (Some q) \<and>
       (s \<in> {''import_map'', ''import_map_suffix'', ''same_module''} \<or>
        s \<in> {''unique_name'', ''qualified_suffix'', ''suffix_match''} \<and> simple_name q = simple_name c) \<and>
       (s = ''import_map'' \<and> rs_confidence res = conf 95 \<or> s = ''import_map_suffix'' \<and> rs_confidence res = conf 85 \<or>
        s = ''same_module'' \<and> rs_confidence res = conf 90 \<or> s = ''qualified_suffix'' \<and> rs_confidence res = conf 90 \<or>
        s = ''unique_name'' \<and> rs_confidence res \<in> {conf 75, dbl_mul (conf 75) (conf 50)} \<or>
        s = ''suffix_match'' \<and> rs_candidate_count res \<le> 256 \<and>
          rs_confidence res \<in> {candidate_count_penalty (conf 55) (rs_candidate_count res),
            candidate_count_penalty (dbl_mul (conf 55) (conf 50)) (rs_candidate_count res)}))"
proof -
  note res = assms(2)
  have by_name: "pmm_registry_exists r (Some q) \<and> simple_name q = n" if "q \<in> set (pmm_registry_find_by_name r n)" for q n
    by (rule find_by_name_registered[OF assms(1) that])
  show ?thesis
  proof (cases rule: resolve_chain_cases[of r c m ims])
    case name
    show ?thesis
    proof (cases rule: resolve_name_lookup_cases[of r c m ims])
      case none
      then show ?thesis
        by (simp add: res name)
    next
      case (tail q)
      then show ?thesis
        using by_name[OF tail(2)] by (simp add: res name found_def)
    next
      case (unique q cf)
      then show ?thesis
        using by_name[of q "simple_name c"] by (simp add: res name found_def)
    next
      case (best us q vs cf n)
      then have "q \<in> set (suffix_candidates r c ims)"
        by simp
      then have "q \<in> set (pmm_registry_find_by_name r (simple_name c))"
        by (auto simp: suffix_candidates_def Let_def split: if_splits)
      then show ?thesis
        using by_name[of q "simple_name c"] best(1,3) by (auto simp: res name found_def match_confidence_def)
    qed
  next
    case (early q st cf)
    then show ?thesis
      by (auto simp: res found_def)
  next
    case (probe q v s)
    then have "q \<in> set (pmm_registry_find_by_name r (simple_name s))"
      by (auto simp: import_suffix_probe_def dest: suffix_scan_member)
    then show ?thesis
      using probe(1) by_name[of q] by (simp add: res found_def)
  qed
qed

text \<open>C23: a resolution is sound.  A name that is resolved is resolved to a registered definition; the three
  strategies that guess by name give a definition with the simple name of the callee, and how sure
  the answer is follows from the strategy alone, with a penalty that depends on the number of
  candidates, at most 256.\<close>

theorem resolution_sound:
  "let r = register_all defs; res = fst (pmm_registry_resolve r (Some c) m ims no_caches) in
    res = empty_result \<or>
    (\<exists>q s. rs_qualified_name res = Some q \<and> rs_strategy res = Some s \<and> pmm_registry_exists r (Some q) \<and>
       (s \<in> {''import_map'', ''import_map_suffix'', ''same_module''} \<or>
        s \<in> {''unique_name'', ''qualified_suffix'', ''suffix_match''} \<and> simple_name q = simple_name c) \<and>
       (s = ''import_map'' \<and> rs_confidence res = conf 95 \<or> s = ''import_map_suffix'' \<and> rs_confidence res = conf 85 \<or>
        s = ''same_module'' \<and> rs_confidence res = conf 90 \<or> s = ''qualified_suffix'' \<and> rs_confidence res = conf 90 \<or>
        s = ''unique_name'' \<and> rs_confidence res \<in> {conf 75, dbl_mul (conf 75) (conf 50)} \<or>
        s = ''suffix_match'' \<and> rs_candidate_count res \<le> 256 \<and>
          rs_confidence res \<in> {candidate_count_penalty (conf 55) (rs_candidate_count res),
            candidate_count_penalty (dbl_mul (conf 55) (conf 50)) (rs_candidate_count res)}))"
  unfolding Let_def by (rule resolve_chain_sound[OF register_all_wf resolve_uncached])

text \<open>C24: a call is not sent to test code without need.  When the last strategy chooses among several
  definitions of the name, it takes the first with the highest score among the ones that the imports
  reach (among all if there are none), and a definition in test code only when all of them are test
  code.\<close>

theorem suffix_match_prefers_code:
  assumes "rs_strategy (fst (pmm_registry_resolve r (Some c) m imports no_caches)) = Some ''suffix_match''" "length m < 1000"
  shows "\<exists>us q vs. rs_qualified_name (fst (pmm_registry_resolve r (Some c) m imports no_caches)) = Some q \<and>
    suffix_candidates r c imports = us @ q # vs \<and>
    (\<forall>u\<in>set us. candidate_score u m < candidate_score q m) \<and> (\<forall>v\<in>set vs. candidate_score v m \<le> candidate_score q m) \<and>
    (is_test_qn q \<longrightarrow> list_all is_test_qn (suffix_candidates r c imports))"
proof -
  note u = resolve_uncached[of r c m "imports"]
  show ?thesis
  proof (cases rule: resolve_chain_cases[of r c m "imports"])
    case name
    show ?thesis
    proof (cases rule: resolve_name_lookup_cases[of r c m "imports"])
      case (best us q vs cf n)
      have "is_test_qn x" if "is_test_qn q" "x \<in> set (us @ q # vs)" for x
      proof -
        have "candidate_score x m \<le> candidate_score q m"
          using that(2) best(4,5) by (auto simp: order.order_iff_strict)
        then show ?thesis
          using that(1) test_score[OF assms(2), of x] test_score[OF assms(2), of q] by simp
      qed
      then show ?thesis
        using best by (intro exI[of _ us] exI[of _ q] exI[of _ vs]) (auto simp: u name found_def list_all_iff)
    qed (use assms(1) in \<open>simp_all add: u name found_def empty_result_def\<close>)
  qed (use assms(1) in \<open>auto simp: u found_def\<close>)
qed

lemma dotted_load: "dotted_callee 511 ''load'' = ''load''"
  by (simp add: numeral_eq_Suc)

lemma suffix_match_prefers_code_witness:
  "\<exists>us q vs. rs_qualified_name (fst (pmm_registry_resolve
      (register_all [(''p.tests.load'', ''Function''), (''p.io.load'', ''Function'')]) (Some ''load'') ''p.app'' [] no_caches)) = Some q \<and>
    suffix_candidates (register_all [(''p.tests.load'', ''Function''), (''p.io.load'', ''Function'')]) ''load'' [] = us @ q # vs \<and>
    (\<forall>u\<in>set us. candidate_score u ''p.app'' < candidate_score q ''p.app'') \<and>
    (\<forall>v\<in>set vs. candidate_score v ''p.app'' \<le> candidate_score q ''p.app'') \<and>
    (is_test_qn q \<longrightarrow> list_all is_test_qn (suffix_candidates (register_all [(''p.tests.load'', ''Function''), (''p.io.load'', ''Function'')]) ''load'' []))"
  by (rule suffix_match_prefers_code)
    (simp_all add: register_all_def pmm_registry_add_def pmm_registry_new_def registry_insert_def ht_set_def ht_get_def Let_def
      simple_name_def last_colons.simps no_caches_def pmm_registry_resolve_def resolve_chain_def split_callee_def strchr_at_def
      resolve_import_map_def registered_key_def snprintf_buf_def str_or_empty_def found_def resolved_to_def empty_result_def
      resolve_same_module_def resolve_name_lookup_def pmm_registry_find_by_name_def qualified_suffix_match_def
      dotted_load best_by_import_distance_def candidate_score_def is_test_qn_def common_prefix_len.simps)

text \<open>C25: looking among the definitions with the simple name of the suffix is enough.  The strategy behind
  the import map finds the first registered name that starts with the imported name and ends with the
  suffix, each at a dot, as a scan of the whole registry would.\<close>

theorem import_suffix_probe_is_full_scan:
  assumes "suffix \<noteq> []" "length resolved < 511" "length suffix < 255"
  shows "import_suffix_probe (register_all defs) resolved suffix =
    List.find (\<lambda>q. \<exists>mid. q = resolved @ ''.'' @ mid @ ''.'' @ suffix) (map fst (rg_exact (register_all defs)))"
  by (rule import_suffix_probe_find[OF register_all_wf assms])

lemma import_suffix_probe_is_full_scan_witness:
  "import_suffix_probe (register_all [(''p.db.Pool.get'', ''Method''), (''q.get'', ''Function'')]) ''p.db'' ''get'' =
     List.find (\<lambda>q. \<exists>mid. q = ''p.db'' @ ''.'' @ mid @ ''.'' @ ''get'')
       (map fst (rg_exact (register_all [(''p.db.Pool.get'', ''Method''), (''q.get'', ''Function'')])))"
  by (rule import_suffix_probe_is_full_scan) simp_all

text \<open>C26: the guard against noise in Perl.  It drops a resolved call just when the call is a method call or
  names a builtin, one of the table, and the strategy is one of the three that go by name.\<close>

theorem perl_guard_exact:
  "pmm_perl_suppress_generic_match True is_method (Some c) (rs_strategy (fst (pmm_registry_resolve r (Some c) m ims no_caches))) \<longleftrightarrow>
    (is_method \<or> c \<in> set PERL_BUILTINS) \<and>
    rs_strategy (fst (pmm_registry_resolve r (Some c) m ims no_caches)) \<in>
      {Some ''unique_name'', Some ''suffix_match'', Some ''qualified_suffix''}"
proof -
  let ?res = "fst (pmm_registry_resolve r (Some c) m ims no_caches)"
  have "rs_strategy ?res \<in> {None, Some ''import_map'', Some ''import_map_suffix'', Some ''same_module'', Some ''unique_name'',
      Some ''suffix_match'', Some ''qualified_suffix''}"
  proof (cases rule: resolve_chain_cases[of r c m ims])
    case name
    show ?thesis
      by (cases rule: resolve_name_lookup_cases[of r c m ims]) (simp_all add: resolve_uncached name found_def empty_result_def)
  qed (auto simp: resolve_uncached found_def)
  then show ?thesis
    by (auto simp: pmm_perl_suppress_generic_match_def pmm_perl_is_builtin_iff)
qed

end
