(* ===== verification/Complexity.thy ===== *)
theory Complexity
  imports Gbuf
begin

text \<open>
  The propagation of loop depths along calls (src/src/pipeline/pass_complexity.c): a depth-first
  search with memory over the CALLS edges of the graph buffer, and the two properties it writes into
  the nodes of functions and methods.  The arrays are lists, indexed by node id.  The sum of loop
  depths is kept on 32 bits.
\<close>

abbreviation PMM_TLD_MAX_DEPTH :: nat where "PMM_TLD_MAX_DEPTH \<equiv> 256"

section \<open>The properties of a node\<close>

definition skip_blanks :: "string \<Rightarrow> string" where
  "skip_blanks p = dropWhile (\<lambda>c. c = CHR '' '' \<or> c = CHR 0x09) p"

text \<open>The text behind the key, NULL if the key does not occur.\<close>

definition json_value_of :: "string \<Rightarrow> string \<Rightarrow> string option" where
  "json_value_of json key =
     (let pat = snprintf_buf 64 (CHR 0x22 # key @ [CHR 0x22, CHR '':''])
      in map_option (\<lambda>p. skip_blanks (drop (length pat) p)) (strstr json pat))"

definition json_get_int :: "string \<Rightarrow> string \<Rightarrow> int \<Rightarrow> int" where
  "json_get_int json key dflt =
     (case json_value_of json key of None \<Rightarrow> dflt | Some p \<Rightarrow> int32 (strtol p))"

definition json_get_bool :: "string \<Rightarrow> string \<Rightarrow> bool" where
  "json_get_bool json key =
     (case json_value_of json key of None \<Rightarrow> False | Some p \<Rightarrow> p \<noteq> [] \<and> hd p = CHR ''t'')"

text \<open>The text \<open>{"transitive_loop_depth":tld,"recursive":flag}\<close> behind the other properties.\<close>

definition complexity_text :: "bool \<Rightarrow> int \<Rightarrow> bool \<Rightarrow> string" where
  "complexity_text no_props tld recursive =
     (if no_props then [] else '','') @ CHR 0x22 # ''transitive_loop_depth'' @ [CHR 0x22, CHR '':''] @ show_int tld @
     '','' @ CHR 0x22 # ''recursive'' @ [CHR 0x22, CHR '':''] @ (if recursive then ''true'' else ''false'') @ ''}''"

definition append_complexity_props :: "gnode \<Rightarrow> int \<Rightarrow> bool \<Rightarrow> gnode" where
  "append_complexity_props node tld recursive =
     (let old = gn_properties_json node in
      if length old < 2 \<or> last old \<noteq> CHR ''}'' then node
      else node\<lparr>gn_properties_json :=
             butlast old @ snprintf_buf 64 (complexity_text (length old = 2) tld recursive)\<rparr>)"

section \<open>The search\<close>

record tld_state =
  ts_tld :: "int list"
  ts_state :: "nat list"
  ts_recursive :: "bool list"

text \<open>The targets of the CALLS edges of a node.\<close>

definition call_targets :: "gbuf \<Rightarrow> int \<Rightarrow> int list" where
  "call_targets gb i = map (\<lambda>r. ge_target_id (edge_at gb r)) (pmm_gbuf_find_edges_by_source_type gb i ''CALLS'')"

function (sequential) tld_dfs :: "gbuf \<Rightarrow> int list \<Rightarrow> int \<Rightarrow> nat \<Rightarrow> int \<Rightarrow> tld_state \<Rightarrow> int \<times> tld_state"
  and tld_edges :: "gbuf \<Rightarrow> int list \<Rightarrow> int \<Rightarrow> nat \<Rightarrow> int \<Rightarrow> int list \<Rightarrow> int \<Rightarrow> tld_state \<Rightarrow> int \<times> tld_state"
where
  "tld_dfs gb loop_depth maxid depth i st =
     (if i < 1 \<or> maxid < i then (0, st)
      else if ts_state st ! nat i = 2 then (ts_tld st ! nat i, st)
      else if ts_state st ! nat i = 1 then (0, st\<lparr>ts_recursive := (ts_recursive st)[nat i := True]\<rparr>)
      else if PMM_TLD_MAX_DEPTH < depth then (loop_depth ! nat i, st)
      else
        let (best, st') =
              tld_edges gb loop_depth maxid depth i (call_targets gb i) 0
                (st\<lparr>ts_state := (ts_state st)[nat i := 1]\<rparr>);
            v = int32 (loop_depth ! nat i + best)
        in (v, st'\<lparr>ts_tld := (ts_tld st')[nat i := v], ts_state := (ts_state st')[nat i := 2]\<rparr>))"
| "tld_edges gb loop_depth maxid depth i [] best st = (best, st)"
| "tld_edges gb loop_depth maxid depth i (c # cs) best st =
     (if c = i then
        tld_edges gb loop_depth maxid depth i cs best (st\<lparr>ts_recursive := (ts_recursive st)[nat i := True]\<rparr>)
      else
        let (ct, st') = tld_dfs gb loop_depth maxid (depth + 1) c st
        in tld_edges gb loop_depth maxid depth i cs (if best < ct then ct else best) st')"
  by pat_completeness auto
termination
  by (relation "measures
        [\<lambda>x. case x of Inl (gb, ld, m, d, i, st) \<Rightarrow> 258 - d | Inr (gb, ld, m, d, i, cs, b, st) \<Rightarrow> 257 - d,
         \<lambda>x. case x of Inl _ \<Rightarrow> 0 | Inr (gb, ld, m, d, i, cs, b, st) \<Rightarrow> Suc (length cs)]") auto

declare tld_dfs.simps [simp del] tld_edges.simps [simp del]

section \<open>The pass\<close>

record complexity_arrays =
  ca_loop_depth :: "int list"
  ca_recursive :: "bool list"
  ca_nptr :: "nat option list"

definition seed_node :: "gbuf \<Rightarrow> int \<Rightarrow> nat \<Rightarrow> complexity_arrays \<Rightarrow> complexity_arrays" where
  "seed_node gb maxid r a =
     (let n = node_at gb r; i = nat (gn_id n) in
      if 1 \<le> gn_id n \<and> gn_id n \<le> maxid then
        \<lparr>ca_loop_depth = (ca_loop_depth a)[i := json_get_int (gn_properties_json n) ''loop_depth'' 0],
         ca_recursive = (ca_recursive a)[i := json_get_bool (gn_properties_json n) ''self_recursive''],
         ca_nptr = (ca_nptr a)[i := Some r]\<rparr>
      else a)"

definition seed_loop_depths :: "gbuf \<Rightarrow> string \<Rightarrow> int \<Rightarrow> complexity_arrays \<Rightarrow> complexity_arrays" where
  "seed_loop_depths gb label maxid a = fold (seed_node gb maxid) (pmm_gbuf_find_by_label gb (Some label)) a"

text \<open>One turn of the loop over the ids.\<close>

definition complexity_step ::
  "gbuf \<Rightarrow> int \<Rightarrow> complexity_arrays \<Rightarrow> nat \<Rightarrow> gbuf \<times> tld_state \<Rightarrow> gbuf \<times> tld_state" where
  "complexity_step gb0 maxid a i gs =
     (let (gb, st) = gs in
      case ca_nptr a ! i of
        None \<Rightarrow> gs
      | Some r \<Rightarrow>
          let st' = (if ts_state st ! i \<noteq> 2 then snd (tld_dfs gb0 (ca_loop_depth a) maxid 0 (int i) st) else st)
          in (gb\<lparr>gb_nodes := (gb_nodes gb)
                [r := append_complexity_props (node_at gb r) (ts_tld st' ! i) (ts_recursive st' ! i)]\<rparr>, st'))"

text \<open>The edges, which the search reads, do not change during the pass.\<close>

definition pmm_pipeline_pass_complexity :: "gbuf \<Rightarrow> gbuf" where
  "pmm_pipeline_pass_complexity gb =
     (let maxid = pmm_gbuf_next_id gb - 1; sz = nat (maxid + 1) in
      if maxid < 1 then gb
      else
        let a = seed_loop_depths gb ''Method'' maxid
                  (seed_loop_depths gb ''Function'' maxid
                    \<lparr>ca_loop_depth = replicate sz 0, ca_recursive = replicate sz False, ca_nptr = replicate sz None\<rparr>);
            st = \<lparr>ts_tld = replicate sz 0, ts_state = replicate sz 0, ts_recursive = ca_recursive a\<rparr>
        in fst (fold (complexity_step gb maxid a) [1..<sz] (gb, st)))"

end
