(* ===== verification/Complexity_Facts.thy ===== *)
theory Complexity_Facts
  imports Complexity Cyp_Store
begin

text \<open>The depth-first search computes the heaviest call chain where the calls can be ranked.\<close>

section \<open>Call chains\<close>

abbreviation node_id :: "int \<Rightarrow> int \<Rightarrow> bool" where
  "node_id m i \<equiv> 1 \<le> i \<and> i \<le> m"

text \<open>Calls between the ids of the buffer, calls of a function to itself apart.\<close>

definition calls :: "gbuf \<Rightarrow> int \<Rightarrow> (int \<times> int) set" where
  "calls gb m = {(i, c). node_id m i \<and> node_id m c \<and> c \<noteq> i \<and> c \<in> set (call_targets gb i)}"

text \<open>Every call goes down in the ranking, which has 257 ranks.\<close>

definition ranked :: "gbuf \<Rightarrow> int \<Rightarrow> (int \<Rightarrow> nat) \<Rightarrow> bool" where
  "ranked gb m rank \<longleftrightarrow> (\<forall>(i, c)\<in>calls gb m. rank c < rank i) \<and> (\<forall>i. rank i \<le> 256)"

definition small_depths :: "int list \<Rightarrow> int \<Rightarrow> bool" where
  "small_depths ld m \<longleftrightarrow> length ld = nat m + 1 \<and> (\<forall>x\<in>set ld. 0 \<le> x \<and> x \<le> 1000000)"

definition max0 :: "int list \<Rightarrow> int" where
  "max0 xs = foldr max xs 0"

lemma max0_simps [simp]: "max0 [] = 0" "max0 (x # xs) = max x (max0 xs)"
  by (simp_all add: max0_def)

lemma max0_cases: "max0 xs = 0 \<or> max0 xs \<in> set xs"
  by (induction xs) (auto simp: max_def)

lemma max0_ge: "x \<in> set xs \<Longrightarrow> x \<le> max0 xs" "0 \<le> max0 xs"
  by (induction xs) (auto simp: max_def)

fun chain_depth :: "gbuf \<Rightarrow> int list \<Rightarrow> int \<Rightarrow> nat \<Rightarrow> int \<Rightarrow> int" where
  "chain_depth gb ld m 0 i = 0"
| "chain_depth gb ld m (Suc k) i =
     ld ! nat i + max0 (map (chain_depth gb ld m k) [c \<leftarrow> call_targets gb i. (i, c) \<in> calls gb m])"

abbreviation depth_of :: "gbuf \<Rightarrow> int list \<Rightarrow> int \<Rightarrow> int \<Rightarrow> int" where
  "depth_of gb ld m \<equiv> chain_depth gb ld m 257"

lemma chain_depth_stable:
  assumes "ranked gb m rank" "rank i < k" "rank i < l"
  shows "chain_depth gb ld m k i = chain_depth gb ld m l i"
  using assms(2,3)
proof (induction k arbitrary: l i)
  case (Suc k)
  then obtain l' where l: "l = Suc l'"
    by (cases l) auto
  have "chain_depth gb ld m k c = chain_depth gb ld m l' c" if "(i, c) \<in> calls gb m" for c
  proof (rule Suc.IH)
    have "rank c < rank i"
      using assms(1) that by (auto simp: ranked_def)
    then show "rank c < k" "rank c < l'"
      using Suc.prems l by simp_all
  qed
  then have *: "map (chain_depth gb ld m k) [c \<leftarrow> call_targets gb i. (i, c) \<in> calls gb m] =
      map (chain_depth gb ld m l') [c \<leftarrow> call_targets gb i. (i, c) \<in> calls gb m]"
    by (intro map_cong refl) auto
  show ?case
    unfolding l chain_depth.simps * ..
qed simp

lemma depth_of_eq:
  assumes "ranked gb m rank"
  shows "depth_of gb ld m i = ld ! nat i + max0 (map (depth_of gb ld m) [c \<leftarrow> call_targets gb i. (i, c) \<in> calls gb m])"
proof -
  have "chain_depth gb ld m 256 c = depth_of gb ld m c" if "(i, c) \<in> calls gb m" for c
  proof (rule chain_depth_stable[OF assms])
    have "rank c < rank i" "rank i \<le> 256"
      using assms that by (auto simp: ranked_def)
    then show "rank c < 256" "rank c < 257"
      by simp_all
  qed
  then have "map (chain_depth gb ld m 256) [c \<leftarrow> call_targets gb i. (i, c) \<in> calls gb m] =
      map (depth_of gb ld m) [c \<leftarrow> call_targets gb i. (i, c) \<in> calls gb m]"
    by (intro map_cong refl) auto
  moreover have "(257::nat) = Suc 256"
    by simp
  ultimately show ?thesis
    by (metis chain_depth.simps(2))
qed

lemma small_depth: "small_depths ld m \<Longrightarrow> node_id m i \<Longrightarrow> 0 \<le> ld ! nat i \<and> ld ! nat i \<le> 1000000"
  by (auto simp: small_depths_def)

lemma chain_depth_bounds:
  assumes "small_depths ld m" "node_id m i"
  shows "0 \<le> chain_depth gb ld m k i \<and> chain_depth gb ld m k i \<le> int k * 1000000"
  using assms(2)
proof (induction k arbitrary: i)
  case (Suc k)
  let ?xs = "map (chain_depth gb ld m k) [c \<leftarrow> call_targets gb i. (i, c) \<in> calls gb m]"
  have "\<forall>x\<in>set ?xs. x \<le> int k * 1000000"
    using Suc.IH by (auto simp: calls_def)
  then have "max0 ?xs \<le> int k * 1000000"
    using max0_cases[of ?xs] by auto
  then show ?case
    using small_depth[OF assms(1) Suc.prems] max0_ge(2)[of ?xs] by (simp add: algebra_simps)
qed simp

section \<open>The search\<close>

definition self_call :: "gbuf \<Rightarrow> int \<Rightarrow> bool" where
  "self_call gb i \<longleftrightarrow> i \<in> set (call_targets gb i)"

definition search_ok :: "gbuf \<Rightarrow> int list \<Rightarrow> int \<Rightarrow> tld_state \<Rightarrow> bool" where
  "search_ok gb ld m st \<longleftrightarrow>
     length (ts_tld st) = nat m + 1 \<and> length (ts_state st) = nat m + 1 \<and> length (ts_recursive st) = nat m + 1 \<and>
     (\<forall>j. node_id m j \<longrightarrow> ts_state st ! nat j = 2 \<longrightarrow> ts_tld st ! nat j = depth_of gb ld m j)"

text \<open>What a part of the search does to the marks, with the ids whose own call it sees at once.\<close>

definition search_step :: "gbuf \<Rightarrow> int \<Rightarrow> int set \<Rightarrow> tld_state \<Rightarrow> tld_state \<Rightarrow> bool" where
  "search_step gb m seen st st' \<longleftrightarrow>
     (\<forall>j. node_id m j \<longrightarrow>
        (ts_state st' ! nat j = 1 \<longleftrightarrow> ts_state st ! nat j = 1) \<and>
        (ts_state st ! nat j = 2 \<longrightarrow> ts_state st' ! nat j = 2) \<and>
        (ts_recursive st' ! nat j \<longleftrightarrow> ts_recursive st ! nat j \<or> j \<in> seen \<or>
           ts_state st ! nat j \<noteq> 2 \<and> ts_state st' ! nat j = 2 \<and> self_call gb j))"

lemma search_step_refl: "search_step gb m {} st st"
  by (auto simp: search_step_def)

lemma search_step_trans:
  "search_step gb m A st st1 \<Longrightarrow> search_step gb m B st1 st2 \<Longrightarrow> search_step gb m (A \<union> B) st st2"
  unfolding search_step_def by (metis Un_iff)

lemma max0_callees: "max0 (map f [c \<leftarrow> c # cs. P c]) = (if P c then max (f c) (max0 (map f [c \<leftarrow> cs. P c])) else max0 (map f [c \<leftarrow> cs. P c]))"
  by simp

definition dfs_spec :: "gbuf \<Rightarrow> int list \<Rightarrow> int \<Rightarrow> int \<Rightarrow> tld_state \<Rightarrow> int \<Rightarrow> tld_state \<Rightarrow> bool" where
  "dfs_spec gb ld m i st v st' \<longleftrightarrow>
     v = (if node_id m i then depth_of gb ld m i else 0) \<and> search_ok gb ld m st' \<and> search_step gb m {} st st' \<and>
     (node_id m i \<longrightarrow> ts_state st' ! nat i = 2)"

definition edges_spec ::
  "gbuf \<Rightarrow> int list \<Rightarrow> int \<Rightarrow> int \<Rightarrow> int list \<Rightarrow> int \<Rightarrow> tld_state \<Rightarrow> int \<Rightarrow> tld_state \<Rightarrow> bool" where
  "edges_spec gb ld m i cs best st v st' \<longleftrightarrow>
     v = max best (max0 (map (depth_of gb ld m) [c \<leftarrow> cs. (i, c) \<in> calls gb m])) \<and> search_ok gb ld m st' \<and>
     search_step gb m ({i} \<inter> set cs) st st'"

text \<open>Everything in progress is an ancestor, of higher rank.\<close>

definition ancestors_above :: "int \<Rightarrow> (int \<Rightarrow> nat) \<Rightarrow> tld_state \<Rightarrow> nat \<Rightarrow> bool" where
  "ancestors_above m rank st k \<longleftrightarrow> (\<forall>j. node_id m j \<longrightarrow> ts_state st ! nat j = 1 \<longrightarrow> k \<le> rank j)"

lemma tld_search:
  fixes rank :: "int \<Rightarrow> nat"
  shows
    "ranked gb m rank \<Longrightarrow> small_depths ld m \<Longrightarrow> search_ok gb ld m st \<Longrightarrow> d + rank i \<le> 256 \<Longrightarrow>
       ancestors_above m rank st (Suc (rank i)) \<Longrightarrow>
       dfs_spec gb ld m i st (fst (tld_dfs gb ld m d i st)) (snd (tld_dfs gb ld m d i st))"
    "ranked gb m rank \<Longrightarrow> small_depths ld m \<Longrightarrow> search_ok gb ld m st \<Longrightarrow> d + rank i \<le> 256 \<Longrightarrow>
       ancestors_above m rank st (rank i) \<Longrightarrow> node_id m i \<Longrightarrow> set cs \<subseteq> set (call_targets gb i) \<Longrightarrow> 0 \<le> best \<Longrightarrow>
       edges_spec gb ld m i cs best st (fst (tld_edges gb ld m d i cs best st)) (snd (tld_edges gb ld m d i cs best st))"
proof (induction gb ld m d i st and gb ld m d i cs best st rule: tld_dfs_tld_edges.induct)
  case (1 gb ld m d i st)
  note ok = "1.prems"(3)
  consider "\<not> node_id m i" | "node_id m i" "ts_state st ! nat i = 2" | "node_id m i" "ts_state st ! nat i \<noteq> 2"
    by blast
  then show ?case
  proof cases
    case 1
    then show ?thesis
      using ok by (auto simp: tld_dfs.simps search_step_refl dfs_spec_def)
  next
    case 2
    then show ?thesis
      using ok by (auto simp: tld_dfs.simps search_step_refl search_ok_def dfs_spec_def)
  next
    case 3
    let ?st = "st\<lparr>ts_state := (ts_state st)[nat i := 1]\<rparr>" and ?ts = "call_targets gb i"
    have i: "\<not> (i < 1 \<or> m < i)" "ts_state st ! nat i \<noteq> 1" "\<not> 256 < d"
      using "1.prems"(4,5) 3 by (auto simp: ancestors_above_def dest: spec[of _ i])
    have len: "nat i < length (ts_state st)"
      using ok i(1) by (simp add: search_ok_def nat_less_iff)
    obtain b s where e: "tld_edges gb ld m d i ?ts 0 ?st = (b, s)"
      by fastforce
    define v where "v = int32 (ld ! nat i + b)"
    define st' where "st' = s\<lparr>ts_tld := (ts_tld s)[nat i := v], ts_state := (ts_state s)[nat i := 2]\<rparr>"
    have eq: "tld_dfs gb ld m d i st = (v, st')"
      using i 3 e by (simp add: tld_dfs.simps Let_def v_def st'_def)
    have ok1: "search_ok gb ld m ?st"
      using ok len by (auto simp: search_ok_def nth_list_update split: if_splits)
    have above: "ancestors_above m rank ?st (rank i)"
      unfolding ancestors_above_def
    proof (intro allI impI)
      fix j
      assume j: "node_id m j" "ts_state ?st ! nat j = 1"
      show "rank i \<le> rank j"
      proof (cases "j = i")
        case False
        then have "nat j \<noteq> nat i"
          using j(1) 3(1) by (simp add: nat_eq_iff)
        then show ?thesis
          using j "1.prems"(5) by (auto simp: ancestors_above_def dest: Suc_leD)
      qed simp
    qed
    have E: "b = max 0 (max0 (map (depth_of gb ld m) [c \<leftarrow> ?ts. (i, c) \<in> calls gb m]))" "search_ok gb ld m s"
      "search_step gb m ({i} \<inter> set ?ts) ?st s"
      using "1.IH"[OF i(1) 3(2) i(2) i(3) "1.prems"(1,2) ok1 "1.prems"(4) above 3(1) order_refl order_refl]
      unfolding e edges_spec_def fst_conv snd_conv by blast+
    have "b = max0 (map (depth_of gb ld m) [c \<leftarrow> ?ts. (i, c) \<in> calls gb m])"
      unfolding E(1) using max0_ge(2) by (simp add: max_def)
    then have "ld ! nat i + b = depth_of gb ld m i"
      by (metis depth_of_eq[OF "1.prems"(1)])
    then have v: "v = depth_of gb ld m i"
      using chain_depth_bounds[OF "1.prems"(2) 3(1), of gb 257] by (simp add: v_def int32_id)
    have lens: "nat i < length (ts_state s)" "nat i < length (ts_tld s)"
      using E(2) i(1) by (simp_all add: search_ok_def nat_less_iff)
    have "search_ok gb ld m st'"
      using E(2) lens v by (auto simp: search_ok_def st'_def nth_list_update nat_eq_iff)
    moreover have "search_step gb m {} st st'"
      unfolding search_step_def
    proof (intro allI impI)
      fix j
      assume j: "node_id m j"
      note step = E(3)[unfolded search_step_def, rule_format, OF j]
      show "(ts_state st' ! nat j = 1 \<longleftrightarrow> ts_state st ! nat j = 1) \<and>
        (ts_state st ! nat j = 2 \<longrightarrow> ts_state st' ! nat j = 2) \<and>
        (ts_recursive st' ! nat j \<longleftrightarrow> ts_recursive st ! nat j \<or> j \<in> {} \<or>
           ts_state st ! nat j \<noteq> 2 \<and> ts_state st' ! nat j = 2 \<and> self_call gb j)"
      proof (cases "j = i")
        case True
        then show ?thesis
          using step lens len i(2) 3(2) by (auto simp: st'_def self_call_def)
      next
        case False
        then have "nat j \<noteq> nat i"
          using j 3(1) by (simp add: nat_eq_iff)
        then show ?thesis
          using step False by (simp add: st'_def)
      qed
    qed
    ultimately show ?thesis
      using v 3 lens by (simp add: eq dfs_spec_def st'_def)
  qed
next
  case (2 gb ld m d i best st)
  then show ?case
    by (simp add: tld_edges.simps search_step_refl edges_spec_def max_def)
next
  case (3 gb ld m d i c cs best st)
  note ok = "3.prems"(3)
  show ?case
  proof (cases "c = i")
    case True
    let ?st = "st\<lparr>ts_recursive := (ts_recursive st)[nat i := True]\<rparr>"
    have "search_ok gb ld m ?st" "ancestors_above m rank ?st (rank i)"
      using ok "3.prems"(5) by (simp_all add: search_ok_def ancestors_above_def)
    then have E: "edges_spec gb ld m i cs best ?st (fst (tld_edges gb ld m d i cs best ?st)) (snd (tld_edges gb ld m d i cs best ?st))"
      using "3.IH"(1)[OF True "3.prems"(1,2) _ "3.prems"(4) _ "3.prems"(6) _ "3.prems"(8)] "3.prems"(7) by simp
    have "search_step gb m {i} st ?st"
      using ok "3.prems"(6) by (auto simp: search_step_def search_ok_def nth_list_update nat_eq_iff)
    then have "search_step gb m ({i} \<inter> set (c # cs)) st (snd (tld_edges gb ld m d i cs best ?st))"
      using search_step_trans[of gb m "{i}" st ?st "{i} \<inter> set cs"] E True by (simp add: edges_spec_def Int_absorb2 insert_absorb)
    then show ?thesis
      using E True by (simp add: tld_edges.simps edges_spec_def calls_def)
  next
    case False
    obtain ct s where e: "tld_dfs gb ld m (d + 1) c st = (ct, s)"
      by fastforce
    let ?best = "if best < ct then ct else best"
    have dfs: "dfs_spec gb ld m c st ct s"
    proof (cases "node_id m c")
      case True
      then have "(i, c) \<in> calls gb m"
        using False "3.prems"(6,7) by (simp add: calls_def)
      then have "rank c < rank i"
        using "3.prems"(1) by (auto simp: ranked_def)
      then have "d + 1 + rank c \<le> 256" "ancestors_above m rank st (Suc (rank c))"
        using "3.prems"(4,5) by (force simp: ancestors_above_def)+
      then show ?thesis
        using "3.IH"(2)[OF False "3.prems"(1,2) ok] unfolding e fst_conv snd_conv by blast
    next
      case False
      then show ?thesis
        using e ok by (auto simp: tld_dfs.simps dfs_spec_def search_step_refl)
    qed
    then have "ancestors_above m rank s (rank i)"
      using "3.prems"(5) by (simp add: ancestors_above_def dfs_spec_def search_step_def)
    then have E: "edges_spec gb ld m i cs ?best s (fst (tld_edges gb ld m d i cs ?best s)) (snd (tld_edges gb ld m d i cs ?best s))"
      using "3.IH"(3)[OF False e[symmetric] refl "3.prems"(1,2) _ "3.prems"(4) _ "3.prems"(6)] "3.prems"(7,8) dfs
      by (simp add: dfs_spec_def)
    have "search_step gb m ({i} \<inter> set (c # cs)) st (snd (tld_edges gb ld m d i cs ?best s))"
      using search_step_trans[of gb m "{}" st s "{i} \<inter> set cs"] E dfs False by (simp add: edges_spec_def dfs_spec_def)
    moreover have "(i, c) \<in> calls gb m \<longleftrightarrow> node_id m c"
      using False "3.prems"(6,7) by (simp add: calls_def)
    moreover have "max ?best M = (if node_id m c then max best (max (depth_of gb ld m c) M) else max best M)" for M
      using dfs "3.prems"(8) by (simp add: dfs_spec_def max_def)
    moreover have "tld_edges gb ld m d i (c # cs) best st = tld_edges gb ld m d i cs ?best s"
      unfolding tld_edges.simps(2) e using False by simp
    ultimately show ?thesis
      using E by (simp add: edges_spec_def)
  qed
qed

section \<open>The heaviest chain\<close>

text \<open>A chain of calls from a function.\<close>

definition call_chain :: "gbuf \<Rightarrow> int \<Rightarrow> int \<Rightarrow> int list \<Rightarrow> bool" where
  "call_chain gb m i p \<longleftrightarrow> p \<noteq> [] \<and> hd p = i \<and> successively (\<lambda>a b. (a, b) \<in> calls gb m) p"

abbreviation chain_sum :: "int list \<Rightarrow> int list \<Rightarrow> int" where
  "chain_sum ld p \<equiv> sum_list (map (\<lambda>j. ld ! nat j) p)"

lemma depth_of_heaviest:
  assumes "ranked gb m rank"
  shows "(\<exists>p. call_chain gb m i p \<and> chain_sum ld p = depth_of gb ld m i) \<and>
    (\<forall>p. call_chain gb m i p \<longrightarrow> chain_sum ld p \<le> depth_of gb ld m i)"
proof (induction "rank i" arbitrary: i rule: less_induct)
  case less
  let ?cs = "[c \<leftarrow> call_targets gb i. (i, c) \<in> calls gb m]"
  let ?D = "depth_of gb ld m"
  note eq = depth_of_eq[OF assms, of ld i]
  have IH: "(\<exists>p. call_chain gb m c p \<and> chain_sum ld p = ?D c) \<and> (\<forall>p. call_chain gb m c p \<longrightarrow> chain_sum ld p \<le> ?D c)"
    if "(i, c) \<in> calls gb m" for c
    using less assms that by (auto simp: ranked_def)
  have "\<exists>p. call_chain gb m i p \<and> chain_sum ld p = ?D i"
  proof (cases "max0 (map ?D ?cs) = 0")
    case True
    then have "?D i = ld ! nat i"
      by (metis eq add.right_neutral)
    then show ?thesis
      by (intro exI[of _ "[i]"]) (simp add: call_chain_def)
  next
    case False
    then obtain c where c: "(i, c) \<in> calls gb m" "max0 (map ?D ?cs) = ?D c"
      using max0_cases[of "map ?D ?cs"] by auto
    then obtain p where p: "call_chain gb m c p" "chain_sum ld p = ?D c"
      using IH by blast
    then have "call_chain gb m i (i # p)"
      using c(1) by (auto simp: call_chain_def successively_Cons)
    then show ?thesis
      using p(2) c(2) eq by (metis list.simps(9) sum_list.Cons)
  qed
  moreover have "chain_sum ld p \<le> ?D i" if p: "call_chain gb m i p" for p
  proof -
    obtain q where q: "p = i # q"
      using p by (cases p) (auto simp: call_chain_def)
    show ?thesis
    proof (cases q)
      case Nil
      then show ?thesis
        using q eq max0_ge(2)[of "map ?D ?cs"] by simp
    next
      case (Cons c r)
      then have c: "(i, c) \<in> calls gb m" "call_chain gb m c q"
        using p q by (simp_all add: call_chain_def)
      then have "chain_sum ld q \<le> ?D c"
        using IH by blast
      also have "\<dots> \<le> max0 (map ?D ?cs)"
        by (rule max0_ge(1)) (use c(1) in \<open>auto simp: calls_def\<close>)
      finally show ?thesis
        using q eq by simp
    qed
  qed
  ultimately show ?case
    by blast
qed

end
