(* ===== verification/Complexity_Props.thy ===== *)
theory Complexity_Props
  imports Complexity_Facts Gbuf_Props
begin

text \<open>The property of the propagation of loop depths (src/src/pipeline/pass_complexity.c).\<close>

section \<open>The arrays\<close>

definition function_node :: "gbuf \<Rightarrow> nat \<Rightarrow> bool" where
  "function_node gb r \<longleftrightarrow> r \<in> live_refs gb \<and> (gn_label (node_at gb r) = ''Function'' \<or> gn_label (node_at gb r) = ''Method'')"

definition arrays_for :: "gbuf \<Rightarrow> int \<Rightarrow> nat set \<Rightarrow> complexity_arrays \<Rightarrow> bool" where
  "arrays_for gb m S a \<longleftrightarrow>
     length (ca_loop_depth a) = nat m + 1 \<and> length (ca_recursive a) = nat m + 1 \<and> length (ca_nptr a) = nat m + 1 \<and>
     (\<forall>i\<le>nat m.
        case ca_nptr a ! i of
          None \<Rightarrow> (\<forall>r\<in>S. gn_id (node_at gb r) \<noteq> int i) \<and> ca_loop_depth a ! i = 0 \<and> \<not> ca_recursive a ! i
        | Some r \<Rightarrow> r \<in> S \<and> gn_id (node_at gb r) = int i \<and>
            ca_loop_depth a ! i = json_get_int (gn_properties_json (node_at gb r)) ''loop_depth'' 0 \<and>
            ca_recursive a ! i = json_get_bool (gn_properties_json (node_at gb r)) ''self_recursive'')"

lemma seed_node_arrays:
  assumes "arrays_for gb m S a" "1 \<le> gn_id (node_at gb r)" "gn_id (node_at gb r) \<le> m"
    and "inj_on (\<lambda>r. gn_id (node_at gb r)) (insert r S)"
  shows "arrays_for gb m (insert r S) (seed_node gb m r a)"
  unfolding arrays_for_def
proof (intro conjI allI impI)
  let ?i = "nat (gn_id (node_at gb r))" and ?a = "seed_node gb m r a"
  have i: "?i < length (ca_loop_depth a)" "?i < length (ca_recursive a)" "?i < length (ca_nptr a)" "int ?i = gn_id (node_at gb r)"
    using assms(1-3) by (simp_all add: arrays_for_def nat_less_iff)
  show "length (ca_loop_depth ?a) = nat m + 1" "length (ca_recursive ?a) = nat m + 1" "length (ca_nptr ?a) = nat m + 1"
    using assms(1) by (simp_all add: arrays_for_def seed_node_def Let_def)
  fix j
  assume j: "j \<le> nat m"
  show "case ca_nptr ?a ! j of
      None \<Rightarrow> (\<forall>x\<in>insert r S. gn_id (node_at gb x) \<noteq> int j) \<and> ca_loop_depth ?a ! j = 0 \<and> \<not> ca_recursive ?a ! j
    | Some x \<Rightarrow> x \<in> insert r S \<and> gn_id (node_at gb x) = int j \<and>
        ca_loop_depth ?a ! j = json_get_int (gn_properties_json (node_at gb x)) ''loop_depth'' 0 \<and>
        ca_recursive ?a ! j = json_get_bool (gn_properties_json (node_at gb x)) ''self_recursive''"
  proof (cases "j = ?i")
    case True
    then show ?thesis
      using i assms(2,3) by (simp add: seed_node_def Let_def)
  next
    case False
    then have "gn_id (node_at gb r) \<noteq> int j"
      using i(4) by auto
    moreover have "ca_nptr ?a ! j = ca_nptr a ! j" "ca_loop_depth ?a ! j = ca_loop_depth a ! j" "ca_recursive ?a ! j = ca_recursive a ! j"
      using False by (simp_all add: seed_node_def Let_def)
    ultimately show ?thesis
      using assms(1) j by (auto simp: arrays_for_def split: option.splits)
  qed
qed

lemma seed_fold_arrays:
  assumes "arrays_for gb m S a" "\<forall>r\<in>set rs. 1 \<le> gn_id (node_at gb r) \<and> gn_id (node_at gb r) \<le> m"
    and "inj_on (\<lambda>r. gn_id (node_at gb r)) (set rs \<union> S)"
  shows "arrays_for gb m (set rs \<union> S) (fold (seed_node gb m) rs a)"
  using assms
proof (induction rs arbitrary: S a)
  case (Cons r rs)
  have "inj_on (\<lambda>r. gn_id (node_at gb r)) (insert r S)"
    by (rule inj_on_subset[OF Cons.prems(3)]) auto
  then have "arrays_for gb m (insert r S) (seed_node gb m r a)"
    using Cons.prems(1,2) by (intro seed_node_arrays) auto
  then have "arrays_for gb m (set rs \<union> insert r S) (fold (seed_node gb m) rs (seed_node gb m r a))"
    by (rule Cons.IH) (use Cons.prems(2,3) in auto)
  then show ?case
    by simp
qed simp

definition seeded :: "gbuf \<Rightarrow> int \<Rightarrow> complexity_arrays" where
  "seeded gb m =
     seed_loop_depths gb ''Method'' m (seed_loop_depths gb ''Function'' m
       \<lparr>ca_loop_depth = replicate (nat (m + 1)) 0, ca_recursive = replicate (nat (m + 1)) False,
        ca_nptr = replicate (nat (m + 1)) None\<rparr>)"

lemma seeded_arrays:
  assumes "gbuf_ok gb" "m = pmm_gbuf_next_id gb - 1" "1 \<le> m"
  shows "arrays_for gb m {r. function_node gb r} (seeded gb m)"
proof -
  note D = nodes_okD[OF gbuf_okD(1)[OF assms(1)]]
  have ids: "1 \<le> gn_id (node_at gb r) \<and> gn_id (node_at gb r) \<le> m" if "r \<in> live_refs gb" for r
    using that D(4)[of r] gbuf_okD(2)[OF assms(1)] by (auto simp: live_refs_def ids_below_def assms(2))
  have inj: "inj_on (\<lambda>r. gn_id (node_at gb r)) A" if "A \<subseteq> live_refs gb" for A
    by (rule inj_on_subset[OF D(3)]) (use that in \<open>auto simp: live_refs_def\<close>)
  let ?b = "\<lambda>l. pmm_gbuf_find_by_label gb (Some l)"
  have b: "set (?b l) = {r \<in> live_refs gb. gn_label (node_at gb r) = l}" for l
    using D(6) by (simp add: node_lists_on_def indexed_by_def pmm_gbuf_find_by_label_def or_empty_def)
  let ?a = "\<lparr>ca_loop_depth = replicate (nat (m + 1)) 0, ca_recursive = replicate (nat (m + 1)) False,
        ca_nptr = replicate (nat (m + 1)) None\<rparr>"
  have "arrays_for gb m {} ?a"
    using assms(3) by (auto simp: arrays_for_def nat_add_distrib nth_append simp del: replicate_Suc)
  then have "arrays_for gb m (set (?b ''Function'') \<union> {}) (seed_loop_depths gb ''Function'' m ?a)"
    unfolding seed_loop_depths_def by (rule seed_fold_arrays) (use ids inj b in auto)
  then have "arrays_for gb m (set (?b ''Method'') \<union> (set (?b ''Function'') \<union> {})) (seeded gb m)"
    unfolding seeded_def seed_loop_depths_def[of gb "''Method''"] by (rule seed_fold_arrays) (use ids inj b in auto)
  moreover have "set (?b ''Method'') \<union> (set (?b ''Function'') \<union> {}) = {r. function_node gb r}"
    using b by (auto simp: function_node_def)
  ultimately show ?thesis
    by simp
qed

section \<open>The loop over the ids\<close>

definition complexity_result :: "gbuf \<Rightarrow> int \<Rightarrow> nat \<Rightarrow> gnode" where
  "complexity_result gb m r =
     (let n = node_at gb r in
      append_complexity_props n (depth_of gb (ca_loop_depth (seeded gb m)) m (gn_id n))
        (json_get_bool (gn_properties_json n) ''self_recursive'' \<or> self_call gb (gn_id n)))"

definition loop_state :: "gbuf \<Rightarrow> int \<Rightarrow> nat \<Rightarrow> gbuf \<times> tld_state" where
  "loop_state gb m k =
     fold (complexity_step gb m (seeded gb m)) [1..<k]
       (gb, \<lparr>ts_tld = replicate (nat (m + 1)) 0, ts_state = replicate (nat (m + 1)) 0,
             ts_recursive = ca_recursive (seeded gb m)\<rparr>)"

lemma loop_state_Suc: "1 \<le> k \<Longrightarrow> loop_state gb m (Suc k) = complexity_step gb m (seeded gb m) k (loop_state gb m k)"
  by (simp add: loop_state_def)

text \<open>One turn computes the depth and the flag of its function.\<close>

lemma search_turn:
  assumes "ranked gb m rank" "small_depths ld m" "search_ok gb ld m st" "search_step gb m {} st0 st"
    and "node_id m i" "\<forall>j. node_id m j \<longrightarrow> ts_state st0 ! nat j = 0"
  defines "st' \<equiv> (if ts_state st ! nat i \<noteq> 2 then snd (tld_dfs gb ld m 0 i st) else st)"
  shows "search_ok gb ld m st' \<and> search_step gb m {} st0 st' \<and> ts_tld st' ! nat i = depth_of gb ld m i \<and>
    (ts_recursive st' ! nat i \<longleftrightarrow> ts_recursive st0 ! nat i \<or> self_call gb i)"
proof -
  have idle: "ts_state st ! nat j \<noteq> 1" if "node_id m j" for j
    using assms(4,6) that by (simp add: search_step_def)
  have spec: "dfs_spec gb ld m i st (fst (tld_dfs gb ld m 0 i st)) (snd (tld_dfs gb ld m 0 i st))"
    by (rule tld_search(1)[OF assms(1-3)]) (use assms(1) idle in \<open>simp_all add: ranked_def ancestors_above_def\<close>)
  have ok: "search_ok gb ld m st'" "ts_state st' ! nat i = 2"
    using spec assms(3,5) by (simp_all add: st'_def dfs_spec_def)
  have step: "search_step gb m {} st0 st'"
    using spec search_step_trans[of gb m "{}" st0 st "{}"] assms(4) by (simp add: st'_def dfs_spec_def)
  then have "ts_recursive st' ! nat i \<longleftrightarrow> ts_recursive st0 ! nat i \<or> self_call gb i"
    using assms(5,6) ok(2) by (simp add: search_step_def)
  then show ?thesis
    using ok step assms(5) by (simp add: search_ok_def)
qed

lemma loop_state_correct:
  assumes "gbuf_ok gb" "m = pmm_gbuf_next_id gb - 1" "1 \<le> m" "ranked gb m rank" "small_depths (ca_loop_depth (seeded gb m)) m"
    and "1 \<le> k" "k \<le> nat m + 1"
  shows "search_ok gb (ca_loop_depth (seeded gb m)) m (snd (loop_state gb m k)) \<and>
    search_step gb m {} (snd (loop_state gb m 1)) (snd (loop_state gb m k)) \<and>
    length (gb_nodes (fst (loop_state gb m k))) = length (gb_nodes gb) \<and>
    (\<forall>r<length (gb_nodes gb). node_at (fst (loop_state gb m k)) r =
       (if function_node gb r \<and> gn_id (node_at gb r) < int k then complexity_result gb m r else node_at gb r))"
  using assms(6,7)
proof (induction k rule: nat_induct_at_least)
  case base
  note A = seeded_arrays[OF assms(1-3)]
  have "\<not> gn_id (node_at gb r) < 1" if "r < length (gb_nodes gb)" for r
    using nodes_okD(4)[OF gbuf_okD(1)[OF assms(1)] that] by simp
  then show ?case
    using A assms(3) by (auto simp: loop_state_def search_ok_def search_step_refl arrays_for_def nat_add_distrib simp del: replicate_Suc)
next
  case (Suc k)
  let ?ld = "ca_loop_depth (seeded gb m)" and ?st0 = "snd (loop_state gb m 1)"
  obtain g st where gst: "loop_state gb m k = (g, st)"
    by fastforce
  have k: "1 \<le> k" "k \<le> nat m" "node_id m (int k)"
    using Suc.hyps Suc.prems by simp_all
  have IH: "search_ok gb ?ld m st" "search_step gb m {} ?st0 st" "length (gb_nodes g) = length (gb_nodes gb)"
    "r < length (gb_nodes gb) \<Longrightarrow> node_at g r =
       (if function_node gb r \<and> gn_id (node_at gb r) < int k then complexity_result gb m r else node_at gb r)" for r
    using Suc.IH Suc.prems by (simp_all add: gst)
  have init: "ts_state ?st0 ! nat j = 0" "ts_recursive ?st0 = ca_recursive (seeded gb m)" if "node_id m j" for j
    using that by (simp_all add: loop_state_def)
  note A = seeded_arrays[OF assms(1-3), unfolded arrays_for_def]
  show ?case
  proof (cases "ca_nptr (seeded gb m) ! k")
    case None
    then have "gn_id (node_at gb r) \<noteq> int k" if "function_node gb r" for r
      using A k(2) that by (auto split: option.splits)
    then have "function_node gb r \<Longrightarrow> gn_id (node_at gb r) < int (Suc k) \<longleftrightarrow> gn_id (node_at gb r) < int k" for r
      by force
    then show ?thesis
      using IH None by (simp add: loop_state_Suc[OF k(1)] gst complexity_step_def cong: conj_cong)
  next
    case (Some x)
    have x: "function_node gb x" "gn_id (node_at gb x) = int k"
      "ca_recursive (seeded gb m) ! k = json_get_bool (gn_properties_json (node_at gb x)) ''self_recursive''"
      using A k(2) Some by (auto dest!: spec[of _ k])
    have uniq: "gn_id (node_at gb r) = int k \<longleftrightarrow> r = x" if "r < length (gb_nodes gb)" for r
      using nodes_okD(3)[OF gbuf_okD(1)[OF assms(1)]] that x(1,2) by (auto simp: inj_on_def function_node_def live_refs_def)
    define st' where "st' = (if ts_state st ! k \<noteq> 2 then snd (tld_dfs gb ?ld m 0 (int k) st) else st)"
    have turn: "search_ok gb ?ld m st'" "search_step gb m {} ?st0 st'" "ts_tld st' ! k = depth_of gb ?ld m (int k)"
      "ts_recursive st' ! k \<longleftrightarrow> ts_recursive ?st0 ! k \<or> self_call gb (int k)"
      using search_turn[OF assms(4,5) IH(1,2) k(3)] init by (simp_all add: st'_def)
    have xl: "x < length (gb_nodes gb)"
      using x(1) by (simp add: function_node_def live_refs_def)
    have "append_complexity_props (node_at g x) (ts_tld st' ! k) (ts_recursive st' ! k) = complexity_result gb m x"
      using IH(4)[OF xl] x turn init(2)[OF k(3)] by (simp add: complexity_result_def Let_def)
    then have next_state: "loop_state gb m (Suc k) = (g\<lparr>gb_nodes := (gb_nodes g)[x := complexity_result gb m x]\<rparr>, st')"
      by (simp add: loop_state_Suc[OF k(1)] gst complexity_step_def Some st'_def[symmetric])
    have "node_at (g\<lparr>gb_nodes := (gb_nodes g)[x := complexity_result gb m x]\<rparr>) r =
        (if function_node gb r \<and> gn_id (node_at gb r) < int (Suc k) then complexity_result gb m r else node_at gb r)"
      if r: "r < length (gb_nodes gb)" for r
    proof (cases "r = x")
      case True
      then show ?thesis
        using x xl IH(3) by (simp add: node_at_def)
    next
      case False
      then have "gn_id (node_at gb r) < int (Suc k) \<longleftrightarrow> gn_id (node_at gb r) < int k"
        using uniq[OF r] by force
      then show ?thesis
        using IH(4)[OF r] False by (simp add: node_at_def)
    qed
    then show ?thesis
      using turn(1,2) IH(3) by (simp add: next_state)
  qed
qed

section \<open>The pass\<close>

text \<open>The loop depth that the extraction left in a function, 0 for any other id.\<close>

definition function_depth :: "gbuf \<Rightarrow> int \<Rightarrow> int" where
  "function_depth gb i =
     (case pmm_gbuf_find_by_id gb i of
        Some r \<Rightarrow> if function_node gb r then json_get_int (gn_properties_json (node_at gb r)) ''loop_depth'' 0 else 0
      | None \<Rightarrow> 0)"

lemma seeded_depth:
  assumes "gbuf_ok gb" "m = pmm_gbuf_next_id gb - 1" "node_id m i"
  shows "ca_loop_depth (seeded gb m) ! nat i = function_depth gb i"
proof -
  note A = seeded_arrays[OF assms(1,2), unfolded arrays_for_def]
  have i: "nat i \<le> nat m" "1 \<le> m" "int (nat i) = i"
    using assms(3) by (auto intro: nat_mono)
  have find: "pmm_gbuf_find_by_id gb i = Some r \<longleftrightarrow> r \<in> live_refs gb \<and> gn_id (node_at gb r) = i" for r
    using nodes_okD(4)[OF gbuf_okD(1)[OF assms(1)], of r] nodes_okD(5)[OF gbuf_okD(1)[OF assms(1)], of i r]
    by (auto simp: pmm_gbuf_find_by_id_def live_refs_def)
  note B = A[OF i(2), THEN conjunct2, THEN conjunct2, THEN conjunct2, THEN spec[of _ "nat i"], THEN mp[OF _ i(1)], unfolded i(3)]
  show ?thesis
  proof (cases "ca_nptr (seeded gb m) ! nat i")
    case None
    then have "\<not> function_node gb r" if "pmm_gbuf_find_by_id gb i = Some r" for r
      using B find[of r] that by auto
    then show ?thesis
      using B None by (simp add: function_depth_def split: option.splits)
  next
    case (Some r)
    then have "function_node gb r" "pmm_gbuf_find_by_id gb i = Some r"
      using B find[of r] by (auto simp: function_node_def)
    then show ?thesis
      using B Some by (simp add: function_depth_def)
  qed
qed

lemma call_chain_ids: "call_chain gb m i p \<Longrightarrow> node_id m i \<Longrightarrow> \<forall>j\<in>set p. node_id m j"
proof (induction p arbitrary: i)
  case (Cons a p)
  have a: "a = i"
    using Cons.prems(1) by (simp add: call_chain_def)
  have "\<forall>j\<in>set p. node_id m j"
  proof (cases p)
    case (Cons b q)
    then have "call_chain gb m b p" "(a, b) \<in> calls gb m"
      using Cons.prems(1) by (auto simp: call_chain_def)
    moreover from this(2) have "node_id m b"
      unfolding calls_def by blast
    ultimately show ?thesis
      using Cons.IH by blast
  qed simp
  then show ?case
    using a Cons.prems(2) by simp
qed (simp add: call_chain_def)

lemma complexity_text_fits:
  assumes "0 \<le> d" "d < 10 ^ 9"
  shows "length (complexity_text b d f) < 64"
proof -
  have "length (show_int d) \<le> 9"
    using assms nat_digits_length[of "nat d" 8] by (simp add: show_int_def nat_less_iff)
  then show ?thesis
    by (simp add: complexity_text_def)
qed

text \<open>C20: the propagation of loop depths.  Where the calls between functions, calls of a function to itself
  apart, have no cycle and no chain longer than 257, the pass writes into every function and method
  the greatest sum of loop depths over the call chains that start there, and whether it calls itself;
  it cuts off nothing and changes no other node.\<close>

theorem complexity_pass_exact:
  assumes "gbuf_reachable gb" "ranked gb (pmm_gbuf_next_id gb - 1) rank" "r < length (gb_nodes gb)"
    and "\<forall>i. 0 \<le> function_depth gb i \<and> function_depth gb i \<le> 1000000"
  shows "let n = node_at gb r; n' = node_at (pmm_pipeline_pass_complexity gb) r; m = pmm_gbuf_next_id gb - 1;
      recursive = (json_get_bool (gn_properties_json n) ''self_recursive'' \<or> self_call gb (gn_id n))
    in if function_node gb r then
        \<exists>d. n' = append_complexity_props n d recursive \<and>
          (\<exists>p. call_chain gb m (gn_id n) p \<and> sum_list (map (function_depth gb) p) = d) \<and>
          (\<forall>p. call_chain gb m (gn_id n) p \<longrightarrow> sum_list (map (function_depth gb) p) \<le> d) \<and>
          (2 \<le> length (gn_properties_json n) \<and> last (gn_properties_json n) = CHR ''}'' \<longrightarrow>
             gn_properties_json n' =
               butlast (gn_properties_json n) @ complexity_text (length (gn_properties_json n) = 2) d recursive)
      else n' = n"
proof -
  define m where "m = pmm_gbuf_next_id gb - 1"
  let ?ld = "ca_loop_depth (seeded gb m)" and ?n = "node_at gb r"
  note ok = reachable_gbuf_ok[OF assms(1)]
  have i: "node_id m (gn_id ?n)"
    using nodes_okD(4)[OF gbuf_okD(1)[OF ok] assms(3)] gbuf_okD(2)[OF ok] assms(3) by (simp add: ids_below_def m_def)
  then have m: "1 \<le> m"
    by simp
  have depth: "?ld ! nat j = function_depth gb j" if "node_id m j" for j
    by (rule seeded_depth[OF ok m_def that])
  have len: "length ?ld = nat m + 1"
    using seeded_arrays[OF ok m_def m] by (simp add: arrays_for_def)
  have "0 \<le> ?ld ! j \<and> ?ld ! j \<le> 1000000" if "j < length ?ld" for j
  proof (cases "j = 0")
    case True
    note A = seeded_arrays[OF ok m_def m, unfolded arrays_for_def, THEN conjunct2, THEN conjunct2, THEN conjunct2,
        THEN spec[of _ 0], THEN mp[OF _ le0]]
    have "ca_nptr (seeded gb m) ! 0 = None"
    proof (cases "ca_nptr (seeded gb m) ! 0")
      case (Some x)
      then show ?thesis
        using A nodes_okD(4)[OF gbuf_okD(1)[OF ok], of x] by (simp add: function_node_def live_refs_def)
    qed
    then show ?thesis
      using A True by simp
  next
    case False
    then show ?thesis
      using depth[of "int j"] assms(4) that len m by auto
  qed
  then have small: "small_depths ?ld m"
    using len by (auto simp: small_depths_def in_set_conv_nth)
  have chains: "map (function_depth gb) p = map (\<lambda>j. ?ld ! nat j) p" if "call_chain gb m (gn_id ?n) p" for p
    using call_chain_ids[OF that i] depth by simp
  let ?d = "depth_of gb ?ld m (gn_id ?n)"
  have heavy: "(\<exists>p. call_chain gb m (gn_id ?n) p \<and> sum_list (map (function_depth gb) p) = ?d) \<and>
      (\<forall>p. call_chain gb m (gn_id ?n) p \<longrightarrow> sum_list (map (function_depth gb) p) \<le> ?d)"
    using depth_of_heaviest[OF assms(2)[folded m_def], of "gn_id ?n" ?ld] chains by metis
  have fits: "snprintf_buf 64 (complexity_text b ?d f) = complexity_text b ?d f" for b f
    using complexity_text_fits[of ?d b f] chain_depth_bounds[OF small i, of gb 257] by (simp add: snprintf_buf_id)
  have "pmm_pipeline_pass_complexity gb = fst (loop_state gb m (nat m + 1))"
    using m by (simp add: pmm_pipeline_pass_complexity_def Let_def m_def[symmetric] loop_state_def seeded_def nat_add_distrib
        del: replicate_Suc upt_Suc)
  then have "node_at (pmm_pipeline_pass_complexity gb) r = (if function_node gb r then complexity_result gb m r else ?n)"
    using loop_state_correct[OF ok m_def m assms(2)[folded m_def] small, of "nat m + 1"] assms(3) i by simp
  moreover have "complexity_result gb m r = append_complexity_props ?n ?d
      (json_get_bool (gn_properties_json ?n) ''self_recursive'' \<or> self_call gb (gn_id ?n))"
    by (simp add: complexity_result_def Let_def)
  moreover have "gn_properties_json (append_complexity_props ?n ?d f) =
      butlast (gn_properties_json ?n) @ complexity_text (length (gn_properties_json ?n) = 2) ?d f"
    if "2 \<le> length (gn_properties_json ?n) \<and> last (gn_properties_json ?n) = CHR ''}''" for f
    using that by (simp add: append_complexity_props_def Let_def fits)
  ultimately show ?thesis
    unfolding Let_def m_def[symmetric] using heavy by (cases "function_node gb r") (auto intro!: exI[of _ ?d])
qed

text \<open>Two functions in a row, the second with a loop of depth two.\<close>

definition demo_calls :: gbuf where
  "demo_calls =
     (let g0 = pmm_gbuf_new (Some ''p'') None;
          g1 = snd (pmm_gbuf_upsert_node g0 (Some ''Function'') (Some ''f'') (Some ''p.f'') (Some ''a.c'') 1 2 None);
          g2 = snd (pmm_gbuf_upsert_node g1 (Some ''Function'') (Some ''g'') (Some ''p.g'') (Some ''b.c'') 3 4
                 (Some (''{'' @ CHR 0x22 # ''loop_depth'' @ CHR 0x22 # '':2}'')))
      in snd (pmm_gbuf_insert_edge g2 1 2 (Some ''CALLS'') None))"

lemma demo_calls_reachable: "gbuf_reachable demo_calls"
  unfolding demo_calls_def Let_def
  by (rule gbuf_reachable.insert) (simp_all add: gbuf_reachable.upsert gbuf_reachable.new id64_def type_ok_def)

lemma demo_calls_facts:
  "pmm_gbuf_next_id demo_calls = 4" "call_targets demo_calls 1 = [2]" "call_targets demo_calls 2 = []" "call_targets demo_calls 3 = []"
  "length (gb_nodes demo_calls) = 2" "gn_id (node_at demo_calls 0) = 1" "gn_properties_json (node_at demo_calls 0) = ''{}''"
  "gn_label (node_at demo_calls 0) = ''Function''" "gn_qualified_name (node_at demo_calls 0) = Some ''p.f''"
  "json_get_int (gn_properties_json (node_at demo_calls 0)) ''loop_depth'' 0 = 0"
  "json_get_int (gn_properties_json (node_at demo_calls 1)) ''loop_depth'' 0 = 2"
  "json_get_bool ''{}'' ''self_recursive'' = False"
  by code_simp+

lemma demo_calls_ranked: "ranked demo_calls 3 (\<lambda>i. if i = 1 then 1 else 0)"
proof -
  have "i = 1 \<and> c = 2" if "(i, c) \<in> calls demo_calls 3" for i c
  proof -
    have "i = 1 \<or> i = 2 \<or> i = 3" "c \<in> set (call_targets demo_calls i)"
      using that by (auto simp: calls_def)
    then show ?thesis
      by (auto simp: demo_calls_facts)
  qed
  then show ?thesis
    by (force simp: ranked_def)
qed

lemma demo_calls_depths: "0 \<le> function_depth demo_calls i \<and> function_depth demo_calls i \<le> 1000000"
proof (cases "pmm_gbuf_find_by_id demo_calls i")
  case (Some r)
  then have "gb_by_id demo_calls i = Some r"
    by (simp add: pmm_gbuf_find_by_id_def split: if_splits)
  then have "r < 2"
    using nodes_okD(5)[OF gbuf_okD(1)[OF reachable_gbuf_ok[OF demo_calls_reachable]]] by (simp add: live_refs_def demo_calls_facts)
  then have "r = 0 \<or> r = 1"
    by auto
  then show ?thesis
    using Some demo_calls_facts(10,11) by (auto simp: function_depth_def)
qed (simp add: function_depth_def)

lemma complexity_pass_exact_witness:
  "\<exists>d. gn_properties_json (node_at (pmm_pipeline_pass_complexity demo_calls) 0) =
     butlast (gn_properties_json (node_at demo_calls 0)) @ complexity_text True d False \<and>
     (\<exists>p. call_chain demo_calls 3 1 p \<and> sum_list (map (function_depth demo_calls) p) = d)"
proof -
  have "function_node demo_calls 0" "\<not> self_call demo_calls 1"
    by (simp_all add: function_node_def live_refs_def self_call_def demo_calls_facts)
  moreover have "ranked demo_calls (pmm_gbuf_next_id demo_calls - 1) (\<lambda>i. if i = 1 then 1 else 0)"
    using demo_calls_ranked by (simp add: demo_calls_facts(1))
  moreover have "0 < length (gb_nodes demo_calls)"
    by (simp add: demo_calls_facts)
  ultimately show ?thesis
    using complexity_pass_exact[OF demo_calls_reachable, of "\<lambda>i. if i = 1 then 1 else 0" 0] demo_calls_depths
    by (auto simp: Let_def demo_calls_facts)
qed

text \<open>In a cycle of calls only the function where the search entered it is marked as recursive.\<close>

lemma mutual_recursion_marks_one:
  "map gn_properties_json (gb_nodes (pmm_pipeline_pass_complexity (snd (pmm_gbuf_insert_edge demo_calls 2 1 (Some ''CALLS'') None)))) =
    [butlast ''{}'' @ complexity_text True 2 True,
     butlast (''{'' @ CHR 0x22 # ''loop_depth'' @ CHR 0x22 # '':2}'') @ complexity_text False 2 False]"
  by code_simp

end
