(* ===== verification/Spec2Isabelle.thy ===== *)
theory Spec2Isabelle
  imports Cyp_Lexer_Props Cyp_Parser_Props Cyp_Value_Props Cyp_Result_Props Cyp_Project_Props
    Cyp_Match_Props Cyp_Execute_Props Gbuf_Props Gbuf_Dump_Props
    Gitignore_Props Disc_Walk_Props Disc_Paths_Props Disc_Lang_Props Fqn_Props Registry_Props
    Complexity_Props
begin

text \<open>
  A verification library for the core of project-mind-mcp, a C program that indexes source
  repositories into a graph of code and answers queries about it.  Modelled are the two ends and the
  middle of that path: the discovery of the files (src/src/discover), the qualified names of their
  definitions (src/src/pipeline/fqn.c, src/internal/pmm/helpers.c) and the resolution of calls to them
  (src/src/pipeline/registry.c), the in-memory graph that the extraction fills (src/src/graph_buffer)
  with its way into the database and back, and the query engine over the stored graph
  (src/src/cypher).

  \<^bold>\<open>The program.\<close>  Indexing starts with \<open>pmm_discover_ex2\<close>: a walk over the directories of the
  repository that drops built-in directories, ignored paths (.gitignore files, the excludes of git,
  .pmmignore) and unwanted suffixes, and detects a language for each file from its name, its
  content and the user's configuration.  The project gets a name from its path
  (\<open>pmm_project_name_from_path\<close>), which is also the name of its database file.  Workers extract
  definitions and relations in parallel, each into a graph buffer of its own, under qualified names
  (\<open>pmm_fqn_compute\<close>) that the pipeline computes again to look them up
  (\<open>pmm_pipeline_fqn_compute\<close>), also for the targets of relative imports; ids come from one
  shared counter.  \<open>pmm_gbuf_merge\<close> joins the buffers into the main one; the definitions are registered, and each call, usage and base class of a file is
  resolved by \<open>pmm_registry_resolve\<close> through the imports of the file, its module, or its name alone;
  later passes add their edges, and \<open>pmm_gbuf_dump_to_sqlite\<close> renumbers the nodes and
  streams the rows to the database; an incremental run loads the project back and deletes the nodes
  of changed files.  A tool call hands a query text to \<open>pmm_cypher_execute\<close>.  The text is lexed and
  parsed into the structs of cypher.h.  Execution scans the nodes of the first pattern, filters them
  with WHERE (early), expands the relationships, joins the further patterns, filters again (late),
  applies WITH, projects RETURN into a table of strings and post-processes it (DISTINCT, ORDER BY,
  SKIP, LIMIT).  UNION appends tables.  A wall-clock deadline, sampled in the loops, aborts a run; a
  table of 100000 rows or more is an error.

  \<^bold>\<open>The theories.\<close>  Each definition has the name of the C function it translates; a helper names the
  loop or block it is taken from.  Theories named _Logic and _Facts hold the lemmas, those named
  _Props the properties.
  \<^item> Cyp_Prelude: C strings, \<open>strcmp\<close>, \<open>strstr\<close>, \<open>strtol\<close>, printing of integers, 32-bit
    conversion.  Cyp_Digits: decimal texts.  Cyp_Double: IEEE 754 doubles with \<open>strtod\<close>, comparison,
    addition and \<open>%g\<close>.
  \<^item> Gitignore: parsing, glob matching, rule lists and their merge (gitignore.c).
  \<^item> Disc_Base: the file system and the environment as the program sees them (compat_fs.c,
    platform.c).  Disc_Lang: language tables, the user's extensions, disambiguation (language.c,
    userconfig.c).  Discover: the filters and the ignore files of git; Disc_Walk: the walk over the
    stack of directories and the entry points (discover.c).
  \<^item> Fqn: qualified names on both sides, relative imports, project names and their check (fqn.c,
    helpers.c, str_util.c).  Fqn_Paths: slash-separated paths as lists of components; Fqn_Facts: the
    characters of project names.
  \<^item> Registry: the registry of definitions, the strategies of resolution, the caches of a file, the
    guards for Perl and TypeScript (registry.c).  Registry_Facts, Registry_Caches, Registry_Choice: the
    indexes, the caches, the cases of a resolution.
  \<^item> Complexity: the propagation of loop depths along calls (pass_complexity.c).  Complexity_Facts:
    the search with memory computes the heaviest call chain.
  \<^item> Gbuf_Table: the hash table (hash_table.c) and the pointer arrays.  Gbuf: the structs, keys and
    operations of the buffer; Gbuf_Dump: rows, dump and load (graph_buffer.c).  Gbuf_Keys,
    Gbuf_Edge_Facts, Gbuf_Node_Facts, Gbuf_Ops_Facts, Gbuf_Delete_Facts, Gbuf_Merge_Facts: the
    invariant and that every operation keeps it.  Gbuf_Order: the order behind the canonical winner.
    Gbuf_Workers, Gbuf_Pool: the merge of several workers and their interleavings
    (src/src/pipeline/pass_parallel.c).
  \<^item> Cyp_Token, Cyp_Ast, Cyp_Lexer, Cyp_Parse_Base, Cyp_Parse_Expr, Cyp_Parser: tokens, syntax
    structs, lexer and recursive-descent parser, with its cursor as explicit state and its failures
    as values.  Cyp_Store: node and edge rows, the record \<open>store_ops\<close> of the queries that the engine
    calls, the SQL statements over two tables as \<open>table_store\<close> (store.c), the traversal with
    the 512-byte list of its types.
  \<^item> Cyp_Binding, Cyp_Eval: the variables of a row, properties, scalar functions, conditions.
    Cyp_Result, Cyp_Project: the table with its post-processing; WITH and RETURN.  Cyp_State: clock,
    deadline and environment (limits.c) and the state of a run.  Cyp_Match, Cyp_Execute: matching,
    one query, the UNION chain, the entry point.  Cyp_Examples: the graph and the queries of the
    worked instances.

  \<^bold>\<open>Interfaces.\<close>  \<open>hash_table\<close> (Gbuf_Table) is the contract of the string-keyed table; the indexes of
  the buffer are reasoned about through it.  \<open>store_laws\<close> (Cyp_Store) states what the engine relies on
  of the store: lookup by id and label, edges by end and type, sound traversal; the expansion lemmas
  are proved from it, and it is interpreted on the SQL model as \<open>db\<close>.  \<open>bounded_table\<close> (Cyp_Binding)
  is the contract of the two variable tables.  \<open>comparison\<close> (Cyp_Result) is a strict weak order; the
  bubble sort of the code is correct and stable for it, and the comparisons of ORDER BY are
  interpreted.  \<open>grouping\<close> (Cyp_Project_Facts) is shared by the aggregation of WITH and RETURN.  The
  rows of the dump are the rows of the query engine's tables.

  \<^bold>\<open>What is shown.\<close>  Discovery: the loop over the stack is the recursive listing of the tree, lists no
  file twice, never enters the directories of the safety core, and the bounded count is exact.  The
  glob matcher decides the language of its pattern, the last applicable rule decides a path, merging
  is atomic and later rules override, printing and parsing are inverse.  The longest known extension
  decides a language; project extensions override global ones unless the global file repeats one.
  Names: every path gives a valid project name; extraction and pipeline give the same qualified names
  on normal paths without hidden components; a relative import, with slashes or with dots, is the walk
  over the directories, and one with slashes reaches a neighbouring file just when its stem has no
  dot.  Resolution: the registry is the map of
  first definitions; the caches of a file change no answer if no import name is bound twice; a resolved
  name is registered; test code is chosen only when nothing else has the name; the probe of the index
  equals a scan of the registry.  The propagated loop depth of a function is the greatest sum
  over the call chains from it, where the calls can be ranked in 257 steps.
  Graph buffer: in every reachable buffer all indexes describe one set of live nodes and edges; the
  upsert is a map update under the canonical rule; deletion by file and the edge lookups are exact;
  edges are stored once; ids are unique under every interleaving of the workers; the order of merging
  does not matter for the label, name, file and start line under a name nor for the edges between
  names, where no module definition of a worker meets a project or folder node under its name, or the
  main buffer holds that node and the workers bring only module definitions for it; the dump is the graph with ids from 1 on, streamed safely, and loading it
  gives the graph back.  Query engine: tokens round-trip; every input is answered with a well-formed
  query or a message; integers compare as integers; one hop and hop ranges are exactly the walks of
  the graph (for a range within the 100 nodes and 124 types of its statement); expansion is an inner
  or left outer join; mandatory matching stays inside its arrays; grouping is by key, DISTINCT keeps
  first rows, ORDER BY sorts stably (numbers below 2^30 in size), early LIMIT changes nothing; every
  query is answered, within the budget with its table, past it with an error; WHERE holds on every row; a label query is
  exact end to end.  Several theorems state behaviour that the code has and hardly means to have:
  two dashes that start a comment, negated conditions on later variables, imports of files with a
  dotted stem, an import name bound twice, nodes left over after
  deletion by label, a repeated global extension that beats the project's, mutual recursion of which
  one function is marked, and the places where a fixed buffer or an \<open>int\<close> shows.

  \<^bold>\<open>Bounds and fuel.\<close>  Only the query parser takes fuel: \<open>parse_fuel\<close> is linear in the number of
  tokens, and Cyp_Parser_Facts shows that it is enough for every token array that ends in the end
  marker.  All other loops are structural or have a measure; the walk terminates by the multiset of
  the room left in the path buffers, so also on a file system with cycles.  Buffers have the sizes
  of the source (\<open>snprintf_buf\<close> and \<open>take\<close> cut as the source does).  An access of the query engine
  past an array's allocated size - a push of matching into an array of bindings, compared in
  \<open>check_array\<close>, or the values that a UNION reads from rows with too few columns - sets
  \<open>x_out_of_bounds\<close> (a write past the parser's stack buffer sets a mark of its own), after which the
  model goes on as if the array had been large enough.  Ids of the buffer are unbounded integers;
  line numbers are subtracted on 32 bits as in the source.

  \<^bold>\<open>Parameters.\<close>  The regular expression engine, the clock, environment variables, the deadline
  override of the tests; the file system (what \<open>lstat\<close>, \<open>stat\<close>, \<open>readdir\<close> and reading a file give),
  which does not change during a walk; the canonical path of a file; the JSON parser, \<open>qsort\<close>, the
  page writer of the database and the memory budget of the dump; the duplication of strings in the merge of ignore rules, which may
  fail.  The branches for POSIX are modelled, with a signed \<open>char\<close>.

  \<^bold>\<open>Not modelled.\<close>  Allocation failure (but for the merge of ignore rules) and the freeing of memory;
  the sharing of strings through thread-local scratch buffers, which the source rotates eight deep, so
  that a row with more than eight computed columns can show a later value in an earlier column;
  SQLite itself: its statements are modelled on two tables, rows without an ORDER BY come in table
  order, and a failing statement has no counterpart; the probing and growth of the hash table; the two
  flushes of the buffer into an open store; log output.  The extraction itself rests on parse trees
  of a vendored library and generated grammars; the remaining passes of the pipeline, the rest of the
  store (writes, search filters, other traversals), the daemon, the tool server, the installer, the
  semantic search and the other parts of the repository are outside this library.
\<close>

end
